(* ===== verification/Py_Base.thy ===== *)
theory Py_Base
  imports Complex_Main "HOL-Library.AList" "HOL-Library.Char_ord" "HOL-Library.List_Lexorder"
begin

section \<open>Shared prelude: the Python values and library routines the components use\<close>

text \<open>
  This theory holds what several components of the development share and nothing about one
  of them: fallible results, insertion-ordered dictionaries, the string routines of Python's
  standard library the modelled code calls, de-duplication and instants of time.

  \<^item> A function that may raise returns \<open>'e + 'a\<close>: \<open>Inl\<close> is the exception, \<open>Inr\<close> the value.
  \<^item> A Python \<open>dict\<close> is an association list with distinct keys.  \<open>AList.update\<close> is
    \<open>d[k] = v\<close> (an existing key keeps its position, a new one goes to the end),
    \<open>AList.delete\<close> is \<open>d.pop(k, None)\<close> and \<open>map_of\<close> is \<open>d.get(k)\<close>.
  \<^item> A \<open>str\<close> is a \<open>string\<close>; the characters are the code points up to 255.
  \<^item> A \<open>float\<close> is an exact rational (\<open>rat\<close>): rounding of binary floating point is not modelled.
\<close>

named_theorems result_simps \<open>inversion of successful fallible computations\<close>
named_theorems dict_simps \<open>look-up after an operation on a dictionary\<close>

subsection \<open>Fallible computations\<close>

type_synonym ('e, 'a) result = "'e + 'a"

definition rbind :: "('e, 'a) result \<Rightarrow> ('a \<Rightarrow> ('e, 'b) result) \<Rightarrow> ('e, 'b) result" where
  "rbind m f = (case m of Inl e \<Rightarrow> Inl e | Inr x \<Rightarrow> f x)"

definition require :: "bool \<Rightarrow> 'e \<Rightarrow> ('e, unit) result" where
  "require b e = (if b then Inr () else Inl e)"

lemma rbind_simps [simp]:
  "rbind (Inl e) f = Inl e" "rbind (Inr x) f = f x"
  by (simp_all add: rbind_def)

lemma rbind_eq_Inr [result_simps]: "rbind m f = Inr y \<longleftrightarrow> (\<exists>x. m = Inr x \<and> f x = Inr y)"
  by (cases m) auto

lemma rbind_eq_Inl [result_simps]:
  "rbind m f = Inl e \<longleftrightarrow> m = Inl e \<or> (\<exists>x. m = Inr x \<and> f x = Inl e)"
  by (cases m) auto

lemma require_simps [simp]: "require True e = Inr ()" "require False e = Inl e"
  by (simp_all add: require_def)

lemma require_eq_Inr [result_simps]: "require b e = Inr u \<longleftrightarrow> b"
  by (simp add: require_def)

lemma require_eq_Inl [result_simps]: "require b e = Inl e' \<longleftrightarrow> \<not> b \<and> e' = e"
  by (auto simp: require_def)

fun rfold :: "('a \<Rightarrow> 's \<Rightarrow> ('e, 's) result) \<Rightarrow> 'a list \<Rightarrow> 's \<Rightarrow> ('e, 's) result" where
  "rfold f [] s = Inr s"
| "rfold f (x # xs) s = rbind (f x s) (rfold f xs)"

lemma rfold_append: "rfold f (xs @ ys) s = rbind (rfold f xs s) (rfold f ys)"
  by (induction xs arbitrary: s) (auto simp: rbind_def split: sum.splits)

fun rmap :: "('a \<Rightarrow> ('e, 'b) result) \<Rightarrow> 'a list \<Rightarrow> ('e, 'b list) result" where
  "rmap f [] = Inr []"
| "rmap f (x # xs) = rbind (f x) (\<lambda>y. rbind (rmap f xs) (\<lambda>ys. Inr (y # ys)))"

lemma rmap_Inr_iff: "rmap f xs = Inr ys \<longleftrightarrow> list_all2 (\<lambda>x y. f x = Inr y) xs ys"
  by (induction xs arbitrary: ys) (auto simp: result_simps list_all2_Cons1)

lemma rmap_Inr_length: "rmap f xs = Inr ys \<Longrightarrow> length ys = length xs"
  by (auto simp: rmap_Inr_iff dest: list_all2_lengthD)

lemma rmap_id: "(\<And>x. x \<in> set xs \<Longrightarrow> f x = Inr x) \<Longrightarrow> rmap f xs = Inr xs"
  by (induction xs) auto

text \<open>
  Code that changes a state and may raise: the state after the exception is kept, because a
  file written before the \<open>raise\<close> stays written.
\<close>

type_synonym ('s, 'e, 'a) action = "'s \<Rightarrow> 's \<times> ('e, 'a) result"

definition abind :: "('s, 'e, 'a) action \<Rightarrow> ('a \<Rightarrow> ('s, 'e, 'b) action) \<Rightarrow> ('s, 'e, 'b) action" where
  "abind m f s = (case m s of (s', Inl e) \<Rightarrow> (s', Inl e) | (s', Inr x) \<Rightarrow> f x s')"

definition areturn :: "'a \<Rightarrow> ('s, 'e, 'a) action" where
  "areturn x s = (s, Inr x)"

definition araise :: "'e \<Rightarrow> ('s, 'e, 'a) action" where
  "araise e s = (s, Inl e)"

definition alift :: "('e, 'a) result \<Rightarrow> ('s, 'e, 'a) action" where
  "alift r s = (s, r)"

lemma action_simps [simp]:
  "areturn x s = (s, Inr x)" "araise e s = (s, Inl e)" "alift r s = (s, r)"
  by (simp_all add: areturn_def araise_def alift_def)

lemma abind_pure [simp]:
  "abind (areturn x) f s = f x s" "abind (araise e) f s = (s, Inl e)"
  "abind (alift (Inr x)) f s = f x s" "abind (alift (Inl e)) f s = (s, Inl e)"
  by (simp_all add: abind_def)

lemma abind_Inr [simp]: "m s = (s', Inr x) \<Longrightarrow> abind m f s = f x s'"
  by (simp add: abind_def)

lemma abind_Inl [simp]: "m s = (s', Inl e) \<Longrightarrow> abind m f s = (s', Inl e)"
  by (simp add: abind_def)

lemma abind_cases:
  assumes "abind m f s = (t, r)"
  obtains (raises) e where "m s = (t, Inl e)" "r = Inl e"
    | (returns) s' x where "m s = (s', Inr x)" "f x s' = (t, r)"
  using assms by (auto simp: abind_def split: prod.splits sum.splits)

subsection \<open>JSON documents\<close>

text \<open>
  A document handed to \<open>json.dumps\<close>.  \<open>JTime\<close> is the ISO-8601 string of a UTC instant, kept as
  the instant (\<open>isoformat\<close> and \<open>fromisoformat\<close> are inverse on such instants).
\<close>

datatype json =
    JNull
  | JBool bool
  | JInt int
  | JNum rat
  | JStr string
  | JTime int
  | JList "json list"
  | JObj "(string \<times> json) list"

definition jopt :: "('a \<Rightarrow> json) \<Rightarrow> 'a option \<Rightarrow> json" where
  "jopt f x = (case x of None \<Rightarrow> JNull | Some y \<Rightarrow> f y)"

definition jstrs :: "string list \<Rightarrow> json" where
  "jstrs xs = JList (map JStr xs)"

fun jfield :: "string \<Rightarrow> json \<Rightarrow> json option" where
  "jfield k (JObj kvs) = map_of kvs k"
| "jfield k _ = None"

subsection \<open>Dictionaries\<close>

lemma dict_get_update [dict_simps]:
  "map_of (AList.update k v d) k' = (if k' = k then Some v else map_of d k')"
  by (simp add: update_conv')

lemma dict_get_pop [dict_simps]:
  "map_of (AList.delete k d) k' = (if k' = k then None else map_of d k')"
  by (simp add: delete_conv')

lemma dict_keys_update: "fst ` set (AList.update k v d) = insert k (fst ` set d)"
proof -
  have "dom (map_of (AList.update k v d)) = insert k (dom (map_of d))"
    by (simp add: update_conv')
  then show ?thesis by (simp only: dom_map_of_conv_image_fst)
qed

lemma dict_update_same_keys:
  "k \<in> fst ` set d \<Longrightarrow> map fst (AList.update k v d) = map fst d"
  by (simp add: update_keys)

text \<open>\<open>{k: f(v) for k, v in d.items()}\<close>.\<close>

definition map_vals :: "('v \<Rightarrow> 'w) \<Rightarrow> ('k \<times> 'v) list \<Rightarrow> ('k \<times> 'w) list" where
  "map_vals f d = map (\<lambda>(k, v). (k, f v)) d"

lemma map_of_map_vals [dict_simps]: "map_of (map_vals f d) k = map_option f (map_of d k)"
  by (induction d) (auto simp: map_vals_def)

lemma map_fst_map_vals [simp]: "map fst (map_vals f d) = map fst d"
  by (induction d) (auto simp: map_vals_def)

text \<open>\<open>dict.fromkeys(xs)\<close> keeps the first of equal values: \<open>list(dict.fromkeys(xs))\<close>.\<close>

fun dedup :: "'a list \<Rightarrow> 'a list" where
  "dedup [] = []"
| "dedup (x # xs) = x # filter (\<lambda>y. y \<noteq> x) (dedup xs)"

lemma set_dedup [simp]: "set (dedup xs) = set xs"
  by (induction xs) auto

lemma distinct_dedup [simp]: "distinct (dedup xs)"
  by (induction xs) auto

lemma dedup_eq_Nil_iff [simp]: "dedup xs = [] \<longleftrightarrow> xs = []"
  by (cases xs) auto

lemma dedup_distinct: "distinct xs \<Longrightarrow> dedup xs = xs"
proof (induction xs)
  case Nil
  then show ?case by simp
next
  case (Cons x xs)
  then show ?case by (auto intro: filter_True)
qed

lemma length_dedup_le: "length (dedup xs) \<le> length xs"
proof (induction xs)
  case Nil
  then show ?case by simp
next
  case (Cons x xs)
  have "length (filter (\<lambda>y. y \<noteq> x) (dedup xs)) \<le> length (dedup xs)"
    by (rule length_filter_le)
  also note Cons.IH
  finally show ?case by simp
qed

text \<open>\<open>d.get(k, default)\<close> and \<open>x or default\<close> of a key that may be absent.\<close>

definition get_or :: "'a \<Rightarrow> 'a option \<Rightarrow> 'a" where
  "get_or d x = (case x of None \<Rightarrow> d | Some v \<Rightarrow> v)"

subsection \<open>Strings\<close>

text \<open>The characters \<open>str.strip()\<close> and \<open>str.split()\<close> treat as white space.\<close>

definition py_space :: "char \<Rightarrow> bool" where
  "py_space c \<longleftrightarrow> (let n = of_char c :: nat in
     9 \<le> n \<and> n \<le> 13 \<or> 28 \<le> n \<and> n \<le> 32 \<or> n = 133 \<or> n = 160)"

definition strip :: "string \<Rightarrow> string" where
  "strip s = rev (dropWhile py_space (rev (dropWhile py_space s)))"

text \<open>\<open>str.lower()\<close> on the modelled code points: ASCII and Latin-1 capitals.\<close>

definition lower_char :: "char \<Rightarrow> char" where
  "lower_char c = (let n = of_char c :: nat in
     if 65 \<le> n \<and> n \<le> 90 \<or> 192 \<le> n \<and> n \<le> 222 \<and> n \<noteq> 215 then char_of (n + 32) else c)"

definition lower :: "string \<Rightarrow> string" where
  "lower s = map lower_char s"

text \<open>\<open>str.upper()\<close>, exact where its result is compared with ASCII text.\<close>

definition upper_char :: "char \<Rightarrow> char" where
  "upper_char c = (let n = of_char c :: nat in if 97 \<le> n \<and> n \<le> 122 then char_of (n - 32) else c)"

definition upper :: "string \<Rightarrow> string" where
  "upper s = map upper_char s"

fun starts_with :: "string \<Rightarrow> string \<Rightarrow> bool" where
  "starts_with s [] = True"
| "starts_with [] (p # ps) = False"
| "starts_with (c # cs) (p # ps) = (c = p \<and> starts_with cs ps)"

definition ends_with :: "string \<Rightarrow> string \<Rightarrow> bool" where
  "ends_with s p = starts_with (rev s) (rev p)"

text \<open>\<open>p in s\<close> for strings.\<close>

fun contains :: "string \<Rightarrow> string \<Rightarrow> bool" where
  "contains [] p = (p = [])"
| "contains (c # cs) p = (starts_with (c # cs) p \<or> contains cs p)"

lemma starts_with_iff: "starts_with s p \<longleftrightarrow> (\<exists>r. s = p @ r)"
  by (induction s p rule: starts_with.induct) auto

lemma contains_iff: "contains s p \<longleftrightarrow> (\<exists>l r. s = l @ p @ r)"
proof (induction s)
  case Nil
  then show ?case by simp
next
  case (Cons c cs)
  note IH = Cons.IH
  show ?case
  proof
    assume "contains (c # cs) p"
    then consider r where "c # cs = p @ r" | l r where "cs = l @ p @ r"
      using Cons.IH by (auto simp: starts_with_iff)
    then show "\<exists>l r. c # cs = l @ p @ r"
    proof cases
      case (1 r)
      then have "c # cs = [] @ p @ r" by simp
      then show ?thesis by blast
    next
      case (2 l r)
      then have "c # cs = (c # l) @ p @ r" by simp
      then show ?thesis by blast
    qed
  next
    assume "\<exists>l r. c # cs = l @ p @ r"
    then obtain l r where eq: "c # cs = l @ p @ r" by blast
    show "contains (c # cs) p"
    proof (cases l)
      case Nil
      with eq have "starts_with (c # cs) p" by (auto simp: starts_with_iff)
      then show ?thesis by simp
    next
      case (Cons b k)
      with eq have "cs = k @ p @ r" by simp
      then have "contains cs p" using IH by blast
      then show ?thesis by simp
    qed
  qed
qed

text \<open>\<open>sep.join(parts)\<close>.\<close>

fun join :: "string \<Rightarrow> string list \<Rightarrow> string" where
  "join sep [] = []"
| "join sep [x] = x"
| "join sep (x # y # zs) = x @ sep @ join sep (y # zs)"

text \<open>\<open>s.split(c)\<close> for a one-character separator.\<close>

fun split_on :: "char \<Rightarrow> string \<Rightarrow> string list" where
  "split_on c [] = [[]]"
| "split_on c (x # xs) =
     (if x = c then [] # split_on c xs
      else (case split_on c xs of [] \<Rightarrow> [[x]] | p # ps \<Rightarrow> (x # p) # ps))"

lemma split_on_plain: "c \<notin> set p \<Longrightarrow> split_on c p = [p]"
  by (induction p) auto

lemma split_on_cons: "c \<notin> set p \<Longrightarrow> split_on c (p @ c # r) = p # split_on c r"
  by (induction p) auto

lemma split_on_pieces: "q \<in> set (split_on c s) \<Longrightarrow> c \<notin> set q"
  by (induction s arbitrary: q) (auto split: if_splits list.splits)

lemma split_on_join:
  assumes "\<forall>p\<in>set ps. c \<notin> set p" "ps \<noteq> []"
  shows "split_on c (join [c] ps) = ps"
  using assms by (induction "[c]" ps rule: join.induct) (auto simp: split_on_plain split_on_cons)

lemma split_nonempty: "split_on c t \<noteq> []"
  by (cases t) (auto split: list.split)

lemma join_split: "join [c] (split_on c t) = t"
proof (induction t)
  case (Cons x t)
  obtain p ps where ps: "split_on c t = p # ps" using split_nonempty [of c t] by (cases "split_on c t") auto
  with Cons show ?case by (cases ps) auto
qed simp

text \<open>Decimal rendering of an integer: \<open>str(n)\<close> and the padded \<open>f"{n:02d}"\<close>.\<close>

fun nat_digits :: "nat \<Rightarrow> string" where
  "nat_digits n = (if n < 10 then [char_of (48 + n)]
                   else nat_digits (n div 10) @ [char_of (48 + n mod 10)])"

declare nat_digits.simps [simp del]

definition show_nat :: "nat \<Rightarrow> string" where
  "show_nat n = nat_digits n"

definition show_int :: "int \<Rightarrow> string" where
  "show_int i = (if i < 0 then ''-'' @ nat_digits (nat (- i)) else nat_digits (nat i))"

definition pad_nat :: "nat \<Rightarrow> nat \<Rightarrow> string" where
  "pad_nat w n = replicate (w - length (nat_digits n)) (CHR ''0'') @ nat_digits n"

text \<open>The number a row of digits stands for.\<close>

definition digits_value :: "string \<Rightarrow> nat" where
  "digits_value s = foldl (\<lambda>v c. 10 * v + (of_char c - 48)) 0 s"

lemma digits_value_nat_digits: "digits_value (nat_digits n) = n"
proof (induction n rule: nat_digits.induct)
  case (1 n)
  have small: "of_char (char_of (48 + k) :: char) = 48 + k" if "k < 10" for k :: nat
    using that by (simp add: take_bit_nat_eq_self flip: take_bit_eq_mod)
  show ?case
  proof (cases "n < 10")
    case True
    then show ?thesis using small [of n] by (simp add: nat_digits.simps [of n] digits_value_def)
  next
    case False
    with 1 have "digits_value (nat_digits (n div 10)) = n div 10" by simp
    moreover have "of_char (char_of (48 + n mod 10) :: char) = 48 + n mod 10" by (rule small) simp
    ultimately show ?thesis using False by (simp add: nat_digits.simps [of n] digits_value_def)
  qed
qed

lemma nat_digits_no_dash: "CHR ''-'' \<notin> set (nat_digits n)"
proof (induction n rule: nat_digits.induct)
  case (1 n)
  have digit: "char_of (48 + k) \<noteq> CHR ''-''" if "k < 10" for k :: nat
  proof
    assume "char_of (48 + k) = CHR ''-''"
    then have "of_char (char_of (48 + k) :: char) = (45::nat)" by simp
    with that show False by (simp add: take_bit_nat_eq_self flip: take_bit_eq_mod)
  qed
  show ?case
  proof (cases "n < 10")
    case True
    then show ?thesis using digit [of n] by (auto simp: nat_digits.simps [of n])
  next
    case False
    with 1 digit [of "n mod 10"] show ?thesis by (auto simp: nat_digits.simps [of n])
  qed
qed

lemma length_nat_digits_pos: "0 < length (nat_digits n)"
  by (subst nat_digits.simps) simp

lemma length_nat_digits_bound: "n < 10 ^ k \<Longrightarrow> 0 < k \<Longrightarrow> length (nat_digits n) \<le> k"
proof (induction n arbitrary: k rule: nat_digits.induct)
  case (1 n)
  show ?case
  proof (cases "n < 10")
    case True
    with "1.prems" show ?thesis by (simp add: nat_digits.simps [of n])
  next
    case False
    with "1.prems" obtain j where k: "k = Suc j" and "j \<noteq> 0"
      by (cases k; cases "k - 1") auto
    from "1.prems"(1) k have "n div 10 < 10 ^ j"
      by (simp add: less_mult_imp_div_less mult.commute)
    with "1.IH" [OF False] \<open>j \<noteq> 0\<close> have "length (nat_digits (n div 10)) \<le> j" by simp
    with False k show ?thesis by (simp add: nat_digits.simps [of n])
  qed
qed

subsection \<open>Instants and durations\<close>

text \<open>
  An aware \<open>datetime\<close> in UTC is its number of microseconds since 0001-01-01T00:00:00Z, between 0
  and \<open>datetime.max\<close>.  Adding \<open>timedelta(seconds=x)\<close> rounds \<open>x\<close> to microseconds, half to
  even, and raises \<open>OverflowError\<close> (\<open>None\<close> here) when the sum is out of range.
\<close>

type_synonym instant = int

definition instant_max :: instant where
  "instant_max = 315537897599999999"

definition round_half_even :: "rat \<Rightarrow> int" where
  "round_half_even x =
     (let f = \<lfloor>x\<rfloor>; d = x - of_int f
      in if d < 1 / 2 then f else if 1 / 2 < d then f + 1 else if even f then f else f + 1)"

definition add_seconds :: "instant \<Rightarrow> rat \<Rightarrow> instant option" where
  "add_seconds t x = (let t' = t + round_half_even (x * 1000000)
                      in if 0 \<le> t' \<and> t' \<le> instant_max then Some t' else None)"

lemma round_half_even_mono_nonneg: "0 \<le> x \<Longrightarrow> 0 \<le> round_half_even x"
proof -
  assume "0 \<le> x"
  then have "0 \<le> \<lfloor>x\<rfloor>" by simp
  then show ?thesis by (auto simp: round_half_even_def Let_def)
qed

lemma add_seconds_le: "0 \<le> x \<Longrightarrow> add_seconds t x = Some t' \<Longrightarrow> t \<le> t'"
  using round_half_even_mono_nonneg [of "x * 1000000"]
  by (auto simp: add_seconds_def Let_def split: if_splits)

subsection \<open>Sessions of operations on a state\<close>

text \<open>
  What components that keep a state between calls share: an invariant every operation keeps holds
  after every sequence of operations, and a reflexive and transitive relation every operation
  respects relates the first state of a session to its last.
\<close>

text \<open>An invariant the allowed operations keep.\<close>

locale guarded_session =
  fixes run :: "'op \<Rightarrow> 's \<Rightarrow> 's" and good :: "'s \<Rightarrow> bool" and allowed :: "'op \<Rightarrow> bool"
  assumes keeps_allowed: "good s \<Longrightarrow> allowed x \<Longrightarrow> good (run x s)"
begin

lemma guarded_session_good: "good s \<Longrightarrow> list_all allowed xs \<Longrightarrow> good (fold run xs s)"
  by (induction xs arbitrary: s) (auto intro: keeps_allowed)

end

locale op_session =
  fixes run :: "'op \<Rightarrow> 's \<Rightarrow> 's" and good :: "'s \<Rightarrow> bool"
  assumes keeps: "good s \<Longrightarrow> good (run x s)"
begin

lemma session_good: "good s \<Longrightarrow> good (fold run xs s)"
  by (induction xs arbitrary: s) (auto intro: keeps)

end

sublocale op_session \<subseteq> guarded_session run good "\<lambda>_. True"
  by unfold_locales (rule keeps)

locale op_history = op_session run good
  for run :: "'op \<Rightarrow> 's \<Rightarrow> 's" and good :: "'s \<Rightarrow> bool" +
  fixes later :: "'s \<Rightarrow> 's \<Rightarrow> bool"
  assumes now: "later s s"
    and onward: "later s t \<Longrightarrow> later t u \<Longrightarrow> later s u"
    and moves: "good s \<Longrightarrow> later s (run x s)"
begin

lemma session_later: "good s \<Longrightarrow> later s (fold run xs s)"
proof (induction xs arbitrary: s)
  case (Cons x xs)
  from onward [OF moves [OF Cons.prems, of x] Cons.IH [OF keeps [OF Cons.prems]]] show ?case by simp
qed (simp add: now)

lemma session_middle: "good s \<Longrightarrow> later (fold run xs s) (fold run (xs @ ys) s)"
  using session_later [of "fold run xs s" ys] session_good by simp

end

end
