(* ===== verification/Hash_Chain.thy ===== *)
theory Hash_Chain
  imports Py_Base
begin

section \<open>Hash-chained append-only logs\<close>

text \<open>
  Two components keep an append-only log whose records are numbered, carry the hash of the
  record before them and their own hash: the durable runtime (\<open>durable_runtime/store.py\<close>) and
  the audit log of the tool broker (\<open>tool_broker/audit.py\<close>).  \<open>chain_from\<close> is the check both
  make when they read a log; the locale \<open>hash_chain\<close> is what they promise of the record an
  append writes, and holds the facts that follow: an append keeps the log valid, every prefix
  of a valid log is valid, and the last hash pins down the whole log.
\<close>

fun chain_from ::
  "('e \<Rightarrow> int) \<Rightarrow> ('e \<Rightarrow> 'h) \<Rightarrow> ('e \<Rightarrow> 'h) \<Rightarrow> ('e \<Rightarrow> 'h) \<Rightarrow> int \<Rightarrow> 'h \<Rightarrow> 'e list \<Rightarrow> bool" where
  "chain_from sq pv th dg n h [] = True"
| "chain_from sq pv th dg n h (e # es) =
     (sq e = n \<and> pv e = h \<and> th e = dg e \<and> chain_from sq pv th dg (n + 1) (th e) es)"

definition head_hash :: "('e \<Rightarrow> 'h) \<Rightarrow> 'h \<Rightarrow> 'e list \<Rightarrow> 'h" where
  "head_hash th h es = (if es = [] then h else th (last es))"

lemma head_hash_simps [simp]:
  "head_hash th h [] = h"
  "head_hash th h (e # es) = head_hash th (th e) es"
  "head_hash th h (es @ [e]) = th e"
  by (simp_all add: head_hash_def)

lemma chain_from_append:
  "chain_from sq pv th dg n h (es @ fs) \<longleftrightarrow>
     chain_from sq pv th dg n h es \<and>
     chain_from sq pv th dg (n + int (length es)) (head_hash th h es) fs"
  by (induction es arbitrary: n h) (auto simp: algebra_simps)

lemma chain_from_take:
  "chain_from sq pv th dg n h es \<Longrightarrow> chain_from sq pv th dg n h (take k es)"
  using chain_from_append [of sq pv th dg n h "take k es" "drop k es"] by simp

lemma chain_from_nth_seq:
  "chain_from sq pv th dg n h es \<Longrightarrow> i < length es \<Longrightarrow> sq (es ! i) = n + int i"
proof (induction es arbitrary: n h i)
  case Nil
  then show ?case by simp
next
  case (Cons e es)
  then show ?case by (cases i) auto
qed

lemma chain_from_hash: "chain_from sq pv th dg n h es \<Longrightarrow> e \<in> set es \<Longrightarrow> th e = dg e"
  by (induction es arbitrary: n h) auto

text \<open>
  \<open>collision_free\<close> is the assumption on the hash function, for the records at hand only: two
  of them with the same hash have the same content.
\<close>

definition collision_free :: "('e \<Rightarrow> 'h) \<Rightarrow> 'e set \<Rightarrow> bool" where
  "collision_free th S \<longleftrightarrow> (\<forall>x\<in>S. \<forall>y\<in>S. th x = th y \<longrightarrow> x = y)"

lemma collision_free_mono: "collision_free th S \<Longrightarrow> T \<subseteq> S \<Longrightarrow> collision_free th T"
  by (auto simp: collision_free_def)

locale hash_chain =
  fixes sq :: "'e \<Rightarrow> int"
    and pv :: "'e \<Rightarrow> 'h"
    and th :: "'e \<Rightarrow> 'h"
    and dg :: "'e \<Rightarrow> 'h"
    and seal :: "int \<Rightarrow> 'h \<Rightarrow> 'b \<Rightarrow> 'e"
  assumes seal_seq: "sq (seal n h b) = n"
    and seal_prev: "pv (seal n h b) = h"
    and seal_hash: "th (seal n h b) = dg (seal n h b)"
begin

lemma seal_extends:
  assumes "chain_from sq pv th dg n h es" and "m = n + int (length es)"
    and "p = head_hash th h es"
  shows "chain_from sq pv th dg n h (es @ [seal m p b])"
  using assms by (simp add: chain_from_append seal_seq seal_prev seal_hash)

lemma head_determines_log:
  assumes "chain_from sq pv th dg n h es" and "chain_from sq pv th dg n h fs"
    and "length es = length fs"
    and "head_hash th h es = head_hash th h fs"
    and "collision_free th (set es \<union> set fs)"
  shows "es = fs"
  using assms
proof (induction es arbitrary: fs rule: rev_induct)
  case Nil
  then show ?case by simp
next
  case (snoc e es)
  from snoc.prems(3) obtain f gs where fs: "fs = gs @ [f]"
    by (cases fs rule: rev_cases) auto
  from snoc.prems fs have "th e = th f" and "e \<in> set (es @ [e]) \<union> set fs"
    and "f \<in> set (es @ [e]) \<union> set fs" by auto
  with snoc.prems(5) have ef: "e = f" by (auto simp: collision_free_def)
  have "es = gs"
  proof (rule snoc.IH)
    show "chain_from sq pv th dg n h es" using snoc.prems(1) by (simp add: chain_from_append)
    show "chain_from sq pv th dg n h gs" using snoc.prems(2) fs by (simp add: chain_from_append)
    show "length es = length gs" using snoc.prems(3) fs by simp
    show "head_hash th h es = head_hash th h gs"
      using snoc.prems(1,2) fs ef by (simp add: chain_from_append)
    show "collision_free th (set es \<union> set gs)"
      using snoc.prems(5) fs by (auto intro: collision_free_mono)
  qed
  with fs ef show ?case by simp
qed

end

end
