(* ===== verification/Durable_Model.thy ===== *)
theory Durable_Model
  imports Hash_Chain
begin

section \<open>Durable runtime: data, events and the replay function\<close>

text \<open>
  The data model of \<open>durable_runtime/models.py\<close> and the pure part of
  \<open>durable_runtime/store.py\<close>: the transition tables, the documents that are hashed, the
  operation hash and \<open>RuntimeStore._apply\<close>, the function that replays one event.

  SHA-256 is a parameter (\<open>digests\<close>): \<open>doc_hash\<close> stands for \<open>_hash\<close>, the digest of the canonical
  JSON of a document, \<open>text_hash\<close> for the digest of a string.
  A payload is a constructor per event type with the fields the code writes; payloads of a
  shape the code never writes are outside the model.
\<close>

record digests =
  doc_hash :: "json \<Rightarrow> string"
  text_hash :: "string \<Rightarrow> string"

datatype run_state =
    R_Created | R_Running | R_Paused | R_Waiting | R_Awaiting_Approval
  | R_Completed | R_Failed | R_Cancelled

datatype node_state =
    N_Pending | N_Running | N_Paused | N_Waiting | N_Awaiting_Approval
  | N_Succeeded | N_Failed | N_Cancelled

datatype retry_class = Transient | Rate_Limit | Resource | Permanent | Unknown

record environment_snapshot =
  python_version :: string
  env_platform :: string
  executable :: string
  env_cwd :: string

record git_snapshot =
  git_root :: "string option"
  git_head :: "string option"
  git_branch :: "string option"
  git_dirty :: "bool option"

record lease =
  l_owner :: string
  l_token :: string
  l_acquired_at :: instant
  l_heartbeat_at :: instant
  l_expires_at :: instant

record retry_metadata =
  rm_attempt :: int
  rm_classification :: retry_class
  rm_retryable :: bool
  rm_backoff_seconds :: "rat option"
  rm_not_before :: "instant option"
  rm_reason :: string

record approval =
  approved_by :: string
  approved_at :: instant

record node_snapshot =
  n_node_id :: string
  n_state :: node_state
  n_lease :: "lease option"
  n_attempts :: int
  n_retry :: "retry_metadata option"
  n_retry_history :: "retry_metadata list"

record run_snapshot =
  rs_run_id :: string
  rs_state :: run_state
  rs_nodes :: "(string \<times> node_snapshot) list"
  rs_environment :: environment_snapshot
  rs_git :: git_snapshot
  rs_created_at :: instant
  rs_updated_at :: instant
  rs_last_sequence :: int
  rs_last_hash :: string
  rs_approvals :: "approval list"
  rs_idempotency :: "(string \<times> string) list"

datatype payload =
    P_Run_Created "string list" environment_snapshot git_snapshot
  | P_Run_Transition run_state run_state "string option" "string option"
  | P_Node_Transition string node_state node_state "string option" "string option"
  | P_Lease_Acquired string string string instant instant instant rat
  | P_Lease_Heartbeat string string instant instant rat
  | P_Lease_Released string string
  | P_Leases_Expired "string list" instant
  | P_Retry_Recorded string int retry_class bool "rat option" "instant option" string rat rat
  | P_Other string

record event =
  ev_sequence :: int
  ev_event_id :: string
  ev_run_id :: string
  ev_payload :: payload
  ev_occurred_at :: instant
  ev_previous_hash :: string
  ev_hash :: string
  ev_idempotency_key :: string
  ev_operation_hash :: string

datatype rt_error =
    Value_Error | Key_Error | Overflow_Error
  | Run_Not_Found | Run_Already_Exists | Invalid_Transition | Idempotency_Conflict
  | Lease_Conflict | Lease_Expired | Corrupt_Run

subsection \<open>Transition tables and enumeration values\<close>

definition zero_hash :: string where
  "zero_hash = replicate 64 (CHR ''0'')"

fun run_targets :: "run_state \<Rightarrow> run_state list" where
  "run_targets R_Created = [R_Running, R_Cancelled]"
| "run_targets R_Running =
     [R_Paused, R_Waiting, R_Awaiting_Approval, R_Completed, R_Failed, R_Cancelled]"
| "run_targets R_Paused = [R_Running, R_Cancelled]"
| "run_targets R_Waiting = [R_Running, R_Awaiting_Approval, R_Cancelled]"
| "run_targets R_Awaiting_Approval = [R_Running, R_Failed, R_Cancelled]"
| "run_targets _ = []"

fun node_targets :: "node_state \<Rightarrow> node_state list" where
  "node_targets N_Pending = [N_Running, N_Cancelled]"
| "node_targets N_Running =
     [N_Paused, N_Waiting, N_Awaiting_Approval, N_Succeeded, N_Failed, N_Cancelled]"
| "node_targets N_Paused = [N_Running, N_Cancelled]"
| "node_targets N_Waiting = [N_Running, N_Awaiting_Approval, N_Cancelled]"
| "node_targets N_Awaiting_Approval = [N_Running, N_Failed, N_Cancelled]"
| "node_targets _ = []"

fun run_state_value :: "run_state \<Rightarrow> string" where
  "run_state_value R_Created = ''created''"
| "run_state_value R_Running = ''running''"
| "run_state_value R_Paused = ''paused''"
| "run_state_value R_Waiting = ''waiting''"
| "run_state_value R_Awaiting_Approval = ''awaiting_approval''"
| "run_state_value R_Completed = ''completed''"
| "run_state_value R_Failed = ''failed''"
| "run_state_value R_Cancelled = ''cancelled''"

fun node_state_value :: "node_state \<Rightarrow> string" where
  "node_state_value N_Pending = ''pending''"
| "node_state_value N_Running = ''running''"
| "node_state_value N_Paused = ''paused''"
| "node_state_value N_Waiting = ''waiting''"
| "node_state_value N_Awaiting_Approval = ''awaiting_approval''"
| "node_state_value N_Succeeded = ''succeeded''"
| "node_state_value N_Failed = ''failed''"
| "node_state_value N_Cancelled = ''cancelled''"

fun retry_class_value :: "retry_class \<Rightarrow> string" where
  "retry_class_value Transient = ''transient''"
| "retry_class_value Rate_Limit = ''rate_limit''"
| "retry_class_value Resource = ''resource''"
| "retry_class_value Permanent = ''permanent''"
| "retry_class_value Unknown = ''unknown''"

subsection \<open>Documents\<close>

definition environment_json :: "environment_snapshot \<Rightarrow> json" where
  "environment_json e = JObj
     [(''python_version'', JStr (python_version e)), (''platform'', JStr (env_platform e)),
      (''executable'', JStr (executable e)), (''cwd'', JStr (env_cwd e))]"

definition git_json :: "git_snapshot \<Rightarrow> json" where
  "git_json g = JObj
     [(''root'', jopt JStr (git_root g)), (''head'', jopt JStr (git_head g)),
      (''branch'', jopt JStr (git_branch g)), (''dirty'', jopt JBool (git_dirty g))]"

fun payload_type :: "payload \<Rightarrow> string" where
  "payload_type (P_Run_Created _ _ _) = ''run_created''"
| "payload_type (P_Run_Transition _ _ _ _) = ''run_transition''"
| "payload_type (P_Node_Transition _ _ _ _ _) = ''node_transition''"
| "payload_type (P_Lease_Acquired _ _ _ _ _ _ _) = ''lease_acquired''"
| "payload_type (P_Lease_Heartbeat _ _ _ _ _) = ''lease_heartbeat''"
| "payload_type (P_Lease_Released _ _) = ''lease_released''"
| "payload_type (P_Leases_Expired _ _) = ''leases_expired''"
| "payload_type (P_Retry_Recorded _ _ _ _ _ _ _ _ _) = ''retry_recorded''"
| "payload_type (P_Other t) = t"

definition approved_field :: "string option \<Rightarrow> (string \<times> json) list" where
  "approved_field a = (case a of None \<Rightarrow> [] | Some who \<Rightarrow> [(''approved_by'', JStr who)])"

fun payload_fields :: "payload \<Rightarrow> (string \<times> json) list" where
  "payload_fields (P_Run_Created ids env git) =
     [(''node_ids'', jstrs ids), (''environment'', environment_json env), (''git'', git_json git)]"
| "payload_fields (P_Run_Transition src tgt reason appr) =
     [(''from'', JStr (run_state_value src)), (''to'', JStr (run_state_value tgt)),
      (''reason'', jopt JStr reason)] @ approved_field appr"
| "payload_fields (P_Node_Transition nid src tgt reason appr) =
     [(''node_id'', JStr nid), (''from'', JStr (node_state_value src)),
      (''to'', JStr (node_state_value tgt)), (''reason'', jopt JStr reason)] @ approved_field appr"
| "payload_fields (P_Lease_Acquired nid owner token acq hb ex ttl) =
     [(''node_id'', JStr nid), (''owner'', JStr owner), (''token'', JStr token),
      (''acquired_at'', JTime acq), (''heartbeat_at'', JTime hb), (''expires_at'', JTime ex),
      (''ttl_seconds'', JNum ttl)]"
| "payload_fields (P_Lease_Heartbeat nid token hb ex ttl) =
     [(''node_id'', JStr nid), (''token'', JStr token), (''heartbeat_at'', JTime hb),
      (''expires_at'', JTime ex), (''ttl_seconds'', JNum ttl)]"
| "payload_fields (P_Lease_Released nid token) =
     [(''node_id'', JStr nid), (''token'', JStr token)]"
| "payload_fields (P_Leases_Expired ids ex) =
     [(''node_ids'', jstrs ids), (''expired_at'', JTime ex)]"
| "payload_fields (P_Retry_Recorded nid att cls rtb bo nb reason base mx) =
     [(''node_id'', JStr nid), (''attempt'', JInt att),
      (''classification'', JStr (retry_class_value cls)), (''retryable'', JBool rtb),
      (''backoff_seconds'', jopt JNum bo), (''not_before'', jopt JTime nb),
      (''reason'', JStr reason), (''base_delay_seconds'', JNum base),
      (''max_delay_seconds'', JNum mx)]"
| "payload_fields (P_Other t) = []"

text \<open>\<open>_event_body\<close>: the event document without its \<open>hash\<close> entry.\<close>

definition event_body :: "event \<Rightarrow> json" where
  "event_body e = JObj
     [(''sequence'', JInt (ev_sequence e)), (''event_id'', JStr (ev_event_id e)),
      (''run_id'', JStr (ev_run_id e)), (''event_type'', JStr (payload_type (ev_payload e))),
      (''occurred_at'', JTime (ev_occurred_at e)), (''payload'', JObj (payload_fields (ev_payload e))),
      (''previous_hash'', JStr (ev_previous_hash e)),
      (''idempotency_key'', JStr (ev_idempotency_key e)),
      (''operation_hash'', JStr (ev_operation_hash e))]"

definition lease_to_dict :: "lease option \<Rightarrow> json" where
  "lease_to_dict l = jopt (\<lambda>l. JObj
     [(''owner'', JStr (l_owner l)), (''token'', JStr (l_token l)),
      (''acquired_at'', JTime (l_acquired_at l)), (''heartbeat_at'', JTime (l_heartbeat_at l)),
      (''expires_at'', JTime (l_expires_at l))]) l"

definition retry_to_dict :: "retry_metadata option \<Rightarrow> json" where
  "retry_to_dict r = jopt (\<lambda>r. JObj
     [(''attempt'', JInt (rm_attempt r)),
      (''classification'', JStr (retry_class_value (rm_classification r))),
      (''retryable'', JBool (rm_retryable r)),
      (''backoff_seconds'', jopt JNum (rm_backoff_seconds r)),
      (''not_before'', jopt JTime (rm_not_before r)), (''reason'', JStr (rm_reason r))]) r"

definition node_to_dict :: "node_snapshot \<Rightarrow> json" where
  "node_to_dict n = JObj
     [(''node_id'', JStr (n_node_id n)), (''state'', JStr (node_state_value (n_state n))),
      (''lease'', lease_to_dict (n_lease n)), (''attempts'', JInt (n_attempts n)),
      (''retry'', retry_to_dict (n_retry n)),
      (''retry_history'', JList (map (\<lambda>r. retry_to_dict (Some r)) (n_retry_history n)))]"

definition snapshot_to_dict :: "run_snapshot \<Rightarrow> json" where
  "snapshot_to_dict s = JObj
     [(''run_id'', JStr (rs_run_id s)), (''state'', JStr (run_state_value (rs_state s))),
      (''nodes'', JObj (map (\<lambda>(k, n). (k, node_to_dict n)) (sort_key fst (rs_nodes s)))),
      (''environment'', environment_json (rs_environment s)), (''git'', git_json (rs_git s)),
      (''created_at'', JTime (rs_created_at s)), (''updated_at'', JTime (rs_updated_at s)),
      (''last_sequence'', JInt (rs_last_sequence s)), (''last_hash'', JStr (rs_last_hash s)),
      (''approvals'', JList (map (\<lambda>a. JObj [(''approved_by'', JStr (approved_by a)),
                                          (''approved_at'', JTime (approved_at a))])
                               (rs_approvals s))),
      (''idempotency'', JObj (map (\<lambda>(k, h). (k, JStr h)) (sort_key fst (rs_idempotency s))))]"

subsection \<open>Command identity\<close>

text \<open>\<open>_operation_hash\<close>: derived fields document an event but are not part of the command.\<close>

definition derived_fields :: "string \<Rightarrow> string list" where
  "derived_fields t =
     (if t = ''run_transition'' then [''from'']
      else if t = ''node_transition'' then [''from'']
      else if t = ''lease_acquired'' then [''token'', ''acquired_at'', ''heartbeat_at'', ''expires_at'']
      else if t = ''lease_heartbeat'' then [''heartbeat_at'', ''expires_at'']
      else if t = ''leases_expired'' then [''node_ids'', ''expired_at'']
      else if t = ''retry_recorded''
        then [''attempt'', ''retryable'', ''backoff_seconds'', ''not_before'']
      else [])"

definition operation_doc :: "string \<Rightarrow> (string \<times> json) list \<Rightarrow> json" where
  "operation_doc t kvs = JObj
     [(''event_type'', JStr t),
      (''payload'', JObj (filter (\<lambda>(k, v). k \<notin> set (derived_fields t)) kvs))]"

definition operation_hash :: "digests \<Rightarrow> string \<Rightarrow> (string \<times> json) list \<Rightarrow> string" where
  "operation_hash D t kvs = doc_hash D (operation_doc t kvs)"

definition payload_hash :: "digests \<Rightarrow> payload \<Rightarrow> string" where
  "payload_hash D p = operation_hash D (payload_type p) (payload_fields p)"

subsection \<open>Replaying one event\<close>

definition new_node :: "string \<Rightarrow> node_snapshot" where
  "new_node nid = \<lparr>n_node_id = nid, n_state = N_Pending, n_lease = None, n_attempts = 0,
                   n_retry = None, n_retry_history = []\<rparr>"

definition apply_created :: "event \<Rightarrow> (rt_error, run_snapshot) result" where
  "apply_created e = (case ev_payload e of
     P_Run_Created ids env git \<Rightarrow> Inr
       \<lparr>rs_run_id = ev_run_id e, rs_state = R_Created,
        rs_nodes = map (\<lambda>i. (i, new_node i)) (dedup ids),
        rs_environment = env, rs_git = git,
        rs_created_at = ev_occurred_at e, rs_updated_at = ev_occurred_at e,
        rs_last_sequence = ev_sequence e, rs_last_hash = ev_hash e, rs_approvals = [],
        rs_idempotency = [(ev_idempotency_key e, ev_operation_hash e)]\<rparr>
   | _ \<Rightarrow> Inl Corrupt_Run)"

definition terminal_node :: "node_state \<Rightarrow> bool" where
  "terminal_node s \<longleftrightarrow> s \<in> {N_Succeeded, N_Failed, N_Cancelled}"

definition cancel_node_snapshot :: "node_snapshot \<Rightarrow> node_snapshot" where
  "cancel_node_snapshot n = (if terminal_node (n_state n) then n else n\<lparr>n_state := N_Cancelled\<rparr>)"

definition get_node :: "(string \<times> node_snapshot) list \<Rightarrow> string \<Rightarrow> (rt_error, node_snapshot) result" where
  "get_node ns nid = (case map_of ns nid of None \<Rightarrow> Inl Corrupt_Run | Some n \<Rightarrow> Inr n)"

definition clear_lease ::
  "string \<Rightarrow> (string \<times> node_snapshot) list \<Rightarrow> (rt_error, (string \<times> node_snapshot) list) result" where
  "clear_lease nid ns = rbind (get_node ns nid) (\<lambda>n. Inr (AList.update nid (n\<lparr>n_lease := None\<rparr>) ns))"

text \<open>\<open>if payload.get("approved_by")\<close>: neither an absent nor an empty name is recorded.\<close>

definition new_approvals :: "string option \<Rightarrow> instant \<Rightarrow> approval list" where
  "new_approvals appr t0 = (case appr of
     Some who \<Rightarrow> if who \<noteq> [] then [\<lparr>approved_by = who, approved_at = t0\<rparr>] else []
   | None \<Rightarrow> [])"

fun apply_payload :: "run_snapshot \<Rightarrow> instant \<Rightarrow> payload \<Rightarrow> (rt_error, run_snapshot) result" where
  "apply_payload s t0 (P_Run_Transition src tgt reason appr) =
     (if src \<noteq> rs_state s \<or> tgt \<notin> set (run_targets (rs_state s)) then Inl Corrupt_Run
      else Inr (s\<lparr>rs_state := tgt,
                  rs_approvals := rs_approvals s @ new_approvals appr t0,
                  rs_nodes := (if tgt = R_Cancelled
                               then map_vals cancel_node_snapshot (rs_nodes s) else rs_nodes s)\<rparr>))"
| "apply_payload s t0 (P_Node_Transition nid src tgt reason appr) =
     rbind (get_node (rs_nodes s) nid) (\<lambda>n.
       if src \<noteq> n_state n \<or> tgt \<notin> set (node_targets (n_state n)) then Inl Corrupt_Run
       else Inr (s\<lparr>rs_nodes := AList.update nid (n\<lparr>n_state := tgt\<rparr>) (rs_nodes s)\<rparr>))"
| "apply_payload s t0 (P_Lease_Acquired nid owner token acq hb ex ttl) =
     rbind (get_node (rs_nodes s) nid) (\<lambda>n.
       Inr (s\<lparr>rs_nodes := AList.update nid
         (n\<lparr>n_lease := Some \<lparr>l_owner = owner, l_token = token, l_acquired_at = acq,
                            l_heartbeat_at = hb, l_expires_at = ex\<rparr>\<rparr>) (rs_nodes s)\<rparr>))"
| "apply_payload s t0 (P_Lease_Heartbeat nid token hb ex ttl) =
     rbind (get_node (rs_nodes s) nid) (\<lambda>n.
       case n_lease n of
         None \<Rightarrow> Inl Corrupt_Run
       | Some l \<Rightarrow> Inr (s\<lparr>rs_nodes := AList.update nid
           (n\<lparr>n_lease := Some (l\<lparr>l_heartbeat_at := hb, l_expires_at := ex\<rparr>)\<rparr>) (rs_nodes s)\<rparr>))"
| "apply_payload s t0 (P_Lease_Released nid token) =
     rbind (get_node (rs_nodes s) nid) (\<lambda>n.
       case n_lease n of
         None \<Rightarrow> Inl Corrupt_Run
       | Some l \<Rightarrow> if l_token l \<noteq> token then Inl Corrupt_Run
                   else Inr (s\<lparr>rs_nodes := AList.update nid (n\<lparr>n_lease := None\<rparr>) (rs_nodes s)\<rparr>))"
| "apply_payload s t0 (P_Leases_Expired ids ex) =
     rbind (rfold clear_lease ids (rs_nodes s)) (\<lambda>ns. Inr (s\<lparr>rs_nodes := ns\<rparr>))"
| "apply_payload s t0 (P_Retry_Recorded nid att cls rtb bo nb reason base mx) =
     rbind (get_node (rs_nodes s) nid) (\<lambda>n.
       let r = \<lparr>rm_attempt = att, rm_classification = cls, rm_retryable = rtb,
                rm_backoff_seconds = bo, rm_not_before = nb, rm_reason = reason\<rparr>
       in Inr (s\<lparr>rs_nodes := AList.update nid
            (n\<lparr>n_attempts := att, n_retry := Some r, n_retry_history := n_retry_history n @ [r]\<rparr>)
            (rs_nodes s)\<rparr>))"
| "apply_payload s t0 (P_Run_Created _ _ _) = Inl Corrupt_Run"
| "apply_payload s t0 (P_Other _) = Inl Corrupt_Run"

definition record_operation :: "event \<Rightarrow> run_snapshot \<Rightarrow> (rt_error, run_snapshot) result" where
  "record_operation e s =
     (if (case map_of (rs_idempotency s) (ev_idempotency_key e) of
            None \<Rightarrow> True | Some h \<Rightarrow> h = ev_operation_hash e)
      then Inr (s\<lparr>rs_updated_at := ev_occurred_at e, rs_last_sequence := ev_sequence e,
                  rs_last_hash := ev_hash e,
                  rs_idempotency := AList.update (ev_idempotency_key e) (ev_operation_hash e)
                                      (rs_idempotency s)\<rparr>)
      else Inl Corrupt_Run)"

definition apply_event :: "run_snapshot option \<Rightarrow> event \<Rightarrow> (rt_error, run_snapshot) result" where
  "apply_event so e = (case so of
     None \<Rightarrow> apply_created e
   | Some s \<Rightarrow>
       if ev_previous_hash e \<noteq> rs_last_hash s then Inl Corrupt_Run
       else rbind (apply_payload s (ev_occurred_at e) (ev_payload e)) (record_operation e))"

end
