(* ===== verification/Durable_Store.thy ===== *)
theory Durable_Store
  imports Durable_Model
begin

section \<open>Durable runtime: the event store and its operations\<close>

text \<open>
  \<open>RuntimeStore\<close> of \<open>durable_runtime/store.py\<close>.  A run directory holds the event log
  \<open>events.jsonl\<close> (absent before the first append) and \<open>checkpoint.json\<close>; the store maps run ids
  to run directories.  Every operation is one critical section under the run's file lock, so an
  operation is one function on the run directory (\<open>action\<close>), which returns the directory as it
  is left and either the exception or the result.  Readings of the injected clock are arguments.
\<close>

datatype log_line = Bad_Line | Line event

datatype checkpoint_file = Bad_Checkpoint | Checkpoint json string

record run_dir =
  rd_events :: "log_line list option"
  rd_checkpoint :: "checkpoint_file option"

type_synonym store = "string \<Rightarrow> run_dir option"

type_synonym 'a rt_action = "(run_dir, rt_error, 'a) action"

definition empty_dir :: run_dir where
  "empty_dir = \<lparr>rd_events = None, rd_checkpoint = None\<rparr>"

subsection \<open>Checks\<close>

definition alnum :: "char \<Rightarrow> bool" where
  "alnum c \<longleftrightarrow> (let n = of_char c :: nat in
     48 \<le> n \<and> n \<le> 57 \<or> 65 \<le> n \<and> n \<le> 90 \<or> 97 \<le> n \<and> n \<le> 122)"

text \<open>\<open>_SAFE_ID\<close>: a letter or digit, then letters, digits, dot, underscore or hyphen.\<close>

definition valid_id :: "string \<Rightarrow> bool" where
  "valid_id s = (case s of [] \<Rightarrow> False
     | c # cs \<Rightarrow> alnum c \<and> list_all (\<lambda>x. alnum x \<or> x \<in> set ''._-'') cs)"

definition validate_ttl :: "rat \<Rightarrow> (rt_error, unit) result" where
  "validate_ttl ttl = require (0 < ttl) Value_Error"

definition check_idempotency :: "run_snapshot \<Rightarrow> string \<Rightarrow> string \<Rightarrow> (rt_error, bool) result" where
  "check_idempotency s key fp =
     (if key = [] then Inl Value_Error
      else case map_of (rs_idempotency s) key of
             None \<Rightarrow> Inr False
           | Some h \<Rightarrow> if h \<noteq> fp then Inl Idempotency_Conflict else Inr True)"

definition find_node :: "run_snapshot \<Rightarrow> string \<Rightarrow> (rt_error, node_snapshot) result" where
  "find_node s nid = (case map_of (rs_nodes s) nid of None \<Rightarrow> Inl Key_Error | Some n \<Rightarrow> Inr n)"

subsection \<open>Reading the log and the checkpoint\<close>

definition event_digest :: "digests \<Rightarrow> event \<Rightarrow> string" where
  "event_digest D e = doc_hash D (event_body e)"

fun read_lines ::
  "digests \<Rightarrow> string \<Rightarrow> int \<Rightarrow> string \<Rightarrow> log_line list \<Rightarrow> (rt_error, event list) result" where
  "read_lines D rid n prev [] = Inr []"
| "read_lines D rid n prev (Bad_Line # ls) = Inl Corrupt_Run"
| "read_lines D rid n prev (Line e # ls) =
     (if ev_sequence e \<noteq> n \<or> ev_run_id e \<noteq> rid then Inl Corrupt_Run
      else if ev_previous_hash e \<noteq> prev then Inl Corrupt_Run
      else if ev_hash e \<noteq> event_digest D e then Inl Corrupt_Run
      else rbind (read_lines D rid (n + 1) (ev_hash e) ls) (\<lambda>es. Inr (e # es)))"

definition read_events :: "digests \<Rightarrow> string \<Rightarrow> run_dir \<Rightarrow> (rt_error, event list) result" where
  "read_events D rid d = (case rd_events d of
     None \<Rightarrow> Inr [] | Some ls \<Rightarrow> read_lines D rid 1 zero_hash ls)"

text \<open>The snapshots after each event of a log.\<close>

fun snapshots :: "run_snapshot option \<Rightarrow> event list \<Rightarrow> (rt_error, run_snapshot list) result" where
  "snapshots so [] = Inr []"
| "snapshots so (e # es) =
     rbind (apply_event so e) (\<lambda>s. rbind (snapshots (Some s) es) (\<lambda>ss. Inr (s # ss)))"

definition checkpoint_body :: "json \<Rightarrow> json" where
  "checkpoint_body doc = JObj [(''schema_version'', JInt 1), (''snapshot'', doc)]"

definition write_checkpoint :: "digests \<Rightarrow> run_snapshot \<Rightarrow> run_dir \<Rightarrow> run_dir" where
  "write_checkpoint D s d =
     (let doc = snapshot_to_dict s
      in d\<lparr>rd_checkpoint := Some (Checkpoint doc (doc_hash D (checkpoint_body doc)))\<rparr>)"

fun read_checkpoint :: "digests \<Rightarrow> checkpoint_file \<Rightarrow> (rt_error, json) result" where
  "read_checkpoint D Bad_Checkpoint = Inl Corrupt_Run"
| "read_checkpoint D (Checkpoint doc h) =
     (if h \<noteq> doc_hash D (checkpoint_body doc) then Inl Corrupt_Run
      else case doc of JObj _ \<Rightarrow> Inr doc | _ \<Rightarrow> Inl Corrupt_Run)"

definition doc_sequence :: "json \<Rightarrow> int option" where
  "doc_sequence doc = (case jfield ''last_sequence'' doc of Some (JInt q) \<Rightarrow> Some q | _ \<Rightarrow> None)"

definition load_unlocked :: "digests \<Rightarrow> string \<Rightarrow> run_snapshot rt_action" where
  "load_unlocked D rid d =
     (case read_events D rid d of
        Inl e \<Rightarrow> (d, Inl e)
      | Inr [] \<Rightarrow> (d, Inl Run_Not_Found)
      | Inr es \<Rightarrow>
        (case snapshots None es of
           Inl e \<Rightarrow> (d, Inl e)
         | Inr ss \<Rightarrow>
           (case rd_checkpoint d of
              None \<Rightarrow> (write_checkpoint D (last ss) d, Inr (last ss))
            | Some cp \<Rightarrow>
              (case read_checkpoint D cp of
                 Inl e \<Rightarrow> (d, Inl e)
               | Inr doc \<Rightarrow>
                 (case doc_sequence doc of
                    None \<Rightarrow> (d, Inl Corrupt_Run)
                  | Some q \<Rightarrow>
                    if q < 1 \<or> int (length ss) < q then (d, Inl Corrupt_Run)
                    else if doc \<noteq> snapshot_to_dict (ss ! nat (q - 1)) then (d, Inl Corrupt_Run)
                    else if q \<noteq> int (length ss)
                      then (write_checkpoint D (last ss) d, Inr (last ss))
                    else (d, Inr (last ss)))))))"

subsection \<open>Appending\<close>

text \<open>The record an append writes; its hash covers every other field.\<close>

definition seal_event ::
  "digests \<Rightarrow> string \<Rightarrow> int \<Rightarrow> string \<Rightarrow> payload \<times> string \<times> instant \<Rightarrow> event" where
  "seal_event D rid n prev = (\<lambda>(p, key, now).
     let e = \<lparr>ev_sequence = n, ev_event_id = rid @ '':'' @ show_int n, ev_run_id = rid,
              ev_payload = p, ev_occurred_at = now, ev_previous_hash = prev, ev_hash = [],
              ev_idempotency_key = key, ev_operation_hash = payload_hash D p\<rparr>
     in e\<lparr>ev_hash := event_digest D e\<rparr>)"

definition next_sequence :: "run_snapshot option \<Rightarrow> int" where
  "next_sequence so = (case so of None \<Rightarrow> 1 | Some s \<Rightarrow> rs_last_sequence s + 1)"

definition previous_hash :: "run_snapshot option \<Rightarrow> string" where
  "previous_hash so = (case so of None \<Rightarrow> zero_hash | Some s \<Rightarrow> rs_last_hash s)"

definition append_line :: "event \<Rightarrow> run_dir \<Rightarrow> run_dir" where
  "append_line e d =
     d\<lparr>rd_events := Some ((case rd_events d of None \<Rightarrow> [] | Some ls \<Rightarrow> ls) @ [Line e])\<rparr>"

definition append_unlocked ::
  "digests \<Rightarrow> string \<Rightarrow> run_snapshot option \<Rightarrow> payload \<Rightarrow> string \<Rightarrow> instant \<Rightarrow> run_snapshot rt_action" where
  "append_unlocked D rid so p key now d =
     (if key = [] then (d, Inl Value_Error)
      else let e = seal_event D rid (next_sequence so) (previous_hash so) (p, key, now);
               d' = append_line e d
           in case apply_event so e of
                Inl x \<Rightarrow> (d', Inl x)
              | Inr s \<Rightarrow> (write_checkpoint D s d', Inr s))"

definition append_checked ::
  "digests \<Rightarrow> string \<Rightarrow> run_snapshot \<Rightarrow> payload \<Rightarrow> string \<Rightarrow> instant \<Rightarrow> run_snapshot rt_action" where
  "append_checked D rid s p key now =
     abind (alift (check_idempotency s key (payload_hash D p))) (\<lambda>hit.
       if hit then areturn s else append_unlocked D rid (Some s) p key now)"

subsection \<open>Transitions\<close>

definition transition_run ::
  "digests \<Rightarrow> string \<Rightarrow> run_state \<Rightarrow> string option \<Rightarrow> string option \<Rightarrow> string \<Rightarrow> instant
   \<Rightarrow> run_snapshot rt_action" where
  "transition_run D rid target reason appr key now =
     abind (load_unlocked D rid) (\<lambda>s.
       let p = P_Run_Transition (rs_state s) target reason appr
       in abind (alift (check_idempotency s key (payload_hash D p))) (\<lambda>hit.
            if hit then areturn s
            else if target \<notin> set (run_targets (rs_state s)) then araise Invalid_Transition
            else if appr \<noteq> None \<and> rs_state s \<noteq> R_Awaiting_Approval then araise Invalid_Transition
            else append_unlocked D rid (Some s) p key now))"

definition transition_node ::
  "digests \<Rightarrow> string \<Rightarrow> string \<Rightarrow> node_state \<Rightarrow> string option \<Rightarrow> string option \<Rightarrow> string \<Rightarrow> instant
   \<Rightarrow> run_snapshot rt_action" where
  "transition_node D rid nid target reason appr key now =
     abind (load_unlocked D rid) (\<lambda>s. abind (alift (find_node s nid)) (\<lambda>n.
       let p = P_Node_Transition nid (n_state n) target reason appr
       in abind (alift (check_idempotency s key (payload_hash D p))) (\<lambda>hit.
            if hit then areturn s
            else if target \<notin> set (node_targets (n_state n)) then araise Invalid_Transition
            else if appr \<noteq> None \<and> n_state n \<noteq> N_Awaiting_Approval then araise Invalid_Transition
            else append_unlocked D rid (Some s) p key now)))"

subsection \<open>Leases\<close>

definition lease_token :: "digests \<Rightarrow> string \<Rightarrow> string \<Rightarrow> string \<Rightarrow> int \<Rightarrow> string \<Rightarrow> string" where
  "lease_token D rid nid owner seq key =
     (let nul = [char_of (0::nat)]
      in text_hash D (rid @ nul @ nid @ nul @ owner @ nul @ show_int seq @ nul @ key))"

text \<open>The lease an operation hands back: the node's current one, or the given exception.\<close>

definition current_lease :: "rt_error \<Rightarrow> string \<Rightarrow> run_snapshot \<Rightarrow> (rt_error, lease) result" where
  "current_lease x nid s = rbind (find_node s nid) (\<lambda>n.
     case n_lease n of None \<Rightarrow> Inl x | Some l \<Rightarrow> Inr l)"

definition acquire_lease ::
  "digests \<Rightarrow> string \<Rightarrow> string \<Rightarrow> string \<Rightarrow> rat \<Rightarrow> string \<Rightarrow> instant \<Rightarrow> instant \<Rightarrow> lease rt_action" where
  "acquire_lease D rid nid owner ttl key now now2 =
     abind (load_unlocked D rid) (\<lambda>s.
       let fp = operation_hash D ''lease_acquired''
                  [(''node_id'', JStr nid), (''owner'', JStr owner), (''ttl_seconds'', JNum ttl)]
       in abind (alift (check_idempotency s key fp)) (\<lambda>hit.
            if hit then alift (current_lease Lease_Expired nid s)
            else abind (alift (find_node s nid)) (\<lambda>n.
              if (case n_lease n of None \<Rightarrow> False | Some l \<Rightarrow> now < l_expires_at l)
              then araise Lease_Conflict
              else case add_seconds now ttl of
                     None \<Rightarrow> araise Overflow_Error
                   | Some ex \<Rightarrow>
                     abind (append_unlocked D rid (Some s)
                              (P_Lease_Acquired nid owner
                                 (lease_token D rid nid owner (rs_last_sequence s + 1) key)
                                 now now ex ttl) key now2)
                           (\<lambda>s'. alift (current_lease Corrupt_Run nid s')))))"

definition heartbeat ::
  "digests \<Rightarrow> string \<Rightarrow> string \<Rightarrow> string \<Rightarrow> rat \<Rightarrow> string \<Rightarrow> instant \<Rightarrow> instant \<Rightarrow> lease rt_action" where
  "heartbeat D rid nid token ttl key now now2 =
     abind (load_unlocked D rid) (\<lambda>s.
       let fp = operation_hash D ''lease_heartbeat''
                  [(''node_id'', JStr nid), (''token'', JStr token), (''ttl_seconds'', JNum ttl)]
       in abind (alift (check_idempotency s key fp)) (\<lambda>hit.
            if hit then alift (current_lease Lease_Expired nid s)
            else abind (alift (find_node s nid)) (\<lambda>n.
              case n_lease n of
                None \<Rightarrow> araise Lease_Expired
              | Some l \<Rightarrow>
                if l_expires_at l \<le> now then araise Lease_Expired
                else if l_token l \<noteq> token then araise Lease_Conflict
                else case add_seconds now ttl of
                       None \<Rightarrow> araise Overflow_Error
                     | Some ex \<Rightarrow>
                       abind (append_unlocked D rid (Some s)
                                (P_Lease_Heartbeat nid token now ex ttl) key now2)
                             (\<lambda>s'. alift (current_lease Corrupt_Run nid s')))))"

definition release_lease ::
  "digests \<Rightarrow> string \<Rightarrow> string \<Rightarrow> string \<Rightarrow> string \<Rightarrow> instant \<Rightarrow> instant \<Rightarrow> run_snapshot rt_action" where
  "release_lease D rid nid token key now now2 =
     abind (load_unlocked D rid) (\<lambda>s.
       let p = P_Lease_Released nid token
       in abind (alift (check_idempotency s key (payload_hash D p))) (\<lambda>hit.
            if hit then areturn s
            else abind (alift (find_node s nid)) (\<lambda>n.
              case n_lease n of
                None \<Rightarrow> araise Lease_Expired
              | Some l \<Rightarrow>
                if l_expires_at l \<le> now then araise Lease_Expired
                else if l_token l \<noteq> token then araise Lease_Conflict
                else append_unlocked D rid (Some s) p key now2)))"

definition expired_nodes :: "instant \<Rightarrow> run_snapshot \<Rightarrow> string list" where
  "expired_nodes now s = sort (map fst (filter
     (\<lambda>(i, n). case n_lease n of None \<Rightarrow> False | Some l \<Rightarrow> l_expires_at l \<le> now) (rs_nodes s)))"

definition expire_leases ::
  "digests \<Rightarrow> string \<Rightarrow> string \<Rightarrow> instant \<Rightarrow> instant \<Rightarrow> run_snapshot rt_action" where
  "expire_leases D rid key now now2 =
     abind (load_unlocked D rid) (\<lambda>s.
       append_checked D rid s (P_Leases_Expired (expired_nodes now s) now) key now2)"

subsection \<open>Retries\<close>

definition retry_backoff :: "retry_class \<Rightarrow> int \<Rightarrow> rat \<Rightarrow> rat \<Rightarrow> rat option" where
  "retry_backoff cls att base mx =
     (if cls = Permanent then None else Some (min mx (base * 2 ^ nat (att - 1))))"

definition record_retry ::
  "digests \<Rightarrow> string \<Rightarrow> string \<Rightarrow> retry_class \<Rightarrow> string \<Rightarrow> rat \<Rightarrow> rat \<Rightarrow> string \<Rightarrow> instant \<Rightarrow> instant
   \<Rightarrow> retry_metadata rt_action" where
  "record_retry D rid nid cls reason base mx key now now2 =
     abind (load_unlocked D rid) (\<lambda>s. abind (alift (find_node s nid)) (\<lambda>n.
       let att = n_attempts n + 1; bo = retry_backoff cls att base mx
       in abind (alift (case bo of None \<Rightarrow> Inr None
                 | Some b \<Rightarrow> (case add_seconds now b of
                               None \<Rightarrow> Inl Overflow_Error | Some t \<Rightarrow> Inr (Some t)))) (\<lambda>nb.
          abind (append_checked D rid s
                   (P_Retry_Recorded nid att cls (cls \<noteq> Permanent) bo nb reason base mx) key now2)
            (\<lambda>s'. abind (alift (find_node s' nid)) (\<lambda>n'.
               case n_retry n' of None \<Rightarrow> araise Corrupt_Run | Some r \<Rightarrow> areturn r)))))"

end
