(* ===== verification/Durable_Api.thy ===== *)
theory Durable_Api
  imports Durable_Store
begin

section \<open>Durable runtime: the public operations\<close>

text \<open>
  The public methods of \<open>RuntimeStore\<close>, each a function from the store to the store it leaves
  and its exception or result.  \<open>with_lock\<close> is the context manager \<open>_locked\<close>: the critical
  section runs on the run's directory, and an absent directory raises \<open>RunNotFoundError\<close>.  \<open>rt_call\<close>
  lists the calls a client can make (without the clock readings) and \<open>run_call\<close> runs one; \<open>rt_step\<close> is a call that returns or
  raises, or a process that dies between the fsync of the event line and the checkpoint.
\<close>

definition with_lock :: "string \<Rightarrow> 'a rt_action \<Rightarrow> (store, rt_error, 'a) action" where
  "with_lock rid body st = (case st rid of
     None \<Rightarrow> (st, Inl Run_Not_Found)
   | Some d \<Rightarrow> (case body d of (d', r) \<Rightarrow> (st(rid \<mapsto> d'), r)))"

definition create_unlocked ::
  "digests \<Rightarrow> string \<Rightarrow> string list \<Rightarrow> environment_snapshot option \<Rightarrow> git_snapshot option
   \<Rightarrow> environment_snapshot \<Rightarrow> git_snapshot \<Rightarrow> string \<Rightarrow> instant \<Rightarrow> run_snapshot rt_action" where
  "create_unlocked D rid ids env git cap_env cap_git key now d =
     (case rd_events d of
        Some _ \<Rightarrow> abind (load_unlocked D rid) (\<lambda>s.
          let fp = payload_hash D (P_Run_Created ids
                     (case env of None \<Rightarrow> rs_environment s | Some x \<Rightarrow> x)
                     (case git of None \<Rightarrow> rs_git s | Some x \<Rightarrow> x))
          in abind (alift (check_idempotency s key fp)) (\<lambda>hit.
               if hit then areturn s else araise Run_Already_Exists)) d
      | None \<Rightarrow> append_unlocked D rid None
          (P_Run_Created ids (case env of None \<Rightarrow> cap_env | Some x \<Rightarrow> x)
                             (case git of None \<Rightarrow> cap_git | Some x \<Rightarrow> x)) key now d)"

text \<open>\<open>cap_env\<close> and \<open>cap_git\<close> are what \<open>capture_environment\<close> and \<open>capture_git\<close> would read.\<close>

definition create_run ::
  "digests \<Rightarrow> string \<Rightarrow> string list \<Rightarrow> environment_snapshot option \<Rightarrow> git_snapshot option
   \<Rightarrow> environment_snapshot \<Rightarrow> git_snapshot \<Rightarrow> string \<Rightarrow> instant
   \<Rightarrow> (store, rt_error, run_snapshot) action" where
  "create_run D rid ids env git cap_env cap_git key now st =
     (if \<not> valid_id rid then (st, Inl Value_Error)
      else if key = [] then (st, Inl Value_Error)
      else if \<not> distinct ids then (st, Inl Value_Error)
      else if \<not> list_all valid_id ids then (st, Inl Value_Error)
      else let d = (case st rid of None \<Rightarrow> empty_dir | Some d \<Rightarrow> d)
           in case create_unlocked D rid ids env git cap_env cap_git key now d of
                (d', r) \<Rightarrow> (st(rid \<mapsto> d'), r))"

definition load :: "digests \<Rightarrow> string \<Rightarrow> (store, rt_error, run_snapshot) action" where
  "load D rid st = (if \<not> valid_id rid then (st, Inl Value_Error)
                    else with_lock rid (load_unlocked D rid) st)"

definition events :: "digests \<Rightarrow> string \<Rightarrow> (store, rt_error, event list) action" where
  "events D rid st = (if \<not> valid_id rid then (st, Inl Value_Error)
                      else with_lock rid (\<lambda>d. (d, read_events D rid d)) st)"

definition start where
  "start D rid key now = with_lock rid (transition_run D rid R_Running None None key now)"

definition pause where
  "pause D rid reason key now =
     with_lock rid (transition_run D rid R_Paused (Some reason) None key now)"

definition wait where
  "wait D rid reason key now =
     with_lock rid (transition_run D rid R_Waiting (Some reason) None key now)"

definition request_approval where
  "request_approval D rid reason key now =
     with_lock rid (transition_run D rid R_Awaiting_Approval (Some reason) None key now)"

definition approve ::
  "digests \<Rightarrow> string \<Rightarrow> string \<Rightarrow> string \<Rightarrow> instant \<Rightarrow> (store, rt_error, run_snapshot) action" where
  "approve D rid who key now st =
     (if who = [] then (st, Inl Value_Error)
      else with_lock rid (transition_run D rid R_Running None (Some who) key now) st)"

definition resume where
  "resume D rid key now = with_lock rid (transition_run D rid R_Running None None key now)"

definition complete where
  "complete D rid key now = with_lock rid (transition_run D rid R_Completed None None key now)"

definition fail where
  "fail D rid reason key now =
     with_lock rid (transition_run D rid R_Failed (Some reason) None key now)"

definition cancel where
  "cancel D rid reason key now =
     with_lock rid (transition_run D rid R_Cancelled (Some reason) None key now)"

definition start_node where
  "start_node D rid nid key now =
     with_lock rid (transition_node D rid nid N_Running None None key now)"

definition pause_node where
  "pause_node D rid nid reason key now =
     with_lock rid (transition_node D rid nid N_Paused (Some reason) None key now)"

definition wait_node where
  "wait_node D rid nid reason key now =
     with_lock rid (transition_node D rid nid N_Waiting (Some reason) None key now)"

definition request_node_approval where
  "request_node_approval D rid nid reason key now =
     with_lock rid (transition_node D rid nid N_Awaiting_Approval (Some reason) None key now)"

definition approve_node ::
  "digests \<Rightarrow> string \<Rightarrow> string \<Rightarrow> string \<Rightarrow> string \<Rightarrow> instant
   \<Rightarrow> (store, rt_error, run_snapshot) action" where
  "approve_node D rid nid who key now st =
     (if who = [] then (st, Inl Value_Error)
      else with_lock rid (transition_node D rid nid N_Running None (Some who) key now) st)"

definition resume_node where
  "resume_node D rid nid key now =
     with_lock rid (transition_node D rid nid N_Running None None key now)"

definition complete_node where
  "complete_node D rid nid key now =
     with_lock rid (transition_node D rid nid N_Succeeded None None key now)"

definition fail_node where
  "fail_node D rid nid reason key now =
     with_lock rid (transition_node D rid nid N_Failed (Some reason) None key now)"

definition cancel_node where
  "cancel_node D rid nid reason key now =
     with_lock rid (transition_node D rid nid N_Cancelled (Some reason) None key now)"

definition acquire ::
  "digests \<Rightarrow> string \<Rightarrow> string \<Rightarrow> string \<Rightarrow> rat \<Rightarrow> string \<Rightarrow> instant \<Rightarrow> instant
   \<Rightarrow> (store, rt_error, lease) action" where
  "acquire D rid nid owner ttl key now now2 =
     abind (alift (require (owner \<noteq> []) Value_Error)) (\<lambda>_.
     abind (alift (validate_ttl ttl)) (\<lambda>_.
       with_lock rid (acquire_lease D rid nid owner ttl key now now2)))"

definition renew ::
  "digests \<Rightarrow> string \<Rightarrow> string \<Rightarrow> string \<Rightarrow> rat \<Rightarrow> string \<Rightarrow> instant \<Rightarrow> instant
   \<Rightarrow> (store, rt_error, lease) action" where
  "renew D rid nid token ttl key now now2 =
     abind (alift (validate_ttl ttl)) (\<lambda>_.
       with_lock rid (heartbeat D rid nid token ttl key now now2))"

definition release where
  "release D rid nid token key now now2 =
     with_lock rid (release_lease D rid nid token key now now2)"

definition expire where
  "expire D rid key now now2 = with_lock rid (expire_leases D rid key now now2)"

definition retry ::
  "digests \<Rightarrow> string \<Rightarrow> string \<Rightarrow> retry_class \<Rightarrow> string \<Rightarrow> rat \<Rightarrow> rat \<Rightarrow> string \<Rightarrow> instant \<Rightarrow> instant
   \<Rightarrow> (store, rt_error, retry_metadata) action" where
  "retry D rid nid cls reason base mx key now now2 =
     abind (alift (require (\<not> (base < 0 \<or> mx < base)) Value_Error)) (\<lambda>_.
       with_lock rid (record_retry D rid nid cls reason base mx key now now2))"

subsection \<open>Calls and steps\<close>

datatype rt_call =
    C_Create string "string list" "environment_snapshot option" "git_snapshot option"
      environment_snapshot git_snapshot string
  | C_Load string
  | C_Events string
  | C_Start string string
  | C_Pause string string string
  | C_Wait string string string
  | C_Request_Approval string string string
  | C_Approve string string string
  | C_Resume string string
  | C_Complete string string
  | C_Fail string string string
  | C_Cancel string string string
  | C_Start_Node string string string
  | C_Pause_Node string string string string
  | C_Wait_Node string string string string
  | C_Request_Node_Approval string string string string
  | C_Approve_Node string string string string
  | C_Resume_Node string string string
  | C_Complete_Node string string string
  | C_Fail_Node string string string string
  | C_Cancel_Node string string string string
  | C_Acquire string string string rat string
  | C_Heartbeat string string string rat string
  | C_Release string string string string
  | C_Expire string string
  | C_Retry string string retry_class string rat rat string

text \<open>What a call returns.\<close>

datatype rt_value =
    Got_Run run_snapshot
  | Got_Lease lease
  | Got_Retry retry_metadata
  | Got_Events "event list"

definition got :: "('a \<Rightarrow> rt_value) \<Rightarrow> store \<times> (rt_error, 'a) result \<Rightarrow> store \<times> (rt_error, rt_value) result"
  where "got f x = (case x of (st, r) \<Rightarrow> (st, map_sum id f r))"

lemma fst_got [simp]: "fst (got f x) = fst x"
  by (simp add: got_def split: prod.splits)

lemma snd_got [simp]: "snd (got f x) = map_sum id f (snd x)"
  by (simp add: got_def split: prod.splits)

fun run_call :: "digests \<Rightarrow> rt_call \<Rightarrow> instant \<Rightarrow> instant \<Rightarrow> store
    \<Rightarrow> store \<times> (rt_error, rt_value) result" where
  "run_call D (C_Create r ids env git ce cg k) t u st =
     got Got_Run (create_run D r ids env git ce cg k t st)"
| "run_call D (C_Load r) t u st =
     got Got_Run (load D r st)"
| "run_call D (C_Events r) t u st =
     got Got_Events (events D r st)"
| "run_call D (C_Start r k) t u st =
     got Got_Run (start D r k t st)"
| "run_call D (C_Pause r w k) t u st =
     got Got_Run (pause D r w k t st)"
| "run_call D (C_Wait r w k) t u st =
     got Got_Run (wait D r w k t st)"
| "run_call D (C_Request_Approval r w k) t u st =
     got Got_Run (request_approval D r w k t st)"
| "run_call D (C_Approve r who k) t u st =
     got Got_Run (approve D r who k t st)"
| "run_call D (C_Resume r k) t u st =
     got Got_Run (resume D r k t st)"
| "run_call D (C_Complete r k) t u st =
     got Got_Run (complete D r k t st)"
| "run_call D (C_Fail r w k) t u st =
     got Got_Run (fail D r w k t st)"
| "run_call D (C_Cancel r w k) t u st =
     got Got_Run (cancel D r w k t st)"
| "run_call D (C_Start_Node r n k) t u st =
     got Got_Run (start_node D r n k t st)"
| "run_call D (C_Pause_Node r n w k) t u st =
     got Got_Run (pause_node D r n w k t st)"
| "run_call D (C_Wait_Node r n w k) t u st =
     got Got_Run (wait_node D r n w k t st)"
| "run_call D (C_Request_Node_Approval r n w k) t u st =
     got Got_Run (request_node_approval D r n w k t st)"
| "run_call D (C_Approve_Node r n who k) t u st =
     got Got_Run (approve_node D r n who k t st)"
| "run_call D (C_Resume_Node r n k) t u st =
     got Got_Run (resume_node D r n k t st)"
| "run_call D (C_Complete_Node r n k) t u st =
     got Got_Run (complete_node D r n k t st)"
| "run_call D (C_Fail_Node r n w k) t u st =
     got Got_Run (fail_node D r n w k t st)"
| "run_call D (C_Cancel_Node r n w k) t u st =
     got Got_Run (cancel_node D r n w k t st)"
| "run_call D (C_Acquire r n ow ttl k) t u st =
     got Got_Lease (acquire D r n ow ttl k t u st)"
| "run_call D (C_Heartbeat r n tok ttl k) t u st =
     got Got_Lease (renew D r n tok ttl k t u st)"
| "run_call D (C_Release r n tok k) t u st =
     got Got_Run (release D r n tok k t u st)"
| "run_call D (C_Expire r k) t u st =
     got Got_Run (expire D r k t u st)"
| "run_call D (C_Retry r n c w b m k) t u st =
     got Got_Retry (retry D r n c w b m k t u st)"

definition exec_call :: "digests \<Rightarrow> rt_call \<Rightarrow> instant \<Rightarrow> instant \<Rightarrow> store \<Rightarrow> store" where
  "exec_call D c now now2 st = fst (run_call D c now now2 st)"

text \<open>The store a crash leaves: the event lines of \<open>st'\<close>, the checkpoints of \<open>st\<close>.\<close>

definition lost_checkpoints :: "store \<Rightarrow> store \<Rightarrow> store" where
  "lost_checkpoints st st' = (\<lambda>rid. case st' rid of
     None \<Rightarrow> None
   | Some d' \<Rightarrow> Some (d'\<lparr>rd_checkpoint := (case st rid of
                           None \<Rightarrow> None | Some d \<Rightarrow> rd_checkpoint d)\<rparr>))"

inductive rt_step :: "digests \<Rightarrow> store \<Rightarrow> store \<Rightarrow> bool" for D where
  call: "rt_step D st (exec_call D c now now2 st)"
| crash: "rt_step D st (lost_checkpoints st (exec_call D c now now2 st))"

inductive rt_reachable :: "digests \<Rightarrow> store \<Rightarrow> bool" for D where
  init: "rt_reachable D (\<lambda>_. None)"
| step: "rt_reachable D st \<Longrightarrow> rt_step D st st' \<Longrightarrow> rt_reachable D st'"

end
