(* ===== verification/Durable_Inv.thy ===== *)
theory Durable_Inv
  imports Durable_Api
begin

section \<open>Durable runtime: the log invariant\<close>

text \<open>
  A run directory is well formed (\<open>dir_ok\<close>) when its log is a sealed hash chain of the run, the
  replay of the log succeeds, and the checkpoint, if there is one, is the snapshot after some
  prefix of the log.  The lemmas say that \<open>_load_unlocked\<close> returns the replay of a well-formed
  directory, and that \<open>_append_unlocked\<close> keeps it well formed whenever the new event applies.
\<close>

interpretation rt_log: hash_chain ev_sequence ev_previous_hash ev_hash "event_digest D"
    "seal_event D rid" for D rid
  by unfold_locales (auto simp: seal_event_def Let_def event_digest_def event_body_def)

abbreviation rt_chain :: "digests \<Rightarrow> int \<Rightarrow> string \<Rightarrow> event list \<Rightarrow> bool" where
  "rt_chain D \<equiv> chain_from ev_sequence ev_previous_hash ev_hash (event_digest D)"

lemma seal_event_fields [simp]:
  "ev_sequence (seal_event D rid n h (p, key, now)) = n"
  "ev_previous_hash (seal_event D rid n h (p, key, now)) = h"
  "ev_run_id (seal_event D rid n h (p, key, now)) = rid"
  "ev_payload (seal_event D rid n h (p, key, now)) = p"
  "ev_occurred_at (seal_event D rid n h (p, key, now)) = now"
  "ev_idempotency_key (seal_event D rid n h (p, key, now)) = key"
  "ev_operation_hash (seal_event D rid n h (p, key, now)) = payload_hash D p"
  by (simp_all add: seal_event_def Let_def)

subsection \<open>Reading\<close>

lemma read_lines_iff:
  "read_lines D rid n prev ls = Inr es \<longleftrightarrow>
     ls = map Line es \<and> rt_chain D n prev es \<and> (\<forall>e\<in>set es. ev_run_id e = rid)"
proof (induction D rid n prev ls arbitrary: es rule: read_lines.induct)
  case (3 D rid n prev e ls)
  show ?case
    by (cases es) (use "3.IH" in \<open>auto simp: rbind_eq_Inr\<close>)
qed auto

lemma snapshots_append:
  "snapshots so (es @ fs) = rbind (snapshots so es) (\<lambda>ss.
     rbind (snapshots (if ss = [] then so else Some (last ss)) fs) (\<lambda>ts. Inr (ss @ ts)))"
proof (induction es arbitrary: so)
  case Nil
  show ?case by (cases "snapshots so fs") auto
next
  case (Cons e es)
  show ?case
  proof (cases "apply_event so e")
    case (Inr s)
    with Cons.IH [of "Some s"] show ?thesis
      by (cases "snapshots (Some s) es") (auto simp: rbind_def split: sum.splits if_splits)
  qed simp
qed

lemma snapshots_length: "snapshots so es = Inr ss \<Longrightarrow> length ss = length es"
  by (induction es arbitrary: so ss) (auto simp: rbind_eq_Inr)

lemma apply_payload_shape:
  "apply_payload s t p = Inr s' \<Longrightarrow>
     s' = s\<lparr>rs_state := rs_state s', rs_approvals := rs_approvals s', rs_nodes := rs_nodes s'\<rparr>"
  by (cases p) (auto simp: rbind_eq_Inr Let_def split: if_split_asm option.split_asm)

lemma apply_payload_frame:
  assumes "apply_payload s t p = Inr s'"
  shows "rs_run_id s' = rs_run_id s" "rs_idempotency s' = rs_idempotency s"
    "rs_last_sequence s' = rs_last_sequence s" "rs_environment s' = rs_environment s"
    "rs_git s' = rs_git s" "rs_created_at s' = rs_created_at s"
  by (subst apply_payload_shape [OF assms], simp)+

lemma apply_created_last:
  "apply_created e = Inr s \<Longrightarrow> rs_last_sequence s = ev_sequence e \<and> rs_last_hash s = ev_hash e"
  by (cases "ev_payload e") (auto simp: apply_created_def)

lemma record_operation_last:
  "record_operation e s1 = Inr s \<Longrightarrow> rs_last_sequence s = ev_sequence e \<and> rs_last_hash s = ev_hash e"
  unfolding record_operation_def by (simp split: if_split_asm) auto

lemma apply_event_last:
  assumes "apply_event so e = Inr s"
  shows "rs_last_sequence s = ev_sequence e" "rs_last_hash s = ev_hash e"
proof -
  have "rs_last_sequence s = ev_sequence e \<and> rs_last_hash s = ev_hash e"
  proof (cases so)
    case None
    with assms show ?thesis by (simp add: apply_event_def apply_created_last)
  next
    case (Some s0)
    with assms obtain s1 where "record_operation e s1 = Inr s"
      by (auto simp: apply_event_def rbind_eq_Inr split: if_split_asm)
    then show ?thesis by (rule record_operation_last)
  qed
  then show "rs_last_sequence s = ev_sequence e" "rs_last_hash s = ev_hash e" by auto
qed

lemma snapshots_nth_sequence:
  "snapshots so es = Inr ss \<Longrightarrow> i < length ss \<Longrightarrow> rs_last_sequence (ss ! i) = ev_sequence (es ! i)"
proof (induction es arbitrary: so ss i)
  case Nil
  then show ?case by simp
next
  case (Cons e es)
  then obtain s ts where "apply_event so e = Inr s" "snapshots (Some s) es = Inr ts" "ss = s # ts"
    by (auto simp: rbind_eq_Inr)
  with Cons show ?case by (cases i) (auto simp: apply_event_last)
qed

lemma snapshots_last_hash:
  "snapshots so es = Inr ss \<Longrightarrow> es \<noteq> [] \<Longrightarrow> rs_last_hash (last ss) = ev_hash (last es)"
proof (induction es arbitrary: so ss)
  case Nil
  then show ?case by simp
next
  case (Cons e es)
  then obtain s ts where *: "apply_event so e = Inr s" "snapshots (Some s) es = Inr ts" "ss = s # ts"
    by (auto simp: rbind_eq_Inr)
  show ?case
  proof (cases "es = []")
    case True
    with * show ?thesis by (auto simp: apply_event_last)
  next
    case False
    with * have "ts \<noteq> []" by (auto dest: snapshots_length)
    with False * Cons.IH [OF *(2) False] show ?thesis by simp
  qed
qed

subsection \<open>Well-formed directories\<close>

definition log_ok :: "digests \<Rightarrow> string \<Rightarrow> event list \<Rightarrow> run_snapshot list \<Rightarrow> bool" where
  "log_ok D rid es ss \<longleftrightarrow>
     es \<noteq> [] \<and> rt_chain D 1 zero_hash es \<and> (\<forall>e\<in>set es. ev_run_id e = rid) \<and>
     snapshots None es = Inr ss"

definition checkpoint_of :: "digests \<Rightarrow> run_snapshot \<Rightarrow> checkpoint_file" where
  "checkpoint_of D s =
     Checkpoint (snapshot_to_dict s) (doc_hash D (checkpoint_body (snapshot_to_dict s)))"

definition dir_with :: "digests \<Rightarrow> string \<Rightarrow> run_dir \<Rightarrow> event list \<Rightarrow> run_snapshot list \<Rightarrow> bool" where
  "dir_with D rid d es ss \<longleftrightarrow>
     rd_events d = Some (map Line es) \<and> log_ok D rid es ss \<and>
     (case rd_checkpoint d of None \<Rightarrow> True | Some cp \<Rightarrow> \<exists>i<length ss. cp = checkpoint_of D (ss ! i))"

definition dir_ok :: "digests \<Rightarrow> string \<Rightarrow> run_dir \<Rightarrow> bool" where
  "dir_ok D rid d \<longleftrightarrow> d = empty_dir \<or> (\<exists>es ss. dir_with D rid d es ss)"

definition synced :: "digests \<Rightarrow> run_snapshot \<Rightarrow> run_dir \<Rightarrow> run_dir" where
  "synced D s d = d\<lparr>rd_checkpoint := Some (checkpoint_of D s)\<rparr>"

lemma write_checkpoint_synced [simp]: "write_checkpoint D s d = synced D s d"
  by (simp add: write_checkpoint_def synced_def checkpoint_of_def Let_def)

lemma synced_events [simp]: "rd_events (synced D s d) = rd_events d"
  by (simp add: synced_def)

lemma synced_checkpoint [simp]: "rd_checkpoint (synced D s d) = Some (checkpoint_of D s)"
  by (simp add: synced_def)

lemma log_ok_length: "log_ok D rid es ss \<Longrightarrow> length ss = length es"
  by (auto simp: log_ok_def dest: snapshots_length)

lemma log_ok_nonempty: "log_ok D rid es ss \<Longrightarrow> es \<noteq> [] \<and> ss \<noteq> []"
  using log_ok_length [of D rid es ss] by (auto simp: log_ok_def)

lemma log_ok_nth_sequence:
  assumes "log_ok D rid es ss" "i < length ss"
  shows "rs_last_sequence (ss ! i) = 1 + int i"
proof -
  from assms have "rt_chain D 1 zero_hash es" and "snapshots None es = Inr ss"
    by (auto simp: log_ok_def)
  with assms(2) log_ok_length [OF assms(1)] show ?thesis
    by (simp add: snapshots_nth_sequence chain_from_nth_seq [of _ _ _ _ 1 zero_hash])
qed

lemma log_ok_last:
  assumes "log_ok D rid es ss"
  shows "rs_last_sequence (last ss) = int (length es)" "rs_last_hash (last ss) = ev_hash (last es)"
proof -
  have ne: "es \<noteq> []" "ss \<noteq> []" and len: "length ss = length es"
    using log_ok_nonempty [OF assms] log_ok_length [OF assms] by auto
  from ne have "rs_last_sequence (ss ! (length ss - 1)) = 1 + int (length ss - 1)"
    by (intro log_ok_nth_sequence [OF assms]) simp
  with ne len show "rs_last_sequence (last ss) = int (length es)"
    by (cases "length es") (auto simp: last_conv_nth)
  show "rs_last_hash (last ss) = ev_hash (last es)"
    using snapshots_last_hash [of None es ss] assms ne by (simp add: log_ok_def)
qed

lemma read_events_dir_with: "dir_with D rid d es ss \<Longrightarrow> read_events D rid d = Inr es"
  by (auto simp: dir_with_def log_ok_def read_events_def read_lines_iff)

lemma dir_with_unique:
  assumes "dir_with D rid d es ss" "dir_with D rid d fs ts"
  shows "es = fs" "ss = ts"
proof -
  show "es = fs" using read_events_dir_with [OF assms(1)] read_events_dir_with [OF assms(2)] by simp
  with assms show "ss = ts" by (simp add: dir_with_def log_ok_def)
qed

lemma dir_with_synced:
  assumes "dir_with D rid d es ss" "i < length ss"
  shows "dir_with D rid (synced D (ss ! i) d) es ss"
  using assms by (auto simp: dir_with_def)

lemma dir_with_synced_last:
  "dir_with D rid d es ss \<Longrightarrow> dir_with D rid (synced D (last ss) d) es ss"
  using dir_with_synced [of D rid d es ss "length ss - 1"] log_ok_nonempty [of D rid es ss]
  by (auto simp: dir_with_def last_conv_nth)

lemma doc_sequence_snapshot [simp]:
  "doc_sequence (snapshot_to_dict s) = Some (rs_last_sequence s)"
  by (simp add: doc_sequence_def snapshot_to_dict_def)

lemma read_checkpoint_of [simp]: "read_checkpoint D (checkpoint_of D s) = Inr (snapshot_to_dict s)"
  by (simp add: checkpoint_of_def snapshot_to_dict_def)

subsection \<open>Loading\<close>

text \<open>A well-formed directory loads as the replay of its whole log and leaves it checkpointed.\<close>

lemma load_unlocked_ok:
  assumes "dir_with D rid d es ss"
  shows "load_unlocked D rid d = (synced D (last ss) d, Inr (last ss))"
proof -
  from assms have lo: "log_ok D rid es ss" by (simp add: dir_with_def)
  then have ne: "es \<noteq> []" "ss \<noteq> []" and len: "length ss = length es"
    using log_ok_nonempty log_ok_length by blast+
  have sn: "snapshots None es = Inr ss" using lo by (simp add: log_ok_def)
  note unf = load_unlocked_def read_events_dir_with [OF assms]
  show ?thesis
  proof (cases "rd_checkpoint d")
    case None
    with ne sn show ?thesis by (cases es) (auto simp: unf)
  next
    case (Some cp)
    with assms obtain i where i: "i < length ss" and cp: "cp = checkpoint_of D (ss ! i)"
      by (auto simp: dir_with_def)
    have q: "rs_last_sequence (ss ! i) = 1 + int i" using log_ok_nth_sequence [OF lo i] .
    show ?thesis
    proof (cases "Suc i = length ss")
      case True
      then have "ss ! i = last ss" using ne by (simp add: last_conv_nth flip: True)
      with ne sn Some cp i q True show ?thesis
        by (cases es) (auto simp: unf synced_def)
    next
      case False
      with ne sn Some cp i q show ?thesis by (cases es) (auto simp: unf)
    qed
  qed
qed

lemma load_unlocked_empty: "load_unlocked D rid empty_dir = (empty_dir, Inl Run_Not_Found)"
  by (simp add: load_unlocked_def read_events_def empty_dir_def)

lemma load_unlocked_cases:
  assumes "dir_ok D rid d"
  obtains (empty) "d = empty_dir" "load_unlocked D rid d = (d, Inl Run_Not_Found)"
    | (log) es ss where "dir_with D rid d es ss"
        "load_unlocked D rid d = (synced D (last ss) d, Inr (last ss))"
  using assms load_unlocked_ok load_unlocked_empty by (auto simp: dir_ok_def)

subsection \<open>Appending\<close>

definition logged :: "digests \<Rightarrow> string \<Rightarrow> run_snapshot option \<Rightarrow> payload \<Rightarrow> string \<Rightarrow> instant \<Rightarrow> event"
  where "logged D rid so p key now =
           seal_event D rid (next_sequence so) (previous_hash so) (p, key, now)"

lemma logged_fields [simp]:
  "ev_sequence (logged D rid so p key now) = next_sequence so"
  "ev_previous_hash (logged D rid so p key now) = previous_hash so"
  "ev_run_id (logged D rid so p key now) = rid"
  "ev_payload (logged D rid so p key now) = p"
  "ev_occurred_at (logged D rid so p key now) = now"
  "ev_idempotency_key (logged D rid so p key now) = key"
  "ev_operation_hash (logged D rid so p key now) = payload_hash D p"
  by (simp_all add: logged_def)

text \<open>The snapshot after the new event: the effect of the payload, and the bookkeeping.\<close>

definition after_event :: "digests \<Rightarrow> string \<Rightarrow> payload \<Rightarrow> string \<Rightarrow> instant \<Rightarrow> run_snapshot \<Rightarrow> run_snapshot
    \<Rightarrow> run_snapshot" where
  "after_event D rid p key now s s1 =
     s1\<lparr>rs_updated_at := now, rs_last_sequence := rs_last_sequence s + 1,
        rs_last_hash := ev_hash (logged D rid (Some s) p key now),
        rs_idempotency := rs_idempotency s @ [(key, payload_hash D p)]\<rparr>"

lemma update_fresh: "map_of d k = None \<Longrightarrow> AList.update k v d = d @ [(k, v)]"
  by (induction d) (auto split: if_splits)

lemma apply_logged:
  assumes "apply_payload s now p = Inr s1" and "map_of (rs_idempotency s) key = None"
  shows "apply_event (Some s) (logged D rid (Some s) p key now) =
           Inr (after_event D rid p key now s s1)"
  using assms
  by (simp add: apply_event_def previous_hash_def next_sequence_def record_operation_def
      after_event_def apply_payload_frame update_fresh)

lemma log_ok_snoc:
  assumes "log_ok D rid es ss" "apply_event (Some (last ss)) e = Inr s'"
    and "e = logged D rid (Some (last ss)) p key now"
  shows "log_ok D rid (es @ [e]) (ss @ [s'])"
proof -
  have ne: "es \<noteq> []" "ss \<noteq> []" using log_ok_nonempty assms(1) by blast+
  have chain: "rt_chain D 1 zero_hash es" using assms(1) by (simp add: log_ok_def)
  have "rt_chain D 1 zero_hash (es @ [e])"
    unfolding assms(3) logged_def
    by (rule rt_log.seal_extends [OF chain])
       (use ne assms(1) in \<open>simp_all add: next_sequence_def previous_hash_def head_hash_def log_ok_last\<close>)
  moreover have "snapshots None (es @ [e]) = Inr (ss @ [s'])"
    using assms ne by (simp add: log_ok_def snapshots_append)
  ultimately show ?thesis using assms(1,3) by (simp add: log_ok_def)
qed

lemma append_unlocked_ok:
  assumes "dir_with D rid d es ss" "key \<noteq> []"
    and "apply_payload (last ss) now p = Inr s1" "map_of (rs_idempotency (last ss)) key = None"
    and s': "s' = after_event D rid p key now (last ss) s1"
    and e: "e = logged D rid (Some (last ss)) p key now"
  shows "append_unlocked D rid (Some (last ss)) p key now d = (synced D s' (append_line e d), Inr s')"
    and "dir_with D rid (append_line e d) (es @ [e]) (ss @ [s'])"
proof -
  have ap: "apply_event (Some (last ss)) e = Inr s'"
    using apply_logged [OF assms(3,4)] by (simp add: s' e)
  show "append_unlocked D rid (Some (last ss)) p key now d = (synced D s' (append_line e d), Inr s')"
    using assms(2) ap by (simp add: append_unlocked_def Let_def e logged_def)
  have "log_ok D rid (es @ [e]) (ss @ [s'])"
    using log_ok_snoc [OF _ ap e] assms(1) by (simp add: dir_with_def)
  with assms(1) show "dir_with D rid (append_line e d) (es @ [e]) (ss @ [s'])"
    by (auto simp: dir_with_def append_line_def nth_append split: option.splits)
qed

end
