(* ===== verification/Durable_Sections.thy ===== *)
theory Durable_Sections
  imports Durable_Inv
begin

section \<open>Durable runtime: what each critical section does\<close>

text \<open>
  On a well-formed directory every critical section first loads the last snapshot and then
  either leaves the log alone or commits exactly one event.  \<open>committed\<close> is the snapshot after
  the commit and \<open>commit_dir\<close> the directory; each lemma \<open>..._eq\<close> gives one operation as a
  decision on the loaded snapshot, which the later proofs use instead of its definition.
\<close>

definition committable :: "run_snapshot \<Rightarrow> payload \<Rightarrow> string \<Rightarrow> instant \<Rightarrow> bool" where
  "committable s p key now \<longleftrightarrow>
     key \<noteq> [] \<and> map_of (rs_idempotency s) key = None \<and> (\<exists>s1. apply_payload s now p = Inr s1)"

definition committed ::
  "digests \<Rightarrow> string \<Rightarrow> payload \<Rightarrow> string \<Rightarrow> instant \<Rightarrow> run_snapshot \<Rightarrow> run_snapshot" where
  "committed D rid p key now s = after_event D rid p key now s
     (case apply_payload s now p of Inl _ \<Rightarrow> s | Inr s1 \<Rightarrow> s1)"

definition commit_dir ::
  "digests \<Rightarrow> string \<Rightarrow> payload \<Rightarrow> string \<Rightarrow> instant \<Rightarrow> run_snapshot \<Rightarrow> run_dir \<Rightarrow> run_dir" where
  "commit_dir D rid p key now s d =
     synced D (committed D rid p key now s) (append_line (logged D rid (Some s) p key now) d)"

lemma append_line_synced [simp]: "append_line e (synced D s d) = synced D s (append_line e d)"
  by (simp add: append_line_def synced_def)

lemma synced_synced [simp]: "synced D s (synced D s' d) = synced D s d"
  by (simp add: synced_def)

lemma committed_simps [simp]:
  "rs_last_sequence (committed D rid p key now s) = rs_last_sequence s + 1"
  "rs_updated_at (committed D rid p key now s) = now"
  "rs_last_hash (committed D rid p key now s) = ev_hash (logged D rid (Some s) p key now)"
  by (simp_all add: committed_def after_event_def)

lemma committed_idempotency [simp]:
  "rs_idempotency (committed D rid p key now s) = rs_idempotency s @ [(key, payload_hash D p)]"
  by (simp add: committed_def after_event_def)

lemma committed_effect:
  assumes "apply_payload s now p = Inr s1"
  shows "rs_state (committed D rid p key now s) = rs_state s1"
    "rs_nodes (committed D rid p key now s) = rs_nodes s1"
    "rs_approvals (committed D rid p key now s) = rs_approvals s1"
    "rs_run_id (committed D rid p key now s) = rs_run_id s"
    "rs_environment (committed D rid p key now s) = rs_environment s"
    "rs_git (committed D rid p key now s) = rs_git s"
  using assms by (simp_all add: committed_def after_event_def apply_payload_frame)

lemma append_commit:
  assumes "dir_with D rid d es ss" and s: "s = last ss" and "committable s p key now"
  shows "append_unlocked D rid (Some s) p key now (synced D s d) =
           (commit_dir D rid p key now s d, Inr (committed D rid p key now s))"
    and "dir_with D rid (commit_dir D rid p key now s d)
           (es @ [logged D rid (Some s) p key now]) (ss @ [committed D rid p key now s])"
    and "dir_with D rid (append_line (logged D rid (Some s) p key now) d)
           (es @ [logged D rid (Some s) p key now]) (ss @ [committed D rid p key now s])"
proof -
  from assms(3) obtain s1 where ap: "apply_payload s now p = Inr s1"
    and k: "key \<noteq> []" "map_of (rs_idempotency s) key = None"
    by (auto simp: committable_def)
  have c: "committed D rid p key now s = after_event D rid p key now s s1"
    using ap by (simp add: committed_def)
  have d': "dir_with D rid (synced D s d) es ss"
    using assms(1) s by (simp add: dir_with_synced_last)
  show "append_unlocked D rid (Some s) p key now (synced D s d) =
          (commit_dir D rid p key now s d, Inr (committed D rid p key now s))"
    using append_unlocked_ok(1) [OF d' k(1), of now p s1] ap k c s by (simp add: commit_dir_def)
  show 2: "dir_with D rid (append_line (logged D rid (Some s) p key now) d)
          (es @ [logged D rid (Some s) p key now]) (ss @ [committed D rid p key now s])"
    using append_unlocked_ok(2) [OF assms(1) k(1), of now p s1] ap k c s by simp
  show "dir_with D rid (commit_dir D rid p key now s d)
          (es @ [logged D rid (Some s) p key now]) (ss @ [committed D rid p key now s])"
    using dir_with_synced_last [OF 2] by (simp add: commit_dir_def)
qed

lemma check_idempotency_False:
  "check_idempotency s key fp = Inr False \<longleftrightarrow> key \<noteq> [] \<and> map_of (rs_idempotency s) key = None"
  by (auto simp: check_idempotency_def split: option.splits)

lemma check_idempotency_True:
  "check_idempotency s key fp = Inr True \<longleftrightarrow> key \<noteq> [] \<and> map_of (rs_idempotency s) key = Some fp"
  by (auto simp: check_idempotency_def split: option.splits)

lemma check_idempotency_not_Corrupt: "check_idempotency s key fp \<noteq> Inl Corrupt_Run"
  by (auto simp: check_idempotency_def split: option.splits)

lemma find_node_Inr [simp]: "find_node s nid = Inr n \<longleftrightarrow> map_of (rs_nodes s) nid = Some n"
  by (auto simp: find_node_def split: option.splits)

lemma find_node_Inl: "find_node s nid = Inl x \<longleftrightarrow> map_of (rs_nodes s) nid = None \<and> x = Key_Error"
  by (auto simp: find_node_def split: option.splits)

text \<open>The result of a section that commits \<open>p\<close> under \<open>key\<close> unless the key is known.\<close>

definition keyed ::
  "digests \<Rightarrow> string \<Rightarrow> run_snapshot \<Rightarrow> run_dir \<Rightarrow> string \<Rightarrow> string \<Rightarrow> (rt_error, 'a) result
   \<Rightarrow> run_dir \<times> (rt_error, 'a) result \<Rightarrow> run_dir \<times> (rt_error, 'a) result" where
  "keyed D rid s d key fp hit miss =
     (case check_idempotency s key fp of
        Inl x \<Rightarrow> (synced D s d, Inl x)
      | Inr b \<Rightarrow> if b then (synced D s d, hit) else miss)"

lemma transition_run_eq:
  assumes "dir_with D rid d es ss" and s: "s = last ss"
    and p: "p = P_Run_Transition (rs_state s) target reason appr"
  shows "transition_run D rid target reason appr key now d =
     keyed D rid s d key (payload_hash D p) (Inr s)
       (if target \<notin> set (run_targets (rs_state s)) then (synced D s d, Inl Invalid_Transition)
        else if appr \<noteq> None \<and> rs_state s \<noteq> R_Awaiting_Approval
          then (synced D s d, Inl Invalid_Transition)
        else (commit_dir D rid p key now s d, Inr (committed D rid p key now s)))"
proof -
  have load: "load_unlocked D rid d = (synced D s d, Inr s)"
    using load_unlocked_ok [OF assms(1)] s by simp
  have c: "committable s p key now" if "check_idempotency s key (payload_hash D p) = Inr False"
    "target \<in> set (run_targets (rs_state s))"
    using that by (simp add: check_idempotency_False committable_def p)
  show ?thesis
  proof (cases "check_idempotency s key (payload_hash D p)")
    case (Inl x)
    then show ?thesis by (simp add: transition_run_def load keyed_def Let_def flip: p)
  next
    case (Inr b)
    show ?thesis
    proof (cases "\<not> b \<and> target \<in> set (run_targets (rs_state s))")
      case True
      with Inr c have "committable s p key now" by simp
      from append_commit(1) [OF assms(1) s this] Inr True show ?thesis
        unfolding p by (auto simp: transition_run_def load keyed_def Let_def)
    next
      case False
      with Inr show ?thesis
        by (auto simp: transition_run_def load keyed_def Let_def simp flip: p)
    qed
  qed
qed

lemma transition_node_eq:
  assumes "dir_with D rid d es ss" and s: "s = last ss" and n: "map_of (rs_nodes s) nid = Some n"
    and p: "p = P_Node_Transition nid (n_state n) target reason appr"
  shows "transition_node D rid nid target reason appr key now d =
     keyed D rid s d key (payload_hash D p) (Inr s)
       (if target \<notin> set (node_targets (n_state n)) then (synced D s d, Inl Invalid_Transition)
        else if appr \<noteq> None \<and> n_state n \<noteq> N_Awaiting_Approval
          then (synced D s d, Inl Invalid_Transition)
        else (commit_dir D rid p key now s d, Inr (committed D rid p key now s)))"
proof -
  have load: "load_unlocked D rid d = (synced D s d, Inr s)"
    using load_unlocked_ok [OF assms(1)] s by simp
  have nn: "find_node s nid = Inr n" using n by simp
  have c: "committable s p key now" if "check_idempotency s key (payload_hash D p) = Inr False"
    "target \<in> set (node_targets (n_state n))"
    using that n by (simp add: check_idempotency_False committable_def p get_node_def)
  show ?thesis
  proof (cases "check_idempotency s key (payload_hash D p)")
    case (Inl x)
    then show ?thesis by (simp add: transition_node_def load nn keyed_def Let_def flip: p)
  next
    case (Inr b)
    show ?thesis
    proof (cases "\<not> b \<and> target \<in> set (node_targets (n_state n))")
      case True
      with Inr c have "committable s p key now" by simp
      from append_commit(1) [OF assms(1) s this] Inr True show ?thesis
        unfolding p by (auto simp: transition_node_def load nn keyed_def Let_def)
    next
      case False
      with Inr show ?thesis
        by (auto simp: transition_node_def load nn keyed_def Let_def simp flip: p)
    qed
  qed
qed

lemma section_no_node:
  assumes "dir_with D rid d es ss" and "map_of (rs_nodes (last ss)) nid = None"
  shows "transition_node D rid nid target reason appr key now d = (synced D (last ss) d, Inl Key_Error)"
    and "record_retry D rid nid cls why base mx key now now2 d = (synced D (last ss) d, Inl Key_Error)"
  using load_unlocked_ok [OF assms(1)] assms(2)
  by (simp_all add: transition_node_def record_retry_def abind_def find_node_def)

subsection \<open>Leases\<close>

text \<open>Derived fields do not enter the command hash, so the hash of the event is that of the call.\<close>

lemma payload_hash_lease:
  "payload_hash D (P_Lease_Acquired nid owner tok acq hb ex ttl) =
     operation_hash D ''lease_acquired''
       [(''node_id'', JStr nid), (''owner'', JStr owner), (''ttl_seconds'', JNum ttl)]"
  "payload_hash D (P_Lease_Heartbeat nid tok hb ex ttl) =
     operation_hash D ''lease_heartbeat''
       [(''node_id'', JStr nid), (''token'', JStr tok), (''ttl_seconds'', JNum ttl)]"
  by (simp_all add: payload_hash_def operation_hash_def operation_doc_def derived_fields_def)

definition live_lease :: "instant \<Rightarrow> node_snapshot \<Rightarrow> bool" where
  "live_lease now n = (case n_lease n of None \<Rightarrow> False | Some l \<Rightarrow> now < l_expires_at l)"

text \<open>Continue with the node, or leave the log alone and raise \<open>KeyError\<close>.\<close>

definition on_node ::
  "digests \<Rightarrow> run_snapshot \<Rightarrow> run_dir \<Rightarrow> string
   \<Rightarrow> (node_snapshot \<Rightarrow> run_dir \<times> (rt_error, 'a) result) \<Rightarrow> run_dir \<times> (rt_error, 'a) result" where
  "on_node D s d nid f =
     (case map_of (rs_nodes s) nid of None \<Rightarrow> (synced D s d, Inl Key_Error) | Some n \<Rightarrow> f n)"

lemma on_node_alift [simp]:
  "abind (alift (find_node s nid)) f (synced D s d) = on_node D s d nid (\<lambda>n. f n (synced D s d))"
  by (simp add: on_node_def find_node_def split: option.splits)

definition new_lease :: "digests \<Rightarrow> string \<Rightarrow> string \<Rightarrow> string \<Rightarrow> string \<Rightarrow> run_snapshot
    \<Rightarrow> instant \<Rightarrow> instant \<Rightarrow> lease" where
  "new_lease D rid nid owner key s now ex =
     \<lparr>l_owner = owner, l_token = lease_token D rid nid owner (rs_last_sequence s + 1) key,
      l_acquired_at = now, l_heartbeat_at = now, l_expires_at = ex\<rparr>"

definition acquire_payload :: "digests \<Rightarrow> string \<Rightarrow> string \<Rightarrow> string \<Rightarrow> string \<Rightarrow> run_snapshot
    \<Rightarrow> instant \<Rightarrow> instant \<Rightarrow> rat \<Rightarrow> payload" where
  "acquire_payload D rid nid owner key s now ex ttl =
     P_Lease_Acquired nid owner (lease_token D rid nid owner (rs_last_sequence s + 1) key)
       now now ex ttl"

lemma keyed_bind:
  assumes "\<And>b. b = True \<Longrightarrow> check_idempotency s key fp = Inr b \<Longrightarrow> f b (synced D s d) = (synced D s d, hit)"
    and "\<And>b. b = False \<Longrightarrow> check_idempotency s key fp = Inr b \<Longrightarrow> f b (synced D s d) = miss"
  shows "abind (alift (check_idempotency s key fp)) f (synced D s d) =
           keyed D rid s d key fp hit miss"
  using assms by (auto simp: keyed_def split: sum.splits)

lemma acquire_lease_eq:
  assumes "dir_with D rid d es ss" and s: "s = last ss"
  shows "acquire_lease D rid nid owner ttl key now now2 d =
     keyed D rid s d key (operation_hash D ''lease_acquired''
         [(''node_id'', JStr nid), (''owner'', JStr owner), (''ttl_seconds'', JNum ttl)])
       (current_lease Lease_Expired nid s)
       (on_node D s d nid (\<lambda>n.
          if live_lease now n then (synced D s d, Inl Lease_Conflict)
          else case add_seconds now ttl of
                 None \<Rightarrow> (synced D s d, Inl Overflow_Error)
               | Some ex \<Rightarrow>
                 (commit_dir D rid (acquire_payload D rid nid owner key s now ex ttl) key now2 s d,
                  Inr (new_lease D rid nid owner key s now ex))))"
proof -
  have load: "load_unlocked D rid d = (synced D s d, Inr s)"
    using load_unlocked_ok [OF assms(1)] s by simp
  have app: "abind (append_unlocked D rid (Some s)
        (acquire_payload D rid nid owner key s now ex ttl) key now2)
        (\<lambda>s'. alift (current_lease Corrupt_Run nid s')) (synced D s d) =
      (commit_dir D rid (acquire_payload D rid nid owner key s now ex ttl) key now2 s d,
       Inr (new_lease D rid nid owner key s now ex))"
    if k: "check_idempotency s key fp = Inr False" and n: "map_of (rs_nodes s) nid = Some n"
    for n ex fp
  proof -
    let ?p = "acquire_payload D rid nid owner key s now ex ttl"
    obtain s1 where ap: "apply_payload s now2 ?p = Inr s1"
      and nodes: "map_of (rs_nodes s1) nid = Some (n\<lparr>n_lease := Some (new_lease D rid nid owner key s now ex)\<rparr>)"
      using n by (auto simp: acquire_payload_def get_node_def new_lease_def dict_simps)
    have "committable s ?p key now2"
      using k ap by (auto simp: committable_def check_idempotency_False)
    note c = append_commit(1) [OF assms(1) s this]
    show ?thesis
      by (simp add: c current_lease_def find_node_def committed_effect [OF ap] nodes)
  qed
  show ?thesis
    by (simp only: acquire_lease_def abind_Inr [of "load_unlocked D rid", OF load] Let_def)
      (rule keyed_bind; auto simp: on_node_def live_lease_def app [unfolded acquire_payload_def]
        acquire_payload_def split: option.splits)
qed

text \<open>The node's lease when the caller's token may use it, or the exception.\<close>

definition held_lease :: "instant \<Rightarrow> string \<Rightarrow> node_snapshot \<Rightarrow> (rt_error, lease) result" where
  "held_lease now token n = (case n_lease n of None \<Rightarrow> Inl Lease_Expired
     | Some l \<Rightarrow> if l_expires_at l \<le> now then Inl Lease_Expired
                 else if l_token l \<noteq> token then Inl Lease_Conflict else Inr l)"

lemma held_lease_Inr [result_simps]:
  "held_lease now token n = Inr l \<longleftrightarrow> n_lease n = Some l \<and> now < l_expires_at l \<and> l_token l = token"
  by (auto simp: held_lease_def split: option.splits)

lemma held_lease_not_Corrupt: "held_lease now token n \<noteq> Inl Corrupt_Run"
  by (auto simp: held_lease_def split: option.splits)

lemma heartbeat_eq:
  assumes "dir_with D rid d es ss" and s: "s = last ss"
  shows "heartbeat D rid nid token ttl key now now2 d =
     keyed D rid s d key (operation_hash D ''lease_heartbeat''
         [(''node_id'', JStr nid), (''token'', JStr token), (''ttl_seconds'', JNum ttl)])
       (current_lease Lease_Expired nid s)
       (on_node D s d nid (\<lambda>n. case held_lease now token n of
            Inl x \<Rightarrow> (synced D s d, Inl x)
          | Inr l \<Rightarrow> (case add_seconds now ttl of
                 None \<Rightarrow> (synced D s d, Inl Overflow_Error)
               | Some ex \<Rightarrow>
                 (commit_dir D rid (P_Lease_Heartbeat nid token now ex ttl) key now2 s d,
                  Inr (l\<lparr>l_heartbeat_at := now, l_expires_at := ex\<rparr>)))))"
proof -
  have load: "load_unlocked D rid d = (synced D s d, Inr s)"
    using load_unlocked_ok [OF assms(1)] s by simp
  have app: "abind (append_unlocked D rid (Some s) (P_Lease_Heartbeat nid token now ex ttl) key now2)
        (\<lambda>s'. alift (current_lease Corrupt_Run nid s')) (synced D s d) =
      (commit_dir D rid (P_Lease_Heartbeat nid token now ex ttl) key now2 s d,
       Inr (l\<lparr>l_heartbeat_at := now, l_expires_at := ex\<rparr>))"
    if k: "check_idempotency s key fp = Inr False" and n: "map_of (rs_nodes s) nid = Some n"
      and l: "n_lease n = Some l" for n ex fp l
  proof -
    let ?p = "P_Lease_Heartbeat nid token now ex ttl"
    obtain s1 where ap: "apply_payload s now2 ?p = Inr s1"
      and nodes: "map_of (rs_nodes s1) nid =
        Some (n\<lparr>n_lease := Some (l\<lparr>l_heartbeat_at := now, l_expires_at := ex\<rparr>)\<rparr>)"
      using n l by (auto simp: get_node_def dict_simps)
    have "committable s ?p key now2"
      using k ap by (auto simp: committable_def check_idempotency_False)
    note c = append_commit(1) [OF assms(1) s this]
    show ?thesis
      by (simp add: c current_lease_def find_node_def committed_effect [OF ap] nodes)
  qed
  show ?thesis
    by (simp only: heartbeat_def abind_Inr [of "load_unlocked D rid", OF load] Let_def)
      (rule keyed_bind; auto simp: on_node_def held_lease_def app split: option.splits)
qed

lemma release_lease_eq:
  assumes "dir_with D rid d es ss" and s: "s = last ss" and p: "p = P_Lease_Released nid token"
  shows "release_lease D rid nid token key now now2 d =
     keyed D rid s d key (payload_hash D p) (Inr s)
       (on_node D s d nid (\<lambda>n. case held_lease now token n of
            Inl x \<Rightarrow> (synced D s d, Inl x)
          | Inr l \<Rightarrow> (commit_dir D rid p key now2 s d, Inr (committed D rid p key now2 s))))"
proof -
  have load: "load_unlocked D rid d = (synced D s d, Inr s)"
    using load_unlocked_ok [OF assms(1)] s by simp
  have app: "append_unlocked D rid (Some s) p key now2 (synced D s d) =
      (commit_dir D rid p key now2 s d, Inr (committed D rid p key now2 s))"
    if "check_idempotency s key fp = Inr False" "map_of (rs_nodes s) nid = Some n"
      "n_lease n = Some l" "l_token l = token" for n fp l
    by (rule append_commit(1) [OF assms(1) s])
      (use that in \<open>auto simp: p committable_def check_idempotency_False get_node_def\<close>)
  show ?thesis
    by (simp only: release_lease_def abind_Inr [of "load_unlocked D rid", OF load] Let_def p)
      (rule keyed_bind; auto simp: on_node_def held_lease_def app [unfolded p] split: option.splits)
qed

definition unleased :: "node_snapshot \<Rightarrow> node_snapshot" where
  "unleased n = n\<lparr>n_lease := None\<rparr>"

lemma clear_leases:
  assumes "set ids \<subseteq> fst ` set ns"
  shows "\<exists>ns'. rfold clear_lease ids ns = Inr ns' \<and> map fst ns' = map fst ns \<and>
    (\<forall>k. map_of ns' k = (if k \<in> set ids then map_option unleased (map_of ns k) else map_of ns k))"
  using assms
proof (induction ids arbitrary: ns)
  case Nil
  then show ?case by simp
next
  case (Cons i ids)
  then have i: "i \<in> fst ` set ns" by simp
  then obtain n where n: "map_of ns i = Some n"
    by (metis map_of_eq_None_iff not_None_eq)
  define ns1 where "ns1 = AList.update i (unleased n) ns"
  have keys: "map fst ns1 = map fst ns" using i by (simp add: ns1_def dict_update_same_keys)
  have "set ids \<subseteq> fst ` set ns1" using Cons.prems by (auto simp: ns1_def dict_keys_update)
  from Cons.IH [OF this] obtain ns' where ns': "rfold clear_lease ids ns1 = Inr ns'"
    "map fst ns' = map fst ns1"
    "\<forall>k. map_of ns' k = (if k \<in> set ids then map_option unleased (map_of ns1 k) else map_of ns1 k)"
    by blast
  have "clear_lease i ns = Inr ns1"
    by (simp add: clear_lease_def get_node_def n ns1_def unleased_def)
  with ns' keys have "rfold clear_lease (i # ids) ns = Inr ns'" "map fst ns' = map fst ns" by simp_all
  moreover have "map_of ns' k =
      (if k \<in> set (i # ids) then map_option unleased (map_of ns k) else map_of ns k)" for k
    using ns'(3) n by (auto simp: ns1_def dict_simps unleased_def)
  ultimately show ?case by blast
qed

lemma expired_nodes_keys: "set (expired_nodes now s) \<subseteq> fst ` set (rs_nodes s)"
  by (auto simp: expired_nodes_def)

lemma append_checked_eq:
  assumes "dir_with D rid d es ss" and s: "s = last ss"
    and "\<And>k. k \<noteq> [] \<Longrightarrow> map_of (rs_idempotency s) k = None \<Longrightarrow> committable s p k now"
  shows "append_checked D rid s p key now (synced D s d) =
     keyed D rid s d key (payload_hash D p) (Inr s)
       (commit_dir D rid p key now s d, Inr (committed D rid p key now s))"
proof -
  have "append_unlocked D rid (Some s) p key now (synced D s d) =
      (commit_dir D rid p key now s d, Inr (committed D rid p key now s))"
    if "check_idempotency s key fp = Inr False" for fp
    by (rule append_commit(1) [OF assms(1) s assms(3)]) (use that in \<open>auto simp: check_idempotency_False\<close>)
  then show ?thesis by (simp only: append_checked_def) (rule keyed_bind; simp)
qed

lemma expire_leases_eq:
  assumes "dir_with D rid d es ss" and s: "s = last ss"
    and p: "p = P_Leases_Expired (expired_nodes now s) now"
  shows "expire_leases D rid key now now2 d =
     keyed D rid s d key (payload_hash D p) (Inr s)
       (commit_dir D rid p key now2 s d, Inr (committed D rid p key now2 s))"
proof -
  have load: "load_unlocked D rid d = (synced D s d, Inr s)"
    using load_unlocked_ok [OF assms(1)] s by simp
  have "committable s p k now2" if "k \<noteq> []" "map_of (rs_idempotency s) k = None" for k
    using that clear_leases [OF expired_nodes_keys, of now s]
    by (auto simp: committable_def p)
  then show ?thesis
    using append_checked_eq [OF assms(1) s, of p now2 key]
    by (simp add: expire_leases_def load p)
qed

text \<open>What \<open>record_retry\<close> writes.\<close>

definition retry_payload :: "string \<Rightarrow> retry_class \<Rightarrow> string \<Rightarrow> rat \<Rightarrow> rat \<Rightarrow> int \<Rightarrow> instant option
    \<Rightarrow> payload" where
  "retry_payload nid cls reason base mx att nb =
     P_Retry_Recorded nid att cls (cls \<noteq> Permanent) (retry_backoff cls att base mx) nb reason base mx"

definition retry_record :: "retry_class \<Rightarrow> string \<Rightarrow> rat \<Rightarrow> rat \<Rightarrow> int \<Rightarrow> instant option
    \<Rightarrow> retry_metadata" where
  "retry_record cls reason base mx att nb =
     \<lparr>rm_attempt = att, rm_classification = cls, rm_retryable = (cls \<noteq> Permanent),
      rm_backoff_seconds = retry_backoff cls att base mx, rm_not_before = nb, rm_reason = reason\<rparr>"

text \<open>The \<open>not_before\<close> instant: absent for a permanent failure, \<open>Inl\<close> when out of range.\<close>

definition retry_time :: "instant \<Rightarrow> rat option \<Rightarrow> (rt_error, instant option) result" where
  "retry_time now bo = (case bo of None \<Rightarrow> Inr None
     | Some b \<Rightarrow> (case add_seconds now b of None \<Rightarrow> Inl Overflow_Error | Some t \<Rightarrow> Inr (Some t)))"

definition last_retry :: "string \<Rightarrow> run_snapshot \<Rightarrow> (rt_error, retry_metadata) result" where
  "last_retry nid s = rbind (find_node s nid) (\<lambda>n.
     case n_retry n of None \<Rightarrow> Inl Corrupt_Run | Some r \<Rightarrow> Inr r)"

lemma record_retry_eq:
  assumes "dir_with D rid d es ss" and s: "s = last ss"
  shows "record_retry D rid nid cls reason base mx key now now2 d =
     on_node D s d nid (\<lambda>n. case retry_time now (retry_backoff cls (n_attempts n + 1) base mx) of
         Inl x \<Rightarrow> (synced D s d, Inl x)
       | Inr nb \<Rightarrow>
         (let p = retry_payload nid cls reason base mx (n_attempts n + 1) nb
          in keyed D rid s d key (payload_hash D p) (last_retry nid s)
               (commit_dir D rid p key now2 s d,
                Inr (retry_record cls reason base mx (n_attempts n + 1) nb))))"
proof -
  have load: "load_unlocked D rid d = (synced D s d, Inr s)"
    using load_unlocked_ok [OF assms(1)] s by simp
  have last: "abind (alift (find_node s' nid))
      (\<lambda>n'. case n_retry n' of None \<Rightarrow> araise Corrupt_Run | Some r \<Rightarrow> areturn r) x =
      (x, last_retry nid s')" for s' x
    by (auto simp: last_retry_def find_node_def split: option.splits)
  have app: "abind (append_checked D rid s p key now2)
        (\<lambda>s'. abind (alift (find_node s' nid))
           (\<lambda>n'. case n_retry n' of None \<Rightarrow> araise Corrupt_Run | Some r \<Rightarrow> areturn r)) (synced D s d) =
      keyed D rid s d key (payload_hash D p) (last_retry nid s)
        (commit_dir D rid p key now2 s d, Inr (retry_record cls reason base mx att nb))"
    if n: "map_of (rs_nodes s) nid = Some n" and p: "p = retry_payload nid cls reason base mx att nb"
    for n p att nb
  proof -
    obtain s1 where ap: "apply_payload s now2 p = Inr s1"
      and nodes: "last_retry nid (committed D rid p key now2 s) =
        Inr (retry_record cls reason base mx att nb)"
      using n by (auto simp: p retry_payload_def get_node_def dict_simps last_retry_def find_node_def
          committed_def after_event_def Let_def retry_record_def)
    have "committable s p k now2" if "k \<noteq> []" "map_of (rs_idempotency s) k = None" for k
      using that ap by (simp add: committable_def)
    note c = append_checked_eq [OF assms(1) s this, of key]
    show ?thesis
      by (cases "check_idempotency s key (payload_hash D p)")
        (auto simp: abind_def [of "append_checked D rid s p key now2"] c keyed_def last nodes)
  qed
  show ?thesis
    by (simp add: record_retry_def load)
      (auto simp: on_node_def retry_time_def Let_def app [unfolded retry_payload_def]
        retry_payload_def split: option.splits)
qed

end
