(* ===== verification/Durable_Reach.thy ===== *)
theory Durable_Reach
  imports Durable_Sections
begin

section \<open>Durable runtime: reachable stores\<close>

text \<open>
  Every public call changes at most one run directory, in one of four ways (\<open>dir_step\<close>): not at
  all, by rewriting its checkpoint, by committing one event, or by creating the run.  The
  invariant \<open>store_ok\<close> (every directory is well formed) follows by rule induction for every
  reachable store, including those a crash between the log and the checkpoint leaves.
\<close>

definition created_event :: "digests \<Rightarrow> string \<Rightarrow> payload \<Rightarrow> string \<Rightarrow> instant \<Rightarrow> event" where
  "created_event D rid p key now = logged D rid None p key now"

definition created :: "digests \<Rightarrow> string \<Rightarrow> string list \<Rightarrow> environment_snapshot \<Rightarrow> git_snapshot
    \<Rightarrow> string \<Rightarrow> instant \<Rightarrow> run_snapshot" where
  "created D rid ids env git key now =
     \<lparr>rs_run_id = rid, rs_state = R_Created, rs_nodes = map (\<lambda>i. (i, new_node i)) (dedup ids),
      rs_environment = env, rs_git = git, rs_created_at = now, rs_updated_at = now,
      rs_last_sequence = 1,
      rs_last_hash = ev_hash (created_event D rid (P_Run_Created ids env git) key now),
      rs_approvals = [], rs_idempotency = [(key, payload_hash D (P_Run_Created ids env git))]\<rparr>"

definition created_dir :: "digests \<Rightarrow> string \<Rightarrow> string list \<Rightarrow> environment_snapshot \<Rightarrow> git_snapshot
    \<Rightarrow> string \<Rightarrow> instant \<Rightarrow> run_dir" where
  "created_dir D rid ids env git key now =
     synced D (created D rid ids env git key now)
       (append_line (created_event D rid (P_Run_Created ids env git) key now) empty_dir)"

inductive dir_step :: "digests \<Rightarrow> string \<Rightarrow> run_dir \<Rightarrow> run_dir \<Rightarrow> bool" for D rid where
  stay: "dir_step D rid d d"
| sync: "dir_with D rid d es ss \<Longrightarrow> dir_step D rid d (synced D (last ss) d)"
| commit: "dir_with D rid d es ss \<Longrightarrow> committable (last ss) p key now \<Longrightarrow>
    dir_step D rid d (commit_dir D rid p key now (last ss) d)"
| create: "dir_step D rid empty_dir (created_dir D rid ids env git key now)"

definition sound_section :: "digests \<Rightarrow> string \<Rightarrow> 'a rt_action \<Rightarrow> bool" where
  "sound_section D rid body \<longleftrightarrow> (\<forall>d. dir_ok D rid d \<longrightarrow> dir_step D rid d (fst (body d)))"

subsection \<open>The critical sections\<close>

lemma sound_sectionI:
  assumes "\<And>d es ss. dir_with D rid d es ss \<Longrightarrow> dir_step D rid d (fst (body d))"
    and "fst (body empty_dir) = empty_dir"
  shows "sound_section D rid body"
  using assms by (auto simp: sound_section_def dir_ok_def intro: dir_step.intros)

lemma section_empty [simp]:
  "abind (load_unlocked D rid) f empty_dir = (empty_dir, Inl Run_Not_Found)"
  by (simp add: load_unlocked_empty)

lemma dir_step_keyed:
  assumes "dir_with D rid d es ss" and "s = last ss"
    and "key \<noteq> [] \<Longrightarrow> map_of (rs_idempotency s) key = None \<Longrightarrow> dir_step D rid d (fst miss)"
  shows "dir_step D rid d (fst (keyed D rid s d key fp hit miss))"
  using assms check_idempotency_False [of s key fp]
  by (cases "check_idempotency s key fp") (auto simp: keyed_def intro: dir_step.sync)

lemma dir_step_on_node:
  assumes "dir_with D rid d es ss" and "s = last ss"
    and "\<And>n. map_of (rs_nodes s) nid = Some n \<Longrightarrow> dir_step D rid d (fst (f n))"
  shows "dir_step D rid d (fst (on_node D s d nid f))"
  using assms by (auto simp: on_node_def intro: dir_step.sync split: option.splits)

lemma sound_transition_run: "sound_section D rid (transition_run D rid target reason appr key now)"
proof (rule sound_sectionI)
  fix d es ss assume dw: "dir_with D rid d es ss"
  show "dir_step D rid d (fst (transition_run D rid target reason appr key now d))"
    by (subst transition_run_eq [OF dw refl refl], rule dir_step_keyed [OF dw refl])
      (auto intro: dir_step.sync [OF dw] dir_step.commit [OF dw] simp: committable_def)
qed (simp add: transition_run_def)

lemma sound_transition_node:
  "sound_section D rid (transition_node D rid nid target reason appr key now)"
proof (rule sound_sectionI)
  fix d es ss assume dw: "dir_with D rid d es ss"
  show "dir_step D rid d (fst (transition_node D rid nid target reason appr key now d))"
  proof (cases "map_of (rs_nodes (last ss)) nid")
    case None
    then show ?thesis by (simp add: section_no_node [OF dw] dir_step.sync [OF dw])
  next
    case (Some n)
    show ?thesis
      by (subst transition_node_eq [OF dw refl Some refl], rule dir_step_keyed [OF dw refl])
        (use Some in \<open>auto intro: dir_step.sync [OF dw] dir_step.commit [OF dw]
           simp: committable_def get_node_def\<close>)
  qed
qed (simp add: transition_node_def)

lemma sound_acquire_lease: "sound_section D rid (acquire_lease D rid nid owner ttl key now now2)"
proof (rule sound_sectionI)
  fix d es ss assume dw: "dir_with D rid d es ss"
  show "dir_step D rid d (fst (acquire_lease D rid nid owner ttl key now now2 d))"
    by (subst acquire_lease_eq [OF dw refl], rule dir_step_keyed [OF dw refl],
        rule dir_step_on_node [OF dw refl])
      (auto intro: dir_step.sync [OF dw] dir_step.commit [OF dw] split: option.splits
        simp: committable_def get_node_def acquire_payload_def)
qed (simp add: acquire_lease_def)

lemma sound_heartbeat: "sound_section D rid (heartbeat D rid nid token ttl key now now2)"
proof (rule sound_sectionI)
  fix d es ss assume dw: "dir_with D rid d es ss"
  show "dir_step D rid d (fst (heartbeat D rid nid token ttl key now now2 d))"
    by (subst heartbeat_eq [OF dw refl], rule dir_step_keyed [OF dw refl],
        rule dir_step_on_node [OF dw refl])
      (auto intro: dir_step.sync [OF dw] dir_step.commit [OF dw] split: option.splits sum.splits
        simp: committable_def get_node_def held_lease_Inr)
qed (simp add: heartbeat_def)

lemma sound_release_lease: "sound_section D rid (release_lease D rid nid token key now now2)"
proof (rule sound_sectionI)
  fix d es ss assume dw: "dir_with D rid d es ss"
  show "dir_step D rid d (fst (release_lease D rid nid token key now now2 d))"
    by (subst release_lease_eq [OF dw refl refl], rule dir_step_keyed [OF dw refl],
        rule dir_step_on_node [OF dw refl])
      (auto intro: dir_step.sync [OF dw] dir_step.commit [OF dw] split: sum.splits
        simp: committable_def get_node_def held_lease_Inr)
qed (simp add: release_lease_def)

lemma sound_expire_leases: "sound_section D rid (expire_leases D rid key now now2)"
proof (rule sound_sectionI)
  fix d es ss assume dw: "dir_with D rid d es ss"
  show "dir_step D rid d (fst (expire_leases D rid key now now2 d))"
    by (subst expire_leases_eq [OF dw refl refl], rule dir_step_keyed [OF dw refl])
      (use clear_leases [OF expired_nodes_keys, of now "last ss"] in
        \<open>auto intro: dir_step.commit [OF dw] simp: committable_def\<close>)
qed (simp add: expire_leases_def)

lemma sound_record_retry: "sound_section D rid (record_retry D rid nid cls reason base mx key now now2)"
proof (rule sound_sectionI)
  fix d es ss assume dw: "dir_with D rid d es ss"
  have miss: "dir_step D rid d (commit_dir D rid p key now2 (last ss) d)"
    if "map_of (rs_nodes (last ss)) nid = Some n" "p = retry_payload nid cls reason base mx att nb"
      "key \<noteq> []" "map_of (rs_idempotency (last ss)) key = None"
    for n p att nb
    by (rule dir_step.commit [OF dw])
      (use that in \<open>simp add: committable_def retry_payload_def get_node_def Let_def\<close>)
  show "dir_step D rid d (fst (record_retry D rid nid cls reason base mx key now now2 d))"
    unfolding record_retry_eq [OF dw refl]
    by (rule dir_step_on_node [OF dw refl])
      (auto simp: Let_def intro!: dir_step_keyed [OF dw refl] intro: dir_step.sync [OF dw] miss
        split: sum.splits)
qed (simp add: record_retry_def)

lemmas sound_sections = sound_transition_run sound_transition_node sound_acquire_lease
  sound_heartbeat sound_release_lease sound_expire_leases sound_record_retry

lemma sound_load: "sound_section D rid (load_unlocked D rid)"
  by (rule sound_sectionI) (auto simp: load_unlocked_ok load_unlocked_empty intro: dir_step.sync)

lemma sound_read: "sound_section D rid (\<lambda>d. (d, read_events D rid d))"
  by (simp add: sound_section_def dir_step.stay)

lemma next_sequence_None [simp]: "next_sequence None = 1"
  by (simp add: next_sequence_def)

lemma create_unlocked_empty:
  assumes "key \<noteq> []"
  shows "create_unlocked D rid ids env git ce cg key now empty_dir =
    (created_dir D rid ids (case env of None \<Rightarrow> ce | Some x \<Rightarrow> x)
                           (case git of None \<Rightarrow> cg | Some x \<Rightarrow> x) key now,
     Inr (created D rid ids (case env of None \<Rightarrow> ce | Some x \<Rightarrow> x)
                           (case git of None \<Rightarrow> cg | Some x \<Rightarrow> x) key now))"
  using assms
  by (simp add: create_unlocked_def empty_dir_def append_unlocked_def Let_def created_dir_def
      apply_event_def apply_created_def created_def created_event_def logged_def)

lemma created_dir_with:
  "dir_with D rid (created_dir D rid ids env git key now)
     [created_event D rid (P_Run_Created ids env git) key now] [created D rid ids env git key now]"
proof -
  let ?e = "created_event D rid (P_Run_Created ids env git) key now"
  have "rt_chain D 1 zero_hash [?e]"
    using rt_log.seal_extends [of D 1 zero_hash "[]" 1 zero_hash]
    by (simp add: created_event_def logged_def next_sequence_def previous_hash_def)
  moreover have "snapshots None [?e] = Inr [created D rid ids env git key now]"
    by (simp add: apply_event_def apply_created_def created_def created_event_def)
  ultimately show ?thesis
    by (simp add: dir_with_def created_dir_def append_line_def empty_dir_def log_ok_def
        created_event_def)
qed

lemma sound_create_unlocked:
  assumes "key \<noteq> []"
  shows "sound_section D rid (create_unlocked D rid ids env git ce cg key now)"
proof -
  have "dir_step D rid d (fst (create_unlocked D rid ids env git ce cg key now d))"
    if dw: "dir_with D rid d es ss" for d es ss
  proof -
    have "rd_events d = Some (map Line es)" using dw by (simp add: dir_with_def)
    then have "fst (create_unlocked D rid ids env git ce cg key now d) = synced D (last ss) d"
      by (auto simp: create_unlocked_def load_unlocked_ok [OF dw] Let_def abind_def
          split: prod.splits sum.splits if_split_asm)
    then show ?thesis by (simp add: dir_step.sync [OF dw])
  qed
  moreover have "dir_step D rid empty_dir (fst (create_unlocked D rid ids env git ce cg key now empty_dir))"
    by (simp add: create_unlocked_empty [OF assms] dir_step.create)
  ultimately show ?thesis by (auto simp: sound_section_def dir_ok_def)
qed

subsection \<open>From critical sections to calls\<close>

definition dir_of :: "store \<Rightarrow> string \<Rightarrow> run_dir" where
  "dir_of st rid = (case st rid of None \<Rightarrow> empty_dir | Some d \<Rightarrow> d)"

definition store_ok :: "digests \<Rightarrow> store \<Rightarrow> bool" where
  "store_ok D st \<longleftrightarrow> (\<forall>rid. dir_ok D rid (dir_of st rid))"

definition store_step :: "digests \<Rightarrow> string \<Rightarrow> store \<Rightarrow> store \<Rightarrow> bool" where
  "store_step D rid st st' \<longleftrightarrow>
     st' = st \<or> (\<exists>d'. st' = st(rid \<mapsto> d') \<and> dir_step D rid (dir_of st rid) d')"

fun call_run :: "rt_call \<Rightarrow> string" where
  "call_run (C_Create r _ _ _ _ _ _) = r"
| "call_run (C_Load r) = r"
| "call_run (C_Events r) = r"
| "call_run (C_Start r _) = r"
| "call_run (C_Pause r _ _) = r"
| "call_run (C_Wait r _ _) = r"
| "call_run (C_Request_Approval r _ _) = r"
| "call_run (C_Approve r _ _) = r"
| "call_run (C_Resume r _) = r"
| "call_run (C_Complete r _) = r"
| "call_run (C_Fail r _ _) = r"
| "call_run (C_Cancel r _ _) = r"
| "call_run (C_Start_Node r _ _) = r"
| "call_run (C_Pause_Node r _ _ _) = r"
| "call_run (C_Wait_Node r _ _ _) = r"
| "call_run (C_Request_Node_Approval r _ _ _) = r"
| "call_run (C_Approve_Node r _ _ _) = r"
| "call_run (C_Resume_Node r _ _) = r"
| "call_run (C_Complete_Node r _ _) = r"
| "call_run (C_Fail_Node r _ _ _) = r"
| "call_run (C_Cancel_Node r _ _ _) = r"
| "call_run (C_Acquire r _ _ _ _) = r"
| "call_run (C_Heartbeat r _ _ _ _) = r"
| "call_run (C_Release r _ _ _) = r"
| "call_run (C_Expire r _) = r"
| "call_run (C_Retry r _ _ _ _ _ _) = r"

lemma dir_of_update [simp]: "dir_of (st(rid \<mapsto> d)) r = (if r = rid then d else dir_of st r)"
  by (simp add: dir_of_def)

lemma store_okD: "store_ok D st \<Longrightarrow> dir_ok D rid (dir_of st rid)"
  by (simp add: store_ok_def)

lemma store_step_refl [simp]: "store_step D rid st st"
  by (simp add: store_step_def)

lemma store_step_lock:
  assumes "store_ok D st" and "sound_section D rid body"
  shows "store_step D rid st (fst (with_lock rid body st))"
proof (cases "st rid")
  case None
  then show ?thesis by (simp add: with_lock_def)
next
  case (Some d)
  with store_okD [OF assms(1), of rid] assms(2) have "dir_step D rid d (fst (body d))"
    by (simp add: dir_of_def sound_section_def)
  with Some show ?thesis
    by (auto simp: with_lock_def store_step_def dir_of_def split: prod.splits)
qed

lemma store_step_create:
  assumes "store_ok D st"
  shows "store_step D rid st (fst (create_run D rid ids env git ce cg key now st))"
proof -
  have "dir_step D rid (dir_of st rid)
      (fst (create_unlocked D rid ids env git ce cg key now (dir_of st rid)))" if "key \<noteq> []"
    using sound_create_unlocked [OF that] store_okD [OF assms] by (simp add: sound_section_def)
  then show ?thesis
    by (auto simp: create_run_def store_step_def dir_of_def [symmetric] split: prod.splits)
qed

lemma exec_call_step: "store_ok D st \<Longrightarrow> store_step D (call_run c) st (exec_call D c now now2 st)"
  by (cases c)
    (simp_all add: exec_call_def load_def events_def start_def pause_def wait_def request_approval_def approve_def
      resume_def complete_def fail_def cancel_def start_node_def pause_node_def wait_node_def
      request_node_approval_def approve_node_def resume_node_def complete_node_def fail_node_def
      cancel_node_def acquire_def renew_def release_def expire_def retry_def require_def
      validate_ttl_def store_step_lock store_step_create sound_sections sound_load sound_read)

subsection \<open>The invariant\<close>

lemma dir_with_ok: "dir_with D rid d es ss \<Longrightarrow> dir_ok D rid d"
  by (auto simp: dir_ok_def)

lemma dir_step_ok:
  assumes "dir_step D rid d d'" and "dir_ok D rid d"
  shows "dir_ok D rid d'"
  using assms(1)
proof cases
  case (commit es ss p key now)
  with append_commit(2) [OF commit(2) refl commit(3)] show ?thesis by (simp add: dir_with_ok)
qed (simp_all add: assms(2) dir_with_ok [OF created_dir_with] dir_with_ok [OF dir_with_synced_last])

text \<open>The directory as a crash leaves it: the log of \<open>d'\<close> and the checkpoint of \<open>d\<close>.\<close>

definition torn :: "run_dir \<Rightarrow> run_dir \<Rightarrow> run_dir" where
  "torn d d' = d'\<lparr>rd_checkpoint := rd_checkpoint d\<rparr>"

lemma torn_synced [simp]: "torn d (synced D s d') = torn d d'"
  by (simp add: torn_def synced_def)

lemma torn_same [simp]: "torn d d = d"
  by (simp add: torn_def)

lemma torn_append [simp]: "torn d (append_line e d) = append_line e d"
  by (simp add: torn_def append_line_def)

lemma created_torn:
  "dir_with D rid (torn empty_dir (created_dir D rid ids env git key now))
     [created_event D rid (P_Run_Created ids env git) key now] [created D rid ids env git key now]"
  using created_dir_with [of D rid ids env git key now]
  by (auto simp: created_dir_def dir_with_def torn_def append_line_def empty_dir_def)

lemma dir_step_torn_ok:
  assumes "dir_step D rid d d'" and "dir_ok D rid d"
  shows "dir_ok D rid (torn d d')"
  using assms(1)
proof cases
  case (commit es ss p key now)
  with append_commit(3) [OF commit(2) refl commit(3)] show ?thesis
    by (simp add: dir_with_ok commit_dir_def)
next
  case (create ids env git key now)
  then show ?thesis by (simp add: dir_with_ok [OF created_torn])
qed (use assms(2) in auto)

lemma store_step_ok: "store_step D rid st st' \<Longrightarrow> store_ok D st \<Longrightarrow> store_ok D st'"
  by (auto simp: store_step_def store_ok_def dir_step_ok)

lemma dir_of_crash:
  assumes "store_step D rid st st'"
  shows "dir_of (lost_checkpoints st st') r = torn (dir_of st r) (dir_of st' r)"
  using assms by (auto simp: dir_of_def lost_checkpoints_def torn_def store_step_def empty_dir_def
      split: option.splits if_splits)

lemma crash_ok:
  assumes "store_step D rid st st'" and "store_ok D st"
  shows "store_ok D (lost_checkpoints st st')"
  unfolding store_ok_def
proof
  fix r
  have "dir_step D r (dir_of st r) (dir_of st' r)"
    using assms(1) by (auto simp: store_step_def dir_step.stay)
  from dir_step_torn_ok [OF this] assms show "dir_ok D r (dir_of (lost_checkpoints st st') r)"
    by (simp add: dir_of_crash store_okD)
qed

lemma reachable_ok: "rt_reachable D st \<Longrightarrow> store_ok D st"
proof (induction rule: rt_reachable.induct)
  case init
  show ?case by (simp add: store_ok_def dir_of_def dir_ok_def)
next
  case (step st st')
  note moves = exec_call_step [OF step.IH]
  from step(2) show ?case
    by cases (simp_all add: store_step_ok [OF moves step.IH] crash_ok [OF moves step.IH])
qed

end
