(* ===== verification/Durable_Runs.thy ===== *)
theory Durable_Runs
  imports Durable_Reach
begin

section \<open>Durable runtime: the abstract run and its life cycle\<close>

text \<open>
  A client of the runtime sees a run as one snapshot.  \<open>run_of\<close> is that abstraction of a run
  directory, \<open>snap_step\<close> the abstract transition: a run is created, or one payload takes effect
  under a fresh idempotency key.  Every call and every crash is such a step or none, and the
  life cycle of a run and of each of its nodes follows the transition tables.
\<close>

definition run_of :: "digests \<Rightarrow> string \<Rightarrow> run_dir \<Rightarrow> run_snapshot option" where
  "run_of D rid d = (case snd (load_unlocked D rid d) of Inl _ \<Rightarrow> None | Inr s \<Rightarrow> Some s)"

definition run_in :: "digests \<Rightarrow> store \<Rightarrow> string \<Rightarrow> run_snapshot option" where
  "run_in D st rid = run_of D rid (dir_of st rid)"

inductive snap_step :: "digests \<Rightarrow> string \<Rightarrow> run_snapshot option \<Rightarrow> run_snapshot option \<Rightarrow> bool"
  for D rid where
  created: "snap_step D rid None (Some (created D rid ids env git key now))"
| committed: "committable s p key now \<Longrightarrow>
    snap_step D rid (Some s) (Some (committed D rid p key now s))"

inductive_simps snap_step_None [simp]: "snap_step D rid None so"
inductive_simps snap_step_Some: "snap_step D rid (Some s) so"

lemma run_of_dir_with [simp]: "dir_with D rid d es ss \<Longrightarrow> run_of D rid d = Some (last ss)"
  by (simp add: run_of_def load_unlocked_ok)

lemma run_of_empty [simp]: "run_of D rid empty_dir = None"
  by (simp add: run_of_def load_unlocked_empty)

lemma run_of_Some:
  assumes "dir_ok D rid d" "run_of D rid d = Some s"
  obtains es ss where "dir_with D rid d es ss" "s = last ss"
  using assms by (auto simp: dir_ok_def)

lemma dir_step_abs:
  assumes "dir_step D rid d d'"
  shows "run_of D rid d' = run_of D rid d \<or> snap_step D rid (run_of D rid d) (run_of D rid d')"
  using assms
proof cases
  case (sync es ss)
  then show ?thesis using dir_with_synced_last [of D rid d es ss] by simp
next
  case (commit es ss p key now)
  then show ?thesis
    using append_commit(2) [OF commit(2) refl commit(3)] by (simp add: snap_step.committed)
next
  case (create ids env git key now)
  then show ?thesis using run_of_dir_with [OF created_dir_with, of D rid ids env git key now] snap_step.created
    by (simp del: snap_step_None)
qed simp

text \<open>A crash after the event line loses nothing: the run is what it would have been.\<close>

lemma run_of_torn:
  assumes "dir_step D rid d d'" and "dir_ok D rid d"
  shows "run_of D rid (torn d d') = run_of D rid d'"
  using assms(1)
proof cases
  case (sync es ss)
  then show ?thesis using dir_with_synced_last [of D rid d es ss] by simp
next
  case (commit es ss p key now)
  then show ?thesis
    using append_commit(2,3) [OF commit(2) refl commit(3)] by (simp add: commit_dir_def)
next
  case (create ids env git key now)
  then show ?thesis using run_of_dir_with [OF created_torn] run_of_dir_with [OF created_dir_with] by simp
qed simp

lemma call_dir_step:
  assumes "store_ok D st"
  shows "dir_step D r (dir_of st r) (dir_of (exec_call D c now now2 st) r)"
  using exec_call_step [OF assms, of c now now2] by (auto simp: store_step_def dir_step.stay)

lemma run_in_crash:
  assumes "store_ok D st"
  shows "run_in D (lost_checkpoints st (exec_call D c now now2 st)) r =
         run_in D (exec_call D c now now2 st) r"
  unfolding run_in_def dir_of_crash [OF exec_call_step [OF assms]]
  by (rule run_of_torn [OF call_dir_step [OF assms] store_okD [OF assms]])

lemma rt_step_abs:
  assumes "rt_step D st st'" and "store_ok D st"
  shows "run_in D st' r = run_in D st r \<or> snap_step D r (run_in D st r) (run_in D st' r)"
proof -
  have "run_in D (exec_call D c now now2 st) r = run_in D st r \<or>
      snap_step D r (run_in D st r) (run_in D (exec_call D c now now2 st) r)" for c now now2
    unfolding run_in_def by (rule dir_step_abs [OF call_dir_step [OF assms(2)]])
  with assms(1) show ?thesis by cases (simp_all add: run_in_crash [OF assms(2)])
qed

text \<open>Later stores: any number of calls and crashes.\<close>

inductive rt_later :: "digests \<Rightarrow> store \<Rightarrow> store \<Rightarrow> bool" for D where
  now: "rt_later D st st"
| later: "rt_later D st st' \<Longrightarrow> rt_step D st' st'' \<Longrightarrow> rt_later D st st''"

lemma rt_later_reachable: "rt_later D st st' \<Longrightarrow> rt_reachable D st \<Longrightarrow> rt_reachable D st'"
  by (induction rule: rt_later.induct) (auto intro: rt_reachable.step)

text \<open>An invariant of single abstract steps that is reflexive and transitive holds of later stores.\<close>

lemma rt_later_abs:
  assumes "rt_later D st st'" and "rt_reachable D st" and "run_in D st r = Some s"
    and step: "\<And>s s'. snap_step D r (Some s) (Some s') \<Longrightarrow> R s s'"
    and refl: "\<And>s. R s s" and trans: "\<And>s s' s''. R s s' \<Longrightarrow> R s' s'' \<Longrightarrow> R s s''"
  shows "\<exists>s'. run_in D st' r = Some s' \<and> R s s'"
  using assms(1-3)
proof (induction rule: rt_later.induct)
  case (now st)
  then show ?case using refl by auto
next
  case (later st st' st'')
  then obtain s' where s': "run_in D st' r = Some s'" "R s s'" by auto
  have "store_ok D st'"
    using later.hyps(1) later.prems(1) by (auto intro: reachable_ok rt_later_reachable)
  from rt_step_abs [OF later.hyps(2) this, of r] s' show ?case
    by (auto simp: snap_step_Some dest: step [OF snap_step.committed] intro: trans)
qed

end
