(* ===== verification/Durable_Life.thy ===== *)
theory Durable_Life
  imports Durable_Runs
begin

section \<open>Durable runtime: life cycles of runs and nodes\<close>

text \<open>
  The contract of a transition table, as a locale interpreted on both tables of the runtime: the
  terminal states are exactly those without targets, and every other state can be cancelled.
  Each step of a run moves its state and the state of each node along the tables, keeps the set
  of nodes and only ever adds idempotency keys (\<open>run_grows\<close>).
\<close>

locale life_cycle =
  fixes targets :: "'s \<Rightarrow> 's list" and terminal :: "'s \<Rightarrow> bool" and cancelled :: 's
  assumes terminal_iff: "terminal x \<longleftrightarrow> targets x = []"
    and cancellable: "terminal x \<or> cancelled \<in> set (targets x)"
    and cancelled_terminal: "terminal cancelled"
begin

definition moves :: "'s \<Rightarrow> 's \<Rightarrow> bool" where
  "moves = (\<lambda>x y. y \<in> set (targets x))\<^sup>*\<^sup>*"

lemma moves_refl [simp]: "moves x x"
  by (simp add: moves_def)

lemma moves_step: "y \<in> set (targets x) \<Longrightarrow> moves x y"
  by (auto simp: moves_def)

lemma moves_trans: "moves x y \<Longrightarrow> moves y z \<Longrightarrow> moves x z"
  by (auto simp: moves_def)

lemma moves_terminal: "moves x y \<Longrightarrow> terminal x \<Longrightarrow> y = x"
  unfolding moves_def by (induction rule: converse_rtranclp_induct) (auto simp: terminal_iff)

lemma moves_cancelled: "terminal x \<or> moves x cancelled"
  using cancellable moves_step by blast

end

definition terminal_run :: "run_state \<Rightarrow> bool" where
  "terminal_run s \<longleftrightarrow> s \<in> {R_Completed, R_Failed, R_Cancelled}"

interpretation run_life: life_cycle run_targets terminal_run R_Cancelled
proof
  fix x :: run_state
  show "terminal_run x \<longleftrightarrow> run_targets x = []" "terminal_run x \<or> R_Cancelled \<in> set (run_targets x)"
    by (cases x; simp add: terminal_run_def)+
qed (simp add: terminal_run_def)

interpretation node_life: life_cycle node_targets terminal_node N_Cancelled
proof
  fix x :: node_state
  show "terminal_node x \<longleftrightarrow> node_targets x = []" "terminal_node x \<or> N_Cancelled \<in> set (node_targets x)"
    by (cases x; simp add: terminal_node_def)+
qed (simp add: terminal_node_def)

subsection \<open>One payload\<close>

definition nodes_move :: "(string \<times> node_snapshot) list \<Rightarrow> (string \<times> node_snapshot) list \<Rightarrow> bool" where
  "nodes_move ns ns' \<longleftrightarrow> map fst ns' = map fst ns \<and>
     (\<forall>i n. map_of ns i = Some n \<longrightarrow>
        (\<exists>n'. map_of ns' i = Some n' \<and> node_life.moves (n_state n) (n_state n')))"

lemma nodes_move_refl [simp]: "nodes_move ns ns"
  by (simp add: nodes_move_def)

lemma nodes_move_trans: "nodes_move a b \<Longrightarrow> nodes_move b c \<Longrightarrow> nodes_move a c"
  unfolding nodes_move_def by (metis node_life.moves_trans)

lemma nodes_move_update:
  assumes "map_of ns i = Some n"
  shows "nodes_move ns (AList.update i m ns) \<longleftrightarrow> node_life.moves (n_state n) (n_state m)"
proof -
  have "i \<in> fst ` set ns" using assms by (auto dest: map_of_SomeD intro: rev_image_eqI)
  then show ?thesis using assms by (auto simp: nodes_move_def dict_update_same_keys dict_simps)
qed

lemma nodes_move_cancel: "nodes_move ns (map_vals cancel_node_snapshot ns)"
  using node_life.moves_cancelled by (auto simp: nodes_move_def dict_simps cancel_node_snapshot_def)

lemma clear_lease_moves: "clear_lease i ns = Inr ns' \<Longrightarrow> nodes_move ns ns'"
  by (auto simp: clear_lease_def get_node_def rbind_eq_Inr nodes_move_update
      split: option.splits)

lemma clear_leases_move: "rfold clear_lease ids ns = Inr ns' \<Longrightarrow> nodes_move ns ns'"
proof (induction ids arbitrary: ns)
  case Nil
  then show ?case by simp
next
  case (Cons i ids)
  then show ?case by (auto simp: rbind_eq_Inr dest: clear_lease_moves intro: nodes_move_trans)
qed

lemma apply_payload_moves:
  assumes "apply_payload s t0 p = Inr s1"
  shows "run_life.moves (rs_state s) (rs_state s1)" "nodes_move (rs_nodes s) (rs_nodes s1)"
proof -
  show "run_life.moves (rs_state s) (rs_state s1)"
    using assms by (cases p) (auto simp: rbind_eq_Inr Let_def intro: run_life.moves_step
        split: if_split_asm option.split_asm)
  show "nodes_move (rs_nodes s) (rs_nodes s1)"
    using assms by (cases p) (auto simp: rbind_eq_Inr Let_def get_node_def nodes_move_update
        intro: nodes_move_cancel clear_leases_move node_life.moves_step
        split: if_split_asm option.split_asm)
qed

subsection \<open>Growth\<close>

definition run_grows :: "run_snapshot \<Rightarrow> run_snapshot \<Rightarrow> bool" where
  "run_grows s s' \<longleftrightarrow>
     run_life.moves (rs_state s) (rs_state s') \<and> nodes_move (rs_nodes s) (rs_nodes s') \<and>
     (\<exists>new. rs_idempotency s' = rs_idempotency s @ new) \<and>
     rs_environment s' = rs_environment s \<and> rs_git s' = rs_git s \<and>
     rs_last_sequence s \<le> rs_last_sequence s'"

lemma run_grows_refl: "run_grows s s"
  by (simp add: run_grows_def)

lemma run_grows_trans: "run_grows s s' \<Longrightarrow> run_grows s' s'' \<Longrightarrow> run_grows s s''"
  by (auto simp: run_grows_def intro: run_life.moves_trans nodes_move_trans)

lemma run_grows_step: "snap_step D r (Some s) (Some s') \<Longrightarrow> run_grows s s'"
  by (auto simp: snap_step_Some committable_def run_grows_def committed_effect
      apply_payload_moves)

lemma later_grows:
  "rt_later D st st' \<Longrightarrow> rt_reachable D st \<Longrightarrow> run_in D st r = Some s \<Longrightarrow>
     \<exists>s'. run_in D st' r = Some s' \<and> run_grows s s'"
  by (rule rt_later_abs) (auto intro: run_grows_step run_grows_refl run_grows_trans)

lemma run_grows_key: "run_grows s s' \<Longrightarrow> map_of (rs_idempotency s) k = Some h \<Longrightarrow>
    map_of (rs_idempotency s') k = Some h"
  by (auto simp: run_grows_def map_add_def)

text \<open>An invariant of abstract runs holds of every run of a reachable store.\<close>

lemma reachable_run_invariant:
  assumes "rt_reachable D st" and "run_in D st r = Some s"
    and "\<And>ids env git key now. P (created D r ids env git key now)"
    and "\<And>s s'. snap_step D r (Some s) (Some s') \<Longrightarrow> P s \<Longrightarrow> P s'"
  shows "P s"
  using assms(1,2)
proof (induction arbitrary: s rule: rt_reachable.induct)
  case init
  then show ?case by (simp add: run_in_def dir_of_def)
next
  case (step st st')
  from rt_step_abs [OF step.hyps(2) reachable_ok [OF step.hyps(1)], of r] step.prems
  consider "run_in D st r = Some s" | "snap_step D r (run_in D st r) (Some s)" by auto
  then show ?case
  proof cases
    case 1
    then show ?thesis by (rule step.IH)
  next
    case 2
    then show ?thesis
      using assms(3,4) step.IH by (cases "run_in D st r") auto
  qed
qed

lemma reachable_distinct_nodes:
  assumes "rt_reachable D st" and "run_in D st r = Some s"
  shows "distinct (map fst (rs_nodes s))"
  using assms
  by (rule reachable_run_invariant)
    (auto simp: created_def comp_def dest!: run_grows_step simp: run_grows_def nodes_move_def)

end
