(* ===== verification/Durable_Calls.thy ===== *)
theory Durable_Calls
  imports Durable_Life
begin

section \<open>Durable runtime: what a call does to its run\<close>

text \<open>
  Every call but \<open>load\<close> and \<open>events\<close> carries an idempotency key.  \<open>call_print\<close> is the fingerprint
  of the command, \<open>outcome\<close> the three things it can do to an existing run: refuse and leave the
  log alone, recognise a command it has done before, or commit one event whose operation hash is
  the fingerprint of the call.
\<close>

definition run_print :: "digests \<Rightarrow> run_state \<Rightarrow> string option \<Rightarrow> string option \<Rightarrow> string" where
  "run_print D target reason appr = operation_hash D ''run_transition''
     ([(''to'', JStr (run_state_value target)), (''reason'', jopt JStr reason)]
      @ approved_field appr)"

definition node_print ::
  "digests \<Rightarrow> string \<Rightarrow> node_state \<Rightarrow> string option \<Rightarrow> string option \<Rightarrow> string" where
  "node_print D nid target reason appr = operation_hash D ''node_transition''
     ([(''node_id'', JStr nid), (''to'', JStr (node_state_value target)),
       (''reason'', jopt JStr reason)] @ approved_field appr)"

fun call_key :: "rt_call \<Rightarrow> string option" where
  "call_key (C_Create _ _ _ _ _ _ k) = Some k"
| "call_key (C_Load _) = None"
| "call_key (C_Events _) = None"
| "call_key (C_Start _ k) = Some k"
| "call_key (C_Pause _ _ k) = Some k"
| "call_key (C_Wait _ _ k) = Some k"
| "call_key (C_Request_Approval _ _ k) = Some k"
| "call_key (C_Approve _ _ k) = Some k"
| "call_key (C_Resume _ k) = Some k"
| "call_key (C_Complete _ k) = Some k"
| "call_key (C_Fail _ _ k) = Some k"
| "call_key (C_Cancel _ _ k) = Some k"
| "call_key (C_Start_Node _ _ k) = Some k"
| "call_key (C_Pause_Node _ _ _ k) = Some k"
| "call_key (C_Wait_Node _ _ _ k) = Some k"
| "call_key (C_Request_Node_Approval _ _ _ k) = Some k"
| "call_key (C_Approve_Node _ _ _ k) = Some k"
| "call_key (C_Resume_Node _ _ k) = Some k"
| "call_key (C_Complete_Node _ _ k) = Some k"
| "call_key (C_Fail_Node _ _ _ k) = Some k"
| "call_key (C_Cancel_Node _ _ _ k) = Some k"
| "call_key (C_Acquire _ _ _ _ k) = Some k"
| "call_key (C_Heartbeat _ _ _ _ k) = Some k"
| "call_key (C_Release _ _ _ k) = Some k"
| "call_key (C_Expire _ k) = Some k"
| "call_key (C_Retry _ _ _ _ _ _ k) = Some k"

fun call_print :: "digests \<Rightarrow> run_snapshot \<Rightarrow> rt_call \<Rightarrow> string" where
  "call_print D s (C_Create _ ids env git _ _ _) = payload_hash D (P_Run_Created ids
     (case env of None \<Rightarrow> rs_environment s | Some x \<Rightarrow> x) (case git of None \<Rightarrow> rs_git s | Some x \<Rightarrow> x))"
| "call_print D s (C_Start _ _) = run_print D R_Running None None"
| "call_print D s (C_Pause _ w _) = run_print D R_Paused (Some w) None"
| "call_print D s (C_Wait _ w _) = run_print D R_Waiting (Some w) None"
| "call_print D s (C_Request_Approval _ w _) = run_print D R_Awaiting_Approval (Some w) None"
| "call_print D s (C_Approve _ who _) = run_print D R_Running None (Some who)"
| "call_print D s (C_Resume _ _) = run_print D R_Running None None"
| "call_print D s (C_Complete _ _) = run_print D R_Completed None None"
| "call_print D s (C_Fail _ w _) = run_print D R_Failed (Some w) None"
| "call_print D s (C_Cancel _ w _) = run_print D R_Cancelled (Some w) None"
| "call_print D s (C_Start_Node _ n _) = node_print D n N_Running None None"
| "call_print D s (C_Pause_Node _ n w _) = node_print D n N_Paused (Some w) None"
| "call_print D s (C_Wait_Node _ n w _) = node_print D n N_Waiting (Some w) None"
| "call_print D s (C_Request_Node_Approval _ n w _) = node_print D n N_Awaiting_Approval (Some w) None"
| "call_print D s (C_Approve_Node _ n who _) = node_print D n N_Running None (Some who)"
| "call_print D s (C_Resume_Node _ n _) = node_print D n N_Running None None"
| "call_print D s (C_Complete_Node _ n _) = node_print D n N_Succeeded None None"
| "call_print D s (C_Fail_Node _ n w _) = node_print D n N_Failed (Some w) None"
| "call_print D s (C_Cancel_Node _ n w _) = node_print D n N_Cancelled (Some w) None"
| "call_print D s (C_Acquire _ n owner ttl _) = operation_hash D ''lease_acquired''
     [(''node_id'', JStr n), (''owner'', JStr owner), (''ttl_seconds'', JNum ttl)]"
| "call_print D s (C_Heartbeat _ n token ttl _) = operation_hash D ''lease_heartbeat''
     [(''node_id'', JStr n), (''token'', JStr token), (''ttl_seconds'', JNum ttl)]"
| "call_print D s (C_Release _ n token _) = payload_hash D (P_Lease_Released n token)"
| "call_print D s (C_Expire _ _) = operation_hash D ''leases_expired'' []"
| "call_print D s (C_Retry _ n cls why base mx _) = operation_hash D ''retry_recorded''
     [(''node_id'', JStr n), (''classification'', JStr (retry_class_value cls)),
      (''reason'', JStr why), (''base_delay_seconds'', JNum base), (''max_delay_seconds'', JNum mx)]"
| "call_print D s _ = []"

text \<open>Calls that hand back the snapshot of the run whenever their key is known.\<close>

fun call_safe :: "run_snapshot \<Rightarrow> rt_call \<Rightarrow> bool" where
  "call_safe s (C_Start_Node r n _) = (map_of (rs_nodes s) n \<noteq> None)"
| "call_safe s (C_Pause_Node r n _ _) = (map_of (rs_nodes s) n \<noteq> None)"
| "call_safe s (C_Wait_Node r n _ _) = (map_of (rs_nodes s) n \<noteq> None)"
| "call_safe s (C_Request_Node_Approval r n _ _) = (map_of (rs_nodes s) n \<noteq> None)"
| "call_safe s (C_Approve_Node r n _ _) = (map_of (rs_nodes s) n \<noteq> None)"
| "call_safe s (C_Resume_Node r n _) = (map_of (rs_nodes s) n \<noteq> None)"
| "call_safe s (C_Complete_Node r n _) = (map_of (rs_nodes s) n \<noteq> None)"
| "call_safe s (C_Fail_Node r n _ _) = (map_of (rs_nodes s) n \<noteq> None)"
| "call_safe s (C_Cancel_Node r n _ _) = (map_of (rs_nodes s) n \<noteq> None)"
| "call_safe s (C_Acquire _ _ _ _ _) = False"
| "call_safe s (C_Heartbeat _ _ _ _ _) = False"
| "call_safe s (C_Retry _ _ _ _ _ _ _) = False"
| "call_safe s _ = True"

lemma payload_hash_print [simp]:
  "payload_hash D (P_Run_Transition src target reason appr) = run_print D target reason appr"
  "payload_hash D (P_Node_Transition nid src' target' reason appr) = node_print D nid target' reason appr"
  "payload_hash D (P_Leases_Expired ids now) = operation_hash D ''leases_expired'' []"
  by (auto simp: payload_hash_def run_print_def node_print_def operation_hash_def operation_doc_def
      derived_fields_def approved_field_def split: option.splits)

lemma payload_hash_retry [simp]:
  "payload_hash D (retry_payload nid cls why base mx att nb) = operation_hash D ''retry_recorded''
     [(''node_id'', JStr nid), (''classification'', JStr (retry_class_value cls)),
      (''reason'', JStr why), (''base_delay_seconds'', JNum base), (''max_delay_seconds'', JNum mx)]"
  by (simp add: payload_hash_def retry_payload_def operation_hash_def operation_doc_def
      derived_fields_def)

inductive outcome :: "digests \<Rightarrow> string \<Rightarrow> run_snapshot \<Rightarrow> run_dir \<Rightarrow> string \<Rightarrow> string \<Rightarrow> bool
    \<Rightarrow> ('a \<Rightarrow> rt_value) \<Rightarrow> run_dir \<times> (rt_error, 'a) result \<Rightarrow> bool"
  for D rid s d key fp safe as where
  refused: "\<not> (safe \<and> key \<noteq> [] \<and> map_of (rs_idempotency s) key = Some fp) \<Longrightarrow>
    outcome D rid s d key fp safe as (synced D s d, Inl x)"
| known: "key \<noteq> [] \<Longrightarrow> map_of (rs_idempotency s) key = Some fp \<Longrightarrow>
    (\<And>v s'. r = Inr v \<Longrightarrow> as v = Got_Run s' \<Longrightarrow> safe \<and> s' = s) \<Longrightarrow>
    (safe \<Longrightarrow> \<exists>v. r = Inr v \<and> as v = Got_Run s) \<Longrightarrow>
    outcome D rid s d key fp safe as (synced D s d, r)"
| commits: "committable s p key now \<Longrightarrow> payload_hash D p = fp \<Longrightarrow>
    (\<And>s'. as v = Got_Run s' \<Longrightarrow> safe \<and> s' = committed D rid p key now s) \<Longrightarrow>
    outcome D rid s d key fp safe as (commit_dir D rid p key now s d, Inr v)"

lemma outcome_keyed:
  assumes "\<And>v s'. hit = Inr v \<Longrightarrow> as v = Got_Run s' \<Longrightarrow> safe \<and> s' = s"
    and "safe \<Longrightarrow> \<exists>v. hit = Inr v \<and> as v = Got_Run s"
    and "key \<noteq> [] \<Longrightarrow> map_of (rs_idempotency s) key = None \<Longrightarrow> outcome D rid s d key fp safe as miss"
  shows "outcome D rid s d key fp safe as (keyed D rid s d key fp hit miss)"
proof (cases "check_idempotency s key fp")
  case (Inl x)
  then have "\<not> (key \<noteq> [] \<and> map_of (rs_idempotency s) key = Some fp)"
    by (auto simp: check_idempotency_True [symmetric])
  then show ?thesis by (auto simp: keyed_def Inl intro: outcome.refused)
next
  case (Inr b)
  then have k: "keyed D rid s d key fp hit miss = (if b then (synced D s d, hit) else miss)"
    by (simp add: keyed_def)
  show ?thesis
  proof (cases b)
    case True
    with Inr have "key \<noteq> []" "map_of (rs_idempotency s) key = Some fp"
      by (auto simp: check_idempotency_True)
    from outcome.known [OF this assms(1,2)] True k show ?thesis by simp
  next
    case False
    with Inr assms(3) k show ?thesis by (simp add: check_idempotency_False)
  qed
qed

lemma outcome_known_key:
  assumes "outcome D rid s d key fp safe as x" and "map_of (rs_idempotency s) key = Some h"
  shows "fst x = synced D s d \<and> (h \<noteq> fp \<longrightarrow> (\<exists>e. snd x = Inl e))"
  using assms(1)
proof cases
  case (commits p now v)
  with assms(2) show ?thesis by (simp add: committable_def)
qed (use assms(2) in simp_all)

lemma outcome_replay:
  assumes "outcome D rid s d key fp safe as x" and "map_of (rs_idempotency s) key = Some fp"
    and "key \<noteq> []" and safe
  shows "\<exists>v. snd x = Inr v \<and> as v = Got_Run s"
  using assms(1)
proof cases
  case (commits p now v)
  with assms(2) show ?thesis by (simp add: committable_def)
qed (use assms(2-4) in simp_all)

lemma outcome_on_node:
  assumes "map_of (rs_nodes s) nid = None \<Longrightarrow> \<not> safe \<or> map_of (rs_idempotency s) key \<noteq> Some fp"
    and "\<And>n. map_of (rs_nodes s) nid = Some n \<Longrightarrow> outcome D rid s d key fp safe as (f n)"
  shows "outcome D rid s d key fp safe as (on_node D s d nid f)"
  using assms by (auto simp: on_node_def intro: outcome.refused split: option.splits)

subsection \<open>The critical sections\<close>

lemmas outcome_intros = outcome.refused outcome.commits

lemma outcome_run:
  assumes dw: "dir_with D rid d es ss"
  shows "outcome D rid (last ss) d key (run_print D target reason appr) True Got_Run
           (transition_run D rid target reason appr key now d)"
  unfolding transition_run_eq [OF dw refl refl] payload_hash_print
  by (rule outcome_keyed) (auto intro!: outcome_intros simp: committable_def)

lemma outcome_node:
  assumes dw: "dir_with D rid d es ss"
  shows "outcome D rid (last ss) d key (node_print D nid target reason appr)
           (map_of (rs_nodes (last ss)) nid \<noteq> None) Got_Run
           (transition_node D rid nid target reason appr key now d)"
proof (cases "map_of (rs_nodes (last ss)) nid")
  case None
  then show ?thesis by (simp add: section_no_node [OF dw] outcome.refused)
next
  case (Some n)
  show ?thesis
    unfolding transition_node_eq [OF dw refl Some refl] payload_hash_print
    by (rule outcome_keyed) (use Some in \<open>auto intro!: outcome_intros simp: committable_def get_node_def\<close>)
qed

lemma outcome_acquire:
  assumes dw: "dir_with D rid d es ss"
  shows "outcome D rid (last ss) d key (operation_hash D ''lease_acquired''
           [(''node_id'', JStr nid), (''owner'', JStr owner), (''ttl_seconds'', JNum ttl)])
           False Got_Lease (acquire_lease D rid nid owner ttl key now now2 d)"
  unfolding acquire_lease_eq [OF dw refl]
  by (rule outcome_keyed; (rule outcome_on_node)?)
    (auto intro!: outcome_intros simp: committable_def get_node_def acquire_payload_def
      payload_hash_lease split: option.splits)

lemma outcome_heartbeat:
  assumes dw: "dir_with D rid d es ss"
  shows "outcome D rid (last ss) d key (operation_hash D ''lease_heartbeat''
           [(''node_id'', JStr nid), (''token'', JStr token), (''ttl_seconds'', JNum ttl)])
           False Got_Lease (heartbeat D rid nid token ttl key now now2 d)"
  unfolding heartbeat_eq [OF dw refl]
  by (rule outcome_keyed; (rule outcome_on_node)?)
    (auto intro!: outcome_intros simp: committable_def get_node_def payload_hash_lease held_lease_Inr
      split: option.splits sum.splits)

lemma outcome_release:
  assumes dw: "dir_with D rid d es ss"
  shows "outcome D rid (last ss) d key (payload_hash D (P_Lease_Released nid token))
           True Got_Run (release_lease D rid nid token key now now2 d)"
  unfolding release_lease_eq [OF dw refl refl]
  by (rule outcome_keyed; (rule outcome_on_node)?)
    (auto intro!: outcome_intros simp: committable_def get_node_def held_lease_Inr split: sum.splits)

lemma outcome_expire:
  assumes dw: "dir_with D rid d es ss"
  shows "outcome D rid (last ss) d key (operation_hash D ''leases_expired'' [])
           True Got_Run (expire_leases D rid key now now2 d)"
  unfolding expire_leases_eq [OF dw refl refl] payload_hash_print
  by (rule outcome_keyed)
    (use clear_leases [OF expired_nodes_keys, of now "last ss"] in
      \<open>auto intro!: outcome_intros simp: committable_def\<close>)

lemma outcome_retry:
  assumes dw: "dir_with D rid d es ss"
  shows "outcome D rid (last ss) d key (operation_hash D ''retry_recorded''
       [(''node_id'', JStr nid), (''classification'', JStr (retry_class_value cls)),
        (''reason'', JStr why), (''base_delay_seconds'', JNum base), (''max_delay_seconds'', JNum mx)])
       False Got_Retry (record_retry D rid nid cls why base mx key now now2 d)"
  (is "outcome D rid _ d key ?fp False _ _")
proof -
  have "outcome D rid (last ss) d key ?fp False Got_Retry
      (keyed D rid (last ss) d key ?fp (last_retry nid (last ss))
        (commit_dir D rid p key now2 (last ss) d, Inr v))"
    if "map_of (rs_nodes (last ss)) nid = Some n" "p = retry_payload nid cls why base mx att nb"
    for n p att nb v
  proof (rule outcome_keyed)
    assume "key \<noteq> []" "map_of (rs_idempotency (last ss)) key = None"
    with that have "committable (last ss) p key now2"
      by (simp add: committable_def retry_payload_def get_node_def Let_def)
    then show "outcome D rid (last ss) d key ?fp False Got_Retry
        (commit_dir D rid p key now2 (last ss) d, Inr v)"
      by (rule outcome.commits) (simp_all add: that(2))
  qed simp_all
  then show ?thesis
    unfolding record_retry_eq [OF dw refl]
    by (intro outcome_on_node) (auto simp: Let_def intro: outcome.refused split: sum.splits)
qed

subsection \<open>Calls\<close>

lemma outcome_got:
  "outcome D rid s d key fp safe as x \<Longrightarrow>
     outcome D rid s d key fp safe id (fst x, map_sum id as (snd x))"
proof (induction rule: outcome.induct)
  case (known r)
  then show ?case by (cases r) (auto intro!: outcome.known)
qed (auto intro!: outcome_intros)

lemma got_pair [simp]: "got f (st, r) = (st, map_sum id f r)"
  by (simp add: got_def)

text \<open>The call is refused for its arguments, whatever the store.\<close>

definition refuses :: "digests \<Rightarrow> rt_call \<Rightarrow> bool" where
  "refuses D c \<longleftrightarrow> (\<forall>t u st. run_call D c t u st = (st, Inl Value_Error))"

definition call_outcome :: "digests \<Rightarrow> rt_call \<Rightarrow> store \<Rightarrow> run_snapshot \<Rightarrow> run_dir \<Rightarrow> string
    \<Rightarrow> store \<times> (rt_error, rt_value) result \<Rightarrow> bool" where
  "call_outcome D c st s d key res \<longleftrightarrow> (\<exists>x. res = (st(call_run c \<mapsto> fst x), snd x) \<and>
     outcome D (call_run c) s d key (call_print D s c) (call_safe s c) id x)"

lemma call_outcome_lock:
  assumes "r = call_run c" and "st r = Some d"
    and "outcome D r s d key (call_print D s c) (call_safe s c) as (body d)"
  shows "call_outcome D c st s d key (got as (with_lock r body st))"
  using outcome_got [OF assms(3)] assms(1,2)
  by (auto simp: call_outcome_def got_def with_lock_def split: prod.splits)

lemma call_outcome_create:
  assumes dw: "dir_with D r d es ss" and "st r = Some d" and c: "c = C_Create r ids env git ce cg key"
    and "\<not> refuses D c"
  shows "call_outcome D c st (last ss) d key (run_call D c t u st)"
proof -
  from \<open>\<not> refuses D c\<close> have ok: "valid_id r" "key \<noteq> []" "distinct ids" "list_all valid_id ids"
    by (auto simp: refuses_def c create_run_def got_def split: if_splits)
  have "rd_events d = Some (map Line es)" using dw by (simp add: dir_with_def)
  then have "create_unlocked D r ids env git ce cg key t d =
      keyed D r (last ss) d key (call_print D (last ss) c) (Inr (last ss))
        (synced D (last ss) d, Inl Run_Already_Exists)"
    by (simp add: create_unlocked_def load_unlocked_ok [OF dw] c Let_def) (rule keyed_bind; simp)
  moreover have "outcome D r (last ss) d key (call_print D (last ss) c) True Got_Run
      (keyed D r (last ss) d key (call_print D (last ss) c) (Inr (last ss))
        (synced D (last ss) d, Inl Run_Already_Exists))"
    by (rule outcome_keyed) (auto intro: outcome.refused)
  ultimately have "outcome D r (last ss) d key (call_print D (last ss) c) (call_safe (last ss) c)
      Got_Run (create_unlocked D r ids env git ce cg key t d)" by (simp add: c)
  from outcome_got [OF this] ok assms(2) show ?thesis
    by (auto simp: call_outcome_def c create_run_def got_def split: prod.splits)
qed

lemma call_cases:
  assumes dw: "dir_with D (call_run c) d es ss" and st: "st (call_run c) = Some d"
    and key: "call_key c = Some key" and "\<not> refuses D c"
  shows "call_outcome D c st (last ss) d key (run_call D c t u st)"
proof (cases "\<exists>r ids env git ce cg k. c = C_Create r ids env git ce cg k")
  case True
  with assms show ?thesis by (auto intro!: call_outcome_create)
next
  case False
  with assms show ?thesis
    by (cases c)
      (simp_all add: refuses_def start_def pause_def wait_def request_approval_def approve_def resume_def
        complete_def fail_def cancel_def start_node_def pause_node_def wait_node_def
        request_node_approval_def approve_node_def resume_node_def complete_node_def fail_node_def
        cancel_node_def acquire_def renew_def release_def expire_def retry_def require_def
        validate_ttl_def call_outcome_lock outcome_run outcome_node outcome_acquire outcome_heartbeat
        outcome_release outcome_expire outcome_retry del: not_None_eq split: if_split_asm)
qed

end
