(* ===== verification/Durable_Props.thy ===== *)
theory Durable_Props
  imports Durable_Calls
begin

section \<open>Durable runtime: correctness\<close>

text \<open>
  The properties of the runtime.  All of them are about stores reached by any sequence of public
  calls and of crashes between the write of an event and of the checkpoint.  A crash that cuts the
  event line itself is \<open>torn_line\<close>.
\<close>

definition event_log :: "store \<Rightarrow> string \<Rightarrow> log_line list" where
  "event_log st rid = (case rd_events (dir_of st rid) of None \<Rightarrow> [] | Some ls \<Rightarrow> ls)"

lemma refuses_empty:
  assumes "call_key c = Some key" and "\<nexists>r ids env git ce cg k. c = C_Create r ids env git ce cg k"
    and "dir_of st (call_run c) = empty_dir"
  shows "\<exists>st' x. run_call D c t u st = (st', Inl x)"
proof -
  have lock: "\<exists>st' x. got as (with_lock r (abind (load_unlocked D r) f) st) = (st', Inl x)"
    if "dir_of st r = empty_dir" for as r f
    using that by (cases "st r") (auto simp: with_lock_def dir_of_def)
  from assms show ?thesis
    by (cases c)
      (auto simp: start_def pause_def wait_def request_approval_def approve_def resume_def complete_def
        fail_def cancel_def start_node_def pause_node_def wait_node_def request_node_approval_def
        approve_node_def resume_node_def complete_node_def fail_node_def cancel_node_def acquire_def
        renew_def release_def expire_def retry_def require_def validate_ttl_def transition_run_def
        transition_node_def acquire_lease_def heartbeat_def release_lease_def expire_leases_def
        record_retry_def lock)
qed

lemma create_success:
  assumes "run_call D (C_Create r ids env git ce cg key) t u st = (st', Inr v)"
    and "dir_of st r = empty_dir"
  obtains env' git' where "st' = st(r \<mapsto> created_dir D r ids env' git' key t)"
    "v = Got_Run (created D r ids env' git' key t)" "key \<noteq> []"
    "env' = (case env of None \<Rightarrow> ce | Some x \<Rightarrow> x)" "git' = (case git of None \<Rightarrow> cg | Some x \<Rightarrow> x)"
  using assms
  by (auto simp: create_run_def dir_of_def [symmetric] create_unlocked_empty split: if_split_asm)

lemma run_grows_print: "run_grows s s' \<Longrightarrow> call_print D s' c = call_print D s c"
  by (cases c) (auto simp: run_grows_def split: option.splits)

lemma run_grows_safe: "run_grows s s' \<Longrightarrow> call_safe s c \<Longrightarrow> call_safe s' c"
  by (cases c) (auto simp: run_grows_def nodes_move_def)

lemma call_success:
  assumes ok: "store_ok D st" and call: "run_call D c t u st = (st', Inr v)"
    and key: "call_key c = Some key"
  shows "\<exists>s. run_in D st' (call_run c) = Some s \<and> key \<noteq> [] \<and>
    map_of (rs_idempotency s) key = Some (call_print D s c) \<and>
    (\<forall>s'. v = Got_Run s' \<longrightarrow> s' = s \<and> call_safe s c)"
proof (cases "dir_of st (call_run c) = empty_dir")
  case True
  with refuses_empty [OF key _ True, of D t u] call
  obtain r ids env git ce cg k where c: "c = C_Create r ids env git ce cg k" by fastforce
  with key have k: "k = key" by simp
  from create_success [OF call [unfolded c k]] True c
  obtain env' git' where cr: "st' = st(r \<mapsto> created_dir D r ids env' git' key t)"
    "v = Got_Run (created D r ids env' git' key t)" "key \<noteq> []"
    "env' = (case env of None \<Rightarrow> ce | Some x \<Rightarrow> x)" "git' = (case git of None \<Rightarrow> cg | Some x \<Rightarrow> x)"
    by (metis call_run.simps(1))
  then show ?thesis
    using run_of_dir_with [OF created_dir_with, of D r ids env' git' key t]
    by (auto simp: c run_in_def created_def split: option.splits)
next
  case False
  from store_okD [OF ok, of "call_run c"] False obtain es ss d where
    dw: "dir_with D (call_run c) d es ss" and st: "st (call_run c) = Some d"
    by (auto simp: dir_ok_def dir_of_def split: option.splits)
  have "\<not> refuses D c" unfolding refuses_def by (metis call Inl_Inr_False prod.inject)
  from call_cases [where st = st, OF dw st key this, of t u] call obtain x where
    x: "st' = st(call_run c \<mapsto> fst x)" "snd x = Inr v"
    "outcome D (call_run c) (last ss) d key (call_print D (last ss) c) (call_safe (last ss) c) id x"
    by (auto simp: call_outcome_def)
  from x(3) show ?thesis
  proof cases
    case (known r)
    have "run_in D st' (call_run c) = Some (last ss)"
      using known(1) x(1) run_of_dir_with [OF dir_with_synced_last [OF dw]] by (simp add: run_in_def)
    moreover have "v = Got_Run s' \<Longrightarrow> call_safe (last ss) c \<and> s' = last ss" for s'
      using known(4) [of v s'] known(1) x(2) by simp
    ultimately show ?thesis using known(2,3) by blast
  next
    case (commits p now w)
    have gr: "run_grows (last ss) (committed D (call_run c) p key now (last ss))"
      by (rule run_grows_step) (rule snap_step.committed [OF commits(2)])
    then have "call_print D (committed D (call_run c) p key now (last ss)) c = call_print D (last ss) c"
      by (rule run_grows_print)
    moreover have "call_safe (last ss) c \<Longrightarrow> call_safe (committed D (call_run c) p key now (last ss)) c"
      using gr by (rule run_grows_safe)
    moreover have "run_in D st' (call_run c) = Some (committed D (call_run c) p key now (last ss))"
      using commits(1) x(1) run_of_dir_with [OF append_commit(2) [OF dw refl commits(2)]]
      by (simp add: run_in_def)
    moreover have "v = Got_Run s' \<Longrightarrow> call_safe (last ss) c \<and>
        s' = committed D (call_run c) p key now (last ss)" for s'
      using commits(4) [of s'] commits(1) x(2) by simp
    moreover have "map_of (rs_idempotency (committed D (call_run c) p key now (last ss))) key =
        Some (call_print D (last ss) c)" "key \<noteq> []"
      using commits(2,3) by (auto simp: committable_def map_add_def)
    ultimately show ?thesis by metis
  qed (use x in simp)
qed

lemma reachable_valid_id: "rt_reachable D st \<Longrightarrow> st r \<noteq> None \<Longrightarrow> valid_id r"
proof (induction rule: rt_reachable.induct)
  case (step st st')
  have call: "valid_id r" if "exec_call D c now now2 st r \<noteq> None" for c now now2
  proof -
    from that have "st r \<noteq> None \<or> valid_id r"
      by (cases c) (auto simp: exec_call_def create_run_def load_def events_def start_def pause_def
        wait_def request_approval_def approve_def resume_def complete_def fail_def cancel_def
        start_node_def pause_node_def wait_node_def request_node_approval_def approve_node_def
        resume_node_def complete_node_def fail_node_def cancel_node_def acquire_def renew_def
        release_def expire_def retry_def require_def validate_ttl_def with_lock_def
        split: if_split_asm option.split_asm prod.split_asm)
    with step.IH show ?thesis by blast
  qed
  have lost: "lost_checkpoints st u r \<noteq> None \<Longrightarrow> u r \<noteq> None" for u
    by (cases "u r") (auto simp: lost_checkpoints_def)
  from step.hyps(2) show ?case by cases (use step.prems lost call in \<open>blast+\<close>)
qed simp

lemma load_run_in:
  assumes "store_ok D st" and "valid_id rid"
  shows "snd (load D rid st) = (case run_in D st rid of None \<Rightarrow> Inl Run_Not_Found | Some s \<Rightarrow> Inr s)"
proof (cases "st rid")
  case None
  with assms(2) show ?thesis by (simp add: load_def with_lock_def run_in_def dir_of_def)
next
  case (Some d)
  with store_okD [OF assms(1), of rid] have "dir_ok D rid d" by (simp add: dir_of_def)
  then show ?thesis
    by (cases rule: load_unlocked_cases)
      (use Some assms(2) in \<open>auto simp: load_def with_lock_def run_in_def dir_of_def\<close>)
qed

lemma run_in_valid:
  assumes "rt_reachable D st" and "run_in D st rid = Some s"
  shows "valid_id rid"
  using assms reachable_valid_id [OF assms(1), of rid]
  by (cases "st rid") (auto simp: run_in_def dir_of_def)

lemma run_in_dir:
  assumes "store_ok D st" and "run_in D st rid = Some s"
  obtains d es ss where "dir_with D rid d es ss" "s = last ss" "st rid = Some d"
proof -
  from assms(2) have "dir_of st rid \<noteq> empty_dir" by (auto simp: run_in_def)
  with store_okD [OF assms(1), of rid] obtain es ss d where
    dw: "dir_with D rid d es ss" and st: "st rid = Some d"
    by (auto simp: dir_ok_def dir_of_def split: option.splits)
  moreover from this assms(2) have "s = last ss" by (simp add: run_in_def dir_of_def)
  ultimately show ?thesis using that by blast
qed

text \<open>A call on an existing run, in terms of the snapshot before it.\<close>

lemma call_on_run:
  assumes ok: "store_ok D st" and r: "run_in D st (call_run c) = Some s"
    and key: "call_key c = Some key" and nr: "\<not> refuses D c"
  obtains d x where "st (call_run c) = Some d" "run_call D c t u st = (st(call_run c \<mapsto> fst x), snd x)"
    "outcome D (call_run c) s d key (call_print D s c) (call_safe s c) id x"
proof -
  from run_in_dir [OF ok r] obtain es ss d where
    dw: "dir_with D (call_run c) d es ss" and s: "s = last ss" and st: "st (call_run c) = Some d" .
  from call_cases [where st = st, OF dw st key nr, of t u] obtain x where
    "run_call D c t u st = (st(call_run c \<mapsto> fst x), snd x)"
    "outcome D (call_run c) s d key (call_print D s c) (call_safe s c) id x"
    by (auto simp: call_outcome_def s)
  with st show ?thesis by (rule that)
qed

lemma known_key:
  assumes "store_ok D st" and r: "run_in D st (call_run c) = Some s"
    and key: "call_key c = Some key" and known: "map_of (rs_idempotency s) key = Some h"
  shows "event_log (exec_call D c t u st) rid = event_log st rid"
    and "h \<noteq> call_print D s c \<Longrightarrow> \<exists>e. snd (run_call D c t u st) = Inl e"
proof -
  have "event_log (exec_call D c t u st) rid = event_log st rid \<and>
      (h \<noteq> call_print D s c \<longrightarrow> (\<exists>e. snd (run_call D c t u st) = Inl e))"
  proof (cases "refuses D c")
    case True
    then show ?thesis by (simp add: refuses_def exec_call_def)
  next
    case False
    from call_on_run [OF assms(1) r key False, of t u] obtain d x where
      x: "st (call_run c) = Some d" "run_call D c t u st = (st(call_run c \<mapsto> fst x), snd x)"
      "outcome D (call_run c) s d key (call_print D s c) (call_safe s c) id x" .
    note o = outcome_known_key [OF x(3) known]
    have "event_log (exec_call D c t u st) rid = event_log st rid"
      using o x(1,2) by (simp add: exec_call_def event_log_def) (simp add: dir_of_def)
    with o x(2) show ?thesis by simp
  qed
  then show "event_log (exec_call D c t u st) rid = event_log st rid"
    and "h \<noteq> call_print D s c \<Longrightarrow> \<exists>e. snd (run_call D c t u st) = Inl e" by blast+
qed

lemma safe_replay:
  assumes "store_ok D st" and r: "run_in D st (call_run c) = Some s"
    and key: "call_key c = Some key" "key \<noteq> []" and nr: "\<not> refuses D c"
    and known: "map_of (rs_idempotency s) key = Some (call_print D s c)" and "call_safe s c"
  shows "snd (run_call D c t u st) = Inr (Got_Run s)"
proof -
  from call_on_run [OF assms(1) r key(1) nr, of t u] obtain d x where
    x: "run_call D c t u st = (st(call_run c \<mapsto> fst x), snd x)"
    "outcome D (call_run c) s d key (call_print D s c) (call_safe s c) id x" .
  from outcome_replay [OF x(2) known key(2) assms(7)] x(1) show ?thesis by auto
qed

subsection \<open>A torn line\<close>

text \<open>
  The store after a crash in the middle of writing the next line of a log: the line is cut, so no JSON
  object, and the checkpoint is the old one.
\<close>

definition torn_line :: "string \<Rightarrow> store \<Rightarrow> store" where
  "torn_line rid st = st(rid \<mapsto> (dir_of st rid)\<lparr>rd_events := Some (event_log st rid @ [Bad_Line])\<rparr>)"

lemma read_torn: "read_lines D rid n prev (ls @ [Bad_Line]) = Inl Corrupt_Run"
  by (induction D rid n prev ls rule: read_lines.induct) auto

lemma load_torn:
  assumes "rd_events d = Some (ls @ [Bad_Line])"
  shows "load_unlocked D rid d = (d, Inl Corrupt_Run)" "read_events D rid d = Inl Corrupt_Run"
  using assms by (simp_all add: load_unlocked_def read_events_def read_torn)

lemma torn_line_at: "torn_line rid st rid = Some ((dir_of st rid)\<lparr>rd_events := Some (event_log st rid @ [Bad_Line])\<rparr>)"
  by (simp add: torn_line_def)

lemma torn_call:
  assumes "call_run c = rid"
  shows "\<exists>x. run_call D c t u (torn_line rid st) = (torn_line rid st, Inl x)"
proof -
  let ?d = "(dir_of st rid)\<lparr>rd_events := Some (event_log st rid @ [Bad_Line])\<rparr>"
  have same: "(torn_line rid st)(rid \<mapsto> ?d) = torn_line rid st" by (simp add: torn_line_def)
  have at: "load_unlocked D rid ?d = (?d, Inl Corrupt_Run)" "read_events D rid ?d = Inl Corrupt_Run"
    by (rule load_torn; simp)+
  have lock: "with_lock rid (abind (load_unlocked D rid) f) (torn_line rid st) = (torn_line rid st, Inl Corrupt_Run)" for f
    by (simp add: with_lock_def torn_line_at abind_def at same)
  have reads: "with_lock rid (load_unlocked D rid) (torn_line rid st) = (torn_line rid st, Inl Corrupt_Run)"
      "with_lock rid (\<lambda>d. (d, read_events D rid d)) (torn_line rid st) = (torn_line rid st, Inl Corrupt_Run)"
    by (simp_all add: with_lock_def torn_line_at at same)
  from assms show ?thesis
    by (cases c)
      (auto simp: start_def pause_def wait_def request_approval_def approve_def resume_def complete_def
        fail_def cancel_def start_node_def pause_node_def wait_node_def request_node_approval_def
        approve_node_def resume_node_def complete_node_def fail_node_def cancel_node_def acquire_def
        renew_def release_def expire_def retry_def require_def validate_ttl_def transition_run_def
        transition_node_def acquire_lease_def heartbeat_def release_lease_def expire_leases_def
        record_retry_def load_def events_def create_run_def create_unlocked_def torn_line_at abind_def [of "load_unlocked D rid"]
        at same lock reads got_def)
qed

lemma torn_elsewhere: "r \<noteq> rid \<Longrightarrow> run_in D (torn_line rid st) r = run_in D st r"
  by (simp add: run_in_def torn_line_def)

subsection \<open>Properties\<close>

text \<open>
  C1: The store refines the abstract run: whatever call a client makes, also when the process dies
  between the event line and the checkpoint, each run is afterwards what it was before, or has just been created, or one payload has
  taken effect on it under a fresh idempotency key.
\<close>

theorem runtime_refines_snapshots:
  assumes "rt_reachable D st" and "rt_step D st st'"
  shows "run_in D st' rid = run_in D st rid \<or> snap_step D rid (run_in D st rid) (run_in D st' rid)"
  by (rule rt_step_abs [OF assms(2) reachable_ok [OF assms(1)]])

lemma load_reachable:
  assumes "rt_reachable D st"
  shows "case load D rid st of
      (st', Inr s) \<Rightarrow> run_in D st rid = Some s \<and> load D rid st' = (st', Inr s)
    | (st', Inl x) \<Rightarrow> st' = st \<and> run_in D st rid = None \<and>
        (x = Run_Not_Found \<or> x = Value_Error \<and> \<not> valid_id rid)"
proof (cases "valid_id rid")
  case False
  with run_in_valid [OF assms] have "run_in D st rid = None" by fastforce
  with False show ?thesis by (simp add: load_def)
next
  case True
  show ?thesis
  proof (cases "st rid")
    case None
    with True show ?thesis by (simp add: load_def with_lock_def run_in_def dir_of_def)
  next
    case (Some d)
    with store_okD [OF reachable_ok [OF assms], of rid] have "dir_ok D rid d"
      by (simp add: dir_of_def)
    then show ?thesis
    proof (cases rule: load_unlocked_cases)
      case empty
      with Some True show ?thesis by (auto simp: load_def with_lock_def run_in_def dir_of_def)
    next
      case (log es ss)
      have "load_unlocked D rid (synced D (last ss) d) = (synced D (last ss) d, Inr (last ss))"
        using load_unlocked_ok [OF dir_with_synced_last [OF log(1)]] by simp
      with log Some True show ?thesis by (simp add: load_def with_lock_def run_in_def dir_of_def)
    qed
  qed
qed

text \<open>
  C10: Loading a store the runtime wrote, also after crashes that lost a checkpoint, never reports
  corruption: it returns the snapshot of the run, loading again returns the same, and the only errors
  are an unsafe run id and a run that does not exist.  After a crash that cut the line being written
  of one run, loading that run reports corruption, every call on it raises and changes nothing, and
  the other runs are what they were.
\<close>

theorem reachable_load:
  assumes "rt_reachable D st"
  shows "(case load D rid st of
      (st', Inr s) \<Rightarrow> run_in D st rid = Some s \<and> load D rid st' = (st', Inr s)
    | (st', Inl x) \<Rightarrow> st' = st \<and> run_in D st rid = None \<and>
        (x = Run_Not_Found \<or> x = Value_Error \<and> \<not> valid_id rid)) \<and>
    (valid_id rid \<longrightarrow> load D rid (torn_line rid st) = (torn_line rid st, Inl Corrupt_Run)) \<and>
    (call_run c = rid \<longrightarrow> (\<exists>x. run_call D c now now2 (torn_line rid st) = (torn_line rid st, Inl x))) \<and>
    (r \<noteq> rid \<longrightarrow> run_in D (torn_line rid st) r = run_in D st r)"
proof (intro conjI impI)
  let ?d = "(dir_of st rid)\<lparr>rd_events := Some (event_log st rid @ [Bad_Line])\<rparr>"
  assume "valid_id rid"
  moreover have "load_unlocked D rid ?d = (?d, Inl Corrupt_Run)" by (rule load_torn) simp
  ultimately show "load D rid (torn_line rid st) = (torn_line rid st, Inl Corrupt_Run)"
    by (simp add: load_def with_lock_def torn_line_def)
qed (rule load_reachable [OF assms], erule torn_call, erule torn_elsewhere)

text \<open>
  C9: Durability: the snapshot a call returned is the one every later load returns, also when the
  process died before the checkpoint of that call was written.
\<close>

theorem returned_snapshot_is_durable:
  assumes "rt_reachable D st" and "run_call D c now now2 st = (st', Inr (Got_Run s))"
    and "call_key c = Some key"
  shows "snd (load D (call_run c) st') = Inr s \<and>
         snd (load D (call_run c) (lost_checkpoints st st')) = Inr s"
proof
  note ok = reachable_ok [OF assms(1)]
  have ex: "exec_call D c now now2 st = st'" using assms(2) by (simp add: exec_call_def)
  have st': "rt_reachable D st'" and lost: "rt_reachable D (lost_checkpoints st st')"
    using rt_step.call [of D st c now now2] rt_step.crash [of D st c now now2] ex assms(1)
    by (auto intro: rt_reachable.step)
  have r: "run_in D st' (call_run c) = Some s" using call_success [OF ok assms(2,3)] by auto
  have v: "valid_id (call_run c)" by (rule run_in_valid [OF st' r])
  show "snd (load D (call_run c) st') = Inr s"
    using load_run_in [OF reachable_ok [OF st'] v] r by simp
  show "snd (load D (call_run c) (lost_checkpoints st st')) = Inr s"
    using load_run_in [OF reachable_ok [OF lost] v] run_in_crash [OF ok, of c now now2] r ex by simp
qed

text \<open>
  The event log is append-only: a step of the system leaves every earlier line of every
  run's log in place and adds at most one.
\<close>

theorem event_log_append_only:
  assumes "rt_reachable D st" and "rt_step D st st'"
  shows "\<exists>new. event_log st' rid = event_log st rid @ new \<and> length new \<le> 1"
proof -
  have call: "\<exists>new. event_log (exec_call D c now now2 st) rid = event_log st rid @ new \<and>
      length new \<le> 1" for c now now2
    using call_dir_step [OF reachable_ok [OF assms(1)], of rid c now now2]
    by (cases rule: dir_step.cases)
      (auto simp: event_log_def commit_dir_def append_line_def created_dir_def empty_dir_def)
  have torn: "event_log (lost_checkpoints st (exec_call D c now now2 st)) rid =
      event_log (exec_call D c now now2 st) rid" for c now now2
    unfolding event_log_def dir_of_crash [OF exec_call_step [OF reachable_ok [OF assms(1)]]]
    by (simp add: torn_def)
  from assms(2) show ?thesis by cases (simp_all only: torn call)
qed

text \<open>
  C8: Exactly once: after a command succeeded, sending it again, at any later time, after any
  other calls and any crashes that lost a checkpoint, adds no event to any log; and a command whose result is the run
  returns the run as it is then.
\<close>

theorem command_takes_effect_once:
  assumes "rt_reachable D st" and "run_call D c t u st = (st1, Inr v)" and "call_key c = Some key"
    and "rt_later D st1 st2"
  shows "event_log (exec_call D c t' u' st2) rid = event_log st2 rid \<and>
    (\<forall>s. v = Got_Run s \<longrightarrow> (\<exists>s2. run_in D st2 (call_run c) = Some s2 \<and>
                                 snd (run_call D c t' u' st2) = Inr (Got_Run s2)))"
proof -
  have ex: "exec_call D c t u st = st1" using assms(2) by (simp add: exec_call_def)
  have st1: "rt_reachable D st1"
    using rt_step.call [of D st c t u] ex assms(1) by (auto intro: rt_reachable.step)
  note ok2 = reachable_ok [OF rt_later_reachable [OF assms(4) st1]]
  from call_success [OF reachable_ok [OF assms(1)] assms(2,3)] obtain s1 where
    s1: "run_in D st1 (call_run c) = Some s1" "key \<noteq> []"
      "map_of (rs_idempotency s1) key = Some (call_print D s1 c)"
      "\<And>s. v = Got_Run s \<Longrightarrow> call_safe s1 c" by blast
  from later_grows [OF assms(4) st1 s1(1)] obtain s2 where
    s2: "run_in D st2 (call_run c) = Some s2" and gr: "run_grows s1 s2" by blast
  have known: "map_of (rs_idempotency s2) key = Some (call_print D s2 c)"
    using run_grows_key [OF gr s1(3)] run_grows_print [OF gr] by simp
  have nr: "\<not> refuses D c" unfolding refuses_def by (metis assms(2) Inl_Inr_False prod.inject)
  have "snd (run_call D c t' u' st2) = Inr (Got_Run s2)" if "v = Got_Run s" for s
    by (rule safe_replay [OF ok2 s2 assms(3) s1(2) nr known run_grows_safe [OF gr s1(4) [OF that]]])
  with known_key(1) [OF ok2 s2 assms(3) known] s2 show ?thesis by blast
qed

text \<open>
  Key discipline: a call that brings a key the run has recorded for a command with another
  fingerprint fails, and no log changes.
\<close>

theorem reused_key_is_refused:
  assumes "rt_reachable D st" and "run_in D st (call_run c) = Some s" and "call_key c = Some key"
    and "map_of (rs_idempotency s) key = Some h" and "h \<noteq> call_print D s c"
  shows "(\<exists>e. snd (run_call D c t u st) = Inl e) \<and>
         event_log (exec_call D c t u st) rid = event_log st rid"
  using known_key [OF reachable_ok [OF assms(1)] assms(2-4)] assms(5) by blast

text \<open>
  The life cycle of runs: one step of the system moves the state of a run along the
  transition table or not at all, and a completed, failed or cancelled run stays so for ever.
\<close>

theorem run_life_cycle:
  assumes "rt_reachable D st" and "rt_later D st st'" and "run_in D st rid = Some s"
  shows "\<exists>s'. run_in D st' rid = Some s' \<and> run_life.moves (rs_state s) (rs_state s') \<and>
    (terminal_run (rs_state s) \<longrightarrow> rs_state s' = rs_state s)"
  using later_grows [OF assms(2,1,3)] run_life.moves_terminal by (auto simp: run_grows_def)

text \<open>
  The life cycle of nodes: the set of nodes of a run never changes, every node moves along
  the node transition table, and a succeeded, failed or cancelled node stays so for ever.
\<close>

theorem node_life_cycle:
  assumes "rt_reachable D st" and "rt_later D st st'" and "run_in D st rid = Some s"
    and "map_of (rs_nodes s) nid = Some n"
  shows "\<exists>s' n'. run_in D st' rid = Some s' \<and> map fst (rs_nodes s') = map fst (rs_nodes s) \<and>
    map_of (rs_nodes s') nid = Some n' \<and> node_life.moves (n_state n) (n_state n') \<and>
    (terminal_node (n_state n) \<longrightarrow> n_state n' = n_state n)"
proof -
  from later_grows [OF assms(2,1,3)] obtain s' where
    s': "run_in D st' rid = Some s'" "nodes_move (rs_nodes s) (rs_nodes s')"
    by (auto simp: run_grows_def)
  with assms(4) obtain n' where "map_of (rs_nodes s') nid = Some n'"
    "node_life.moves (n_state n) (n_state n')" "map fst (rs_nodes s') = map fst (rs_nodes s)"
    by (auto simp: nodes_move_def)
  with s' node_life.moves_terminal show ?thesis by blast
qed

text \<open>A fresh run transition that the table allows.\<close>

lemma fresh_transition:
  assumes "store_ok D st" and r: "run_in D st rid = Some s"
    and "key \<noteq> []" "map_of (rs_idempotency s) key = None"
    and "target \<in> set (run_targets (rs_state s))"
    and "appr \<noteq> None \<longrightarrow> rs_state s = R_Awaiting_Approval"
  obtains d es ss where "dir_with D rid d es ss" "s = last ss" "st rid = Some d"
    "committable s (P_Run_Transition (rs_state s) target reason appr) key now"
    "with_lock rid (transition_run D rid target reason appr key now) st =
       (st(rid \<mapsto> commit_dir D rid (P_Run_Transition (rs_state s) target reason appr) key now s d),
        Inr (committed D rid (P_Run_Transition (rs_state s) target reason appr) key now s))"
proof -
  from run_in_dir [OF assms(1) r] obtain es ss d where
    dw: "dir_with D rid d es ss" and s: "s = last ss" and st: "st rid = Some d" .
  have "check_idempotency s key fp = Inr False" for fp
    using assms(3,4) by (simp add: check_idempotency_False)
  then have "transition_run D rid target reason appr key now d =
      (commit_dir D rid (P_Run_Transition (rs_state s) target reason appr) key now s d,
       Inr (committed D rid (P_Run_Transition (rs_state s) target reason appr) key now s))"
    unfolding transition_run_eq [OF dw s refl] using assms(5,6) by (cases appr) (simp_all add: keyed_def)
  moreover have "committable s (P_Run_Transition (rs_state s) target reason appr) key now"
    using assms(3-5) by (simp add: committable_def)
  ultimately show ?thesis using dw s st that by (simp add: with_lock_def)
qed

lemma no_approver: "(None :: string option) \<noteq> None \<longrightarrow> P"
  by simp

lemma run_in_commit:
  assumes "dir_with D rid d es ss" "s = last ss" "committable s p key now"
  shows "run_in D (st(rid \<mapsto> commit_dir D rid p key now s d)) rid = Some (committed D rid p key now s)"
  using run_of_dir_with [OF append_commit(2) [OF assms]] by (simp add: run_in_def)

text \<open>
  C32: Cancelling works from every state that is not terminal, and is final: the run is
  cancelled, every node is in a terminal state (nodes that had finished keep theirs), and no
  later call changes any of this.
\<close>

theorem cancel_is_total_and_final:
  assumes "rt_reachable D st" and "run_in D st rid = Some s" and "\<not> terminal_run (rs_state s)"
    and "key \<noteq> []" and "map_of (rs_idempotency s) key = None"
    and "rt_later D (fst (cancel D rid reason key now st)) st'"
  shows "\<exists>s'. run_in D st' rid = Some s' \<and> rs_state s' = R_Cancelled \<and>
    (\<forall>nid n. map_of (rs_nodes s) nid = Some n \<longrightarrow>
       map_option n_state (map_of (rs_nodes s') nid) =
         Some (if terminal_node (n_state n) then n_state n else N_Cancelled))"
proof -
  let ?p = "P_Run_Transition (rs_state s) R_Cancelled (Some reason) None"
  have "R_Cancelled \<in> set (run_targets (rs_state s))"
    using run_life.cancellable assms(3) by blast
  from fresh_transition [where appr = None and reason = "Some reason" and now = now,
      OF reachable_ok [OF assms(1)] assms(2,4,5) this no_approver]
  obtain d es ss where c: "dir_with D rid d es ss" "s = last ss"
    and "st rid = Some d" and com: "committable s ?p key now"
    and eq: "with_lock rid (transition_run D rid R_Cancelled (Some reason) None key now) st =
      (st(rid \<mapsto> commit_dir D rid ?p key now s d), Inr (committed D rid ?p key now s))" .
  have st1: "fst (cancel D rid reason key now st) = st(rid \<mapsto> commit_dir D rid ?p key now s d)"
    by (simp add: cancel_def eq)
  let ?s1 = "committed D rid ?p key now s"
  have r1: "run_in D (fst (cancel D rid reason key now st)) rid = Some ?s1"
    unfolding st1 by (rule run_in_commit [OF c com])
  obtain s1 where ap: "apply_payload s now ?p = Inr s1" using com by (auto simp: committable_def)
  have state: "rs_state ?s1 = R_Cancelled" and
    nodes: "rs_nodes ?s1 = map_vals cancel_node_snapshot (rs_nodes s)"
    using ap by (auto simp: committed_effect [OF ap] split: if_split_asm)
  have "rt_step D st (fst (cancel D rid reason key now st))"
    using rt_step.call [of D st "C_Cancel rid reason key" now now] by (simp add: exec_call_def)
  with assms(1) have reach: "rt_reachable D (fst (cancel D rid reason key now st))"
    by (rule rt_reachable.step)
  from later_grows [OF assms(6) reach r1] obtain s' where
    s': "run_in D st' rid = Some s'" and gr: "run_grows ?s1 s'" by blast
  have "rs_state s' = R_Cancelled"
    using gr state run_life.moves_terminal by (auto simp: run_grows_def terminal_run_def)
  moreover have "map_option n_state (map_of (rs_nodes s') nid) =
      Some (if terminal_node (n_state n) then n_state n else N_Cancelled)"
    if n: "map_of (rs_nodes s) nid = Some n" for nid n
  proof -
    let ?m = "cancel_node_snapshot n"
    have m: "map_of (rs_nodes ?s1) nid = Some ?m" using n nodes by (simp add: dict_simps)
    have t: "terminal_node (n_state ?m)"
      by (simp add: cancel_node_snapshot_def node_life.cancelled_terminal)
    from gr m obtain n' where "map_of (rs_nodes s') nid = Some n'"
      "node_life.moves (n_state ?m) (n_state n')"
      by (auto simp: run_grows_def nodes_move_def)
    with node_life.moves_terminal [OF _ t] show ?thesis
      by (simp add: cancel_node_snapshot_def split: if_splits)
  qed
  ultimately show ?thesis using s' by blast
qed

text \<open>
  The approval interrupt does not hold a run back: from \<open>AWAITING_APPROVAL\<close>, \<open>resume\<close> with a
  fresh key succeeds, the run is running again and its list of approvals is unchanged.
\<close>

theorem resume_passes_approval:
  assumes "rt_reachable D st" and "run_in D st rid = Some s" and "rs_state s = R_Awaiting_Approval"
    and "key \<noteq> []" and "map_of (rs_idempotency s) key = None"
  shows "\<exists>st' s'. resume D rid key now st = (st', Inr s') \<and> run_in D st' rid = Some s' \<and>
    rs_state s' = R_Running \<and> rs_approvals s' = rs_approvals s"
proof -
  let ?p = "P_Run_Transition (rs_state s) R_Running None None"
  have "R_Running \<in> set (run_targets (rs_state s))" using assms(3) by simp
  from fresh_transition [where appr = None and reason = None and now = now,
      OF reachable_ok [OF assms(1)] assms(2,4,5) this no_approver]
  obtain d es ss where c: "dir_with D rid d es ss" "s = last ss"
    and "st rid = Some d" and com: "committable s ?p key now"
    and eq: "with_lock rid (transition_run D rid R_Running None None key now) st =
      (st(rid \<mapsto> commit_dir D rid ?p key now s d), Inr (committed D rid ?p key now s))" .
  have st1: "resume D rid key now st =
      (st(rid \<mapsto> commit_dir D rid ?p key now s d), Inr (committed D rid ?p key now s))"
    by (simp add: resume_def eq)
  obtain s1 where ap: "apply_payload s now ?p = Inr s1" using com by (auto simp: committable_def)
  then have "rs_state s1 = R_Running" "rs_approvals s1 = rs_approvals s"
    by (auto simp: new_approvals_def split: if_split_asm)
  with st1 run_in_commit [OF c com] show ?thesis by (simp add: committed_effect [OF ap])
qed

text \<open>
  Tamper evidence: two logs the runtime accepts for a run that have the same length and whose
  last events carry the same hash are equal, provided the hashes of their events do not collide.
\<close>

theorem head_hash_fixes_log:
  assumes "read_events D rid d = Inr es" and "read_events D rid d' = Inr fs"
    and "length es = length fs" and "es \<noteq> []" and "ev_hash (last es) = ev_hash (last fs)"
    and "collision_free ev_hash (set es \<union> set fs)"
  shows "es = fs"
proof (rule rt_log.head_determines_log)
  show "rt_chain D 1 zero_hash es" "rt_chain D 1 zero_hash fs"
    using assms(1-4) by (auto simp: read_events_def read_lines_iff split: option.splits)
  show "head_hash ev_hash zero_hash es = head_hash ev_hash zero_hash fs"
    using assms(3-5) by (auto simp: head_hash_def)
qed (use assms in auto)

end
