(* ===== verification/Durable_Leases.thy ===== *)
theory Durable_Leases
  imports Durable_Props
begin

section \<open>Durable runtime: leases and retries\<close>

text \<open>
  What the lease operations of \<open>RuntimeStore\<close> promise: at most one live lease per node, a lease
  is used only with its token, expiry clears exactly the leases that ran out, and the back-off of
  \<open>record_retry\<close> stays between its bounds and never shrinks.  A key is fresh (\<open>fresh_key\<close>) when
  the run has not recorded it; what an idempotent repetition does is stated apart.
\<close>

definition fresh_key :: "run_snapshot \<Rightarrow> string \<Rightarrow> bool" where
  "fresh_key s key \<longleftrightarrow> key \<noteq> [] \<and> map_of (rs_idempotency s) key = None"

lemma keyed_fresh [simp]: "fresh_key s key \<Longrightarrow> keyed D rid s d key fp hit miss = miss"
  using check_idempotency_False [of s key fp] by (simp add: keyed_def fresh_key_def)

lemma keyed_known [simp]:
  "key \<noteq> [] \<Longrightarrow> map_of (rs_idempotency s) key = Some fp \<Longrightarrow>
     keyed D rid s d key fp hit miss = (synced D s d, hit)"
  using check_idempotency_True [of s key fp] by (simp add: keyed_def)

lemma on_node_Some [simp]: "map_of (rs_nodes s) nid = Some n \<Longrightarrow> on_node D s d nid f = f n"
  by (simp add: on_node_def)

text \<open>The lease a node of the run holds.\<close>

definition lease_in :: "digests \<Rightarrow> store \<Rightarrow> string \<Rightarrow> string \<Rightarrow> lease option" where
  "lease_in D st rid nid = (case run_in D st rid of None \<Rightarrow> None
     | Some s \<Rightarrow> (case map_of (rs_nodes s) nid of None \<Rightarrow> None | Some n \<Rightarrow> n_lease n))"

lemma lease_in_commit:
  assumes "dir_with D rid d es ss" "s = last ss" "fresh_key s key"
    and "apply_payload s t p = Inr s1" and "map_of (rs_nodes s1) nid = Some m"
  shows "lease_in D (st(rid \<mapsto> commit_dir D rid p key t s d)) rid nid = n_lease m"
proof -
  have "committable s p key t" using assms(3,4) by (simp add: committable_def fresh_key_def)
  from run_in_commit [OF assms(1,2) this, of st] show ?thesis
    using assms(5) by (simp add: lease_in_def committed_effect [OF assms(4)])
qed

lemma lease_in_synced:
  assumes "dir_with D rid d es ss" "st rid = Some d"
  shows "lease_in D (st(rid \<mapsto> synced D (last ss) d)) rid nid = lease_in D st rid nid"
  using run_of_dir_with [OF dir_with_synced_last [OF assms(1)]] assms
  by (simp add: lease_in_def run_in_def dir_of_def)

subsection \<open>Properties\<close>

text \<open>
  Lease exclusion: with a fresh key, acquiring a node whose lease has not run out is refused
  with a conflict and the lease stays; otherwise the caller gets a lease of its own, valid from
  now for the time asked, and it is the one the node then holds.
\<close>

theorem acquire_excludes:
  assumes "rt_reachable D st" and "run_in D st rid = Some s" and "map_of (rs_nodes s) nid = Some n"
    and "fresh_key s key" and "owner \<noteq> []" and "0 < ttl"
  shows "case acquire D rid nid owner ttl key now now2 st of
      (st', Inr l) \<Rightarrow> \<not> live_lease now n \<and> l_owner l = owner \<and> l_acquired_at l = now \<and>
        now \<le> l_expires_at l \<and> add_seconds now ttl = Some (l_expires_at l) \<and>
        lease_in D st' rid nid = Some l
    | (st', Inl x) \<Rightarrow> lease_in D st' rid nid = lease_in D st rid nid \<and>
        (if live_lease now n then x = Lease_Conflict
         else x = Overflow_Error \<and> add_seconds now ttl = None)"
proof -
  from run_in_dir [OF reachable_ok [OF assms(1)] assms(2)] obtain d es ss where
    dw: "dir_with D rid d es ss" and s: "s = last ss" and st: "st rid = Some d" .
  note sec = acquire_lease_eq [OF dw s, of nid owner ttl key now now2]
  have call: "acquire D rid nid owner ttl key now now2 st =
      with_lock rid (acquire_lease D rid nid owner ttl key now now2) st"
    using assms(5,6) by (simp add: acquire_def validate_ttl_def)
  consider "live_lease now n" | "\<not> live_lease now n" "add_seconds now ttl = None"
    | ex where "\<not> live_lease now n" "add_seconds now ttl = Some ex" by fastforce
  then show ?thesis
  proof cases
    case (3 ex)
    let ?p = "acquire_payload D rid nid owner key s now ex ttl"
    obtain s1 where ap: "apply_payload s now2 ?p = Inr s1"
      and m: "map_of (rs_nodes s1) nid =
        Some (n\<lparr>n_lease := Some (new_lease D rid nid owner key s now ex)\<rparr>)"
      using assms(3) by (auto simp: acquire_payload_def get_node_def new_lease_def dict_simps)
    have "now \<le> ex" using add_seconds_le [OF _ 3(2)] assms(6) by simp
    with 3 assms(3,4) lease_in_commit [OF dw s assms(4) ap m, of st] show ?thesis
      by (simp add: call with_lock_def st sec new_lease_def)
  qed (use assms(3,4) lease_in_synced [where st = st, OF dw st] in
    \<open>simp_all add: call with_lock_def st sec s\<close>)
qed

text \<open>
  A lease answers to its token only: with a fresh key, releasing a node's lease succeeds
  exactly when the lease is live and the token is its own, and then the node holds none; in
  every other case the lease stays and the error says whether it ran out or is another's.
\<close>

theorem release_needs_token:
  assumes "rt_reachable D st" and "run_in D st rid = Some s" and "map_of (rs_nodes s) nid = Some n"
    and "fresh_key s key"
  shows "case release D rid nid token key now now2 st of
      (st', Inr s') \<Rightarrow> lease_in D st' rid nid = None \<and>
        (\<exists>l. n_lease n = Some l \<and> now < l_expires_at l \<and> l_token l = token)
    | (st', Inl x) \<Rightarrow> lease_in D st' rid nid = lease_in D st rid nid \<and>
        x = (if live_lease now n then Lease_Conflict else Lease_Expired) \<and>
        (live_lease now n \<longrightarrow> map_option l_token (n_lease n) \<noteq> Some token)"
proof -
  from run_in_dir [OF reachable_ok [OF assms(1)] assms(2)] obtain d es ss where
    dw: "dir_with D rid d es ss" and s: "s = last ss" and st: "st rid = Some d" .
  note sec = release_lease_eq [OF dw s refl, of nid token key now now2]
  show ?thesis
  proof (cases "held_lease now token n")
    case (Inl x)
    then show ?thesis
      using assms(3,4) lease_in_synced [where st = st, OF dw st]
      by (auto simp: release_def with_lock_def st sec s live_lease_def held_lease_def
          split: option.splits if_splits)
  next
    case (Inr l)
    then have l: "n_lease n = Some l" "now < l_expires_at l" "l_token l = token"
      by (auto simp: held_lease_Inr)
    obtain s1 where ap: "apply_payload s now2 (P_Lease_Released nid token) = Inr s1"
      and m: "map_of (rs_nodes s1) nid = Some (n\<lparr>n_lease := None\<rparr>)"
      using assms(3) l by (auto simp: get_node_def dict_simps)
    with Inr l assms(3,4) lease_in_commit [OF dw s assms(4) ap m, of st] show ?thesis
      by (simp add: release_def with_lock_def st sec)
  qed
qed

text \<open>
  What an idempotent \<open>acquire_lease\<close> hands back: the lease the node holds now, with its token,
  whether or not it is the caller's and whether or not it is live; if there is none, the call
  reports expiry.  The log does not change.
\<close>

theorem acquire_replay_returns_current_lease:
  assumes "rt_reachable D st" and "run_in D st rid = Some s" and "map_of (rs_nodes s) nid = Some n"
    and "key \<noteq> []" and "map_of (rs_idempotency s) key =
      Some (payload_hash D (P_Lease_Acquired nid owner tok t1 t2 t3 ttl))"
    and "owner \<noteq> []" and "0 < ttl"
  shows "snd (acquire D rid nid owner ttl key now now2 st) =
           (case lease_in D st rid nid of None \<Rightarrow> Inl Lease_Expired | Some l \<Rightarrow> Inr l)"
proof -
  from run_in_dir [OF reachable_ok [OF assms(1)] assms(2)] obtain d es ss where
    dw: "dir_with D rid d es ss" and s: "s = last ss" and st: "st rid = Some d" .
  have "snd (acquire_lease D rid nid owner ttl key now now2 d) = current_lease Lease_Expired nid s"
    unfolding acquire_lease_eq [OF dw s] using assms(4,5) by (simp add: payload_hash_lease)
  then show ?thesis
    using assms(2,3,6,7)
    by (cases "acquire_lease D rid nid owner ttl key now now2 d")
      (simp add: acquire_def validate_ttl_def with_lock_def st lease_in_def current_lease_def
        find_node_def)
qed

text \<open>
  Expiry is exact: with a fresh key, \<open>expire_leases\<close> succeeds, clears the lease of every node
  whose lease has run out, keeps every other lease, and moves neither the run nor a node.
\<close>

theorem expire_clears_exactly:
  assumes "rt_reachable D st" and "run_in D st rid = Some s" and "fresh_key s key"
    and "map_of (rs_nodes s) nid = Some n"
  shows "\<exists>st' s' n'. expire D rid key now now2 st = (st', Inr s') \<and> run_in D st' rid = Some s' \<and>
    rs_state s' = rs_state s \<and> map fst (rs_nodes s') = map fst (rs_nodes s) \<and>
    map_of (rs_nodes s') nid = Some n' \<and> n_state n' = n_state n \<and>
    n_lease n' = (if live_lease now n then n_lease n else None)"
proof -
  from run_in_dir [OF reachable_ok [OF assms(1)] assms(2)] obtain d es ss where
    dw: "dir_with D rid d es ss" and s: "s = last ss" and st: "st rid = Some d" .
  let ?p = "P_Leases_Expired (expired_nodes now s) now"
  from clear_leases [OF expired_nodes_keys, of now s] obtain ns where
    ns: "rfold clear_lease (expired_nodes now s) (rs_nodes s) = Inr ns"
    "map fst ns = map fst (rs_nodes s)"
    "\<And>k. map_of ns k = (if k \<in> set (expired_nodes now s) then map_option unleased (map_of (rs_nodes s) k)
                        else map_of (rs_nodes s) k)" by blast
  then have ap: "apply_payload s now2 ?p = Inr (s\<lparr>rs_nodes := ns\<rparr>)" by simp
  have com: "committable s ?p key now2"
    using ap assms(3) by (simp add: committable_def fresh_key_def)
  have call: "expire D rid key now now2 st =
      (st(rid \<mapsto> commit_dir D rid ?p key now2 s d), Inr (committed D rid ?p key now2 s))"
    by (simp add: expire_def with_lock_def st expire_leases_eq [OF dw s refl] assms(3))
  have "(nid, n) \<in> set (rs_nodes s)" using assms(4) by (rule map_of_SomeD)
  then have in1: "nid \<in> set (expired_nodes now s)" if "n_lease n = Some l" "l_expires_at l \<le> now" for l
    using that by (force simp: expired_nodes_def)
  have live: "n_lease n \<noteq> None \<Longrightarrow> \<not> live_lease now n \<Longrightarrow> nid \<in> set (expired_nodes now s)"
    using in1 by (auto simp: live_lease_def)
  have dead: "nid \<notin> set (expired_nodes now s)" if "live_lease now n"
  proof
    assume "nid \<in> set (expired_nodes now s)"
    then obtain m l where m: "(nid, m) \<in> set (rs_nodes s)" "n_lease m = Some l" "l_expires_at l \<le> now"
      by (auto simp: expired_nodes_def split: option.splits)
    from map_of_is_SomeI [OF reachable_distinct_nodes [OF assms(1,2)] m(1)] assms(4) m that
    show False by (simp add: live_lease_def)
  qed
  have node: "\<exists>n'. map_of ns nid = Some n' \<and> n_state n' = n_state n \<and>
      n_lease n' = (if live_lease now n then n_lease n else None)"
    using live dead
    by (cases "nid \<in> set (expired_nodes now s)"; cases "n_lease n") (auto simp: ns(3) assms(4) unleased_def)
  show ?thesis
    using node call run_in_commit [OF dw s com, of st] ns(2)
    by (auto simp: committed_effect [OF ap])
qed

text \<open>
  Retry back-off: with a fresh key, \<open>record_retry\<close> counts the attempt and returns its record; a
  permanent failure is not retryable and has no back-off, any other waits between the base and
  the maximal delay, not before now, and never less than after the attempt before.
\<close>

theorem retry_is_bounded:
  assumes "rt_reachable D st" and "run_in D st rid = Some s" and "map_of (rs_nodes s) nid = Some n"
    and "fresh_key s key" and "0 \<le> base" and "base \<le> mx" and "0 \<le> n_attempts n"
    and "retry D rid nid cls why base mx key now now2 st = (st', Inr r)"
  shows "rm_attempt r = n_attempts n + 1 \<and> rm_retryable r = (cls \<noteq> Permanent) \<and>
    (case rm_backoff_seconds r of
       None \<Rightarrow> cls = Permanent \<and> rm_not_before r = None
     | Some b \<Rightarrow> cls \<noteq> Permanent \<and> base \<le> b \<and> b \<le> mx \<and>
         (\<exists>t. rm_not_before r = Some t \<and> now \<le> t) \<and>
         (\<forall>b'. 0 < n_attempts n \<longrightarrow> retry_backoff cls (n_attempts n) base mx = Some b' \<longrightarrow> b' \<le> b))"
proof -
  from run_in_dir [OF reachable_ok [OF assms(1)] assms(2)] obtain d es ss where
    dw: "dir_with D rid d es ss" and s: "s = last ss" and st: "st rid = Some d" .
  have "snd (record_retry D rid nid cls why base mx key now now2 d) = Inr r"
    using assms(5,6,8) by (auto simp: retry_def with_lock_def st split: prod.splits)
  then obtain nb where nb: "retry_time now (retry_backoff cls (n_attempts n + 1) base mx) = Inr nb"
    and r: "r = retry_record cls why base mx (n_attempts n + 1) nb"
    unfolding record_retry_eq [OF dw s] using assms(3,4) by (auto simp: Let_def split: sum.splits)
  show ?thesis
  proof (cases "cls = Permanent")
    case True
    with nb r show ?thesis by (simp add: retry_record_def retry_backoff_def retry_time_def)
  next
    case False
    define k where "k = nat (n_attempts n)"
    have k: "nat (n_attempts n) = k" by (simp add: k_def)
    have "(1::rat) \<le> 2 ^ k" by simp
    from mult_left_mono [OF this assms(5)] have low: "base \<le> base * 2 ^ k" by simp
    have "(2::rat) ^ nat (n_attempts n - 1) \<le> 2 ^ k"
      by (intro power_increasing) (auto simp: k_def)
    from mult_left_mono [OF this assms(5)]
    have "min mx (base * 2 ^ nat (n_attempts n - 1)) \<le> min mx (base * 2 ^ k)" by (auto simp: min_def)
    moreover from nb False obtain t where "nb = Some t" "add_seconds now (min mx (base * 2 ^ k)) = Some t"
      by (cases "add_seconds now (min mx (base * 2 ^ k))") (auto simp: retry_time_def retry_backoff_def k)
    moreover from this(2) have "now \<le> t" using low assms(5,6) by (intro add_seconds_le) auto
    ultimately show ?thesis
      using False low assms(6) by (simp add: r retry_record_def retry_backoff_def k)
  qed
qed

end
