(* ===== verification/Durable_Samples.thy ===== *)
theory Durable_Samples
  imports Durable_Leases
begin

section \<open>Durable runtime: a small history\<close>

text \<open>
  A small history of one run with two nodes, to which the properties are applied: the run is created and
  started, \<open>ann\<close> leases node \<open>a\<close> for 30 seconds, and after that lease ran out \<open>bob\<close> leases it.  The sample digests hash a document to its event type.
\<close>

definition sample_digests :: digests where
  "sample_digests =
     \<lparr>doc_hash = (\<lambda>doc. case jfield ''event_type'' doc of Some (JStr t) \<Rightarrow> t | _ \<Rightarrow> ''doc''),
      text_hash = (\<lambda>s. s)\<rparr>"

definition sample_environment :: environment_snapshot where
  "sample_environment =
     \<lparr>python_version = ''3.12'', env_platform = ''linux'', executable = ''python'', env_cwd = ''/repo''\<rparr>"

definition sample_git :: git_snapshot where
  "sample_git = \<lparr>git_root = None, git_head = None, git_branch = None, git_dirty = None\<rparr>"

definition sample_create :: rt_call where
  "sample_create = C_Create ''r'' [''a'', ''b''] (Some sample_environment) (Some sample_git)
     sample_environment sample_git ''create''"

definition created_store :: store where
  "created_store = exec_call sample_digests sample_create 10 10 (\<lambda>_. None)"

definition started_store :: store where
  "started_store = exec_call sample_digests (C_Start ''r'' ''start'') 20 20 created_store"

definition leased_store :: store where
  "leased_store =
     exec_call sample_digests (C_Acquire ''r'' ''a'' ''ann'' 30 ''ann-lock'') 30 30 started_store"

definition passed_store :: store where
  "passed_store = exec_call sample_digests (C_Acquire ''r'' ''a'' ''bob'' 30 ''bob-lock'')
     40000000 40000000 leased_store"

definition waiting_store :: store where
  "waiting_store =
     exec_call sample_digests (C_Request_Approval ''r'' ''merge?'' ''ask'') 30 30 started_store"

lemmas sample_stores = created_store_def started_store_def leased_store_def passed_store_def
  waiting_store_def

lemma sample_reachable:
  "rt_reachable sample_digests created_store" "rt_reachable sample_digests started_store"
  "rt_reachable sample_digests leased_store" "rt_reachable sample_digests passed_store"
  "rt_reachable sample_digests waiting_store"
  unfolding sample_stores by (intro rt_reachable.step [OF _ rt_step.call] rt_reachable.init)+

lemma sample_started: "rt_step sample_digests created_store started_store"
  unfolding started_store_def by (rule rt_step.call)

lemma sample_later: "rt_later sample_digests created_store started_store"
  by (rule rt_later.later [OF rt_later.now sample_started])

definition sample_run :: "store \<Rightarrow> run_snapshot" where
  "sample_run st = the (run_in sample_digests st ''r'')"

definition sample_node :: "store \<Rightarrow> node_snapshot" where
  "sample_node st = the (map_of (rs_nodes (sample_run st)) ''a'')"

lemma sample_all_later:
  "rt_later sample_digests created_store created_store" "rt_later sample_digests created_store started_store"
  "rt_later sample_digests created_store leased_store" "rt_later sample_digests created_store passed_store"
  "rt_later sample_digests created_store waiting_store"
  unfolding sample_stores by (intro rt_later.later [OF _ rt_step.call] rt_later.now)+

text \<open>The run and its first node are there from the creation on.\<close>

lemma sample_there:
  assumes "rt_later sample_digests created_store st"
  shows "run_in sample_digests st ''r'' = Some (sample_run st) \<and>
    map_of (rs_nodes (sample_run st)) ''a'' = Some (sample_node st)"
proof -
  have "(case run_in sample_digests created_store ''r'' of None \<Rightarrow> False
      | Some s \<Rightarrow> \<not> Option.is_none (map_of (rs_nodes s) ''a''))" by code_simp
  then obtain s n where s: "run_in sample_digests created_store ''r'' = Some s" and n: "map_of (rs_nodes s) ''a'' = Some n"
    by (auto simp: Option.is_none_def split: option.splits)
  from later_grows [OF assms sample_reachable(1) s] obtain s' where s': "run_in sample_digests st ''r'' = Some s'"
    and "nodes_move (rs_nodes s) (rs_nodes s')" by (auto simp: run_grows_def)
  with n obtain n' where "map_of (rs_nodes s') ''a'' = Some n'" by (fastforce simp: nodes_move_def)
  with s' show ?thesis by (simp add: sample_run_def sample_node_def)
qed

lemmas sample_runs = sample_all_later [THEN sample_there, THEN conjunct1]
lemmas sample_nodes = sample_all_later [THEN sample_there, THEN conjunct2]

end
