(* ===== verification/Durable_Witnesses.thy ===== *)
theory Durable_Witnesses
  imports Durable_Samples
begin

section \<open>Durable runtime: the properties at concrete stores\<close>

text \<open>
  Every property of the runtime that has hypotheses, applied to the small history of \<open>Durable_Samples\<close>.
\<close>

lemma runtime_refines_snapshots_witness:
  "rt_step sample_digests created_store started_store \<and>
   snap_step sample_digests ''r'' (run_in sample_digests created_store ''r'')
     (run_in sample_digests started_store ''r'')"
proof -
  have "run_in sample_digests started_store ''r'' \<noteq> run_in sample_digests created_store ''r''"
    by code_simp
  with runtime_refines_snapshots [OF sample_reachable(1) sample_started, of "''r''"] sample_started
  show ?thesis by blast
qed

lemma reachable_load_witness:
  "(case load sample_digests ''r'' started_store of
      (st', Inr s) \<Rightarrow> run_in sample_digests started_store ''r'' = Some s \<and>
                     load sample_digests ''r'' st' = (st', Inr s)
    | (st', Inl x) \<Rightarrow> False) \<and>
   load sample_digests ''r'' (torn_line ''r'' started_store) = (torn_line ''r'' started_store, Inl Corrupt_Run) \<and>
   exec_call sample_digests (C_Cancel ''r'' ''stop'' ''k'') 30 30 (torn_line ''r'' started_store) = torn_line ''r'' started_store"
proof -
  note at = reachable_load [OF sample_reachable(2), of "''r''" "C_Cancel ''r'' ''stop'' ''k''" 30 30 "''s''"]
  have "valid_id ''r''" by code_simp
  with at have torn: "load sample_digests ''r'' (torn_line ''r'' started_store) = (torn_line ''r'' started_store, Inl Corrupt_Run)"
    by blast
  from at obtain x where
    "run_call sample_digests (C_Cancel ''r'' ''stop'' ''k'') 30 30 (torn_line ''r'' started_store) = (torn_line ''r'' started_store, Inl x)"
    by auto
  then have "exec_call sample_digests (C_Cancel ''r'' ''stop'' ''k'') 30 30 (torn_line ''r'' started_store) = torn_line ''r'' started_store"
    by (simp add: exec_call_def)
  with conjunct1 [OF at] torn show ?thesis by (auto simp: sample_runs split: prod.splits sum.splits)
qed

lemma returned_snapshot_is_durable_witness:
  "\<exists>s. run_call sample_digests (C_Start ''r'' ''start'') 20 20 created_store = (started_store, Inr (Got_Run s)) \<and>
     snd (load sample_digests ''r'' (lost_checkpoints created_store started_store)) = Inr s"
proof -
  have "run_call sample_digests (C_Start ''r'' ''start'') 20 20 created_store =
      (started_store, Inr (Got_Run (sample_run started_store)))"
  proof (rule prod_eqI)
    show "fst (run_call sample_digests (C_Start ''r'' ''start'') 20 20 created_store) =
        fst (started_store, Inr (Got_Run (sample_run started_store)))"
      by (simp add: started_store_def exec_call_def)
    show "snd (run_call sample_digests (C_Start ''r'' ''start'') 20 20 created_store) =
        snd (started_store, Inr (Got_Run (sample_run started_store)))"
      by code_simp
  qed
  with returned_snapshot_is_durable [OF sample_reachable(1) this] show ?thesis by auto
qed

lemma event_log_append_only_witness:
  "\<exists>new. event_log started_store ''r'' = event_log created_store ''r'' @ new \<and> length new = 1"
proof -
  have "length (event_log started_store ''r'') = length (event_log created_store ''r'') + 1"
    by code_simp
  with event_log_append_only [OF sample_reachable(1) sample_started, of "''r''"] show ?thesis by auto
qed

lemma command_takes_effect_once_witness:
  "event_log (exec_call sample_digests (C_Start ''r'' ''start'') 99 99 started_store) ''r'' =
     event_log started_store ''r'' \<and>
   snd (run_call sample_digests (C_Start ''r'' ''start'') 99 99 started_store) =
     Inr (Got_Run (sample_run started_store))"
proof -
  define v where "v = Got_Run (sample_run started_store)"
  have "snd (run_call sample_digests (C_Start ''r'' ''start'') 20 20 created_store) = Inr v"
    unfolding v_def by code_simp
  then have call: "run_call sample_digests (C_Start ''r'' ''start'') 20 20 created_store =
      (started_store, Inr v)"
    by (simp add: started_store_def exec_call_def prod_eq_iff)
  from command_takes_effect_once [OF sample_reachable(1) call _ rt_later.now, of "''start''" 99 99 "''r''"]
  show ?thesis by (simp add: v_def sample_runs)
qed

lemma reused_key_is_refused_witness:
  "\<exists>e. snd (run_call sample_digests (C_Start ''r'' ''create'') 30 30 created_store) = Inl e"
proof -
  have "map_of (rs_idempotency (sample_run created_store)) ''create'' = Some ''run_created''"
    by code_simp
  moreover have "''run_created'' \<noteq>
      call_print sample_digests (sample_run created_store) (C_Start ''r'' ''create'')"
    by code_simp
  ultimately show ?thesis
    using reused_key_is_refused [where c = "C_Start ''r'' ''create''",
        OF sample_reachable(1), of "sample_run created_store" "''create''"] sample_runs(1) by simp
qed

lemma run_life_cycle_witness:
  "\<exists>s'. run_in sample_digests started_store ''r'' = Some s' \<and>
     run_life.moves (rs_state (sample_run created_store)) (rs_state s')"
  using run_life_cycle [OF sample_reachable(1) sample_later sample_runs(1)] by blast

lemma node_life_cycle_witness:
  "\<exists>s' n'. run_in sample_digests started_store ''r'' = Some s' \<and>
     map_of (rs_nodes s') ''a'' = Some n' \<and>
     node_life.moves (n_state (sample_node created_store)) (n_state n')"
  using node_life_cycle [OF sample_reachable(1) sample_later sample_runs(1) sample_nodes(1)] by blast

lemma cancel_is_total_and_final_witness:
  "\<exists>s'. run_in sample_digests
      (fst (cancel sample_digests ''r'' ''stop'' ''end'' 50 leased_store)) ''r'' = Some s' \<and>
     rs_state s' = R_Cancelled"
proof -
  have "\<not> terminal_run (rs_state (sample_run leased_store))"
    "map_of (rs_idempotency (sample_run leased_store)) ''end'' = None" by code_simp+
  with cancel_is_total_and_final [OF sample_reachable(3) sample_runs(3) _ _ _ rt_later.now]
  show ?thesis by blast
qed

lemma resume_passes_approval_witness:
  "rs_state (sample_run waiting_store) = R_Awaiting_Approval \<and>
   (\<exists>st' s'. resume sample_digests ''r'' ''go'' 50 waiting_store = (st', Inr s') \<and>
     rs_state s' = R_Running \<and> rs_approvals s' = rs_approvals (sample_run waiting_store))"
proof -
  have "rs_state (sample_run waiting_store) = R_Awaiting_Approval"
    "map_of (rs_idempotency (sample_run waiting_store)) ''go'' = None" by code_simp+
  with resume_passes_approval [OF sample_reachable(5) sample_runs(5)] show ?thesis by blast
qed

lemma head_hash_fixes_log_witness:
  "\<exists>e. read_events sample_digests ''r'' (dir_of created_store ''r'') = Inr [e] \<and>
     (\<forall>f. read_events sample_digests ''r'' (dir_of created_store ''r'') = Inr [f] \<longrightarrow> [e] = [f])"
proof -
  obtain e where e: "read_events sample_digests ''r'' (dir_of created_store ''r'') = Inr [e]"
  proof -
    have "(case read_events sample_digests ''r'' (dir_of created_store ''r'') of
        Inl _ \<Rightarrow> False | Inr es \<Rightarrow> length es = 1)" by code_simp
    then show ?thesis using that by (auto simp: length_Suc_conv split: sum.splits)
  qed
  then show ?thesis
    using head_hash_fixes_log [OF e, of "dir_of created_store ''r''"]
    by (auto simp: collision_free_def)
qed

lemma acquire_excludes_witness:
  "snd (acquire sample_digests ''r'' ''a'' ''bob'' 30 ''bob-lock'' 40 40 leased_store) =
     Inl Lease_Conflict"
proof -
  have f: "fresh_key (sample_run leased_store) ''bob-lock''"
    and l: "live_lease 40 (sample_node leased_store)" by code_simp+
  from acquire_excludes [OF sample_reachable(3) sample_runs(3) sample_nodes(3) f, of "''bob''" 30 40 40] l
  show ?thesis by (auto split: prod.splits sum.splits)
qed

lemma release_needs_token_witness:
  "snd (release sample_digests ''r'' ''a'' ''guess'' ''let-go'' 40 40 leased_store) = Inl Lease_Conflict"
proof -
  have f: "fresh_key (sample_run leased_store) ''let-go''"
    and l: "live_lease 40 (sample_node leased_store)"
    and t: "map_option l_token (n_lease (sample_node leased_store)) \<noteq> Some ''guess''" by code_simp+
  from release_needs_token [OF sample_reachable(3) sample_runs(3) sample_nodes(3) f, where token = "''guess''" and now = 40 and ?now2.0 = 40] l t
  show ?thesis by (auto split: prod.splits sum.splits)
qed

text \<open>\<open>ann\<close> repeats her \<open>acquire\<close> and gets the lease of \<open>bob\<close>, token included.\<close>

lemma acquire_replay_returns_current_lease_witness:
  "\<exists>l. snd (acquire sample_digests ''r'' ''a'' ''ann'' 30 ''ann-lock'' 50000000 50000000 passed_store) = Inr l \<and>
     l_owner l = ''bob''"
proof -
  have key: "map_of (rs_idempotency (sample_run passed_store)) ''ann-lock'' =
      Some (payload_hash sample_digests (P_Lease_Acquired ''a'' ''ann'' [] 0 0 0 30))" by code_simp
  have "map_option l_owner (lease_in sample_digests passed_store ''r'' ''a'') = Some ''bob''" by code_simp
  then show ?thesis
    using acquire_replay_returns_current_lease
      [OF sample_reachable(4) sample_runs(4) sample_nodes(4) _ key, of 50000000 50000000]
    by (auto split: option.splits)
qed

lemma expire_clears_exactly_witness:
  "\<exists>st' s' n'. expire sample_digests ''r'' ''sweep'' 40000000 40000000 leased_store = (st', Inr s') \<and>
     map_of (rs_nodes s') ''a'' = Some n' \<and> n_lease n' = None"
proof -
  have f: "fresh_key (sample_run leased_store) ''sweep''"
    and l: "\<not> live_lease 40000000 (sample_node leased_store)" by code_simp+
  from expire_clears_exactly [OF sample_reachable(3) sample_runs(3) f sample_nodes(3), of 40000000 40000000] l
  show ?thesis by auto
qed

lemma retry_is_bounded_witness:
  "\<exists>st' r. retry sample_digests ''r'' ''a'' Transient ''boom'' 1 300 ''retry'' 40 40 started_store = (st', Inr r) \<and>
     rm_attempt r = 1 \<and> rm_retryable r"
proof -
  have f: "fresh_key (sample_run started_store) ''retry''"
    and n: "n_attempts (sample_node started_store) = 0" by code_simp+
  have "(case snd (retry sample_digests ''r'' ''a'' Transient ''boom'' 1 300 ''retry'' 40 40 started_store) of
      Inl _ \<Rightarrow> False | Inr _ \<Rightarrow> True)" by code_simp
  then obtain st' r where r: "retry sample_digests ''r'' ''a'' Transient ''boom'' 1 300 ''retry'' 40 40
      started_store = (st', Inr r)"
    by (cases "retry sample_digests ''r'' ''a'' Transient ''boom'' 1 300 ''retry'' 40 40 started_store")
      (auto split: sum.splits)
  from retry_is_bounded [OF sample_reachable(2) sample_runs(2) sample_nodes(2) f _ _ _ r] n r
  show ?thesis by simp
qed

end
