(* ===== verification/Proof_Model.thy ===== *)
theory Proof_Model
  imports Py_Base
begin

section \<open>Proof graph: data and the evaluator\<close>

text \<open>
  The values of \<open>proof_graph/models.py\<close> and \<open>evaluate_proof\<close> of \<open>proof_graph/evaluator.py\<close>.  A
  \<open>ValueError\<close> is \<open>Inl\<close> of its message.  The loop over the verifier nodes threads the reasons and
  the dictionaries \<open>satisfied\<close> and \<open>valid_evidence\<close>; it is \<open>check_nodes\<close> here, and the loop over
  the evidence ids of one result is \<open>link_evidence\<close>.
\<close>

datatype task_kind = Bugfix_Task | Feature_Task | Refactor_Task | Maintenance_Task

datatype claim_kind =
    Bugfix_Claim | Behavior_Claim | Regression_Claim | Security_Claim | Performance_Claim | Ui_Claim

datatype verifier_kind =
    Reproduce | Targeted_Tests | Regression | Static_Analysis | Type_Check | Lint
  | Security | Browser | Performance

datatype pg_outcome = Passed | Failed | Skipped | Errored

datatype evidence_source = From_Verifier | From_Agent

record pg_claim =
  claim_id :: string
  claim_statement :: string
  claim_kind_of :: claim_kind

record task_metadata =
  task_id :: string
  task_summary :: string
  task_kind_of :: task_kind
  task_claims :: "pg_claim list"

record risk_metadata =
  risk_security :: bool
  risk_browser :: bool
  risk_performance :: bool

record diff_metadata =
  changed_files :: "string list"
  diff_languages :: "string list"

record verifier_node =
  vn_id :: string
  vn_kind :: verifier_kind
  vn_argv :: "string list"
  vn_expected :: pg_outcome
  vn_dependencies :: "string list"

record proof_graph =
  pg_task :: task_metadata
  pg_risk :: risk_metadata
  pg_diff :: diff_metadata
  pg_verifiers :: "verifier_node list"

record pg_evidence =
  ev_id :: string
  ev_verifier :: string
  ev_outcome :: pg_outcome
  artifact_digest :: string
  ev_claims :: "string list"
  ev_source :: evidence_source

record verifier_result =
  vr_id :: string
  vr_outcome :: pg_outcome
  vr_evidence :: "string list"

record proof_assessment =
  pa_complete :: bool
  pa_false_green :: bool
  pa_reasons :: "string list"

fun outcome_value :: "pg_outcome \<Rightarrow> string" where
  "outcome_value Passed = ''passed''"
| "outcome_value Failed = ''failed''"
| "outcome_value Skipped = ''skipped''"
| "outcome_value Errored = ''error''"

fun verifier_value :: "verifier_kind \<Rightarrow> string" where
  "verifier_value Reproduce = ''reproduce''"
| "verifier_value Targeted_Tests = ''targeted-tests''"
| "verifier_value Regression = ''regression''"
| "verifier_value Static_Analysis = ''static-analysis''"
| "verifier_value Type_Check = ''type-check''"
| "verifier_value Lint = ''lint''"
| "verifier_value Security = ''security''"
| "verifier_value Browser = ''browser''"
| "verifier_value Performance = ''performance''"

definition graph_claims :: "proof_graph \<Rightarrow> pg_claim list" where
  "graph_claims g = task_claims (pg_task g)"

subsection \<open>Reasons\<close>

datatype reason =
    Orphan_Result string
  | Orphan_Evidence string
  | Agent_Assertion
  | Missing_Result string
  | Outcome_Mismatch string pg_outcome pg_outcome
  | Missing_Evidence string string
  | Wrong_Verifier string
  | Contradicts_Result string
  | No_Digest string
  | No_Valid_Evidence string
  | Unsatisfied_Dependencies string
  | Claim_Without_Evidence string verifier_kind
  | No_Pre_Fix_Failure
  | No_Post_Fix_Pass
  | Identical_Evidence

fun reason_text :: "reason \<Rightarrow> string" where
  "reason_text (Orphan_Result v) = ''orphan result for unknown verifier '' @ v"
| "reason_text (Orphan_Evidence e) = ''orphan evidence '' @ e"
| "reason_text Agent_Assertion = ''agent assertions are not verifier evidence''"
| "reason_text (Missing_Result v) = ''missing result for '' @ v"
| "reason_text (Outcome_Mismatch v x y) =
     v @ '' expected '' @ outcome_value x @ '', observed '' @ outcome_value y"
| "reason_text (Missing_Evidence v e) = v @ '' references missing evidence '' @ e"
| "reason_text (Wrong_Verifier e) = ''evidence '' @ e @ '' is linked to the wrong verifier''"
| "reason_text (Contradicts_Result e) = ''evidence '' @ e @ '' contradicts its verifier result''"
| "reason_text (No_Digest e) = ''evidence '' @ e @ '' has no artifact digest''"
| "reason_text (No_Valid_Evidence v) = v @ '' has no valid verifier evidence''"
| "reason_text (Unsatisfied_Dependencies v) = v @ '' passed without satisfied dependencies''"
| "reason_text (Claim_Without_Evidence c k) =
     ''claim '' @ c @ '' has no evidence from '' @ verifier_value k"
| "reason_text No_Pre_Fix_Failure = ''bugfix lacks a demonstrated pre-fix failure''"
| "reason_text No_Post_Fix_Pass = ''bugfix lacks a demonstrated post-fix pass''"
| "reason_text Identical_Evidence = ''pre-fix and post-fix evidence are identical''"

subsection \<open>Evaluation\<close>

fun unique_by_id :: "string \<Rightarrow> string list \<Rightarrow> string list \<Rightarrow> (string, unit) result" where
  "unique_by_id label seen [] = Inr ()"
| "unique_by_id label seen (i # ids) =
     (if i \<in> set seen then Inl (''duplicate '' @ label @ '' id: '' @ i)
      else unique_by_id label (i # seen) ids)"

definition result_by_id :: "verifier_result list \<Rightarrow> string \<Rightarrow> verifier_result option" where
  "result_by_id rs = map_of (map (\<lambda>r. (vr_id r, r)) rs)"

definition evidence_by_id :: "pg_evidence list \<Rightarrow> string \<Rightarrow> pg_evidence option" where
  "evidence_by_id es = map_of (map (\<lambda>e. (ev_id e, e)) es)"

definition node_ids :: "proof_graph \<Rightarrow> string set" where
  "node_ids g = vn_id ` set (pg_verifiers g)"

definition orphan_reasons ::
  "proof_graph \<Rightarrow> verifier_result list \<Rightarrow> pg_evidence list \<Rightarrow> reason list" where
  "orphan_reasons g rs es =
     concat (map (\<lambda>r. if vr_id r \<notin> node_ids g then [Orphan_Result (vr_id r)] else []) rs) @
     concat (map (\<lambda>e. (if ev_verifier e \<notin> node_ids g then [Orphan_Evidence (ev_id e)] else []) @
                      (if ev_source e = From_Agent then [Agent_Assertion] else [])) es)"

fun link_evidence ::
  "verifier_node \<Rightarrow> verifier_result \<Rightarrow> pg_evidence list \<Rightarrow> string list
   \<Rightarrow> reason list \<times> pg_evidence list" where
  "link_evidence n r es [] = ([], [])"
| "link_evidence n r es (i # ids) =
     (case link_evidence n r es ids of (rsn, linked) \<Rightarrow>
        (case evidence_by_id es i of
           None \<Rightarrow> (Missing_Evidence (vn_id n) i # rsn, linked)
         | Some e \<Rightarrow>
             if ev_verifier e \<noteq> vn_id n then (Wrong_Verifier i # rsn, linked)
             else if ev_outcome e \<noteq> vr_outcome r then (Contradicts_Result i # rsn, linked)
             else if ev_source e \<noteq> From_Verifier then (rsn, linked)
             else if strip (artifact_digest e) = [] then (No_Digest i # rsn, linked)
             else (rsn, e # linked)))"

text \<open>The loop state: the reasons so far, \<open>satisfied\<close> and \<open>valid_evidence\<close>.\<close>

type_synonym check_state =
  "reason list \<times> (string \<times> bool) list \<times> (string \<times> pg_evidence list) list"

definition check_node ::
  "verifier_result list \<Rightarrow> pg_evidence list \<Rightarrow> verifier_node \<Rightarrow> check_state \<Rightarrow> check_state" where
  "check_node rs es n = (\<lambda>(rsn, sat, val).
     case result_by_id rs (vn_id n) of
       None \<Rightarrow> (rsn @ [Missing_Result (vn_id n)], AList.update (vn_id n) False sat,
                AList.update (vn_id n) [] val)
     | Some r \<Rightarrow>
         let matches = (vr_outcome r = vn_expected n);
             (lrsn, linked) = link_evidence n r es (vr_evidence r);
             deps = list_all (\<lambda>d. map_of sat d = Some True) (vn_dependencies n)
         in (rsn
             @ (if matches then [] else [Outcome_Mismatch (vn_id n) (vn_expected n) (vr_outcome r)])
             @ lrsn
             @ (if linked = [] then [No_Valid_Evidence (vn_id n)] else [])
             @ (if matches \<and> \<not> deps then [Unsatisfied_Dependencies (vn_id n)] else []),
             AList.update (vn_id n) (matches \<and> linked \<noteq> [] \<and> deps) sat,
             AList.update (vn_id n) linked val))"

definition check_nodes ::
  "verifier_result list \<Rightarrow> pg_evidence list \<Rightarrow> verifier_node list \<Rightarrow> check_state \<Rightarrow> check_state" where
  "check_nodes rs es = fold (check_node rs es)"

definition valid_of :: "(string \<times> pg_evidence list) list \<Rightarrow> string \<Rightarrow> pg_evidence list" where
  "valid_of val i = (case map_of val i of None \<Rightarrow> [] | Some xs \<Rightarrow> xs)"

definition claim_reasons :: "proof_graph \<Rightarrow> (string \<times> pg_evidence list) list \<Rightarrow> reason list" where
  "claim_reasons g val =
     concat (map (\<lambda>c. concat (map (\<lambda>n.
       if list_ex (\<lambda>e. claim_id c \<in> set (ev_claims e)) (valid_of val (vn_id n)) then []
       else [Claim_Without_Evidence (claim_id c) (vn_kind n)]) (pg_verifiers g))) (graph_claims g))"

definition first_of_kind :: "proof_graph \<Rightarrow> verifier_kind \<Rightarrow> verifier_node option" where
  "first_of_kind g k = List.find (\<lambda>n. vn_kind n = k) (pg_verifiers g)"

definition result_of :: "verifier_result list \<Rightarrow> verifier_node option \<Rightarrow> verifier_result option" where
  "result_of rs no = (case no of None \<Rightarrow> None | Some n \<Rightarrow> result_by_id rs (vn_id n))"

definition bugfix_reasons ::
  "proof_graph \<Rightarrow> verifier_result list \<Rightarrow> (string \<times> pg_evidence list) list \<Rightarrow> reason list" where
  "bugfix_reasons g rs val =
     (if task_kind_of (pg_task g) \<noteq> Bugfix_Task then []
      else let rep = first_of_kind g Reproduce; tgt = first_of_kind g Targeted_Tests
        in (if map_option vr_outcome (result_of rs rep) \<noteq> Some Failed then [No_Pre_Fix_Failure] else [])
         @ (if map_option vr_outcome (result_of rs tgt) \<noteq> Some Passed then [No_Post_Fix_Pass] else [])
         @ (case (rep, tgt) of
              (Some a, Some b) \<Rightarrow>
                if artifact_digest ` set (valid_of val (vn_id a))
                   \<inter> artifact_digest ` set (valid_of val (vn_id b)) = {} then []
                else [Identical_Evidence]
            | _ \<Rightarrow> []))"

definition evaluate_proof ::
  "proof_graph \<Rightarrow> verifier_result list \<Rightarrow> pg_evidence list \<Rightarrow> (string, proof_assessment) result" where
  "evaluate_proof g rs es =
     rbind (unique_by_id ''verifier result'' [] (map vr_id rs)) (\<lambda>_.
     rbind (unique_by_id ''evidence'' [] (map ev_id es)) (\<lambda>_.
       case check_nodes rs es (pg_verifiers g) (orphan_reasons g rs es, [], []) of
         (rsn, sat, val) \<Rightarrow>
           let reasons = dedup (map reason_text
                           (rsn @ claim_reasons g val @ bugfix_reasons g rs val));
               ok = (reasons = [] \<and> list_all snd sat
                     \<and> length sat = card (node_ids g))
           in Inr \<lparr>pa_complete = ok, pa_false_green = \<not> ok, pa_reasons = reasons\<rparr>))"

end
