(* ===== verification/Proof_Sound.thy ===== *)
theory Proof_Sound
  imports Proof_Model
begin

section \<open>Proof graph: what a complete assessment means\<close>

text \<open>
  \<open>complete_proof\<close> is the specification of \<open>evaluate_proof\<close>: a declarative condition on the graph,
  the results and the evidence.  The lemmas follow the evaluator: \<open>link_evidence\<close> reports nothing
  exactly when every cited item is good, one step of the node loop reports nothing exactly when
  the node is proved and its dependencies come before it, and the loop composes the steps.
\<close>

definition good_item :: "verifier_node \<Rightarrow> verifier_result \<Rightarrow> pg_evidence list \<Rightarrow> string \<Rightarrow> bool" where
  "good_item n r es i \<longleftrightarrow> (\<exists>e. evidence_by_id es i = Some e \<and> ev_verifier e = vn_id n \<and>
     ev_outcome e = vr_outcome r \<and> ev_source e = From_Verifier \<and> strip (artifact_digest e) \<noteq> [])"

definition node_proved :: "verifier_result list \<Rightarrow> pg_evidence list \<Rightarrow> verifier_node \<Rightarrow> bool" where
  "node_proved rs es n \<longleftrightarrow> (\<exists>r. result_by_id rs (vn_id n) = Some r \<and> vr_outcome r = vn_expected n \<and>
     vr_evidence r \<noteq> [] \<and> (\<forall>i\<in>set (vr_evidence r). good_item n r es i))"

text \<open>The evidence the result of a node cites.\<close>

definition cited :: "verifier_result list \<Rightarrow> pg_evidence list \<Rightarrow> verifier_node \<Rightarrow> pg_evidence list" where
  "cited rs es n = (case result_by_id rs (vn_id n) of None \<Rightarrow> []
     | Some r \<Rightarrow> map (\<lambda>i. the (evidence_by_id es i)) (vr_evidence r))"

fun deps_ordered :: "string set \<Rightarrow> verifier_node list \<Rightarrow> bool" where
  "deps_ordered seen [] = True"
| "deps_ordered seen (n # ns) =
     (set (vn_dependencies n) \<subseteq> seen \<and> deps_ordered (insert (vn_id n) seen) ns)"

definition bugfix_proved :: "proof_graph \<Rightarrow> verifier_result list \<Rightarrow> pg_evidence list \<Rightarrow> bool" where
  "bugfix_proved g rs es \<longleftrightarrow> (\<exists>a b ra rb.
     first_of_kind g Reproduce = Some a \<and> result_by_id rs (vn_id a) = Some ra \<and> vr_outcome ra = Failed \<and>
     first_of_kind g Targeted_Tests = Some b \<and> result_by_id rs (vn_id b) = Some rb \<and>
     vr_outcome rb = Passed \<and>
     artifact_digest ` set (cited rs es a) \<inter> artifact_digest ` set (cited rs es b) = {})"

definition complete_proof :: "proof_graph \<Rightarrow> verifier_result list \<Rightarrow> pg_evidence list \<Rightarrow> bool" where
  "complete_proof g rs es \<longleftrightarrow>
     (\<forall>r\<in>set rs. vr_id r \<in> node_ids g) \<and>
     (\<forall>e\<in>set es. ev_verifier e \<in> node_ids g \<and> ev_source e = From_Verifier) \<and>
     (\<forall>n\<in>set (pg_verifiers g). node_proved rs es n) \<and>
     deps_ordered {} (pg_verifiers g) \<and>
     (\<forall>c\<in>set (graph_claims g). \<forall>n\<in>set (pg_verifiers g).
        \<exists>e\<in>set (cited rs es n). claim_id c \<in> set (ev_claims e)) \<and>
     (task_kind_of (pg_task g) = Bugfix_Task \<longrightarrow> bugfix_proved g rs es)"

subsection \<open>Cited evidence\<close>

lemma evidence_by_id_in: "evidence_by_id es i = Some e \<Longrightarrow> e \<in> set es"
  by (auto simp: evidence_by_id_def dest: map_of_SomeD)

lemma orphan_reasons_empty:
  "orphan_reasons g rs es = [] \<longleftrightarrow> (\<forall>r\<in>set rs. vr_id r \<in> node_ids g) \<and>
     (\<forall>e\<in>set es. ev_verifier e \<in> node_ids g \<and> ev_source e = From_Verifier)"
  by (auto simp: orphan_reasons_def split: if_splits) (metis evidence_source.exhaust)+

lemma link_evidence_clean:
  assumes "\<forall>e\<in>set es. ev_source e = From_Verifier"
  shows "fst (link_evidence n r es ids) = [] \<longleftrightarrow> (\<forall>i\<in>set ids. good_item n r es i)"
    and "\<forall>i\<in>set ids. good_item n r es i \<Longrightarrow>
      link_evidence n r es ids = ([], map (\<lambda>i. the (evidence_by_id es i)) ids)"
proof (induction ids)
  case (Cons i ids)
  {
    case 1
    have "fst (link_evidence n r es (i # ids)) = [] \<longleftrightarrow>
        fst (link_evidence n r es ids) = [] \<and> good_item n r es i"
      using assms by (cases "evidence_by_id es i")
        (auto simp: good_item_def split: prod.splits dest: evidence_by_id_in)
    then show ?case using Cons.IH(1) by auto
  next
    case 2
    then show ?case using Cons.IH(2) by (auto simp: good_item_def)
  }
qed simp_all

subsection \<open>The loop over the nodes\<close>

text \<open>The loop state when nothing has been reported: every node so far is satisfied.\<close>

definition clean_step :: "verifier_result list \<Rightarrow> pg_evidence list \<Rightarrow> verifier_node \<Rightarrow> check_state
    \<Rightarrow> check_state" where
  "clean_step rs es n = (\<lambda>(rsn, sat, val).
     (rsn, AList.update (vn_id n) True sat, AList.update (vn_id n) (cited rs es n) val))"

lemma check_node_clean:
  assumes ver: "\<forall>e\<in>set es. ev_source e = From_Verifier" and sat: "\<forall>d. map_of sat d \<noteq> Some False"
  shows "fst (check_node rs es n (rsn, sat, val)) = [] \<longleftrightarrow>
           rsn = [] \<and> node_proved rs es n \<and> set (vn_dependencies n) \<subseteq> dom (map_of sat)"
    and "node_proved rs es n \<Longrightarrow> set (vn_dependencies n) \<subseteq> dom (map_of sat) \<Longrightarrow>
           check_node rs es n (rsn, sat, val) = clean_step rs es n (rsn, sat, val)"
proof -
  have true: "map_of sat d = Some True \<longleftrightarrow> d \<in> dom (map_of sat)" for d
    using sat [rule_format, of d] by (cases "map_of sat d") auto
  have deps: "list_all (\<lambda>d. map_of sat d = Some True) (vn_dependencies n) \<longleftrightarrow>
      set (vn_dependencies n) \<subseteq> dom (map_of sat)"
    by (simp only: true list_all_iff subset_iff Ball_def)
  note link = link_evidence_clean [OF ver]
  show "fst (check_node rs es n (rsn, sat, val)) = [] \<longleftrightarrow>
      rsn = [] \<and> node_proved rs es n \<and> set (vn_dependencies n) \<subseteq> dom (map_of sat)"
  proof (cases "result_by_id rs (vn_id n)")
    case None
    then show ?thesis by (simp add: check_node_def node_proved_def)
  next
    case (Some r)
    show ?thesis
    proof (cases "\<forall>i\<in>set (vr_evidence r). good_item n r es i")
      case True
      with link(2) [OF True] Some show ?thesis
        by (auto simp: check_node_def node_proved_def deps Let_def)
    next
      case False
      with link(1) [of n r "vr_evidence r"] have "fst (link_evidence n r es (vr_evidence r)) \<noteq> []"
        by simp
      with False Some show ?thesis
        by (auto simp: check_node_def node_proved_def Let_def split: prod.splits)
    qed
  qed
  assume np: "node_proved rs es n" and d: "set (vn_dependencies n) \<subseteq> dom (map_of sat)"
  from np obtain r where r: "result_by_id rs (vn_id n) = Some r" "vr_outcome r = vn_expected n"
    "vr_evidence r \<noteq> []" "\<forall>i\<in>set (vr_evidence r). good_item n r es i"
    by (auto simp: node_proved_def)
  from link(2) [OF r(4)] r d show "check_node rs es n (rsn, sat, val) = clean_step rs es n (rsn, sat, val)"
    by (simp add: check_node_def clean_step_def cited_def deps)
qed

lemma check_node_keeps_reasons:
  "rsn \<noteq> [] \<Longrightarrow> fst (check_node rs es n (rsn, sat, val)) \<noteq> []"
  by (cases "result_by_id rs (vn_id n)") (auto simp: check_node_def Let_def split: prod.splits)

lemma check_nodes_keeps_reasons: "fst st \<noteq> [] \<Longrightarrow> fst (check_nodes rs es ns st) \<noteq> []"
proof (induction ns arbitrary: st)
  case Nil
  then show ?case by (simp add: check_nodes_def)
next
  case (Cons n ns)
  obtain rsn sat val where st: "st = (rsn, sat, val)" by (cases st)
  with Cons.prems have "fst (check_node rs es n st) \<noteq> []" using check_node_keeps_reasons by simp
  from Cons.IH [OF this] show ?case by (simp add: check_nodes_def)
qed

lemma check_nodes_clean:
  assumes ver: "\<forall>e\<in>set es. ev_source e = From_Verifier"
    and sat: "\<forall>d. map_of sat d \<noteq> Some False"
  shows "fst (check_nodes rs es ns (rsn, sat, val)) = [] \<longleftrightarrow>
           rsn = [] \<and> (\<forall>n\<in>set ns. node_proved rs es n) \<and> deps_ordered (dom (map_of sat)) ns"
    and "\<forall>n\<in>set ns. node_proved rs es n \<Longrightarrow> deps_ordered (dom (map_of sat)) ns \<Longrightarrow>
           check_nodes rs es ns (rsn, sat, val) = fold (clean_step rs es) ns (rsn, sat, val)"
  using sat
proof (induction ns arbitrary: rsn sat val)
  case (Cons n ns)
  have dom: "dom (map_of (AList.update (vn_id n) True sat)) = insert (vn_id n) (dom (map_of sat))"
    for sat by (simp add: update_conv')
  {
    case 1
    let ?sat = "AList.update (vn_id n) True sat"
    have true: "\<forall>d. map_of ?sat d \<noteq> Some False" using 1 by (auto simp: dict_simps)
    note step = check_node_clean [OF ver 1, of rs n rsn val]
    show ?case
    proof (cases "node_proved rs es n \<and> set (vn_dependencies n) \<subseteq> dom (map_of sat)")
      case True
      then show ?thesis
        using step(2) Cons.IH(1) [OF true] dom by (auto simp: check_nodes_def clean_step_def)
    next
      case False
      then have "fst (check_node rs es n (rsn, sat, val)) \<noteq> []" using step(1) by blast
      from check_nodes_keeps_reasons [OF this] False show ?thesis
        by (auto simp: check_nodes_def)
    qed
  next
    case 2
    let ?sat = "AList.update (vn_id n) True sat"
    from 2 have true: "\<forall>d. map_of ?sat d \<noteq> Some False" by (auto simp: dict_simps)
    from 2 check_node_clean(2) [OF ver 2(3), of rs n rsn val] Cons.IH(2) [OF _ _ true] dom show ?case
      by (simp add: check_nodes_def clean_step_def)
  }
qed (simp_all add: check_nodes_def)

subsection \<open>The whole evaluation\<close>

lemma fold_clean_step:
  "fold (clean_step rs es) ns (rsn, sat, val) =
     (rsn, fold (\<lambda>n. AList.update (vn_id n) True) ns sat,
      fold (\<lambda>n. AList.update (vn_id n) (cited rs es n)) ns val)"
  by (induction ns arbitrary: sat val) (auto simp: clean_step_def)

lemma fold_update_keys:
  "fst ` set (fold (\<lambda>n. AList.update (f n) (g n)) ns d) = f ` set ns \<union> fst ` set d"
  by (induction ns arbitrary: d) (auto simp: dict_keys_update)

lemma fold_update_distinct:
  "distinct (map fst d) \<Longrightarrow> distinct (map fst (fold (\<lambda>n. AList.update (f n) (g n)) ns d))"
  by (induction ns arbitrary: d) (auto simp: distinct_update)

lemma fold_update_get:
  assumes "\<And>n m. f n = f m \<Longrightarrow> g n = g m" and "n \<in> set ns \<or> map_of d (f n) = Some (g n)"
  shows "map_of (fold (\<lambda>n. AList.update (f n) (g n)) ns d) (f n) = Some (g n)"
  using assms(2)
proof (induction ns arbitrary: d)
  case (Cons m ns)
  have "n \<in> set ns \<or> map_of (AList.update (f m) (g m) d) (f n) = Some (g n)"
    using Cons.prems assms(1) [of n m] by (auto simp: dict_simps)
  from Cons.IH [OF this] show ?case by simp
qed simp

lemma cited_by_id: "vn_id n = vn_id m \<Longrightarrow> cited rs es n = cited rs es m"
  by (simp add: cited_def)

definition clean_val :: "proof_graph \<Rightarrow> verifier_result list \<Rightarrow> pg_evidence list
    \<Rightarrow> (string \<times> pg_evidence list) list" where
  "clean_val g rs es = fold (\<lambda>n. AList.update (vn_id n) (cited rs es n)) (pg_verifiers g) []"

lemma valid_of_clean: "n \<in> set (pg_verifiers g) \<Longrightarrow> valid_of (clean_val g rs es) (vn_id n) = cited rs es n"
  using fold_update_get [of vn_id "cited rs es" n "pg_verifiers g" "[]", OF cited_by_id]
  by (simp add: valid_of_def clean_val_def)

lemma concat_map_Nil: "concat (map f xs) = [] \<longleftrightarrow> (\<forall>x\<in>set xs. f x = [])"
  by (induction xs) auto

lemma claim_reasons_clean:
  "claim_reasons g (clean_val g rs es) = [] \<longleftrightarrow>
     (\<forall>c\<in>set (graph_claims g). \<forall>n\<in>set (pg_verifiers g).
        \<exists>e\<in>set (cited rs es n). claim_id c \<in> set (ev_claims e))"
  unfolding claim_reasons_def concat_map_Nil by (simp add: valid_of_clean list_ex_iff)

lemma first_of_kind_in: "first_of_kind g k = Some n \<Longrightarrow> n \<in> set (pg_verifiers g)"
  by (auto simp: first_of_kind_def find_Some_iff)

lemma bugfix_reasons_clean:
  "bugfix_reasons g rs (clean_val g rs es) = [] \<longleftrightarrow>
     (task_kind_of (pg_task g) = Bugfix_Task \<longrightarrow> bugfix_proved g rs es)"
proof (cases "first_of_kind g Reproduce")
  case None
  then show ?thesis by (simp add: bugfix_reasons_def bugfix_proved_def result_of_def Let_def)
next
  case a: (Some a)
  show ?thesis
  proof (cases "first_of_kind g Targeted_Tests")
    case None
    then show ?thesis by (simp add: bugfix_reasons_def bugfix_proved_def result_of_def Let_def)
  next
    case (Some b)
    with a show ?thesis
      by (simp add: bugfix_reasons_def bugfix_proved_def result_of_def Let_def valid_of_clean
          first_of_kind_in) auto
  qed
qed

lemma unique_by_id_iff:
  "(\<exists>x. unique_by_id label seen ids = Inl x) \<longleftrightarrow> \<not> (distinct ids \<and> set ids \<inter> set seen = {})"
  by (induction label seen ids rule: unique_by_id.induct) auto

lemma unique_by_id_distinct: "distinct ids \<Longrightarrow> unique_by_id label [] ids = Inr ()"
  using unique_by_id_iff [of label "[]" ids] by (cases "unique_by_id label [] ids") auto

lemma check_nodes_complete:
  fixes g rs es
  defines "st \<equiv> check_nodes rs es (pg_verifiers g) (orphan_reasons g rs es, [], [])"
  shows "fst st @ claim_reasons g (snd (snd st)) @ bugfix_reasons g rs (snd (snd st)) = [] \<longleftrightarrow>
           complete_proof g rs es"
    and "complete_proof g rs es \<Longrightarrow> list_all snd (fst (snd st)) \<and> length (fst (snd st)) = card (node_ids g)"
proof -
  have clean: "fst st = [] \<longleftrightarrow> orphan_reasons g rs es = [] \<and>
      (\<forall>n\<in>set (pg_verifiers g). node_proved rs es n) \<and> deps_ordered {} (pg_verifiers g)"
  proof (cases "orphan_reasons g rs es = []")
    case True
    then have "\<forall>e\<in>set es. ev_source e = From_Verifier" by (simp add: orphan_reasons_empty)
    from check_nodes_clean(1) [OF this, of "[]" rs "pg_verifiers g" "[]" "[]"] True show ?thesis
      by (simp add: st_def)
  next
    case False
    then show ?thesis
      using check_nodes_keeps_reasons [of "(orphan_reasons g rs es, [], [])"] by (simp add: st_def)
  qed
  have shape: "st = ([], fold (\<lambda>n. AList.update (vn_id n) True) (pg_verifiers g) [], clean_val g rs es)"
    if "fst st = []"
  proof -
    from that clean have o: "orphan_reasons g rs es = []"
      and n: "\<forall>n\<in>set (pg_verifiers g). node_proved rs es n" "deps_ordered {} (pg_verifiers g)"
      by blast+
    from o have "\<forall>e\<in>set es. ev_source e = From_Verifier" by (simp add: orphan_reasons_empty)
    from check_nodes_clean(2) [OF this, of "[]" "pg_verifiers g" rs "[]" "[]"] n show ?thesis
      by (simp add: st_def o fold_clean_step clean_val_def)
  qed
  show iff: "fst st @ claim_reasons g (snd (snd st)) @ bugfix_reasons g rs (snd (snd st)) = [] \<longleftrightarrow>
      complete_proof g rs es"
  proof (cases "fst st = []")
    case True
    with clean show ?thesis
      by (simp add: shape claim_reasons_clean bugfix_reasons_clean complete_proof_def
          orphan_reasons_empty)
  next
    case False
    with clean show ?thesis by (auto simp: complete_proof_def orphan_reasons_empty)
  qed
  assume "complete_proof g rs es"
  with iff have "fst st = []" by simp
  note sh = shape [OF this]
  let ?sat = "fold (\<lambda>n. AList.update (vn_id n) True) (pg_verifiers g) ([] :: (string \<times> bool) list)"
  have d: "distinct (map fst ?sat)" by (rule fold_update_distinct) simp
  have keys: "fst ` set ?sat = node_ids g" by (simp add: fold_update_keys node_ids_def)
  have "length ?sat = card (node_ids g)"
    using distinct_card [OF d] keys by simp
  moreover have "b" if "(k, b) \<in> set ?sat" for k b
  proof -
    from that keys obtain n where n: "n \<in> set (pg_verifiers g)" "k = vn_id n"
      by (force simp: node_ids_def)
    have "map_of ?sat (vn_id n) = Some True"
      using fold_update_get [of vn_id "\<lambda>_. True" n "pg_verifiers g" "[]"] n(1) by simp
    with map_of_is_SomeI [OF d that] n(2) show ?thesis by simp
  qed
  ultimately show "list_all snd (fst (snd st)) \<and> length (fst (snd st)) = card (node_ids g)"
    by (auto simp: sh list_all_iff)
qed

lemma evaluate_proof_spec:
  "case evaluate_proof g rs es of
     Inl x \<Rightarrow> \<not> (distinct (map vr_id rs) \<and> distinct (map ev_id es))
   | Inr a \<Rightarrow> distinct (map vr_id rs) \<and> distinct (map ev_id es) \<and>
       (pa_complete a \<longleftrightarrow> complete_proof g rs es) \<and> (pa_false_green a \<longleftrightarrow> \<not> complete_proof g rs es) \<and>
       (pa_reasons a = [] \<longleftrightarrow> complete_proof g rs es)"
proof (cases "distinct (map vr_id rs) \<and> distinct (map ev_id es)")
  case False
  then consider "\<not> distinct (map vr_id rs)" | "distinct (map vr_id rs)" "\<not> distinct (map ev_id es)"
    by blast
  then have "\<exists>x. evaluate_proof g rs es = Inl x"
  proof cases
    case 1
    with unique_by_id_iff [of "''verifier result''" "[]" "map vr_id rs"] obtain x where
      "unique_by_id ''verifier result'' [] (map vr_id rs) = Inl x" by auto
    then show ?thesis by (simp add: evaluate_proof_def)
  next
    case 2
    with unique_by_id_iff [of "''evidence''" "[]" "map ev_id es"] obtain x where
      "unique_by_id ''evidence'' [] (map ev_id es) = Inl x" by auto
    with 2 show ?thesis by (simp add: evaluate_proof_def unique_by_id_distinct)
  qed
  with False show ?thesis by auto
next
  case True
  obtain rsn sat val where st:
    "check_nodes rs es (pg_verifiers g) (orphan_reasons g rs es, [], []) = (rsn, sat, val)"
    by (metis prod_cases3)
  note c = check_nodes_complete [where g = g and rs = rs and es = es, unfolded st]
  from True st c show ?thesis
    by (auto simp: evaluate_proof_def unique_by_id_distinct Let_def)
qed

lemma evaluate_proof_complete:
  "evaluate_proof g rs es = Inr a \<Longrightarrow> pa_complete a \<longleftrightarrow> complete_proof g rs es"
  using evaluate_proof_spec [where g = g and rs = rs and es = es] by simp

subsection \<open>Properties\<close>

text \<open>
  C11: The evaluator is sound and complete for the specification: it raises exactly on duplicate
  result or evidence ids, and otherwise a graph is complete, without reasons and not a false
  green, exactly when every result and every item of evidence belongs to a planned verifier and
  none comes from an agent, every verifier saw the outcome planned with good evidence after its
  dependencies, every claim is named by evidence of every verifier, and a bug fix shows a
  failure before and a pass after with different artifacts.
\<close>

theorem evaluate_proof_iff_complete_proof:
  "case evaluate_proof g rs es of
     Inl x \<Rightarrow> \<not> (distinct (map vr_id rs) \<and> distinct (map ev_id es))
   | Inr a \<Rightarrow> distinct (map vr_id rs) \<and> distinct (map ev_id es) \<and>
       (pa_complete a \<longleftrightarrow> complete_proof g rs es) \<and> (pa_false_green a \<longleftrightarrow> \<not> complete_proof g rs es) \<and>
       (pa_reasons a = [] \<longleftrightarrow> complete_proof g rs es)"
  by (rule evaluate_proof_spec)

end
