(* ===== verification/Proof_Plan.thy ===== *)
theory Proof_Plan
  imports Proof_Sound "HOL-Library.Multiset"
begin

section \<open>Proof graph: synthesis of the verifier plan\<close>

text \<open>
  \<open>synthesize_proof_graph\<close> of \<open>proof_graph/synthesizer.py\<close>: it checks the task, puts its inputs
  into canonical order, selects the verifiers and chains them.  The order of the plan is a
  topological order of its dependencies, and the plan does not depend on the order or the
  repetition of the caller's inputs.
\<close>

definition security_markers :: "string list" where
  "security_markers = [''auth'', ''crypto'', ''permission'', ''secret'', ''security'', ''token'']"

definition browser_suffixes :: "string list" where
  "browser_suffixes = [''.css'', ''.html'', ''.jsx'', ''.tsx'', ''.vue'', ''.svelte'']"

definition browser_markers :: "string list" where
  "browser_markers = [''browser'', ''frontend'', ''ui/'', ''web/'']"

definition performance_markers :: "string list" where
  "performance_markers = [''bench'', ''perf'', ''benchmark'']"

definition path_has_marker :: "string list \<Rightarrow> string list \<Rightarrow> bool" where
  "path_has_marker paths markers = list_ex (\<lambda>p. list_ex (contains (lower p)) markers) paths"

definition has_browser_path :: "string list \<Rightarrow> bool" where
  "has_browser_path paths \<longleftrightarrow>
     list_ex (\<lambda>p. list_ex (ends_with (lower p)) browser_suffixes) paths
     \<or> path_has_marker paths browser_markers"

definition targeted_test_argv :: "string list \<Rightarrow> string list" where
  "targeted_test_argv paths = [''python'', ''-m'', ''pytest'', ''-q''] @
     filter (\<lambda>p. starts_with p ''tests/'' \<and> ends_with p ''.py'') paths"

definition canonical_task :: "task_metadata \<Rightarrow> task_metadata" where
  "canonical_task t = \<lparr>task_id = strip (task_id t), task_summary = strip (task_summary t),
     task_kind_of = task_kind_of t, task_claims = sort_key claim_id (task_claims t)\<rparr>"

definition canonical_diff :: "diff_metadata \<Rightarrow> diff_metadata" where
  "canonical_diff d = \<lparr>changed_files = sort (remdups (changed_files d)),
     diff_languages = sort (remdups (map lower (diff_languages d)))\<rparr>"

type_synonym verifier_spec = "verifier_kind \<times> string list \<times> pg_outcome"

definition specifications :: "task_kind \<Rightarrow> risk_metadata \<Rightarrow> string list \<Rightarrow> verifier_spec list" where
  "specifications k risk paths =
     (if k = Bugfix_Task then [(Reproduce, targeted_test_argv paths, Failed)] else [])
   @ [(Targeted_Tests, targeted_test_argv paths, Passed),
      (Regression, [''python'', ''-m'', ''pytest'', ''-q''], Passed),
      (Static_Analysis, [''python'', ''-m'', ''compileall'', ''-q'', ''src''], Passed),
      (Type_Check, [''mypy'', ''src''], Passed),
      (Lint, [''ruff'', ''check'', ''.''], Passed)]
   @ (if risk_security risk \<or> path_has_marker paths security_markers
      then [(Security, [''python'', ''-m'', ''pip_audit''], Passed)] else [])
   @ (if risk_browser risk \<or> has_browser_path paths
      then [(Browser, [''python'', ''-m'', ''pytest'', ''-q'', ''-m'', ''browser''], Passed)] else [])
   @ (if risk_performance risk \<or> path_has_marker paths performance_markers
      then [(Performance, [''python'', ''-m'', ''pytest'', ''-q'', ''-m'', ''performance''], Passed)]
      else [])"

definition verifier_id_for :: "nat \<Rightarrow> verifier_kind \<Rightarrow> string" where
  "verifier_id_for i k = ''verify:'' @ pad_nat 2 i @ '':'' @ verifier_value k"

fun chain_nodes :: "nat \<Rightarrow> string option \<Rightarrow> verifier_spec list \<Rightarrow> verifier_node list" where
  "chain_nodes i prev [] = []"
| "chain_nodes i prev ((k, argv, expected) # specs) =
     \<lparr>vn_id = verifier_id_for i k, vn_kind = k, vn_argv = argv, vn_expected = expected,
      vn_dependencies = (case prev of None \<Rightarrow> [] | Some p \<Rightarrow> [p])\<rparr>
     # chain_nodes (i + 1) (Some (verifier_id_for i k)) specs"

definition synthesize_proof_graph ::
  "task_metadata \<Rightarrow> risk_metadata \<Rightarrow> diff_metadata \<Rightarrow> (string, proof_graph) result" where
  "synthesize_proof_graph t risk d =
     (let ids = map (strip \<circ> claim_id) (task_claims t)
      in if task_claims t = [] then Inl ''at least one claim is required''
         else if changed_files d = [] then Inl ''at least one changed file is required''
         else if strip (task_id t) = [] then Inl ''task id must not be empty''
         else if strip (task_summary t) = [] then Inl ''task summary must not be empty''
         else if [] \<in> set ids then Inl ''claim ids must not be empty''
         else if length ids \<noteq> length (remdups ids) then Inl ''claim ids must be unique''
         else if list_ex (\<lambda>c. strip (claim_statement c) = []) (task_claims t)
           then Inl ''claim statements must not be empty''
         else Inr \<lparr>pg_task = canonical_task t, pg_risk = risk, pg_diff = canonical_diff d,
           pg_verifiers = chain_nodes 1 None
             (specifications (task_kind_of t) risk (changed_files (canonical_diff d)))\<rparr>)"

subsection \<open>The chain of verifiers\<close>

lemma verifier_value_inject: "verifier_value j = verifier_value k \<longleftrightarrow> j = k"
  by (cases j; cases k) auto

lemma chain_nodes_kinds: "map vn_kind (chain_nodes i prev specs) = map fst specs"
  by (induction i prev specs rule: chain_nodes.induct) auto

lemma chain_nodes_expected:
  "map (\<lambda>n. (vn_kind n, vn_argv n, vn_expected n)) (chain_nodes i prev specs) = specs"
  by (induction i prev specs rule: chain_nodes.induct) auto

lemma verifier_id_for_kind:
  "verifier_id_for i j = verifier_id_for i' k \<Longrightarrow> i < 100 \<Longrightarrow> i' < 100 \<Longrightarrow> j = k"
proof -
  have len: "length (pad_nat 2 n) = 2" if "n < 100" for n
    using length_nat_digits_bound [of n 2] that by (simp add: pad_nat_def)
  assume "verifier_id_for i j = verifier_id_for i' k" "i < 100" "i' < 100"
  with len [of i] len [of i'] show ?thesis
    by (simp add: verifier_id_for_def append_eq_append_conv verifier_value_inject)
qed

lemma chain_nodes_bounded_ids:
  "n \<in> set (chain_nodes i prev specs) \<Longrightarrow> i + length specs \<le> 100 \<Longrightarrow>
     \<exists>j<100. vn_id n = verifier_id_for j (vn_kind n)"
proof (induction i prev specs rule: chain_nodes.induct)
  case (2 i prev k argv expected specs)
  show ?case
  proof (cases "n \<in> set (chain_nodes (i + 1) (Some (verifier_id_for i k)) specs)")
    case True
    with 2 show ?thesis by simp
  next
    case False
    with 2 have "vn_id n = verifier_id_for i (vn_kind n)" "i < 100" by auto
    then show ?thesis by blast
  qed
qed simp

lemma chain_nodes_distinct:
  assumes "distinct (map fst specs)" and "i + length specs \<le> 100"
  shows "distinct (map vn_id (chain_nodes i prev specs))"
proof -
  let ?ns = "chain_nodes i prev specs"
  have "inj_on vn_id (set ?ns)"
  proof (rule inj_onI)
    fix n m assume nm: "n \<in> set ?ns" "m \<in> set ?ns" "vn_id n = vn_id m"
    from chain_nodes_bounded_ids [OF nm(1) assms(2)] chain_nodes_bounded_ids [OF nm(2) assms(2)] nm(3)
    have "vn_kind n = vn_kind m" by (metis verifier_id_for_kind)
    moreover have "inj_on vn_kind (set ?ns)"
      using assms(1) chain_nodes_kinds [of i prev specs] by (metis distinct_map)
    ultimately show "n = m" using nm by (auto dest: inj_onD)
  qed
  moreover have "distinct ?ns"
    using assms(1) chain_nodes_kinds [of i prev specs] by (metis distinct_map)
  ultimately show ?thesis by (simp add: distinct_map)
qed

lemma chain_nodes_ordered:
  "set_option prev \<subseteq> seen \<Longrightarrow> deps_ordered seen (chain_nodes i prev specs)"
  by (induction i prev specs arbitrary: seen rule: chain_nodes.induct) (auto split: option.splits)

lemma specifications_distinct: "distinct (map fst (specifications k risk paths))"
  by (simp add: specifications_def)

lemma specifications_length: "length (specifications k risk paths) \<le> 9"
  by (simp add: specifications_def)

lemma synthesized:
  assumes "synthesize_proof_graph t risk d = Inr g"
  shows "pg_verifiers g = chain_nodes 1 None (specifications (task_kind_of t) risk (changed_files (canonical_diff d)))"
    "task_kind_of (pg_task g) = task_kind_of t" "set (graph_claims g) = set (task_claims t)"
    "task_claims t \<noteq> []" "distinct (map claim_id (task_claims t))"
proof -
  note a = assms [unfolded synthesize_proof_graph_def Let_def]
  from a show "pg_verifiers g = chain_nodes 1 None (specifications (task_kind_of t) risk (changed_files (canonical_diff d)))"
    "task_kind_of (pg_task g) = task_kind_of t" "set (graph_claims g) = set (task_claims t)"
    "task_claims t \<noteq> []"
    by (auto simp: canonical_task_def graph_claims_def split: if_split_asm)
  from a have "length (map (strip \<circ> claim_id) (task_claims t)) =
      length (remdups (map (strip \<circ> claim_id) (task_claims t)))"
    by (auto split: if_split_asm)
  then have "distinct (map (strip \<circ> claim_id) (task_claims t))"
    by (metis length_remdups_eq remdups_id_iff_distinct)
  then show "distinct (map claim_id (task_claims t))" by (auto simp: distinct_map comp_inj_on_iff intro: inj_on_imageI2)
qed

subsection \<open>Every plan can be completed\<close>

text \<open>The results a plan asks for, each with one item of evidence of its own naming every claim.\<close>

definition planned_results :: "proof_graph \<Rightarrow> verifier_result list" where
  "planned_results g =
     map (\<lambda>n. \<lparr>vr_id = vn_id n, vr_outcome = vn_expected n, vr_evidence = [vn_id n]\<rparr>) (pg_verifiers g)"

definition planned_item :: "proof_graph \<Rightarrow> verifier_node \<Rightarrow> pg_evidence" where
  "planned_item g n = \<lparr>ev_id = vn_id n, ev_verifier = vn_id n, ev_outcome = vn_expected n,
     artifact_digest = vn_id n, ev_claims = map claim_id (graph_claims g), ev_source = From_Verifier\<rparr>"

definition planned_evidence :: "proof_graph \<Rightarrow> pg_evidence list" where
  "planned_evidence g = map (planned_item g) (pg_verifiers g)"

lemma planned_lookup:
  assumes "distinct (map vn_id (pg_verifiers g))" and "n \<in> set (pg_verifiers g)"
  shows "result_by_id (planned_results g) (vn_id n) =
      Some \<lparr>vr_id = vn_id n, vr_outcome = vn_expected n, vr_evidence = [vn_id n]\<rparr>"
    and "evidence_by_id (planned_evidence g) (vn_id n) = Some (planned_item g n)"
    and "cited (planned_results g) (planned_evidence g) n = [planned_item g n]"
proof -
  have get: "map_of (map (\<lambda>n. (vn_id n, f n)) (pg_verifiers g)) (vn_id n) = Some (f n)" for f :: "verifier_node \<Rightarrow> 'a"
    using assms by (intro map_of_is_SomeI) (auto simp: comp_def)
  show r: "result_by_id (planned_results g) (vn_id n) =
      Some \<lparr>vr_id = vn_id n, vr_outcome = vn_expected n, vr_evidence = [vn_id n]\<rparr>"
    using get by (simp add: result_by_id_def planned_results_def comp_def)
  show e: "evidence_by_id (planned_evidence g) (vn_id n) = Some (planned_item g n)"
    using get by (simp add: evidence_by_id_def planned_evidence_def comp_def planned_item_def)
  show "cited (planned_results g) (planned_evidence g) n = [planned_item g n]"
    by (simp add: cited_def r e)
qed

lemma strip_verifier_id: "strip (verifier_id_for i k) \<noteq> []"
proof -
  have "dropWhile py_space (verifier_id_for i k) = verifier_id_for i k"
    by (simp add: verifier_id_for_def py_space_def)
  moreover have "CHR ''v'' \<in> set (verifier_id_for i k)" "\<not> py_space (CHR ''v'')"
    by (simp_all add: verifier_id_for_def py_space_def)
  ultimately show ?thesis by (auto simp: strip_def dropWhile_eq_Nil_conv)
qed

lemma chain_nodes_strip: "n \<in> set (chain_nodes i prev specs) \<Longrightarrow> strip (vn_id n) \<noteq> []"
  by (induction i prev specs rule: chain_nodes.induct) (auto simp: strip_verifier_id)

lemma specifications_shape:
  assumes "synthesize_proof_graph t risk d = Inr g"
  shows "distinct (map vn_id (pg_verifiers g))" "distinct (map vn_kind (pg_verifiers g))"
    "map (\<lambda>n. (vn_kind n, vn_argv n, vn_expected n)) (pg_verifiers g) =
       specifications (task_kind_of t) risk (changed_files (canonical_diff d))"
    "deps_ordered {} (pg_verifiers g)"
  unfolding synthesized(1) [OF assms]
  using specifications_length [of "task_kind_of t" risk "changed_files (canonical_diff d)"]
  by (auto intro!: chain_nodes_distinct chain_nodes_ordered
      simp: specifications_distinct chain_nodes_kinds chain_nodes_expected)

lemma planned_complete:
  assumes "synthesize_proof_graph t risk d = Inr g"
  shows "complete_proof g (planned_results g) (planned_evidence g)"
proof -
  note sh = specifications_shape [OF assms] and look = planned_lookup [OF specifications_shape(1) [OF assms]]
  have strip: "strip (vn_id n) \<noteq> []" if "n \<in> set (pg_verifiers g)" for n
    using that by (simp add: synthesized(1) [OF assms] chain_nodes_strip)
  have proved: "node_proved (planned_results g) (planned_evidence g) n" if "n \<in> set (pg_verifiers g)" for n
    using strip [OF that] by (simp add: node_proved_def look(1) [OF that] good_item_def look(2) [OF that]
        planned_item_def)
  have bug: "bugfix_proved g (planned_results g) (planned_evidence g)" if "task_kind_of t = Bugfix_Task"
  proof -
    have "map (\<lambda>n. (vn_kind n, vn_expected n)) (pg_verifiers g) =
        map (\<lambda>(k, a, x). (k, x)) (specifications (task_kind_of t) risk (changed_files (canonical_diff d)))"
      unfolding sh(3) [symmetric] by simp
    with that obtain a b ns where ns: "pg_verifiers g = a # b # ns" "vn_kind a = Reproduce"
      "vn_expected a = Failed" "vn_kind b = Targeted_Tests" "vn_expected b = Passed"
      by (auto simp: specifications_def map_eq_Cons_conv)
    then have in_g: "a \<in> set (pg_verifiers g)" "b \<in> set (pg_verifiers g)" by simp_all
    have "vn_id a \<noteq> vn_id b" using sh(1) ns(1) by simp
    with ns show ?thesis
      by (auto simp: bugfix_proved_def first_of_kind_def look(1,3) [OF in_g(1)] look(1,3) [OF in_g(2)]
          planned_item_def)
  qed
  have claims: "\<exists>e\<in>set (cited (planned_results g) (planned_evidence g) n). claim_id c \<in> set (ev_claims e)"
    if "c \<in> set (graph_claims g)" "n \<in> set (pg_verifiers g)" for c n
    using that(1) by (simp add: look(3) [OF that(2)] planned_item_def)
  have known: "\<forall>r\<in>set (planned_results g). vr_id r \<in> node_ids g"
    "\<forall>e\<in>set (planned_evidence g). ev_verifier e \<in> node_ids g \<and> ev_source e = From_Verifier"
    by (auto simp: planned_results_def planned_evidence_def planned_item_def node_ids_def)
  show ?thesis
    unfolding complete_proof_def using sh(4) known proved claims bug synthesized(2) [OF assms] by auto
qed

lemma planned_evaluates:
  assumes "synthesize_proof_graph t risk d = Inr g"
  shows "\<exists>a. evaluate_proof g (planned_results g) (planned_evidence g) = Inr a \<and> pa_complete a"
proof -
  have "distinct (map vr_id (planned_results g))" "distinct (map ev_id (planned_evidence g))"
    using specifications_shape(1) [OF assms]
    by (simp_all add: planned_results_def planned_evidence_def planned_item_def comp_def)
  with evaluate_proof_spec [where g = g and rs = "planned_results g" and es = "planned_evidence g"]
    planned_complete [OF assms] show ?thesis by (auto split: sum.splits)
qed

subsection \<open>Properties\<close>

text \<open>
  The plan is well formed: the verifier ids are distinct, every dependency of a verifier
  comes before it, there is one verifier per specification with the outcome it asks for, only a
  bug fix is asked to reproduce a failure and every other verifier has to pass, and the plan of
  a risky change contains the verifiers its risk bits ask for.
\<close>

theorem synthesized_plan_well_formed:
  assumes "synthesize_proof_graph t risk d = Inr g"
  shows "distinct (map vn_id (pg_verifiers g)) \<and> deps_ordered {} (pg_verifiers g) \<and>
    distinct (map vn_kind (pg_verifiers g)) \<and>
    {Targeted_Tests, Regression, Static_Analysis, Type_Check, Lint} \<subseteq> vn_kind ` set (pg_verifiers g) \<and>
    (Reproduce \<in> vn_kind ` set (pg_verifiers g) \<longleftrightarrow> task_kind_of t = Bugfix_Task) \<and>
    (risk_security risk \<longrightarrow> Security \<in> vn_kind ` set (pg_verifiers g)) \<and>
    (risk_browser risk \<longrightarrow> Browser \<in> vn_kind ` set (pg_verifiers g)) \<and>
    (risk_performance risk \<longrightarrow> Performance \<in> vn_kind ` set (pg_verifiers g)) \<and>
    (\<forall>n\<in>set (pg_verifiers g). vn_expected n = (if vn_kind n = Reproduce then Failed else Passed))"
proof -
  let ?specs = "specifications (task_kind_of t) risk (changed_files (canonical_diff d))"
  note v = synthesized(1) [OF assms]
  note sh = specifications_shape [OF assms]
  have kinds: "map vn_kind (pg_verifiers g) = map fst ?specs"
    unfolding v by (rule chain_nodes_kinds)
  have kset: "vn_kind ` set (pg_verifiers g) = fst ` set ?specs"
    using kinds by (metis list.set_map)
  have exp: "vn_expected n = (if vn_kind n = Reproduce then Failed else Passed)"
    if "n \<in> set (pg_verifiers g)" for n
  proof -
    have "(vn_kind n, vn_argv n, vn_expected n) \<in> set ?specs"
      using that arg_cong [OF chain_nodes_expected [of 1 None ?specs], of set] by (auto simp: v)
    then show ?thesis by (auto simp: specifications_def split: if_splits)
  qed
  from sh(1,2,4) exp show ?thesis by (auto simp: kset specifications_def)
qed

text \<open>
  The plan is canonical: it does not depend on the order of the claims, nor on the order,
  repetition or capitalisation of the languages, nor on the order or repetition of the changed
  files; the error, if any, is the same too.
\<close>

theorem synthesis_is_canonical:
  assumes "mset (task_claims t') = mset (task_claims t)" and "task_id t' = task_id t"
    and "task_summary t' = task_summary t" and "task_kind_of t' = task_kind_of t"
    and "set (changed_files d') = set (changed_files d)"
    and "set (map lower (diff_languages d')) = set (map lower (diff_languages d))"
  shows "synthesize_proof_graph t' risk d' = synthesize_proof_graph t risk d"
proof -
  have ids: "mset (map (strip \<circ> claim_id) (task_claims t')) = mset (map (strip \<circ> claim_id) (task_claims t))"
    using assms(1) by simp
  have claims: "set (task_claims t') = set (task_claims t)" using assms(1) by (rule mset_eq_setD)
  have diff: "canonical_diff d' = canonical_diff d"
    using assms(5,6) by (auto simp: canonical_diff_def intro!: sorted_distinct_set_unique)
  have task: "canonical_task t' = canonical_task t" if "inj_on claim_id (set (task_claims t))"
  proof -
    have "sort_key claim_id (task_claims t') = sort_key claim_id (task_claims t)"
      using that assms(1) by (intro sort_key_inj_key_eq) (simp_all add: claims)
    then show ?thesis using assms(2-4) by (simp add: canonical_task_def)
  qed
  have len: "length (remdups (map (strip \<circ> claim_id) (task_claims t'))) =
      length (remdups (map (strip \<circ> claim_id) (task_claims t)))"
    "length (task_claims t') = length (task_claims t)"
    using mset_eq_setD [OF ids] mset_eq_length [OF assms(1)] by (simp_all add: length_remdups_card_conv)
  have nil: "(task_claims t' = []) = (task_claims t = [])" "(changed_files d' = []) = (changed_files d = [])"
    using claims assms(5) by (metis set_empty)+
  have inj: "inj_on claim_id (set (task_claims t))"
    if "length (task_claims t) = length (remdups (map (strip \<circ> claim_id) (task_claims t)))"
  proof -
    have "distinct (map (strip \<circ> claim_id) (task_claims t))"
      using that by (metis length_map length_remdups_eq remdups_id_iff_distinct)
    then show ?thesis by (auto simp: distinct_map intro: inj_on_imageI2)
  qed
  have ex: "list_ex (\<lambda>c. strip (claim_statement c) = []) (task_claims t') =
      list_ex (\<lambda>c. strip (claim_statement c) = []) (task_claims t)"
    "([] \<in> set (map (strip \<circ> claim_id) (task_claims t'))) = ([] \<in> set (map (strip \<circ> claim_id) (task_claims t)))"
    using claims by (simp_all add: list_ex_iff)
  show ?thesis
    using task [OF inj] assms(2-4) len nil ex diff by (simp add: synthesize_proof_graph_def Let_def)
qed

text \<open>
  C37: Every synthesized plan can be completed: there are results and evidence, one of each per
  verifier, that the evaluator accepts.
\<close>

theorem synthesized_plan_completable:
  assumes "synthesize_proof_graph t risk d = Inr g"
  shows "\<exists>rs es a. evaluate_proof g rs es = Inr a \<and> pa_complete a \<and>
    length rs = length (pg_verifiers g) \<and> length es = length (pg_verifiers g)"
proof -
  from planned_evaluates [OF assms] obtain a where
    "evaluate_proof g (planned_results g) (planned_evidence g) = Inr a" "pa_complete a" by blast
  moreover have "length (planned_results g) = length (pg_verifiers g)"
    "length (planned_evidence g) = length (pg_verifiers g)"
    by (simp_all add: planned_results_def planned_evidence_def)
  ultimately show ?thesis by blast
qed

text \<open>
  C12: Red before green: when a synthesized plan of a bug fix is assessed complete, some verifier
  result records a failure before the fix and another a pass after it, each cites evidence, the
  cited artifacts have no digest in common, and every claim of the task is named by evidence on
  both sides.
\<close>

theorem complete_bugfix_shows_red_then_green:
  assumes "synthesize_proof_graph t risk d = Inr g" and "task_kind_of t = Bugfix_Task"
    and "evaluate_proof g rs es = Inr a" and "pa_complete a"
  shows "\<exists>n m. n \<in> set (pg_verifiers g) \<and> vn_kind n = Reproduce \<and>
    m \<in> set (pg_verifiers g) \<and> vn_kind m = Targeted_Tests \<and>
    map_option vr_outcome (result_by_id rs (vn_id n)) = Some Failed \<and>
    map_option vr_outcome (result_by_id rs (vn_id m)) = Some Passed \<and>
    cited rs es n \<noteq> [] \<and> cited rs es m \<noteq> [] \<and>
    artifact_digest ` set (cited rs es n) \<inter> artifact_digest ` set (cited rs es m) = {} \<and>
    (\<forall>c\<in>set (task_claims t). (\<exists>e\<in>set (cited rs es n). claim_id c \<in> set (ev_claims e)) \<and>
                            (\<exists>e\<in>set (cited rs es m). claim_id c \<in> set (ev_claims e)))"
proof -
  have c: "complete_proof g rs es"
    using evaluate_proof_complete [OF assms(3)] assms(4) by simp
  then have "bugfix_proved g rs es"
    using assms(2) synthesized(2) [OF assms(1)] by (simp add: complete_proof_def)
  then obtain n m ra rb where n: "first_of_kind g Reproduce = Some n"
    "result_by_id rs (vn_id n) = Some ra" "vr_outcome ra = Failed"
    and m: "first_of_kind g Targeted_Tests = Some m" "result_by_id rs (vn_id m) = Some rb"
    "vr_outcome rb = Passed"
    and disj: "artifact_digest ` set (cited rs es n) \<inter> artifact_digest ` set (cited rs es m) = {}"
    by (auto simp: bugfix_proved_def)
  have nm: "n \<in> set (pg_verifiers g)" "m \<in> set (pg_verifiers g)"
    using n(1) m(1) by (auto dest: first_of_kind_in)
  have "vn_kind n = Reproduce" "vn_kind m = Targeted_Tests"
    using n(1) m(1) by (auto simp: first_of_kind_def find_Some_iff)
  moreover have "cited rs es k \<noteq> []" if "k \<in> set (pg_verifiers g)" for k
    using c that by (auto simp: complete_proof_def node_proved_def cited_def)
  moreover have "\<exists>e\<in>set (cited rs es k). claim_id x \<in> set (ev_claims e)"
    if "k \<in> set (pg_verifiers g)" "x \<in> set (task_claims t)" for k x
    using c that synthesized(3) [OF assms(1)] by (auto simp: complete_proof_def)
  ultimately show ?thesis using n m nm disj by (intro exI [of _ n] exI [of _ m]) auto
qed

end
