(* ===== verification/Json_Canonical.thy ===== *)
theory Json_Canonical
  imports Py_Base "HOL-Library.Multiset"
begin

section \<open>Canonical JSON\<close>

text \<open>
  \<open>json.dumps(value, sort_keys=True)\<close> writes the keys of every object in order; \<open>canon\<close> is the
  document a reader of that text gets back (\<open>json.loads\<close> of the canonical text).  A document of
  Python has distinct keys in every object; the lemmas that need it say so.
\<close>

fun canon :: "json \<Rightarrow> json" where
  "canon (JObj kvs) = JObj (sort_key fst (map (\<lambda>(k, v). (k, canon v)) kvs))"
| "canon (JList xs) = JList (map canon xs)"
| "canon j = j"

lemma canon_obj: "canon (JObj kvs) = JObj (sort_key fst (map_vals canon kvs))"
  by (simp add: map_vals_def)

declare canon.simps(1) [simp del] canon_obj [simp]

lemma map_vals_Cons [simp]: "map_vals f (x # xs) = (fst x, f (snd x)) # map_vals f xs"
  by (simp add: map_vals_def split: prod.splits)

lemma map_vals_Nil [simp]: "map_vals f [] = []"
  by (simp add: map_vals_def)

lemma mset_map_vals: "mset xs = mset ys \<Longrightarrow> mset (map_vals f xs) = mset (map_vals f ys)"
  by (simp add: map_vals_def)

lemma delete_map_vals: "AList.delete k (map_vals f xs) = map_vals f (AList.delete k xs)"
  by (induction xs) auto

lemma insort_map_vals:
  "insort_key fst (k, f v) (map_vals f xs) = map_vals f (insort_key fst (k, v) xs)"
  by (induction xs) auto

lemma sort_map_vals: "sort_key fst (map_vals f xs) = map_vals f (sort_key fst xs)"
  by (induction xs) (auto simp: insort_map_vals split: prod.splits)

lemma sort_key_sorted: "sorted (map f xs) \<Longrightarrow> sort_key f xs = xs"
  by (induction xs) (auto simp: insort_is_Cons)

lemma distinct_keys_sort: "distinct (map fst (sort_key f kvs)) = distinct (map fst kvs)"
  by (rule mset_eq_imp_distinct_iff) simp

lemma canon_jstrs [simp]: "canon (jstrs xs) = jstrs xs"
  by (simp add: jstrs_def comp_def)

lemma canon_canon [simp]: "canon (canon j) = canon j"
proof (induction j rule: canon.induct)
  case (1 kvs)
  have "map_vals canon (map_vals canon kvs) = map_vals canon kvs"
    using 1 by (auto simp: map_vals_def)
  then show ?case by (simp add: sort_map_vals sort_key_sorted flip: sort_map_vals)
qed auto

lemma map_of_sort_key: "distinct (map fst kvs) \<Longrightarrow> map_of (sort_key fst kvs) = map_of kvs"
  by (rule map_of_inject_set [THEN iffD2]) (simp_all add: distinct_keys_sort)

text \<open>Objects that agree up to the order of their keys have the same canonical form.\<close>

lemma sort_key_eq:
  fixes kvs :: "(string \<times> 'a) list"
  assumes "mset kvs = mset kvs'" and "distinct (map fst kvs)"
  shows "sort_key fst kvs = sort_key fst kvs'"
proof (rule sort_key_inj_key_eq)
  show "mset kvs = mset (sort_key fst kvs')" using assms(1) by simp
  show "inj_on fst (set kvs)" using assms(2) by (simp add: distinct_map)
qed simp

lemma canon_obj_perm:
  assumes "mset kvs = mset kvs'" and "distinct (map fst kvs)"
  shows "canon (JObj kvs) = canon (JObj kvs')"
  using sort_key_eq [OF assms] by (simp add: sort_map_vals)

text \<open>Look-up and deletion do not see the order of the keys.\<close>

lemma canon_get:
  assumes "canon (JObj kvs) = JObj kvs'" and "distinct (map fst kvs)"
  shows "map_of kvs' k = map_option canon (map_of kvs k)"
proof -
  have "map_of (sort_key fst (map_vals canon kvs)) = map_of (map_vals canon kvs)"
    using assms(2) by (intro map_of_sort_key) simp
  with assms(1) show ?thesis by (auto simp: map_of_map_vals)
qed

lemma canon_keys: "canon (JObj kvs) = JObj kvs' \<Longrightarrow> fst ` set kvs' = fst ` set kvs"
  by (auto simp: map_vals_def image_iff split: prod.splits) force+

lemma canon_delete:
  assumes "canon (JObj kvs) = JObj kvs'" and "distinct (map fst kvs)"
  shows "canon (JObj (AList.delete k kvs')) = canon (JObj (AList.delete k kvs))"
proof -
  from assms(1) have kvs': "kvs' = sort_key fst (map_vals canon kvs)" by simp
  have "mset (AList.delete k kvs') = mset (AList.delete k (map_vals canon kvs))"
    unfolding kvs' AList.delete_eq by (simp add: mset_filter)
  moreover have "distinct (map fst (AList.delete k kvs'))"
    using assms(2) by (intro distinct_delete) (simp add: kvs' distinct_keys_sort)
  ultimately have "canon (JObj (AList.delete k kvs')) = canon (JObj (AList.delete k (map_vals canon kvs)))"
    by (rule canon_obj_perm)
  also have "\<dots> = canon (canon (JObj (AList.delete k kvs)))"
    by (simp add: delete_map_vals sort_map_vals sort_key_sorted flip: sort_map_vals)
  finally show ?thesis by (simp del: canon_obj)
qed

end
