(* ===== verification/Proof_Receipt.thy ===== *)
theory Proof_Receipt
  imports Proof_Plan Json_Canonical
begin

section \<open>Proof graph: receipts\<close>

text \<open>
  \<open>proof_graph/receipt.py\<close>: a receipt holds the graph, the results, the evidence and the
  assessment as documents, and a SHA-256 of their canonical JSON.  The hash of a canonical
  document is the parameter \<open>sha\<close>; a serialized receipt is the document that \<open>json.loads\<close> reads
  back from it.
\<close>

definition schema_version :: string where
  "schema_version = ''1''"

definition digest :: "(json \<Rightarrow> string) \<Rightarrow> json \<Rightarrow> string" where
  "digest sha j = sha (canon j)"

fun task_kind_value :: "task_kind \<Rightarrow> string" where
  "task_kind_value Bugfix_Task = ''bugfix''"
| "task_kind_value Feature_Task = ''feature''"
| "task_kind_value Refactor_Task = ''refactor''"
| "task_kind_value Maintenance_Task = ''maintenance''"

fun claim_kind_value :: "claim_kind \<Rightarrow> string" where
  "claim_kind_value Bugfix_Claim = ''bugfix''"
| "claim_kind_value Behavior_Claim = ''behavior''"
| "claim_kind_value Regression_Claim = ''regression''"
| "claim_kind_value Security_Claim = ''security''"
| "claim_kind_value Performance_Claim = ''performance''"
| "claim_kind_value Ui_Claim = ''ui''"

fun source_value :: "evidence_source \<Rightarrow> string" where
  "source_value From_Verifier = ''verifier''"
| "source_value From_Agent = ''agent''"

definition graph_payload :: "proof_graph \<Rightarrow> json" where
  "graph_payload g = JObj
     [(''task'', JObj
        [(''task_id'', JStr (task_id (pg_task g))), (''summary'', JStr (task_summary (pg_task g))),
         (''kind'', JStr (task_kind_value (task_kind_of (pg_task g)))),
         (''claims'', JList (map (\<lambda>c. JObj
            [(''claim_id'', JStr (claim_id c)), (''statement'', JStr (claim_statement c)),
             (''kind'', JStr (claim_kind_value (claim_kind_of c)))])
            (sort_key claim_id (graph_claims g))))]),
      (''risk'', JObj
        [(''security'', JBool (risk_security (pg_risk g))),
         (''browser'', JBool (risk_browser (pg_risk g))),
         (''performance'', JBool (risk_performance (pg_risk g)))]),
      (''diff'', JObj
        [(''changed_files'', jstrs (sort (changed_files (pg_diff g)))),
         (''languages'', jstrs (sort (diff_languages (pg_diff g))))]),
      (''verifiers'', JList (map (\<lambda>n. JObj
        [(''verifier_id'', JStr (vn_id n)), (''kind'', JStr (verifier_value (vn_kind n))),
         (''argv'', jstrs (vn_argv n)), (''expected_outcome'', JStr (outcome_value (vn_expected n))),
         (''dependencies'', jstrs (vn_dependencies n))]) (pg_verifiers g)))]"

definition assessment_payload :: "proof_assessment \<Rightarrow> json" where
  "assessment_payload a = JObj
     [(''complete'', JBool (pa_complete a)), (''false_green'', JBool (pa_false_green a)),
      (''reasons'', jstrs (pa_reasons a))]"

definition result_payload :: "verifier_result \<Rightarrow> json" where
  "result_payload r = JObj
     [(''verifier_id'', JStr (vr_id r)), (''outcome'', JStr (outcome_value (vr_outcome r))),
      (''evidence_ids'', jstrs (sort (vr_evidence r)))]"

definition evidence_payload :: "pg_evidence \<Rightarrow> json" where
  "evidence_payload e = JObj
     [(''evidence_id'', JStr (ev_id e)), (''verifier_id'', JStr (ev_verifier e)),
      (''outcome'', JStr (outcome_value (ev_outcome e))),
      (''artifact_digest'', JStr (artifact_digest e)), (''claim_ids'', jstrs (sort (ev_claims e))),
      (''source'', JStr (source_value (ev_source e)))]"

record proof_receipt =
  pr_schema :: string
  pr_graph :: json
  pr_assessment :: json
  pr_results :: "json list"
  pr_evidence :: "json list"
  pr_hash :: string

definition unsigned_fields :: "proof_receipt \<Rightarrow> (string \<times> json) list" where
  "unsigned_fields r =
     [(''schema_version'', JStr (pr_schema r)), (''graph'', pr_graph r),
      (''assessment'', pr_assessment r), (''results'', JList (pr_results r)),
      (''evidence'', JList (pr_evidence r))]"

definition build_receipt :: "(json \<Rightarrow> string) \<Rightarrow> proof_graph \<Rightarrow> proof_assessment
    \<Rightarrow> verifier_result list \<Rightarrow> pg_evidence list \<Rightarrow> proof_receipt" where
  "build_receipt sha g a rs es =
     (let r = \<lparr>pr_schema = schema_version, pr_graph = graph_payload g,
               pr_assessment = assessment_payload a,
               pr_results = map result_payload (sort_key vr_id rs),
               pr_evidence = map evidence_payload (sort_key ev_id es), pr_hash = []\<rparr>
      in r\<lparr>pr_hash := digest sha (JObj (unsigned_fields r))\<rparr>)"

text \<open>The document in the canonical text of the receipt.\<close>

definition receipt_to_json :: "proof_receipt \<Rightarrow> json" where
  "receipt_to_json r = canon (JObj (unsigned_fields r @ [(''receipt_hash'', JStr (pr_hash r))]))"

definition is_obj :: "json option \<Rightarrow> bool" where
  "is_obj j = (case j of Some (JObj _) \<Rightarrow> True | _ \<Rightarrow> False)"

definition is_arr :: "json option \<Rightarrow> bool" where
  "is_arr j = (case j of Some (JList _) \<Rightarrow> True | _ \<Rightarrow> False)"

definition obj_keys :: "json option \<Rightarrow> string set" where
  "obj_keys j = (case j of Some (JObj kvs) \<Rightarrow> fst ` set kvs | _ \<Rightarrow> {})"

definition valid_envelope :: "(string \<times> json) list \<Rightarrow> bool" where
  "valid_envelope kvs \<longleftrightarrow>
     fst ` set kvs = {''schema_version'', ''graph'', ''assessment'', ''results'', ''evidence''} \<and>
     map_of kvs ''schema_version'' = Some (JStr schema_version) \<and>
     is_obj (map_of kvs ''graph'') \<and> is_obj (map_of kvs ''assessment'') \<and>
     is_arr (map_of kvs ''results'') \<and> is_arr (map_of kvs ''evidence'') \<and>
     obj_keys (map_of kvs ''assessment'') = {''complete'', ''false_green'', ''reasons''} \<and>
     is_arr (case map_of kvs ''assessment'' of Some a \<Rightarrow> jfield ''reasons'' a | None \<Rightarrow> None)"

fun verify_receipt :: "(json \<Rightarrow> string) \<Rightarrow> json \<Rightarrow> bool" where
  "verify_receipt sha (JObj kvs) =
     (case map_of kvs ''receipt_hash'' of
        Some (JStr claimed) \<Rightarrow>
          length claimed = 64 \<and> valid_envelope (AList.delete ''receipt_hash'' kvs) \<and>
          digest sha (JObj (AList.delete ''receipt_hash'' kvs)) = claimed
      | _ \<Rightarrow> False)"
| "verify_receipt sha _ = False"

definition str_field :: "string \<Rightarrow> json \<Rightarrow> string" where
  "str_field k j = (case jfield k j of Some (JStr s) \<Rightarrow> s | _ \<Rightarrow> [])"

definition list_field :: "string \<Rightarrow> json \<Rightarrow> json list" where
  "list_field k j = (case jfield k j of Some (JList xs) \<Rightarrow> xs | _ \<Rightarrow> [])"

definition doc_field :: "string \<Rightarrow> json \<Rightarrow> json" where
  "doc_field k j = (case jfield k j of Some x \<Rightarrow> x | None \<Rightarrow> JNull)"

definition receipt_from_json :: "(json \<Rightarrow> string) \<Rightarrow> json \<Rightarrow> (string, proof_receipt) result" where
  "receipt_from_json sha j =
     (if \<not> verify_receipt sha j then Inl ''proof receipt integrity check failed''
      else Inr \<lparr>pr_schema = str_field ''schema_version'' j, pr_graph = doc_field ''graph'' j,
                pr_assessment = doc_field ''assessment'' j, pr_results = list_field ''results'' j,
                pr_evidence = list_field ''evidence'' j, pr_hash = str_field ''receipt_hash'' j\<rparr>)"

subsection \<open>Round trip\<close>

text \<open>The receipt with its documents as a reader of the canonical text gets them.\<close>

definition canon_receipt :: "proof_receipt \<Rightarrow> proof_receipt" where
  "canon_receipt r = r\<lparr>pr_graph := canon (pr_graph r), pr_assessment := canon (pr_assessment r),
     pr_results := map canon (pr_results r), pr_evidence := map canon (pr_evidence r)\<rparr>"

lemma receipt_json:
  obtains kvs where "receipt_to_json r = JObj kvs"
    and "\<And>k. map_of kvs k = map_option canon (map_of (unsigned_fields r @ [(''receipt_hash'', JStr (pr_hash r))]) k)"
    and "canon (JObj (AList.delete ''receipt_hash'' kvs)) = canon (JObj (unsigned_fields r))"
    and "fst ` set kvs = insert ''receipt_hash'' (fst ` set (unsigned_fields r))"
proof -
  let ?doc = "unsigned_fields r @ [(''receipt_hash'', JStr (pr_hash r))]"
  have d: "distinct (map fst ?doc)" by (simp add: unsigned_fields_def)
  obtain kvs where kvs: "canon (JObj ?doc) = JObj kvs" by simp
  have del: "AList.delete ''receipt_hash'' ?doc = unsigned_fields r"
    by (simp add: unsigned_fields_def)
  show ?thesis
  proof (rule that)
    show "receipt_to_json r = JObj kvs" using kvs by (simp only: receipt_to_json_def)
    show "map_of kvs k = map_option canon (map_of ?doc k)" for k by (rule canon_get [OF kvs d])
    show "canon (JObj (AList.delete ''receipt_hash'' kvs)) = canon (JObj (unsigned_fields r))"
      using canon_delete [OF kvs d, of "''receipt_hash''"] by (simp only: del)
    show "fst ` set kvs = insert ''receipt_hash'' (fst ` set (unsigned_fields r))"
      using canon_keys [OF kvs] by simp
  qed
qed

lemma delete_get: "map_of (AList.delete k kvs) k' = (if k' = k then None else map_of kvs k')"
  by (rule dict_get_pop)

lemma keys_delete: "fst ` set (AList.delete k d) = fst ` set d - {k}"
  by (induction d) auto

lemma built_receipt_verifies:
  assumes "\<And>j. length (sha j) = 64" and r: "r = build_receipt sha g a rs es"
  shows "verify_receipt sha (receipt_to_json r)"
proof -
  obtain kvs where kvs: "receipt_to_json r = JObj kvs"
    and get: "\<And>k. map_of kvs k = map_option canon (map_of (unsigned_fields r @ [(''receipt_hash'', JStr (pr_hash r))]) k)"
    and del: "canon (JObj (AList.delete ''receipt_hash'' kvs)) = canon (JObj (unsigned_fields r))"
    and keys: "fst ` set kvs = insert ''receipt_hash'' (fst ` set (unsigned_fields r))"
    by (rule receipt_json [of r], rule that)
  define r0 where "r0 = \<lparr>pr_schema = schema_version, pr_graph = graph_payload g,
    pr_assessment = assessment_payload a, pr_results = map result_payload (sort_key vr_id rs),
    pr_evidence = map evidence_payload (sort_key ev_id es), pr_hash = []\<rparr>"
  have r0: "r = r0\<lparr>pr_hash := digest sha (JObj (unsigned_fields r0))\<rparr>"
    by (simp add: r build_receipt_def r0_def)
  then have hash: "pr_hash r = sha (canon (JObj (unsigned_fields r)))"
    by (simp add: unsigned_fields_def digest_def del: canon_obj)
  have kset: "fst ` set (AList.delete ''receipt_hash'' kvs) =
      {''schema_version'', ''graph'', ''assessment'', ''results'', ''evidence''}"
    using keys by (simp add: keys_delete unsigned_fields_def)
  have obj: "obj_keys (Some (canon (assessment_payload a))) = {''complete'', ''false_green'', ''reasons''}"
    by (simp add: assessment_payload_def obj_keys_def image_image map_vals_def)
  have arr: "is_arr (jfield ''reasons'' (canon (assessment_payload a)))"
    using canon_get [of "[(''complete'', JBool (pa_complete a)), (''false_green'', JBool (pa_false_green a)),
      (''reasons'', jstrs (pa_reasons a))]" _ "''reasons''"]
    by (simp add: assessment_payload_def is_arr_def jstrs_def)
  have "valid_envelope (AList.delete ''receipt_hash'' kvs)"
    using kset obj arr
    by (simp add: valid_envelope_def delete_get get unsigned_fields_def r build_receipt_def Let_def
        is_obj_def is_arr_def graph_payload_def assessment_payload_def del: canon_obj)
      (simp add: assessment_payload_def is_arr_def)
  with get [of "''receipt_hash''"] hash del assms(1) show ?thesis
    by (simp add: kvs digest_def unsigned_fields_def del: canon_obj)
qed

subsection \<open>Properties\<close>

text \<open>
  C38: Receipts survive serialization: reading back the canonical text of a receipt that was built
  from an assessment gives that receipt (its documents in canonical form), and writing it again
  gives the same text.
\<close>

theorem receipt_round_trip:
  assumes "\<And>j. length (sha j) = 64"
  shows "receipt_from_json sha (receipt_to_json (build_receipt sha g a rs es)) =
           Inr (canon_receipt (build_receipt sha g a rs es)) \<and>
         receipt_to_json (canon_receipt (build_receipt sha g a rs es)) =
           receipt_to_json (build_receipt sha g a rs es)"
proof -
  define r where "r = build_receipt sha g a rs es"
  have v: "verify_receipt sha (receipt_to_json r)"
    using built_receipt_verifies [OF assms r_def] .
  obtain kvs where kvs: "receipt_to_json r = JObj kvs"
    and get: "\<And>k. map_of kvs k = map_option canon (map_of (unsigned_fields r @ [(''receipt_hash'', JStr (pr_hash r))]) k)"
    by (rule receipt_json [of r], rule that)
  have "receipt_from_json sha (receipt_to_json r) = Inr (canon_receipt r)"
    using v by (simp add: receipt_from_json_def kvs str_field_def doc_field_def list_field_def get
        unsigned_fields_def canon_receipt_def)
  moreover have "receipt_to_json (canon_receipt r) = receipt_to_json r"
  proof -
    have "map_vals canon (unsigned_fields (canon_receipt r) @ [(''receipt_hash'', JStr (pr_hash (canon_receipt r)))]) =
        map_vals canon (unsigned_fields r @ [(''receipt_hash'', JStr (pr_hash r))])"
      by (simp add: unsigned_fields_def canon_receipt_def)
    then show ?thesis by (simp only: receipt_to_json_def canon_obj)
  qed
  ultimately show ?thesis by (simp add: r_def)
qed

text \<open>
  A receipt does not depend on the order in which the results and the evidence were
  collected.
\<close>

theorem receipt_order_independent:
  assumes "mset rs = mset rs'" and "mset es = mset es'"
    and "distinct (map vr_id rs)" and "distinct (map ev_id es)"
  shows "build_receipt sha g a rs es = build_receipt sha g a rs' es'"
proof -
  have "sort_key vr_id rs = sort_key vr_id rs'"
    by (rule sort_key_inj_key_eq) (use assms(1,3) in \<open>simp_all add: distinct_map\<close>)
  moreover have "sort_key ev_id es = sort_key ev_id es'"
    by (rule sort_key_inj_key_eq) (use assms(2,4) in \<open>simp_all add: distinct_map\<close>)
  ultimately show ?thesis by (simp add: build_receipt_def)
qed

text \<open>
  Tamper evidence: two receipts that both verify and carry the same hash have the same
  content, provided the hash does not collide on the two.
\<close>

theorem receipt_hash_fixes_content:
  assumes "verify_receipt sha (JObj kvs)" and "verify_receipt sha (JObj kvs')"
    and "map_of kvs ''receipt_hash'' = map_of kvs' ''receipt_hash''"
    and "inj_on sha {canon (JObj (AList.delete ''receipt_hash'' kvs)),
                     canon (JObj (AList.delete ''receipt_hash'' kvs'))}"
  shows "canon (JObj (AList.delete ''receipt_hash'' kvs)) =
         canon (JObj (AList.delete ''receipt_hash'' kvs'))"
proof -
  from assms(1-3) have "sha (canon (JObj (AList.delete ''receipt_hash'' kvs))) =
      sha (canon (JObj (AList.delete ''receipt_hash'' kvs')))"
    by (auto simp: digest_def split: option.splits json.splits simp del: canon_obj)
  with assms(4) show ?thesis by (auto dest: inj_onD simp del: canon_obj)
qed

end
