(* ===== verification/Proof_Witnesses.thy ===== *)
theory Proof_Witnesses
  imports Proof_Receipt
begin

section \<open>Proof graph: the properties at a concrete bug fix\<close>

text \<open>A bug fix with one claim and one changed test, its plan, and results that complete it.\<close>

definition sample_task :: task_metadata where
  "sample_task = \<lparr>task_id = ''t1'', task_summary = ''fix the parser'', task_kind_of = Bugfix_Task,
     task_claims = [\<lparr>claim_id = ''c1'', claim_statement = ''parses'', claim_kind_of = Bugfix_Claim\<rparr>,
                    \<lparr>claim_id = ''c0'', claim_statement = ''no crash'', claim_kind_of = Behavior_Claim\<rparr>]\<rparr>"

definition sample_risk :: risk_metadata where
  "sample_risk = \<lparr>risk_security = True, risk_browser = False, risk_performance = False\<rparr>"

definition sample_diff :: diff_metadata where
  "sample_diff = \<lparr>changed_files = [''tests/test_a.py''], diff_languages = [''Python'']\<rparr>"

definition sample_graph :: proof_graph where
  "sample_graph = projr (synthesize_proof_graph sample_task sample_risk sample_diff)"

definition sample_sha :: "json \<Rightarrow> string" where
  "sample_sha j = replicate 64 (CHR ''a'')"

lemma sample_synthesized:
  "synthesize_proof_graph sample_task sample_risk sample_diff = Inr sample_graph"
proof -
  have "\<not> isl (synthesize_proof_graph sample_task sample_risk sample_diff)" by code_simp
  then show ?thesis by (cases "synthesize_proof_graph sample_task sample_risk sample_diff")
      (simp_all add: sample_graph_def)
qed

lemma synthesized_plan_well_formed_witness:
  "map vn_kind (pg_verifiers sample_graph) =
     [Reproduce, Targeted_Tests, Regression, Static_Analysis, Type_Check, Lint, Security] \<and>
   deps_ordered {} (pg_verifiers sample_graph)"
proof
  show "map vn_kind (pg_verifiers sample_graph) =
     [Reproduce, Targeted_Tests, Regression, Static_Analysis, Type_Check, Lint, Security]"
    by code_simp
  show "deps_ordered {} (pg_verifiers sample_graph)"
    using synthesized_plan_well_formed [OF sample_synthesized] by blast
qed

lemma synthesis_is_canonical_witness:
  "synthesize_proof_graph (sample_task\<lparr>task_claims := rev (task_claims sample_task)\<rparr>) sample_risk
     (sample_diff\<lparr>diff_languages := [''PYTHON'', ''python'']\<rparr>) = Inr sample_graph"
proof -
  have "set (map lower [''PYTHON'', ''python'']) = set (map lower [''Python''])" by code_simp
  then have "synthesize_proof_graph (sample_task\<lparr>task_claims := rev (task_claims sample_task)\<rparr>) sample_risk
     (sample_diff\<lparr>diff_languages := [''PYTHON'', ''python'']\<rparr>) =
      synthesize_proof_graph sample_task sample_risk sample_diff"
    by (intro synthesis_is_canonical) (simp_all add: sample_diff_def)
  then show ?thesis by (simp add: sample_synthesized)
qed

lemma synthesized_plan_completable_witness:
  "\<exists>rs es a. evaluate_proof sample_graph rs es = Inr a \<and> pa_complete a \<and> length rs = 7"
proof -
  have "length (pg_verifiers sample_graph) = 7" by code_simp
  with synthesized_plan_completable [OF sample_synthesized] show ?thesis by auto
qed

lemma complete_bugfix_shows_red_then_green_witness:
  "\<exists>(n :: verifier_node) (m :: verifier_node). vn_kind n = Reproduce \<and> vn_kind m = Targeted_Tests \<and>
     map_option vr_outcome (result_by_id (planned_results sample_graph) (vn_id n)) = Some Failed \<and>
     map_option vr_outcome (result_by_id (planned_results sample_graph) (vn_id m)) = Some Passed"
proof -
  from planned_evaluates [OF sample_synthesized] obtain a where
    a: "evaluate_proof sample_graph (planned_results sample_graph) (planned_evidence sample_graph) = Inr a"
    "pa_complete a" by blast
  have "task_kind_of sample_task = Bugfix_Task" by (simp add: sample_task_def)
  from complete_bugfix_shows_red_then_green [OF sample_synthesized this a] show ?thesis by fast
qed

definition sample_receipt :: proof_receipt where
  "sample_receipt = build_receipt sample_sha sample_graph
     \<lparr>pa_complete = True, pa_false_green = False, pa_reasons = []\<rparr>
     (planned_results sample_graph) (planned_evidence sample_graph)"

lemma sample_sha_length: "length (sample_sha j) = 64"
  by (simp add: sample_sha_def)

lemma receipt_round_trip_witness:
  "receipt_from_json sample_sha (receipt_to_json sample_receipt) = Inr (canon_receipt sample_receipt)"
  unfolding sample_receipt_def
  by (rule conjunct1 [OF receipt_round_trip [where sha = sample_sha, OF sample_sha_length]])

lemma receipt_order_independent_witness:
  "build_receipt sample_sha sample_graph \<lparr>pa_complete = True, pa_false_green = False, pa_reasons = []\<rparr>
     (rev (planned_results sample_graph)) (rev (planned_evidence sample_graph)) = sample_receipt"
  unfolding sample_receipt_def
proof (rule receipt_order_independent)
  show "distinct (map vr_id (rev (planned_results sample_graph)))"
    "distinct (map ev_id (rev (planned_evidence sample_graph)))"
    using specifications_shape(1) [OF sample_synthesized]
    by (simp_all add: planned_results_def planned_evidence_def planned_item_def comp_def flip: rev_map)
qed simp_all

lemma receipt_hash_fixes_content_witness:
  "\<exists>kvs. receipt_to_json sample_receipt = JObj kvs \<and> verify_receipt sample_sha (JObj kvs) \<and>
     canon (JObj (AList.delete ''receipt_hash'' kvs)) = canon (JObj (AList.delete ''receipt_hash'' kvs))"
proof -
  obtain kvs where kvs: "receipt_to_json sample_receipt = JObj kvs"
    by (rule receipt_json [of sample_receipt], rule that)
  have v: "verify_receipt sample_sha (JObj kvs)"
    using built_receipt_verifies [OF sample_sha_length sample_receipt_def] kvs by simp
  from receipt_hash_fixes_content [OF v v refl] v kvs show ?thesis by blast
qed

end
