(* ===== verification/Working_Engine.thy ===== *)
theory Working_Engine
  imports Working_Model
begin

section \<open>Working context: freshness, selection and rendering\<close>

text \<open>
  \<open>WorkingContext\<close> of \<open>working_context/engine.py\<close>.  \<open>_compile\<close> is split the way its text is: the
  scan of the candidate memories (\<open>scan_memory\<close>), the edges between them (\<open>apply_edge\<close>), the
  withdrawals, and the renderer, whose inner \<open>append\<close> adds a block only while it fits.
\<close>

subsection \<open>Freshness\<close>

fun source_fresh_loop :: "world \<Rightarrow> instant \<Rightarrow> string list \<Rightarrow> (string \<times> instant option) list
    \<Rightarrow> (string \<times> instant option) list \<times> bool" where
  "source_fresh_loop w updated [] versions = (versions, True)"
| "source_fresh_loop w updated (p # ps) versions =
     (case map_of versions p of
        Some v \<Rightarrow> (case v of
            None \<Rightarrow> (versions, False)
          | Some t \<Rightarrow> if updated < t then (versions, False) else source_fresh_loop w updated ps versions)
      | None \<Rightarrow>
        (let pending = AList.update p None versions in
         if w_late w p then (pending, False)
         else (case w_git w p of
             Probe (Some head) (Some working) (Some committed) \<Rightarrow>
               if strip head \<noteq> strip working \<or> strip committed = [] then (pending, False)
               else (case w_iso w (strip committed) of
                   None \<Rightarrow> (pending, False)
                 | Some t \<Rightarrow> (let known = AList.update p (Some t) versions in
                     if updated < t then (known, False) else source_fresh_loop w updated ps known))
           | _ \<Rightarrow> (pending, False))))"

text \<open>What \<open>_freshness\<close> leaves: the bindings, the hash cache, the versions, and its answer.\<close>

type_synonym fresh_state =
  "(string \<times> anchor_binding) list \<times> (string \<times> string) list \<times> (string \<times> instant option) list"

definition stale_label :: "memory_entry \<Rightarrow> bool" where
  "stale_label m \<longleftrightarrow> me_staleness m \<in> set [''stale'', ''orphaned'']"

definition bound_freshness :: "world \<Rightarrow> memory_entry \<Rightarrow> string list \<Rightarrow> (string \<times> string) list
    \<Rightarrow> anchor_binding option \<Rightarrow> fresh_state \<Rightarrow> fresh_state \<times> string \<times> string option" where
  "bound_freshness w m paths hashes explicit = (\<lambda>(bindings, cache, versions).
     let dg = w_memory_digest w m in
     if (case explicit of None \<Rightarrow> False | Some b \<Rightarrow> ab_digest b = dg \<and> dict_eq (ab_files b) hashes)
     then ((AList.update (me_id m) (the explicit) bindings, cache, versions), ''acknowledged'', None)
     else if (case map_of bindings (me_id m) of None \<Rightarrow> False | Some b \<Rightarrow> ab_digest b = dg)
     then (if \<not> dict_eq (ab_files (the (map_of bindings (me_id m)))) hashes
           then ((bindings, cache, versions), ''changed'', Some ''source_changed'')
           else ((bindings, cache, versions), ''unchanged'', None))
     else if stale_label m then ((bindings, cache, versions), ''unknown'', Some ''marked_stale'')
     else (case source_fresh_loop w (me_updated_at m) paths versions of (versions', ok) \<Rightarrow>
       if \<not> ok then ((bindings, cache, versions'), ''unknown'', Some ''source_unverified'')
       else ((AList.update (me_id m) \<lparr>ab_digest = dg, ab_files = hashes\<rparr> bindings, cache, versions'),
             ''unchanged'', None)))"

definition freshness :: "world \<Rightarrow> working_db \<Rightarrow> memory_entry \<Rightarrow> fresh_state
    \<Rightarrow> (wc_error, fresh_state \<times> string \<times> string option) result" where
  "freshness w db m = (\<lambda>(bindings, cache, versions).
     case anchor_paths w (me_source_ref m) of
       Inl e \<Rightarrow> Inr ((bindings, cache, versions), ''unknown'', Some (''source_unavailable: '' @ error_text e))
     | Inr [] \<Rightarrow> if stale_label m then Inr ((bindings, cache, versions), ''unknown'', Some ''marked_stale'')
                 else Inr ((bindings, cache, versions), ''unanchored'', None)
     | Inr paths \<Rightarrow>
       (case hash_files_cached w paths cache of
          (cache', Inl e) \<Rightarrow>
            Inr ((bindings, cache', versions), ''unknown'', Some (''source_unavailable: '' @ error_text e))
        | (cache', Inr hashes) \<Rightarrow>
            rbind (read_anchor w db (me_id m)) (\<lambda>explicit.
              Inr (bound_freshness w m paths hashes explicit (bindings, cache', versions)))))"

subsection \<open>Candidates\<close>

text \<open>\<open>setdefault\<close> on the dictionary of found memories.\<close>

definition add_found :: "memory_entry \<Rightarrow> memory_entry list \<Rightarrow> memory_entry list" where
  "add_found m found = (if me_id m \<in> me_id ` set found then found else found @ [m])"

fun drop_root :: "string list \<Rightarrow> string list \<Rightarrow> string list option" where
  "drop_root [] ps = Some ps"
| "drop_root (r # rs) (p # ps) = (if r = p then drop_root rs ps else None)"
| "drop_root (r # rs) [] = None"

text \<open>The lexical form of a path: no empty and no \<open>.\<close> components.\<close>

definition path_parts :: "string \<Rightarrow> string list" where
  "path_parts p = filter (\<lambda>c. c \<noteq> [] \<and> c \<noteq> ''.'') (split_on (CHR ''/'') p)"

definition source_is_active :: "string \<Rightarrow> string list \<Rightarrow> string \<Rightarrow> bool" where
  "source_is_active repo active ref = (case file_references ref of
     Inl _ \<Rightarrow> False
   | Inr refs \<Rightarrow> list_ex (\<lambda>r.
       case (if starts_with r ''/'' then drop_root (path_parts repo) (path_parts r) else Some (path_parts r)) of
         None \<Rightarrow> False
       | Some ps \<Rightarrow> (if ps = [] then ''.'' else join ''/'' ps) \<in> set active) refs)"

definition base_name :: "string \<Rightarrow> string" where
  "base_name p = (case path_parts p of [] \<Rightarrow> [] | ps \<Rightarrow> last ps)"

text \<open>The SQL query for memories anchored at an active file.\<close>

definition anchored_memories :: "string \<Rightarrow> working_db \<Rightarrow> string list \<Rightarrow> memory_entry list" where
  "anchored_memories repo db active =
     take 40 (sort_key (\<lambda>m. (- me_updated_at m, me_id m)) (filter (\<lambda>m.
       list_ex (\<lambda>p. contains (me_source_ref m) (base_name p)) active
       \<and> source_is_active repo active (me_source_ref m)) (db_memories db)))"

definition find_candidates :: "world \<Rightarrow> string \<Rightarrow> working_db \<Rightarrow> working_session \<Rightarrow> memory_entry list" where
  "find_candidates w repo db s =
     (let anchored = (if ws_active s = [] then [] else anchored_memories repo db (ws_active s));
          found = fold add_found anchored [];
          found = fold (\<lambda>q fs. if q = [] then fs else fold add_found (w_search w (take 4000 q)) fs)
                    [join '' '' (ws_active s), ws_focus s, ws_goal s] found;
          found = fold (\<lambda>mid fs. case get_memory db mid of None \<Rightarrow> fs | Some m \<Rightarrow> add_found m fs)
                    (ws_selected s) found
      in take max_candidates found)"

subsection \<open>The scan of the candidates\<close>

record scan =
  sc_bindings :: "(string \<times> anchor_binding) list"
  sc_cache :: "(string \<times> string) list"
  sc_versions :: "(string \<times> instant option) list"
  sc_excluded :: "(string \<times> string) list"
  sc_items :: "(string \<times> context_item) list"

definition exclude :: "string \<Rightarrow> string \<Rightarrow> scan \<Rightarrow> scan" where
  "exclude mid reason sc = sc\<lparr>sc_excluded := AList.update mid reason (sc_excluded sc)\<rparr>"

definition set_fresh :: "fresh_state \<Rightarrow> scan \<Rightarrow> scan" where
  "set_fresh fs sc = (case fs of (b, c, v) \<Rightarrow> sc\<lparr>sc_bindings := b, sc_cache := c, sc_versions := v\<rparr>)"

definition relevance :: "world \<Rightarrow> string list \<Rightarrow> string list \<Rightarrow> memory_entry \<Rightarrow> nat \<times> bool" where
  "relevance w tokens active m =
     (card (set tokens \<inter> set (tokenize (join '' '' ([me_title m, me_summary m, me_source_ref m] @ me_tags m)))),
      (case anchor_paths w (me_source_ref m) of Inl _ \<Rightarrow> False | Inr ps \<Rightarrow> set active \<inter> set ps \<noteq> {}))"

definition memory_item :: "memory_entry \<Rightarrow> string \<Rightarrow> nat \<times> bool \<Rightarrow> context_item" where
  "memory_item m fresh = (\<lambda>(overlap, file_match).
     \<lparr>ci_id = me_id m, ci_kind = me_kind m, ci_text = me_title m @ '': '' @ me_summary m,
      ci_source = me_source_ref m, ci_freshness = fresh,
      ci_score = of_nat overlap * 3 + (if file_match then 8 else 0) + me_confidence m,
      ci_reason = (if file_match then ''active_file'' else ''task_overlap'')\<rparr>)"

definition scan_memory :: "world \<Rightarrow> working_db \<Rightarrow> string list \<Rightarrow> string list \<Rightarrow> memory_entry \<Rightarrow> scan
    \<Rightarrow> (wc_error, scan) result" where
  "scan_memory w db tokens active m sc =
     (if me_quarantined m \<or> starts_with (me_source_ref m) ''unpromoted:''
      then Inr (exclude (me_id m) ''quarantined'' sc)
      else if me_confidence m \<le> 0 \<or> me_feedback m \<le> - 1 / 2
      then Inr (exclude (me_id m) ''rejected'' sc)
      else rbind (freshness w db m (sc_bindings sc, sc_cache sc, sc_versions sc))
        (\<lambda>(fs, fresh, rejected).
          let sc' = set_fresh fs sc; rel = relevance w tokens active m in
          case rejected of
            Some why \<Rightarrow> Inr (exclude (me_id m) why sc')
          | None \<Rightarrow>
              if fst rel = 0 \<and> \<not> snd rel then Inr (exclude (me_id m) ''irrelevant'' sc')
              else Inr (sc'\<lparr>sc_items := AList.update (me_id m) (memory_item m fresh rel) (sc_items sc')\<rparr>)))"

subsection \<open>Edges and withdrawals\<close>

definition relevant_edges :: "working_db \<Rightarrow> string list \<Rightarrow> (string \<times> string \<times> string) list" where
  "relevant_edges db ids = sort (remdups (map (\<lambda>(l, r, t, c). (l, r, t)) (filter (\<lambda>(l, r, t, c).
     8 / 10 \<le> c \<and> t \<in> set [''supersedes'', ''contradicts''] \<and> l \<in> set ids \<and> r \<in> set ids) (db_edges db))))"

definition apply_edge :: "string \<times> string \<times> string \<Rightarrow> (string \<times> string) list \<Rightarrow> (string \<times> string) list" where
  "apply_edge = (\<lambda>(l, r, t) ex.
     if t = ''supersedes'' then AList.update r (''superseded_by:'' @ l) ex
     else if t = ''contradicts''
       then AList.update r (''conflicts_with:'' @ l) (AList.update l (''conflicts_with:'' @ r) ex)
     else ex)"

definition new_withdrawals :: "bool \<Rightarrow> (string \<times> string) list \<Rightarrow> (string \<times> context_item) list
    \<Rightarrow> string list \<Rightarrow> (string \<times> string) list \<Rightarrow> (string \<times> string) list" where
  "new_withdrawals learning excluded items selected wds =
     (let added = fold (\<lambda>mid d. if mid \<in> fst ` set items then d
            else AList.update mid (case map_of excluded mid of Some r \<Rightarrow> r
               | None \<Rightarrow> if learning then ''no_longer_retrieved'' else ''learning_disabled'') d) selected wds;
          kept = filter (\<lambda>(k, r). k \<notin> fst ` set items) added
      in drop (length kept - max_candidates) kept)"

subsection \<open>Rendering\<close>

text \<open>\<open>append\<close>: add a block when it fits under the limit.\<close>

definition fits :: "int \<Rightarrow> string \<Rightarrow> string \<Rightarrow> bool" where
  "fits limit md block \<longleftrightarrow> int (length md) + int (length block) \<le> limit"

definition add_block :: "int \<Rightarrow> string \<Rightarrow> string \<Rightarrow> string" where
  "add_block limit block md = (if fits limit md block then md @ block else md)"

definition withdrawal_blocks :: "(string \<times> string) list \<Rightarrow> string list" where
  "withdrawal_blocks wds = (if wds = [] then [] else
     (nl @ ''### Withdrawn evidence'' @ nl @ ''Use only this packet's memory as current evidence.'' @ nl)
     # map (\<lambda>(k, r). ''- '' @ k @ '': '' @ r @ nl) wds)"

definition early_warnings :: "bool \<Rightarrow> working_session \<Rightarrow> (string \<times> string) list \<Rightarrow> string list" where
  "early_warnings learning s excluded =
     (if ws_withdrawals s \<noteq> [] then [''Previously supplied memories withdrawn; recheck their sources.''] else [])
   @ (if \<not> learning then [''Learning disabled: no durable memory included.''] else [])
   @ (if list_ex (\<lambda>(k, r). starts_with r ''source_'') excluded
      then [''Re-read changed or unverified sources before relying on excluded memory.''] else [])
   @ (if list_ex (\<lambda>(k, r). starts_with r ''conflicts_with:'') excluded
      then [''Resolve recorded memory conflicts before relying on either claim.''] else [])
   @ (if ws_pruned s \<noteq> 0
      then [show_int (ws_pruned s) @ '' older working notes retired from bounded session state.''] else [])"

definition note_status :: "world \<Rightarrow> working_note \<Rightarrow> (string \<times> string) list
    \<Rightarrow> (string \<times> string) list \<times> string" where
  "note_status w n cache =
     (if wn_anchors n = [] then (cache, [])
      else case hash_files_cached w (map fst (wn_anchors n)) cache of
             (cache', Inl _) \<Rightarrow> (cache', ''SOURCE UNVERIFIED'')
           | (cache', Inr hs) \<Rightarrow> (cache', if dict_eq hs (wn_anchors n) then [] else ''SOURCE CHANGED''))"

definition note_block :: "working_note \<Rightarrow> string \<Rightarrow> string" where
  "note_block n status =
     (if status \<noteq> []
      then nl @ ''Working '' @ note_kind_value (wn_kind n) @ '' '' @ wn_id n @ '': '' @ status
           @ ''; recheck before use.'' @ nl
      else nl @ ''Working '' @ (if wn_kind n = Hypothesis then ''unverified hypothesis''
             else ''recorded '' @ note_kind_value (wn_kind n)) @ '' ['' @ wn_id n @ '']: '' @ wn_text n @ nl)"

text \<open>The notes loop: the text, the warnings, the number of notes dropped and the cache.\<close>

type_synonym note_state = "string \<times> string list \<times> nat \<times> (string \<times> string) list"

definition render_note :: "world \<Rightarrow> int \<Rightarrow> working_note \<Rightarrow> note_state \<Rightarrow> note_state" where
  "render_note w limit n = (\<lambda>(md, warn, dropped, cache).
     case note_status w n cache of (cache', status) \<Rightarrow>
       (add_block limit (note_block n status) md,
        (if status \<noteq> [] then warn @ [''Note '' @ wn_id n @ '': '' @ lower status
            @ ''; statement requires rechecking.''] else warn),
        (if fits limit md (note_block n status) then dropped else dropped + 1), cache'))"

definition words :: "string \<Rightarrow> string list" where
  "words s = runs (\<lambda>c. \<not> py_space c) s"

definition item_block :: "context_item \<Rightarrow> string" where
  "item_block i = nl @ ''Memory ['' @ ci_id i @ ''] ('' @ ci_kind i @ '', '' @ ci_freshness i @ ''; ''
     @ ci_source i @ ''):'' @ nl @ ci_text i @ nl"

text \<open>The items loop: the text, the selection, the texts seen and the exclusions.\<close>

type_synonym item_state = "string \<times> context_item list \<times> string list \<times> (string \<times> string) list"

definition render_item :: "int \<Rightarrow> context_item \<Rightarrow> item_state \<Rightarrow> item_state" where
  "render_item limit i = (\<lambda>(md, sel, seen, ex).
     let normal = join '' '' (words (lower (ci_text i))) in
     if normal \<in> set seen then (md, sel, seen, AList.update (ci_id i) ''duplicate'' ex)
     else if fits limit md (item_block i) then (md @ item_block i, sel @ [i], normal # seen, ex)
     else (md, sel, seen, AList.update (ci_id i) ''budget'' ex))"

definition footer :: "nat \<Rightarrow> nat \<Rightarrow> nat \<Rightarrow> string" where
  "footer sel ex warn = nl @ ''Packet: '' @ show_nat sel @ '' memories; '' @ show_nat ex @ '' excluded; ''
     @ show_nat warn @ '' notices. Full reasons: onmc working context --session '' @ ''<session-id> --json.'' @ nl"

record rendered =
  rd_markdown :: string
  rd_selected :: "context_item list"
  rd_excluded :: "(string \<times> string) list"
  rd_warnings :: "string list"

definition focus_block :: "working_session \<Rightarrow> string option" where
  "focus_block s = (if ws_focus s \<noteq> [] \<and> ws_focus s \<noteq> ws_goal s
     then Some (nl @ ''Current focus: '' @ ws_focus s @ nl) else None)"

definition render :: "world \<Rightarrow> int \<Rightarrow> working_session \<Rightarrow> (string \<times> string) list
    \<Rightarrow> (string \<times> string) list \<Rightarrow> (string \<times> context_item) list \<Rightarrow> rendered" where
  "render w budget s cache excluded items =
     (let limit = budget - 220;
          md = fold (add_block limit) (withdrawal_blocks (ws_withdrawals s)) (mandatory s);
          warn = early_warnings (w_learning w) s excluded;
          (md, warn, dropped, cache) =
            fold (render_note w limit) (sort_key (\<lambda>n. wn_kind n \<noteq> Next_Step) (ws_notes s)) (md, warn, 0, cache);
          focus = focus_block s;
          warn = (if focus \<noteq> None \<and> \<not> fits limit md (the focus)
                  then warn @ [''Current focus omitted to preserve pinned constraints.''] else warn);
          md = (case focus of None \<Rightarrow> md | Some b \<Rightarrow> add_block limit b md);
          md = (if ws_active s = [] then md
                else add_block limit (nl @ ''Active files: '' @ join '', '' (ws_active s) @ nl) md);
          (md, sel, seen, excluded) =
            fold (render_item limit) (sort_key (\<lambda>i. (- ci_score i, ci_id i)) (map snd items))
              (md, [], [], excluded);
          warn = (if dropped \<noteq> 0 then warn @ [show_nat dropped @ '' working notes omitted by budget.''] else warn);
          md = fold (add_block limit) (map (\<lambda>t. nl @ ''Notice: '' @ t @ nl) warn) md
      in \<lparr>rd_markdown = md @ footer (length sel) (length excluded) (length warn),
          rd_selected = sel, rd_excluded = excluded, rd_warnings = warn\<rparr>)"

definition utf8_length :: "string \<Rightarrow> nat" where
  "utf8_length s = sum_list (map (\<lambda>c. if of_char c < (128 :: nat) then 1 else 2) s)"

text \<open>The bound on the stored bindings.\<close>

definition trim_bindings :: "string list \<Rightarrow> (string \<times> anchor_binding) list \<Rightarrow> (string \<times> anchor_binding) list"
  where
  "trim_bindings keep bs =
     (if length bs \<le> 240 then bs
      else fold AList.delete (take (length bs - 240) (filter (\<lambda>k. k \<notin> set keep) (map fst bs))) bs)"

subsection \<open>Compilation\<close>

definition compile :: "world \<Rightarrow> string \<Rightarrow> working_db \<Rightarrow> working_session \<Rightarrow> int \<Rightarrow> bool
    \<Rightarrow> (wc_error, working_session \<times> context_packet) result" where
  "compile w repo db s budget force =
     (let tokens = tokenize (join '' '' ([ws_goal s, ws_focus s] @ ws_active s));
          memories = (if w_learning w then find_candidates w repo db s else [])
      in rbind (rfold (scan_memory w db tokens (ws_active s)) memories
            \<lparr>sc_bindings = ws_bindings s, sc_cache = [], sc_versions = [], sc_excluded = [], sc_items = []\<rparr>)
        (\<lambda>sc.
          let excluded = fold apply_edge (relevant_edges db (map fst (sc_items sc))) (sc_excluded sc);
              items = filter (\<lambda>(k, i). k \<notin> fst ` set excluded) (sc_items sc);
              s = s\<lparr>ws_bindings := sc_bindings sc,
                    ws_withdrawals := new_withdrawals (w_learning w) excluded items (ws_selected s) (ws_withdrawals s)\<rparr>;
              out = render w budget s (sc_cache sc) excluded items
          in if budget < int (length (rd_markdown out)) then Inl (Value_Err ''Context renderer exceeded budget'')
             else
               let fp = w_sha w (rd_markdown out);
                   changed = (fp \<noteq> ws_fingerprint s);
                   chosen = map ci_id (rd_selected out);
                   s = s\<lparr>ws_revision := ws_revision s + (if changed then 1 else 0),
                         ws_fingerprint := fp, ws_selected := chosen,
                         ws_bindings := trim_bindings (chosen @ map fst (ws_withdrawals s)) (ws_bindings s)\<rparr>
               in Inr (s, \<lparr>cp_session = ws_id s, cp_revision = ws_revision s, cp_markdown = rd_markdown out,
                     cp_injection = (if changed \<or> force then rd_markdown out else []), cp_changed = changed,
                     cp_budget = budget, cp_used = int (length (rd_markdown out)),
                     cp_tokens = \<lceil>of_nat (utf8_length (rd_markdown out)) / (4 :: rat)\<rceil>,
                     cp_selected = rd_selected out, cp_excluded = sort_key fst (rd_excluded out),
                     cp_withdrawn = map fst (ws_withdrawals s), cp_warnings = rd_warnings out\<rparr>)))"

subsection \<open>Operations\<close>

definition require_session :: "world \<Rightarrow> working_db \<Rightarrow> string \<Rightarrow> (wc_error, working_session) result" where
  "require_session w db sid = rbind (load_session w db sid) (\<lambda>so.
     case so of None \<Rightarrow> Inl (Value_Err ''No working session; run onmc working start first'') | Some s \<Rightarrow> Inr s)"

definition configure :: "bool \<Rightarrow> int \<Rightarrow> string list option \<Rightarrow> working_db
    \<Rightarrow> (wc_error, working_config \<times> working_db) result" where
  "configure enabled budget cs db =
     rbind (read_config db) (\<lambda>current.
     rbind (case cs of None \<Rightarrow> Inr (wc_constraints current) | Some vs \<Rightarrow> clean_constraints vs) (\<lambda>cs'.
     rbind (validate_config \<lparr>wc_enabled = enabled, wc_budget = budget, wc_constraints = cs'\<rparr>) (\<lambda>c.
     rbind (check_budget (new_session ''budget-check'' ''Task'' (wc_constraints c) 0) (wc_budget c)) (\<lambda>_.
       Inr (c, write_meta config_key (S_Config c) db)))))"

definition start_session :: "world \<Rightarrow> string \<Rightarrow> string \<Rightarrow> string list option \<Rightarrow> bool \<Rightarrow> working_db
    \<Rightarrow> (wc_error, working_session \<times> working_db) result" where
  "start_session w sid goal cs replace db =
     rbind (session_key w sid) (\<lambda>_.
     rbind (read_config db) (\<lambda>config.
     rbind (clean_text 4000 goal) (\<lambda>goal.
     rbind (load_session w db sid) (\<lambda>current.
       if current \<noteq> None \<and> \<not> replace
       then rbind (case cs of None \<Rightarrow> Inr False
                    | Some vs \<Rightarrow> if ws_goal (the current) \<noteq> goal then Inr True
                                 else rbind (clean_constraints vs) (\<lambda>c. Inr (ws_constraints (the current) \<noteq> c)))
              (\<lambda>differs. if ws_goal (the current) \<noteq> goal \<or> differs
                then Inl (Value_Err ''Session exists; use explicit replace to change its goal/constraints'')
                else Inr (the current, db))
       else rbind (case cs of None \<Rightarrow> Inr (wc_constraints config) | Some vs \<Rightarrow> clean_constraints vs) (\<lambda>c.
            let s = new_session sid goal c (case current of None \<Rightarrow> 1 | Some old \<Rightarrow> ws_revision old + 1)
            in rbind (check_budget s (wc_budget config)) (\<lambda>_.
               rbind (save_session w db s) (\<lambda>db'. Inr (s, db'))))))))"

definition same_note :: "working_note \<Rightarrow> working_note \<Rightarrow> bool" where
  "same_note a b \<longleftrightarrow> wn_kind a = wn_kind b \<and> wn_text a = wn_text b \<and> dict_eq (wn_anchors a) (wn_anchors b)"

definition add_note :: "working_note \<Rightarrow> working_session \<Rightarrow> working_session" where
  "add_note n s =
     (let kept = (if wn_kind n = Next_Step then filter (\<lambda>m. wn_kind m \<noteq> Next_Step) (ws_notes s) else ws_notes s);
          all = kept @ [n];
          over = length all - max_notes
      in s\<lparr>ws_notes := drop over all, ws_pruned := ws_pruned s + int over,
           ws_revision := ws_revision s + 1\<rparr>)"

definition record_note :: "world \<Rightarrow> string \<Rightarrow> string \<Rightarrow> note_kind \<Rightarrow> string \<Rightarrow> string list \<Rightarrow> working_db
    \<Rightarrow> (wc_error, working_session \<times> working_db) result" where
  "record_note w sid nid kind text files db =
     rbind (clean_text 4000 text) (\<lambda>text.
     rbind (hash_files w files) (\<lambda>anchors.
     rbind (require_session w db sid) (\<lambda>s.
       let n = \<lparr>wn_id = nid, wn_kind = kind, wn_text = text, wn_anchors = anchors\<rparr>
       in if list_ex (same_note n) (ws_notes s) then Inr (s, db)
          else rbind (save_session w db (add_note n s)) (\<lambda>db'. Inr (add_note n s, db')))))"

definition verify_memory :: "world \<Rightarrow> string \<Rightarrow> working_db
    \<Rightarrow> (wc_error, (string \<times> string) list \<times> working_db) result" where
  "verify_memory w mid db = (case get_memory db mid of
     None \<Rightarrow> Inl (Value_Err (''Memory not found: '' @ mid))
   | Some m \<Rightarrow> rbind (anchor_paths w (me_source_ref m)) (\<lambda>paths.
       if paths = [] then Inl (Value_Err ''Memory has no file anchors to acknowledge'')
       else rbind (hash_files w paths) (\<lambda>hashes.
         Inr (hashes, write_meta (anchor_key w mid)
                        (S_Anchor \<lparr>ab_digest = w_memory_digest w m, ab_files = hashes\<rparr>) db))))"

definition invalidate_delivery :: "world \<Rightarrow> string \<Rightarrow> working_db \<Rightarrow> (wc_error, working_db) result" where
  "invalidate_delivery w sid db =
     rbind (require_session w db sid) (\<lambda>s. save_session w db (s\<lparr>ws_fingerprint := []\<rparr>))"

text \<open>The caller's focus and files, before the packet is compiled.\<close>

definition set_focus :: "string option \<Rightarrow> working_session \<Rightarrow> (wc_error, working_session) result" where
  "set_focus focus s = (case focus of None \<Rightarrow> Inr s
     | Some f \<Rightarrow> rbind (clean_text 4000 f) (\<lambda>f. Inr (s\<lparr>ws_focus := f\<rparr>)))"

definition set_files :: "world \<Rightarrow> string list option \<Rightarrow> working_session \<Rightarrow> (wc_error, working_session) result"
  where
  "set_files w files s = (case files of None \<Rightarrow> Inr s
     | Some fs \<Rightarrow> rbind (rmap (relative w) fs) (\<lambda>ps. Inr (s\<lparr>ws_active := take max_files (dedup ps)\<rparr>)))"

definition context_packet_for :: "world \<Rightarrow> string \<Rightarrow> string \<Rightarrow> string option \<Rightarrow> string list option \<Rightarrow> bool \<Rightarrow> bool
    \<Rightarrow> working_db \<Rightarrow> (wc_error, context_packet \<times> working_db) result" where
  "context_packet_for w repo sid focus files force consume db =
     rbind (read_config db) (\<lambda>config.
     rbind (require_session w db sid) (\<lambda>s0.
     rbind (set_focus focus s0) (\<lambda>s1.
     rbind (set_files w files s1) (\<lambda>s.
     rbind (check_budget s (wc_budget config)) (\<lambda>_.
     rbind (compile w repo db s (wc_budget config) force) (\<lambda>(s', packet).
       let s'' = (if consume then s' else s'\<lparr>ws_fingerprint := ws_fingerprint s, ws_selected := ws_selected s\<rparr>)
       in rbind (save_session w db s'') (\<lambda>db'. Inr (packet, db'))))))))"

end
