(* ===== verification/Working_Scan.thy ===== *)
theory Working_Scan
  imports Working_Engine
begin

section \<open>Working context: what the scan and the renderer keep\<close>

text \<open>
  Two invariants carry the proofs.  \<open>scan_ok\<close> holds while the candidates are scanned: the keys of
  the exclusions and of the items are distinct ids of candidates, and every item comes from a
  trusted memory whose files now have the bound contents (\<open>evidence_current\<close>).  The renderer only
  appends, never passes its limit, and selects each item at most once.
\<close>

subsection \<open>Hashes are current\<close>

definition cache_ok :: "world \<Rightarrow> (string \<times> string) list \<Rightarrow> bool" where
  "cache_ok w cache \<longleftrightarrow> (\<forall>(p, h)\<in>set cache. hash_file w p = Inr h)"

lemma set_update_subset: "set (AList.update k v d) \<subseteq> insert (k, v) (set d)"
  by (induction d) auto

lemma in_set_update: "(k, v) \<in> set (AList.update k v d)"
  by (induction d) auto

lemma in_set_update_other: "k' \<noteq> k \<Longrightarrow> (k', v') \<in> set (AList.update k v d) \<longleftrightarrow> (k', v') \<in> set d"
  by (induction d) auto

lemma cache_ok_update: "cache_ok w c \<Longrightarrow> hash_file w p = Inr h \<Longrightarrow> cache_ok w (AList.update p h c)"
  using set_update_subset [of p h c] by (auto simp: cache_ok_def)

text \<open>The anchor \<open>v\<close> is readable now and the dictionary holds its hash.\<close>

definition anchored_now :: "world \<Rightarrow> (string \<times> string) list \<Rightarrow> string \<Rightarrow> bool" where
  "anchored_now w hs v \<longleftrightarrow> (\<exists>p h. relative w v = Inr p \<and> hash_file w p = Inr h \<and> (p, h) \<in> set hs)"

lemma anchored_now_update:
  assumes "anchored_now w hs v" and "hash_file w q = Inr k"
  shows "anchored_now w (AList.update q k hs) v"
proof -
  from assms(1) obtain p h where p: "relative w v = Inr p" "hash_file w p = Inr h" "(p, h) \<in> set hs"
    by (auto simp: anchored_now_def)
  have "(p, h) \<in> set (AList.update q k hs)"
    using p(2,3) assms(2) in_set_update [of q k hs] in_set_update_other [of p q h k hs]
    by (cases "p = q") auto
  with p show ?thesis by (auto simp: anchored_now_def)
qed

lemma hash_loop_current:
  assumes "hash_loop w vs cache acc = (cache', r)" and "cache_ok w cache"
  shows "cache_ok w cache' \<and> (\<forall>hs. r = Inr hs \<longrightarrow>
    (\<forall>v. v \<in> set vs \<or> anchored_now w acc v \<longrightarrow> anchored_now w hs v))"
  using assms
proof (induction w vs cache acc rule: hash_loop.induct)
  case (2 w v vs cache acc)
  show ?case
  proof (cases "relative w v")
    case (Inl e)
    with 2(3,4) show ?thesis by auto
  next
    case (Inr p)
    have step: "\<forall>v'. v' \<in> set (v # vs) \<or> anchored_now w acc v' \<longrightarrow> anchored_now w hs v'"
      if h: "hash_file w p = Inr h"
        and IH: "\<forall>v'. v' \<in> set vs \<or> anchored_now w (AList.update p h acc) v' \<longrightarrow> anchored_now w hs v'"
      for h hs
    proof -
      have "anchored_now w (AList.update p h acc) v"
        using Inr h in_set_update by (auto simp: anchored_now_def)
      with IH anchored_now_update [OF _ h] show ?thesis by auto
    qed
    show ?thesis
    proof (cases "map_of cache p")
      case (Some h)
      with 2(4) have h: "hash_file w p = Inr h" by (auto simp: cache_ok_def dest: map_of_SomeD)
      have "hash_loop w vs cache (AList.update p h acc) = (cache', r)" using 2(3) Inr Some by simp
      note IH = 2(2) [OF Inr Some this 2(4)]
      show ?thesis
      proof (intro conjI allI impI)
        show "cache_ok w cache'" using IH by (rule conjunct1)
      next
        fix hs v' assume "r = Inr hs" and v': "v' \<in> set (v # vs) \<or> anchored_now w acc v'"
        from conjunct2 [OF IH, rule_format, OF this(1)] step [OF h, of hs] v'
        show "anchored_now w hs v'" by blast
      qed
    next
      case None
      show ?thesis
      proof (cases "max_sources \<le> length cache")
        case True
        with 2(3,4) Inr None show ?thesis by auto
      next
        case False
        show ?thesis
        proof (cases "hash_file w p")
          case (Inl e)
          with False 2(3,4) Inr None show ?thesis by auto
        next
          case h: (Inr h)
          have "hash_loop w vs (AList.update p h cache) (AList.update p h acc) = (cache', r)"
            using 2(3) Inr None False h by simp
          note IH = 2(1) [OF Inr None False h this cache_ok_update [OF 2(4) h]]
          show ?thesis
          proof (intro conjI allI impI)
            show "cache_ok w cache'" using IH by (rule conjunct1)
          next
            fix hs v' assume "r = Inr hs" and v': "v' \<in> set (v # vs) \<or> anchored_now w acc v'"
            from conjunct2 [OF IH, rule_format, OF this(1)] step [OF h, of hs] v'
            show "anchored_now w hs v'" by blast
          qed
        qed
      qed
    qed
  qed
qed auto

lemma hash_files_cached_current:
  assumes "hash_files_cached w paths cache = (cache', r)" and "cache_ok w cache"
  shows "cache_ok w cache'" and "r = Inr hs \<Longrightarrow> v \<in> set paths \<Longrightarrow> anchored_now w hs v"
  using assms hash_loop_current [of w paths cache "[]" cache' r]
  by (auto simp: hash_files_cached_def split: if_split_asm)

subsection \<open>Current evidence\<close>

definition trusted :: "memory_entry \<Rightarrow> bool" where
  "trusted m \<longleftrightarrow> \<not> me_quarantined m \<and> \<not> starts_with (me_source_ref m) ''unpromoted:'' \<and>
     0 < me_confidence m \<and> - 1 / 2 < me_feedback m"

text \<open>
  The memory has no file anchors and is not marked stale, or all its anchors are readable and
  their hashes are the ones bound to this very version of the memory.
\<close>

definition evidence_current :: "world \<Rightarrow> memory_entry \<Rightarrow> (string \<times> anchor_binding) list \<Rightarrow> bool" where
  "evidence_current w m bindings \<longleftrightarrow>
     anchor_paths w (me_source_ref m) = Inr [] \<and> \<not> stale_label m \<or>
     (\<exists>paths b. anchor_paths w (me_source_ref m) = Inr paths \<and> map_of bindings (me_id m) = Some b \<and>
        ab_digest b = w_memory_digest w m \<and> (\<forall>v\<in>set paths. anchored_now w (ab_files b) v))"

lemma anchored_now_dict_eq: "dict_eq a b \<Longrightarrow> anchored_now w b v \<Longrightarrow> anchored_now w a v"
  by (auto simp: anchored_now_def dict_eq_def)

lemma bound_freshness_current:
  assumes "bound_freshness w m paths hashes explicit (bs, cache, vs) = ((bs', cache', vs'), fresh, rej)"
    and "anchor_paths w (me_source_ref m) = Inr paths" and "\<forall>v\<in>set paths. anchored_now w hashes v"
  shows "cache' = cache \<and> (\<forall>k. k \<noteq> me_id m \<longrightarrow> map_of bs' k = map_of bs k) \<and>
    (rej = None \<longrightarrow> evidence_current w m bs')"
proof -
  have bind: "evidence_current w m (AList.update (me_id m) b bs)"
    if "ab_digest b = w_memory_digest w m" "dict_eq (ab_files b) hashes" for b
    using assms(2,3) that anchored_now_dict_eq [OF that(2)]
    by (auto simp: evidence_current_def dict_simps)
  have old: "evidence_current w m bs"
    if "map_of bs (me_id m) = Some b" "ab_digest b = w_memory_digest w m" "dict_eq (ab_files b) hashes" for b
    using assms(2,3) that anchored_now_dict_eq [OF that(3)] by (auto simp: evidence_current_def)
  have refl: "dict_eq hashes hashes" by (simp add: dict_eq_def)
  show ?thesis
    using assms(1) bind [of "\<lparr>ab_digest = w_memory_digest w m, ab_files = hashes\<rparr>"] refl bind old
    unfolding bound_freshness_def Let_def
    by (auto simp: dict_simps split: if_split_asm prod.split_asm option.split_asm)
qed

lemma freshness_current:
  assumes "freshness w db m (bs, cache, vs) = Inr ((bs', cache', vs'), fresh, rej)" and "cache_ok w cache"
  shows "cache_ok w cache' \<and> (\<forall>k. k \<noteq> me_id m \<longrightarrow> map_of bs' k = map_of bs k) \<and>
    (rej = None \<longrightarrow> evidence_current w m bs')"
proof (cases "anchor_paths w (me_source_ref m)")
  case (Inl e)
  with assms show ?thesis by (auto simp: freshness_def)
next
  case (Inr paths)
  show ?thesis
  proof (cases paths)
    case Nil
    with Inr assms show ?thesis by (auto simp: freshness_def evidence_current_def split: if_split_asm)
  next
    case (Cons p ps)
    obtain cache2 r where h: "hash_files_cached w paths cache = (cache2, r)" by fastforce
    note cur = hash_files_cached_current [OF h assms(2)]
    show ?thesis
    proof (cases r)
      case (Inl e)
      with Inr Cons h cur(1) assms(1) show ?thesis by (auto simp: freshness_def)
    next
      case hs: (Inr hs)
      with Inr Cons h assms(1) obtain explicit where
        "bound_freshness w m paths hs explicit (bs, cache2, vs) = ((bs', cache', vs'), fresh, rej)"
        by (auto simp: freshness_def rbind_eq_Inr)
      from bound_freshness_current [OF this Inr] cur hs show ?thesis by auto
    qed
  qed
qed

subsection \<open>The candidates\<close>

lemma add_found_ids: "me_id ` set (add_found m found) = insert (me_id m) (me_id ` set found)"
  by (auto simp: add_found_def)

lemma add_found_distinct: "distinct (map me_id found) \<Longrightarrow> distinct (map me_id (add_found m found))"
  by (auto simp: add_found_def)

lemma fold_distinct:
  assumes "\<And>x d. distinct (map f d) \<Longrightarrow> distinct (map f (g x d))" and "distinct (map f d)"
  shows "distinct (map f (fold g xs d))"
  using assms(2) by (induction xs arbitrary: d) (auto simp: assms(1))

lemma find_candidates_distinct: "distinct (map me_id (find_candidates w repo db s))"
proof -
  have found: "distinct (map me_id (fold add_found xs ys))" if "distinct (map me_id ys)" for xs ys
    by (rule fold_distinct [OF add_found_distinct that])
  show ?thesis
    unfolding find_candidates_def Let_def take_map [symmetric]
    by (intro distinct_take fold_distinct)
       (auto intro!: found add_found_distinct simp del: fold_simps split: option.split)
qed

lemma find_candidates_length: "length (find_candidates w repo db s) \<le> 80"
  by (simp add: find_candidates_def Let_def max_candidates_def)

text \<open>A candidate is a memory of the store or of its search.\<close>

lemma set_add_found: "set (fold add_found xs ys) \<subseteq> set xs \<union> set ys"
proof (induction xs arbitrary: ys)
  case (Cons x xs)
  have "set (add_found x ys) \<subseteq> insert x (set ys)" by (simp add: add_found_def subset_insertI)
  with Cons.IH [of "add_found x ys"] show ?case by auto
qed simp

lemma find_candidates_origin:
  "set (find_candidates w repo db s) \<subseteq> set (db_memories db) \<union> (\<Union>q. set (w_search w q))"
proof -
  let ?all = "set (db_memories db) \<union> (\<Union>q. set (w_search w q))"
  have anch: "set (anchored_memories repo db a) \<subseteq> ?all" for a
    by (auto simp: anchored_memories_def dest!: in_set_takeD)
  have srch: "set (fold (\<lambda>q fs. if q = [] then fs else fold add_found (w_search w (take 4000 q)) fs) qs fs) \<subseteq> ?all"
    if "set fs \<subseteq> ?all" for qs fs
    using that
  proof (induction qs arbitrary: fs)
    case (Cons q qs)
    have "set (fold add_found (w_search w (take 4000 q)) fs) \<subseteq> ?all"
      using set_add_found [of "w_search w (take 4000 q)" fs] Cons.prems by blast
    then show ?case using Cons.IH [OF Cons.prems] Cons.IH by simp
  qed simp
  have kept: "set (fold (\<lambda>mid fs. case get_memory db mid of None \<Rightarrow> fs | Some m \<Rightarrow> add_found m fs) ids fs) \<subseteq> ?all"
    if "set fs \<subseteq> ?all" for ids fs
    using that
  proof (induction ids arbitrary: fs)
    case (Cons mid ids)
    have "set (case get_memory db mid of None \<Rightarrow> fs | Some m \<Rightarrow> add_found m fs) \<subseteq> ?all"
      using Cons.prems by (auto simp: add_found_def get_memory_def find_Some_iff split: option.splits if_splits)
    from Cons.IH [OF this] show ?case by simp
  qed simp
  have "set (fold add_found (if ws_active s = [] then [] else anchored_memories repo db (ws_active s)) []) \<subseteq> ?all"
    using set_add_found [of "anchored_memories repo db (ws_active s)" "[]"] anch by auto
  from kept [OF srch [OF this]] show ?thesis
    unfolding find_candidates_def Let_def by (meson in_set_takeD subset_code(1))
qed

subsection \<open>The invariant of the scan\<close>

text \<open>The item a packet shows of a memory.\<close>

definition shows_memory :: "memory_entry \<Rightarrow> context_item \<Rightarrow> bool" where
  "shows_memory m i \<longleftrightarrow> ci_id i = me_id m \<and> ci_kind i = me_kind m \<and> ci_text i = me_title m @ '': '' @ me_summary m
     \<and> ci_source i = me_source_ref m"

definition item_ok :: "world \<Rightarrow> (string \<times> anchor_binding) list \<Rightarrow> memory_entry list
    \<Rightarrow> string \<times> context_item \<Rightarrow> bool" where
  "item_ok w bs ms = (\<lambda>(k, i). ci_id i = k \<and>
     (\<exists>m\<in>set ms. me_id m = k \<and> shows_memory m i \<and> trusted m \<and> evidence_current w m bs))"

definition scan_ok :: "world \<Rightarrow> memory_entry list \<Rightarrow> scan \<Rightarrow> bool" where
  "scan_ok w ms sc \<longleftrightarrow> cache_ok w (sc_cache sc) \<and>
     distinct (map fst (sc_excluded sc)) \<and> distinct (map fst (sc_items sc)) \<and>
     fst ` set (sc_excluded sc) \<union> fst ` set (sc_items sc) = me_id ` set ms \<and>
     fst ` set (sc_excluded sc) \<inter> fst ` set (sc_items sc) = {} \<and>
     (\<forall>ki\<in>set (sc_items sc). item_ok w (sc_bindings sc) ms ki)"

lemma evidence_current_bindings:
  "map_of bs' (me_id m) = map_of bs (me_id m) \<Longrightarrow> evidence_current w m bs' = evidence_current w m bs"
  by (simp add: evidence_current_def)

lemma item_ok_more: "item_ok w bs ms ki \<Longrightarrow> item_ok w bs (ms @ [m]) ki"
  by (auto simp: item_ok_def)

lemma item_ok_bindings_same:
  assumes "item_ok w bs ms ki" and "\<forall>k. k \<noteq> me_id m \<longrightarrow> map_of bs' k = map_of bs k"
    and "me_id m \<notin> me_id ` set ms"
  shows "item_ok w bs' ms ki"
proof -
  from assms(1) obtain m' where m': "m' \<in> set ms" "me_id m' = fst ki" "shows_memory m' (snd ki)" "trusted m'" "evidence_current w m' bs"
    and "ci_id (snd ki) = fst ki"
    by (auto simp: item_ok_def)
  from m'(1) assms(3) have "me_id m' \<noteq> me_id m" by (metis image_eqI)
  with assms(2) have "map_of bs' (me_id m') = map_of bs (me_id m')" by blast
  from evidence_current_bindings [OF this] m'(5) have "evidence_current w m' bs'" by simp
  with m' \<open>ci_id (snd ki) = fst ki\<close> show ?thesis by (auto simp: item_ok_def split: prod.split)
qed

text \<open>Everything the scan keeps of the earlier candidates while it looks at \<open>m\<close>.\<close>

lemma scan_ok_fresh:
  assumes "scan_ok w ms sc" and "me_id m \<notin> me_id ` set ms"
    and "cache_ok w c" and "\<forall>k. k \<noteq> me_id m \<longrightarrow> map_of b k = map_of (sc_bindings sc) k"
  shows "scan_ok w ms (set_fresh (b, c, v) sc)"
  using assms item_ok_bindings_same [OF _ assms(4,2)]
  by (auto simp: scan_ok_def set_fresh_def)

lemma scan_ok_exclude:
  assumes "scan_ok w ms sc" and "me_id m \<notin> me_id ` set ms"
  shows "scan_ok w (ms @ [m]) (exclude (me_id m) why sc)"
  using assms item_ok_more [of w "sc_bindings sc" ms _ m]
  by (auto simp: scan_ok_def exclude_def distinct_update dict_keys_update)

lemma scan_ok_item:
  assumes ok: "scan_ok w ms sc" and m: "me_id m \<notin> me_id ` set ms"
    and "trusted m" and "evidence_current w m (sc_bindings sc)"
  shows "scan_ok w (ms @ [m]) (sc\<lparr>sc_items := AList.update (me_id m) (memory_item m f rel) (sc_items sc)\<rparr>)"
proof -
  have new: "item_ok w (sc_bindings sc) (ms @ [m]) (me_id m, memory_item m f rel)"
    using assms(3,4) by (auto simp: item_ok_def memory_item_def shows_memory_def split: prod.split)
  have items: "item_ok w (sc_bindings sc) (ms @ [m]) ki"
    if "ki \<in> set (AList.update (me_id m) (memory_item m f rel) (sc_items sc))" for ki
  proof (cases "ki = (me_id m, memory_item m f rel)")
    case True
    with new show ?thesis by simp
  next
    case False
    with that set_update_subset [of "me_id m" "memory_item m f rel" "sc_items sc"]
    have "ki \<in> set (sc_items sc)" by blast
    with ok have "item_ok w (sc_bindings sc) ms ki" by (simp add: scan_ok_def)
    then show ?thesis by (rule item_ok_more)
  qed
  with ok m show ?thesis by (auto simp: scan_ok_def distinct_update dict_keys_update)
qed

lemma scan_memory_ok:
  assumes "scan_memory w db tokens active m sc = Inr sc'" and "scan_ok w ms sc"
    and "me_id m \<notin> me_id ` set ms"
  shows "scan_ok w (ms @ [m]) sc'"
proof (cases "trusted m")
  case False
  with assms(1) have "\<exists>why. sc' = exclude (me_id m) why sc"
    by (auto simp: scan_memory_def trusted_def split: if_split_asm)
  with scan_ok_exclude [OF assms(2,3)] show ?thesis by auto
next
  case True
  from assms(1) True obtain b c v fr rej where
    f: "freshness w db m (sc_bindings sc, sc_cache sc, sc_versions sc) = Inr ((b, c, v), fr, rej)"
    by (auto simp: scan_memory_def trusted_def rbind_eq_Inr split: if_split_asm)
  from assms(2) have "cache_ok w (sc_cache sc)" by (simp add: scan_ok_def)
  note cur = freshness_current [OF f this]
  have ok: "scan_ok w ms (set_fresh (b, c, v) sc)"
    using scan_ok_fresh [OF assms(2,3)] cur by blast
  have b: "sc_bindings (set_fresh (b, c, v) sc) = b" by (simp add: set_fresh_def)
  show ?thesis
  proof (cases rej)
    case (Some why)
    with assms(1) True f have "sc' = exclude (me_id m) why (set_fresh (b, c, v) sc)"
      by (auto simp: scan_memory_def trusted_def)
    with scan_ok_exclude [OF ok assms(3)] show ?thesis by simp
  next
    case None
    with cur b have ev: "evidence_current w m (sc_bindings (set_fresh (b, c, v) sc))" by simp
    from assms(1) True f None have
      "sc' = exclude (me_id m) ''irrelevant'' (set_fresh (b, c, v) sc) \<or>
       sc' = set_fresh (b, c, v) sc\<lparr>sc_items := AList.update (me_id m)
         (memory_item m fr (relevance w tokens active m)) (sc_items (set_fresh (b, c, v) sc))\<rparr>"
      by (auto simp: scan_memory_def trusted_def Let_def split: if_split_asm)
    with scan_ok_exclude [OF ok assms(3)] scan_ok_item [OF ok assms(3) True ev] show ?thesis by metis
  qed
qed

lemma scan_all_ok:
  assumes "rfold (scan_memory w db tokens active) ms sc = Inr sc'" and "scan_ok w seen sc"
    and "distinct (map me_id (seen @ ms))"
  shows "scan_ok w (seen @ ms) sc'"
  using assms
proof (induction ms arbitrary: sc seen)
  case (Cons m ms)
  from Cons.prems(1) obtain sc1 where s1: "scan_memory w db tokens active m sc = Inr sc1"
    and rest: "rfold (scan_memory w db tokens active) ms sc1 = Inr sc'"
    by (auto simp: rbind_eq_Inr)
  from Cons.prems(3) have "me_id m \<notin> me_id ` set seen" by auto
  from Cons.IH [OF rest scan_memory_ok [OF s1 Cons.prems(2) this]] Cons.prems(3) show ?case by simp
qed simp

lemma scan_start_ok: "scan_ok w [] \<lparr>sc_bindings = bs, sc_cache = [], sc_versions = [], sc_excluded = [], sc_items = []\<rparr>"
  by (simp add: scan_ok_def cache_ok_def)

end
