(* ===== verification/Working_Render.thy ===== *)
theory Working_Render
  imports Working_Scan
begin

section \<open>Working context: what the renderer guarantees\<close>

text \<open>
  The renderer only appends, and only what fits: \<open>extends\<close> carries the pinned prefix and the
  limit through its loops.  Every item it is given is either selected or excluded with a reason,
  and the edges between memories never leave both ends of a conflict in the packet.
\<close>

definition extends :: "int \<Rightarrow> string \<Rightarrow> string \<Rightarrow> bool" where
  "extends limit a b \<longleftrightarrow> (\<exists>r. b = a @ r) \<and> (int (length a) \<le> limit \<longrightarrow> int (length b) \<le> limit)"

lemma extends_refl: "extends limit a a"
  by (simp add: extends_def)

lemma extends_trans: "extends limit a b \<Longrightarrow> extends limit b c \<Longrightarrow> extends limit a c"
  by (auto simp: extends_def)

lemma extends_add_block: "extends limit md (add_block limit b md)"
  by (simp add: extends_def add_block_def fits_def)

lemma extends_blocks: "extends limit md (fold (add_block limit) bs md)"
  by (induction bs arbitrary: md)
     (auto intro: extends_refl extends_trans [OF extends_add_block])

lemma render_note_parts:
  "render_note w limit n (md, wn, dropped, cache) =
     (add_block limit (note_block n (snd (note_status w n cache))) md,
      wn @ (if snd (note_status w n cache) \<noteq> [] then [''Note '' @ wn_id n @ '': ''
         @ lower (snd (note_status w n cache)) @ ''; statement requires rechecking.''] else []),
      (if fits limit md (note_block n (snd (note_status w n cache))) then dropped else dropped + 1),
      fst (note_status w n cache))"
  by (simp add: render_note_def split: prod.split)

lemma render_notes:
  "fold (render_note w limit) ns (md, wn, d, c) = (md', wn', d', c') \<Longrightarrow>
   extends limit md md' \<and> length wn' \<le> length wn + length ns \<and> d' \<le> d + length ns"
proof (induction ns arbitrary: md wn d c)
  case Nil
  then show ?case by (simp add: extends_refl)
next
  case (Cons n ns)
  let ?st = "snd (note_status w n c)"
  have "extends limit md (add_block limit (note_block n ?st) md)" by (rule extends_add_block)
  with Cons.IH [OF Cons.prems [unfolded fold_simps render_note_parts]] show ?case
    by (auto dest: extends_trans split: if_split_asm)
qed

subsection \<open>The items loop\<close>

definition items_ok :: "item_state \<Rightarrow> context_item list \<Rightarrow> bool" where
  "items_ok = (\<lambda>(md, sel, seen, ex) todo.
     distinct (map ci_id sel @ map ci_id todo) \<and> distinct (map fst ex) \<and>
     fst ` set ex \<inter> ci_id ` set (sel @ todo) = {} \<and>
     seen = rev (map (\<lambda>i. join '' '' (words (lower (ci_text i)))) sel) \<and> distinct seen)"

definition item_ids :: "item_state \<Rightarrow> string set" where
  "item_ids = (\<lambda>(md, sel, seen, ex). ci_id ` set sel \<union> fst ` set ex)"

lemma render_item_ok:
  assumes "items_ok st (i # todo)"
  shows "items_ok (render_item limit i st) todo"
    and "item_ids (render_item limit i st) = insert (ci_id i) (item_ids st)"
    and "extends limit (fst st) (fst (render_item limit i st))"
    and "set (fst (snd (render_item limit i st))) \<subseteq> insert i (set (fst (snd st)))"
proof -
  obtain md sel seen ex where st: "st = (md, sel, seen, ex)" by (cases st)
  let ?r = "render_item limit i st"
  consider (dup) "?r = (md, sel, seen, AList.update (ci_id i) ''duplicate'' ex)"
    | (add) "?r = (md @ item_block i, sel @ [i], join '' '' (words (lower (ci_text i))) # seen, ex)"
        "fits limit md (item_block i)" "join '' '' (words (lower (ci_text i))) \<notin> set seen"
    | (big) "?r = (md, sel, seen, AList.update (ci_id i) ''budget'' ex)"
    by (cases "join '' '' (words (lower (ci_text i))) \<in> set seen"; cases "fits limit md (item_block i)")
       (simp_all add: st render_item_def Let_def)
  note cases = this
  have ex: "items_ok (md, sel, seen, AList.update (ci_id i) why ex) todo" for why
    using assms by (auto simp: st items_ok_def distinct_update dict_keys_update)
  show "items_ok ?r todo"
    using cases
  proof cases
    case add
    with assms show ?thesis by (auto simp: st items_ok_def)
  qed (simp_all only: ex)
  show "item_ids ?r = insert (ci_id i) (item_ids st)"
    using cases by cases (auto simp: st item_ids_def dict_keys_update)
  show "extends limit (fst st) (fst ?r)"
    using cases by cases (auto simp: st extends_def fits_def)
  show "set (fst (snd ?r)) \<subseteq> insert i (set (fst (snd st)))"
    using cases by cases (auto simp: st)
qed

lemma render_items_ok:
  assumes "items_ok st todo"
  shows "items_ok (fold (render_item limit) todo st) [] \<and>
    item_ids (fold (render_item limit) todo st) = ci_id ` set todo \<union> item_ids st \<and>
    extends limit (fst st) (fst (fold (render_item limit) todo st)) \<and>
    set (fst (snd (fold (render_item limit) todo st))) \<subseteq> set todo \<union> set (fst (snd st))"
  using assms
proof (induction todo arbitrary: st)
  case Nil
  then show ?case by (simp add: extends_refl)
next
  case (Cons i todo)
  note r = render_item_ok [OF Cons.prems, of limit]
  from Cons.IH [OF r(1)] r(2-4) show ?case by (auto intro: extends_trans)
qed

subsection \<open>Edges\<close>

lemma apply_edge_keys: "fst ` set ex \<subseteq> fst ` set (apply_edge e ex)"
  by (cases e) (auto simp: apply_edge_def dict_keys_update)

lemma apply_edge_keys_le:
  "e = (l, r, t) \<Longrightarrow> fst ` set (apply_edge e ex) \<subseteq> insert l (insert r (fst ` set ex))"
  by (auto simp: apply_edge_def dict_keys_update)

lemma apply_edge_distinct: "distinct (map fst ex) \<Longrightarrow> distinct (map fst (apply_edge e ex))"
  by (cases e) (auto simp: apply_edge_def distinct_update)

lemma apply_edges_keys: "fst ` set ex \<subseteq> fst ` set (fold apply_edge es ex)"
proof (induction es arbitrary: ex)
  case (Cons e es)
  from subset_trans [OF apply_edge_keys Cons.IH [of "apply_edge e ex"]] show ?case by simp
qed simp

lemma apply_edges_keys_le:
  assumes "\<forall>(l, r, t)\<in>set es. l \<in> A \<and> r \<in> A" and "fst ` set ex \<subseteq> A"
  shows "fst ` set (fold apply_edge es ex) \<subseteq> A"
  using assms
proof (induction es arbitrary: ex)
  case (Cons e es)
  obtain l r t where e: "e = (l, r, t)" by (cases e)
  with Cons.prems(1) have "insert l (insert r A) = A" by auto
  with apply_edge_keys_le [OF e, of ex] Cons.prems(2) have "fst ` set (apply_edge e ex) \<subseteq> A" by blast
  with Cons.IH [of "apply_edge e ex"] Cons.prems(1) show ?case by simp
qed simp

lemma apply_edges_excluded:
  assumes "(l, r, t) \<in> set es" and "t = ''supersedes'' \<or> t = ''contradicts''"
  shows "r \<in> fst ` set (fold apply_edge es ex) \<and> (t = ''contradicts'' \<longrightarrow> l \<in> fst ` set (fold apply_edge es ex))"
  using assms(1)
proof (induction es arbitrary: ex)
  case (Cons e es)
  show ?case
  proof (cases "e = (l, r, t)")
    case True
    with assms(2) have "r \<in> fst ` set (apply_edge e ex)" "t = ''contradicts'' \<longrightarrow> l \<in> fst ` set (apply_edge e ex)"
      by (auto simp: apply_edge_def dict_keys_update)
    with apply_edges_keys [of "apply_edge e ex" es] show ?thesis by auto
  next
    case False
    with Cons.IH Cons.prems show ?thesis by auto
  qed
qed simp

lemma relevant_edges_iff:
  "(l, r, t) \<in> set (relevant_edges db ids) \<longleftrightarrow> (\<exists>c. (l, r, t, c) \<in> set (db_edges db) \<and> 8 / 10 \<le> c) \<and>
     (t = ''supersedes'' \<or> t = ''contradicts'') \<and> l \<in> set ids \<and> r \<in> set ids"
  by (force simp: relevant_edges_def)

subsection \<open>Withdrawals\<close>

lemma withdrawals_not_items:
  "fst ` set (new_withdrawals learning excluded items selected wds) \<inter> fst ` set items = {}"
proof -
  have "k \<notin> fst ` set items" if "k \<in> fst ` set (drop n (filter (\<lambda>(k, r). k \<notin> fst ` set items) d))" for k n d
  proof -
    from that obtain v where "(k, v) \<in> set (drop n (filter (\<lambda>(k, r). k \<notin> fst ` set items) d))" by auto
    from in_set_dropD [OF this] show ?thesis by simp
  qed
  then show ?thesis unfolding new_withdrawals_def Let_def by blast
qed

lemma withdrawals_bounded: "length (new_withdrawals learning excluded items selected wds) \<le> 80"
  by (simp add: new_withdrawals_def Let_def max_candidates_def)

lemma fold_withdrawn_keys:
  "fst ` set (fold (\<lambda>k d. if P k then d else AList.update k (f k) d) ks d) =
   {k \<in> set ks. \<not> P k} \<union> fst ` set d"
  by (induction ks arbitrary: d) (auto simp: dict_keys_update)

text \<open>Nothing once delivered disappears silently, unless more than 80 withdrawals are pending.\<close>

lemma withdrawals_complete:
  assumes "k \<in> set selected" and "k \<notin> fst ` set items"
    and "length (filter (\<lambda>(k, r). k \<notin> fst ` set items)
           (fold (\<lambda>mid d. if mid \<in> fst ` set items then d
              else AList.update mid (case map_of excluded mid of Some r \<Rightarrow> r
                | None \<Rightarrow> if learning then ''no_longer_retrieved'' else ''learning_disabled'') d) selected wds)) \<le> 80"
  shows "k \<in> fst ` set (new_withdrawals learning excluded items selected wds)"
proof -
  let ?added = "fold (\<lambda>mid d. if mid \<in> fst ` set items then d
     else AList.update mid (case map_of excluded mid of Some r \<Rightarrow> r
       | None \<Rightarrow> if learning then ''no_longer_retrieved'' else ''learning_disabled'') d) selected wds"
  have "k \<in> fst ` set ?added" using assms(1,2) by (simp add: fold_withdrawn_keys)
  then obtain v where v: "(k, v) \<in> set ?added" by auto
  let ?kept = "filter (\<lambda>(k, r). k \<notin> fst ` set items) ?added"
  from v assms(2) have "(k, v) \<in> set ?kept" by simp
  then have "k \<in> fst ` set ?kept" by (rule image_eqI [rotated]) simp
  moreover from assms(3) have "drop (length ?kept - 80) ?kept = ?kept" by simp
  ultimately show ?thesis unfolding new_withdrawals_def Let_def max_candidates_def by simp
qed

end
