(* ===== verification/Working_Packet.thy ===== *)
theory Working_Packet
  imports Working_Render
begin

section \<open>Working context: what a compiled packet is made of\<close>

text \<open>
  The facts about one run of the compiler that the properties share: the packet starts with the
  pinned goal and constraints, stays within its budget, and its selection, exclusions and
  withdrawals fit together.
\<close>

lemma early_warnings_length: "length (early_warnings learning s ex) \<le> 5"
  by (simp add: early_warnings_def)

lemma footer_length:
  assumes "sel < 100" and "ex < 100" and "wn < 100"
  shows "length (footer sel ex wn) \<le> 220"
proof -
  have "length (show_nat sel) \<le> 2" "length (show_nat ex) \<le> 2" "length (show_nat wn) \<le> 2"
    using assms by (auto simp: show_nat_def intro!: length_nat_digits_bound)
  then show ?thesis by (simp add: footer_def nl_def)
qed

definition items_keyed :: "(string \<times> context_item) list \<Rightarrow> bool" where
  "items_keyed items \<longleftrightarrow> distinct (map fst items) \<and> (\<forall>(k, i)\<in>set items. ci_id i = k)"

lemma keyed_ids: "items_keyed items \<Longrightarrow> map ci_id (map snd items) = map fst items"
  by (auto simp: items_keyed_def)

lemma keyed_id_set: "items_keyed items \<Longrightarrow> ci_id ` snd ` set items = fst ` set items"
  using arg_cong [OF keyed_ids, of items set] by (simp add: image_image)

lemma keyed_filter: "items_keyed items \<Longrightarrow> items_keyed (filter P items)"
  by (auto simp: items_keyed_def distinct_map_filter)

lemma distinct_map_sort: "distinct (map g (sort_key f xs)) = distinct (map g xs)"
  by (simp add: distinct_map)

text \<open>The candidates the renderer is given, in the order of their score.\<close>

lemma sorted_items_ok:
  assumes "items_keyed items" and "distinct (map fst ex)" and "fst ` set ex \<inter> fst ` set items = {}"
  shows "items_ok (md, [], [], ex) (sort_key f (map snd items))"
proof -
  note ids = keyed_id_set [OF assms(1)]
  have "distinct (map ci_id (map snd items))"
    using assms(1) unfolding keyed_ids [OF assms(1)] by (simp add: items_keyed_def)
  then have "distinct (map ci_id (sort_key f (map snd items)))"
    by (simp only: distinct_map_sort)
  with assms(2,3) ids show ?thesis by (simp add: items_ok_def)
qed

lemma render_parts:
  obtains md1 warn dropped c md2 md3 sel seen ex' warn' where
    "fold (render_note w (budget - 220)) (sort_key (\<lambda>n. wn_kind n \<noteq> Next_Step) (ws_notes s))
       (fold (add_block (budget - 220)) (withdrawal_blocks (ws_withdrawals s)) (mandatory s),
        early_warnings (w_learning w) s ex, 0, cache) = (md1, warn, dropped, c)"
    "extends (budget - 220) md1 md2"
    "fold (render_item (budget - 220)) (sort_key (\<lambda>i. (- ci_score i, ci_id i)) (map snd items)) (md2, [], [], ex)
       = (md3, sel, seen, ex')"
    "length warn' \<le> length warn + 2"
    "render w budget s cache ex items =
       \<lparr>rd_markdown = fold (add_block (budget - 220)) (map (\<lambda>t. nl @ ''Notice: '' @ t @ nl) warn') md3
          @ footer (length sel) (length ex') (length warn'),
        rd_selected = sel, rd_excluded = ex', rd_warnings = warn'\<rparr>"
proof -
  obtain md1 warn dropped c where loop1:
    "fold (render_note w (budget - 220)) (sort_key (\<lambda>n. wn_kind n \<noteq> Next_Step) (ws_notes s))
       (fold (add_block (budget - 220)) (withdrawal_blocks (ws_withdrawals s)) (mandatory s),
        early_warnings (w_learning w) s ex, 0, cache) = (md1, warn, dropped, c)"
    by (rule prod_cases4)
  define mdf where "mdf = (case focus_block s of None \<Rightarrow> md1 | Some b \<Rightarrow> add_block (budget - 220) b md1)"
  define md2 where "md2 = (if ws_active s = [] then mdf
     else add_block (budget - 220) (nl @ ''Active files: '' @ join '', '' (ws_active s) @ nl) mdf)"
  define warn2 where "warn2 = (if focus_block s \<noteq> None \<and> \<not> fits (budget - 220) md1 (the (focus_block s))
     then warn @ [''Current focus omitted to preserve pinned constraints.''] else warn)"
  obtain md3 sel seen ex' where items:
    "fold (render_item (budget - 220)) (sort_key (\<lambda>i. (- ci_score i, ci_id i)) (map snd items)) (md2, [], [], ex)
       = (md3, sel, seen, ex')"
    by (rule prod_cases4)
  define warn3 where "warn3 = (if dropped \<noteq> 0
     then warn2 @ [show_nat dropped @ '' working notes omitted by budget.''] else warn2)"
  have "extends (budget - 220) md1 mdf"
    by (auto simp: mdf_def extends_refl extends_add_block split: option.split)
  then have "extends (budget - 220) md1 md2"
    by (auto simp: md2_def intro: extends_trans extends_add_block)
  moreover have "length warn3 \<le> length warn + 2" by (simp add: warn3_def warn2_def)
  moreover have "render w budget s cache ex items =
       \<lparr>rd_markdown = fold (add_block (budget - 220)) (map (\<lambda>t. nl @ ''Notice: '' @ t @ nl) warn3) md3
          @ footer (length sel) (length ex') (length warn3),
        rd_selected = sel, rd_excluded = ex', rd_warnings = warn3\<rparr>"
    unfolding render_def Let_def loop1 prod.case warn2_def [symmetric] mdf_def [symmetric]
      md2_def [symmetric] items warn3_def [symmetric] by (rule refl)
  ultimately show ?thesis using that loop1 items by blast
qed

lemma render_markdown:
  fixes w :: world and cache :: "(string \<times> string) list"
  assumes "int (length (mandatory s)) + 240 \<le> budget" and "length (ws_notes s) \<le> 32"
    and "items_keyed items" and "distinct (map fst ex)" and "fst ` set ex \<inter> fst ` set items = {}"
    and "card (fst ` set ex \<union> fst ` set items) \<le> 80"
  defines "out \<equiv> render w budget s cache ex items"
  shows "(\<exists>r. rd_markdown out = mandatory s @ r) \<and> int (length (rd_markdown out)) \<le> budget \<and>
    set (rd_selected out) \<subseteq> snd ` set items \<and>
    distinct (map ci_id (rd_selected out)) \<and> distinct (map fst (rd_excluded out)) \<and>
    fst ` set (rd_excluded out) \<inter> ci_id ` set (rd_selected out) = {} \<and>
    fst ` set (rd_excluded out) \<union> ci_id ` set (rd_selected out) = fst ` set ex \<union> fst ` set items"
proof -
  obtain md1 warn dropped c md2 md3 sel seen ex' warn' where
    loop1: "fold (render_note w (budget - 220)) (sort_key (\<lambda>n. wn_kind n \<noteq> Next_Step) (ws_notes s))
       (fold (add_block (budget - 220)) (withdrawal_blocks (ws_withdrawals s)) (mandatory s),
        early_warnings (w_learning w) s ex, 0, cache) = (md1, warn, dropped, c)"
    and md2: "extends (budget - 220) md1 md2"
    and items: "fold (render_item (budget - 220)) (sort_key (\<lambda>i. (- ci_score i, ci_id i)) (map snd items))
       (md2, [], [], ex) = (md3, sel, seen, ex')"
    and warn': "length warn' \<le> length warn + 2"
    and out: "out = \<lparr>rd_markdown =
          fold (add_block (budget - 220)) (map (\<lambda>t. nl @ ''Notice: '' @ t @ nl) warn') md3
          @ footer (length sel) (length ex') (length warn'),
        rd_selected = sel, rd_excluded = ex', rd_warnings = warn'\<rparr>"
    unfolding out_def by (rule render_parts)
  from render_notes [OF loop1] have md1: "extends (budget - 220) (mandatory s) md1"
    and warn: "length warn \<le> 37"
    using extends_blocks early_warnings_length [of "w_learning w" s ex] assms(2)
    by (auto intro: extends_trans)
  note ids = keyed_id_set [OF assms(3)]
  from render_items_ok [OF sorted_items_ok [OF assms(3-5)], of "budget - 220" "\<lambda>i. (- ci_score i, ci_id i)" md2]
  have fin: "items_ok (md3, sel, seen, ex') []" "ci_id ` set sel \<union> fst ` set ex' = fst ` set ex \<union> fst ` set items"
    "extends (budget - 220) md2 md3" "set sel \<subseteq> snd ` set items"
    using ids by (simp_all add: items item_ids_def Un_commute)
  from fin(1) have sel: "distinct (map ci_id sel)" "distinct (map fst ex')" "fst ` set ex' \<inter> ci_id ` set sel = {}"
    by (simp_all add: items_ok_def)
  have "length sel \<le> 80" "length ex' \<le> 80"
  proof -
    have "length sel = card (ci_id ` set sel)" "length ex' = card (fst ` set ex')"
      using distinct_card [OF sel(1)] distinct_card [OF sel(2)] by simp_all
    moreover have "card (ci_id ` set sel) \<le> card (fst ` set ex \<union> fst ` set items)"
      "card (fst ` set ex') \<le> card (fst ` set ex \<union> fst ` set items)"
      using fin(2) by (auto intro!: card_mono)
    ultimately show "length sel \<le> 80" "length ex' \<le> 80" using assms(6) by simp_all
  qed
  with warn warn' have foot: "length (footer (length sel) (length ex') (length warn')) \<le> 220"
    by (intro footer_length) simp_all
  let ?md = "fold (add_block (budget - 220)) (map (\<lambda>t. nl @ ''Notice: '' @ t @ nl) warn') md3"
  have "extends (budget - 220) (mandatory s) ?md"
    using extends_trans [OF md1 extends_trans [OF md2 extends_trans [OF fin(3) extends_blocks]]] .
  with assms(1) obtain r where "?md = mandatory s @ r" "int (length ?md) \<le> budget - 220"
    by (auto simp: extends_def)
  with foot out have "(\<exists>r. rd_markdown out = mandatory s @ r) \<and> int (length (rd_markdown out)) \<le> budget"
    by simp
  with fin sel out show ?thesis by auto
qed

end
