(* ===== verification/Working_Compile.thy ===== *)
theory Working_Compile
  imports Working_Packet
begin

section \<open>Working context: the compiler as a whole\<close>

text \<open>
  \<open>compile\<close> runs the scan, the edges, the withdrawals and the renderer; \<open>compile_parts\<close> names the
  intermediate results and the lemmas after it say what each contributes to the packet and to the
  session that is stored.
\<close>

definition memories_for :: "world \<Rightarrow> string \<Rightarrow> working_db \<Rightarrow> working_session \<Rightarrow> memory_entry list" where
  "memories_for w repo db s = (if w_learning w then find_candidates w repo db s else [])"

lemma memories_for_ok: "distinct (map me_id (memories_for w repo db s))" "length (memories_for w repo db s) \<le> 80"
  using find_candidates_distinct find_candidates_length by (simp_all add: memories_for_def)

lemma trim_bindings_keeps: "k \<in> set keep \<Longrightarrow> map_of (trim_bindings keep bs) k = map_of bs k"
proof -
  assume k: "k \<in> set keep"
  have "map_of (fold AList.delete ks d) k = map_of d k" if "k \<notin> set ks" for ks and d :: "(string \<times> anchor_binding) list"
    using that by (induction ks arbitrary: d) (auto simp: dict_simps)
  moreover have "k \<notin> set (take n (filter (\<lambda>k. k \<notin> set keep) xs))" for n xs
    using k by (auto dest: in_set_takeD)
  ultimately show ?thesis by (simp add: trim_bindings_def)
qed

lemma scan_memory_error:
  "scan_memory w db tokens active m sc = Inl e \<Longrightarrow> e = Value_Err ''invalid anchor''"
  by (auto simp: scan_memory_def freshness_def read_anchor_def rbind_eq_Inl Let_def
      split: if_split_asm sum.split_asm list.split_asm prod.split_asm option.split_asm stored.split_asm)

lemma scan_all_error:
  "rfold (scan_memory w db tokens active) ms sc = Inl e \<Longrightarrow> e = Value_Err ''invalid anchor''"
  by (induction ms arbitrary: sc) (auto simp: rbind_eq_Inl dest: scan_memory_error)

text \<open>The renderer's input after the scan \<open>sc\<close>, and the session with its withdrawals.\<close>

definition all_excluded :: "working_db \<Rightarrow> scan \<Rightarrow> (string \<times> string) list" where
  "all_excluded db sc = fold apply_edge (relevant_edges db (map fst (sc_items sc))) (sc_excluded sc)"

definition kept_items :: "working_db \<Rightarrow> scan \<Rightarrow> (string \<times> context_item) list" where
  "kept_items db sc = filter (\<lambda>(k, i). k \<notin> fst ` set (all_excluded db sc)) (sc_items sc)"

definition with_withdrawals :: "world \<Rightarrow> working_db \<Rightarrow> scan \<Rightarrow> working_session \<Rightarrow> working_session" where
  "with_withdrawals w db sc s = s\<lparr>ws_bindings := sc_bindings sc,
     ws_withdrawals := new_withdrawals (w_learning w) (all_excluded db sc) (kept_items db sc)
       (ws_selected s) (ws_withdrawals s)\<rparr>"

definition rendered_for :: "world \<Rightarrow> int \<Rightarrow> working_db \<Rightarrow> scan \<Rightarrow> working_session \<Rightarrow> rendered" where
  "rendered_for w budget db sc s = render w budget (with_withdrawals w db sc s) (sc_cache sc)
     (all_excluded db sc) (kept_items db sc)"

lemma same_union: "E \<subseteq> M \<Longrightarrow> X \<subseteq> E \<Longrightarrow> I \<subseteq> E \<union> K \<Longrightarrow> K \<subseteq> I \<Longrightarrow> X \<union> I = M \<Longrightarrow> E \<union> K = M"
  by blast

lemma scan_sets:
  assumes "scan_ok w ms sc"
  shows "items_keyed (kept_items db sc)" "distinct (map fst (all_excluded db sc))"
    "fst ` set (all_excluded db sc) \<inter> fst ` set (kept_items db sc) = {}"
    "fst ` set (all_excluded db sc) \<union> fst ` set (kept_items db sc) = me_id ` set ms"
proof -
  have items_keyed: "items_keyed (sc_items sc)" using assms by (auto simp: scan_ok_def items_keyed_def item_ok_def)
  then show "items_keyed (kept_items db sc)" unfolding kept_items_def by (rule keyed_filter)
  have "distinct (map fst ex) \<Longrightarrow> distinct (map fst (fold apply_edge es ex))" for es ex
    by (rule fold_distinct [OF apply_edge_distinct])
  with assms show "distinct (map fst (all_excluded db sc))" by (simp add: all_excluded_def scan_ok_def)
  have kept: "k \<in> fst ` set (sc_items sc) \<and> k \<notin> fst ` set (all_excluded db sc)"
    if "k \<in> fst ` set (kept_items db sc)" for k
    using that by (force simp: kept_items_def)
  then show "fst ` set (all_excluded db sc) \<inter> fst ` set (kept_items db sc) = {}" by blast
  have parts: "fst ` set (sc_excluded sc) \<union> fst ` set (sc_items sc) = me_id ` set ms"
    using assms by (simp add: scan_ok_def)
  have "fst ` set (all_excluded db sc) \<subseteq> me_id ` set ms"
    unfolding all_excluded_def using parts relevant_edges_iff
    by (intro apply_edges_keys_le) (auto simp: relevant_edges_iff)
  moreover have "fst ` set (sc_excluded sc) \<subseteq> fst ` set (all_excluded db sc)"
    unfolding all_excluded_def by (rule apply_edges_keys)
  moreover have "fst ` set (sc_items sc) \<subseteq> fst ` set (all_excluded db sc) \<union> fst ` set (kept_items db sc)"
  proof
    fix k assume "k \<in> fst ` set (sc_items sc)"
    then obtain i where i: "(k, i) \<in> set (sc_items sc)" by auto
    show "k \<in> fst ` set (all_excluded db sc) \<union> fst ` set (kept_items db sc)"
    proof (cases "k \<in> fst ` set (all_excluded db sc)")
      case False
      with i have "(k, i) \<in> set (kept_items db sc)" by (simp add: kept_items_def)
      then have "k \<in> fst ` set (kept_items db sc)" by (rule image_eqI [rotated]) simp
      then show ?thesis ..
    qed simp
  qed
  moreover have "fst ` set (kept_items db sc) \<subseteq> fst ` set (sc_items sc)" using kept by blast
  ultimately show "fst ` set (all_excluded db sc) \<union> fst ` set (kept_items db sc) = me_id ` set ms"
    using parts by (rule same_union)
qed

lemma mandatory_same:
  "ws_id s' = ws_id s \<Longrightarrow> ws_goal s' = ws_goal s \<Longrightarrow> ws_constraints s' = ws_constraints s \<Longrightarrow>
   mandatory s' = mandatory s"
  by (simp add: mandatory_def)

lemma rendered_facts:
  fixes db :: working_db
  assumes "scan_ok w ms sc" and "length ms \<le> 80" and "distinct (map me_id ms)"
    and "int (length (mandatory s)) + 240 \<le> budget" and "length (ws_notes s) \<le> 32"
  defines "out \<equiv> rendered_for w budget db sc s"
  shows "(\<exists>r. rd_markdown out = mandatory s @ r) \<and> int (length (rd_markdown out)) \<le> budget \<and>
    set (rd_selected out) \<subseteq> snd ` set (kept_items db sc) \<and>
    distinct (map ci_id (rd_selected out)) \<and> distinct (map fst (rd_excluded out)) \<and>
    fst ` set (rd_excluded out) \<inter> ci_id ` set (rd_selected out) = {} \<and>
    fst ` set (rd_excluded out) \<union> ci_id ` set (rd_selected out) = me_id ` set ms"
proof -
  note sets = scan_sets [OF assms(1), of db]
  have same: "mandatory (with_withdrawals w db sc s) = mandatory s" "ws_notes (with_withdrawals w db sc s) = ws_notes s"
    by (simp_all add: with_withdrawals_def mandatory_def)
  have "card (me_id ` set ms) \<le> 80"
    using assms(2) card_image_le [of "set ms" me_id] card_length [of ms] by simp
  with render_markdown [OF _ _ sets(1-3), of "with_withdrawals w db sc s" budget w "sc_cache sc"]
    sets(4) assms(4,5)
  show ?thesis unfolding out_def rendered_for_def same by simp
qed

text \<open>The packet \<open>p\<close> and the session \<open>s'\<close> that the scan \<open>sc\<close> of the session \<open>s\<close> leads to.\<close>

definition packet_of :: "world \<Rightarrow> working_db \<Rightarrow> int \<Rightarrow> bool \<Rightarrow> working_session \<Rightarrow> scan
    \<Rightarrow> working_session \<Rightarrow> context_packet \<Rightarrow> bool" where
  "packet_of w db budget force s sc s' p \<longleftrightarrow>
     ws_id s' = ws_id s \<and> ws_goal s' = ws_goal s \<and> ws_constraints s' = ws_constraints s \<and>
     ws_focus s' = ws_focus s \<and> ws_active s' = ws_active s \<and> ws_notes s' = ws_notes s \<and>
     ws_pruned s' = ws_pruned s \<and>
     ws_withdrawals s' = new_withdrawals (w_learning w) (all_excluded db sc) (kept_items db sc)
       (ws_selected s) (ws_withdrawals s) \<and>
     ws_fingerprint s' = w_sha w (cp_markdown p) \<and> ws_selected s' = map ci_id (cp_selected p) \<and>
     ws_bindings s' = trim_bindings (ws_selected s' @ map fst (ws_withdrawals s')) (sc_bindings sc) \<and>
     cp_markdown p = rd_markdown (rendered_for w budget db sc s) \<and>
     cp_selected p = rd_selected (rendered_for w budget db sc s) \<and>
     cp_excluded p = sort_key fst (rd_excluded (rendered_for w budget db sc s)) \<and>
     cp_withdrawn p = map fst (ws_withdrawals s') \<and> cp_budget p = budget \<and>
     cp_used p = int (length (cp_markdown p)) \<and>
     cp_changed p = (w_sha w (cp_markdown p) \<noteq> ws_fingerprint s) \<and>
     cp_injection p = (if cp_changed p \<or> force then cp_markdown p else []) \<and>
     ws_revision s' = ws_revision s + (if cp_changed p then 1 else 0)"

text \<open>The scan of the candidates for a session.\<close>

definition scan_for :: "world \<Rightarrow> string \<Rightarrow> working_db \<Rightarrow> working_session \<Rightarrow> (wc_error, scan) result" where
  "scan_for w repo db s = rfold (scan_memory w db (tokenize (join '' '' ([ws_goal s, ws_focus s] @ ws_active s))) (ws_active s))
    (memories_for w repo db s)
    \<lparr>sc_bindings = ws_bindings s, sc_cache = [], sc_versions = [], sc_excluded = [], sc_items = []\<rparr>"

lemma compile_parts:
  assumes "compile w repo db s budget force = r" and "int (length (mandatory s)) + 240 \<le> budget"
    and "length (ws_notes s) \<le> 32"
  shows "(r = Inl (Value_Err ''invalid anchor'')) \<or>
    (\<exists>sc s' p. scan_for w repo db s = Inr sc \<and> scan_ok w (memories_for w repo db s) sc \<and> r = Inr (s', p) \<and> packet_of w db budget force s sc s' p)"
proof -
  let ?scan = "rfold (scan_memory w db (tokenize (join '' '' ([ws_goal s, ws_focus s] @ ws_active s))) (ws_active s))
    (memories_for w repo db s)
    \<lparr>sc_bindings = ws_bindings s, sc_cache = [], sc_versions = [], sc_excluded = [], sc_items = []\<rparr>"
  show ?thesis
  proof (cases ?scan)
    case (Inl e)
    with scan_all_error [OF Inl] assms(1) show ?thesis
      unfolding compile_def Let_def memories_for_def by simp
  next
    case (Inr sc)
    note scan = Inr
    have ok: "scan_ok w (memories_for w repo db s) sc"
      using scan_all_ok [OF Inr scan_start_ok] memories_for_ok(1) by simp
    from rendered_facts [OF ok memories_for_ok(2,1) assms(2,3), of db]
    have "\<not> budget < int (length (rd_markdown (rendered_for w budget db sc s)))" by linarith
    note eq = assms(1) [unfolded compile_def Let_def, folded memories_for_def [unfolded Let_def],
        unfolded Inr rbind_simps, folded all_excluded_def, folded kept_items_def,
        folded with_withdrawals_def, folded rendered_for_def]
    note small = \<open>\<not> budget < int (length (rd_markdown (rendered_for w budget db sc s)))\<close>
    show ?thesis
    proof (cases r)
      case (Inl e)
      with eq small show ?thesis by simp
    next
      case (Inr sp)
      obtain s' p where sp: "sp = (s', p)" by (cases sp)
      from eq small Inr sp show ?thesis
        by (intro disjI2 exI [of _ sc] exI [of _ s'] exI [of _ p])
           (use ok scan in \<open>auto simp: packet_of_def with_withdrawals_def scan_for_def\<close>)
    qed
  qed
qed

end
