(* ===== verification/Working_Ops.thy ===== *)
theory Working_Ops
  imports Working_Compile
begin

section \<open>Working context: hooks, operations and the invariant of the store\<close>

text \<open>
  The hook boundary of \<open>working_context/hooks.py\<close>, the operations of the engine as one datatype
  with its executor, and the invariant every operation keeps: a session is stored under the key of
  its own id, its notes are bounded and at most one of them is the next step.
\<close>

subsection \<open>Hooks\<close>

text \<open>
  What the hook reads of its payload: the session id and the prompt when they are strings, whether
  an agent id is present, the directory, the path arguments of the tool, and whether the
  repository's configuration and store can be opened.
\<close>

record hook_payload =
  hp_session :: "string option"
  hp_agent :: bool
  hp_cwd :: string
  hp_prompt :: "string option"
  hp_paths :: "string list"
  hp_opens :: bool

definition unavailable :: string where
  "unavailable = ''Working context unavailable; previously recalled memory may be stale. '' @
     ''Re-read sources; inspect `onmc working status`.''"

text \<open>\<open>str(cwd / value)\<close> on POSIX.\<close>

definition path_anchor :: "string \<Rightarrow> string" where
  "path_anchor p = (if starts_with p ''//'' \<and> \<not> starts_with p ''///'' then ''//''
                    else if starts_with p ''/'' then ''/'' else [])"

definition path_join :: "string \<Rightarrow> string \<Rightarrow> string" where
  "path_join a b = (let base = (if starts_with b ''/'' then [] else path_parts a);
       r = path_anchor (if starts_with b ''/'' then b else a) @ join ''/'' (base @ path_parts b)
     in if r = [] then ''.'' else r)"

definition tool_files :: "hook_payload \<Rightarrow> string list" where
  "tool_files p = map (path_join (hp_cwd p)) (filter (\<lambda>v. strip v \<noteq> []) (hp_paths p))"

definition hook_context :: "world \<Rightarrow> string \<Rightarrow> string \<Rightarrow> string option \<Rightarrow> string list option \<Rightarrow> bool
    \<Rightarrow> (working_db, wc_error, bool \<times> string) action" where
  "hook_context w repo sid focus files force db =
     (case context_packet_for w repo sid focus files force True db of
        Inl e \<Rightarrow> (db, Inl e) | Inr (p, db') \<Rightarrow> (db', Inr (True, cp_injection p)))"

definition hook_start :: "world \<Rightarrow> string \<Rightarrow> string \<Rightarrow> (working_db, wc_error, unit) action" where
  "hook_start w sid goal db = (case start_session w sid goal None False db of
     Inl e \<Rightarrow> (db, Inl e) | Inr (s, db') \<Rightarrow> (db', Inr ()))"

text \<open>The body of the \<open>try\<close> once the store is open.\<close>

definition hook_body :: "world \<Rightarrow> string \<Rightarrow> string \<Rightarrow> string \<Rightarrow> hook_payload
    \<Rightarrow> (working_db, wc_error, bool \<times> string) action" where
  "hook_body w repo event sid p db =
     (case read_config db of Inl e \<Rightarrow> (db, Inl e)
      | Inr c \<Rightarrow> if \<not> wc_enabled c then (db, Inr (False, [])) else
        (case load_session w db sid of Inl e \<Rightarrow> (db, Inl e)
         | Inr so \<Rightarrow>
             if event = ''UserPromptSubmit'' then
               (case hp_prompt p of None \<Rightarrow> (db, Inr (True, []))
                | Some prompt \<Rightarrow> if strip prompt = [] then (db, Inr (True, []))
                    else abind (if so = None then hook_start w sid prompt else areturn ())
                           (\<lambda>_. hook_context w repo sid (Some prompt) None False) db)
             else if so = None then (db, Inr (True, []))
             else if event = ''SessionStart'' then hook_context w repo sid None None True db
             else if event = ''PreToolUse'' \<or> event = ''PostToolUse''
             then hook_context w repo sid None
                    (if tool_files p = [] then None else Some (tool_files p)) False db
             else (db, Inr (True, []))))"

definition working_hook_output :: "world \<Rightarrow> string \<Rightarrow> string \<Rightarrow> hook_payload \<Rightarrow> working_db
    \<Rightarrow> working_db \<times> bool \<times> string" where
  "working_hook_output w repo event p db =
     (case hp_session p of None \<Rightarrow> (db, False, [])
      | Some sid \<Rightarrow>
          if strip sid = [] then (db, False, []) else if hp_agent p then (db, False, [])
          else if \<not> hp_opens p then (db, False, [])
          else (case hook_body w repo event sid p db of
                  (db', Inr r) \<Rightarrow> (db', r)
                | (db', Inl e) \<Rightarrow> (case invalidate_delivery w sid db' of
                    Inl e' \<Rightarrow> (db', True, unavailable) | Inr db'' \<Rightarrow> (db'', True, unavailable))))"

subsection \<open>Operations\<close>

datatype working_op =
    Op_Configure bool int "string list option"
  | Op_Start string string "string list option" bool
  | Op_Note string string note_kind string "string list"
  | Op_Verify string
  | Op_Invalidate string
  | Op_Context string "string option" "string list option" bool bool
  | Op_Hook string hook_payload

text \<open>The store after an operation; an operation that raises has rolled back.\<close>

definition wc_committed :: "working_db \<Rightarrow> (wc_error, 'a \<times> working_db) result \<Rightarrow> working_db" where
  "wc_committed db r = (case r of Inl e \<Rightarrow> db | Inr (x, db') \<Rightarrow> db')"

fun run_op :: "world \<Rightarrow> string \<Rightarrow> working_op \<Rightarrow> working_db \<Rightarrow> working_db" where
  "run_op w repo (Op_Configure e b cs) db = wc_committed db (configure e b cs db)"
| "run_op w repo (Op_Start sid goal cs rp) db = wc_committed db (start_session w sid goal cs rp db)"
| "run_op w repo (Op_Note sid nid k t fs) db = wc_committed db (record_note w sid nid k t fs db)"
| "run_op w repo (Op_Verify mid) db = wc_committed db (verify_memory w mid db)"
| "run_op w repo (Op_Invalidate sid) db =
     (case invalidate_delivery w sid db of Inl e \<Rightarrow> db | Inr db' \<Rightarrow> db')"
| "run_op w repo (Op_Context sid f fs force consume) db =
     wc_committed db (context_packet_for w repo sid f fs force consume db)"
| "run_op w repo (Op_Hook event p) db = fst (working_hook_output w repo event p db)"

subsection \<open>The invariant\<close>

definition session_ok :: "working_session \<Rightarrow> bool" where
  "session_ok s \<longleftrightarrow> length (ws_notes s) \<le> 32 \<and>
     length (filter (\<lambda>n. wn_kind n = Next_Step) (ws_notes s)) \<le> 1 \<and>
     length (ws_active s) \<le> 16 \<and> distinct (ws_active s) \<and>
     length (ws_withdrawals s) \<le> 80 \<and> distinct (ws_selected s) \<and> 0 \<le> ws_pruned s"

definition stored_at :: "(string \<Rightarrow> string) \<Rightarrow> string \<Rightarrow> working_session \<Rightarrow> bool" where
  "stored_at sha k s \<longleftrightarrow> strip (ws_id s) \<noteq> [] \<and> length (ws_id s) \<le> 256 \<and>
     k = prefix @ ''session/'' @ sha (ws_id s)"

definition db_ok :: "(string \<Rightarrow> string) \<Rightarrow> working_db \<Rightarrow> bool" where
  "db_ok sha db \<longleftrightarrow> (\<forall>k s. db_meta db k = Some (S_Session s) \<longrightarrow> stored_at sha k s \<and> session_ok s)"

text \<open>A session at a key survives with its id, goal and constraints.\<close>

definition pinned :: "working_db \<Rightarrow> working_db \<Rightarrow> bool" where
  "pinned db db' \<longleftrightarrow> (\<forall>k s. db_meta db k = Some (S_Session s) \<longrightarrow>
     (\<exists>s'. db_meta db' k = Some (S_Session s') \<and> ws_id s' = ws_id s \<and> ws_goal s' = ws_goal s \<and>
        ws_constraints s' = ws_constraints s))"

lemma pinned_refl: "pinned db db"
  by (simp add: pinned_def)

lemma pinned_trans: "pinned a b \<Longrightarrow> pinned b c \<Longrightarrow> pinned a c"
  unfolding pinned_def by metis

lemma session_keys_differ:
  "prefix @ ''session/'' @ x \<noteq> config_key" "prefix @ ''session/'' @ x \<noteq> anchor_key w m"
  by (simp_all add: config_key_def anchor_key_def)

lemma other_meta_ok:
  assumes "db_ok sha db" and "\<And>x. k \<noteq> prefix @ ''session/'' @ x" and "\<And>s. v \<noteq> S_Session s"
  shows "db_ok sha (write_meta k v db) \<and> pinned db (write_meta k v db)"
proof -
  have "k' \<noteq> k" if "db_meta db k' = Some (S_Session s)" for k' s
    using assms(1,2) that by (auto simp: db_ok_def stored_at_def)
  with assms show ?thesis by (auto simp: db_ok_def pinned_def write_meta_def)
qed

lemma load_session_Some:
  assumes "load_session w db sid = Inr (Some s)"
  obtains k where "session_key w sid = Inr k" "db_meta db k = Some (S_Session s)"
proof -
  from assms obtain k where k: "session_key w sid = Inr k"
    by (auto simp: load_session_def rbind_eq_Inr)
  show ?thesis
  proof (cases "db_meta db k")
    case None
    with assms k show ?thesis by (simp add: load_session_def)
  next
    case (Some v)
    with assms k that show ?thesis by (cases v) (simp_all add: load_session_def)
  qed
qed

lemma required_loads: "require_session w db sid = Inr s \<longleftrightarrow> load_session w db sid = Inr (Some s)"
  by (auto simp: require_session_def rbind_eq_Inr split: option.split_asm)

lemma config_saved_ok: "db_ok sha db \<Longrightarrow>
    db_ok sha (write_meta config_key (S_Config c) db) \<and> pinned db (write_meta config_key (S_Config c) db)"
  by (rule other_meta_ok, assumption, rule session_keys_differ(1) [symmetric], simp)

lemma anchor_saved_ok: "db_ok sha db \<Longrightarrow>
    db_ok sha (write_meta (anchor_key w mid) (S_Anchor b) db)
    \<and> pinned db (write_meta (anchor_key w mid) (S_Anchor b) db)"
  by (rule other_meta_ok, assumption, rule session_keys_differ(2) [symmetric], simp)

lemma saved_ok:
  assumes "db_ok (w_sha w) db" and "save_session w db s = Inr db'" and "session_ok s"
  shows "db_ok (w_sha w) db'"
  using assms
  by (auto simp: db_ok_def save_session_def session_key_def stored_at_def write_meta_def split: if_split_asm)

lemma saved_pinned:
  assumes "db_ok (w_sha w) db" and "require_session w db sid = Inr s" and "save_session w db s' = Inr db'"
    and "ws_id s' = ws_id s" and "ws_goal s' = ws_goal s" and "ws_constraints s' = ws_constraints s"
  shows "pinned db db'"
proof -
  from assms(2) obtain k where k: "db_meta db k = Some (S_Session s)"
    unfolding required_loads by (rule load_session_Some)
  with assms(1) have "k = prefix @ ''session/'' @ w_sha w (ws_id s)" by (auto simp: db_ok_def stored_at_def)
  with assms(3,4) have "db' = write_meta k (S_Session s') db"
    by (auto simp: save_session_def session_key_def split: if_split_asm)
  with k assms(4-6) show ?thesis by (auto simp: pinned_def write_meta_def)
qed

lemma required_ok: "db_ok (w_sha w) db \<Longrightarrow> require_session w db sid = Inr s \<Longrightarrow> session_ok s"
  unfolding required_loads by (elim load_session_Some) (simp add: db_ok_def)

subsection \<open>Every operation\<close>

lemma configure_ok:
  "db_ok sha db \<Longrightarrow> configure e b cs db = Inr (c, db') \<Longrightarrow> db_ok sha db' \<and> pinned db db'"
  using config_saved_ok by (auto simp: configure_def rbind_eq_Inr)

lemma verify_ok:
  "db_ok sha db \<Longrightarrow> verify_memory w mid db = Inr (h, db') \<Longrightarrow> db_ok sha db' \<and> pinned db db'"
  using anchor_saved_ok [of sha db w mid]
  by (auto simp: verify_memory_def rbind_eq_Inr split: option.split_asm if_split_asm)

lemma add_note_ok: "session_ok s \<Longrightarrow> session_ok (add_note n s)"
proof -
  assume ok: "session_ok s"
  let ?kept = "if wn_kind n = Next_Step then filter (\<lambda>m. wn_kind m \<noteq> Next_Step) (ws_notes s) else ws_notes s"
  have one: "length (filter (\<lambda>n. wn_kind n = Next_Step) (?kept @ [n])) \<le> 1"
    using ok by (auto simp: session_ok_def filter_empty_conv)
  have drop: "length (filter P (drop k xs)) \<le> length (filter P xs)" for P k and xs :: "working_note list"
  proof -
    have "length (filter P (take k xs @ drop k xs)) = length (filter P xs)" by (simp only: append_take_drop_id)
    then show ?thesis unfolding filter_append by simp
  qed
  have "length (filter (\<lambda>n. wn_kind n = Next_Step) (drop k (?kept @ [n]))) \<le> 1" for k
    by (rule order_trans [OF drop one])
  note next_step = this [of "length (?kept @ [n]) - 32"]
  have "length (drop (length (?kept @ [n]) - 32) (?kept @ [n])) \<le> 32" by simp
  with next_step have "length (ws_notes (add_note n s)) \<le> 32"
    "length (filter (\<lambda>n. wn_kind n = Next_Step) (ws_notes (add_note n s))) \<le> 1"
    unfolding add_note_def Let_def max_notes_def working_session.select_convs
      working_session.update_convs working_session.surjective by simp_all
  with ok show ?thesis unfolding session_ok_def by (simp add: add_note_def Let_def)
qed

lemma note_ok:
  assumes "db_ok (w_sha w) db" and "record_note w sid nid kind t fs db = Inr (s, db')"
  shows "db_ok (w_sha w) db' \<and> pinned db db'"
proof -
  from assms(2) obtain s0 n where s0: "require_session w db sid = Inr s0"
    and r: "db' = db \<or> save_session w db (add_note n s0) = Inr db'"
    by (auto simp: record_note_def rbind_eq_Inr Let_def split: if_split_asm)
  have "ws_id (add_note n s0) = ws_id s0" "ws_goal (add_note n s0) = ws_goal s0"
    "ws_constraints (add_note n s0) = ws_constraints s0"
    by (simp_all add: add_note_def Let_def)
  with r saved_ok [OF assms(1) _ add_note_ok [OF required_ok [OF assms(1) s0]]]
    saved_pinned [OF assms(1) s0] assms(1) show ?thesis by (auto intro: pinned_refl)
qed

lemma invalidate_ok:
  assumes "db_ok (w_sha w) db" and "invalidate_delivery w sid db = Inr db'"
  shows "db_ok (w_sha w) db' \<and> pinned db db'"
proof -
  from assms(2) obtain s where s: "require_session w db sid = Inr s"
    and r: "save_session w db (s\<lparr>ws_fingerprint := []\<rparr>) = Inr db'"
    by (auto simp: invalidate_delivery_def rbind_eq_Inr)
  have "session_ok (s\<lparr>ws_fingerprint := []\<rparr>)"
    using required_ok [OF assms(1) s] by (simp add: session_ok_def)
  with saved_ok [OF assms(1) r] saved_pinned [OF assms(1) s r] show ?thesis by simp
qed

lemma start_ok:
  assumes "db_ok (w_sha w) db" and "start_session w sid goal cs rp db = Inr (s, db')"
  shows "db_ok (w_sha w) db' \<and> (\<not> rp \<longrightarrow> pinned db db')"
proof -
  from assms(2) obtain current goal' where cur: "load_session w db sid = Inr current"
    and r: "db' = db \<or> (\<exists>c. save_session w db (new_session sid goal' c
         (case current of None \<Rightarrow> 1 | Some old \<Rightarrow> ws_revision old + 1)) = Inr db' \<and> (current = None \<or> rp))"
    by (auto simp: start_session_def rbind_eq_Inr Let_def split: if_split_asm)
  have new: "session_ok (new_session sid goal' c n)" for c n
    by (simp add: session_ok_def new_session_def)
  have "pinned db db'" if none: "current = None" and save: "save_session w db (new_session sid goal' c n) = Inr db'" for c n
  proof -
    from save obtain k where k: "session_key w sid = Inr k" "db' = write_meta k (S_Session (new_session sid goal' c n)) db"
      by (auto simp: save_session_def new_session_def rbind_eq_Inr)
    with cur none have "\<nexists>s. db_meta db k = Some (S_Session s)"
      by (auto simp: load_session_def)
    with k show ?thesis by (auto simp: pinned_def write_meta_def)
  qed
  with r assms(1) new saved_ok [OF assms(1)] show ?thesis by (auto intro: pinned_refl)
qed

text \<open>The session before the packet is compiled.\<close>

lemma set_focus_files:
  assumes "set_focus f s0 = Inr s1" and "set_files w fs s1 = Inr s" and "session_ok s0"
  shows "session_ok s \<and> ws_id s = ws_id s0 \<and> ws_goal s = ws_goal s0 \<and> ws_constraints s = ws_constraints s0 \<and>
    ws_selected s = ws_selected s0 \<and> ws_fingerprint s = ws_fingerprint s0 \<and> ws_notes s = ws_notes s0"
proof -
  from assms(1) have f: "s1 = s0 \<or> (\<exists>t. s1 = s0\<lparr>ws_focus := t\<rparr>)"
    by (auto simp: set_focus_def rbind_eq_Inr split: option.split_asm)
  from assms(2) have "s = s1 \<or> (\<exists>ps. s = s1\<lparr>ws_active := take 16 (dedup ps)\<rparr>)"
    by (auto simp: set_files_def rbind_eq_Inr max_files_def split: option.split_asm)
  with f assms(3) show ?thesis by (auto simp: session_ok_def)
qed

lemma check_budget_Inr: "check_budget s b = Inr u \<longleftrightarrow> int (length (mandatory s)) + 240 \<le> b"
  by (simp add: check_budget_def require_eq_Inr)

lemma context_parts:
  assumes "context_packet_for w repo sid f fs force consume db = Inr (p, db')"
  obtains c s0 s1 s s' where "read_config db = Inr c" "require_session w db sid = Inr s0"
    "set_focus f s0 = Inr s1" "set_files w fs s1 = Inr s" "int (length (mandatory s)) + 240 \<le> wc_budget c"
    "compile w repo db s (wc_budget c) force = Inr (s', p)"
    "save_session w db (if consume then s' else s'\<lparr>ws_fingerprint := ws_fingerprint s, ws_selected := ws_selected s\<rparr>)
       = Inr db'"
  using assms by (auto simp: context_packet_for_def rbind_eq_Inr check_budget_Inr Let_def)

lemma compiled_session:
  assumes "compile w repo db s budget force = Inr (s', p)" and "int (length (mandatory s)) + 240 \<le> budget"
    and "session_ok s"
  obtains sc where "scan_ok w (memories_for w repo db s) sc" "packet_of w db budget force s sc s' p"
proof -
  have "length (ws_notes s) \<le> 32" using assms(3) by (simp add: session_ok_def)
  from compile_parts [OF assms(1,2) this] that show ?thesis by blast
qed

lemma compiled_keeps:
  assumes "compile w repo db s budget force = Inr (s', p)" and "int (length (mandatory s)) + 240 \<le> budget"
    and "session_ok s"
  shows "session_ok s' \<and> ws_id s' = ws_id s \<and> ws_goal s' = ws_goal s \<and> ws_constraints s' = ws_constraints s \<and>
    ws_notes s' = ws_notes s \<and> ws_pruned s' = ws_pruned s"
proof -
  obtain sc where ok: "scan_ok w (memories_for w repo db s) sc"
    and p: "packet_of w db budget force s sc s' p" by (rule compiled_session [OF assms])
  from assms(3) have "length (ws_notes s) \<le> 32" by (simp add: session_ok_def)
  from rendered_facts [OF ok memories_for_ok(2,1) assms(2) this, of db] p
  have "distinct (map ci_id (cp_selected p))" by (simp add: packet_of_def)
  with assms(3) withdrawals_bounded p show ?thesis by (simp add: session_ok_def packet_of_def)
qed

lemma context_ok:
  assumes "db_ok (w_sha w) db" and "context_packet_for w repo sid f fs force consume db = Inr (p, db')"
  shows "db_ok (w_sha w) db' \<and> pinned db db'"
proof -
  obtain c s0 s1 s s' where "read_config db = Inr c" and s0: "require_session w db sid = Inr s0"
    and sf: "set_focus f s0 = Inr s1" "set_files w fs s1 = Inr s"
    and b: "int (length (mandatory s)) + 240 \<le> wc_budget c"
    and cm: "compile w repo db s (wc_budget c) force = Inr (s', p)"
    and sv: "save_session w db (if consume then s'
        else s'\<lparr>ws_fingerprint := ws_fingerprint s, ws_selected := ws_selected s\<rparr>) = Inr db'"
    by (rule context_parts [OF assms(2)])
  note s = set_focus_files [OF sf required_ok [OF assms(1) s0]]
  note s' = compiled_keeps [OF cm b conjunct1 [OF s]]
  have "session_ok (if consume then s' else s'\<lparr>ws_fingerprint := ws_fingerprint s, ws_selected := ws_selected s\<rparr>)"
    using conjunct1 [OF s] conjunct1 [OF s'] by (cases consume) (simp_all add: session_ok_def)
  with saved_ok [OF assms(1) sv] saved_pinned [OF assms(1) s0 sv] s s' show ?thesis by simp
qed

text \<open>What the hook does to the store is a sequence of engine operations.\<close>

definition keeps :: "world \<Rightarrow> working_db \<Rightarrow> working_db \<Rightarrow> bool" where
  "keeps w db db' \<longleftrightarrow> db_ok (w_sha w) db' \<and> pinned db db'"

lemma keeps_refl: "db_ok (w_sha w) db \<Longrightarrow> keeps w db db"
  by (simp add: keeps_def pinned_refl)

lemma keeps_trans: "keeps w a b \<Longrightarrow> keeps w b c \<Longrightarrow> keeps w a c"
  unfolding keeps_def by (metis pinned_trans)

lemma hook_context_keeps:
  "db_ok (w_sha w) db \<Longrightarrow> keeps w db (fst (hook_context w repo sid f fs force db))"
  using context_ok [of w db repo sid f fs force True]
  by (auto simp: hook_context_def keeps_def pinned_refl split: sum.split)

lemma hook_start_keeps: "db_ok (w_sha w) db \<Longrightarrow> keeps w db (fst (hook_start w sid goal db))"
  using start_ok [of w db sid goal None False]
  by (auto simp: hook_start_def keeps_def pinned_refl split: sum.split)

lemma hook_prompt_keeps:
  assumes "db_ok (w_sha w) db"
  shows "keeps w db (fst (abind (if b then hook_start w sid t else areturn ())
    (\<lambda>_. hook_context w repo sid f fs force) db))"
proof -
  have first: "keeps w db (fst ((if b then hook_start w sid t else areturn ()) db))"
    using assms hook_start_keeps keeps_refl by simp
  obtain d r where d: "(if b then hook_start w sid t else areturn ()) db = (d, r)" by fastforce
  with first have "keeps w db d" by simp
  with d hook_context_keeps [of w d] keeps_trans show ?thesis
    by (cases r) (auto simp: abind_def keeps_def)
qed

lemma hook_body_keeps:
  assumes "db_ok (w_sha w) db" shows "keeps w db (fst (hook_body w repo event sid p db))"
  unfolding hook_body_def
  using assms keeps_refl [OF assms] hook_context_keeps [OF assms]
    hook_prompt_keeps [OF assms, where b = True, unfolded if_True]
  by (simp split: sum.split option.split)

lemma hook_keeps:
  assumes "db_ok (w_sha w) db" shows "keeps w db (fst (working_hook_output w repo event p db))"
proof (cases "hp_session p")
  case None
  with keeps_refl [OF assms] show ?thesis by (simp add: working_hook_output_def)
next
  case (Some sid)
  obtain db1 r where b: "hook_body w repo event sid p db = (db1, r)" by fastforce
  with hook_body_keeps [OF assms, of repo event sid p] have k: "keeps w db db1" by simp
  have "keeps w db db2" if "invalidate_delivery w sid db1 = Inr db2" for db2
    using invalidate_ok [OF _ that] k keeps_trans by (auto simp: keeps_def)
  with Some b k keeps_refl [OF assms] show ?thesis
    by (auto simp: working_hook_output_def split: sum.split)
qed

fun replaces :: "working_op \<Rightarrow> bool" where
  "replaces (Op_Start sid goal cs rp) = rp"
| "replaces _ = False"

lemma run_op_ok:
  assumes "db_ok (w_sha w) db"
  shows "db_ok (w_sha w) (run_op w repo op db) \<and> (\<not> replaces op \<longrightarrow> pinned db (run_op w repo op db))"
proof (cases op)
  case (Op_Configure e b cs)
  with configure_ok [OF assms] assms show ?thesis
    by (auto simp: wc_committed_def pinned_refl split: sum.split)
next
  case (Op_Start sid goal cs rp)
  with start_ok [OF assms] assms show ?thesis
    by (auto simp: wc_committed_def pinned_refl split: sum.split)
next
  case (Op_Note sid nid k t fs)
  with note_ok [OF assms] assms show ?thesis
    by (auto simp: wc_committed_def pinned_refl split: sum.split)
next
  case (Op_Verify mid)
  with verify_ok [OF assms] assms show ?thesis
    by (auto simp: wc_committed_def pinned_refl split: sum.split)
next
  case (Op_Invalidate sid)
  with invalidate_ok [OF assms] assms show ?thesis by (auto simp: pinned_refl split: sum.split)
next
  case (Op_Context sid f fs force consume)
  with context_ok [OF assms] assms show ?thesis
    by (auto simp: wc_committed_def pinned_refl split: sum.split)
next
  case (Op_Hook event p)
  with hook_keeps [OF assms] show ?thesis by (simp add: keeps_def)
qed

subsection \<open>Reachable stores\<close>

text \<open>
  Between two operations the files, the clock and the search index may change (another \<open>world\<close>
  with the same hash function), and other commands may change the memories and their edges.
\<close>

inductive working_reach :: "(string \<Rightarrow> string) \<Rightarrow> working_db \<Rightarrow> bool" for sha where
  fresh: "(\<forall>k s. db_meta db k \<noteq> Some (S_Session s)) \<Longrightarrow> working_reach sha db"
| operation: "working_reach sha db \<Longrightarrow> w_sha w = sha \<Longrightarrow> working_reach sha (run_op w repo op db)"
| memories: "working_reach sha db \<Longrightarrow> working_reach sha (db\<lparr>db_memories := ms, db_edges := es\<rparr>)"

lemma working_reach_ok: "working_reach sha db \<Longrightarrow> db_ok sha db"
proof (induction rule: working_reach.induct)
  case (operation db w repo op)
  then show ?case using run_op_ok [of w db repo op] by simp
qed (simp_all add: db_ok_def)

text \<open>A packet is produced whenever the session fits the budget and the scan reads no bad record.\<close>

lemma context_succeeds:
  assumes "read_config db = Inr c" and "require_session w db sid = Inr s0" and "set_focus f s0 = Inr s1"
    and "set_files w fs s1 = Inr s" and "int (length (mandatory s)) + 240 \<le> wc_budget c"
    and "length (ws_notes s) \<le> 32" and "scan_for w repo db s = Inr sc" and "session_key w (ws_id s) = Inr k"
  shows "\<exists>p db'. context_packet_for w repo sid f fs force consume db = Inr (p, db') \<and>
    cp_selected p = rd_selected (rendered_for w (wc_budget c) db sc s)"
proof -
  obtain r where r: "compile w repo db s (wc_budget c) force = r" by simp
  have "r \<noteq> Inl (Value_Err ''invalid anchor'')"
  proof
    assume "r = Inl (Value_Err ''invalid anchor'')"
    with r assms(7) show False
      unfolding compile_def Let_def scan_for_def memories_for_def by (auto split: if_split_asm)
  qed
  with compile_parts [OF r assms(5,6)] assms(7) obtain s' p where p: "r = Inr (s', p)"
    "packet_of w db (wc_budget c) force s sc s' p" by auto
  then have "ws_id s' = ws_id s" by (simp add: packet_of_def)
  with assms r p show ?thesis
    by (cases consume) (simp_all add: context_packet_for_def check_budget_def save_session_def packet_of_def)
qed

end
