(* ===== verification/Working_Props.thy ===== *)
theory Working_Props
  imports Working_Ops
begin

section \<open>Working context: properties\<close>

text \<open>
  The properties of the working context: what a delivered packet contains, what the store keeps
  over every history of operations and hooks, and what a hook may tell a session.
\<close>

lemma compiled_facts:
  assumes "compile w repo db s budget force = Inr (s', p)" and "int (length (mandatory s)) + 240 \<le> budget"
    and "session_ok s"
  obtains sc where "scan_ok w (memories_for w repo db s) sc" "packet_of w db budget force s sc s' p"
    "\<exists>r. cp_markdown p = mandatory s @ r" "int (length (cp_markdown p)) \<le> budget"
    "set (cp_selected p) \<subseteq> snd ` set (kept_items db sc)" "distinct (map ci_id (cp_selected p))"
    "distinct (map fst (cp_excluded p))" "fst ` set (cp_excluded p) \<inter> ci_id ` set (cp_selected p) = {}"
    "fst ` set (cp_excluded p) \<union> ci_id ` set (cp_selected p) = me_id ` set (memories_for w repo db s)"
proof -
  obtain sc where ok: "scan_ok w (memories_for w repo db s) sc" and p: "packet_of w db budget force s sc s' p"
    by (rule compiled_session [OF assms])
  have "length (ws_notes s) \<le> 32" using assms(3) by (simp add: session_ok_def)
  note f = rendered_facts [OF ok memories_for_ok(2,1) assms(2) this, of db]
  show ?thesis
    by (rule that [OF ok p])
       (use f p in \<open>simp_all add: packet_of_def distinct_map_sort\<close>)
qed

text \<open>The session as the caller's focus and files leave it.\<close>

definition prepared :: "world \<Rightarrow> string \<Rightarrow> string option \<Rightarrow> string list option \<Rightarrow> working_db
    \<Rightarrow> (wc_error, working_session) result" where
  "prepared w sid f fs db = rbind (require_session w db sid) (\<lambda>s. rbind (set_focus f s) (set_files w fs))"

text \<open>The packet of a reachable store, with the session it was compiled from.\<close>

lemma reach_db_ok: "working_reach sha db \<Longrightarrow> w_sha w = sha \<Longrightarrow> db_ok (w_sha w) db"
  using working_reach_ok by simp

lemma packet_facts:
  assumes ok: "db_ok (w_sha w) db"
    and "context_packet_for w repo sid f fs force consume db = Inr (p, db')"
  obtains c s0 s s' where "read_config db = Inr c" "require_session w db sid = Inr s0"
    "ws_id s = ws_id s0" "ws_goal s = ws_goal s0" "ws_constraints s = ws_constraints s0"
    "ws_selected s = ws_selected s0" "ws_fingerprint s = ws_fingerprint s0"
    "mandatory s = mandatory s0" "session_ok s" "int (length (mandatory s)) + 240 \<le> wc_budget c"
    "compile w repo db s (wc_budget c) force = Inr (s', p)"
    "save_session w db (if consume then s' else s'\<lparr>ws_fingerprint := ws_fingerprint s, ws_selected := ws_selected s\<rparr>)
       = Inr db'"
    "prepared w sid f fs db = Inr s"
proof -
  obtain c s0 s1 s s' where cfg: "read_config db = Inr c" and s0: "require_session w db sid = Inr s0"
    and sf: "set_focus f s0 = Inr s1" "set_files w fs s1 = Inr s"
    and b: "int (length (mandatory s)) + 240 \<le> wc_budget c"
    and cm: "compile w repo db s (wc_budget c) force = Inr (s', p)"
    and sv: "save_session w db (if consume then s'
        else s'\<lparr>ws_fingerprint := ws_fingerprint s, ws_selected := ws_selected s\<rparr>) = Inr db'"
    by (rule context_parts [OF assms(2)])
  note s = set_focus_files [OF sf required_ok [OF ok s0]]
  then have same: "ws_id s = ws_id s0" "ws_goal s = ws_goal s0" "ws_constraints s = ws_constraints s0"
    "ws_selected s = ws_selected s0" "ws_fingerprint s = ws_fingerprint s0" "session_ok s"
    by simp_all
  have prep: "prepared w sid f fs db = Inr s" using s0 sf by (simp add: prepared_def)
  show ?thesis
    by (rule that [OF cfg s0 same(1-5) mandatory_same [OF same(1-3)] same(6) b cm sv prep])
qed

lemma saved_at:
  assumes "save_session w db s = Inr db'"
  obtains k where "session_key w (ws_id s) = Inr k" "db_meta db' k = Some (S_Session s)"
proof -
  from assms obtain k where "session_key w (ws_id s) = Inr k" "db' = write_meta k (S_Session s) db"
    by (auto simp: save_session_def rbind_eq_Inr)
  with that [of k] show ?thesis by (simp add: write_meta_def)
qed

subsection \<open>The packet\<close>

lemma rmap_Inl: "rmap f xs = Inl e \<Longrightarrow> \<exists>x. f x = Inl e"
  by (induction xs) (auto simp: rbind_eq_Inl)

text \<open>None of the other steps fails with the renderer's message.\<close>

lemma context_errors:
  "read_config db \<noteq> Inl (Value_Err ''Context renderer exceeded budget'')"
  "require_session w db sid \<noteq> Inl (Value_Err ''Context renderer exceeded budget'')"
  "set_focus f s \<noteq> Inl (Value_Err ''Context renderer exceeded budget'')"
  "set_files w fs s \<noteq> Inl (Value_Err ''Context renderer exceeded budget'')"
  "check_budget s b \<noteq> Inl (Value_Err ''Context renderer exceeded budget'')"
  "save_session w db s \<noteq> Inl (Value_Err ''Context renderer exceeded budget'')"
proof -
  show "read_config db \<noteq> Inl (Value_Err ''Context renderer exceeded budget'')"
    by (simp add: read_config_def validate_config_def split: option.split stored.split)
  show "require_session w db sid \<noteq> Inl (Value_Err ''Context renderer exceeded budget'')"
    by (simp add: require_session_def load_session_def session_key_def rbind_def
        split: sum.split option.split stored.split)
  show "set_focus f s \<noteq> Inl (Value_Err ''Context renderer exceeded budget'')"
    by (simp add: set_focus_def clean_text_def rbind_def Let_def split: option.split)
  have "relative w v \<noteq> Inl (Value_Err ''Context renderer exceeded budget'')" for v
    by (simp add: relative_def split: option.split)
  then show "set_files w fs s \<noteq> Inl (Value_Err ''Context renderer exceeded budget'')"
    by (auto simp: set_files_def rbind_eq_Inl dest: rmap_Inl split: option.split)
  show "check_budget s b \<noteq> Inl (Value_Err ''Context renderer exceeded budget'')"
    by (simp add: check_budget_def require_def)
  show "save_session w db s \<noteq> Inl (Value_Err ''Context renderer exceeded budget'')"
    by (simp add: save_session_def session_key_def rbind_def)
qed

lemma packet_text:
  assumes "db_ok (w_sha w) db" and "context_packet_for w repo sid f fs force consume db = Inr (p, db')"
  shows "\<exists>c s r. read_config db = Inr c \<and> require_session w db sid = Inr s \<and> cp_markdown p = mandatory s @ r \<and>
    cp_used p = int (length (cp_markdown p)) \<and> cp_used p \<le> wc_budget c \<and>
    (cp_injection p = [] \<or> cp_injection p = cp_markdown p)"
proof -
  from assms obtain c :: working_config and s0 s s' where k: "compile w repo db s (wc_budget c) force = Inr (s', p)"
      "read_config db = Inr c" "require_session w db sid = Inr s0" "mandatory s = mandatory s0" "session_ok s"
      "int (length (mandatory s)) + 240 \<le> wc_budget c"
    by (rule packet_facts) (rule that)
  from k(1,6,5) obtain sc where "packet_of w db (wc_budget c) force s sc s' p"
    "\<exists>r. cp_markdown p = mandatory s @ r" "int (length (cp_markdown p)) \<le> wc_budget c"
    by (rule compiled_facts) (rule that)
  with k show ?thesis by (auto simp: packet_of_def)
qed

text \<open>
  C18: in a reachable store a packet never exceeds the configured budget, the guard that would
  report it never fires, and every packet starts with the session's goal and all its constraints.
\<close>

theorem packet_pins_goal_within_budget:
  assumes "working_reach sha db" and "w_sha w = sha"
  shows "context_packet_for w repo sid f fs force consume db \<noteq> Inl (Value_Err ''Context renderer exceeded budget'') \<and>
    (\<forall>p db'. context_packet_for w repo sid f fs force consume db = Inr (p, db') \<longrightarrow>
      (\<exists>c s r. read_config db = Inr c \<and> require_session w db sid = Inr s \<and> cp_markdown p = mandatory s @ r \<and>
        cp_used p = int (length (cp_markdown p)) \<and> cp_used p \<le> wc_budget c))"
proof (intro conjI allI impI)
  note ok = reach_db_ok [OF assms]
  show "context_packet_for w repo sid f fs force consume db \<noteq> Inl (Value_Err ''Context renderer exceeded budget'')"
  proof
    assume err: "context_packet_for w repo sid f fs force consume db
      = Inl (Value_Err ''Context renderer exceeded budget'')"
    have "\<exists>(c :: working_config) s0 s1 s. require_session w db sid = Inr s0 \<and> set_focus f s0 = Inr s1 \<and> set_files w fs s1 = Inr s \<and>
        int (length (mandatory s)) + 240 \<le> wc_budget c \<and>
        compile w repo db s (wc_budget c) force = Inl (Value_Err ''Context renderer exceeded budget'')"
      using err
      by (auto simp: context_packet_for_def rbind_eq_Inl check_budget_Inr Let_def context_errors)
    then obtain c :: working_config and s0 s1 s where s: "require_session w db sid = Inr s0" "set_focus f s0 = Inr s1"
        "set_files w fs s1 = Inr s" "int (length (mandatory s)) + 240 \<le> wc_budget c"
        "compile w repo db s (wc_budget c) force = Inl (Value_Err ''Context renderer exceeded budget'')"
      by blast
    from conjunct1 [OF set_focus_files [OF s(2,3) required_ok [OF ok s(1)]]] have "length (ws_notes s) \<le> 32"
      by (simp add: session_ok_def)
    from compile_parts [OF s(5,4) this] show False by simp
  qed
next
  fix p db'
  assume "context_packet_for w repo sid f fs force consume db = Inr (p, db')"
  from packet_text [OF reach_db_ok [OF assms] this]
  show "\<exists>c s r. read_config db = Inr c \<and> require_session w db sid = Inr s \<and> cp_markdown p = mandatory s @ r \<and>
      cp_used p = int (length (cp_markdown p)) \<and> cp_used p \<le> wc_budget c"
    by blast
qed

text \<open>
  C19: every item of a packet shows a candidate of this compilation, which is a memory of the store or of
  its search: it has the id, kind, text and source of that memory, and the memory is promoted, not
  rejected, and its evidence is current: it has no file anchors and no stale label, or every anchor is
  readable now and has the contents bound to this version of the memory in the session as it is stored
  afterwards, which records the memory as selected.  No other candidate has its id.
\<close>

theorem selected_memories_are_current:
  assumes "working_reach sha db" and "w_sha w = sha"
    and "context_packet_for w repo sid f fs force True db = Inr (p, db')" and "i \<in> set (cp_selected p)"
  shows "\<exists>s k s' m. prepared w sid f fs db = Inr s \<and>
    m \<in> set (memories_for w repo db s) \<and> m \<in> set (db_memories db) \<union> (\<Union>q. set (w_search w q)) \<and>
    (\<forall>m'\<in>set (memories_for w repo db s). me_id m' = ci_id i \<longrightarrow> m' = m) \<and>
    shows_memory m i \<and> trusted m \<and>
    session_key w (ws_id s') = Inr k \<and> db_meta db' k = Some (S_Session s') \<and> ci_id i \<in> set (ws_selected s') \<and>
    evidence_current w m (ws_bindings s')"
proof -
  from reach_db_ok [OF assms(1,2)] assms(3) obtain c :: working_config and s0 s s' where k: "compile w repo db s (wc_budget c) force = Inr (s', p)" "session_ok s"
      "int (length (mandatory s)) + 240 \<le> wc_budget c" "save_session w db s' = Inr db'" "prepared w sid f fs db = Inr s"
    by (rule packet_facts [where consume = True, unfolded if_True]) (rule that)
  from k(1,3,2) obtain sc where sc: "scan_ok w (memories_for w repo db s) sc"
      "packet_of w db (wc_budget c) force s sc s' p" "set (cp_selected p) \<subseteq> snd ` set (kept_items db sc)"
    by (rule compiled_facts) (rule that)
  from sc(3) assms(4) have "i \<in> snd ` set (sc_items sc)" by (auto simp: kept_items_def)
  then obtain key where key: "(key, i) \<in> set (sc_items sc)" by auto
  with sc(1) have "item_ok w (sc_bindings sc) (memories_for w repo db s) (key, i)" by (simp add: scan_ok_def)
  then obtain m where m: "m \<in> set (memories_for w repo db s)" "me_id m = ci_id i" "shows_memory m i" "trusted m"
      "evidence_current w m (sc_bindings sc)"
    by (auto simp: item_ok_def)
  have only: "m' = m" if "m' \<in> set (memories_for w repo db s)" "me_id m' = ci_id i" for m'
    using memories_for_ok(1) [of w repo db s] that m(1,2) by (auto simp: distinct_map inj_on_def)
  have origin: "m \<in> set (db_memories db) \<union> (\<Union>q. set (w_search w q))"
    using m(1) find_candidates_origin [of w repo db s] by (auto simp: memories_for_def split: if_splits)
  have sel: "ci_id i \<in> set (ws_selected s')" using sc(2) assms(4) by (simp add: packet_of_def)
  then have "map_of (ws_bindings s') (me_id m) = map_of (sc_bindings sc) (me_id m)"
    using sc(2) m(2) by (simp add: packet_of_def trim_bindings_keeps)
  from evidence_current_bindings [OF this] m(5) have "evidence_current w m (ws_bindings s')" by simp
  moreover from k(4) obtain key' where "session_key w (ws_id s') = Inr key'" "db_meta db' key' = Some (S_Session s')"
    by (rule saved_at)
  ultimately show ?thesis using k(5) m(1,3,4) only origin sel by blast
qed

text \<open>
  No memory is delivered twice; what is delivered is neither excluded nor withdrawn; every
  candidate that is not delivered is excluded with a reason; and of two memories with a trusted
  edge the superseded one, or both sides of a contradiction, are left out.
\<close>

theorem selection_is_consistent:
  assumes "working_reach sha db" and "w_sha w = sha"
    and "context_packet_for w repo sid f fs force consume db = Inr (p, db')"
  shows "distinct (map ci_id (cp_selected p)) \<and>
    ci_id ` set (cp_selected p) \<inter> (fst ` set (cp_excluded p) \<union> set (cp_withdrawn p)) = {} \<and>
    (\<exists>s. prepared w sid f fs db = Inr s \<and>
      ci_id ` set (cp_selected p) \<union> fst ` set (cp_excluded p) = me_id ` set (memories_for w repo db s)) \<and>
    (\<forall>(l, r, t, conf)\<in>set (db_edges db). 8 / 10 \<le> conf \<and> (t = ''supersedes'' \<or> t = ''contradicts'') \<longrightarrow>
      \<not> (l \<in> ci_id ` set (cp_selected p) \<and> r \<in> ci_id ` set (cp_selected p)))"
proof -
  from reach_db_ok [OF assms(1,2)] assms(3) obtain c :: working_config and s0 s s' where
      k: "compile w repo db s (wc_budget c) force = Inr (s', p)" "session_ok s"
      "int (length (mandatory s)) + 240 \<le> wc_budget c" "prepared w sid f fs db = Inr s"
    by (rule packet_facts) (rule that)
  from k(1,3,2) obtain sc where sc: "scan_ok w (memories_for w repo db s) sc"
      "packet_of w db (wc_budget c) force s sc s' p" "set (cp_selected p) \<subseteq> snd ` set (kept_items db sc)"
      "distinct (map ci_id (cp_selected p))" "fst ` set (cp_excluded p) \<inter> ci_id ` set (cp_selected p) = {}"
      "fst ` set (cp_excluded p) \<union> ci_id ` set (cp_selected p) = me_id ` set (memories_for w repo db s)"
    by (rule compiled_facts) (rule that)
  have ids: "ci_id ` set (cp_selected p) \<subseteq> fst ` set (kept_items db sc)"
    using sc(3) keyed_id_set [OF scan_sets(1) [OF sc(1)], of db] by blast
  have "set (cp_withdrawn p) \<inter> fst ` set (kept_items db sc) = {}"
    using sc(2) withdrawals_not_items by (simp add: packet_of_def)
  with ids have wd: "ci_id ` set (cp_selected p) \<inter> set (cp_withdrawn p) = {}" by blast
  have "\<not> (l \<in> ci_id ` set (cp_selected p) \<and> r \<in> ci_id ` set (cp_selected p))"
    if e: "(l, r, t, conf) \<in> set (db_edges db)" "8 / 10 \<le> conf" "t = ''supersedes'' \<or> t = ''contradicts''"
    for l r t conf
  proof
    assume "l \<in> ci_id ` set (cp_selected p) \<and> r \<in> ci_id ` set (cp_selected p)"
    with ids have kept: "l \<in> fst ` set (kept_items db sc)" "r \<in> fst ` set (kept_items db sc)" by auto
    then have "l \<in> set (map fst (sc_items sc))" "r \<in> set (map fst (sc_items sc))" by (auto simp: kept_items_def)
    with e have "(l, r, t) \<in> set (relevant_edges db (map fst (sc_items sc)))" by (auto simp: relevant_edges_iff)
    from apply_edges_excluded [OF this e(3)] have "r \<in> fst ` set (all_excluded db sc)"
      by (simp add: all_excluded_def)
    with scan_sets(3) [OF sc(1), of db] kept(2) show False by blast
  qed
  moreover have "ci_id ` set (cp_selected p) \<inter> (fst ` set (cp_excluded p) \<union> set (cp_withdrawn p)) = {}"
    using sc(5) wd by blast
  moreover have "ci_id ` set (cp_selected p) \<union> fst ` set (cp_excluded p) = me_id ` set (memories_for w repo db s)"
    using sc(6) by (simp only: Un_commute)
  ultimately show ?thesis using sc(4) k(4) by (intro conjI exI [of _ s]) (assumption | blast)+
qed

subsection \<open>The store\<close>

text \<open>
  C39: over every history of operations and hooks a stored session stays under the key of its own
  id, with at most 32 notes of which at most one is the next step, at most 16 distinct active
  files, no memory selected twice and at most 80 pending withdrawals.
\<close>

theorem working_store_invariant:
  assumes "working_reach sha db" and "db_meta db k = Some (S_Session s)"
  shows "k = prefix @ ''session/'' @ sha (ws_id s) \<and> length (ws_notes s) \<le> 32 \<and>
    length (filter (\<lambda>n. wn_kind n = Next_Step) (ws_notes s)) \<le> 1 \<and>
    length (ws_active s) \<le> 16 \<and> distinct (ws_active s) \<and> distinct (ws_selected s) \<and>
    length (ws_withdrawals s) \<le> 80"
proof -
  from working_reach_ok [OF assms(1)] assms(2) have "stored_at sha k s" "session_ok s"
    by (auto simp: db_ok_def)
  then show ?thesis unfolding stored_at_def session_ok_def by blast
qed

text \<open>
  the goal and the constraints of a session are pinned: no note, verification, packet, hook or
  configuration change alters them, nor does a start of the session, unless it is an explicit
  replacement.
\<close>

theorem goal_changes_only_by_replacement:
  assumes "working_reach sha db" and "w_sha w = sha" and "db_meta db k = Some (S_Session s)"
    and "\<not> replaces op"
  shows "\<exists>s'. db_meta (run_op w repo op db) k = Some (S_Session s') \<and> ws_id s' = ws_id s \<and>
    ws_goal s' = ws_goal s \<and> ws_constraints s' = ws_constraints s"
proof -
  from working_reach_ok [OF assms(1)] assms(2) have "db_ok (w_sha w) db" by simp
  from run_op_ok [OF this, of repo op] assms(3,4) show ?thesis by (simp add: pinned_def)
qed

text \<open>
  inspecting a packet without consuming it leaves the delivery state of the session alone: the
  fingerprint and the selection the next delivery is compared with are those from before.
\<close>

theorem inspection_keeps_delivery_state:
  assumes "working_reach sha db" and "w_sha w = sha"
    and "context_packet_for w repo sid f fs force False db = Inr (p, db')"
  shows "\<exists>k s s'. require_session w db sid = Inr s \<and> db_meta db' k = Some (S_Session s') \<and> ws_id s' = ws_id s \<and>
    ws_fingerprint s' = ws_fingerprint s \<and> ws_selected s' = ws_selected s \<and> ws_notes s' = ws_notes s \<and>
    cp_changed p = (w_sha w (cp_markdown p) \<noteq> ws_fingerprint s)"
proof -
  from working_reach_ok [OF assms(1)] assms(2) have ok: "db_ok (w_sha w) db" by simp
  obtain c s0 s1 s s' where "read_config db = Inr c" and s0: "require_session w db sid = Inr s0"
    and sf: "set_focus f s0 = Inr s1" "set_files w fs s1 = Inr s"
    and b: "int (length (mandatory s)) + 240 \<le> wc_budget c"
    and cm: "compile w repo db s (wc_budget c) force = Inr (s', p)"
    and sv: "save_session w db (if False then s'
        else s'\<lparr>ws_fingerprint := ws_fingerprint s, ws_selected := ws_selected s\<rparr>) = Inr db'"
    by (rule context_parts [OF assms(3)])
  note s = set_focus_files [OF sf required_ok [OF ok s0]]
  obtain sc where pk: "packet_of w db (wc_budget c) force s sc s' p"
    by (rule compiled_facts [OF cm b conjunct1 [OF s]]) (rule that)
  obtain k where "db_meta db' k
      = Some (S_Session (s'\<lparr>ws_fingerprint := ws_fingerprint s, ws_selected := ws_selected s\<rparr>))"
    by (rule saved_at [OF sv [unfolded if_False]])
  with s0 conjunct2 [OF s] pk show ?thesis
    by (intro exI [of _ k] exI [of _ s0]
        exI [of _ "s'\<lparr>ws_fingerprint := ws_fingerprint s, ws_selected := ws_selected s\<rparr>"])
       (simp add: packet_of_def)
qed

text \<open>
  an explicit acknowledgement holds exactly while nothing changed: after \<open>verify_memory\<close>,
  while the memory and its files are the same, the memory counts as acknowledged without asking
  git or the stale label, and the packet's session is bound to the acknowledged contents.
\<close>

lemma hash_loop_all:
  assumes "rfold (\<lambda>v acc. rbind (relative w v) (\<lambda>rel. rbind (hash_file w rel) (\<lambda>h.
      Inr (AList.update rel h acc)))) vs acc = Inr hs" and "length cache + length vs \<le> 64" and "cache_ok w cache"
  shows "\<exists>cache'. hash_loop w vs cache acc = (cache', Inr hs)"
  using assms
proof (induction vs arbitrary: cache acc)
  case (Cons v vs)
  from Cons.prems(1) obtain rel h where r: "relative w v = Inr rel" "hash_file w rel = Inr h"
    "rfold (\<lambda>v acc. rbind (relative w v) (\<lambda>rel. rbind (hash_file w rel) (\<lambda>h.
      Inr (AList.update rel h acc)))) vs (AList.update rel h acc) = Inr hs"
    by (auto simp: rbind_eq_Inr)
  show ?case
  proof (cases "map_of cache rel")
    case None
    have "length (AList.update rel h cache) \<le> Suc (length cache)" by (induction cache) auto
    with Cons.prems(2) have "length (AList.update rel h cache) + length vs \<le> 64" by simp
    from Cons.IH [OF r(3) this cache_ok_update [OF Cons.prems(3) r(2)]] r(1,2) None Cons.prems(2)
    show ?thesis by (simp add: max_sources_def)
  next
    case (Some h')
    from map_of_SomeD [OF Some] Cons.prems(3) have "hash_file w rel = Inr h'" by (auto simp: cache_ok_def)
    with r(2) have "h' = h" by simp
    with Cons.IH [OF r(3) _ Cons.prems(3)] Cons.prems(2) r(1) Some show ?thesis by simp
  qed
qed simp

theorem acknowledged_memory_is_fresh:
  assumes "verify_memory w mid db = Inr (hs, db')" and "get_memory db mid = Some m"
    and "length cache \<le> 48" and "cache_ok w cache" and "me_id m = mid"
  shows "\<exists>cache' b. freshness w db' m (bs, cache, vs) =
      Inr ((AList.update mid b bs, cache', vs), ''acknowledged'', None) \<and>
    ab_digest b = w_memory_digest w m \<and> ab_files b = hs"
proof -
  from assms(1,2) obtain paths where paths: "anchor_paths w (me_source_ref m) = Inr paths" "paths \<noteq> []"
    and hs: "hash_files w paths = Inr hs"
    and db': "db' = write_meta (anchor_key w mid)
      (S_Anchor \<lparr>ab_digest = w_memory_digest w m, ab_files = hs\<rparr>) db"
    by (auto simp: verify_memory_def rbind_eq_Inr split: if_split_asm)
  from hs have len: "length paths \<le> 16" and loop: "rfold (\<lambda>v acc. rbind (relative w v) (\<lambda>rel.
      rbind (hash_file w rel) (\<lambda>h. Inr (AList.update rel h acc)))) paths [] = Inr hs"
    by (auto simp: hash_files_def max_files_def split: if_split_asm)
  from hash_loop_all [OF loop _ assms(4)] len assms(3) obtain cache' where
    "hash_loop w paths cache [] = (cache', Inr hs)" by auto
  with len have cached: "hash_files_cached w paths cache = (cache', Inr hs)"
    by (simp add: hash_files_cached_def max_files_def)
  have "read_anchor w db' mid = Inr (Some \<lparr>ab_digest = w_memory_digest w m, ab_files = hs\<rparr>)"
    by (simp add: read_anchor_def db' write_meta_def)
  with paths cached assms(5) show ?thesis
    by (cases paths) (auto simp: freshness_def bound_freshness_def Let_def dict_eq_def)
qed

subsection \<open>Hooks\<close>

definition session_text :: "world \<Rightarrow> string \<Rightarrow> string \<Rightarrow> bool" where
  "session_text w sid out \<longleftrightarrow> (\<exists>c db s r. read_config db = Inr c \<and> require_session w db sid = Inr s \<and>
     out = mandatory s @ r \<and> int (length out) \<le> wc_budget c)"

lemma hook_context_text:
  "db_ok (w_sha w) db \<Longrightarrow> hook_context w repo sid f fs force db = (db', Inr (on, out)) \<Longrightarrow>
   out = [] \<or> session_text w sid out"
proof -
  assume ok: "db_ok (w_sha w) db" and h: "hook_context w repo sid f fs force db = (db', Inr (on, out))"
  then obtain p where p: "context_packet_for w repo sid f fs force True db = Inr (p, db')" "out = cp_injection p"
    by (auto simp: hook_context_def split: sum.split_asm)
  from packet_text [OF ok p(1)] p(2) show ?thesis unfolding session_text_def by metis
qed

lemma hook_body_text:
  assumes ok: "db_ok (w_sha w) db" and h: "hook_body w repo event sid p db = (db', Inr (on, out))"
  shows "out = [] \<or> session_text w sid out"
proof -
  have "out = [] \<or> session_text w sid out"
    if a: "abind (if b then hook_start w sid t else areturn ()) (\<lambda>_. hook_context w repo sid f fs force) db
      = (db', Inr (on, out))" for b t f fs force
  proof -
    obtain d r where d: "(if b then hook_start w sid t else areturn ()) db = (d, r)" by fastforce
    have "keeps w db d" using hook_start_keeps [OF ok, of sid t] keeps_refl [OF ok] d by (cases b) auto
    with a d hook_context_text [of w d repo sid f fs force db' on out] show ?thesis
      by (cases r) (auto simp: abind_def keeps_def)
  qed
  note prompt = this
  from h prompt [of True] prompt [of False] hook_context_text [OF ok] show ?thesis
    by (auto simp: hook_body_def split: sum.split_asm option.split_asm if_split_asm)
qed

lemma invalidated:
  assumes ok: "db_ok (w_sha w) db" and k: "session_key w sid = Inr k" and s: "db_meta db k = Some (S_Session s)"
  shows "\<exists>db'. invalidate_delivery w sid db = Inr db' \<and> db_meta db' k = Some (S_Session (s\<lparr>ws_fingerprint := []\<rparr>))"
proof -
  from ok s have "stored_at (w_sha w) k s" by (simp add: db_ok_def)
  with k s show ?thesis
    by (simp add: invalidate_delivery_def require_session_def load_session_def save_session_def stored_at_def
        session_key_def write_meta_def)
qed

text \<open>
  what a hook may say: a child agent, a missing session id or a repository that cannot be
  opened gets nothing and changes nothing; every other answer is empty, the fixed advisory, or a
  packet of that session, which starts with its pinned goal; and after the advisory the stored
  session has no fingerprint, so the next successful packet is delivered in full.
\<close>

theorem hook_output_is_bounded_advice:
  assumes "working_reach sha db" and "w_sha w = sha" and "working_hook_output w repo event p db = (db', on, out)"
  shows "(hp_agent p \<or> hp_session p = None \<or> \<not> hp_opens p \<longrightarrow> db' = db \<and> \<not> on \<and> out = []) \<and>
    (out = [] \<or> out = unavailable \<or> (\<exists>sid. hp_session p = Some sid \<and> session_text w sid out)) \<and>
    (\<forall>sid k s. hp_session p = Some sid \<and> out = unavailable \<and> session_key w sid = Inr k \<and>
       db_meta db' k = Some (S_Session s) \<longrightarrow> ws_fingerprint s = [])"
proof (cases "\<exists>sid. hp_session p = Some sid \<and> strip sid \<noteq> [] \<and> \<not> hp_agent p \<and> hp_opens p")
  case False
  with assms(3) have "db' = db \<and> \<not> on \<and> out = []"
    by (auto simp: working_hook_output_def split: option.split_asm if_split_asm)
  then show ?thesis by (simp add: unavailable_def)
next
  case True
  then obtain sid where sid: "hp_session p = Some sid" "strip sid \<noteq> []" "\<not> hp_agent p" "hp_opens p" by blast
  note ok = reach_db_ok [OF assms(1,2)]
  obtain db1 r where b: "hook_body w repo event sid p db = (db1, r)" by fastforce
  from hook_body_keeps [OF ok, of repo event sid p] b have ok1: "db_ok (w_sha w) db1" by (simp add: keeps_def)
  show ?thesis
  proof (cases r)
    case (Inr res)
    with assms(3) sid b have res: "db' = db1" "res = (on, out)" by (auto simp: working_hook_output_def)
    with hook_body_text [OF ok b [unfolded Inr res]] have said: "out = [] \<or> session_text w sid out" by simp
    then have "out \<noteq> unavailable"
      by (auto simp: session_text_def unavailable_def mandatory_def header_def)
    with said sid show ?thesis by auto
  next
    case (Inl e)
    show ?thesis
    proof (cases "invalidate_delivery w sid db1")
      case inv: (Inl e')
      with assms(3) sid b Inl have "db' = db1" "out = unavailable" by (auto simp: working_hook_output_def)
      with sid inv invalidated [OF ok1] show ?thesis by fastforce
    next
      case inv: (Inr db2)
      with assms(3) sid b Inl have res: "db' = db2" "out = unavailable" by (auto simp: working_hook_output_def)
      have "ws_fingerprint s = []" if k: "session_key w sid = Inr k" and s: "db_meta db2 k = Some (S_Session s)" for k s
      proof -
        from inv obtain s0 where "require_session w db1 sid = Inr s0"
          by (auto simp: invalidate_delivery_def rbind_eq_Inr)
        then obtain k0 where "session_key w sid = Inr k0" "db_meta db1 k0 = Some (S_Session s0)"
          unfolding required_loads by (rule load_session_Some)
        with k have "db_meta db1 k = Some (S_Session s0)" by simp
        from invalidated [OF ok1 k this] inv s show ?thesis by auto
      qed
      with res sid show ?thesis by auto
    qed
  qed
qed

end
