(* ===== verification/Working_Witnesses.thy ===== *)
theory Working_Witnesses
  imports Working_Props
begin

section \<open>Working context: witnesses\<close>

text \<open>
  One concrete repository for the properties of the working context: a memory anchored at a file,
  a session started on it, and the packet compiled from them.
\<close>

definition wit_world :: world where
  "wit_world = \<lparr>w_resolve = (\<lambda>v. Some [v]), w_file = (\<lambda>r. if r = ''a.py'' then Contents ''x'' else Not_A_File),
     w_sha = (\<lambda>s. s), w_memory_digest = me_title, w_git = (\<lambda>p. Probe (Some ''h'') (Some ''h'') (Some ''1'')),
     w_iso = (\<lambda>s. Some 5), w_late = (\<lambda>p. False), w_search = (\<lambda>q. []), w_learning = True\<rparr>"

definition wit_memory :: memory_entry where
  "wit_memory = \<lparr>me_id = ''m1'', me_kind = ''fact'', me_title = ''cache bug'', me_summary = ''clear it'',
     me_source_ref = ''a.py'', me_tags = [], me_confidence = 1, me_feedback = 0, me_quarantined = False,
     me_staleness = ''fresh'', me_updated_at = 7\<rparr>"

definition wit_db :: working_db where
  "wit_db = \<lparr>db_meta = (\<lambda>k. None), db_memories = [wit_memory], db_edges = []\<rparr>"

definition wit_session :: working_session where
  "wit_session = new_session ''s1'' ''Fix cache'' [''no net''] 1"

definition wit_started :: working_db where
  "wit_started = run_op wit_world ''/r'' (Op_Start ''s1'' ''Fix cache'' (Some [''no net'']) False) wit_db"

definition wit_active :: working_session where
  "wit_active = wit_session\<lparr>ws_active := [''a.py'']\<rparr>"

definition wit_scan :: scan where
  "wit_scan = \<lparr>sc_bindings = [(''m1'', \<lparr>ab_digest = ''cache bug'', ab_files = [(''a.py'', ''x'')]\<rparr>)],
     sc_cache = [(''a.py'', ''x'')], sc_versions = [(''a.py'', Some 5)], sc_excluded = [],
     sc_items = [(''m1'', memory_item wit_memory ''unchanged'' (2, True))]\<rparr>"

lemma wit_reach: "working_reach (\<lambda>s. s) wit_started"
proof -
  have "working_reach (\<lambda>s. s) wit_db" by (rule working_reach.fresh) (simp add: wit_db_def)
  then show ?thesis unfolding wit_started_def
    by (rule working_reach.operation) (simp add: wit_world_def)
qed

lemma wit_sha: "w_sha wit_world = (\<lambda>s. s)"
  by (simp add: wit_world_def)

lemma wit_loaded: "require_session wit_world wit_started ''s1'' = Inr wit_session"
  by code_simp

lemma wit_files: "set_files wit_world (Some [''a.py'']) wit_session = Inr wit_active"
  by code_simp

lemma wit_config: "read_config wit_started = Inr default_config"
  by code_simp

lemma wit_scanned: "scan_for wit_world ''/r'' wit_started wit_active = Inr wit_scan"
  by code_simp

lemma wit_rendered: "map ci_id (rd_selected (rendered_for wit_world 6000 wit_started wit_scan wit_active)) = [''m1'']"
  by code_simp

lemma wit_packet:
  obtains p db' where
    "context_packet_for wit_world ''/r'' ''s1'' None (Some [''a.py'']) False consume wit_started = Inr (p, db')"
    "map ci_id (cp_selected p) = [''m1'']"
proof -
  have "set_focus None wit_session = Inr wit_session" by (simp add: set_focus_def)
  moreover have "int (length (mandatory wit_active)) + 240 \<le> wc_budget default_config" by code_simp
  moreover have "length (ws_notes wit_active) \<le> 32" by code_simp
  moreover have "session_key wit_world (ws_id wit_active) = Inr (prefix @ ''session/s1'')" by code_simp
  moreover have "wc_budget default_config = 6000" by code_simp
  ultimately show ?thesis
    using context_succeeds [OF wit_config wit_loaded _ wit_files _ _ wit_scanned, of None _ False consume] wit_rendered that
    by auto
qed

theorem packet_pins_goal_within_budget_witness:
  "\<exists>p db'. context_packet_for wit_world ''/r'' ''s1'' None (Some [''a.py'']) False True wit_started = Inr (p, db') \<and>
    (\<exists>r. cp_markdown p = mandatory wit_session @ r) \<and> cp_used p \<le> 6000"
proof -
  obtain p db' where
    p: "context_packet_for wit_world ''/r'' ''s1'' None (Some [''a.py'']) False True wit_started = Inr (p, db')"
    by (rule wit_packet) (rule that)
  with packet_pins_goal_within_budget [OF wit_reach wit_sha, of "''/r''" "''s1''" None "Some [''a.py'']" False True]
  show ?thesis using wit_config wit_loaded by (auto simp: default_config_def)
qed

theorem selected_memories_are_current_witness:
  "\<exists>p db' i k s s' m. context_packet_for wit_world ''/r'' ''s1'' None (Some [''a.py'']) False True wit_started = Inr (p, db') \<and>
    i \<in> set (cp_selected p) \<and> m \<in> set (memories_for wit_world ''/r'' wit_started s) \<and> shows_memory m i \<and> trusted m \<and>
    db_meta db' k = Some (S_Session s') \<and> ci_id i \<in> set (ws_selected s') \<and> evidence_current wit_world m (ws_bindings s')"
proof -
  obtain p db' where
    p: "context_packet_for wit_world ''/r'' ''s1'' None (Some [''a.py'']) False True wit_started = Inr (p, db')"
    and "map ci_id (cp_selected p) = [''m1'']" by (rule wit_packet)
  then obtain i where i: "i \<in> set (cp_selected p)" by (cases "cp_selected p") auto
  from selected_memories_are_current [OF wit_reach wit_sha p i] p i show ?thesis by blast
qed

theorem selection_is_consistent_witness:
  "\<exists>p db'. context_packet_for wit_world ''/r'' ''s1'' None (Some [''a.py'']) False True wit_started = Inr (p, db') \<and>
    cp_selected p \<noteq> [] \<and>
    ci_id ` set (cp_selected p) \<inter> (fst ` set (cp_excluded p) \<union> set (cp_withdrawn p)) = {}"
proof -
  obtain p db' where
    p: "context_packet_for wit_world ''/r'' ''s1'' None (Some [''a.py'']) False True wit_started = Inr (p, db')"
    and ids: "map ci_id (cp_selected p) = [''m1'']" by (rule wit_packet)
  from conjunct1 [OF conjunct2 [OF selection_is_consistent [OF wit_reach wit_sha p]]] p ids show ?thesis by auto
qed

lemma wit_stored: "db_meta wit_started (prefix @ ''session/s1'') = Some (S_Session wit_session)"
  by code_simp

theorem working_store_invariant_witness:
  "prefix @ ''session/s1'' = prefix @ ''session/'' @ ws_id wit_session \<and> length (ws_notes wit_session) \<le> 32"
  using working_store_invariant [OF wit_reach wit_stored] by simp

theorem goal_changes_only_by_replacement_witness:
  "\<exists>s'. db_meta (run_op wit_world ''/r'' (Op_Start ''s1'' ''Other goal'' None False) wit_started) (prefix @ ''session/s1'')
    = Some (S_Session s') \<and> ws_goal s' = ''Fix cache''"
proof -
  have "ws_goal wit_session = ''Fix cache''" by (simp add: wit_session_def new_session_def)
  with goal_changes_only_by_replacement [OF wit_reach wit_sha wit_stored,
      of "Op_Start ''s1'' ''Other goal'' None False" "''/r''"]
  show ?thesis by auto
qed

theorem inspection_keeps_delivery_state_witness:
  "\<exists>p db' k s'. context_packet_for wit_world ''/r'' ''s1'' None (Some [''a.py'']) False False wit_started = Inr (p, db') \<and>
    cp_selected p \<noteq> [] \<and> db_meta db' k = Some (S_Session s') \<and> ws_selected s' = []"
proof -
  obtain p db' where
    p: "context_packet_for wit_world ''/r'' ''s1'' None (Some [''a.py'']) False False wit_started = Inr (p, db')"
    and ids: "map ci_id (cp_selected p) = [''m1'']" by (rule wit_packet)
  have "ws_selected wit_session = []" by (simp add: wit_session_def new_session_def)
  with inspection_keeps_delivery_state [OF wit_reach wit_sha p] p ids wit_loaded show ?thesis by fastforce
qed

theorem acknowledged_memory_is_fresh_witness:
  "\<exists>hs db' cache' b. verify_memory wit_world ''m1'' wit_started = Inr (hs, db') \<and>
    freshness wit_world db' wit_memory ([], [], []) = Inr (([(''m1'', b)], cache', []), ''acknowledged'', None) \<and>
    ab_files b = hs"
proof -
  have "(case verify_memory wit_world ''m1'' wit_started of Inl e \<Rightarrow> False | Inr r \<Rightarrow> True)" by code_simp
  then obtain hs db' where v: "verify_memory wit_world ''m1'' wit_started = Inr (hs, db')"
    by (auto split: sum.split_asm)
  have g: "get_memory wit_started ''m1'' = Some wit_memory" by code_simp
  have "me_id wit_memory = ''m1''" by (simp add: wit_memory_def)
  from acknowledged_memory_is_fresh [OF v g _ _ this, of "[]" "[]" "[]"] v show ?thesis
    by (auto simp: cache_ok_def)
qed

definition wit_payload :: hook_payload where
  "wit_payload = \<lparr>hp_session = Some ''s1'', hp_agent = True, hp_cwd = ''/r'', hp_prompt = Some ''go'', hp_paths = [],
     hp_opens = True\<rparr>"

theorem hook_output_is_bounded_advice_witness:
  "working_hook_output wit_world ''/r'' ''SessionStart'' wit_payload wit_started = (wit_started, False, [])"
proof -
  obtain db' enabled out where h:
    "working_hook_output wit_world ''/r'' ''SessionStart'' wit_payload wit_started = (db', enabled, out)"
    by (rule prod_cases3)
  with hook_output_is_bounded_advice [OF wit_reach wit_sha h] show ?thesis by (simp add: wit_payload_def)
qed

end
