(* ===== verification/Broker_Model.thy ===== *)
theory Broker_Model
  imports Py_Base
begin

section \<open>Tool broker: actions, capabilities and policies\<close>

text \<open>
  The values of \<open>tool_broker/models.py\<close> with the checks of their constructors: a constructor that
  raises \<open>ValueError\<close> is \<open>Inl\<close> of its message.  A \<open>frozenset\<close> is the sorted list of its members.
  The file system (\<open>Path.resolve\<close>), the parser and printer of \<open>ipaddress\<close> and the IDNA codec are
  the record \<open>host_world\<close>; membership of an address in a network is computed here.  A \<open>float\<close> is a
  rational or not finite.  Arguments are taken to have their annotated types.
\<close>

subsection \<open>Vocabulary\<close>

datatype action_type = A_Tool | A_Filesystem | A_Command | A_Network | A_Secret | A_Budget | A_Deployment

fun action_type_value :: "action_type \<Rightarrow> string" where
  "action_type_value A_Tool = ''tool''"
| "action_type_value A_Filesystem = ''filesystem''"
| "action_type_value A_Command = ''command''"
| "action_type_value A_Network = ''network''"
| "action_type_value A_Secret = ''secret''"
| "action_type_value A_Budget = ''budget''"
| "action_type_value A_Deployment = ''deployment''"

datatype decision_effect = Allow | Require_Approval | Deny

fun effect_value :: "decision_effect \<Rightarrow> string" where
  "effect_value Allow = ''allow''"
| "effect_value Require_Approval = ''require_approval''"
| "effect_value Deny = ''deny''"

datatype pyfloat = Finite rat | Not_Finite

text \<open>An address: its version (4 or 6) and its number; a network adds the length of its prefix.\<close>

type_synonym ip_addr = "nat \<times> nat"
type_synonym ip_net = "nat \<times> nat \<times> nat"

record host_world =
  hw_resolve :: "string \<Rightarrow> string list"
  hw_ip :: "string \<Rightarrow> ip_addr option"
  hw_ip_text :: "ip_addr \<Rightarrow> string"
  hw_net :: "string \<Rightarrow> ip_net option"
  hw_net_text :: "ip_net \<Rightarrow> string"
  hw_idna :: "string \<Rightarrow> string option"

definition nul :: char where
  "nul = char_of (0 :: nat)"

definition backslash :: char where
  "backslash = char_of (92 :: nat)"

definition nonempty :: "string \<Rightarrow> string \<Rightarrow> (string, string) result" where
  "nonempty v what = (if v = [] \<or> nul \<in> set v
     then Inl (what @ '' must be a non-empty string without NUL bytes'') else Inr v)"

definition frozenset :: "'a :: linorder list \<Rightarrow> 'a list" where
  "frozenset xs = sort (remdups xs)"

subsection \<open>Bounded JSON contexts\<close>

text \<open>The number of items seen so far; the copy is the value itself.\<close>

fun freeze_json :: "nat \<Rightarrow> json \<Rightarrow> nat \<Rightarrow> (string, nat) result"
and freeze_list :: "nat \<Rightarrow> json list \<Rightarrow> nat \<Rightarrow> (string, nat) result"
and freeze_pairs :: "nat \<Rightarrow> (string \<times> json) list \<Rightarrow> nat \<Rightarrow> (string, nat) result" where
  "freeze_json depth j count =
     (if 16 < depth then Inl ''context exceeds the maximum nesting depth''
      else if 4096 < count + 1 then Inl ''context exceeds the maximum item count''
      else case j of
        JNull \<Rightarrow> Inr (count + 1)
      | JBool b \<Rightarrow> Inr (count + 1)
      | JInt i \<Rightarrow> if 2 ^ 4096 \<le> \<bar>i\<bar> then Inl ''context integer is too large'' else Inr (count + 1)
      | JNum r \<Rightarrow> Inr (count + 1)
      | JStr s \<Rightarrow> if 65536 < length s then Inl ''context string is too large'' else Inr (count + 1)
      | JTime t \<Rightarrow> Inl ''context must contain only canonical JSON data''
      | JObj kvs \<Rightarrow> freeze_pairs (depth + 1) kvs (count + 1)
      | JList js \<Rightarrow> freeze_list (depth + 1) js (count + 1))"
| "freeze_list depth [] count = Inr count"
| "freeze_list depth (j # js) count = rbind (freeze_json depth j count) (freeze_list depth js)"
| "freeze_pairs depth [] count = Inr count"
| "freeze_pairs depth ((k, j) # kvs) count = rbind (freeze_json depth j count) (freeze_pairs depth kvs)"

subsection \<open>Hosts\<close>

definition rstrip_dots :: "string \<Rightarrow> string" where
  "rstrip_dots s = rev (dropWhile (\<lambda>c. c = CHR ''.'') (rev s))"

definition ascii_alnum :: "char \<Rightarrow> bool" where
  "ascii_alnum c = (let n = of_char c :: nat in
     48 \<le> n \<and> n \<le> 57 \<or> 65 \<le> n \<and> n \<le> 90 \<or> 97 \<le> n \<and> n \<le> 122)"

definition host_label :: "string \<Rightarrow> bool" where
  "host_label l \<longleftrightarrow> l \<noteq> [] \<and> length l \<le> 63 \<and> \<not> starts_with l ''-'' \<and> \<not> ends_with l ''-'' \<and>
     list_all (\<lambda>c. ascii_alnum c \<or> c = CHR ''-'') l"

definition canonical_host :: "host_world \<Rightarrow> string \<Rightarrow> (string, string) result" where
  "canonical_host w host = rbind (nonempty host ''host'') (\<lambda>_.
     let candidate = rstrip_dots host in
     if candidate = [] \<or> list_ex (contains candidate) [''://'', ''@'', ''/'', [backslash], ''*'']
     then Inl ''host must be a hostname or IP literal, not a URL or pattern''
     else case hw_ip w candidate of
       Some a \<Rightarrow> Inr (lower (hw_ip_text w a))
     | None \<Rightarrow> (case hw_idna w candidate of
         None \<Rightarrow> Inl ''host is not a valid IDNA hostname''
       | Some ascii \<Rightarrow> if list_all host_label (split_on (CHR ''.'') (lower ascii)) then Inr (lower ascii)
                       else Inl ''host is not a valid hostname''))"

definition ip_bits :: "nat \<Rightarrow> nat" where
  "ip_bits version = (if version = 4 then 32 else 128)"

definition ip_in_net :: "ip_addr \<Rightarrow> ip_net \<Rightarrow> bool" where
  "ip_in_net = (\<lambda>(v, a) (v', base, len). v = v' \<and>
     a div 2 ^ (ip_bits v - len) = base div 2 ^ (ip_bits v - len))"

subsection \<open>Rules\<close>

record command_rule =
  cr_argv :: "string list"
  cr_exact :: bool

definition argv_ok :: "string list \<Rightarrow> bool" where
  "argv_ok argv \<longleftrightarrow> list_all (\<lambda>a. a \<noteq> [] \<and> nul \<notin> set a) argv"

definition make_command_rule :: "string list \<Rightarrow> bool \<Rightarrow> (string, command_rule) result" where
  "make_command_rule argv exact = (if argv = [] \<or> \<not> argv_ok argv
     then Inl ''command rule argv must contain non-empty strings without NUL bytes''
     else Inr \<lparr>cr_argv = argv, cr_exact = exact\<rparr>)"

definition command_matches :: "command_rule \<Rightarrow> string list \<Rightarrow> bool" where
  "command_matches r argv = (if cr_exact r then argv = cr_argv r
     else length (cr_argv r) \<le> length argv \<and> take (length (cr_argv r)) argv = cr_argv r)"

text \<open>A resolved path is the list of its components.\<close>

record path_rule =
  pr_root :: "string list"
  pr_allow_root :: bool

definition path_text :: "string list \<Rightarrow> string" where
  "path_text parts = ''/'' @ join ''/'' parts"

definition make_path_rule :: "host_world \<Rightarrow> string \<Rightarrow> bool \<Rightarrow> (string, path_rule) result" where
  "make_path_rule w base allow = (if nul \<in> set base then Inl ''path rule root cannot contain NUL bytes''
     else Inr \<lparr>pr_root = hw_resolve w base, pr_allow_root = allow\<rparr>)"

definition path_matches :: "host_world \<Rightarrow> path_rule \<Rightarrow> string \<Rightarrow> bool" where
  "path_matches w r path = (if nul \<in> set path then False
     else let resolved = hw_resolve w path in
       if resolved = pr_root r then pr_allow_root r
       else take (length (pr_root r)) resolved = pr_root r)"

record network_rule =
  nr_host :: string
  nr_ports :: "int list"

definition port_ok :: "int \<Rightarrow> bool" where
  "port_ok p \<longleftrightarrow> 1 \<le> p \<and> p \<le> 65535"

definition make_network_rule :: "host_world \<Rightarrow> string \<Rightarrow> int list \<Rightarrow> (string, network_rule) result" where
  "make_network_rule w host ports =
     (if \<not> list_all port_ok ports then Inl ''network rule ports must be integers from 1 to 65535''
      else rbind (nonempty host ''host rule'') (\<lambda>h.
        let raw = rstrip_dots h in
        rbind (if starts_with raw ''*.''
               then rbind (canonical_host w (drop 2 raw)) (\<lambda>suffix. Inr (''*.'' @ suffix))
               else case hw_net w raw of None \<Rightarrow> canonical_host w raw
                    | Some net \<Rightarrow> Inr (lower (hw_net_text w net)))
          (\<lambda>h'. Inr \<lparr>nr_host = h', nr_ports = frozenset ports\<rparr>)))"

definition network_matches :: "host_world \<Rightarrow> network_rule \<Rightarrow> string \<Rightarrow> int option \<Rightarrow> bool" where
  "network_matches w r host port =
     (if nr_ports r \<noteq> [] \<and> (case port of None \<Rightarrow> True | Some p \<Rightarrow> p \<notin> set (nr_ports r)) then False
      else case canonical_host w host of Inl e \<Rightarrow> False
        | Inr candidate \<Rightarrow>
            if starts_with (nr_host r) ''*.''
            then let suffix = drop 2 (nr_host r) in
                 ends_with candidate (''.'' @ suffix) \<and> candidate \<noteq> suffix
            else case hw_net w (nr_host r) of None \<Rightarrow> candidate = nr_host r
              | Some net \<Rightarrow> (case hw_ip w candidate of None \<Rightarrow> False | Some a \<Rightarrow> ip_in_net a net))"

subsection \<open>Actions\<close>

record broker_action =
  ac_type :: action_type
  ac_operation :: string
  ac_resource :: string
  ac_argv :: "string list"
  ac_path :: "string option"
  ac_host :: "string option"
  ac_port :: "int option"
  ac_amount :: "pyfloat option"
  ac_verifier :: bool
  ac_context :: "(string \<times> json) list"

definition amount_ok :: "pyfloat option \<Rightarrow> bool" where
  "amount_ok a = (case a of None \<Rightarrow> True | Some (Finite r) \<Rightarrow> 0 \<le> r | Some Not_Finite \<Rightarrow> False)"

fun action_fields :: "action_type \<Rightarrow> string list" where
  "action_fields A_Tool = [''resource'']"
| "action_fields A_Filesystem = [''path'']"
| "action_fields A_Command = [''argv'']"
| "action_fields A_Network = [''host'', ''port'']"
| "action_fields A_Secret = [''resource'']"
| "action_fields A_Budget = [''resource'', ''amount'']"
| "action_fields A_Deployment = [''resource'']"

definition present_fields :: "broker_action \<Rightarrow> string list" where
  "present_fields a = map fst (filter snd
     [(''resource'', ac_resource a \<noteq> []), (''argv'', ac_argv a \<noteq> []), (''path'', ac_path a \<noteq> None),
      (''host'', ac_host a \<noteq> None), (''port'', ac_port a \<noteq> None), (''amount'', ac_amount a \<noteq> None)])"

definition unexpected_fields :: "string list \<Rightarrow> string list \<Rightarrow> string list" where
  "unexpected_fields present allowed = sort (filter (\<lambda>f. f \<notin> set allowed) present)"

definition make_action :: "host_world \<Rightarrow> broker_action \<Rightarrow> (string, broker_action) result" where
  "make_action w a =
     rbind (nonempty (ac_operation a) ''operation'') (\<lambda>_.
     rbind (require (nul \<notin> set (ac_resource a)) ''resource cannot contain NUL bytes'') (\<lambda>_.
     rbind (require (\<not> (ac_type a \<in> set [A_Tool, A_Secret, A_Budget, A_Deployment] \<and> ac_resource a = []))
              (action_type_value (ac_type a) @ '' actions require a resource'')) (\<lambda>_.
     rbind (require (argv_ok (ac_argv a)) ''argv must contain non-empty strings without NUL bytes'') (\<lambda>_.
     rbind (require (\<not> (ac_type a = A_Command \<and> ac_argv a = []))
              ''command actions require a non-empty argv'') (\<lambda>_.
     rbind (require (case ac_path a of None \<Rightarrow> True | Some p \<Rightarrow> p \<noteq> [] \<and> nul \<notin> set p)
              ''path must be non-empty and cannot contain NUL bytes'') (\<lambda>_.
     rbind (require (\<not> (ac_type a = A_Filesystem \<and> ac_path a = None))
              ''filesystem actions require a non-empty path'') (\<lambda>_.
     rbind (case ac_host a of None \<Rightarrow> Inr None | Some h \<Rightarrow> rbind (canonical_host w h) (\<lambda>h'. Inr (Some h'))) (\<lambda>host.
     rbind (require (\<not> (ac_type a = A_Network \<and> ac_host a = None)) ''network actions require a host'') (\<lambda>_.
     rbind (require (case ac_port a of None \<Rightarrow> True | Some p \<Rightarrow> port_ok p)
              ''port must be an integer from 1 to 65535'') (\<lambda>_.
     rbind (require (amount_ok (ac_amount a)) ''amount must be a finite non-negative number'') (\<lambda>_.
     let unexpected = unexpected_fields (present_fields a) (action_fields (ac_type a)) in
     rbind (require (unexpected = [])
              (action_type_value (ac_type a) @ '' action has irrelevant fields: '' @ join '', '' unexpected)) (\<lambda>_.
     rbind (freeze_json 0 (JObj (ac_context a)) 0) (\<lambda>_.
       Inr (a\<lparr>ac_host := host\<rparr>))))))))))))))"

definition blank_action :: "action_type \<Rightarrow> string \<Rightarrow> broker_action" where
  "blank_action t op = \<lparr>ac_type = t, ac_operation = op, ac_resource = [], ac_argv = [], ac_path = None,
     ac_host = None, ac_port = None, ac_amount = None, ac_verifier = False, ac_context = []\<rparr>"

definition tool_action :: "host_world \<Rightarrow> string \<Rightarrow> string \<Rightarrow> bool \<Rightarrow> (string \<times> json) list \<Rightarrow> (string, broker_action) result" where
  "tool_action w name op verifier ctx = rbind (nonempty name ''tool name'') (\<lambda>n.
     make_action w ((blank_action A_Tool op)\<lparr>ac_resource := n, ac_verifier := verifier, ac_context := ctx\<rparr>))"

definition filesystem_action :: "host_world \<Rightarrow> string \<Rightarrow> string \<Rightarrow> bool \<Rightarrow> (string \<times> json) list \<Rightarrow> (string, broker_action) result" where
  "filesystem_action w op path verifier ctx =
     make_action w ((blank_action A_Filesystem op)\<lparr>ac_path := Some path, ac_verifier := verifier, ac_context := ctx\<rparr>)"

definition command_action :: "host_world \<Rightarrow> string list \<Rightarrow> bool \<Rightarrow> (string \<times> json) list \<Rightarrow> (string, broker_action) result" where
  "command_action w argv verifier ctx =
     make_action w ((blank_action A_Command ''execute'')\<lparr>ac_argv := argv, ac_verifier := verifier, ac_context := ctx\<rparr>)"

definition network_action :: "host_world \<Rightarrow> string \<Rightarrow> string \<Rightarrow> int option \<Rightarrow> bool \<Rightarrow> (string \<times> json) list
    \<Rightarrow> (string, broker_action) result" where
  "network_action w op host port verifier ctx =
     make_action w ((blank_action A_Network op)\<lparr>ac_host := Some host, ac_port := port, ac_verifier := verifier,
       ac_context := ctx\<rparr>)"

definition secret_action :: "host_world \<Rightarrow> string \<Rightarrow> string \<Rightarrow> (string, broker_action) result" where
  "secret_action w op name = rbind (nonempty name ''secret name'') (\<lambda>n.
     make_action w ((blank_action A_Secret op)\<lparr>ac_resource := n\<rparr>))"

definition budget_action :: "host_world \<Rightarrow> string \<Rightarrow> string \<Rightarrow> pyfloat option \<Rightarrow> (string, broker_action) result" where
  "budget_action w op name amount = rbind (nonempty name ''budget name'') (\<lambda>n.
     make_action w ((blank_action A_Budget op)\<lparr>ac_resource := n, ac_amount := amount\<rparr>))"

definition deployment_action :: "host_world \<Rightarrow> string \<Rightarrow> string \<Rightarrow> (string, broker_action) result" where
  "deployment_action w op target = rbind (nonempty target ''deployment target'') (\<lambda>n.
     make_action w ((blank_action A_Deployment op)\<lparr>ac_resource := n\<rparr>))"

definition amount_json :: "pyfloat \<Rightarrow> json" where
  "amount_json f = (case f of Finite r \<Rightarrow> JNum r | Not_Finite \<Rightarrow> JNull)"

definition audit_payload :: "broker_action \<Rightarrow> (string \<times> json) list" where
  "audit_payload a =
     [(''action_type'', JStr (action_type_value (ac_type a))), (''operation'', JStr (ac_operation a)),
      (''verifier'', JBool (ac_verifier a))]
     @ (if ac_resource a \<noteq> [] then [(''resource'', JStr (ac_resource a))] else [])
     @ (if ac_argv a \<noteq> [] then [(''argv'', jstrs (ac_argv a))] else [])
     @ (case ac_path a of None \<Rightarrow> [] | Some p \<Rightarrow> [(''path'', JStr p)])
     @ (case ac_host a of None \<Rightarrow> [] | Some h \<Rightarrow> [(''host'', JStr h)])
     @ (case ac_port a of None \<Rightarrow> [] | Some p \<Rightarrow> [(''port'', JInt p)])
     @ (case ac_amount a of None \<Rightarrow> [] | Some f \<Rightarrow> [(''amount'', amount_json f)])
     @ (if ac_context a \<noteq> [] then [(''context'', JObj (ac_context a))] else [])"

subsection \<open>Capabilities\<close>

record capability =
  cb_type :: action_type
  cb_operations :: "string list"
  cb_resources :: "string list"
  cb_commands :: "command_rule list"
  cb_paths :: "path_rule list"
  cb_networks :: "network_rule list"
  cb_max_amount :: "pyfloat option"
  cb_verifier :: bool

fun capability_fields :: "action_type \<Rightarrow> string list" where
  "capability_fields A_Tool = [''resources'']"
| "capability_fields A_Filesystem = [''path_rules'']"
| "capability_fields A_Command = [''command_rules'']"
| "capability_fields A_Network = [''network_rules'']"
| "capability_fields A_Secret = [''resources'']"
| "capability_fields A_Budget = [''resources'', ''max_amount'']"
| "capability_fields A_Deployment = [''resources'']"

fun required_field :: "action_type \<Rightarrow> string" where
  "required_field A_Tool = ''resources''"
| "required_field A_Filesystem = ''path_rules''"
| "required_field A_Command = ''command_rules''"
| "required_field A_Network = ''network_rules''"
| "required_field A_Secret = ''resources''"
| "required_field A_Budget = ''resources''"
| "required_field A_Deployment = ''resources''"

definition capability_present :: "capability \<Rightarrow> string list" where
  "capability_present c = map fst (filter snd
     [(''resources'', cb_resources c \<noteq> []), (''command_rules'', cb_commands c \<noteq> []),
      (''path_rules'', cb_paths c \<noteq> []), (''network_rules'', cb_networks c \<noteq> []),
      (''max_amount'', cb_max_amount c \<noteq> None)])"

definition make_capability :: "capability \<Rightarrow> (string, capability) result" where
  "make_capability c =
     rbind (require (cb_operations c \<noteq> [] \<and> argv_ok (cb_operations c))
              ''capability operations must be non-empty strings'') (\<lambda>_.
     rbind (require (argv_ok (cb_resources c)) ''capability resources must be non-empty strings'') (\<lambda>_.
     rbind (require (amount_ok (cb_max_amount c)) ''max_amount must be a finite non-negative number'') (\<lambda>_.
     let unexpected = unexpected_fields (capability_present c) (capability_fields (cb_type c)) in
     rbind (require (unexpected = [])
              (action_type_value (cb_type c) @ '' capability has irrelevant fields: '' @ join '', '' unexpected)) (\<lambda>_.
     rbind (require (required_field (cb_type c) \<in> set (capability_present c))
              (action_type_value (cb_type c) @ '' capability requires '' @ required_field (cb_type c))) (\<lambda>_.
       Inr (c\<lparr>cb_operations := frozenset (cb_operations c), cb_resources := frozenset (cb_resources c)\<rparr>))))))"

definition resource_matches :: "capability \<Rightarrow> string \<Rightarrow> bool" where
  "resource_matches c r \<longleftrightarrow> ''*'' \<in> set (cb_resources c) \<or> r \<in> set (cb_resources c)"

fun amount_le :: "pyfloat \<Rightarrow> pyfloat \<Rightarrow> bool" where
  "amount_le (Finite a) (Finite b) = (a \<le> b)"
| "amount_le _ _ = False"

definition capability_matches :: "host_world \<Rightarrow> bool \<Rightarrow> capability \<Rightarrow> broker_action \<Rightarrow> bool" where
  "capability_matches w match_verifier c a =
     (if ac_type a \<noteq> cb_type c then False
      else if match_verifier \<and> ac_verifier a \<noteq> cb_verifier c then False
      else if ''*'' \<notin> set (cb_operations c) \<and> ac_operation a \<notin> set (cb_operations c) then False
      else case cb_type c of
        A_Command \<Rightarrow> list_ex (\<lambda>r. command_matches r (ac_argv a)) (cb_commands c)
      | A_Filesystem \<Rightarrow> (case ac_path a of None \<Rightarrow> False
          | Some p \<Rightarrow> list_ex (\<lambda>r. path_matches w r p) (cb_paths c))
      | A_Network \<Rightarrow> (case ac_host a of None \<Rightarrow> False
          | Some h \<Rightarrow> list_ex (\<lambda>r. network_matches w r h (ac_port a)) (cb_networks c))
      | A_Budget \<Rightarrow> resource_matches c (ac_resource a) \<and>
          (case cb_max_amount c of None \<Rightarrow> True
           | Some m \<Rightarrow> (case ac_amount a of None \<Rightarrow> False | Some x \<Rightarrow> amount_le x m))
      | _ \<Rightarrow> resource_matches c (ac_resource a))"

subsection \<open>Policies and decisions\<close>

record policy_rule =
  ru_id :: string
  ru_effect :: decision_effect
  ru_capability :: capability

definition make_policy_rule :: "string \<Rightarrow> decision_effect \<Rightarrow> capability \<Rightarrow> (string, policy_rule) result" where
  "make_policy_rule rid eff c = rbind (nonempty rid ''rule_id'') (\<lambda>i.
     Inr \<lparr>ru_id = i, ru_effect = eff, ru_capability = c\<rparr>)"

definition make_policy :: "policy_rule list \<Rightarrow> (string, policy_rule list) result" where
  "make_policy rules = rbind (require (distinct (map ru_id rules)) ''policy rule IDs must be unique'') (\<lambda>_. Inr rules)"

record decision =
  de_effect :: decision_effect
  de_reason :: string
  de_rules :: "string list"
  de_tokens :: "string list"
  de_resolved :: "string option"

end
