(* ===== verification/Broker_Token.thy ===== *)
theory Broker_Token
  imports Broker_Model Json_Canonical
begin

section \<open>Tool broker: signed capability tokens\<close>

text \<open>
  \<open>tool_broker/tokens.py\<close>: the base64url text of a payload, its HMAC, the payload of a capability
  and the way back, minting and verifying.  Bytes are characters.  HMAC-SHA256, the JSON printer
  and reader, and the conversions \<open>str\<close>, \<open>int\<close>, \<open>float\<close> and \<open>fromisoformat\<close> of values no issued
  token holds are the record \<open>token_env\<close>.  Every exception \<open>verify\<close> catches is \<open>Inl\<close> or \<open>None\<close>.
\<close>

subsection \<open>base64url without padding\<close>

definition b64_char :: "nat \<Rightarrow> char" where
  "b64_char n = char_of (if n < 26 then 65 + n else if n < 52 then 71 + n else if n < 62 then n - 4
                         else if n = 62 then 45 else 95)"

definition b64_value :: "char \<Rightarrow> nat option" where
  "b64_value c = (let n = of_char c :: nat in
     if 65 \<le> n \<and> n \<le> 90 then Some (n - 65) else if 97 \<le> n \<and> n \<le> 122 then Some (n - 71)
     else if 48 \<le> n \<and> n \<le> 57 then Some (n + 4) else if n = 45 then Some 62
     else if n = 95 then Some 63 else None)"

fun b64_encode :: "string \<Rightarrow> string" where
  "b64_encode [] = []"
| "b64_encode [a] = (let x = of_char a :: nat in [b64_char (x div 4), b64_char (x mod 4 * 16)])"
| "b64_encode [a, b] = (let x = of_char a :: nat; y = of_char b :: nat in
     [b64_char (x div 4), b64_char (x mod 4 * 16 + y div 16), b64_char (y mod 16 * 4)])"
| "b64_encode (a # b # c # rest) = (let x = of_char a :: nat; y = of_char b :: nat; z = of_char c :: nat in
     [b64_char (x div 4), b64_char (x mod 4 * 16 + y div 16), b64_char (y mod 16 * 4 + z div 64), b64_char (z mod 64)]
     @ b64_encode rest)"

text \<open>The bytes of a list of six-bit values; a single left-over value is an error.\<close>

fun b64_bytes :: "nat list \<Rightarrow> (string, string) result" where
  "b64_bytes [] = Inr []"
| "b64_bytes [p] = Inl ''incorrect padding''"
| "b64_bytes [p, q] = Inr [char_of (p * 4 + q div 16)]"
| "b64_bytes [p, q, r] = Inr [char_of (p * 4 + q div 16), char_of (q mod 16 * 16 + r div 4)]"
| "b64_bytes (p # q # r # s # rest) = rbind (b64_bytes rest) (\<lambda>bs. Inr
     ([char_of (p * 4 + q div 16), char_of (q mod 16 * 16 + r div 4), char_of (r mod 4 * 64 + s)] @ bs))"

definition b64_decode :: "string \<Rightarrow> (string, string) result" where
  "b64_decode data =
     (if data = [] \<or> list_ex (\<lambda>c. b64_value c = None) data then Inl ''invalid base64url''
      else rbind (b64_bytes (map (the \<circ> b64_value) data)) (\<lambda>decoded.
        if b64_encode decoded \<noteq> data then Inl ''non-canonical base64url'' else Inr decoded))"

subsection \<open>Payloads\<close>

record token_env =
  te_world :: host_world
  te_key :: string
  te_hmac :: "string \<Rightarrow> string \<Rightarrow> string"
  te_dump :: "json \<Rightarrow> string"
  te_load :: "string \<Rightarrow> json option"
  te_iso :: "string \<Rightarrow> instant option"
  te_str :: "json \<Rightarrow> string"
  te_int :: "string \<Rightarrow> int option"
  te_float :: "string \<Rightarrow> pyfloat option"

definition command_json :: "command_rule \<Rightarrow> json" where
  "command_json r = JObj [(''argv'', jstrs (cr_argv r)), (''exact'', JBool (cr_exact r))]"

definition path_json :: "path_rule \<Rightarrow> json" where
  "path_json r = JObj [(''root'', JStr (path_text (pr_root r))), (''allow_root'', JBool (pr_allow_root r))]"

definition network_json :: "network_rule \<Rightarrow> json" where
  "network_json r = JObj [(''host'', JStr (nr_host r)), (''ports'', JList (map JInt (nr_ports r)))]"

definition capability_payload :: "capability \<Rightarrow> json" where
  "capability_payload c = JObj
     [(''action_type'', JStr (action_type_value (cb_type c))), (''operations'', jstrs (cb_operations c)),
      (''resources'', jstrs (cb_resources c)), (''command_rules'', JList (map command_json (cb_commands c))),
      (''path_rules'', JList (map path_json (cb_paths c))),
      (''network_rules'', JList (map network_json (cb_networks c))),
      (''max_amount'', jopt amount_json (cb_max_amount c)), (''verifier'', JBool (cb_verifier c))]"

text \<open>\<open>str(item)\<close>, iteration, truth and the numeric conversions of a JSON value.\<close>

definition py_str :: "token_env \<Rightarrow> json \<Rightarrow> string" where
  "py_str env j = (case j of JStr s \<Rightarrow> s | _ \<Rightarrow> te_str env j)"

fun py_iter :: "token_env \<Rightarrow> json \<Rightarrow> (string, json list) result" where
  "py_iter env (JList js) = Inr js"
| "py_iter env (JStr s) = Inr (map (\<lambda>c. JStr [c]) s)"
| "py_iter env (JTime t) = Inr (map (\<lambda>c. JStr [c]) (te_str env (JTime t)))"
| "py_iter env (JObj kvs) = Inr (map (JStr \<circ> fst) kvs)"
| "py_iter env _ = Inl ''object is not iterable''"

fun py_truth :: "json \<Rightarrow> bool" where
  "py_truth JNull = False"
| "py_truth (JBool b) = b"
| "py_truth (JInt i) = (i \<noteq> 0)"
| "py_truth (JNum r) = (r \<noteq> 0)"
| "py_truth (JStr s) = (s \<noteq> [])"
| "py_truth (JTime t) = True"
| "py_truth (JList js) = (js \<noteq> [])"
| "py_truth (JObj kvs) = (kvs \<noteq> [])"

fun py_int :: "token_env \<Rightarrow> json \<Rightarrow> (string, int) result" where
  "py_int env (JInt i) = Inr i"
| "py_int env (JBool b) = Inr (if b then 1 else 0)"
| "py_int env (JNum r) = Inr (if 0 \<le> r then \<lfloor>r\<rfloor> else \<lceil>r\<rceil>)"
| "py_int env (JStr s) = (case te_int env s of None \<Rightarrow> Inl ''invalid literal for int()'' | Some i \<Rightarrow> Inr i)"
| "py_int env _ = Inl ''int() argument''"

fun py_float :: "token_env \<Rightarrow> json \<Rightarrow> (string, pyfloat) result" where
  "py_float env (JInt i) = Inr (Finite (of_int i))"
| "py_float env (JBool b) = Inr (Finite (if b then 1 else 0))"
| "py_float env (JNum r) = Inr (Finite r)"
| "py_float env (JStr s) = (case te_float env s of None \<Rightarrow> Inl ''could not convert string to float'' | Some f \<Rightarrow> Inr f)"
| "py_float env _ = Inl ''float() argument''"

definition item :: "string \<Rightarrow> (string \<times> json) list \<Rightarrow> (string, json) result" where
  "item k d = (case map_of d k of None \<Rightarrow> Inl ''KeyError'' | Some v \<Rightarrow> Inr v)"

text \<open>\<open>data.get(k, [])\<close> and the items of it that are objects.\<close>

definition get_items :: "token_env \<Rightarrow> string \<Rightarrow> (string \<times> json) list \<Rightarrow> (string, json list) result" where
  "get_items env k d = (case map_of d k of None \<Rightarrow> Inr [] | Some v \<Rightarrow> py_iter env v)"

definition objects :: "json list \<Rightarrow> (string \<times> json) list list" where
  "objects js = concat (map (\<lambda>j. case j of JObj kvs \<Rightarrow> [kvs] | _ \<Rightarrow> []) js)"

definition action_type_of :: "string \<Rightarrow> (string, action_type) result" where
  "action_type_of s = (case List.find (\<lambda>t. action_type_value t = s)
       [A_Tool, A_Filesystem, A_Command, A_Network, A_Secret, A_Budget, A_Deployment] of
     None \<Rightarrow> Inl ''not a valid ActionType'' | Some t \<Rightarrow> Inr t)"

definition command_from :: "token_env \<Rightarrow> (string \<times> json) list \<Rightarrow> (string, command_rule) result" where
  "command_from env d = rbind (item ''argv'' d) (\<lambda>v. rbind (py_iter env v) (\<lambda>args.
     rbind (item ''exact'' d) (\<lambda>ex. make_command_rule (map (py_str env) args) (py_truth ex))))"

definition path_from :: "token_env \<Rightarrow> (string \<times> json) list \<Rightarrow> (string, path_rule) result" where
  "path_from env d = rbind (item ''root'' d) (\<lambda>r. rbind (item ''allow_root'' d) (\<lambda>al.
     make_path_rule (te_world env) (py_str env r) (py_truth al)))"

definition network_from :: "token_env \<Rightarrow> (string \<times> json) list \<Rightarrow> (string, network_rule) result" where
  "network_from env d = rbind (item ''host'' d) (\<lambda>h. rbind (get_items env ''ports'' d) (\<lambda>ps.
     rbind (rmap (py_int env) ps) (\<lambda>ports. make_network_rule (te_world env) (py_str env h) ports)))"

definition max_amount_from :: "token_env \<Rightarrow> (string \<times> json) list \<Rightarrow> (string, pyfloat option) result" where
  "max_amount_from env d = (case map_of d ''max_amount'' of
     None \<Rightarrow> Inr None | Some JNull \<Rightarrow> Inr None | Some v \<Rightarrow> rbind (py_float env v) (\<lambda>f. Inr (Some f)))"

definition capability_from_payload :: "token_env \<Rightarrow> json \<Rightarrow> (string, capability) result" where
  "capability_from_payload env data = (case data of
     JObj d \<Rightarrow>
       rbind (item ''action_type'' d) (\<lambda>t. rbind (action_type_of (py_str env t)) (\<lambda>ty.
       rbind (get_items env ''operations'' d) (\<lambda>ops. rbind (get_items env ''resources'' d) (\<lambda>res.
       rbind (get_items env ''command_rules'' d) (\<lambda>cs. rbind (rmap (command_from env) (objects cs)) (\<lambda>cmds.
       rbind (get_items env ''path_rules'' d) (\<lambda>ps. rbind (rmap (path_from env) (objects ps)) (\<lambda>paths.
       rbind (get_items env ''network_rules'' d) (\<lambda>ns. rbind (rmap (network_from env) (objects ns)) (\<lambda>nets.
       rbind (max_amount_from env d) (\<lambda>amount.
         make_capability \<lparr>cb_type = ty, cb_operations = map (py_str env) ops, cb_resources = map (py_str env) res,
           cb_commands = cmds, cb_paths = paths, cb_networks = nets, cb_max_amount = amount,
           cb_verifier = (case map_of d ''verifier'' of None \<Rightarrow> False | Some v \<Rightarrow> py_truth v)\<rparr>)))))))))))
   | _ \<Rightarrow> Inl ''invalid capability'')"

subsection \<open>Minting and verifying\<close>

record capability_token =
  ct_id :: string
  ct_subject :: string
  ct_capabilities :: "capability list"
  ct_issued :: instant
  ct_expires :: instant

definition max_token_length :: nat where
  "max_token_length = 65536"

definition token_payload :: "string \<Rightarrow> string \<Rightarrow> instant \<Rightarrow> instant \<Rightarrow> capability list \<Rightarrow> json" where
  "token_payload tid subject issued expires caps = JObj
     [(''version'', JInt 1), (''token_id'', JStr tid), (''subject'', JStr subject), (''issued_at'', JTime issued),
      (''expires_at'', JTime expires), (''capabilities'', JList (map capability_payload caps))]"

definition sign :: "token_env \<Rightarrow> string \<Rightarrow> string" where
  "sign env encoded = b64_encode (te_hmac env (te_key env) encoded)"

text \<open>\<open>issue\<close> with the clock and the random id it reads; \<open>ttl\<close> is in microseconds.\<close>

definition issue_token :: "token_env \<Rightarrow> string \<Rightarrow> instant \<Rightarrow> string \<Rightarrow> capability list \<Rightarrow> int
    \<Rightarrow> (string, string) result" where
  "issue_token env tid issued subject caps ttl =
     rbind (require (subject \<noteq> [] \<and> nul \<notin> set subject) ''token subject must be non-empty'') (\<lambda>_.
     rbind (require (0 \<le> issued + ttl \<and> issued + ttl \<le> instant_max) ''date value out of range'') (\<lambda>_.
     rbind (require (caps \<noteq> []) ''a capability token must carry at least one scope'') (\<lambda>_.
     let encoded = b64_encode (te_dump env (token_payload tid subject issued (issued + ttl) caps)) in
     rbind (require (length encoded + 1 + 43 \<le> max_token_length)
              ''capability token exceeds the maximum encoded size'') (\<lambda>_.
       Inr (encoded @ ''.'' @ sign env encoded)))))"

definition ascii_text :: "string \<Rightarrow> bool" where
  "ascii_text s \<longleftrightarrow> list_all (\<lambda>c. of_char c < (128 :: nat)) s"

fun is_one :: "json option \<Rightarrow> bool" where
  "is_one (Some (JInt i)) = (i = 1)"
| "is_one (Some (JBool b)) = b"
| "is_one (Some (JNum r)) = (r = 1)"
| "is_one _ = False"

definition read_instant :: "token_env \<Rightarrow> json \<Rightarrow> (string, instant) result" where
  "read_instant env j = (case j of JTime t \<Rightarrow> Inr t
     | _ \<Rightarrow> (case te_iso env (py_str env j) of None \<Rightarrow> Inl ''invalid isoformat string'' | Some t \<Rightarrow> Inr t))"

definition read_token :: "token_env \<Rightarrow> string option \<Rightarrow> instant \<Rightarrow> json \<Rightarrow> (string, capability_token) result" where
  "read_token env subject now payload = (case payload of
     JObj d \<Rightarrow>
       rbind (require (is_one (map_of d ''version'')) ''version'') (\<lambda>_.
       rbind (item ''subject'' d) (\<lambda>s.
       rbind (require (case subject of None \<Rightarrow> True | Some x \<Rightarrow> py_str env s = x) ''subject'') (\<lambda>_.
       rbind (rbind (item ''issued_at'' d) (read_instant env)) (\<lambda>issued.
       rbind (rbind (item ''expires_at'' d) (read_instant env)) (\<lambda>expires.
       rbind (require (issued \<le> now \<and> now < expires) ''expired'') (\<lambda>_.
       rbind (rbind (item ''capabilities'' d) (py_iter env)) (\<lambda>items.
       rbind (rmap (capability_from_payload env) items) (\<lambda>caps.
       rbind (require (caps \<noteq> []) ''capabilities'') (\<lambda>_.
       rbind (item ''token_id'' d) (\<lambda>i.
         Inr \<lparr>ct_id = py_str env i, ct_subject = py_str env s, ct_capabilities = caps,
              ct_issued = issued, ct_expires = expires\<rparr>))))))))))
   | _ \<Rightarrow> Inl ''payload'')"

definition verify_token :: "token_env \<Rightarrow> string \<Rightarrow> string option \<Rightarrow> instant \<Rightarrow> capability_token option" where
  "verify_token env token subject now =
     (if max_token_length < length token then None
      else case split_on (CHR ''.'') token of
        [encoded, signature] \<Rightarrow>
          (if length signature \<noteq> 43 \<or> \<not> ascii_text encoded then None
           else case b64_decode signature of Inl e \<Rightarrow> None
             | Inr mac \<Rightarrow>
                 if mac \<noteq> te_hmac env (te_key env) encoded then None
                 else (case b64_decode encoded of Inl e \<Rightarrow> None
                   | Inr bytes \<Rightarrow> (case te_load env bytes of None \<Rightarrow> None
                       | Some payload \<Rightarrow> (case read_token env subject now payload of
                           Inl e \<Rightarrow> None | Inr t \<Rightarrow> Some t))))
      | _ \<Rightarrow> None)"

end
