(* ===== verification/Broker_Audit.thy ===== *)
theory Broker_Audit
  imports Py_Base Hash_Chain Json_Canonical
begin

section \<open>Tool broker: redaction and the audit log\<close>

text \<open>
  \<open>tool_broker/redaction.py\<close> and \<open>tool_broker/audit.py\<close>.  A pattern of \<open>re\<close> is the function that
  gives the length of its match at a position, from the character before it.  The audit file is
  missing, a link, something else, or its lines; a line is a JSON document or not JSON.  The hash
  of a canonical document is a parameter.
\<close>

subsection \<open>Known secrets and token patterns\<close>

definition redacted :: string where
  "redacted = ''[REDACTED]''"

text \<open>\<open>t.replace(s, r)\<close> for a non-empty \<open>s\<close>.\<close>

function replace_all :: "string \<Rightarrow> string \<Rightarrow> string \<Rightarrow> string" where
  "replace_all s r t = (if s = [] \<or> t = [] then t
     else if starts_with t s then r @ replace_all s r (drop (length s) t)
     else hd t # replace_all s r (tl t))"
  by pat_completeness auto
termination by (relation "measure (\<lambda>(s, r, t). length t)") auto

declare replace_all.simps [simp del]

definition py_word :: "char \<Rightarrow> bool" where
  "py_word c = (let n = of_char c :: nat in
     48 \<le> n \<and> n \<le> 57 \<or> 65 \<le> n \<and> n \<le> 90 \<or> n = 95 \<or> 97 \<le> n \<and> n \<le> 122 \<or>
     n \<in> set [170, 178, 179, 181, 185, 186, 188, 189, 190] \<or> 192 \<le> n \<and> n \<noteq> 215 \<and> n \<noteq> 247)"

definition ascii_alpha :: "char \<Rightarrow> bool" where
  "ascii_alpha c = (let n = of_char c :: nat in 65 \<le> n \<and> n \<le> 90 \<or> 97 \<le> n \<and> n \<le> 122)"

definition ascii_num :: "char \<Rightarrow> bool" where
  "ascii_num c = (let n = of_char c :: nat in 48 \<le> n \<and> n \<le> 57)"

definition ascii_upper :: "char \<Rightarrow> bool" where
  "ascii_upper c = (let n = of_char c :: nat in 65 \<le> n \<and> n \<le> 90)"

definition word_at :: "string \<Rightarrow> bool" where
  "word_at t = (case t of [] \<Rightarrow> False | c # cs \<Rightarrow> py_word c)"

type_synonym matcher = "bool \<Rightarrow> string \<Rightarrow> nat option"

text \<open>The first argument says whether the character before is a word character.\<close>

definition bearer_pattern :: matcher where
  "bearer_pattern w t =
     (let rest = drop 6 t; sp = takeWhile py_space rest;
          v = takeWhile (\<lambda>c. ascii_alpha c \<or> ascii_num c \<or> c \<in> set ''._~+/=-'') (dropWhile py_space rest)
      in if \<not> w \<and> lower (take 6 t) = ''bearer'' \<and> sp \<noteq> [] \<and> v \<noteq> [] then Some (6 + length sp + length v) else None)"

definition akia_pattern :: matcher where
  "akia_pattern w t = (if \<not> w \<and> starts_with t ''AKIA'' \<and> 20 \<le> length t \<and>
       list_all (\<lambda>c. ascii_num c \<or> ascii_upper c) (take 16 (drop 4 t)) \<and> \<not> word_at (drop 20 t)
     then Some 20 else None)"

definition github_pattern :: matcher where
  "github_pattern w t =
     (let v = takeWhile (\<lambda>c. ascii_alpha c \<or> ascii_num c) (drop 4 t) in
      if \<not> w \<and> 4 \<le> length t \<and> take 2 t = ''gh'' \<and> t ! 2 \<in> set ''oprsu'' \<and> t ! 3 = CHR ''_'' \<and> 20 \<le> length v \<and>
         \<not> word_at (drop (4 + length v) t)
      then Some (4 + length v) else None)"

text \<open>The longest prefix of at least 16 characters that ends at a word boundary.\<close>

definition sk_pattern :: matcher where
  "sk_pattern w t =
     (let v = takeWhile (\<lambda>c. ascii_alpha c \<or> ascii_num c \<or> c \<in> set ''_-'') (drop 3 t) in
      if w \<or> \<not> starts_with t ''sk-'' then None
      else map_option (\<lambda>k. 3 + k) (List.find (\<lambda>k. py_word (v ! (k - 1)) \<noteq> word_at (drop (3 + k) t))
             (rev [16 ..< Suc (length v)])))"

text \<open>\<open>pattern.sub(REDACTED, t)\<close>.\<close>

function sub_pattern :: "matcher \<Rightarrow> bool \<Rightarrow> string \<Rightarrow> string" where
  "sub_pattern m w t = (case t of [] \<Rightarrow> []
     | c # cs \<Rightarrow> (case m w t of
         Some (Suc n) \<Rightarrow> redacted @ sub_pattern m (py_word (last (take (Suc n) t))) (drop (Suc n) t)
       | _ \<Rightarrow> c # sub_pattern m (py_word c) cs))"
  by pat_completeness auto
termination by (relation "measure (\<lambda>(m, w, t). length t)") auto

declare sub_pattern.simps [simp del]

definition redact_string :: "string list \<Rightarrow> string \<Rightarrow> string" where
  "redact_string secrets v = fold (\<lambda>m t. sub_pattern m False t)
     [bearer_pattern, akia_pattern, github_pattern, sk_pattern]
     (fold (\<lambda>s t. replace_all s redacted t) secrets v)"

subsection \<open>Sensitive keys\<close>

fun separate_words :: "string \<Rightarrow> string" where
  "separate_words (a # b # cs) =
     (if (ascii_num a \<or> ascii_alpha a \<and> \<not> ascii_upper a) \<and> ascii_upper b then a # CHR ''_'' # separate_words (b # cs)
      else a # separate_words (b # cs))"
| "separate_words cs = cs"

definition sensitive_keys :: "string list" where
  "sensitive_keys = [''auth'', ''authorization'', ''cookie'', ''cookies'', ''credential'', ''credentials'', ''session'', ''sessionid'']"

definition sensitive_suffixes :: "string list" where
  "sensitive_suffixes = [''apikey'', ''credential'', ''password'', ''passwd'', ''privatekey'', ''secret'', ''token'']"

definition is_secret_key :: "string \<Rightarrow> bool" where
  "is_secret_key key =
     (let normalized = filter (\<lambda>c. ascii_num c \<or> ascii_alpha c \<and> \<not> ascii_upper c) (lower (separate_words key))
      in normalized \<in> set sensitive_keys \<or> list_ex (ends_with normalized) sensitive_suffixes)"

fun redact :: "string list \<Rightarrow> json \<Rightarrow> json"
and redact_pairs :: "string list \<Rightarrow> (string \<times> json) list \<Rightarrow> (string \<times> json) list \<Rightarrow> (string \<times> json) list"
and redact_list :: "string list \<Rightarrow> json list \<Rightarrow> json list" where
  "redact ss (JObj kvs) = JObj (redact_pairs ss kvs [])"
| "redact ss (JList js) = JList (redact_list ss js)"
| "redact ss (JStr s) = JStr (redact_string ss s)"
| "redact ss j = j"
| "redact_pairs ss [] acc = acc"
| "redact_pairs ss ((k, v) # kvs) acc = redact_pairs ss kvs
     (AList.update (redact_string ss k) (if is_secret_key k then JStr redacted else redact ss v) acc)"
| "redact_list ss [] = []"
| "redact_list ss (j # js) = redact ss j # redact_list ss js"

definition order_secrets :: "string list \<Rightarrow> string list" where
  "order_secrets values = sort_key (\<lambda>s. - int (length s)) (filter (\<lambda>s. s \<noteq> []) values)"

definition redact_secrets :: "string list \<Rightarrow> json \<Rightarrow> json" where
  "redact_secrets values j = redact (order_secrets values) j"

subsection \<open>The audit log\<close>

datatype audit_line = Document json | Not_Json

datatype audit_file = No_File | Link_File | Other_File | Log_File "audit_line list"

definition genesis_hash :: string where
  "genesis_hash = replicate 64 (CHR ''0'')"

type_synonym doc_hash = "json \<Rightarrow> string"

definition audit_event_hash :: "doc_hash \<Rightarrow> (string \<times> json) list \<Rightarrow> string" where
  "audit_event_hash H event = H (canon (JObj event))"

text \<open>\<open>str(last["event_hash"])\<close> of the last line; \<open>text\<close> is \<open>str\<close> of other values.\<close>

definition last_hash :: "(json \<Rightarrow> string) \<Rightarrow> audit_line list \<Rightarrow> (string, string) result" where
  "last_hash show lines = (if lines = [] then Inr genesis_hash
     else case last lines of
       Document (JObj d) \<Rightarrow> (case map_of d ''event_hash'' of None \<Rightarrow> Inl ''KeyError''
         | Some v \<Rightarrow> Inr (case v of JStr h \<Rightarrow> h | _ \<Rightarrow> show v))
     | Document j \<Rightarrow> Inl ''TypeError''
     | Not_Json \<Rightarrow> Inl ''JSONDecodeError'')"

definition unhashed_event :: "int \<Rightarrow> instant \<Rightarrow> string \<Rightarrow> (string \<times> json) list \<Rightarrow> string \<Rightarrow> (string \<times> json) list" where
  "unhashed_event sq now etype data prev =
     [(''sequence'', JInt sq), (''timestamp'', JTime now), (''event_type'', JStr etype), (''data'', JObj data),
      (''previous_hash'', JStr prev)]"

definition audit_event :: "doc_hash \<Rightarrow> int \<Rightarrow> instant \<Rightarrow> string \<Rightarrow> (string \<times> json) list \<Rightarrow> string \<Rightarrow> (string \<times> json) list" where
  "audit_event H sq now etype data prev =
     (let e = unhashed_event sq now etype data prev in e @ [(''event_hash'', JStr (audit_event_hash H e))])"

definition audit_append :: "doc_hash \<Rightarrow> (json \<Rightarrow> string) \<Rightarrow> instant \<Rightarrow> string \<Rightarrow> (string \<times> json) list
    \<Rightarrow> (audit_file, string, (string \<times> json) list) action" where
  "audit_append H show now etype data f =
     (if etype = [] \<or> char_of (0 :: nat) \<in> set etype then (f, Inl ''audit event type must be non-empty'')
      else case f of
        Link_File \<Rightarrow> (f, Inl ''audit log target cannot be a symlink'')
      | Other_File \<Rightarrow> (f, Inl ''audit log target must be a regular file'')
      | _ \<Rightarrow>
        (let lines = (case f of Log_File ls \<Rightarrow> ls | _ \<Rightarrow> []) in
         case last_hash show lines of
           Inl e \<Rightarrow> (Log_File lines, Inl e)
         | Inr prev \<Rightarrow>
             (let event = audit_event H (int (length lines)) now etype data prev in
              (Log_File (lines @ [Document (canon (JObj event))]), Inr event))))"

text \<open>\<open>event.get("sequence") != n\<close>: an integral float and a boolean equal the integer.\<close>

definition seq_of :: "json \<Rightarrow> int" where
  "seq_of j = (case jfield ''sequence'' j of
     Some (JInt i) \<Rightarrow> i | Some (JBool b) \<Rightarrow> (if b then 1 else 0)
   | Some (JNum r) \<Rightarrow> (if r = of_int \<lfloor>r\<rfloor> then \<lfloor>r\<rfloor> else -1) | _ \<Rightarrow> -1)"

definition text_field :: "string \<Rightarrow> json \<Rightarrow> string option" where
  "text_field k j = (case jfield k j of Some (JStr h) \<Rightarrow> Some h | _ \<Rightarrow> None)"

definition content_hash :: "doc_hash \<Rightarrow> json \<Rightarrow> string option" where
  "content_hash H j = (case j of JObj d \<Rightarrow> Some (audit_event_hash H (AList.delete ''event_hash'' d)) | _ \<Rightarrow> None)"

text \<open>The loop of \<open>verify\<close>: the hash and the sequence number it ends with, or failure.\<close>

fun verify_lines :: "doc_hash \<Rightarrow> int \<Rightarrow> string option \<Rightarrow> audit_line list \<Rightarrow> string option option" where
  "verify_lines H n prev [] = Some prev"
| "verify_lines H n prev (Not_Json # ls) = None"
| "verify_lines H n prev (Document j # ls) =
     (case j of
        JObj d \<Rightarrow>
          if seq_of j \<noteq> n \<or> text_field ''previous_hash'' j \<noteq> prev \<or>
             text_field ''event_hash'' j \<noteq> content_hash H j then None
          else verify_lines H (n + 1) (text_field ''event_hash'' j) ls
      | _ \<Rightarrow> None)"

definition audit_verify :: "doc_hash \<Rightarrow> audit_file \<Rightarrow> int option \<Rightarrow> string option \<Rightarrow> bool" where
  "audit_verify H f expected_sequence expected_head = (case f of
     Log_File ls \<Rightarrow>
       (case verify_lines H 0 (Some genesis_hash) ls of None \<Rightarrow> False
        | Some h \<Rightarrow> (case expected_sequence of None \<Rightarrow> True | Some n \<Rightarrow> int (length ls) - 1 = n) \<and>
            (case expected_head of None \<Rightarrow> True | Some x \<Rightarrow> h = Some x))
   | _ \<Rightarrow> False)"

end
