(* ===== verification/Broker_Decide.thy ===== *)
theory Broker_Decide
  imports Broker_Token Broker_Audit
begin

section \<open>Tool broker: decisions\<close>

text \<open>
  \<open>ToolBroker\<close> of \<open>tool_broker/broker.py\<close>: the decision over policy and tokens, and the audit
  record every decision leaves.  An exception while auditing leaves no decision.
\<close>

record broker =
  br_policy :: "policy_rule list"
  br_env :: token_env
  br_secrets :: "string list"
  br_hash :: doc_hash

definition broker_issue :: "broker \<Rightarrow> string \<Rightarrow> instant \<Rightarrow> string \<Rightarrow> capability list \<Rightarrow> int \<Rightarrow> (string, string) result"
  where
  "broker_issue b tid now subject caps ttl = issue_token (br_env b) tid now subject caps ttl"

definition verify_tokens :: "broker \<Rightarrow> string list \<Rightarrow> string option \<Rightarrow> instant \<Rightarrow> capability_token list" where
  "verify_tokens b tokens subject now = (case subject of None \<Rightarrow> []
     | Some s \<Rightarrow> concat (map (\<lambda>raw. case verify_token (br_env b) raw (Some s) now of None \<Rightarrow> [] | Some t \<Rightarrow> [t]) tokens))"

definition denied_by :: "broker \<Rightarrow> broker_action \<Rightarrow> string list" where
  "denied_by b a = sort (map ru_id (filter (\<lambda>r. ru_effect r = Deny \<and>
     capability_matches (te_world (br_env b)) False (ru_capability r) a) (br_policy b)))"

definition matching_rules :: "broker \<Rightarrow> broker_action \<Rightarrow> policy_rule list" where
  "matching_rules b a = filter (\<lambda>r. capability_matches (te_world (br_env b)) True (ru_capability r) a) (br_policy b)"

definition rules_with :: "decision_effect \<Rightarrow> policy_rule list \<Rightarrow> string list" where
  "rules_with e rules = sort (map ru_id (filter (\<lambda>r. ru_effect r = e) rules))"

definition matching_tokens :: "broker \<Rightarrow> broker_action \<Rightarrow> capability_token list \<Rightarrow> string list" where
  "matching_tokens b a tokens = sort (map ct_id (filter (\<lambda>t.
     list_ex (\<lambda>c. capability_matches (te_world (br_env b)) True c a) (ct_capabilities t)) tokens))"

definition make_decision :: "decision_effect \<Rightarrow> string \<Rightarrow> string list \<Rightarrow> string list \<Rightarrow> decision" where
  "make_decision e why rules tokens =
     \<lparr>de_effect = e, de_reason = why, de_rules = rules, de_tokens = tokens, de_resolved = None\<rparr>"

definition judge :: "broker \<Rightarrow> broker_action \<Rightarrow> string list \<Rightarrow> string option \<Rightarrow> instant \<Rightarrow> decision" where
  "judge b a tokens subject now =
     (let denied = denied_by b a; rules = matching_rules b a;
          toks = matching_tokens b a (verify_tokens b tokens subject now);
          allowed = rules_with Allow rules; approvals = rules_with Require_Approval rules;
          d = (if denied \<noteq> [] then make_decision Deny ''policy_deny'' denied []
               else if toks \<noteq> [] then make_decision Allow
                 (if ac_verifier a then ''explicit_verifier_capability'' else ''capability_token'') [] toks
               else if approvals \<noteq> [] then make_decision Require_Approval ''policy_approval_required'' approvals []
               else if allowed \<noteq> [] then make_decision Allow ''policy_allow'' allowed []
               else make_decision Deny ''default_deny'' [] [])
      in case ac_path a of None \<Rightarrow> d
         | Some p \<Rightarrow> if ac_type a = A_Filesystem
                     then d\<lparr>de_resolved := Some (path_text (hw_resolve (te_world (br_env b)) p))\<rparr> else d)"

definition decision_json :: "decision \<Rightarrow> json" where
  "decision_json d = JObj [(''effect'', JStr (effect_value (de_effect d))), (''reason_code'', JStr (de_reason d)),
     (''matched_rule_ids'', jstrs (de_rules d)), (''matched_token_ids'', jstrs (de_tokens d)),
     (''resolved_path'', jopt JStr (de_resolved d))]"

definition decision_payload :: "broker_action \<Rightarrow> decision \<Rightarrow> string option \<Rightarrow> (string \<times> json) list" where
  "decision_payload a d subject = [(''action'', JObj (audit_payload a)), (''decision'', decision_json d)]
     @ (case subject of None \<Rightarrow> [] | Some s \<Rightarrow> [(''subject'', JStr s)])"

definition clean_payload :: "broker \<Rightarrow> broker_action \<Rightarrow> decision \<Rightarrow> string option \<Rightarrow> (string \<times> json) list" where
  "clean_payload b a d subject =
     (case redact_secrets (br_secrets b) (JObj (decision_payload a d subject)) of JObj kvs \<Rightarrow> kvs | _ \<Rightarrow> [])"

text \<open>A broker without a log has no file; the clock of the log is read at \<open>later\<close>.\<close>

definition decide :: "broker \<Rightarrow> broker_action \<Rightarrow> string list \<Rightarrow> string option \<Rightarrow> instant \<Rightarrow> instant
    \<Rightarrow> (audit_file option, string, decision) action" where
  "decide b a tokens subject now later fo =
     (let d = judge b a tokens subject now in
      case fo of None \<Rightarrow> (None, Inr d)
      | Some f \<Rightarrow> (case audit_append (br_hash b) (te_str (br_env b)) later ''policy_decision'' (clean_payload b a d subject) f of
          (f', Inl e) \<Rightarrow> (Some f', Inl e)
        | (f', Inr ev) \<Rightarrow> (Some f', Inr d)))"

end
