(* ===== verification/Enforce_Model.thy ===== *)
theory Enforce_Model
  imports Broker_Decide "HOL-Library.Sublist"
begin

section \<open>Enforcement: the reference monitor over the tool broker\<close>

text \<open>
  \<open>enforcement/taint.py\<close> and \<open>enforcement/monitor.py\<close>.  The monitor asks the broker
  (\<^const>\<open>decide\<close>), layers its egress allowlist and its approval path over the answer, appends a
  record to its trace and, in \<open>enforce\<close>, hands the effect to an executor.  The executor is the
  caller's: it is a parameter that changes a world of any type and may raise.  The state of a
  monitor is the audit file of its broker and its trace.
\<close>

subsection \<open>Provenance labels and secret handles\<close>

datatype taint_label = From_User | From_Repo | From_Memory | From_Remote | From_Tool

fun taint_value :: "taint_label \<Rightarrow> string" where
  "taint_value From_User = ''user''"
| "taint_value From_Repo = ''repo''"
| "taint_value From_Memory = ''memory''"
| "taint_value From_Remote = ''remote''"
| "taint_value From_Tool = ''tool''"

definition untrusted_labels :: "taint_label set" where
  "untrusted_labels = {From_Repo, From_Memory, From_Remote, From_Tool}"

record 'a tainted =
  ta_value :: 'a
  ta_labels :: "taint_label set"

definition is_untrusted :: "'a tainted \<Rightarrow> bool" where
  "is_untrusted t \<longleftrightarrow> ta_labels t \<inter> untrusted_labels \<noteq> {}"

definition is_trusted :: "'a tainted \<Rightarrow> bool" where
  "is_trusted t \<longleftrightarrow> ta_labels t \<noteq> {} \<and> \<not> is_untrusted t"

definition with_label :: "taint_label \<Rightarrow> 'a tainted \<Rightarrow> 'a tainted" where
  "with_label l t = \<lparr>ta_value = ta_value t, ta_labels = insert l (ta_labels t)\<rparr>"

record reveal_capability =
  rc_handle :: string
  rc_matcher :: string

definition make_reveal_capability :: "string \<Rightarrow> string \<Rightarrow> (string, reveal_capability) result" where
  "make_reveal_capability h m = (if h = [] \<or> m = []
     then Inl ''a reveal capability must reference a handle'' else Inr \<lparr>rc_handle = h, rc_matcher = m\<rparr>)"

record secret_handle =
  sh_value :: string
  sh_id :: string
  sh_hint :: string
  sh_matcher :: string

text \<open>The two random tokens the constructor draws are the arguments \<open>fresh_id\<close> and \<open>fresh_matcher\<close>.\<close>

definition make_secret_handle :: "string \<Rightarrow> string option \<Rightarrow> string \<Rightarrow> string \<Rightarrow> (string, secret_handle) result" where
  "make_secret_handle v hid fresh_id fresh_matcher =
     rbind (require (v \<noteq> []) ''secret value must be a non-empty string'') (\<lambda>_.
     rbind (require (case hid of None \<Rightarrow> True | Some h \<Rightarrow> h \<noteq> [] \<and> nul \<notin> set h)
              ''handle_id must be non-empty and free of NUL bytes'') (\<lambda>_.
       Inr \<lparr>sh_value = v, sh_id = (case hid of None \<Rightarrow> fresh_id | Some h \<Rightarrow> h),
            sh_hint = (if 4 \<le> length v then drop (length v - 4) v else replicate (length v) (CHR ''*'')),
            sh_matcher = fresh_matcher\<rparr>))"

definition handle_redacted :: "secret_handle \<Rightarrow> string" where
  "handle_redacted h = ''***'' @ sh_hint h"

definition grant :: "secret_handle \<Rightarrow> (string, reveal_capability) result" where
  "grant h = make_reveal_capability (sh_id h) (sh_matcher h)"

text \<open>\<open>hmac.compare_digest\<close> on strings raises \<open>TypeError\<close> unless both are ASCII.\<close>

definition reveal :: "secret_handle \<Rightarrow> reveal_capability \<Rightarrow> (string, string) result" where
  "reveal h c =
     (if rc_handle c \<noteq> sh_id h then Inl ''capability does not authorize this secret handle''
      else if \<not> ascii_text (rc_matcher c) \<or> \<not> ascii_text (sh_matcher h) then Inl ''TypeError''
      else if rc_matcher c \<noteq> sh_matcher h then Inl ''capability does not authorize this secret handle''
      else Inr (sh_value h))"

definition handle_json :: "secret_handle \<Rightarrow> json" where
  "handle_json h = JObj [(''handle_id'', JStr (sh_id h)), (''redacted'', JStr (handle_redacted h))]"

subsection \<open>Effects\<close>

record effect =
  ef_action :: broker_action
  ef_provenance :: "taint_label set"
  ef_handles :: "secret_handle list"
  ef_approval :: bool

definition make_effect :: "(string, broker_action) result \<Rightarrow> taint_label list \<Rightarrow> secret_handle list \<Rightarrow> bool
    \<Rightarrow> (string, effect) result" where
  "make_effect a prov handles approval = rbind a (\<lambda>a.
     Inr \<lparr>ef_action = a, ef_provenance = set prov, ef_handles = handles, ef_approval = approval\<rparr>)"

definition filesystem_effect :: "host_world \<Rightarrow> string \<Rightarrow> string \<Rightarrow> taint_label list \<Rightarrow> bool \<Rightarrow> (string, effect) result" where
  "filesystem_effect w op path prov approval = make_effect (filesystem_action w op path False []) prov [] approval"

definition command_effect :: "host_world \<Rightarrow> string list \<Rightarrow> taint_label list \<Rightarrow> bool \<Rightarrow> (string, effect) result" where
  "command_effect w argv prov approval = make_effect (command_action w argv False []) prov [] approval"

definition network_effect :: "host_world \<Rightarrow> string \<Rightarrow> string \<Rightarrow> int option \<Rightarrow> taint_label list \<Rightarrow> secret_handle list
    \<Rightarrow> bool \<Rightarrow> (string, effect) result" where
  "network_effect w op host port prov handles approval =
     make_effect (network_action w op host port False []) prov handles approval"

definition secret_effect :: "host_world \<Rightarrow> string \<Rightarrow> string \<Rightarrow> secret_handle list \<Rightarrow> taint_label list \<Rightarrow> bool
    \<Rightarrow> (string, effect) result" where
  "secret_effect w op name handles prov approval = make_effect (secret_action w op name) prov handles approval"

subsection \<open>The monitor\<close>

record decision_record =
  dr_kind :: string
  dr_outcome :: string
  dr_reason :: string
  dr_enforced :: bool
  dr_provenance :: "string list"
  dr_resource :: string
  dr_rules :: "string list"

definition record_json :: "decision_record \<Rightarrow> json" where
  "record_json r = JObj [(''effect_kind'', JStr (dr_kind r)), (''outcome'', JStr (dr_outcome r)),
     (''reason'', JStr (dr_reason r)), (''mode'', JStr (if dr_enforced r then ''enforced'' else ''advisory'')),
     (''enforced'', JBool (dr_enforced r)), (''provenance'', jstrs (dr_provenance r)),
     (''resource'', JStr (dr_resource r)), (''matched_rule_ids'', jstrs (dr_rules r))]"

record enforcement_result =
  er_decision :: decision
  er_performed :: bool
  er_advisory :: bool

definition blocked :: "enforcement_result \<Rightarrow> bool" where
  "blocked r \<longleftrightarrow> \<not> er_performed r"

record monitor =
  mo_broker :: broker
  mo_enforced :: bool
  mo_egress :: "network_rule list"
  mo_subject :: "string option"
  mo_tokens :: "string list"
  mo_secrets :: "string list"

definition make_monitor :: "broker \<Rightarrow> bool \<Rightarrow> string list \<Rightarrow> string option \<Rightarrow> string list \<Rightarrow> string list
    \<Rightarrow> (string, monitor) result" where
  "make_monitor b enforced allowlist subject tokens secrets =
     rbind (rmap (\<lambda>h. make_network_rule (te_world (br_env b)) h []) allowlist) (\<lambda>rules.
       Inr \<lparr>mo_broker = b, mo_enforced = enforced, mo_egress = rules, mo_subject = subject,
            mo_tokens = tokens, mo_secrets = secrets\<rparr>)"

definition egress_allowed :: "monitor \<Rightarrow> string option \<Rightarrow> int option \<Rightarrow> bool" where
  "egress_allowed m host port = (case host of None \<Rightarrow> False
     | Some h \<Rightarrow> list_ex (\<lambda>r. network_matches (te_world (br_env (mo_broker m))) r h port) (mo_egress m))"

fun outcome_of :: "decision_effect \<Rightarrow> string" where
  "outcome_of Allow = ''allow''"
| "outcome_of Deny = ''deny''"
| "outcome_of Require_Approval = ''escalate''"

definition summary_text :: "broker_action \<Rightarrow> string" where
  "summary_text a =
     (case ac_type a of
        A_Command \<Rightarrow> join '' '' (ac_argv a)
      | A_Filesystem \<Rightarrow> (case ac_path a of None \<Rightarrow> [] | Some p \<Rightarrow> p)
      | A_Network \<Rightarrow> (case ac_host a of None \<Rightarrow> [] | Some h \<Rightarrow> h)
                     @ (case ac_port a of None \<Rightarrow> [] | Some p \<Rightarrow> '':'' @ show_int p)
      | _ \<Rightarrow> ac_resource a)"

definition summarize :: "broker_action \<Rightarrow> string list \<Rightarrow> string" where
  "summarize a secrets = (case redact_secrets secrets (JStr (strip (ac_operation a @ '' '' @ summary_text a)))
     of JStr s \<Rightarrow> s | _ \<Rightarrow> [])"

definition decision_entry :: "monitor \<Rightarrow> effect \<Rightarrow> decision \<Rightarrow> decision_record" where
  "decision_entry m e d = \<lparr>dr_kind = action_type_value (ac_type (ef_action e)), dr_outcome = outcome_of (de_effect d),
     dr_reason = de_reason d, dr_enforced = mo_enforced m,
     dr_provenance = sorted_list_of_set (taint_value ` ef_provenance e),
     dr_resource = summarize (ef_action e) (mo_secrets m), dr_rules = de_rules d\<rparr>"

record monitor_state =
  ms_log :: "audit_file option"
  ms_trace :: "decision_record list"

text \<open>What \<open>guard\<close> layers over the broker's decision.\<close>

definition screen_egress :: "monitor \<Rightarrow> broker_action \<Rightarrow> decision \<Rightarrow> decision" where
  "screen_egress m a d = (if ac_type a = A_Network \<and> de_effect d \<noteq> Deny \<and> \<not> egress_allowed m (ac_host a) (ac_port a)
     then make_decision Deny ''egress_not_allowlisted'' [] [] else d)"

definition escalate :: "effect \<Rightarrow> decision \<Rightarrow> decision" where
  "escalate e d = (if ef_approval e \<and> de_effect d = Allow
     then make_decision Require_Approval ''elevation_requires_approval'' [] [] else d)"

definition guard :: "monitor \<Rightarrow> effect \<Rightarrow> instant \<Rightarrow> instant \<Rightarrow> (monitor_state, string, decision) action" where
  "guard m e now later s =
     (case decide (mo_broker m) (ef_action e) (mo_tokens m) (mo_subject m) now later (ms_log s) of
        (f, Inl err) \<Rightarrow> (s\<lparr>ms_log := f\<rparr>, Inl err)
      | (f, Inr d) \<Rightarrow>
          (let d' = escalate e (screen_egress m (ef_action e) d) in
           (s\<lparr>ms_log := f, ms_trace := ms_trace s @ [decision_entry m e d']\<rparr>, Inr d')))"

type_synonym 'w executor = "effect \<Rightarrow> ('w, string, unit) action"

definition enforce :: "monitor \<Rightarrow> 'w executor \<Rightarrow> effect \<Rightarrow> instant \<Rightarrow> instant
    \<Rightarrow> (monitor_state \<times> 'w, string, enforcement_result) action" where
  "enforce m exec e now later = (\<lambda>(s, w).
     case guard m e now later s of
       (s', Inl err) \<Rightarrow> ((s', w), Inl err)
     | (s', Inr d) \<Rightarrow>
         if mo_enforced m then
           if de_effect d = Allow then
             (case exec e w of (w', Inl err) \<Rightarrow> ((s', w'), Inl err)
              | (w', Inr _) \<Rightarrow> ((s', w'), Inr \<lparr>er_decision = d, er_performed = True, er_advisory = False\<rparr>))
           else ((s', w), Inr \<lparr>er_decision = d, er_performed = False, er_advisory = False\<rparr>)
         else
           (case exec e w of (w', Inl err) \<Rightarrow> ((s', w'), Inl err)
            | (w', Inr _) \<Rightarrow> ((s', w'), Inr \<lparr>er_decision = d, er_performed = True, er_advisory = True\<rparr>)))"

text \<open>A session: the effects a caller submits one after another, with the clocks each call reads.\<close>

type_synonym submission = "effect \<times> instant \<times> instant"

fun enforce_all :: "monitor \<Rightarrow> 'w executor \<Rightarrow> submission list \<Rightarrow> monitor_state \<times> 'w \<Rightarrow> monitor_state \<times> 'w" where
  "enforce_all m exec [] sw = sw"
| "enforce_all m exec ((e, now, later) # cs) sw = enforce_all m exec cs (fst (enforce m exec e now later sw))"

end
