(* ===== verification/Broker_Trip.thy ===== *)
theory Broker_Trip
  imports Broker_Token
begin

section \<open>Tool broker: tokens read back\<close>

text \<open>
  The base64url text of any bytes decodes to them and consists of ASCII letters without a dot, and
  the payload of a capability, written as canonical JSON and read, gives the capability back.
\<close>

subsection \<open>base64url\<close>

lemma b64_value_char: "n < 64 \<Longrightarrow> b64_value (b64_char n) = Some n"
  by (auto simp: b64_value_def b64_char_def Let_def)

lemma b64_char_text: "n < 64 \<Longrightarrow> b64_char n \<noteq> CHR ''.'' \<and> of_char (b64_char n) < (128 :: nat)"
proof -
  assume n: "n < 64"
  have "of_char (b64_char n) \<noteq> (46 :: nat) \<and> of_char (b64_char n) < (128 :: nat)"
    using n by (auto simp: b64_char_def)
  moreover have "of_char (CHR ''.'') = (46 :: nat)" by simp
  ultimately show ?thesis by metis
qed

lemma byte_parts:
  fixes x :: nat
  assumes "x < 256"
  shows "x div 4 < 64" "x div 16 < 16" "x div 64 < 4"
  using assms by (simp_all add: less_mult_imp_div_less)

lemma packed:
  fixes a b k :: nat
  assumes "b < k" shows "(a * k + b) div k = a" "(a * k + b) mod k = b"
  using assms by simp_all

lemma sextets:
  fixes x y z :: nat
  assumes "x < 256" and "y < 256" and "z < 256"
  shows "x div 4 < 64" "x mod 4 * 16 < 64" "x mod 4 * 16 + y div 16 < 64" "y mod 16 * 4 < 64"
    "y mod 16 * 4 + z div 64 < 64" "z mod 64 < 64"
proof -
  have "x mod 4 < 4" "y mod 16 < 16" "z mod 64 < 64" by simp_all
  with byte_parts [OF assms(1)] byte_parts [OF assms(2)] byte_parts [OF assms(3)]
  show "x div 4 < 64" "x mod 4 * 16 < 64" "x mod 4 * 16 + y div 16 < 64" "y mod 16 * 4 < 64"
    "y mod 16 * 4 + z div 64 < 64" "z mod 64 < 64" by linarith+
qed

lemma bytes_back:
  fixes x y z :: nat
  assumes "y < 256" and "z < 256"
  shows "x div 4 * 4 + x mod 4 * 16 div 16 = x"
    "x div 4 * 4 + (x mod 4 * 16 + y div 16) div 16 = x"
    "(x mod 4 * 16 + y div 16) mod 16 * 16 + y mod 16 * 4 div 4 = y"
    "(x mod 4 * 16 + y div 16) mod 16 * 16 + (y mod 16 * 4 + z div 64) div 4 = y"
    "(y mod 16 * 4 + z div 64) mod 4 * 64 + z mod 64 = z"
  using packed [OF byte_parts(2) [OF assms(1)], of "x mod 4"] packed [OF byte_parts(3) [OF assms(2)], of "y mod 16"]
  by simp_all

lemma byte_less: "of_char (c :: char) < (256 :: nat)"
  by simp

definition good_text :: "string \<Rightarrow> bool" where
  "good_text s \<longleftrightarrow> list_all (\<lambda>c. b64_value c \<noteq> None \<and> c \<noteq> CHR ''.'' \<and> of_char c < (128 :: nat)) s"

lemma good_char: "n < 64 \<Longrightarrow> good_text (b64_char n # s) = good_text s"
  using b64_value_char [of n] b64_char_text [of n] by (simp add: good_text_def)

lemma value_of_char: "n < 64 \<Longrightarrow> (the \<circ> b64_value) (b64_char n) = n"
  by (simp add: b64_value_char)

lemma b64_values:
  "good_text (b64_encode bs) \<and> b64_bytes (map (the \<circ> b64_value) (b64_encode bs)) = Inr bs"
proof (induction bs rule: b64_encode.induct)
  case 1
  then show ?case by (simp add: good_text_def)
next
  case (2 a)
  note s = sextets [OF byte_less [of a] byte_less [of a] byte_less [of a]]
    and b = bytes_back [OF byte_less [of a] byte_less [of a]]
  show ?case
    unfolding b64_encode.simps Let_def list.map value_of_char [OF s(1)] value_of_char [OF s(2)] b64_bytes.simps b
      char_of_char good_char [OF s(1)] good_char [OF s(2)] by (simp add: good_text_def)
next
  case (3 a b)
  note s = sextets [OF byte_less [of a] byte_less [of b] byte_less [of b]]
    and bk = bytes_back [OF byte_less [of b] byte_less [of b]]
  show ?case
    unfolding b64_encode.simps Let_def list.map value_of_char [OF s(1)] value_of_char [OF s(3)] value_of_char [OF s(4)]
      b64_bytes.simps bk char_of_char good_char [OF s(1)] good_char [OF s(3)] good_char [OF s(4)]
    by (simp add: good_text_def)
next
  case (4 a b c rest)
  note s = sextets [OF byte_less [of a] byte_less [of b] byte_less [of c]]
    and bk = bytes_back [OF byte_less [of b] byte_less [of c]]
  note v = value_of_char [OF s(1)] value_of_char [OF s(3)] value_of_char [OF s(5)] value_of_char [OF s(6)]
    and g = good_char [OF s(1)] good_char [OF s(3)] good_char [OF s(5)] good_char [OF s(6)]
  show ?case
    unfolding b64_encode.simps Let_def append.simps list.map v g b64_bytes.simps
      conjunct2 [OF 4 [unfolded Let_def, OF refl refl refl]] rbind_simps bk char_of_char
    using 4 by simp
qed

lemma b64_round_trip: "bs \<noteq> [] \<Longrightarrow> b64_decode (b64_encode bs) = Inr bs"
proof -
  assume "bs \<noteq> []"
  then have "b64_encode bs \<noteq> []" by (cases bs rule: b64_encode.cases) (simp_all add: Let_def)
  with b64_values [of bs] show ?thesis
    by (auto simp: b64_decode_def good_text_def list_ex_iff list_all_iff)
qed

lemma b64_length: "length (b64_encode bs) = (4 * length bs + 2) div 3"
  by (induction bs rule: b64_encode.induct) (simp_all add: Let_def)

subsection \<open>Capabilities\<close>

text \<open>
  The members of an object read back: \<open>sort_key fst (map_vals canon kvs)\<close> is the canonical object.
\<close>

lemma member_canon:
  fixes kvs :: "(string \<times> json) list"
  shows "distinct (map fst kvs) \<Longrightarrow> map_of (sort_key fst (map_vals canon kvs)) k = map_option canon (map_of kvs k)"
  using canon_get [OF canon_obj, of kvs k] by simp

lemma rmap_back: "(\<And>x. x \<in> set xs \<Longrightarrow> f (g x) = Inr x) \<Longrightarrow> rmap f (map g xs) = Inr xs"
  by (induction xs) auto

lemma strs_back: "map (py_str env) (map JStr xs) = xs"
  by (simp add: comp_def py_str_def)

text \<open>
  A scope is portable when it is what its constructors make of its own written form: \<open>Path.resolve\<close>
  of a resolved root is that root, and a canonical host pattern is canonical.
\<close>

definition portable :: "host_world \<Rightarrow> capability \<Rightarrow> bool" where
  "portable w c \<longleftrightarrow> make_capability c = Inr c \<and>
     list_all (\<lambda>r. make_command_rule (cr_argv r) (cr_exact r) = Inr r) (cb_commands c) \<and>
     list_all (\<lambda>r. make_path_rule w (path_text (pr_root r)) (pr_allow_root r) = Inr r) (cb_paths c) \<and>
     list_all (\<lambda>r. make_network_rule w (nr_host r) (nr_ports r) = Inr r) (cb_networks c)"

definition canon_pairs :: "(string \<times> json) list \<Rightarrow> (string \<times> json) list" where
  "canon_pairs kvs = sort_key fst (map_vals canon kvs)"

lemma canon_pairs_obj: "canon (JObj kvs) = JObj (canon_pairs kvs)"
  by (simp add: canon_pairs_def)

lemma member_pairs: "distinct (map fst kvs) \<Longrightarrow> map_of (canon_pairs kvs) k = map_option canon (map_of kvs k)"
  unfolding canon_pairs_def by (rule member_canon)

lemma objects_map: "objects (map (\<lambda>x. JObj (f x)) xs) = map f xs"
  by (induction xs) (simp_all add: objects_def)

definition command_pairs :: "command_rule \<Rightarrow> (string \<times> json) list" where
  "command_pairs r = [(''argv'', jstrs (cr_argv r)), (''exact'', JBool (cr_exact r))]"

definition path_pairs :: "path_rule \<Rightarrow> (string \<times> json) list" where
  "path_pairs r = [(''root'', JStr (path_text (pr_root r))), (''allow_root'', JBool (pr_allow_root r))]"

definition network_pairs :: "network_rule \<Rightarrow> (string \<times> json) list" where
  "network_pairs r = [(''host'', JStr (nr_host r)), (''ports'', JList (map JInt (nr_ports r)))]"

lemma rule_jsons:
  "canon (command_json r) = JObj (canon_pairs (command_pairs r))"
  "canon (path_json q) = JObj (canon_pairs (path_pairs q))"
  "canon (network_json n) = JObj (canon_pairs (network_pairs n))"
  by (simp_all only: command_json_def path_json_def network_json_def command_pairs_def path_pairs_def
      network_pairs_def canon_pairs_obj)

lemma command_back:
  "make_command_rule (cr_argv r) (cr_exact r) = Inr r \<Longrightarrow> command_from env (canon_pairs (command_pairs r)) = Inr r"
  unfolding command_from_def item_def
  by (subst (1 2) member_pairs) (simp_all add: command_pairs_def jstrs_def comp_def py_str_def)

lemma path_back:
  "make_path_rule (te_world env) (path_text (pr_root r)) (pr_allow_root r) = Inr r \<Longrightarrow>
   path_from env (canon_pairs (path_pairs r)) = Inr r"
  unfolding path_from_def item_def
  by (subst (1 2) member_pairs) (simp_all add: path_pairs_def py_str_def)

lemma network_back:
  "make_network_rule (te_world env) (nr_host r) (nr_ports r) = Inr r \<Longrightarrow>
   network_from env (canon_pairs (network_pairs r)) = Inr r"
  unfolding network_from_def item_def get_items_def
  by (subst (1 2) member_pairs) (simp_all add: network_pairs_def py_str_def rmap_back comp_def)

lemma action_type_back: "action_type_of (action_type_value t) = Inr t"
  by (cases t) (simp_all add: action_type_of_def)

lemma amount_back: "amount_ok a \<Longrightarrow> map_of d ''max_amount'' = Some (canon (jopt amount_json a)) \<Longrightarrow>
    max_amount_from env d = Inr a"
  by (cases a; cases "the a") (auto simp: amount_ok_def jopt_def max_amount_from_def amount_json_def)

definition capability_pairs :: "capability \<Rightarrow> (string \<times> json) list" where
  "capability_pairs c =
     [(''action_type'', JStr (action_type_value (cb_type c))), (''operations'', jstrs (cb_operations c)),
      (''resources'', jstrs (cb_resources c)), (''command_rules'', JList (map command_json (cb_commands c))),
      (''path_rules'', JList (map path_json (cb_paths c))),
      (''network_rules'', JList (map network_json (cb_networks c))),
      (''max_amount'', jopt amount_json (cb_max_amount c)), (''verifier'', JBool (cb_verifier c))]"

lemma capability_back:
  assumes "portable (te_world env) c"
  shows "capability_from_payload env (canon (capability_payload c)) = Inr c"
proof -
  let ?d = "canon_pairs (capability_pairs c)"
  have doc: "canon (capability_payload c) = JObj ?d"
    by (simp only: capability_payload_def capability_pairs_def canon_pairs_obj)
  have d: "distinct (map fst (capability_pairs c))" by (simp add: capability_pairs_def)
  have m: "map_of ?d k = map_option canon (map_of (capability_pairs c) k)" for k
    by (rule member_pairs [OF d])
  have ok: "amount_ok (cb_max_amount c)" and made: "make_capability c = Inr c"
    using assms by (auto simp: portable_def make_capability_def rbind_eq_Inr require_eq_Inr)
  have cmds: "rmap (command_from env) (objects (map (canon \<circ> command_json) (cb_commands c))) = Inr (cb_commands c)"
    using assms by (simp add: comp_def rule_jsons objects_map del: canon_obj)
      (rule rmap_back, auto simp: portable_def list_all_iff intro: command_back)
  have paths: "rmap (path_from env) (objects (map (canon \<circ> path_json) (cb_paths c))) = Inr (cb_paths c)"
    using assms by (simp add: comp_def rule_jsons objects_map del: canon_obj)
      (rule rmap_back, auto simp: portable_def list_all_iff intro: path_back)
  have nets: "rmap (network_from env) (objects (map (canon \<circ> network_json) (cb_networks c))) = Inr (cb_networks c)"
    using assms by (simp add: comp_def rule_jsons objects_map del: canon_obj)
      (rule rmap_back, auto simp: portable_def list_all_iff intro: network_back)
  have amount: "max_amount_from env ?d = Inr (cb_max_amount c)"
    by (rule amount_back [OF ok], subst m) (simp add: capability_pairs_def)
  have eta: "\<lparr>cb_type = cb_type c, cb_operations = cb_operations c, cb_resources = cb_resources c,
      cb_commands = cb_commands c, cb_paths = cb_paths c, cb_networks = cb_networks c,
      cb_max_amount = cb_max_amount c, cb_verifier = cb_verifier c\<rparr> = c"
    by (cases c) simp
  show ?thesis
    unfolding doc capability_from_payload_def json.case item_def get_items_def m amount
    using made cmds paths nets
    by (simp add: capability_pairs_def py_str_def action_type_back jstrs_def comp_def eta)
qed

subsection \<open>Tokens\<close>

definition token_pairs :: "string \<Rightarrow> string \<Rightarrow> instant \<Rightarrow> instant \<Rightarrow> capability list \<Rightarrow> (string \<times> json) list" where
  "token_pairs tid subject issued expires caps =
     [(''version'', JInt 1), (''token_id'', JStr tid), (''subject'', JStr subject), (''issued_at'', JTime issued),
      (''expires_at'', JTime expires), (''capabilities'', JList (map capability_payload caps))]"

lemma token_back:
  assumes "\<forall>c\<in>set caps. portable (te_world env) c" and "caps \<noteq> []"
  shows "read_token env sub now (canon (token_payload tid subject issued expires caps)) =
    (if (case sub of None \<Rightarrow> True | Some x \<Rightarrow> x = subject) \<and> issued \<le> now \<and> now < expires
     then Inr \<lparr>ct_id = tid, ct_subject = subject, ct_capabilities = caps, ct_issued = issued, ct_expires = expires\<rparr>
     else Inl (if (case sub of None \<Rightarrow> True | Some x \<Rightarrow> x = subject) then ''expired'' else ''subject''))"
proof -
  let ?d = "canon_pairs (token_pairs tid subject issued expires caps)"
  have doc: "canon (token_payload tid subject issued expires caps) = JObj ?d"
    by (simp only: token_payload_def token_pairs_def canon_pairs_obj)
  have m: "map_of ?d k = map_option canon (map_of (token_pairs tid subject issued expires caps) k)" for k
    by (rule member_pairs) (simp add: token_pairs_def)
  have caps: "rmap (capability_from_payload env) (map (canon \<circ> capability_payload) caps) = Inr caps"
    using assms(1) by (intro rmap_back) (simp add: capability_back)
  show ?thesis
    unfolding doc read_token_def json.case item_def m
    using caps assms(2)
    by (auto simp: token_pairs_def py_str_def read_instant_def comp_def require_def split: option.split)
qed

end
