(* ===== verification/Broker_Chain.thy ===== *)
theory Broker_Chain
  imports Broker_Audit
begin

section \<open>Tool broker: the audit log is a hash chain\<close>

text \<open>
  The audit log is the second instance of \<open>hash_chain\<close>: its check is \<open>chain_from\<close> over the
  documents of its lines, and the record an append writes is sealed.
\<close>

lemma jfield_canon: "distinct (map fst kvs) \<Longrightarrow> jfield k (canon (JObj kvs)) = map_option canon (map_of kvs k)"
proof -
  assume d: "distinct (map fst kvs)"
  obtain kvs' where c: "canon (JObj kvs) = JObj kvs'" by simp
  from canon_get [OF c d] c show ?thesis by (simp del: canon_obj)
qed

text \<open>The record of an append after a record with hash \<open>h\<close>.\<close>

definition sealed_doc :: "doc_hash \<Rightarrow> int \<Rightarrow> string option \<Rightarrow> instant \<times> string \<times> (string \<times> json) list \<Rightarrow> json" where
  "sealed_doc H n h = (\<lambda>(now, etype, data).
     let e = [(''sequence'', JInt n), (''timestamp'', JTime now), (''event_type'', JStr etype),
              (''data'', JObj data), (''previous_hash'', jopt JStr h)]
     in canon (JObj (e @ [(''event_hash'', JStr (audit_event_hash H e))])))"

lemma sealed_doc_Some:
  "sealed_doc H n (Some p) (now, etype, data) = canon (JObj (audit_event H n now etype data p))"
  by (simp add: sealed_doc_def audit_event_def unhashed_event_def jopt_def Let_def del: canon_obj)

lemma sealed_fields:
  "seq_of (sealed_doc H n h x) = n"
  "text_field ''previous_hash'' (sealed_doc H n h x) = h"
  "text_field ''event_hash'' (sealed_doc H n h x) = content_hash H (sealed_doc H n h x)"
proof -
  obtain now etype data where x: "x = (now, etype, data)" by (cases x)
  let ?e = "[(''sequence'', JInt n), (''timestamp'', JTime now), (''event_type'', JStr etype),
      (''data'', JObj data), (''previous_hash'', jopt JStr h)]"
  let ?kvs = "?e @ [(''event_hash'', JStr (audit_event_hash H ?e))]"
  have doc: "sealed_doc H n h x = canon (JObj ?kvs)" by (simp add: sealed_doc_def x Let_def del: canon_obj)
  have d: "distinct (map fst ?kvs)" by simp
  note f = jfield_canon [OF d]
  show "seq_of (sealed_doc H n h x) = n" unfolding seq_of_def doc f by simp
  show "text_field ''previous_hash'' (sealed_doc H n h x) = h"
    unfolding text_field_def doc f by (cases h) (simp_all add: jopt_def)
  obtain kvs' where c: "canon (JObj ?kvs) = JObj kvs'" by simp
  have "content_hash H (sealed_doc H n h x) = Some (audit_event_hash H (AList.delete ''event_hash'' ?kvs))"
    unfolding doc c using canon_delete [OF c d, of "''event_hash''"]
    by (simp add: content_hash_def audit_event_hash_def del: canon_obj)
  moreover have "AList.delete ''event_hash'' ?kvs = ?e" by simp
  ultimately show "text_field ''event_hash'' (sealed_doc H n h x) = content_hash H (sealed_doc H n h x)"
    unfolding text_field_def doc f by simp
qed

interpretation audit_chain: hash_chain seq_of "text_field ''previous_hash''" "text_field ''event_hash''"
  "content_hash H" "sealed_doc H" for H
  by unfold_locales (rule sealed_fields)+

subsection \<open>The check of the log\<close>

definition doc_chain :: "doc_hash \<Rightarrow> json list \<Rightarrow> bool" where
  "doc_chain H docs \<longleftrightarrow> chain_from seq_of (text_field ''previous_hash'') (text_field ''event_hash'') (content_hash H)
     0 (Some genesis_hash) docs \<and> (\<forall>j\<in>set docs. \<exists>d. j = JObj d)"

definition doc_head :: "json list \<Rightarrow> string option" where
  "doc_head docs = head_hash (text_field ''event_hash'') (Some genesis_hash) docs"

lemma verify_lines_iff:
  "verify_lines H n prev ls = Some h \<longleftrightarrow> (\<exists>docs. ls = map Document docs \<and>
     chain_from seq_of (text_field ''previous_hash'') (text_field ''event_hash'') (content_hash H) n prev docs \<and>
     (\<forall>j\<in>set docs. \<exists>d. j = JObj d) \<and> h = head_hash (text_field ''event_hash'') prev docs)"
proof (induction H n prev ls rule: verify_lines.induct)
  case (1 H n prev)
  then show ?case by auto
next
  case (2 H n prev ls)
  then show ?case by auto
next
  case (3 H n prev j ls)
  let ?P = "\<lambda>docs. chain_from seq_of (text_field ''previous_hash'') (text_field ''event_hash'') (content_hash H)
      (n + 1) (text_field ''event_hash'' j) docs \<and> (\<forall>j\<in>set docs. \<exists>d. j = JObj d) \<and>
      h = head_hash (text_field ''event_hash'') (text_field ''event_hash'' j) docs"
  show ?case (is "_ \<longleftrightarrow> ?rhs")
  proof (cases j)
    case (JObj d)
    let ?ok = "seq_of j = n \<and> text_field ''previous_hash'' j = prev \<and> text_field ''event_hash'' j = content_hash H j"
    show ?thesis
    proof (cases ?ok)
      case True
      with JObj have "verify_lines H n prev (Document j # ls) = verify_lines H (n + 1) (text_field ''event_hash'' j) ls"
        by simp
      moreover from 3 [OF JObj] True have "verify_lines H (n + 1) (text_field ''event_hash'' j) ls = Some h \<longleftrightarrow>
          (\<exists>docs. ls = map Document docs \<and> ?P docs)"
        by simp
      ultimately have eq: "verify_lines H n prev (Document j # ls) = Some h \<longleftrightarrow> (\<exists>docs. ls = map Document docs \<and> ?P docs)"
        by (simp only:)
      show ?thesis
      proof
        assume "verify_lines H n prev (Document j # ls) = Some h"
        with eq obtain docs where "ls = map Document docs" "?P docs" by blast
        with True JObj show ?rhs by (intro exI [of _ "j # docs"]) auto
      next
        assume ?rhs
        then obtain docs where "Document j # ls = map Document (j # docs)" "?P docs"
          by (auto simp: Cons_eq_map_conv)
        with eq show "verify_lines H n prev (Document j # ls) = Some h" by auto
      qed
    next
      case False
      then show ?thesis using JObj by (auto simp: Cons_eq_map_conv)
    qed
  qed auto
qed

lemma audit_verify_iff:
  "audit_verify H f sq hx \<longleftrightarrow> (\<exists>docs. f = Log_File (map Document docs) \<and> doc_chain H docs \<and>
     (case sq of None \<Rightarrow> True | Some n \<Rightarrow> int (length docs) - 1 = n) \<and>
     (case hx of None \<Rightarrow> True | Some x \<Rightarrow> doc_head docs = Some x))"
proof (cases f)
  case (Log_File ls)
  show ?thesis
  proof (cases "verify_lines H 0 (Some genesis_hash) ls")
    case None
    then have "\<not> (\<exists>docs. ls = map Document docs \<and> doc_chain H docs)"
      using verify_lines_iff [of H 0 "Some genesis_hash" ls] by (auto simp: doc_chain_def)
    with None Log_File show ?thesis by (auto simp: audit_verify_def)
  next
    case (Some h)
    from iffD1 [OF verify_lines_iff this] obtain docs where
      d: "ls = map Document docs" "doc_chain H docs" "h = doc_head docs"
      by (auto simp: doc_chain_def doc_head_def)
    have same: "map Document docs = map Document xs \<longleftrightarrow> docs = xs" for xs
      by (rule inj_map_eq_map) (simp add: inj_def)
    have "audit_verify H f sq hx \<longleftrightarrow> (case sq of None \<Rightarrow> True | Some n \<Rightarrow> int (length docs) - 1 = n) \<and>
        (case hx of None \<Rightarrow> True | Some x \<Rightarrow> doc_head docs = Some x)"
      using Some d(1,3) Log_File by (simp add: audit_verify_def split: option.split)
    with d(1,2) Log_File show ?thesis by (simp add: same)
  qed
qed (auto simp: audit_verify_def)

text \<open>What an append to a checked log does.\<close>

definition log_docs :: "audit_file \<Rightarrow> json list option" where
  "log_docs f = (case f of No_File \<Rightarrow> Some []
     | Log_File ls \<Rightarrow> if list_all (\<lambda>l. l \<noteq> Not_Json) ls then Some (map (\<lambda>l. case l of Document j \<Rightarrow> j | _ \<Rightarrow> JNull) ls) else None
     | _ \<Rightarrow> None)"

lemma log_docs_Document: "log_docs (Log_File (map Document docs)) = Some docs"
  by (simp add: log_docs_def list_all_iff comp_def)

lemma chain_last_hash:
  assumes "doc_chain H docs" shows "\<exists>p. last_hash show (map Document docs) = Inr p \<and> doc_head docs = Some p"
proof (cases docs rule: rev_cases)
  case Nil
  then show ?thesis by (simp add: last_hash_def doc_head_def)
next
  case (snoc ds j)
  with assms obtain d where d: "j = JObj d" by (auto simp: doc_chain_def)
  from assms have "text_field ''event_hash'' j = content_hash H j"
    using snoc by (simp add: doc_chain_def chain_from_append)
  with d obtain p where p: "map_of d ''event_hash'' = Some (JStr p)"
    by (auto simp: text_field_def content_hash_def split: option.split_asm json.split_asm)
  with snoc d show ?thesis by (simp add: last_hash_def doc_head_def text_field_def)
qed

lemma audit_append_chain:
  assumes "audit_append H show now etype data f = (f', Inr ev)"
    and "f = No_File \<and> docs = [] \<or> f = Log_File (map Document docs) \<and> doc_chain H docs"
  shows "f' = Log_File (map Document (docs @ [canon (JObj ev)])) \<and> doc_chain H (docs @ [canon (JObj ev)]) \<and>
    map_of ev ''data'' = Some (JObj data) \<and> distinct (map fst ev)"
proof -
  have chain: "doc_chain H docs" using assms(2) by (auto simp: doc_chain_def)
  then obtain p where p: "last_hash show (map Document docs) = Inr p" "doc_head docs = Some p"
    using chain_last_hash by blast
  have lines: "(case f of Log_File ls \<Rightarrow> ls | _ \<Rightarrow> []) = map Document docs" using assms(2) by auto
  have ok: "\<not> (etype = [] \<or> char_of (0 :: nat) \<in> set etype)"
    using assms(1) by (auto simp: audit_append_def split: if_split_asm)
  have f': "f' = Log_File (map Document docs @ [Document (canon (JObj ev))])"
    and ev: "ev = audit_event H (int (length docs)) now etype data p"
    using assms p(1) ok by (auto simp: audit_append_def Let_def simp del: canon_obj)
  have "canon (JObj ev) = sealed_doc H (int (length docs)) (doc_head docs) (now, etype, data)"
    unfolding p(2) sealed_doc_Some ev ..
  with audit_chain.seal_extends [of H 0 "Some genesis_hash" docs "int (length docs)" "doc_head docs" "(now, etype, data)"] chain
  have "chain_from seq_of (text_field ''previous_hash'') (text_field ''event_hash'') (content_hash H) 0
      (Some genesis_hash) (docs @ [canon (JObj ev)])"
    by (simp add: doc_chain_def doc_head_def del: canon_obj)
  with chain have "doc_chain H (docs @ [canon (JObj ev)])" by (auto simp: doc_chain_def)
  with f' ev show ?thesis by (simp add: audit_event_def unhashed_event_def Let_def del: canon_obj)
qed

end
