(* ===== verification/Broker_Secrets.thy ===== *)
theory Broker_Secrets
  imports Broker_Audit
begin

section \<open>Tool broker: what redaction removes\<close>

text \<open>
  A secret that shares no character with the marker \<open>[REDACTED]\<close> does not occur in any text of a
  redacted document: a replacement removes every occurrence, and no later replacement can put one
  back together, because what it inserts separates the text around it.
\<close>

definition maskable :: "string \<Rightarrow> bool" where
  "maskable s \<longleftrightarrow> s \<noteq> [] \<and> set s \<inter> set redacted = {}"

lemma contains_drop: "contains t s \<longleftrightarrow> (\<exists>i\<le>length t. starts_with (drop i t) s)"
proof
  assume "contains t s"
  then obtain l r where "t = l @ s @ r" by (auto simp: contains_iff)
  then show "\<exists>i\<le>length t. starts_with (drop i t) s"
    by (intro exI [of _ "length l"]) (auto simp: starts_with_iff)
next
  assume "\<exists>i\<le>length t. starts_with (drop i t) s"
  then obtain i r where "drop i t = s @ r" by (auto simp: starts_with_iff)
  then have "t = take i t @ s @ r" by (metis append_take_drop_id)
  then show "contains t s" unfolding contains_iff by blast
qed

lemma starts_with_Nil [simp]: "starts_with [] s \<longleftrightarrow> s = []"
  by (cases s) auto

lemma contains_append: "contains a s \<Longrightarrow> contains (a @ b) s" "contains b s \<Longrightarrow> contains (a @ b) s"
  unfolding contains_iff by (metis append.assoc)+

lemma starts_with_marked:
  "starts_with (a @ m @ b) s \<Longrightarrow> m \<noteq> [] \<Longrightarrow> set m \<inter> set s = {} \<Longrightarrow> starts_with a s"
proof (induction a arbitrary: s)
  case Nil
  then show ?case by (cases s; cases m) auto
next
  case (Cons x a)
  then show ?case by (cases s) auto
qed

lemma contains_past_mark:
  assumes "contains (m @ b) s" and "s \<noteq> []" and "set m \<inter> set s = {}"
  shows "contains b s"
  using assms(1,3)
proof (induction m)
  case (Cons x m)
  have "\<not> starts_with ((x # m) @ b) s" using Cons.prems(2) assms(2) by (cases s) auto
  with Cons show ?case by simp
qed simp

lemma contains_marked:
  assumes "contains (a @ m @ b) s" and "m \<noteq> []" and "s \<noteq> []" and "set m \<inter> set s = {}"
  shows "contains a s \<or> contains b s"
  using assms(1)
proof (induction a)
  case Nil
  with contains_past_mark assms(3,4) show ?case by simp
next
  case (Cons x a)
  show ?case
  proof (cases "starts_with ((x # a) @ m @ b) s")
    case True
    from starts_with_marked [OF this assms(2,4)] show ?thesis by simp
  next
    case False
    with Cons show ?thesis by auto
  qed
qed

lemma redacted_separates:
  assumes "maskable s" and "\<not> contains a s" and "\<not> contains b s" shows "\<not> contains (a @ redacted @ b) s"
proof
  assume c: "contains (a @ redacted @ b) s"
  have "redacted \<noteq> []" by (simp add: redacted_def)
  with contains_marked [OF c] assms show False by (auto simp: maskable_def Int_commute)
qed

lemma no_contains_append: "\<not> contains (a @ b) s \<Longrightarrow> \<not> contains a s \<and> \<not> contains b s"
  using contains_append by blast

lemma no_contains_drop: "\<not> contains t s \<Longrightarrow> \<not> contains (drop n t) s"
  using contains_append(2) [of "drop n t" s "take n t"] by auto

text \<open>A replacement keeps a secret out.\<close>

lemma replace_all_keeps:
  assumes "maskable s" and "\<not> contains (a @ t) s" shows "\<not> contains (a @ replace_all q redacted t) s"
  using assms(2)
proof (induction q "redacted" t arbitrary: a rule: replace_all.induct)
  case (1 q t)
  consider "q = [] \<or> t = []" | (hit) "q \<noteq> []" "t \<noteq> []" "starts_with t q" | (miss) "q \<noteq> []" "t \<noteq> []" "\<not> starts_with t q"
    by blast
  then show ?case
  proof cases
    case 1
    with "1.prems" show ?thesis by (subst replace_all.simps) auto
  next
    case hit
    from no_contains_append [OF "1.prems"] have "\<not> contains a s" "\<not> contains t s" by simp_all
    moreover have "\<not> contains ([] @ replace_all q redacted (drop (length q) t)) s"
      using hit no_contains_drop [OF calculation(2)] by (intro "1.hyps"(1)) auto
    ultimately have "\<not> contains (a @ redacted @ replace_all q redacted (drop (length q) t)) s"
      using redacted_separates [OF assms(1)] by simp
    with hit show ?thesis by (subst replace_all.simps) simp
  next
    case miss
    have "\<not> contains ((a @ [hd t]) @ replace_all q redacted (tl t)) s"
      using miss "1.prems" by (intro "1.hyps"(2)) auto
    with miss show ?thesis by (subst replace_all.simps) simp
  qed
qed

lemma sub_pattern_keeps:
  assumes "maskable s" and "\<not> contains (a @ t) s" shows "\<not> contains (a @ sub_pattern m w t) s"
  using assms(2)
proof (induction m w t arbitrary: a rule: sub_pattern.induct)
  case (1 m w t)
  show ?case
  proof (cases t)
    case Nil
    with "1.prems" show ?thesis by (simp add: sub_pattern.simps)
  next
    case (Cons c cs)
    show ?thesis
    proof (cases "\<exists>n. m w t = Some (Suc n)")
      case True
      then obtain n where n: "m w t = Some (Suc n)" by blast
      from no_contains_append [OF "1.prems"] have "\<not> contains a s" "\<not> contains t s" by simp_all
      moreover have "\<not> contains ([] @ sub_pattern m (py_word (last (take (Suc n) t))) (drop (Suc n) t)) s"
        using no_contains_drop [OF calculation(2)] by (intro "1.IH"(3) [OF Cons n]) auto
      ultimately have "\<not> contains (a @ redacted @ sub_pattern m (py_word (last (take (Suc n) t))) (drop (Suc n) t)) s"
        using redacted_separates [OF assms(1)] by simp
      with Cons n show ?thesis by (subst sub_pattern.simps) simp
    next
      case False
      have eq: "sub_pattern m w t = c # sub_pattern m (py_word c) cs"
        using Cons False by (subst sub_pattern.simps) (auto split: option.split nat.split)
      have "\<not> contains ((a @ [c]) @ sub_pattern m (py_word c) cs) s"
      proof (cases "m w t")
        case None
        with Cons "1.prems" show ?thesis by (intro "1.IH"(1)) auto
      next
        case (Some k)
        with False have "m w t = Some 0" by (cases k) auto
        with Cons "1.prems" show ?thesis by (intro "1.IH"(2)) auto
      qed
      with eq show ?thesis by simp
    qed
  qed
qed

text \<open>Replacing a secret removes it.\<close>

lemma replace_all_removes:
  assumes "maskable s" and "\<forall>i<length a. \<not> starts_with (drop i (a @ t)) s"
  shows "\<not> contains (a @ replace_all s redacted t) s"
  using assms(2)
proof (induction "length t" arbitrary: a t rule: less_induct)
  case less
  have s: "s \<noteq> []" using assms(1) by (simp add: maskable_def)
  consider (nil) "t = []" | (hit) "t \<noteq> []" "starts_with t s" | (miss) "t \<noteq> []" "\<not> starts_with t s" by blast
  then show ?case
  proof cases
    case nil
    have "\<not> contains a s"
    proof
      assume "contains a s"
      then obtain i where i: "i \<le> length a" "starts_with (drop i a) s" by (auto simp: contains_drop)
      with s have "i < length a" by (cases "i = length a") auto
      with less.prems i nil show False by simp
    qed
    with nil show ?thesis by (subst replace_all.simps) simp
  next
    case hit
    have "\<not> contains a s"
    proof
      assume "contains a s"
      then obtain i where i: "i \<le> length a" "starts_with (drop i a) s" by (auto simp: contains_drop)
      with s have "i < length a" by (cases "i = length a") auto
      moreover have "starts_with (drop i (a @ t)) s" using i by (auto simp: starts_with_iff)
      ultimately show False using less.prems by blast
    qed
    moreover have "\<not> contains ([] @ replace_all s redacted (drop (length s) t)) s"
      using hit s by (intro less.hyps) auto
    ultimately have "\<not> contains (a @ redacted @ replace_all s redacted (drop (length s) t)) s"
      using redacted_separates [OF assms(1)] by simp
    with hit s show ?thesis by (subst replace_all.simps) simp
  next
    case miss
    have "\<not> contains ((a @ [hd t]) @ replace_all s redacted (tl t)) s"
    proof (rule less.hyps)
      show "length (tl t) < length t" using miss by (cases t) auto
      show "\<forall>i<length (a @ [hd t]). \<not> starts_with (drop i ((a @ [hd t]) @ tl t)) s"
      proof (intro allI impI)
        fix i assume "i < length (a @ [hd t])"
        then consider "i < length a" | "i = length a" by fastforce
        then show "\<not> starts_with (drop i ((a @ [hd t]) @ tl t)) s"
          using less.prems miss by cases auto
      qed
    qed
    with miss s show ?thesis by (subst replace_all.simps) simp
  qed
qed

lemma replace_secrets:
  assumes "s \<in> set ss \<or> \<not> contains t s" and "maskable s"
  shows "\<not> contains (fold (\<lambda>s t. replace_all s redacted t) ss t) s"
  using assms(1)
proof (induction ss arbitrary: t)
  case (Cons q ss)
  have "s \<in> set ss \<or> \<not> contains (replace_all q redacted t) s"
    using Cons.prems replace_all_removes [OF assms(2), of "[]" t] replace_all_keeps [OF assms(2), of "[]" t q] by auto
  with Cons.IH show ?case by simp
qed simp

lemma redact_string_removes:
  assumes "s \<in> set ss" and "maskable s" shows "\<not> contains (redact_string ss v) s"
proof -
  have keep: "\<not> contains (fold (\<lambda>m t. sub_pattern m False t) ms t) s" if "\<not> contains t s" for ms t
    using that
  proof (induction ms arbitrary: t)
    case (Cons m ms)
    with sub_pattern_keeps [OF assms(2), of "[]" t m False] show ?case by simp
  qed simp
  show ?thesis unfolding redact_string_def by (rule keep) (use replace_secrets assms in blast)
qed

subsection \<open>Documents\<close>

fun json_texts :: "json \<Rightarrow> string list" where
  "json_texts (JStr s) = [s]"
| "json_texts (JList js) = concat (map json_texts js)"
| "json_texts (JObj kvs) = concat (map (\<lambda>(k, v). k # json_texts v) kvs)"
| "json_texts j = []"

definition clean_of :: "string list \<Rightarrow> json \<Rightarrow> bool" where
  "clean_of ss j \<longleftrightarrow> (\<forall>x\<in>set (json_texts j). \<forall>s\<in>set ss. maskable s \<longrightarrow> \<not> contains x s)"

lemma redacted_clean: "maskable s \<Longrightarrow> \<not> contains redacted s"
proof
  assume m: "maskable s" and "contains redacted s"
  then obtain l r where "redacted = l @ s @ r" by (auto simp: contains_iff)
  then have "set s \<subseteq> set redacted" by (metis Un_iff set_append subsetI)
  with m show False by (cases s) (auto simp: maskable_def)
qed

lemma clean_update:
  assumes "clean_of ss (JObj d)" and "\<forall>s\<in>set ss. maskable s \<longrightarrow> \<not> contains k s" and "clean_of ss v"
  shows "clean_of ss (JObj (AList.update k v d))"
proof -
  have "set (AList.update k v d) \<subseteq> insert (k, v) (set d)" by (induction d) auto
  with assms show ?thesis by (fastforce simp: clean_of_def)
qed

lemma redact_clean:
  "clean_of ss (redact ss j)"
  "clean_of ss (JObj acc) \<Longrightarrow> clean_of ss (JObj (redact_pairs ss kvs acc))"
  "clean_of ss (JList (redact_list ss js))"
proof (induction ss j and ss kvs acc and ss js rule: redact_redact_pairs_redact_list.induct)
  case (1 ss kvs)
  then show ?case by (simp add: clean_of_def)
next
  case (3 ss s)
  show ?case using redact_string_removes by (simp add: clean_of_def)
next
  case (6 ss k v kvs acc)
  have "clean_of ss (JStr redacted)" using redacted_clean by (simp add: clean_of_def)
  with 6 have "clean_of ss (if is_secret_key k then JStr redacted else redact ss v)" by simp
  from clean_update [OF "6.prems" _ this, of "redact_string ss k"] redact_string_removes
  have "clean_of ss (JObj (AList.update (redact_string ss k)
      (if is_secret_key k then JStr redacted else redact ss v) acc))" by blast
  with 6 show ?case by simp
qed (auto simp: clean_of_def)

theorem redact_secrets_clean: "clean_of values (redact_secrets values j)"
  using redact_clean(1) [of "order_secrets values" j]
  by (auto simp: clean_of_def redact_secrets_def order_secrets_def maskable_def)

end
