(* ===== verification/Broker_Props.thy ===== *)
theory Broker_Props
  imports Broker_Decide Broker_Trip Broker_Chain Broker_Secrets
begin

section \<open>Tool broker: properties\<close>

text \<open>
  When an action is allowed, what a verified token proves, that an issued token verifies exactly in
  its window, and what the audit log records and hides.
\<close>

lemma sorted_ids_empty: "sort (map f (filter P xs)) = [] \<longleftrightarrow> (\<forall>x\<in>set xs. \<not> P x)"
  by (metis filter_empty_conv length_0_conv length_map length_sort)

definition token_permits :: "broker \<Rightarrow> broker_action \<Rightarrow> string list \<Rightarrow> string option \<Rightarrow> instant \<Rightarrow> bool" where
  "token_permits b a tokens subject now \<longleftrightarrow> (\<exists>s raw t c. subject = Some s \<and> raw \<in> set tokens \<and>
     verify_token (br_env b) raw (Some s) now = Some t \<and> c \<in> set (ct_capabilities t) \<and>
     capability_matches (te_world (br_env b)) True c a)"

definition rule_applies :: "broker \<Rightarrow> broker_action \<Rightarrow> bool \<Rightarrow> decision_effect \<Rightarrow> bool" where
  "rule_applies b a match_verifier e \<longleftrightarrow> (\<exists>r\<in>set (br_policy b). ru_effect r = e \<and>
     capability_matches (te_world (br_env b)) match_verifier (ru_capability r) a)"

lemma denied_by_empty: "denied_by b a = [] \<longleftrightarrow> \<not> rule_applies b a False Deny"
  by (auto simp: denied_by_def sorted_ids_empty rule_applies_def)

lemma rules_with_empty: "rules_with e (matching_rules b a) = [] \<longleftrightarrow> \<not> rule_applies b a True e"
  unfolding rules_with_def matching_rules_def rule_applies_def sorted_ids_empty by auto

lemma verify_tokens_iff: "t \<in> set (verify_tokens b tokens subject now) \<longleftrightarrow>
    (\<exists>s raw. subject = Some s \<and> raw \<in> set tokens \<and> verify_token (br_env b) raw (Some s) now = Some t)"
  by (cases subject) (force simp: verify_tokens_def split: option.split_asm)+

lemma matching_tokens_empty:
  "matching_tokens b a (verify_tokens b tokens subject now) = [] \<longleftrightarrow> \<not> token_permits b a tokens subject now"
  by (auto simp: matching_tokens_def sorted_ids_empty verify_tokens_iff token_permits_def list_ex_iff)

lemma judge_effect: "de_effect (judge b a tokens subject now) =
    (if rule_applies b a False Deny then Deny else if token_permits b a tokens subject now then Allow
     else if rule_applies b a True Require_Approval then Require_Approval
     else if rule_applies b a True Allow then Allow else Deny)"
  by (simp add: judge_def Let_def denied_by_empty matching_tokens_empty rules_with_empty make_decision_def
      split: option.split)

lemma decide_judges: "decide b a tokens subject now later fo = (fo', Inr d) \<Longrightarrow> d = judge b a tokens subject now"
  by (auto simp: decide_def Let_def split: option.split_asm prod.split_asm sum.split_asm)

subsection \<open>Decisions\<close>

text \<open>
  C20: an action is allowed exactly when no deny rule matches it, whatever its verifier flag, and
  either a presented token verifies for the caller and carries a matching scope, or an allow rule
  and no approval rule matches; approval is asked exactly when neither a deny rule nor a token
  decides and an approval rule matches; everything else is denied.
\<close>

theorem decision_is_exact:
  assumes "decide b a tokens subject now later fo = (fo', Inr d)"
  shows "(de_effect d = Allow \<longleftrightarrow> \<not> rule_applies b a False Deny \<and>
      (token_permits b a tokens subject now \<or>
       rule_applies b a True Allow \<and> \<not> rule_applies b a True Require_Approval)) \<and>
    (de_effect d = Require_Approval \<longleftrightarrow> \<not> rule_applies b a False Deny \<and>
      \<not> token_permits b a tokens subject now \<and> rule_applies b a True Require_Approval)"
  unfolding decide_judges [OF assms] judge_effect by simp

subsection \<open>Tokens\<close>

lemma split_two: "split_on c t = [a, b] \<Longrightarrow> t = a @ c # b"
  using join_split [of c t] by simp

lemma split_dotless: "c \<notin> set a \<Longrightarrow> c \<notin> set b \<Longrightarrow> split_on c (a @ c # b) = [a, b]"
  by (induction a) (auto simp: split_on_plain)

lemma b64_decode_canonical: "b64_decode s = Inr bs \<Longrightarrow> b64_encode bs = s"
  by (auto simp: b64_decode_def rbind_eq_Inr split: if_split_asm)

lemma rmap_made: "rmap f xs = Inr ys \<Longrightarrow> y \<in> set ys \<Longrightarrow> \<exists>x. f x = Inr y"
  by (auto simp: rmap_Inr_iff list_all2_conv_all_nth in_set_conv_nth)

lemma capability_from_made: "capability_from_payload env j = Inr c \<Longrightarrow> \<exists>c0. make_capability c0 = Inr c"
  by (auto simp: capability_from_payload_def rbind_eq_Inr split: json.split_asm)

lemma read_token_facts:
  "read_token env (Some s) now j = Inr t \<Longrightarrow> ct_subject t = s \<and> ct_issued t \<le> now \<and> now < ct_expires t \<and>
     ct_capabilities t \<noteq> [] \<and> (\<forall>c\<in>set (ct_capabilities t). \<exists>c0. make_capability c0 = Inr c)"
proof -
  assume "read_token env (Some s) now j = Inr t"
  then obtain items where caps: "rmap (capability_from_payload env) items = Inr (ct_capabilities t)"
    and rest: "ct_subject t = s" "ct_issued t \<le> now" "now < ct_expires t" "ct_capabilities t \<noteq> []"
    by (auto simp: read_token_def rbind_eq_Inr require_eq_Inr split: json.split_asm)
  with rmap_made [OF caps] capability_from_made show ?thesis by blast
qed

text \<open>
  C22: a token verifies only if it is some text followed by the MAC of that text under the
  authority's key; the token it stands for names the caller, is in its validity window, and carries
  at least one scope, all of which the scope constructor accepts.
\<close>

theorem verified_token_is_genuine:
  assumes "verify_token env token (Some s) now = Some t"
  shows "\<exists>encoded. token = encoded @ ''.'' @ b64_encode (te_hmac env (te_key env) encoded) \<and>
    ct_subject t = s \<and> ct_issued t \<le> now \<and> now < ct_expires t \<and> ct_capabilities t \<noteq> [] \<and>
    (\<forall>c\<in>set (ct_capabilities t). \<exists>c0. make_capability c0 = Inr c)"
proof -
  from assms obtain encoded signature where sp: "split_on (CHR ''.'') token = [encoded, signature]"
    by (auto simp: verify_token_def split: if_split_asm list.split_asm)
  with assms obtain j where "b64_decode signature = Inr (te_hmac env (te_key env) encoded)"
    and j: "read_token env (Some s) now j = Inr t"
    by (auto simp: verify_token_def split: if_split_asm sum.split_asm option.split_asm)
  from b64_decode_canonical [OF this(1)] split_two [OF sp]
  have "token = encoded @ ''.'' @ b64_encode (te_hmac env (te_key env) encoded)" by simp
  with read_token_facts [OF j] show ?thesis by blast
qed

text \<open>
  What the JSON codec and the MAC promise: the canonical text of the document reads back as its
  canonical form, and the MAC has 32 bytes.
\<close>

definition codec_ok :: "token_env \<Rightarrow> json \<Rightarrow> bool" where
  "codec_ok env j \<longleftrightarrow> te_load env (te_dump env j) = Some (canon j) \<and> te_dump env j \<noteq> [] \<and>
     (\<forall>k m. length (te_hmac env k m) = 32)"

text \<open>An issued token passes every check before its payload is read.\<close>

lemma issued_token_reads:
  assumes "issue_token env tid issued subject caps ttl = Inr token"
    and "codec_ok env (token_payload tid subject issued (issued + ttl) caps)"
  shows "caps \<noteq> []" and "verify_token env token sub now =
    (case read_token env sub now (canon (token_payload tid subject issued (issued + ttl) caps)) of
       Inl e \<Rightarrow> None | Inr t \<Rightarrow> Some t)"
proof -
  define payload where "payload = token_payload tid subject issued (issued + ttl) caps"
  define encoded where "encoded = b64_encode (te_dump env payload)"
  show caps: "caps \<noteq> []"
    using assms(1) by (auto simp: issue_token_def rbind_eq_Inr require_eq_Inr Let_def)
  have len: "length encoded + 1 + 43 \<le> max_token_length"
    and tok: "token = encoded @ CHR ''.'' # sign env encoded"
    using assms(1) by (auto simp: issue_token_def rbind_eq_Inr require_eq_Inr Let_def encoded_def payload_def)
  have good: "good_text encoded" "good_text (sign env encoded)"
    using b64_values by (simp_all add: encoded_def sign_def)
  then have sp: "split_on (CHR ''.'') token = [encoded, sign env encoded]"
    unfolding tok by (intro split_dotless) (auto simp: good_text_def list_all_iff)
  have mac: "length (te_hmac env (te_key env) encoded) = 32" using assms(2) by (simp add: codec_ok_def)
  then have sig: "length (sign env encoded) = 43" "b64_decode (sign env encoded) = Inr (te_hmac env (te_key env) encoded)"
    by (auto simp: sign_def b64_length intro!: b64_round_trip)
  have "ascii_text encoded" using good(1) by (auto simp: good_text_def ascii_text_def list_all_iff)
  moreover have "b64_decode encoded = Inr (te_dump env payload)"
    unfolding encoded_def using assms(2) by (intro b64_round_trip) (simp add: codec_ok_def payload_def)
  moreover have "te_load env (te_dump env payload) = Some (canon payload)"
    using assms(2) by (simp add: codec_ok_def payload_def del: canon_obj)
  moreover have "\<not> max_token_length < length token" using len sig(1) unfolding tok by simp
  ultimately show "verify_token env token sub now =
    (case read_token env sub now (canon (token_payload tid subject issued (issued + ttl) caps)) of
       Inl e \<Rightarrow> None | Inr t \<Rightarrow> Some t)"
    unfolding verify_token_def sp payload_def [symmetric] using sig by (simp del: canon_obj)
qed

text \<open>
  C24: an issued token verifies exactly for its subject and from the instant of issue until before
  its expiry, and then gives back its id, its window and its scopes unchanged.
\<close>

theorem token_round_trip:
  assumes "issue_token env tid issued subject caps ttl = Inr token"
    and "codec_ok env (token_payload tid subject issued (issued + ttl) caps)"
    and "\<forall>c\<in>set caps. portable (te_world env) c"
  shows "verify_token env token (Some s) now =
    (if s = subject \<and> issued \<le> now \<and> now < issued + ttl
     then Some \<lparr>ct_id = tid, ct_subject = subject, ct_capabilities = caps, ct_issued = issued,
       ct_expires = issued + ttl\<rparr>
     else None)"
proof -
  note r = issued_token_reads [OF assms(1,2)]
  show ?thesis unfolding r(2) token_back [OF assms(3) r(1)] by auto
qed

subsection \<open>The audit log\<close>

lemma clean_payload_eq: "JObj (clean_payload b a d subject) = redact_secrets (br_secrets b) (JObj (decision_payload a d subject))"
  by (simp add: clean_payload_def redact_secrets_def)

text \<open>
  C24: a broker with an audit log returns a decision only after the log has grown by exactly one
  record that carries the redacted action, decision and caller; a log that verified before verifies
  after, and its last sequence number and hash are those of the new record.
\<close>

theorem decision_is_logged:
  assumes "decide b a tokens subject now later (Some f) = (fo', Inr d)"
    and "f = No_File \<and> docs = [] \<or> f = Log_File (map Document docs) \<and> audit_verify (br_hash b) f None None"
  shows "\<exists>j. fo' = Some (Log_File (map Document (docs @ [j]))) \<and>
    jfield ''data'' j = Some (canon (JObj (clean_payload b a d subject))) \<and>
    audit_verify (br_hash b) (Log_File (map Document (docs @ [j]))) (Some (int (length docs))) (text_field ''event_hash'' j)"
proof -
  from assms(1) obtain f' ev where ap: "audit_append (br_hash b) (te_str (br_env b)) later ''policy_decision''
      (clean_payload b a d subject) f = (f', Inr ev)" and fo: "fo' = Some f'"
    by (auto simp: decide_def Let_def split: prod.split_asm sum.split_asm)
  have same: "map Document docs = map Document xs \<longleftrightarrow> docs = xs" for xs
    by (rule inj_map_eq_map) (simp add: inj_def)
  have "f = No_File \<and> docs = [] \<or> f = Log_File (map Document docs) \<and> doc_chain (br_hash b) docs"
    using assms(2) by (auto simp: audit_verify_iff same)
  note r = audit_append_chain [OF ap this]
  let ?j = "canon (JObj ev)"
  have "jfield ''data'' ?j = Some (canon (JObj (clean_payload b a d subject)))"
    using r by (simp add: jfield_canon del: canon_obj)
  moreover have "audit_verify (br_hash b) (Log_File (map Document (docs @ [?j]))) (Some (int (length docs)))
      (text_field ''event_hash'' ?j)"
    unfolding audit_verify_iff using r
    by (intro exI [of _ "docs @ [?j]"]) (simp add: doc_head_def del: canon_obj split: option.split)
  ultimately show ?thesis using r fo by (intro exI [of _ ?j]) (simp del: canon_obj)
qed

text \<open>
  Two audit logs that verify against the same retained sequence number and head hash are equal,
  record by record, unless two different records have the same hash.
\<close>

theorem audit_log_is_tamper_evident:
  assumes "audit_verify H (Log_File (map Document xs)) (Some n) (Some h)"
    and "audit_verify H (Log_File (map Document ys)) (Some n) (Some h)"
    and "collision_free (text_field ''event_hash'') (set xs \<union> set ys)"
  shows "xs = ys"
proof -
  have same: "map Document xs = map Document zs \<longleftrightarrow> xs = zs" for xs zs
    by (rule inj_map_eq_map) (simp add: inj_def)
  from assms(1,2) have x: "doc_chain H xs" "int (length xs) - 1 = n" "doc_head xs = Some h"
    and y: "doc_chain H ys" "int (length ys) - 1 = n" "doc_head ys = Some h"
    by (auto simp: audit_verify_iff same)
  show ?thesis
  proof (rule audit_chain.head_determines_log)
    show "chain_from seq_of (text_field ''previous_hash'') (text_field ''event_hash'') (content_hash H) 0
        (Some genesis_hash) xs" using x(1) by (simp add: doc_chain_def)
    show "chain_from seq_of (text_field ''previous_hash'') (text_field ''event_hash'') (content_hash H) 0
        (Some genesis_hash) ys" using y(1) by (simp add: doc_chain_def)
    show "length xs = length ys" using x(2) y(2) by simp
    show "head_hash (text_field ''event_hash'') (Some genesis_hash) xs =
        head_hash (text_field ''event_hash'') (Some genesis_hash) ys"
      using x(3) y(3) by (simp add: doc_head_def)
  qed (rule assms(3))
qed

text \<open>
  C25: a configured secret that shares no character with the marker \<open>[REDACTED]\<close> occurs in no text,
  key or value, at any depth of the payload that is logged for a decision.
\<close>

theorem secrets_never_logged:
  assumes "s \<in> set (br_secrets b)" and "maskable s"
    and "x \<in> set (json_texts (JObj (clean_payload b a d subject)))"
  shows "\<not> contains x s"
  using redact_secrets_clean [of "br_secrets b" "JObj (decision_payload a d subject)"] assms
  unfolding clean_payload_eq by (simp add: clean_of_def del: json_texts.simps)

end
