(* ===== verification/Enforce_Props.thy ===== *)
theory Enforce_Props
  imports Enforce_Model Broker_Props
begin

section \<open>Enforcement: what the monitor promises\<close>

text \<open>
  Complete mediation: in enforced mode the world changes only by effects that policy, tokens, the
  egress allowlist and the approval path all let through.  Non-interference: the provenance of an
  effect and its secret handles reach the trace but never the verdict.
\<close>

subsection \<open>When the monitor says allow\<close>

definition permitted :: "monitor \<Rightarrow> effect \<Rightarrow> instant \<Rightarrow> bool" where
  "permitted m e now \<longleftrightarrow>
     \<not> rule_applies (mo_broker m) (ef_action e) False Deny \<and>
     (token_permits (mo_broker m) (ef_action e) (mo_tokens m) (mo_subject m) now \<or>
      rule_applies (mo_broker m) (ef_action e) True Allow \<and>
      \<not> rule_applies (mo_broker m) (ef_action e) True Require_Approval) \<and>
     (ac_type (ef_action e) = A_Network \<longrightarrow> egress_allowed m (ac_host (ef_action e)) (ac_port (ef_action e))) \<and>
     \<not> ef_approval e"

lemma layers_allow:
  "de_effect (escalate e (screen_egress m (ef_action e) d)) = Allow \<longleftrightarrow>
     de_effect d = Allow \<and> \<not> ef_approval e \<and>
     (ac_type (ef_action e) = A_Network \<longrightarrow> egress_allowed m (ac_host (ef_action e)) (ac_port (ef_action e)))"
  by (auto simp: escalate_def screen_egress_def make_decision_def)

lemma layers_keep_deny:
  "de_effect d = Deny \<Longrightarrow> escalate e (screen_egress m a d) = d"
  by (simp add: escalate_def screen_egress_def)

lemma guard_returns:
  assumes "guard m e now later s = (s', Inr d)"
  shows "d = escalate e (screen_egress m (ef_action e)
               (judge (mo_broker m) (ef_action e) (mo_tokens m) (mo_subject m) now))"
    and "ms_trace s' = ms_trace s @ [decision_entry m e d]"
  using assms
  by (auto simp: guard_def Let_def dest: decide_judges split: prod.splits sum.splits)

lemma guard_raises:
  "guard m e now later s = (s', Inl err) \<Longrightarrow> ms_trace s' = ms_trace s"
  by (auto simp: guard_def Let_def split: prod.splits sum.splits)

lemma guard_allows:
  assumes "guard m e now later s = (s', Inr d)"
  shows "de_effect d = Allow \<longleftrightarrow> permitted m e now"
  unfolding guard_returns(1) [OF assms] layers_allow judge_effect permitted_def by auto

subsection \<open>Complete mediation\<close>

definition perform :: "'w executor \<Rightarrow> effect list \<Rightarrow> 'w \<Rightarrow> 'w" where
  "perform exec = fold (\<lambda>e w. fst (exec e w))"

lemma outcome_allow: "outcome_of e = ''allow'' \<longleftrightarrow> e = Allow"
  by (cases e) simp_all

definition allowed_entries :: "decision_record list \<Rightarrow> decision_record list" where
  "allowed_entries = filter (\<lambda>r. dr_outcome r = ''allow'')"

text \<open>One call: nothing runs, or a permitted effect runs once and one entry of the trace says so.\<close>

lemma enforce_step:
  assumes enf: "mo_enforced m" and run: "enforce m exec e now later (s, w) = ((s', w'), r)"
  shows "\<exists>new. ms_trace s' = ms_trace s @ new \<and> length new \<le> 1 \<and>
    (permitted m e now \<and> w' = fst (exec e w) \<and>
       map dr_resource (allowed_entries new) = [summarize (ef_action e) (mo_secrets m)] \<or>
     w' = w \<and> allowed_entries new = [])"
proof (cases "guard m e now later s")
  case (Pair t res)
  show ?thesis
  proof (cases res)
    case (Inl err)
    with Pair run have "s' = t" "w' = w" by (auto simp: enforce_def)
    with guard_raises Pair Inl show ?thesis by (intro exI [of _ "[]"]) (simp add: allowed_entries_def)
  next
    case (Inr d)
    with Pair have g: "guard m e now later s = (t, Inr d)" by simp
    show ?thesis
    proof (cases "de_effect d = Allow")
      case True
      with g run enf have "s' = t" "w' = fst (exec e w)"
        by (auto simp: enforce_def split: prod.splits sum.splits)
      with True guard_allows [OF g] guard_returns(2) [OF g] show ?thesis
        by (intro exI [of _ "[decision_entry m e d]"]) (simp add: allowed_entries_def decision_entry_def)
    next
      case False
      with g run enf have "s' = t" "w' = w" by (auto simp: enforce_def)
      with False guard_returns(2) [OF g] show ?thesis
        by (intro exI [of _ "[decision_entry m e d]"])
          (simp add: allowed_entries_def decision_entry_def outcome_allow)
    qed
  qed
qed

text \<open>
  C26: in enforced mode the world a session leaves is exactly what the executor makes of some of the
  submitted effects, in order, each of which no deny rule matches, a token or an unopposed allow rule
  permits, the egress allowlist admits and no approval is required for; the trace only grows, by at
  most one entry per call, and its allow entries are those of the effects that ran.
\<close>

theorem only_permitted_effects_run:
  assumes "mo_enforced m" and "enforce_all m exec cs (s, w) = (s', w')"
  shows "\<exists>ran new. subseq ran cs \<and> (\<forall>(e, now, later)\<in>set ran. permitted m e now) \<and>
    w' = perform exec (map fst ran) w \<and> ms_trace s' = ms_trace s @ new \<and> length new \<le> length cs \<and>
    map dr_resource (allowed_entries new) = map (\<lambda>(e, _). summarize (ef_action e) (mo_secrets m)) ran"
  using assms(2)
proof (induction cs arbitrary: s w)
  case Nil
  then show ?case by (intro exI [of _ "[]"]) (simp add: perform_def allowed_entries_def)
next
  case (Cons c cs)
  obtain e now later where c: "c = (e, now, later)" by (cases c) auto
  obtain s1 w1 r where st: "enforce m exec e now later (s, w) = ((s1, w1), r)" by (metis prod.exhaust)
  with Cons.prems c have "enforce_all m exec cs (s1, w1) = (s', w')" by simp
  from Cons.IH [OF this] obtain ran new where ih: "subseq ran cs" "\<forall>(e, now, later)\<in>set ran. permitted m e now"
    "w' = perform exec (map fst ran) w1" "ms_trace s' = ms_trace s1 @ new" "length new \<le> length cs"
    "map dr_resource (allowed_entries new) = map (\<lambda>(e, _). summarize (ef_action e) (mo_secrets m)) ran"
    by (elim exE conjE) (rule that)
  from enforce_step [OF assms(1) st] obtain n1 where n1: "ms_trace s1 = ms_trace s @ n1" "length n1 \<le> 1" and
    cases: "permitted m e now \<and> w1 = fst (exec e w) \<and>
        map dr_resource (allowed_entries n1) = [summarize (ef_action e) (mo_secrets m)] \<or>
      w1 = w \<and> allowed_entries n1 = []"
    by (elim exE conjE) (rule that)
  have grown: "ms_trace s' = ms_trace s @ n1 @ new \<and> length (n1 @ new) \<le> length (c # cs)"
    using ih(4,5) n1 by simp
  from cases show ?case
  proof
    assume "permitted m e now \<and> w1 = fst (exec e w) \<and>
        map dr_resource (allowed_entries n1) = [summarize (ef_action e) (mo_secrets m)]"
    then have "w' = perform exec (map fst (c # ran)) w"
      "map dr_resource (allowed_entries (n1 @ new)) = map (\<lambda>(e, _). summarize (ef_action e) (mo_secrets m)) (c # ran)"
      "\<forall>(e, now, later)\<in>set (c # ran). permitted m e now"
      using ih(2,3,6) c by (simp_all add: perform_def allowed_entries_def)
    moreover have "subseq (c # ran) (c # cs)" using ih(1) by simp
    ultimately show ?thesis using grown by blast
  next
    assume "w1 = w \<and> allowed_entries n1 = []"
    then have "w' = perform exec (map fst ran) w"
      "map dr_resource (allowed_entries (n1 @ new)) = map (\<lambda>(e, _). summarize (ef_action e) (mo_secrets m)) ran"
      using ih(3,6) by (simp_all add: allowed_entries_def)
    moreover have "subseq ran (c # cs)" using ih(1) by (rule list_emb_Cons)
    ultimately show ?thesis using grown ih(2) by blast
  qed
qed

subsection \<open>Non-interference\<close>

definition blind :: "decision_record \<Rightarrow> decision_record" where
  "blind r = r\<lparr>dr_provenance := []\<rparr>"

text \<open>
  where the inputs of an effect came from and which secret handles it carries change neither the
  verdict, nor an exception, nor the audit log: two submissions that differ only in provenance and
  handles get the same answer, and their traces differ only in the provenance column.
\<close>

theorem provenance_never_decides:
  assumes "guard m e now later s = (s1, r)"
    and "ef_action e' = ef_action e" and "ef_approval e' = ef_approval e"
  shows "\<exists>s2. guard m e' now later s = (s2, r) \<and> ms_log s2 = ms_log s1 \<and>
    map blind (ms_trace s2) = map blind (ms_trace s1)"
  using assms
  by (auto simp: guard_def Let_def escalate_def decision_entry_def blind_def split: prod.splits sum.splits)

subsection \<open>Secrets\<close>

text \<open>No secret the monitor was told about is readable in the resource column of the trace.\<close>

lemma summarize_clean:
  assumes "s \<in> set (mo_secrets m)" and "maskable s"
  shows "\<not> contains (dr_resource (decision_entry m e d)) s"
  using assms
  by (simp add: decision_entry_def summarize_def redact_secrets_def redact_string_removes order_secrets_def maskable_def)

text \<open>A handle reveals its value to the capability it granted and to no capability with other data.\<close>

lemma reveal_iff:
  "reveal h c = Inr v \<longleftrightarrow> v = sh_value h \<and> rc_handle c = sh_id h \<and> rc_matcher c = sh_matcher h \<and> ascii_text (sh_matcher h)"
  by (auto simp: reveal_def)

lemma grant_reveals:
  assumes "grant h = Inr c" and "ascii_text (sh_matcher h)" shows "reveal h c = Inr (sh_value h)"
  using assms by (auto simp: grant_def make_reveal_capability_def reveal_iff split: if_splits)

text \<open>The redacted form of a secret of four characters is the whole secret behind three stars.\<close>

lemma short_secret_is_shown:
  assumes "make_secret_handle v hid i k = Inr h" and "length v = 4"
  shows "handle_redacted h = ''***'' @ v"
  using assms by (auto simp: make_secret_handle_def handle_redacted_def result_simps)

end
