(* ===== verification/Enforce_Witnesses.thy ===== *)
theory Enforce_Witnesses
  imports Enforce_Props
begin

section \<open>Tool broker: witnesses\<close>

text \<open>
  A broker with one token authority, one scope and an audit log, on which every property applies:
  the token is minted, verifies, and decides an action whose record the log keeps.
\<close>

definition wb_world :: host_world where
  "wb_world = \<lparr>hw_resolve = (\<lambda>p. filter (\<lambda>c. c \<noteq> []) (split_on (CHR ''/'') p)), hw_ip = (\<lambda>s. None), hw_ip_text = (\<lambda>a. []),
     hw_net = (\<lambda>s. None), hw_net_text = (\<lambda>n. []), hw_idna = Some\<rparr>"

definition wb_scope :: capability where
  "wb_scope = \<lparr>cb_type = A_Filesystem, cb_operations = [''read''], cb_resources = [], cb_commands = [],
     cb_paths = [\<lparr>pr_root = [''srv''], pr_allow_root = True\<rparr>], cb_networks = [], cb_max_amount = None,
     cb_verifier = False\<rparr>"

definition wb_payload :: json where
  "wb_payload = token_payload ''id'' ''ann'' 10 30 [wb_scope]"

definition wb_env :: token_env where
  "wb_env = \<lparr>te_world = wb_world, te_key = ''k'', te_hmac = (\<lambda>k m. replicate 32 (CHR ''h'')),
     te_dump = (\<lambda>j. ''doc''), te_load = (\<lambda>s. Some (canon wb_payload)), te_iso = (\<lambda>s. None),
     te_str = (\<lambda>j. []), te_int = (\<lambda>s. None), te_float = (\<lambda>s. None)\<rparr>"

definition wb_token :: string where
  "wb_token = b64_encode ''doc'' @ ''.'' @ b64_encode (replicate 32 (CHR ''h''))"

definition wb_broker :: broker where
  "wb_broker = \<lparr>br_policy = [], br_env = wb_env, br_secrets = [''hunter2''], br_hash = (\<lambda>j. ''hash'')\<rparr>"

definition wb_action :: broker_action where
  "wb_action = (blank_action A_Filesystem ''read'')\<lparr>ac_path := Some ''/srv/a''\<rparr>"

lemma wb_nul: "nul \<notin> set ''ann''" "char_of (0 :: nat) \<notin> set ''policy_decision''"
  by code_simp+

lemma wb_issued: "issue_token wb_env ''id'' 10 ''ann'' [wb_scope] 20 = Inr wb_token"
  using wb_nul by (simp add: issue_token_def wb_env_def wb_token_def sign_def b64_length Let_def
      max_token_length_def instant_max_def)

lemma wb_portable: "portable wb_world wb_scope"
  by code_simp

lemma wb_codec: "codec_ok wb_env (token_payload ''id'' ''ann'' 10 (10 + 20) [wb_scope])"
  by (simp add: codec_ok_def wb_env_def wb_payload_def)

theorem token_round_trip_witness:
  "verify_token wb_env wb_token (Some ''ann'') 15 = Some \<lparr>ct_id = ''id'', ct_subject = ''ann'',
     ct_capabilities = [wb_scope], ct_issued = 10, ct_expires = 30\<rparr> \<and>
   verify_token wb_env wb_token (Some ''ann'') 30 = None \<and> verify_token wb_env wb_token (Some ''bob'') 15 = None"
proof -
  have "\<forall>c\<in>set [wb_scope]. portable (te_world wb_env) c" using wb_portable by (simp add: wb_env_def)
  from token_round_trip [OF wb_issued wb_codec this] show ?thesis by simp
qed

lemma wb_verified: "verify_token wb_env wb_token (Some ''ann'') 15 = Some \<lparr>ct_id = ''id'', ct_subject = ''ann'',
     ct_capabilities = [wb_scope], ct_issued = 10, ct_expires = 30\<rparr>"
proof -
  have "\<forall>c\<in>set [wb_scope]. portable (te_world wb_env) c" using wb_portable by (simp add: wb_env_def)
  then show ?thesis unfolding issued_token_reads(2) [OF wb_issued wb_codec] by (subst token_back) simp_all
qed

theorem verified_token_is_genuine_witness:
  "\<exists>encoded. wb_token = encoded @ ''.'' @ b64_encode (te_hmac wb_env (te_key wb_env) encoded)"
  using verified_token_is_genuine [OF wb_verified] by blast

lemma wb_decides: "\<exists>fo' d. decide wb_broker wb_action [wb_token] (Some ''ann'') 15 16 (Some No_File) = (fo', Inr d)"
  using wb_nul(2) by (simp add: decide_def Let_def audit_append_def last_hash_def)

lemma wb_no_rule: "\<not> rule_applies wb_broker a m e"
  by (simp add: rule_applies_def wb_broker_def)

lemma wb_permits: "token_permits wb_broker wb_action [wb_token] (Some ''ann'') 15"
proof -
  have "capability_matches wb_world True wb_scope wb_action" by code_simp
  then show ?thesis
    unfolding token_permits_def using wb_verified by (simp add: wb_broker_def wb_env_def)
qed

theorem decision_is_exact_witness:
  "\<exists>fo' d. decide wb_broker wb_action [wb_token] (Some ''ann'') 15 16 (Some No_File) = (fo', Inr d) \<and> de_effect d = Allow"
proof -
  obtain fo' d where d: "decide wb_broker wb_action [wb_token] (Some ''ann'') 15 16 (Some No_File) = (fo', Inr d)"
    using wb_decides by blast
  from decision_is_exact [OF d] wb_no_rule wb_permits d show ?thesis by blast
qed

theorem decision_is_logged_witness:
  "\<exists>d j. decide wb_broker wb_action [wb_token] (Some ''ann'') 15 16 (Some No_File)
      = (Some (Log_File [Document j]), Inr d) \<and>
    audit_verify (br_hash wb_broker) (Log_File [Document j]) (Some 0) (text_field ''event_hash'' j)"
proof -
  obtain fo' d where d: "decide wb_broker wb_action [wb_token] (Some ''ann'') 15 16 (Some No_File) = (fo', Inr d)"
    using wb_decides by blast
  from decision_is_logged [OF d, of "[]"] d show ?thesis by auto
qed

definition wb_event :: json where
  "wb_event = sealed_doc (\<lambda>j. ''hash'') 0 (Some genesis_hash) (7, ''e'', [])"

lemma wb_log: "audit_verify (\<lambda>j. ''hash'') (Log_File (map Document [wb_event])) (Some 0) (Some ''hash'')"
  by code_simp

theorem audit_log_is_tamper_evident_witness: "[wb_event] = [wb_event]"
  by (rule audit_log_is_tamper_evident [OF wb_log wb_log]) (simp add: collision_free_def)

theorem secrets_never_logged_witness:
  "list_all (\<lambda>x. \<not> contains x ''hunter2'') (json_texts (JObj (clean_payload wb_broker
     (wb_action\<lparr>ac_operation := ''use hunter2''\<rparr>) (make_decision Deny ''default_deny'' [] []) None)))"
  unfolding list_all_iff
proof
  fix x assume "x \<in> set (json_texts (JObj (clean_payload wb_broker (wb_action\<lparr>ac_operation := ''use hunter2''\<rparr>)
     (make_decision Deny ''default_deny'' [] []) None)))"
  from secrets_never_logged [OF _ _ this, of "''hunter2''"] show "\<not> contains x ''hunter2''"
    by (simp add: wb_broker_def maskable_def redacted_def)
qed

section \<open>Enforcement: witnesses\<close>

text \<open>
  The broker of the broker's witnesses under a monitor: the token lets the caller read, and the same
  effect that asks for approval does not run.  The executor notes the effects it is handed.
\<close>

definition we_monitor :: monitor where
  "we_monitor = \<lparr>mo_broker = wb_broker, mo_enforced = True, mo_egress = [], mo_subject = Some ''ann'',
     mo_tokens = [wb_token], mo_secrets = []\<rparr>"

definition we_read :: effect where
  "we_read = \<lparr>ef_action = wb_action, ef_provenance = {From_User}, ef_handles = [], ef_approval = False\<rparr>"

definition we_note :: "effect list executor" where
  "we_note e w = (w @ [e], Inr ())"

definition we_start :: monitor_state where
  "we_start = \<lparr>ms_log = None, ms_trace = []\<rparr>"

definition we_calls :: "submission list" where
  "we_calls = [(we_read\<lparr>ef_approval := True\<rparr>, 15, 16), (we_read, 15, 16)]"

lemma we_world: "snd (enforce_all we_monitor we_note we_calls (we_start, [])) = [we_read]"
proof -
  have net: "ac_type wb_action \<noteq> A_Network" by (simp add: wb_action_def blank_action_def)
  show ?thesis
    by (simp add: we_calls_def enforce_def guard_def decide_def Let_def layers_allow judge_effect we_start_def
        we_read_def we_monitor_def wb_no_rule wb_permits we_note_def
        layers_allow [where e = "\<lparr>ef_action = wb_action, ef_provenance = {From_User}, ef_handles = [], ef_approval = True\<rparr>", simplified]
        layers_allow [where e = "\<lparr>ef_action = wb_action, ef_provenance = {From_User}, ef_handles = [], ef_approval = False\<rparr>", simplified] net)
qed

theorem only_permitted_effects_run_witness:
  "snd (enforce_all we_monitor we_note we_calls (we_start, [])) = [we_read] \<and>
   (\<exists>ran. subseq ran we_calls \<and> perform we_note (map fst ran) [] = [we_read] \<and>
      length (allowed_entries (ms_trace (fst (enforce_all we_monitor we_note we_calls (we_start, []))))) = length ran)"
proof -
  let ?r = "enforce_all we_monitor we_note we_calls (we_start, [])"
  have "mo_enforced we_monitor" by (simp add: we_monitor_def)
  from only_permitted_effects_run [OF this, of we_note we_calls we_start "[]" "fst ?r" "snd ?r"]
  obtain ran new where "subseq ran we_calls" "snd ?r = perform we_note (map fst ran) []"
    "ms_trace (fst ?r) = ms_trace we_start @ new"
    "map dr_resource (allowed_entries new) = map (\<lambda>(e, _). summarize (ef_action e) (mo_secrets we_monitor)) ran"
    by auto
  moreover from this(4) have "length (allowed_entries new) = length ran" by (metis length_map)
  ultimately show ?thesis using we_world by (auto simp: we_start_def)
qed

theorem provenance_never_decides_witness:
  "\<exists>s2. guard we_monitor (we_read\<lparr>ef_provenance := {From_Remote, From_Tool}\<rparr>) 15 16 we_start
     = (s2, snd (guard we_monitor we_read 15 16 we_start))"
  using provenance_never_decides [OF surjective_pairing [of "guard we_monitor we_read 15 16 we_start"],
      of "we_read\<lparr>ef_provenance := {From_Remote, From_Tool}\<rparr>"] by auto

end
