(* ===== verification/Learn_Scan.thy ===== *)
theory Learn_Scan
  imports Py_Base
begin

section \<open>Learning: the sanitizer\<close>

text \<open>
  \<open>learning/sanitize.py\<close>.  Its nine patterns are values of the type \<open>re\<close> and Python's
  backtracking search is \<open>ends\<close>: the positions where a match can end, in the order the engine
  tries them.  A text is the list of its code points.  Which code points are word characters
  (\<open>\w\<close>) is the argument \<open>wc\<close>.
\<close>

subsection \<open>Patterns and the search\<close>

type_synonym codes = "nat list"

text \<open>\<open>Chars\<close> is a class given by ranges, \<open>But\<close> its complement.\<close>

datatype re =
    Empty
  | Chars "(nat \<times> nat) list"
  | But "(nat \<times> nat) list"
  | Word_Char
  | Word_End
  | Then re re
  | Or re re
  | Many re

definition in_ranges :: "(nat \<times> nat) list \<Rightarrow> nat \<Rightarrow> bool" where
  "in_ranges rs c \<longleftrightarrow> list_ex (\<lambda>(lo, hi). lo \<le> c \<and> c \<le> hi) rs"

text \<open>A position: the character before it and the text after it.\<close>

type_synonym pos = "nat option \<times> codes"

fun eat :: "(nat \<Rightarrow> bool) \<Rightarrow> pos \<Rightarrow> pos list" where
  "eat p (b, []) = []"
| "eat p (b, c # cs) = (if p c then [(Some c, cs)] else [])"

definition at_boundary :: "(nat \<Rightarrow> bool) \<Rightarrow> pos \<Rightarrow> bool" where
  "at_boundary wc = (\<lambda>(b, cs).
     (case b of None \<Rightarrow> False | Some c \<Rightarrow> wc c) \<noteq> (case cs of [] \<Rightarrow> False | c # _ \<Rightarrow> wc c))"

text \<open>A greedy repetition: each round must consume a character, so as many rounds as characters do.\<close>

fun rounds :: "nat \<Rightarrow> (pos \<Rightarrow> pos list) \<Rightarrow> pos \<Rightarrow> pos list" where
  "rounds 0 f p = [p]"
| "rounds (Suc n) f p =
     concat (map (rounds n f) (filter (\<lambda>q. length (snd q) < length (snd p)) (f p))) @ [p]"

fun ends :: "(nat \<Rightarrow> bool) \<Rightarrow> re \<Rightarrow> pos \<Rightarrow> pos list" where
  "ends wc Empty p = [p]"
| "ends wc (Chars rs) p = eat (in_ranges rs) p"
| "ends wc (But rs) p = eat (\<lambda>c. \<not> in_ranges rs c) p"
| "ends wc Word_Char p = eat wc p"
| "ends wc Word_End p = (if at_boundary wc p then [p] else [])"
| "ends wc (Then a b) p = concat (map (ends wc b) (ends wc a p))"
| "ends wc (Or a b) p = ends wc a p @ ends wc b p"
| "ends wc (Many a) p = rounds (length (snd p)) (ends wc a) p"

text \<open>\<open>finditer\<close>: the leftmost matches, each search starting where the last one ended.\<close>

function find_all :: "(nat \<Rightarrow> bool) \<Rightarrow> re \<Rightarrow> pos \<Rightarrow> codes list" where
  "find_all wc r p =
     (case ends wc r p of
        [] \<Rightarrow> (case snd p of [] \<Rightarrow> [] | c # cs \<Rightarrow> find_all wc r (Some c, cs))
      | q # _ \<Rightarrow>
          if length (snd q) < length (snd p)
          then take (length (snd p) - length (snd q)) (snd p) # find_all wc r q
          else [] # (case snd p of [] \<Rightarrow> [] | c # cs \<Rightarrow> find_all wc r (Some c, cs)))"
  by pat_completeness auto
termination by (relation "measure (\<lambda>(wc, r, p). length (snd p))") auto

declare find_all.simps [simp del]

subsection \<open>Notation of the patterns\<close>

definition code_of :: "char \<Rightarrow> nat" where
  "code_of c = of_char c"

text \<open>
  A letter under \<open>IGNORECASE\<close>: both cases, and the code points outside ASCII that Python folds to it
  (dotted and dotless i, long s, the Kelvin sign).
\<close>

definition any_case :: "nat \<Rightarrow> (nat \<times> nat) list" where
  "any_case c = (if 97 \<le> c \<and> c \<le> 122 then
     [(c, c), (c - 32, c - 32)] @ (if c = 105 then [(304, 305)] else []) @
     (if c = 115 then [(383, 383)] else []) @ (if c = 107 then [(8490, 8490)] else [])
     else [(c, c)])"

fun seq :: "re list \<Rightarrow> re" where
  "seq [] = Empty"
| "seq [r] = r"
| "seq (r # rs) = Then r (seq rs)"

fun alt :: "re list \<Rightarrow> re" where
  "alt [] = But [(0, 1114111)]"
| "alt [r] = r"
| "alt (r # rs) = Or r (alt rs)"

definition lit :: "string \<Rightarrow> re" where
  "lit s = seq (map (\<lambda>c. Chars [(code_of c, code_of c)]) s)"

definition lit_i :: "string \<Rightarrow> re" where
  "lit_i s = seq (map (\<lambda>c. Chars (any_case (code_of c))) s)"

definition opt :: "re \<Rightarrow> re" where
  "opt r = Or r Empty"

definition some_of :: "re \<Rightarrow> re" where
  "some_of r = Then r (Many r)"

definition exactly :: "nat \<Rightarrow> re \<Rightarrow> re" where
  "exactly n r = seq (replicate n r)"

definition at_least :: "nat \<Rightarrow> re \<Rightarrow> re" where
  "at_least n r = Then (exactly n r) (Many r)"

fun up_to :: "nat \<Rightarrow> re \<Rightarrow> re" where
  "up_to 0 r = Empty"
| "up_to (Suc n) r = opt (Then r (up_to n r))"

definition spaces :: "(nat \<times> nat) list" where
  "spaces = [(9, 13), (28, 32), (133, 133), (160, 160), (5760, 5760), (8192, 8202), (8232, 8233),
             (8239, 8239), (8287, 8287), (12288, 12288)]"

definition sp :: re where "sp = some_of (Chars spaces)"
definition sp0 :: re where "sp0 = Many (Chars spaces)"

definition words_i :: "string list \<Rightarrow> re" where
  "words_i ws = alt (map lit_i ws)"

text \<open>\<open>words?\<close>: each word with an optional final s.\<close>

definition plurals :: "string list \<Rightarrow> re list" where
  "plurals ws = map (\<lambda>w. Then (lit_i w) (opt (lit_i ''s''))) ws"

definition alnum_i :: "(nat \<times> nat) list" where
  "alnum_i = [(65, 90), (97, 122), (304, 305), (383, 383), (8490, 8490), (48, 57)]"

definition alnum :: "(nat \<times> nat) list" where
  "alnum = [(65, 90), (97, 122), (48, 57)]"

definition one_of :: "string \<Rightarrow> (nat \<times> nat) list" where
  "one_of s = map (\<lambda>c. (code_of c, code_of c)) s"

text \<open>Quotes are given by their code points: 39 is the single and 34 the double quote.\<close>

definition quotes :: re where "quotes = opt (Chars [(39, 39), (34, 34)])"

subsection \<open>The patterns\<close>

definition inj_override :: re where
  "inj_override = alt
     [seq [words_i [''ignore'', ''disregard'', ''forget'', ''override'', ''bypass'', ''discard''], sp,
           opt (alt [Then (lit_i ''all'') sp, Then (lit_i ''the'') sp, Then (lit_i ''your'') sp]),
           opt (alt [lit_i ''previous'', lit_i ''prior'', lit_i ''above'', lit_i ''earlier'',
                     seq [lit_i ''any'', sp, lit_i ''previous''], seq [lit_i ''any'', sp, lit_i ''prior''],
                     seq [lit_i ''your'', sp, lit_i ''previous'']]),
           sp0,
           alt (plurals [''instruction'', ''directive'', ''constraint'', ''guideline'', ''rule'', ''prompt'']
                @ [lit_i ''context''])],
      seq [lit_i ''do'', sp, lit_i ''not'', sp, lit_i ''follow'', sp, opt (Then (lit_i ''any'') sp),
           opt (Then (lit_i ''safety'') sp), alt (plurals [''guideline'', ''instruction'', ''rule''])],
      seq [lit_i ''reveal'', sp, opt (Then (lit_i ''your'') sp),
           alt [seq [lit_i ''system'', sp, lit_i ''prompt''],
                seq [lit_i ''hidden'', sp, lit_i ''instruction'', opt (lit_i ''s'')]]]]"

definition inj_persona :: re where
  "inj_persona = alt
     [seq [lit_i ''you'', sp, lit_i ''are'', sp, lit_i ''now'', sp, words_i [''a'', ''an''], sp,
           some_of Word_Char, sp0, opt (words_i [''mode'', ''version'', ''assistant''])],
      seq [lit_i ''act'', sp, lit_i ''as'', sp,
           opt (seq [lit_i ''if'', sp, lit_i ''you'', sp, words_i [''are'', ''were''], sp]),
           words_i [''a'', ''an''], sp, words_i [''unrestricted'', ''uncensored'', ''jailbroken'']],
      seq [lit_i ''enable'', sp, words_i [''developer'', ''dan'', ''jailbreak''], sp, lit_i ''mode'']]"

definition inj_template :: re where
  "inj_template = alt
     [seq [words_i [''disregard'', ''ignore'', ''override'', ''replace'', ''suppress''], sp,
           opt (Then (lit_i ''the'') sp),
           alt [seq [lit_i ''system'', sp, lit_i ''prompt''],
                seq [lit_i ''system'', sp, lit_i ''instruction'', opt (lit_i ''s'')],
                seq [lit_i ''system'', sp, lit_i ''context'']]],
      alt [seq [lit_i ''new'', sp, lit_i ''system'', sp, lit_i ''prompt''],
           seq [lit_i ''system'', sp, lit_i ''prompt'', sp0, Chars (one_of '':='')]],
      words_i [''[inst]'', ''</s>'', ''<|im_start|>'', ''<|im_end|>''],
      seq [exactly 3 (Chars (one_of ''#'')), sp0, words_i [''instruction'', ''system'', ''user'', ''assistant''],
           sp0, lit '':'']]"

definition inj_zero_width :: re where
  "inj_zero_width = Chars [(8203, 8205), (65279, 65279)]"

definition inj_bidi :: re where
  "inj_bidi = Chars [(8234, 8238), (8294, 8297)]"

definition inj_tag :: re where
  "inj_tag = Chars [(917504, 917631)]"

definition sec_raw :: re where
  "sec_raw = alt
     [seq [lit_i ''-----begin'', sp, opt (alt [Then (lit_i ''rsa'') sp, Then (lit_i ''ec'') sp,
             Then (lit_i ''openssh'') sp, Then (lit_i ''dsa'') sp]),
           lit_i ''private'', sp, lit_i ''key-----''],
      Then (lit_i ''akia'') (exactly 16 (Chars alnum_i)),
      seq [alt [seq [lit_i ''api'', opt (Chars (one_of ''_-'')), lit_i ''key''],
                seq [lit_i ''api'', opt (Chars (one_of ''_-'')), lit_i ''secret''],
                seq [lit_i ''access'', opt (Chars (one_of ''_-'')), lit_i ''token''],
                seq [lit_i ''secret'', opt (Chars (one_of ''_-'')), lit_i ''key''],
                seq [lit_i ''private'', opt (Chars (one_of ''_-'')), lit_i ''key''],
                lit_i ''password'', lit_i ''passwd'', lit_i ''credential'',
                seq [lit_i ''auth'', opt (Chars (one_of ''_-'')), lit_i ''token'']],
           sp0, Chars (one_of '':=''), sp0, quotes,
           at_least 16 (Chars (alnum_i @ one_of ''+/=_-'')), quotes]]"

definition sec_token :: re where
  "sec_token = alt
     [seq [lit ''gh'', Chars (one_of ''pousr''), lit ''_'', at_least 20 (Chars alnum)],
      Then (lit ''sk-'') (at_least 20 (Chars alnum)),
      seq [lit ''sk-'', alt (map lit [''proj'', ''ant'', ''live'', ''test'']), lit ''-'',
           at_least 6 (Chars (alnum @ one_of ''_-''))],
      seq [lit ''xox'', Chars (one_of ''baprs''), lit ''-'', at_least 10 (Chars (alnum @ one_of ''-''))],
      Then (lit ''AIza'') (exactly 35 (Chars (alnum @ one_of ''_-'')))]"

definition shell_name :: re where
  "shell_name = Then (opt (words_i [''ba'', ''z'', ''da''])) (lit_i ''sh'')"

definition inj_exec_fetch :: re where
  "inj_exec_fetch = alt
     [seq [words_i [''curl'', ''wget''], up_to 120 (But [(124, 124), (10, 10)]), lit ''|'', sp0,
           opt (Then (lit_i ''sudo'') sp), shell_name, Word_End],
      seq [shell_name, sp, lit_i ''-c'', sp, quotes, lit ''$('', words_i [''curl'', ''wget''], Word_End]]"

subsection \<open>Rules and findings\<close>

record finding =
  fd_rule :: string
  fd_severity :: string
  fd_title :: string
  fd_detail :: string
  fd_match :: codes

definition truncate :: "codes \<Rightarrow> codes" where
  "truncate t = (if length t \<le> 120 then t else take 120 t @ [8230])"

type_synonym scan_rule = "re \<times> string \<times> string \<times> string \<times> string"

definition scan_rules :: "scan_rule list" where
  "scan_rules =
   [(inj_override, ''LRN-INJ-001'', ''high'', ''Instruction-override phrase'',
      ''Content tries to nullify or override an agent'' @ [char_of (39 :: nat)] @ ''s existing instructions.''),
    (inj_persona, ''LRN-INJ-002'', ''high'', ''Persona-swap / jailbreak framing'',
      ''Content attempts to reassign the agent'' @ [char_of (39 :: nat)] @ ''s persona into an unrestricted mode.''),
    (inj_template, ''LRN-INJ-003'', ''high'', ''System-prompt / chat-template injection'',
      ''Content injects system-prompt overrides or role/chat-template markers.''),
    (inj_zero_width, ''LRN-INJ-004'', ''medium'', ''Zero-width Unicode character'',
      ''Invisible zero-width characters can hide a steganographic injection.''),
    (inj_bidi, ''LRN-INJ-005'', ''high'', ''Bidi override / isolate character'',
      ''Bidirectional control characters can disguise the true reading order of text.''),
    (inj_tag, ''LRN-INJ-006'', ''high'', ''Unicode tag character'',
      ''Characters from the Unicode tag block are invisible carriers for hidden text.''),
    (inj_exec_fetch, ''LRN-INJ-007'', ''high'', ''Fetch-piped-to-shell execution'',
      ''Content instructs downloading and executing remote code (curl|wget piped to a shell).''),
    (sec_raw, ''LRN-SEC-001'', ''critical'', ''Embedded secret / credential'',
      ''Content embeds a private key, AWS key id, or credential assignment.''),
    (sec_token, ''LRN-SEC-002'', ''critical'', ''Provider access token'',
      ''Content embeds a recognizable provider access-token prefix.'')]"

definition rule_findings :: "(nat \<Rightarrow> bool) \<Rightarrow> codes \<Rightarrow> scan_rule \<Rightarrow> finding list" where
  "rule_findings wc content = (\<lambda>(r, i, sev, title, detail).
     map (\<lambda>m. \<lparr>fd_rule = i, fd_severity = sev, fd_title = title, fd_detail = detail, fd_match = truncate m\<rparr>)
       (find_all wc r (None, content)))"

definition scan_content :: "(nat \<Rightarrow> bool) \<Rightarrow> codes \<Rightarrow> finding list" where
  "scan_content wc content = sort_key fd_rule (concat (map (rule_findings wc content) scan_rules))"

definition is_clean :: "(nat \<Rightarrow> bool) \<Rightarrow> codes \<Rightarrow> bool" where
  "is_clean wc content \<longleftrightarrow> scan_content wc content = []"

end
