(* ===== verification/Py_Glob.thy ===== *)
theory Py_Glob
  imports Py_Base
begin

section \<open>Shared prelude: file name patterns and lines\<close>

text \<open>
  \<open>fnmatch\<close>, \<open>str.splitlines\<close> and \<open>repr\<close> of a string, as several components use them.
\<close>

subsection \<open>Globs\<close>

text \<open>
  \<open>fnmatch\<close>: \<open>*\<close>, \<open>?\<close> and classes in brackets, negated by \<open>!\<close>; a class needs a closing bracket that
  is not its first character, and a hyphen between two characters is a range.
\<close>

fun class_items :: "string \<Rightarrow> (char \<times> char) list" where
  "class_items (a # h # b # rest) =
     (if h = CHR ''-'' then (a, b) # class_items rest else (a, a) # class_items (h # b # rest))"
| "class_items [a, b] = [(a, a), (b, b)]"
| "class_items [a] = [(a, a)]"
| "class_items [] = []"

definition in_class :: "string \<Rightarrow> char \<Rightarrow> bool" where
  "in_class body c = (let neg = starts_with body ''!''; items = class_items (if neg then drop 1 body else body)
     in list_ex (\<lambda>(lo, hi). lo \<le> c \<and> c \<le> hi) items \<noteq> neg)"

text \<open>The body of a class that opens here and the pattern after it.\<close>

definition split_class :: "string \<Rightarrow> (string \<times> string) option" where
  "split_class p =
     (let k = (if starts_with p ''!'' then 1 else 0);
          j = (if starts_with (drop k p) '']'' then k + 1 else k);
          body = take j p @ takeWhile (\<lambda>c. c \<noteq> CHR '']'') (drop j p)
      in if length body < length p then Some (body, drop (length body + 1) p) else None)"

function glob :: "string \<Rightarrow> string \<Rightarrow> bool" where
  "glob [] s = (s = [])"
| "glob (c # p) s =
     (if c = CHR ''*'' then glob p s \<or> (if s = [] then False else glob (c # p) (tl s))
      else if s = [] then False
      else if c = CHR ''?'' then glob p (tl s)
      else if c = CHR ''['' then
        (case split_class p of None \<Rightarrow> hd s = c \<and> glob p (tl s)
         | Some (body, rest) \<Rightarrow> in_class body (hd s) \<and> glob rest (tl s))
      else hd s = c \<and> glob p (tl s))"
  by pat_completeness auto
termination
  by (relation "measure (\<lambda>(p, s). length p + length s)")
    (auto simp: split_class_def Let_def neq_Nil_conv split: if_splits)

declare glob.simps(2) [simp del]

subsection \<open>Lines\<close>

text \<open>\<open>str.splitlines()\<close> on the modelled code points.\<close>

definition line_end :: "char \<Rightarrow> bool" where
  "line_end c \<longleftrightarrow> (of_char c :: nat) \<in> {10, 11, 12, 13, 28, 29, 30, 133}"

fun splitlines :: "string \<Rightarrow> string list" where
  "splitlines [] = []"
| "splitlines (c # cs) =
     (if line_end c
      then [] # splitlines (if c = CHR 0x0D \<and> starts_with cs [CHR 0x0A] then tl cs else cs)
      else (case splitlines cs of [] \<Rightarrow> [[c]] | l # ls \<Rightarrow> (c # l) # ls))"

text \<open>\<open>s.split(sep, 1)[1]\<close> when the separator occurs.\<close>

fun after_first :: "string \<Rightarrow> string \<Rightarrow> string option" where
  "after_first sep [] = (if sep = [] then Some [] else None)"
| "after_first sep (c # cs) = (if starts_with (c # cs) sep then Some (drop (length sep) (c # cs)) else after_first sep cs)"

text \<open>\<open>s.lstrip()\<close>.\<close>

definition lstrip :: "string \<Rightarrow> string" where
  "lstrip s = dropWhile py_space s"

text \<open>\<open>repr(s)\<close>: single quotes unless the text has one and no double quote.\<close>

definition repr_digit :: "nat \<Rightarrow> char" where
  "repr_digit n = (if n < 10 then char_of (48 + n) else char_of (87 + n))"

definition repr_char :: "char \<Rightarrow> char \<Rightarrow> string" where
  "repr_char quote c = (let n = of_char c :: nat in
     if c = quote \<or> n = 92 then [char_of (92 :: nat), c]
     else if n = 9 then [char_of (92 :: nat), CHR ''t'']
     else if n = 10 then [char_of (92 :: nat), CHR ''n'']
     else if n = 13 then [char_of (92 :: nat), CHR ''r'']
     else if n < 32 \<or> 127 \<le> n \<and> n \<le> 160 \<or> n = 173
     then [char_of (92 :: nat), CHR ''x'', repr_digit (n div 16), repr_digit (n mod 16)]
     else [c])"

definition py_repr :: "string \<Rightarrow> string" where
  "py_repr s = (let quote = (if CHR 0x27 \<in> set s \<and> CHR 0x22 \<notin> set s then CHR 0x22 else CHR 0x27)
     in [quote] @ concat (map (repr_char quote) s) @ [quote])"

end
