(* ===== verification/Learn_Model.thy ===== *)
theory Learn_Model
  imports Learn_Scan Py_Glob
begin

section \<open>Learning: candidates and their life cycle\<close>

text \<open>
  The values of \<open>learning/models.py\<close> and the life cycle of \<open>experiment/contracts.py\<close>.  A score is a
  float with its infinities and NaN, exact otherwise.  Constructors that raise \<open>ValueError\<close> are
  \<open>Inl\<close>; arguments have their annotated types.  The content of a candidate is a list of code points.
\<close>

subsection \<open>Scores\<close>

datatype score = Fin rat | Pos_Inf | Neg_Inf | Not_A_Number

fun score_neg :: "score \<Rightarrow> score" where
  "score_neg (Fin a) = Fin (- a)"
| "score_neg Pos_Inf = Neg_Inf"
| "score_neg Neg_Inf = Pos_Inf"
| "score_neg Not_A_Number = Not_A_Number"

fun score_add :: "score \<Rightarrow> score \<Rightarrow> score" where
  "score_add (Fin a) (Fin b) = Fin (a + b)"
| "score_add Not_A_Number _ = Not_A_Number"
| "score_add _ Not_A_Number = Not_A_Number"
| "score_add Pos_Inf Neg_Inf = Not_A_Number"
| "score_add Neg_Inf Pos_Inf = Not_A_Number"
| "score_add Pos_Inf _ = Pos_Inf"
| "score_add _ Pos_Inf = Pos_Inf"
| "score_add Neg_Inf _ = Neg_Inf"
| "score_add _ Neg_Inf = Neg_Inf"

fun score_less :: "score \<Rightarrow> score \<Rightarrow> bool" where
  "score_less (Fin a) (Fin b) = (a < b)"
| "score_less Not_A_Number _ = False"
| "score_less _ Not_A_Number = False"
| "score_less Neg_Inf b = (b \<noteq> Neg_Inf)"
| "score_less a Pos_Inf = (a \<noteq> Pos_Inf)"
| "score_less _ _ = False"

definition score_le :: "score \<Rightarrow> score \<Rightarrow> bool" where
  "score_le a b \<longleftrightarrow> score_less a b \<or> a = b \<and> a \<noteq> Not_A_Number"

definition is_finite :: "score \<Rightarrow> bool" where
  "is_finite s = (case s of Fin _ \<Rightarrow> True | _ \<Rightarrow> False)"

subsection \<open>The life cycle\<close>

datatype metric_label = Measured | Estimated

datatype candidate_state = Observed | Candidate | Sanitized | Scoped | Shadow_Evaluated | Promoted
  | Monitored | Superseded | Rolled_Back

fun next_states :: "candidate_state \<Rightarrow> candidate_state list" where
  "next_states Observed = [Candidate]"
| "next_states Candidate = [Sanitized, Rolled_Back]"
| "next_states Sanitized = [Scoped, Rolled_Back]"
| "next_states Scoped = [Shadow_Evaluated, Rolled_Back]"
| "next_states Shadow_Evaluated = [Promoted, Rolled_Back]"
| "next_states Promoted = [Monitored, Rolled_Back]"
| "next_states Monitored = [Superseded, Rolled_Back]"
| "next_states Superseded = []"
| "next_states Rolled_Back = []"

definition is_legal_transition :: "candidate_state \<Rightarrow> candidate_state \<Rightarrow> bool" where
  "is_legal_transition src dst \<longleftrightarrow> dst \<in> set (next_states src)"

subsection \<open>Provenance and scope\<close>

record artifact_ref =
  ar_sha256 :: string
  ar_media_type :: string
  ar_size :: int

definition lower_hex :: "char \<Rightarrow> bool" where
  "lower_hex c \<longleftrightarrow> CHR ''0'' \<le> c \<and> c \<le> CHR ''9'' \<or> CHR ''a'' \<le> c \<and> c \<le> CHR ''f''"

text \<open>\<open>$\<close> also matches before a final newline.\<close>

definition newline :: char where
  "newline = char_of (10 :: nat)"

definition drop_newline :: "string \<Rightarrow> string" where
  "drop_newline s = (if s \<noteq> [] \<and> last s = newline then butlast s else s)"

definition make_artifact_ref :: "artifact_ref \<Rightarrow> (string, artifact_ref) result" where
  "make_artifact_ref a =
     rbind (require (length (drop_newline (ar_sha256 a)) = 64 \<and> list_all lower_hex (drop_newline (ar_sha256 a)))
              ''sha256 must be 64 lowercase hex chars'') (\<lambda>_.
     rbind (require (strip (ar_media_type a) \<noteq> []) ''media_type must not be empty'') (\<lambda>_.
     rbind (require (0 \<le> ar_size a) ''size_bytes must be non-negative'') (\<lambda>_. Inr a)))"

record provenance =
  pv_traces :: "string list"
  pv_artifacts :: "artifact_ref list"

definition make_provenance :: "provenance \<Rightarrow> (string, provenance) result" where
  "make_provenance p = rbind (require (list_all (\<lambda>t. strip t \<noteq> []) (pv_traces p))
     ''trace_ids entries must be non-empty strings'') (\<lambda>_. Inr p)"

definition no_provenance :: "provenance \<Rightarrow> bool" where
  "no_provenance p \<longleftrightarrow> pv_traces p = [] \<and> pv_artifacts p = []"

record scope =
  sc_repos :: "string list"
  sc_branches :: "string list"
  sc_paths :: "string list"
  sc_languages :: "string list"
  sc_tasks :: "string list"

definition no_scope :: "scope \<Rightarrow> bool" where
  "no_scope s \<longleftrightarrow> \<not> (sc_repos s \<noteq> [] \<or> sc_branches s \<noteq> [] \<or> sc_paths s \<noteq> [] \<or> sc_languages s \<noteq> [] \<or> sc_tasks s \<noteq> [])"

definition match_any :: "string list \<Rightarrow> string option \<Rightarrow> bool" where
  "match_any globs value = (if globs = [] then True
     else case value of None \<Rightarrow> False | Some v \<Rightarrow> list_ex (\<lambda>g. glob g v) globs)"

record activation_target =
  at_repo :: "string option"
  at_branch :: "string option"
  at_path :: "string option"
  at_language :: "string option"
  at_task :: "string option"

definition scope_matches :: "scope \<Rightarrow> activation_target \<Rightarrow> bool" where
  "scope_matches s t \<longleftrightarrow> match_any (sc_repos s) (at_repo t) \<and> match_any (sc_branches s) (at_branch t) \<and>
     match_any (sc_paths s) (at_path t) \<and> match_any (sc_languages s) (at_language t) \<and>
     match_any (sc_tasks s) (at_task t)"

subsection \<open>Evidence\<close>

record shadow_evaluation =
  se_candidate :: score
  se_control :: score
  se_size :: int
  se_protected :: bool
  se_label :: metric_label
  se_held_out :: bool

definition make_shadow_evaluation :: "shadow_evaluation \<Rightarrow> (string, shadow_evaluation) result" where
  "make_shadow_evaluation e = rbind (require (1 \<le> se_size e)
     ''sample_size must be >= 1 (an empty eval proves nothing)'') (\<lambda>_. Inr e)"

definition delta :: "shadow_evaluation \<Rightarrow> score" where
  "delta e = score_add (se_candidate e) (score_neg (se_control e))"

definition improves_over_control :: "score \<Rightarrow> shadow_evaluation \<Rightarrow> bool" where
  "improves_over_control least e \<longleftrightarrow> se_held_out e \<and> score_less least (delta e)"

record refresh_policy =
  rf_expires :: "int option"
  rf_interval :: "int option"

definition make_refresh_policy :: "refresh_policy \<Rightarrow> (string, refresh_policy) result" where
  "make_refresh_policy r = rbind (require ((case rf_expires r of None \<Rightarrow> True | Some e \<Rightarrow> 0 \<le> e) \<and>
     (case rf_interval r of None \<Rightarrow> True | Some i \<Rightarrow> 0 \<le> i)) ''must be a non-negative integer or None'') (\<lambda>_. Inr r)"

definition is_expired :: "refresh_policy \<Rightarrow> int \<Rightarrow> bool" where
  "is_expired r now = (case rf_expires r of None \<Rightarrow> False | Some e \<Rightarrow> e \<le> now)"

record promotion_record =
  pm_version :: int
  pm_evaluation :: shadow_evaluation
  pm_provenance :: provenance
  pm_scope :: scope
  pm_at :: int
  pm_reason :: string

definition make_promotion_record :: "promotion_record \<Rightarrow> (string, promotion_record) result" where
  "make_promotion_record p = rbind (require (1 \<le> pm_version p) ''promotion version must be a positive integer'') (\<lambda>_. Inr p)"

subsection \<open>Candidates\<close>

datatype candidate_kind = Episode | Repo_Fact | Decision_Kind | Failed_Approach | Skill | Strategy

fun candidate_kind_value :: "candidate_kind \<Rightarrow> string" where
  "candidate_kind_value Episode = ''episode''"
| "candidate_kind_value Repo_Fact = ''repo-fact''"
| "candidate_kind_value Decision_Kind = ''decision''"
| "candidate_kind_value Failed_Approach = ''failed-approach''"
| "candidate_kind_value Skill = ''skill''"
| "candidate_kind_value Strategy = ''strategy''"

record learning_candidate =
  lc_id :: string
  lc_kind :: candidate_kind
  lc_content :: codes
  lc_provenance :: provenance
  lc_scope :: scope
  lc_state :: candidate_state
  lc_version :: int
  lc_findings :: "finding list"
  lc_evaluation :: "shadow_evaluation option"
  lc_promotion :: "promotion_record option"
  lc_refresh :: refresh_policy
  lc_created :: int
  lc_updated :: int

definition id_char :: "char \<Rightarrow> bool" where
  "id_char c \<longleftrightarrow> CHR ''a'' \<le> c \<and> c \<le> CHR ''z'' \<or> CHR ''0'' \<le> c \<and> c \<le> CHR ''9''"

definition id_ok :: "string \<Rightarrow> bool" where
  "id_ok s = (case drop_newline s of [] \<Rightarrow> False
     | c # cs \<Rightarrow> id_char c \<and> 2 \<le> length cs \<and> length cs \<le> 63 \<and> list_all (\<lambda>d. id_char d \<or> d = CHR ''-'') cs)"

definition make_candidate :: "learning_candidate \<Rightarrow> (string, learning_candidate) result" where
  "make_candidate c =
     rbind (require (id_ok (lc_id c)) ''candidate id must match'') (\<lambda>_.
     rbind (require (list_ex (\<lambda>x. \<not> in_ranges spaces x) (lc_content c)) ''content must be a non-empty string'') (\<lambda>_.
     rbind (require (0 \<le> lc_version c) ''version must be a non-negative integer'') (\<lambda>_. Inr c)))"

definition is_sanitized_clean :: "learning_candidate \<Rightarrow> bool" where
  "is_sanitized_clean c \<longleftrightarrow> lc_findings c = []"

definition is_stale :: "learning_candidate \<Rightarrow> int \<Rightarrow> bool" where
  "is_stale c now \<longleftrightarrow> is_expired (lc_refresh c) now"

definition is_active :: "learning_candidate \<Rightarrow> int \<Rightarrow> bool" where
  "is_active c now = (if lc_state c \<notin> {Promoted, Monitored} then False
     else if lc_promotion c = None then False else \<not> is_expired (lc_refresh c) now)"

end
