(* ===== verification/Learn_Gate.thy ===== *)
theory Learn_Gate
  imports Learn_Model
begin

section \<open>Learning: the promotion gate, activation and the gated ingestor\<close>

text \<open>
  \<open>learning/gate.py\<close>, \<open>learning/activation.py\<close> and \<open>learning/ingest.py\<close>.  The text of a reason is the
  constructor it stands for; the data its message prints are its arguments.  The word characters of
  the sanitizer are the argument \<open>wc\<close>, the clock of a call the argument \<open>now\<close>.
\<close>

subsection \<open>The gate\<close>

datatype gate_reason =
    Learning_Disabled
  | Wrong_State candidate_state
  | Not_Sanitized_Clean nat
  | No_Scope
  | No_Evaluation
  | Not_Held_Out
  | No_Improvement score score
  | Protected_Regression

datatype learning_error =
    Illegal_Transition candidate_state candidate_state
  | Sanitization_Error string "finding list"
  | Learning_Error string
  | Promotion_Rejected string "gate_reason list"
  | Invalid_Value string

record advance_event =
  av_to :: candidate_state
  av_scope :: "scope option"
  av_evaluation :: "shadow_evaluation option"
  av_at :: int
  av_reason :: string

definition move_to :: "candidate_state \<Rightarrow> int \<Rightarrow> advance_event" where
  "move_to s now = \<lparr>av_to = s, av_scope = None, av_evaluation = None, av_at = now, av_reason = []\<rparr>"

record promotion_gate =
  pg_min_improvement :: score
  pg_learning_enabled :: bool

definition default_gate :: promotion_gate where
  "default_gate = \<lparr>pg_min_improvement = Fin 0, pg_learning_enabled = True\<rparr>"

definition evaluation_reasons :: "promotion_gate \<Rightarrow> shadow_evaluation option \<Rightarrow> gate_reason list" where
  "evaluation_reasons g ev = (case ev of
     None \<Rightarrow> [No_Evaluation]
   | Some e \<Rightarrow>
       (if \<not> se_held_out e then [Not_Held_Out] else [])
       @ (if \<not> improves_over_control (pg_min_improvement g) e
          then [No_Improvement (delta e) (pg_min_improvement g)] else [])
       @ (if \<not> se_protected e then [Protected_Regression] else []))"

text \<open>\<open>PromotionGate.evaluate\<close>: the reasons; a candidate is eligible when there are none.\<close>

definition gate_reasons :: "promotion_gate \<Rightarrow> learning_candidate \<Rightarrow> gate_reason list" where
  "gate_reasons g c =
     (if \<not> pg_learning_enabled g then [Learning_Disabled] else [])
     @ (if lc_state c \<noteq> Shadow_Evaluated then [Wrong_State (lc_state c)] else [])
     @ (if \<not> is_sanitized_clean c then [Not_Sanitized_Clean (length (lc_findings c))] else [])
     @ (if no_scope (lc_scope c) then [No_Scope] else [])
     @ evaluation_reasons g (lc_evaluation c)"

definition would_promote :: "promotion_gate \<Rightarrow> learning_candidate \<Rightarrow> bool" where
  "would_promote g c \<longleftrightarrow> gate_reasons g c = []"

definition revalidate :: "learning_candidate \<Rightarrow> (learning_error, learning_candidate) result" where
  "revalidate c = (case make_candidate c of Inl e \<Rightarrow> Inl (Invalid_Value e) | Inr c' \<Rightarrow> Inr c')"

definition promote_now :: "promotion_gate \<Rightarrow> learning_candidate \<Rightarrow> advance_event \<Rightarrow> shadow_evaluation
    \<Rightarrow> (learning_error, learning_candidate) result" where
  "promote_now g c ev e =
     (case make_promotion_record \<lparr>pm_version = lc_version c + 1, pm_evaluation = e, pm_provenance = lc_provenance c,
         pm_scope = lc_scope c, pm_at = av_at ev, pm_reason = av_reason ev\<rparr> of
        Inl x \<Rightarrow> Inl (Invalid_Value x)
      | Inr p \<Rightarrow> Inr (c\<lparr>lc_version := lc_version c + 1, lc_promotion := Some p\<rparr>))"

definition advance :: "(nat \<Rightarrow> bool) \<Rightarrow> promotion_gate \<Rightarrow> learning_candidate \<Rightarrow> advance_event
    \<Rightarrow> (learning_error, learning_candidate) result" where
  "advance wc g c ev =
     (let src = lc_state c; dst = av_to ev in
      if \<not> is_legal_transition src dst then Inl (Illegal_Transition src dst)
      else if src = Sanitized \<and> dst = Scoped \<and> \<not> is_sanitized_clean c
      then Inl (Sanitization_Error (lc_id c) (lc_findings c))
      else let moved = (\<lambda>d. revalidate (d\<lparr>lc_state := dst, lc_updated := av_at ev\<rparr>)) in
        (case dst of
           Sanitized \<Rightarrow> moved (c\<lparr>lc_findings := scan_content wc (lc_content c)\<rparr>)
         | Scoped \<Rightarrow> (case av_scope ev of
             None \<Rightarrow> Inl (Learning_Error ''advancing to scoped requires a non-empty scope'')
           | Some s \<Rightarrow> if no_scope s then Inl (Learning_Error ''advancing to scoped requires a non-empty scope'')
                       else moved (c\<lparr>lc_scope := s\<rparr>))
         | Shadow_Evaluated \<Rightarrow> (case av_evaluation ev of
             None \<Rightarrow> Inl (Learning_Error ''advancing to shadow-evaluated requires an evaluation'')
           | Some e \<Rightarrow> moved (c\<lparr>lc_evaluation := Some e\<rparr>))
         | Promoted \<Rightarrow>
             (if gate_reasons g c \<noteq> [] then Inl (Promotion_Rejected (lc_id c) (gate_reasons g c))
              else (case lc_evaluation c of
                  None \<Rightarrow> Inl (Learning_Error ''AssertionError'')
                | Some e \<Rightarrow> rbind (promote_now g c ev e) moved))
         | _ \<Rightarrow> moved c))"

definition rollback :: "(nat \<Rightarrow> bool) \<Rightarrow> learning_candidate \<Rightarrow> int \<Rightarrow> string \<Rightarrow> (learning_error, learning_candidate) result" where
  "rollback wc c now reason = advance wc default_gate c ((move_to Rolled_Back now)\<lparr>av_reason := reason\<rparr>)"

record explanation =
  ex_id :: string
  ex_state :: candidate_state
  ex_version :: int
  ex_clean :: bool
  ex_findings :: "finding list"
  ex_scope_set :: bool
  ex_decision :: "gate_reason list"
  ex_promotion :: "promotion_record option"
  ex_active :: bool

definition explain :: "promotion_gate \<Rightarrow> learning_candidate \<Rightarrow> int \<Rightarrow> explanation" where
  "explain g c now = \<lparr>ex_id = lc_id c, ex_state = lc_state c, ex_version = lc_version c,
     ex_clean = is_sanitized_clean c, ex_findings = lc_findings c, ex_scope_set = (\<not> no_scope (lc_scope c)),
     ex_decision = gate_reasons g c, ex_promotion = lc_promotion c, ex_active = is_active c now\<rparr>"

subsection \<open>Activation\<close>

text \<open>The argument is the value of \<open>ONMC_LEARNING\<close>, if it is set.\<close>

definition is_learning_enabled :: "string option \<Rightarrow> bool" where
  "is_learning_enabled env = (lower (strip (case env of None \<Rightarrow> [] | Some v \<Rightarrow> v))
     \<notin> set [''0'', ''false'', ''no'', ''off''])"

definition env_gate :: "score \<Rightarrow> string option \<Rightarrow> promotion_gate" where
  "env_gate least env = \<lparr>pg_min_improvement = least, pg_learning_enabled = is_learning_enabled env\<rparr>"

datatype activation_reason =
    Kill_Switch
  | Not_Promoted candidate_state
  | No_Promotion_Record
  | Unversioned_Promotion int
  | No_Promoted_Scope
  | Out_Of_Scope
  | No_Promoted_Provenance
  | Stale int
  | Has_Findings nat
  | No_Rollback_Path candidate_state

record activation_decision =
  ad_active :: bool
  ad_id :: string
  ad_reasons :: "activation_reason list"
  ad_promotion :: "promotion_record option"
  ad_enabled :: bool
  ad_target :: "activation_target option"

definition can_roll_back :: "learning_candidate \<Rightarrow> bool" where
  "can_roll_back c \<longleftrightarrow> is_legal_transition (lc_state c) Rolled_Back"

definition record_reasons :: "promotion_record option \<Rightarrow> activation_target option \<Rightarrow> activation_reason list" where
  "record_reasons p target = (case p of None \<Rightarrow> [No_Promotion_Record]
     | Some r \<Rightarrow>
         (if pm_version r < 1 then [Unversioned_Promotion (pm_version r)] else [])
         @ (if no_scope (pm_scope r) then [No_Promoted_Scope]
            else case target of None \<Rightarrow> [] | Some t \<Rightarrow> if scope_matches (pm_scope r) t then [] else [Out_Of_Scope])
         @ (if no_provenance (pm_provenance r) then [No_Promoted_Provenance] else []))"

definition activation_reasons :: "learning_candidate \<Rightarrow> int \<Rightarrow> activation_target option \<Rightarrow> string option
    \<Rightarrow> activation_reason list" where
  "activation_reasons c now target env =
     (if \<not> is_learning_enabled env then [Kill_Switch] else [])
     @ (if lc_state c \<notin> {Promoted, Monitored} then [Not_Promoted (lc_state c)] else [])
     @ record_reasons (lc_promotion c) target
     @ (if is_stale c now then [Stale now] else [])
     @ (if \<not> is_sanitized_clean c then [Has_Findings (length (lc_findings c))] else [])
     @ (if \<not> can_roll_back c then [No_Rollback_Path (lc_state c)] else [])"

definition check_activation :: "learning_candidate \<Rightarrow> int \<Rightarrow> activation_target option \<Rightarrow> string option
    \<Rightarrow> activation_decision" where
  "check_activation c now target env =
     (let reasons = activation_reasons c now target env in
      \<lparr>ad_active = (reasons = []), ad_id = lc_id c, ad_reasons = reasons,
       ad_promotion = (if reasons = [] then lc_promotion c else None),
       ad_enabled = is_learning_enabled env, ad_target = target\<rparr>)"

definition require_promoted :: "learning_candidate \<Rightarrow> int \<Rightarrow> activation_target option \<Rightarrow> string option
    \<Rightarrow> (string \<times> activation_reason list, promotion_record) result" where
  "require_promoted c now target env =
     (let d = check_activation c now target env in
      if \<not> ad_active d then Inl (lc_id c, ad_reasons d)
      else case ad_promotion d of None \<Rightarrow> Inl (lc_id c, ad_reasons d) | Some p \<Rightarrow> Inr p)"

definition active_candidates :: "learning_candidate list \<Rightarrow> int \<Rightarrow> activation_target option \<Rightarrow> string option
    \<Rightarrow> learning_candidate list" where
  "active_candidates cs now target env = filter (\<lambda>c. ad_active (check_activation c now target env)) cs"

subsection \<open>The gated ingestor\<close>

record ingested_memory =
  im_id :: string
  im_kind :: string
  im_content :: codes
  im_scope :: scope
  im_provenance :: provenance
  im_version :: int
  im_promotion :: promotion_record

text \<open>The sink is the caller's store: it writes or removes, and may raise.\<close>

record 'w memory_sink =
  sk_write :: "ingested_memory \<Rightarrow> ('w, learning_error, string) action"
  sk_remove :: "string \<Rightarrow> ('w, learning_error, bool) action"

datatype ingest_reason = Switched_Off | Barrier learning_error | Refused gate_reason

record ingest_result =
  ir_ingested :: bool
  ir_candidate :: learning_candidate
  ir_decision :: "ingest_reason list"
  ir_memory_id :: "string option"
  ir_reasons :: "ingest_reason list"

record rollback_result =
  rr_rolled_back :: bool
  rr_memory_id :: string
  rr_removed :: bool
  rr_candidate :: "learning_candidate option"
  rr_reason :: string

definition forward_to_shadow :: "candidate_state list" where
  "forward_to_shadow = [Candidate, Sanitized, Scoped, Shadow_Evaluated]"

definition forward_event :: "learning_candidate \<Rightarrow> shadow_evaluation option \<Rightarrow> int \<Rightarrow> candidate_state \<Rightarrow> advance_event" where
  "forward_event c evidence now target =
     (if target = Scoped then (move_to target now)\<lparr>av_scope := Some (lc_scope c)\<rparr>
      else if target = Shadow_Evaluated then (move_to target now)\<lparr>av_evaluation := evidence\<rparr>
      else move_to target now)"

definition drive_step :: "(nat \<Rightarrow> bool) \<Rightarrow> promotion_gate \<Rightarrow> shadow_evaluation option \<Rightarrow> int \<Rightarrow> candidate_state
    \<Rightarrow> learning_candidate \<Rightarrow> (learning_error, learning_candidate) result" where
  "drive_step wc g evidence now target c =
     (if \<not> is_legal_transition (lc_state c) target then Inr c
      else advance wc g c (forward_event c evidence now target))"

definition drive_to_shadow :: "(nat \<Rightarrow> bool) \<Rightarrow> promotion_gate \<Rightarrow> learning_candidate \<Rightarrow> shadow_evaluation option \<Rightarrow> int
    \<Rightarrow> (learning_error, learning_candidate) result" where
  "drive_to_shadow wc g c evidence now = rfold (drive_step wc g evidence now) forward_to_shadow c"

definition refused :: "learning_candidate \<Rightarrow> ingest_reason list \<Rightarrow> ingest_result" where
  "refused c rs = \<lparr>ir_ingested = False, ir_candidate = c, ir_decision = rs, ir_memory_id = None, ir_reasons = rs\<rparr>"

definition memory_of :: "learning_candidate \<Rightarrow> promotion_record \<Rightarrow> ingested_memory" where
  "memory_of c p = \<lparr>im_id = lc_id c, im_kind = candidate_kind_value (lc_kind c), im_content = lc_content c,
     im_scope = lc_scope c, im_provenance = lc_provenance c, im_version = lc_version c, im_promotion = p\<rparr>"

type_synonym ingestor = "(string \<times> learning_candidate) list"

text \<open>
  Only a \<open>LearningError\<close> on the way to the evaluation is turned into a refusal: an
  \<open>Invalid_Value\<close> (a \<open>ValueError\<close>) propagates.
\<close>

definition is_learning_error :: "learning_error \<Rightarrow> bool" where
  "is_learning_error e = (case e of Invalid_Value _ \<Rightarrow> False | _ \<Rightarrow> True)"

definition ingest :: "(nat \<Rightarrow> bool) \<Rightarrow> promotion_gate \<Rightarrow> 'w memory_sink \<Rightarrow> string option \<Rightarrow> int
    \<Rightarrow> learning_candidate \<Rightarrow> shadow_evaluation option \<Rightarrow> string
    \<Rightarrow> (ingestor \<times> 'w, learning_error, ingest_result) action" where
  "ingest wc g sink env now c evidence reason = (\<lambda>(ing, w).
     if \<not> is_learning_enabled env then ((ing, w), Inr (refused c [Switched_Off]))
     else case drive_to_shadow wc g c evidence now of
       Inl e \<Rightarrow> if is_learning_error e then ((ing, w), Inr (refused c [Barrier e])) else ((ing, w), Inl e)
     | Inr p \<Rightarrow>
         if gate_reasons g p \<noteq> [] then ((ing, w), Inr (refused p (map Refused (gate_reasons g p))))
         else (case advance wc g p ((move_to Promoted now)\<lparr>av_reason := reason\<rparr>) of
             Inl e \<Rightarrow> ((ing, w), Inl e)
           | Inr q \<Rightarrow> (case lc_promotion q of
               None \<Rightarrow> ((ing, w), Inl (Learning_Error ''AssertionError''))
             | Some r \<Rightarrow> (case sk_write sink (memory_of q r) w of
                 (w', Inl e) \<Rightarrow> ((ing, w'), Inl e)
               | (w', Inr mid) \<Rightarrow> ((AList.update mid q ing, w'),
                   Inr \<lparr>ir_ingested = True, ir_candidate = q, ir_decision = [], ir_memory_id = Some mid, ir_reasons = []\<rparr>)))))"

definition rollback_memory :: "(nat \<Rightarrow> bool) \<Rightarrow> 'w memory_sink \<Rightarrow> int \<Rightarrow> string \<Rightarrow> string
    \<Rightarrow> (ingestor \<times> 'w, learning_error, rollback_result) action" where
  "rollback_memory wc sink now mid reason = (\<lambda>(ing, w).
     case map_of ing mid of
       None \<Rightarrow> ((ing, w), Inr \<lparr>rr_rolled_back = False, rr_memory_id = mid, rr_removed = False, rr_candidate = None,
                  rr_reason = ''unknown memory id''\<rparr>)
     | Some c \<Rightarrow> (case rollback wc c now reason of
         Inl e \<Rightarrow> ((ing, w), Inl e)
       | Inr c' \<Rightarrow> (case sk_remove sink mid w of
           (w', Inl e) \<Rightarrow> ((ing, w'), Inl e)
         | (w', Inr removed) \<Rightarrow> ((AList.delete mid ing, w'),
             Inr \<lparr>rr_rolled_back = True, rr_memory_id = mid, rr_removed = removed, rr_candidate = Some c', rr_reason = []\<rparr>))))"

definition ingested_ids :: "ingestor \<Rightarrow> string list" where
  "ingested_ids ing = sort (map fst ing)"

end
