(* ===== verification/Learn_Search.thy ===== *)
theory Learn_Search
  imports Learn_Scan
begin

section \<open>Learning: the search finds every payload\<close>

text \<open>
  The language of a pattern, defined without positions or order, against the backtracking search.
  For patterns without a word boundary the search of \<open>finditer\<close> finds a match exactly when some
  piece of the text is in the language.
\<close>

inductive accepts :: "(nat \<Rightarrow> bool) \<Rightarrow> re \<Rightarrow> codes \<Rightarrow> bool" for wc where
  empty: "accepts wc Empty []"
| chars: "in_ranges rs c \<Longrightarrow> accepts wc (Chars rs) [c]"
| but: "\<not> in_ranges rs c \<Longrightarrow> accepts wc (But rs) [c]"
| word_char: "wc c \<Longrightarrow> accepts wc Word_Char [c]"
| then_: "accepts wc a u \<Longrightarrow> accepts wc b v \<Longrightarrow> accepts wc (Then a b) (u @ v)"
| or1: "accepts wc a u \<Longrightarrow> accepts wc (Or a b) u"
| or2: "accepts wc b u \<Longrightarrow> accepts wc (Or a b) u"
| none: "accepts wc (Many a) []"
| more: "accepts wc a u \<Longrightarrow> accepts wc (Many a) v \<Longrightarrow> accepts wc (Many a) (u @ v)"

inductive_simps accepts_simps [simp]:
  "accepts wc Empty w" "accepts wc (Chars rs) w" "accepts wc (But rs) w" "accepts wc Word_Char w"
  "accepts wc Word_End w" "accepts wc (Or a b) w"

inductive_cases accepts_ThenE: "accepts wc (Then a b) w"

fun boundary_free :: "re \<Rightarrow> bool" where
  "boundary_free Word_End = False"
| "boundary_free (Then a b) = (boundary_free a \<and> boundary_free b)"
| "boundary_free (Or a b) = (boundary_free a \<and> boundary_free b)"
| "boundary_free (Many a) = boundary_free a"
| "boundary_free _ = True"

text \<open>The position after reading \<open>w\<close>.\<close>

definition past :: "nat option \<Rightarrow> codes \<Rightarrow> codes \<Rightarrow> pos" where
  "past b w rest = ((if w = [] then b else Some (last w)), rest)"

lemma past_simps [simp]:
  "past b [] rest = (b, rest)" "snd (past b w rest) = rest" "past b [c] rest = (Some c, rest)"
  by (simp_all add: past_def)

lemma past_append: "past b (u @ v) rest = past (fst (past b u (v @ rest))) v rest"
  by (auto simp: past_def)

subsection \<open>Completeness\<close>

lemma rounds_stop: "p \<in> set (rounds n f p)"
  by (cases n) simp_all

lemma rounds_step:
  "q \<in> set (f p) \<Longrightarrow> length (snd q) < length (snd p) \<Longrightarrow> x \<in> set (rounds n f q) \<Longrightarrow> x \<in> set (rounds (Suc n) f p)"
  unfolding rounds.simps set_append set_concat set_map set_filter by blast

lemma rounds_complete:
  assumes "accepts wc (Many a) w"
    and step: "\<And>u b rest. accepts wc a u \<Longrightarrow> past b u rest \<in> set (f (b, u @ rest))"
    and "length (w @ rest) \<le> n"
  shows "past b w rest \<in> set (rounds n f (b, w @ rest))"
  using assms(1,3)
proof (induction "Many a" w arbitrary: b n rule: accepts.induct)
  case none
  then show ?case by (simp add: rounds_stop)
next
  case (more u v)
  show ?case
  proof (cases "u = []")
    case True
    with more show ?thesis by simp
  next
    case False
    let ?q = "past b u (v @ rest)"
    obtain m where n: "n = Suc m" using more.prems False by (cases n) auto
    with more.prems False have m: "length (v @ rest) \<le> m" by (cases u) auto
    have q: "?q = (fst ?q, v @ rest)" by (simp add: past_def)
    with more.hyps(4) [OF m] have "past (fst ?q) v rest \<in> set (rounds m f ?q)" by metis
    with rounds_step [of ?q f "(b, u @ v @ rest)" _ m] step [OF more.hyps(1), of b "v @ rest"] False n
    show ?thesis by (simp add: past_append)
  qed
qed

lemma ends_complete:
  "boundary_free r \<Longrightarrow> accepts wc r w \<Longrightarrow> past b w rest \<in> set (ends wc r (b, w @ rest))"
proof (induction r arbitrary: w b rest)
  case (Then r1 r2)
  from Then.prems(2) obtain u v where w: "w = u @ v" "accepts wc r1 u" "accepts wc r2 v"
    by (auto elim: accepts_ThenE)
  let ?q = "past b u (v @ rest)"
  have "?q \<in> set (ends wc r1 (b, u @ v @ rest))" using Then.IH(1) Then.prems(1) w(2) by simp
  moreover have "past (fst ?q) v rest \<in> set (ends wc r2 ?q)"
    using Then.IH(2) [of v "fst ?q" rest] Then.prems(1) w(3) by (simp add: past_def)
  ultimately show ?case unfolding w(1) past_append by auto
next
  case (Many r)
  have "past b u rest' \<in> set (ends wc r (b, u @ rest'))" if "accepts wc r u" for b u rest'
    using Many.IH Many.prems(1) that by simp
  from rounds_complete [OF Many.prems(2), of "ends wc r", OF this] show ?case by simp
qed auto

subsection \<open>Soundness\<close>

lemma rounds_sound:
  assumes "q \<in> set (rounds n f (b, t))"
    and step: "\<And>b t q. q \<in> set (f (b, t)) \<Longrightarrow> \<exists>u. t = u @ snd q \<and> accepts wc a u"
  shows "\<exists>u. t = u @ snd q \<and> accepts wc (Many a) u"
  using assms(1)
proof (induction n arbitrary: b t)
  case (Suc n)
  then consider "q = (b, t)" | x where "x \<in> set (f (b, t))" "q \<in> set (rounds n f x)" by auto
  then show ?case
  proof cases
    case 2
    from step [OF 2(1)] obtain u where u: "t = u @ snd x" "accepts wc a u" by blast
    from Suc.IH [of "fst x" "snd x"] 2(2) obtain v where v: "snd x = v @ snd q" "accepts wc (Many a) v" by auto
    from u v show ?thesis by (intro exI [of _ "u @ v"]) (simp add: accepts.more)
  qed (auto intro: accepts.none)
qed (auto intro: accepts.none)

lemma eat_sound: "q \<in> set (eat p (b, t)) \<Longrightarrow> \<exists>c. t = c # snd q \<and> p c"
  by (cases t) (auto split: if_splits)

lemma ends_sound:
  "boundary_free r \<Longrightarrow> q \<in> set (ends wc r (b, t)) \<Longrightarrow> \<exists>u. t = u @ snd q \<and> accepts wc r u"
proof (induction r arbitrary: b t q)
  case (Then r1 r2)
  then obtain x where x: "x \<in> set (ends wc r1 (b, t))" "q \<in> set (ends wc r2 x)" by auto
  from Then.IH(1) [OF _ x(1)] Then.prems(1) obtain u where u: "t = u @ snd x" "accepts wc r1 u" by auto
  from Then.IH(2) [of q "fst x" "snd x"] x(2) Then.prems(1) obtain v where "snd x = v @ snd q" "accepts wc r2 v"
    by auto
  with u show ?case by (intro exI [of _ "u @ v"]) (simp add: accepts.then_)
next
  case (Many r)
  have "\<exists>u. t = u @ snd q \<and> accepts wc r u" if "q \<in> set (ends wc r (b, t))" for b t q
    using Many.IH Many.prems(1) that by simp
  with rounds_sound [of q "length t" "ends wc r" b t wc r] Many.prems(2) show ?case by simp
next
  case (Or r1 r2)
  from Or.prems(2) consider "q \<in> set (ends wc r1 (b, t))" | "q \<in> set (ends wc r2 (b, t))" by auto
  then show ?case
  proof cases
    case 1
    then show ?thesis using Or.IH(1) [OF _ 1] Or.prems(1) by auto
  next
    case 2
    then show ?thesis using Or.IH(2) [OF _ 2] Or.prems(1) by auto
  qed
qed (auto dest!: eat_sound)

subsection \<open>finditer\<close>

lemma find_all_hit: "ends wc r p \<noteq> [] \<Longrightarrow> find_all wc r p \<noteq> []"
  by (subst find_all.simps) (auto split: list.split)

lemma find_all_skip: "find_all wc r (Some c, cs) \<noteq> [] \<Longrightarrow> find_all wc r (b, c # cs) \<noteq> []"
  by (subst find_all.simps) (auto split: list.split)

lemma find_all_later: "\<forall>b. ends wc r (b, t) \<noteq> [] \<Longrightarrow> find_all wc r (b', pre @ t) \<noteq> []"
proof (induction pre arbitrary: b')
  case Nil
  then show ?case using find_all_hit [of wc r "(b', t)"] by simp
next
  case (Cons c pre)
  then show ?case using find_all_skip [of wc r c "pre @ t" b'] by simp
qed

theorem find_all_iff:
  assumes "boundary_free r"
  shows "find_all wc r (b, t) \<noteq> [] \<longleftrightarrow> (\<exists>pre w post. t = pre @ w @ post \<and> accepts wc r w)"
proof
  assume "\<exists>pre w post. t = pre @ w @ post \<and> accepts wc r w"
  then obtain pre w post where t: "t = pre @ w @ post" and w: "accepts wc r w" by blast
  have "ends wc r (b, w @ post) \<noteq> []" for b using ends_complete [OF assms w, of b post] by auto
  then show "find_all wc r (b, t) \<noteq> []" unfolding t by (intro find_all_later) blast
next
  assume "find_all wc r (b, t) \<noteq> []"
  then show "\<exists>pre w post. t = pre @ w @ post \<and> accepts wc r w"
  proof (induction t arbitrary: b)
    case Nil
    then have "ends wc r (b, []) \<noteq> []" by (subst (asm) find_all.simps) (auto split: list.splits)
    then obtain q where "q \<in> set (ends wc r (b, []))" by (cases "ends wc r (b, [])") auto
    from ends_sound [OF assms this] show ?case by auto
  next
    case (Cons c cs)
    show ?case
    proof (cases "ends wc r (b, c # cs)")
      case Nil
      with Cons.prems have "find_all wc r (Some c, cs) \<noteq> []" by (subst (asm) find_all.simps) simp
      from Cons.IH [OF this] obtain pre w post where "cs = pre @ w @ post" "accepts wc r w" by blast
      then show ?thesis by (intro exI [of _ "c # pre"] exI [of _ w] exI [of _ post]) simp
    next
      case (Cons q qs)
      then have "q \<in> set (ends wc r (b, c # cs))" by simp
      from ends_sound [OF assms this] obtain u where "c # cs = u @ snd q" "accepts wc r u" by blast
      then show ?thesis by (intro exI [of _ "[]"] exI [of _ u] exI [of _ "snd q"]) simp
    qed
  qed
qed

subsection \<open>First characters\<close>

text \<open>A text without any character a match can start with has no match: a quick check that a text is clean.\<close>

fun can_empty :: "re \<Rightarrow> bool" where
  "can_empty (Then a b) = (can_empty a \<and> can_empty b)"
| "can_empty (Or a b) = (can_empty a \<or> can_empty b)"
| "can_empty (Chars rs) = False"
| "can_empty (But rs) = False"
| "can_empty Word_Char = False"
| "can_empty r = True"

fun can_start :: "(nat \<Rightarrow> bool) \<Rightarrow> re \<Rightarrow> nat \<Rightarrow> bool" where
  "can_start wc (Chars rs) c = in_ranges rs c"
| "can_start wc (But rs) c = (\<not> in_ranges rs c)"
| "can_start wc Word_Char c = wc c"
| "can_start wc (Then a b) c = (can_start wc a c \<or> can_empty a \<and> can_start wc b c)"
| "can_start wc (Or a b) c = (can_start wc a c \<or> can_start wc b c)"
| "can_start wc (Many a) c = can_start wc a c"
| "can_start wc r c = False"

lemma rounds_start:
  assumes "q \<in> set (rounds n f (b, t))" shows "snd q = t \<or> (\<exists>x\<in>set (f (b, t)). length (snd x) < length t)"
proof (cases n)
  case (Suc m)
  with assms consider "q = (b, t)" | x where "x \<in> set (f (b, t))" "length (snd x) < length t"
    unfolding Suc rounds.simps set_append set_concat set_map set_filter by auto
  then show ?thesis by cases auto
qed (use assms in simp)

lemma eat_start: "q \<in> set (eat p (b, t)) \<Longrightarrow> \<exists>c cs. t = c # cs \<and> p c"
  by (cases t) (auto split: if_splits)

lemma ends_start:
  "q \<in> set (ends wc r (b, t)) \<Longrightarrow> snd q = t \<and> can_empty r \<or> (\<exists>c cs. t = c # cs \<and> can_start wc r c)"
proof (induction r arbitrary: b t q)
  case (Then r1 r2)
  then obtain x where x: "x \<in> set (ends wc r1 (b, t))" "q \<in> set (ends wc r2 x)" by auto
  from Then.IH(1) [OF x(1)] show ?case
  proof
    assume "snd x = t \<and> can_empty r1"
    with x(2) Then.IH(2) [of q "fst x" t] show ?thesis by auto
  qed auto
next
  case (Or r1 r2)
  from Or.prems consider "q \<in> set (ends wc r1 (b, t))" | "q \<in> set (ends wc r2 (b, t))" by auto
  then show ?case
  proof cases
    case 1
    from Or.IH(1) [OF 1] show ?thesis by auto
  next
    case 2
    from Or.IH(2) [OF 2] show ?thesis by auto
  qed
next
  case (Many r)
  from Many.prems rounds_start [of q "length t" "ends wc r" b t] consider "snd q = t"
    | x where "x \<in> set (ends wc r (b, t))" "length (snd x) < length t" by auto
  then show ?case
  proof cases
    case 2
    with Many.IH [OF 2(1)] show ?thesis by auto
  qed simp
qed (auto dest: eat_start)

lemma find_all_no_start:
  assumes "\<not> can_empty r" and "list_all (\<lambda>c. \<not> can_start wc r c) t" shows "find_all wc r (b, t) = []"
  using assms(2)
proof (induction t arbitrary: b)
  case Nil
  have "ends wc r (b, []) = []" using ends_start [of _ wc r b "[]"] assms(1) by (meson all_not_in_conv list.distinct(1) set_empty)
  then show ?case by (subst find_all.simps) simp
next
  case (Cons c cs)
  have "q \<notin> set (ends wc r (b, c # cs))" for q using ends_start [of q wc r b "c # cs"] assms(1) Cons.prems by auto
  then have "ends wc r (b, c # cs) = []" by (metis list.set_intros(1) neq_Nil_conv)
  with Cons show ?case by (subst find_all.simps) simp
qed

end
