(* ===== verification/Learn_Props.thy ===== *)
theory Learn_Props
  imports Learn_Gate Learn_Search
begin

section \<open>Learning: what the gate promises\<close>

text \<open>
  The life cycle as runs of \<open>advance\<close>: what holds of a candidate in each state, how long a run can
  be, what an ingest may write and what activation proves.
\<close>

subsection \<open>The sanitizer\<close>

text \<open>The rules without a word boundary: all but \<open>LRN-INJ-007\<close>.\<close>

definition plain_rules :: "scan_rule list" where
  "plain_rules = filter (\<lambda>(r, _). boundary_free r) scan_rules"

lemma boundary_free_seq: "boundary_free (seq rs) \<longleftrightarrow> list_all boundary_free rs"
  by (induction rs rule: seq.induct) auto

lemma boundary_free_alt: "boundary_free (alt rs) \<longleftrightarrow> list_all boundary_free rs"
  by (induction rs rule: alt.induct) auto

lemma boundary_free_parts [simp]:
  "boundary_free (lit s)" "boundary_free (lit_i s)" "boundary_free sp" "boundary_free sp0" "boundary_free quotes"
  "boundary_free (words_i ws)" "boundary_free (opt r) = boundary_free r" "boundary_free (some_of r) = boundary_free r"
  "list_all boundary_free (plurals ws)" "\<forall>r\<in>set (plurals ws). boundary_free r"
  by (simp_all add: lit_def lit_i_def sp_def sp0_def quotes_def words_i_def opt_def some_of_def plurals_def
      boundary_free_seq boundary_free_alt list_all_iff)

lemma plain_rule_ids:
  "map (fst \<circ> snd) plain_rules = [''LRN-INJ-001'', ''LRN-INJ-002'', ''LRN-INJ-003'', ''LRN-INJ-004'',
     ''LRN-INJ-005'', ''LRN-INJ-006'', ''LRN-SEC-001'', ''LRN-SEC-002'']"
proof -
  have "\<not> boundary_free inj_exec_fetch"
    by (simp add: inj_exec_fetch_def boundary_free_seq boundary_free_alt)
  moreover have "boundary_free inj_override" "boundary_free inj_persona" "boundary_free inj_template"
    "boundary_free inj_zero_width" "boundary_free inj_bidi" "boundary_free inj_tag" "boundary_free sec_raw"
    "boundary_free sec_token"
    by (simp_all add: inj_override_def inj_persona_def inj_template_def inj_zero_width_def inj_bidi_def inj_tag_def
        sec_raw_def sec_token_def boundary_free_seq boundary_free_alt exactly_def at_least_def list_all_iff)
  ultimately show ?thesis by (simp add: plain_rules_def scan_rules_def)
qed

lemma rule_findings_iff:
  "rule_findings wc content (r, meta) \<noteq> [] \<longleftrightarrow> find_all wc r (None, content) \<noteq> []"
  by (cases meta) (simp add: rule_findings_def)

lemma scan_clean_iff:
  "scan_content wc content = [] \<longleftrightarrow> (\<forall>r\<in>set scan_rules. rule_findings wc content r = [])"
proof -
  have "length (sort_key f xs) = length xs" for f :: "finding \<Rightarrow> string" and xs by simp
  then have "sort_key f xs = [] \<longleftrightarrow> xs = []" for f :: "finding \<Rightarrow> string" and xs by (metis length_0_conv)
  then show ?thesis by (simp add: scan_content_def)
qed

text \<open>
  C27: a content the sanitizer calls clean contains, at no position, a piece in the language of one of
  the eight patterns without a word boundary; and a text with such a piece stays dirty whatever is
  written before and after it.
\<close>

theorem clean_content_has_no_payload:
  assumes "(r, meta) \<in> set plain_rules" and "accepts wc r payload"
  shows "\<not> is_clean wc (before @ payload @ after)"
proof
  assume "is_clean wc (before @ payload @ after)"
  moreover from assms(1) have rule: "(r, meta) \<in> set scan_rules" "boundary_free r" by (auto simp: plain_rules_def)
  ultimately have "rule_findings wc (before @ payload @ after) (r, meta) = []"
    by (auto simp: is_clean_def scan_clean_iff)
  then have "find_all wc r (None, before @ payload @ after) = []" using rule_findings_iff by blast
  with assms(2) find_all_iff [OF rule(2), of wc None "before @ payload @ after"] show False by blast
qed

subsection \<open>Runs of the life cycle\<close>

inductive reaches :: "(nat \<Rightarrow> bool) \<Rightarrow> promotion_gate \<Rightarrow> learning_candidate \<Rightarrow> nat \<Rightarrow> learning_candidate \<Rightarrow> bool"
  for wc g c0 where
  start: "reaches wc g c0 0 c0"
| step: "reaches wc g c0 n c \<Longrightarrow> advance wc g c ev = Inr c' \<Longrightarrow> reaches wc g c0 (Suc n) c'"

lemma revalidate_Inr [result_simps]: "revalidate c = Inr c' \<longleftrightarrow> make_candidate c = Inr c \<and> c' = c"
  by (auto simp: revalidate_def make_candidate_def result_simps split: sum.splits)

lemma gate_empty:
  "gate_reasons g c = [] \<longleftrightarrow> pg_learning_enabled g \<and> lc_state c = Shadow_Evaluated \<and> lc_findings c = [] \<and>
     \<not> no_scope (lc_scope c) \<and> (\<exists>e. lc_evaluation c = Some e \<and> se_held_out e \<and>
       score_less (pg_min_improvement g) (delta e) \<and> se_protected e)"
  by (auto simp: gate_reasons_def evaluation_reasons_def is_sanitized_clean_def improves_over_control_def
      split: option.splits)

text \<open>What a successful move does, state by state.\<close>

lemma advance_legal: "advance wc g c ev = Inr c' \<Longrightarrow> av_to ev \<in> set (next_states (lc_state c))"
  by (auto simp: advance_def Let_def is_legal_transition_def split: if_splits)

lemma advance_state:
  assumes "advance wc g c ev = Inr c'"
  shows "lc_state c' = av_to ev" "lc_content c' = lc_content c" "lc_id c' = lc_id c"
    "lc_provenance c' = lc_provenance c" "lc_refresh c' = lc_refresh c"
  using assms
  by (auto simp: advance_def Let_def result_simps promote_now_def
      split: if_splits candidate_state.splits option.splits sum.splits)

lemma advance_clean_barrier:
  assumes "advance wc g c ev = Inr c'" and "lc_state c = Sanitized" and "av_to ev = Scoped"
  shows "lc_findings c = []"
  using assms by (auto simp: advance_def Let_def is_sanitized_clean_def split: if_splits)

lemma advance_findings:
  assumes "advance wc g c ev = Inr c'"
  shows "lc_findings c' = (if av_to ev = Sanitized then scan_content wc (lc_content c) else lc_findings c)"
  using assms
  by (auto simp: advance_def Let_def result_simps promote_now_def
      split: if_splits candidate_state.splits option.splits sum.splits)

lemma advance_scope:
  assumes "advance wc g c ev = Inr c'"
  shows "if av_to ev = Scoped then \<not> no_scope (lc_scope c') else lc_scope c' = lc_scope c"
  using assms
  by (auto simp: advance_def Let_def result_simps promote_now_def
      split: if_splits candidate_state.splits option.splits sum.splits)

lemma advance_evaluation:
  assumes "advance wc g c ev = Inr c'" and "av_to ev \<noteq> Shadow_Evaluated"
  shows "lc_evaluation c' = lc_evaluation c"
  using assms
  by (auto simp: advance_def Let_def result_simps promote_now_def
      split: if_splits candidate_state.splits option.splits sum.splits)

lemma advance_promotion:
  assumes "advance wc g c ev = Inr c'" and "av_to ev \<noteq> Promoted"
  shows "lc_promotion c' = lc_promotion c" "lc_version c' = lc_version c"
  using assms
  by (auto simp: advance_def Let_def result_simps promote_now_def
      split: if_splits candidate_state.splits option.splits sum.splits)

definition justifies :: "promotion_gate \<Rightarrow> learning_candidate \<Rightarrow> promotion_record \<Rightarrow> bool" where
  "justifies g c p \<longleftrightarrow> lc_promotion c = Some p \<and> 1 \<le> pm_version p \<and> lc_version c = pm_version p \<and>
     lc_evaluation c = Some (pm_evaluation p) \<and> pm_scope p = lc_scope c \<and> pm_provenance p = lc_provenance c \<and>
     pg_learning_enabled g \<and> se_held_out (pm_evaluation p) \<and> se_protected (pm_evaluation p) \<and>
     score_less (pg_min_improvement g) (delta (pm_evaluation p))"

lemma advance_promotes:
  assumes "advance wc g c ev = Inr c'" and "av_to ev = Promoted"
  shows "gate_reasons g c = []" and "\<exists>p. justifies g c' p"
proof -
  from assms show e: "gate_reasons g c = []" by (auto simp: advance_def Let_def split: if_splits option.splits)
  then obtain e where "lc_evaluation c = Some e" "se_held_out e" "score_less (pg_min_improvement g) (delta e)"
    "se_protected e" "pg_learning_enabled g" unfolding gate_empty by blast
  with assms e show "\<exists>p. justifies g c' p"
    by (auto simp: advance_def Let_def result_simps promote_now_def justifies_def make_promotion_record_def
        split: if_splits sum.splits)
qed

definition past_sanitized :: "candidate_state set" where
  "past_sanitized = {Scoped, Shadow_Evaluated, Promoted, Monitored, Superseded}"

definition past_promotion :: "candidate_state set" where
  "past_promotion = {Promoted, Monitored, Superseded}"

definition lifecycle_ok :: "(nat \<Rightarrow> bool) \<Rightarrow> promotion_gate \<Rightarrow> learning_candidate \<Rightarrow> bool" where
  "lifecycle_ok wc g c \<longleftrightarrow>
     (lc_state c = Sanitized \<longrightarrow> lc_findings c = scan_content wc (lc_content c)) \<and>
     (lc_state c \<in> past_sanitized \<longrightarrow> lc_findings c = [] \<and> scan_content wc (lc_content c) = [] \<and> \<not> no_scope (lc_scope c)) \<and>
     (lc_state c \<in> past_promotion \<longrightarrow> (\<exists>p. justifies g c p))"

lemma next_past_sanitized:
  "b \<in> set (next_states a) \<Longrightarrow> b \<in> past_sanitized \<longleftrightarrow> b = Scoped \<and> a = Sanitized \<or> a \<in> past_sanitized \<and> b \<noteq> Rolled_Back \<and> b \<noteq> Scoped"
  by (cases a) (auto simp: past_sanitized_def)

lemma next_past_promotion:
  "b \<in> set (next_states a) \<Longrightarrow> b \<in> past_promotion \<Longrightarrow> b \<noteq> Promoted \<Longrightarrow> a \<in> past_promotion"
  by (cases a) (auto simp: past_promotion_def)

lemma past_no_reentry:
  "b \<in> set (next_states a) \<Longrightarrow> a \<in> past_sanitized \<Longrightarrow> b \<noteq> Sanitized \<and> b \<noteq> Scoped"
  "b \<in> set (next_states a) \<Longrightarrow> a \<in> past_promotion \<Longrightarrow> b \<noteq> Promoted \<and> b \<noteq> Shadow_Evaluated \<and> b \<noteq> Scoped \<and> b \<noteq> Sanitized"
  by (cases a; auto simp: past_sanitized_def past_promotion_def)+

lemma justifies_cong:
  assumes "justifies g c p" "lc_promotion c' = lc_promotion c" "lc_version c' = lc_version c"
    "lc_evaluation c' = lc_evaluation c" "lc_scope c' = lc_scope c" "lc_provenance c' = lc_provenance c"
  shows "justifies g c' p"
  using assms by (simp add: justifies_def)

lemma advance_keeps_ok:
  assumes ok: "lifecycle_ok wc g c" and adv: "advance wc g c ev = Inr c'"
  shows "lifecycle_ok wc g c'"
proof -
  note st = advance_state [OF adv] and legal = advance_legal [OF adv]
  have a: "lc_findings c' = scan_content wc (lc_content c')" if "lc_state c' = Sanitized"
    using that st advance_findings [OF adv] by simp
  have b: "lc_findings c' = [] \<and> scan_content wc (lc_content c') = [] \<and> \<not> no_scope (lc_scope c')"
    if "lc_state c' \<in> past_sanitized"
  proof -
    from that st legal next_past_sanitized consider (enter) "av_to ev = Scoped" "lc_state c = Sanitized"
      | (stay) "lc_state c \<in> past_sanitized" by metis
    then show ?thesis
    proof cases
      case enter
      with ok advance_clean_barrier [OF adv] advance_findings [OF adv] advance_scope [OF adv] st show ?thesis
        by (simp add: lifecycle_ok_def)
    next
      case stay
      with past_no_reentry(1) [OF legal] ok advance_findings [OF adv] advance_scope [OF adv] st show ?thesis
        by (simp add: lifecycle_ok_def)
    qed
  qed
  have c: "\<exists>p. justifies g c' p" if "lc_state c' \<in> past_promotion"
  proof (cases "av_to ev = Promoted")
    case True
    then show ?thesis using advance_promotes(2) [OF adv] by simp
  next
    case False
    with that st next_past_promotion [OF legal] have old: "lc_state c \<in> past_promotion" by simp
    with ok obtain p where "justifies g c p" by (auto simp: lifecycle_ok_def)
    with False past_no_reentry(2) [OF legal old] st advance_promotion [OF adv] advance_evaluation [OF adv]
      advance_scope [OF adv] have "justifies g c' p" by (auto intro: justifies_cong)
    then show ?thesis ..
  qed
  from a b c show ?thesis by (simp add: lifecycle_ok_def)
qed

lemma reaches_ok:
  assumes "reaches wc g c0 n c" and "lc_state c0 \<in> {Observed, Candidate}"
  shows "lifecycle_ok wc g c \<and> lc_content c = lc_content c0"
  using assms
proof (induction rule: reaches.induct)
  case start
  then show ?case by (auto simp: lifecycle_ok_def past_sanitized_def past_promotion_def)
next
  case (step n c ev c')
  then show ?case using advance_keeps_ok advance_state(2) by metis
qed

text \<open>
  C15: a candidate that entered the life cycle at its start can influence an agent only if its content
  was scanned clean, it has a scope, and it carries a promotion record for this very scope and
  provenance whose held-out evaluation beat the control by more than the gate's threshold without a
  regression of the protected suite, on a gate with learning enabled, and has not expired.
\<close>

theorem active_learning_is_proven:
  assumes "lc_state c0 \<in> {Observed, Candidate}" and "reaches wc g c0 n c" and "is_active c now"
  shows "scan_content wc (lc_content c0) = [] \<and> \<not> no_scope (lc_scope c) \<and> \<not> is_stale c now \<and>
    (\<exists>p. justifies g c p)"
proof -
  from assms(3) have "lc_state c \<in> {Promoted, Monitored}" "\<not> is_stale c now"
    by (auto simp: is_active_def is_stale_def split: if_splits)
  moreover from this(1) have "lc_state c \<in> past_sanitized" "lc_state c \<in> past_promotion"
    by (auto simp: past_sanitized_def past_promotion_def)
  moreover from reaches_ok [OF assms(2,1)] have "lifecycle_ok wc g c" "lc_content c = lc_content c0" by blast+
  ultimately show ?thesis unfolding lifecycle_ok_def by metis
qed

subsection \<open>The life cycle ends\<close>

fun moves_left :: "candidate_state \<Rightarrow> nat" where
  "moves_left Observed = 7"
| "moves_left Candidate = 6"
| "moves_left Sanitized = 5"
| "moves_left Scoped = 4"
| "moves_left Shadow_Evaluated = 3"
| "moves_left Promoted = 2"
| "moves_left Monitored = 1"
| "moves_left Superseded = 0"
| "moves_left Rolled_Back = 0"

lemma moves_left_decreases: "b \<in> set (next_states a) \<Longrightarrow> moves_left b < moves_left a"
  by (cases a) auto

text \<open>
  no run of the life cycle is longer than seven moves, every move brings the end nearer, a
  rolled-back or superseded candidate never moves again and every other one but an observed one can
  still be rolled back.
\<close>

theorem lifecycle_terminates:
  assumes "reaches wc g c0 n c"
  shows "n + moves_left (lc_state c) \<le> moves_left (lc_state c0) \<and> n \<le> 7 \<and>
    (lc_state c \<in> {Superseded, Rolled_Back} \<longrightarrow> (\<forall>ev. \<exists>e. advance wc g c ev = Inl e)) \<and>
    (lc_state c \<notin> {Observed, Superseded, Rolled_Back} \<and> make_candidate c = Inr c \<longrightarrow>
       (\<forall>now why. \<exists>c'. rollback wc c now why = Inr c' \<and> lc_state c' = Rolled_Back \<and> (\<forall>t. \<not> is_active c' t)))"
proof -
  have len: "n + moves_left (lc_state c) \<le> moves_left (lc_state c0)"
    using assms
  proof (induction rule: reaches.induct)
    case (step n c ev c')
    from moves_left_decreases [OF advance_legal [OF step.hyps(2)]] advance_state(1) [OF step.hyps(2)] step.IH
    show ?case by simp
  qed simp
  moreover have "moves_left s \<le> 7" for s by (cases s) simp_all
  then have "n \<le> 7" using len by (meson add_leD1 order_trans)
  moreover have "\<exists>e. advance wc g c ev = Inl e" if "lc_state c \<in> {Superseded, Rolled_Back}" for ev
    using that by (auto simp: advance_def Let_def is_legal_transition_def)
  moreover have "\<exists>c'. rollback wc c now why = Inr c' \<and> lc_state c' = Rolled_Back \<and> (\<forall>t. \<not> is_active c' t)"
    if "lc_state c \<notin> {Observed, Superseded, Rolled_Back}" and valid: "make_candidate c = Inr c" for now why
  proof -
    have "Rolled_Back \<in> set (next_states (lc_state c))" using that(1) by (cases "lc_state c") auto
    moreover have "revalidate (c\<lparr>lc_state := s, lc_updated := now\<rparr>) = Inr (c\<lparr>lc_state := s, lc_updated := now\<rparr>)" for s
      using valid by (simp add: result_simps make_candidate_def require_def split: if_splits)
    ultimately show ?thesis
      by (simp add: rollback_def advance_def move_to_def Let_def is_legal_transition_def is_active_def)
  qed
  ultimately show ?thesis by simp
qed

end
