(* ===== verification/Learn_Activation.thy ===== *)
theory Learn_Activation
  imports Learn_Props
begin

section \<open>Learning: activation and ingestion\<close>

text \<open>
  What \<open>require_promoted\<close> proves, what an ingest may write, and that what it wrote passes the
  activation check: the two halves of the gate fit together.
\<close>

subsection \<open>Activation\<close>

definition activatable :: "learning_candidate \<Rightarrow> int \<Rightarrow> activation_target option \<Rightarrow> promotion_record \<Rightarrow> bool" where
  "activatable c now target p \<longleftrightarrow> is_active c now \<and> lc_promotion c = Some p \<and> lc_findings c = [] \<and>
     1 \<le> pm_version p \<and> \<not> no_scope (pm_scope p) \<and> \<not> no_provenance (pm_provenance p) \<and>
     (case target of None \<Rightarrow> True | Some t \<Rightarrow> scope_matches (pm_scope p) t)"

lemma record_reasons_empty:
  "record_reasons q target = [] \<longleftrightarrow> (\<exists>p. q = Some p \<and> 1 \<le> pm_version p \<and> \<not> no_scope (pm_scope p) \<and>
     \<not> no_provenance (pm_provenance p) \<and> (case target of None \<Rightarrow> True | Some t \<Rightarrow> scope_matches (pm_scope p) t))"
  by (auto simp: record_reasons_def split: option.splits)

lemma live_can_roll_back: "lc_state c \<in> {Promoted, Monitored} \<Longrightarrow> can_roll_back c"
  by (auto simp: can_roll_back_def is_legal_transition_def)

lemma activation_reasons_empty:
  "activation_reasons c now target env = [] \<longleftrightarrow> is_learning_enabled env \<and> (\<exists>p. activatable c now target p)"
proof
  assume e: "activation_reasons c now target env = []"
  then have "is_learning_enabled env" "lc_state c \<in> {Promoted, Monitored}" "record_reasons (lc_promotion c) target = []"
    "\<not> is_stale c now" "lc_findings c = []"
    by (simp_all add: activation_reasons_def is_sanitized_clean_def split: if_splits)
  then show "is_learning_enabled env \<and> (\<exists>p. activatable c now target p)"
    unfolding record_reasons_empty activatable_def is_active_def is_stale_def by auto
next
  assume a: "is_learning_enabled env \<and> (\<exists>p. activatable c now target p)"
  then obtain p where p: "activatable c now target p" by blast
  then have live: "lc_state c \<in> {Promoted, Monitored}" by (auto simp: activatable_def is_active_def split: if_splits)
  from p have "record_reasons (lc_promotion c) target = []"
    unfolding record_reasons_empty by (auto simp: activatable_def)
  with a p live live_can_roll_back [OF live] show "activation_reasons c now target env = []"
    by (simp add: activation_reasons_def activatable_def is_active_def is_stale_def is_sanitized_clean_def)
qed

text \<open>
  C33: \<open>require_promoted\<close> returns a record exactly when the kill switch is on and the candidate is live,
  unexpired and clean with this versioned record, whose scope is not empty and covers the target and
  whose provenance is not empty; in every other case it raises with at least one reason.
\<close>

theorem activation_is_exact:
  "(require_promoted c now target env = Inr p \<longleftrightarrow> is_learning_enabled env \<and> activatable c now target p) \<and>
   (require_promoted c now target env = Inl (i, rs) \<longrightarrow> i = lc_id c \<and> rs \<noteq> [])"
proof -
  have one: "activatable c now target q \<Longrightarrow> lc_promotion c = Some q" for q by (simp add: activatable_def)
  show ?thesis
  proof (cases "activation_reasons c now target env = []")
    case True
    then obtain q where q: "is_learning_enabled env" "activatable c now target q"
      using activation_reasons_empty by blast
    with True one [OF q(2)] have "require_promoted c now target env = Inr q"
      by (simp add: require_promoted_def check_activation_def Let_def)
    with q one [of p] one [OF q(2)] show ?thesis by (cases "p = q") auto
  next
    case False
    then have "require_promoted c now target env = Inl (lc_id c, activation_reasons c now target env)"
      by (simp add: require_promoted_def check_activation_def Let_def)
    with False activation_reasons_empty show ?thesis by auto
  qed
qed

subsection \<open>Ingestion\<close>

lemma drive_step_reaches:
  assumes "reaches wc g c0 n c" and "drive_step wc g ev now t c = Inr c'"
  shows "\<exists>m. reaches wc g c0 m c'"
  using assms by (auto simp: drive_step_def split: if_splits intro: reaches.step)

lemma drive_reaches:
  assumes "reaches wc g c0 n c" and "rfold (drive_step wc g ev now) ts c = Inr c'"
  shows "\<exists>m. reaches wc g c0 m c'"
  using assms
proof (induction ts arbitrary: c n)
  case (Cons t ts)
  then show ?case by (auto simp: result_simps dest: drive_step_reaches)
qed auto

lemma drive_reaches_shadow: "drive_to_shadow wc g c ev now = Inr c' \<Longrightarrow> \<exists>m. reaches wc g c m c'"
  unfolding drive_to_shadow_def by (rule drive_reaches [OF reaches.start])

text \<open>
  C17: whatever the sink does, an ingest changes the store and the register at most by handing the
  sink one memory, and only when learning is enabled in the environment and in the gate: the memory
  of a candidate that was just promoted with evidence above the threshold, is clean by its findings,
  has a scope and, if it was handed in before the sanitizer's stage, has a content that scans clean;
  with provenance and before its expiry it passes the activation check as it was written.
\<close>

theorem ingest_writes_only_promoted:
  assumes "ingest wc g sink env now c evidence reason (ing, w) = ((ing', w'), r)"
  shows "ing' = ing \<and> w' = w \<or>
    (\<exists>q p. w' = fst (sk_write sink (memory_of q p) w) \<and>
       (ing' = ing \<or> (\<exists>mid. ing' = AList.update mid q ing)) \<and>
       is_learning_enabled env \<and> lc_state q = Promoted \<and> justifies g q p \<and> lc_findings q = [] \<and> \<not> no_scope (lc_scope q) \<and>
       (lc_state c \<in> {Observed, Candidate} \<longrightarrow>
          lc_content q = lc_content c \<and> scan_content wc (lc_content c) = []) \<and>
       (\<not> no_provenance (lc_provenance q) \<and> \<not> is_stale q later \<longrightarrow> require_promoted q later None env = Inr p))"
proof (cases "ing' = ing \<and> w' = w")
  case False
  then have en: "is_learning_enabled env" using assms by (auto simp: ingest_def split: if_splits)
  with assms False obtain d where d: "drive_to_shadow wc g c evidence now = Inr d"
    by (auto simp: ingest_def split: sum.splits if_splits)
  with assms False en have elig: "gate_reasons g d = []"
    by (auto simp: ingest_def split: sum.splits if_splits)
  let ?ev = "(move_to Promoted now)\<lparr>av_reason := reason\<rparr>"
  from assms False en d elig obtain q where q: "advance wc g d ?ev = Inr q"
    by (auto simp: ingest_def split: sum.splits if_splits)
  from advance_promotes(2) [OF q] obtain p where p: "justifies g q p" by (auto simp: move_to_def)
  then have pr: "lc_promotion q = Some p" by (simp add: justifies_def)
  have w: "w' = fst (sk_write sink (memory_of q p) w)" "ing' = ing \<or> (\<exists>mid. ing' = AList.update mid q ing)"
    using assms en d elig q pr by (auto simp: ingest_def split: prod.splits sum.splits)
  have st: "lc_state q = Promoted" using advance_state(1) [OF q] by (simp add: move_to_def)
  have fd: "lc_findings q = []" "\<not> no_scope (lc_scope q)"
    using elig advance_findings [OF q] advance_scope [OF q] unfolding gate_empty by (simp_all add: move_to_def)
  obtain m where m: "reaches wc g c m d" using drive_reaches_shadow [OF d] by blast
  have sc: "lc_content q = lc_content c \<and> scan_content wc (lc_content c) = []" if "lc_state c \<in> {Observed, Candidate}"
    using reaches_ok [OF reaches.step [OF m q] that] st by (auto simp add: lifecycle_ok_def past_sanitized_def)
  have act: "require_promoted q later None env = Inr p"
    if "\<not> no_provenance (lc_provenance q)" "\<not> is_stale q later"
    using that p st fd en activation_is_exact [of q later None env p]
    by (simp add: activatable_def justifies_def is_active_def is_stale_def)
  from w en st p fd sc act show ?thesis by blast
qed simp

text \<open>
  A candidate handed in as already scoped is not scanned: with a scope, no findings of its own and good
  evidence it is written whatever its content is.
\<close>

lemma ingest_trusts_claimed_state:
  assumes "is_learning_enabled env" and "make_candidate c = Inr c" and "lc_state c = Scoped" and "lc_findings c = []"
    and "\<not> no_scope (lc_scope c)" and "pg_learning_enabled g"
    and "se_held_out e" and "se_protected e" and "score_less (pg_min_improvement g) (delta e)"
    and "\<And>m w. \<exists>w' i. sk_write sink m w = (w', Inr i)"
  shows "\<exists>s r. ingest wc g sink env now c (Some e) why (ing, w) = (s, Inr r) \<and> ir_ingested r"
proof -
  let ?d = "c\<lparr>lc_evaluation := Some e, lc_state := Shadow_Evaluated, lc_updated := now\<rparr>"
  have valid: "make_candidate (c\<lparr>lc_evaluation := x, lc_state := s, lc_updated := t\<rparr>)
      = Inr (c\<lparr>lc_evaluation := x, lc_state := s, lc_updated := t\<rparr>)"
    "make_candidate (c\<lparr>lc_evaluation := x, lc_version := lc_version c + 1, lc_promotion := p, lc_state := s, lc_updated := t\<rparr>)
      = Inr (c\<lparr>lc_evaluation := x, lc_version := lc_version c + 1, lc_promotion := p, lc_state := s, lc_updated := t\<rparr>)"
    for x s t p using assms(2) by (auto simp: make_candidate_def result_simps require_def split: if_splits)
  have v: "0 \<le> lc_version c" using assms(2) by (auto simp: make_candidate_def result_simps)
  have d: "drive_to_shadow wc g c (Some e) now = Inr ?d"
    using assms(3) valid(1)
    by (simp add: drive_to_shadow_def forward_to_shadow_def drive_step_def is_legal_transition_def advance_def
        Let_def forward_event_def move_to_def revalidate_def)
  have elig: "gate_reasons g ?d = []"
    unfolding gate_empty using assms by simp
  have "\<exists>q p. advance wc g ?d ((move_to Promoted now)\<lparr>av_reason := why\<rparr>) = Inr q \<and> lc_promotion q = Some p"
    using elig valid(2) v
    by (simp add: advance_def Let_def is_legal_transition_def move_to_def promote_now_def make_promotion_record_def
        revalidate_def)
  then obtain q p where q: "advance wc g ?d ((move_to Promoted now)\<lparr>av_reason := why\<rparr>) = Inr q" "lc_promotion q = Some p"
    by blast
  obtain w' i where "sk_write sink (memory_of q p) w = (w', Inr i)" using assms(10) by blast
  then show ?thesis by (simp add: ingest_def assms(1) d elig q)
qed

end
