(* ===== verification/Learn_Registry.thy ===== *)
theory Learn_Registry
  imports Learn_Props
begin

section \<open>Learning: governed promotion\<close>

text \<open>
  \<open>learning/prediction.py\<close>, \<open>learning/candidate_registry.py\<close> and \<open>learning/promotion.py\<close>.  The
  registry is a dictionary from candidate ids to records.  The digest of a candidate and its manifest
  is the argument \<open>H\<close> (SHA-256 of their canonical JSON) and raises when a number in them is not
  finite; the two \<open>to_dict\<close> functions that feed it list every field and are not modelled.
\<close>

subsection \<open>Predictions and manifests\<close>

datatype learning_component = Context_Policy | Verifier_Policy | Routing_Policy | Tool_Middleware | Memory_Store | Prompt

record promotion_prediction =
  pp_component :: learning_component
  pp_metric :: string
  pp_minimum_effect :: score
  pp_task_slice :: string
  pp_risk :: string

definition make_prediction :: "promotion_prediction \<Rightarrow> (string, promotion_prediction) result" where
  "make_prediction p =
     rbind (require (strip (pp_metric p) \<noteq> []) ''metric must not be empty'') (\<lambda>_.
     rbind (require (strip (pp_task_slice p) \<noteq> []) ''task_slice must not be empty'') (\<lambda>_.
     rbind (require (strip (pp_risk p) \<noteq> []) ''risk must not be empty'') (\<lambda>_.
     rbind (require (is_finite (pp_minimum_effect p) \<and> \<not> score_less (pp_minimum_effect p) (Fin 0))
              ''minimum_effect must be a finite non-negative number'') (\<lambda>_. Inr p))))"

record promotion_manifest =
  mf_prediction :: "promotion_prediction option"
  mf_dataset :: string
  mf_held_out :: "shadow_evaluation option"
  mf_protected :: bool
  mf_rollback :: string
  mf_schema :: string

definition finite_evaluation :: "shadow_evaluation option \<Rightarrow> bool" where
  "finite_evaluation e = (case e of None \<Rightarrow> True | Some e \<Rightarrow> is_finite (se_candidate e) \<and> is_finite (se_control e))"

definition manifest_digest :: "(learning_candidate \<times> promotion_manifest \<Rightarrow> string) \<Rightarrow> learning_candidate
    \<Rightarrow> promotion_manifest \<Rightarrow> (learning_error, string) result" where
  "manifest_digest H c m =
     (if finite_evaluation (lc_evaluation c) \<and> finite_evaluation (map_option pm_evaluation (lc_promotion c)) \<and>
         finite_evaluation (mf_held_out m) \<and>
         (case mf_prediction m of None \<Rightarrow> True | Some p \<Rightarrow> is_finite (pp_minimum_effect p))
      then Inr (H (c, m)) else Inl (Invalid_Value ''Out of range float values are not JSON compliant''))"

subsection \<open>The registry\<close>

datatype disposition = Quarantined | Disposed_Promoted | Disposed_Rolled_Back

record candidate_record =
  cd_candidate :: learning_candidate
  cd_manifest :: promotion_manifest
  cd_digest :: string
  cd_disposition :: disposition
  cd_decision :: "string list option"
  cd_created :: int
  cd_updated :: int
  cd_rollback_reason :: string

type_synonym registry = "(string \<times> candidate_record) list"

datatype registry_error = Conflict string | Unknown_Candidate string | Refused_By learning_error

definition register :: "(learning_candidate \<times> promotion_manifest \<Rightarrow> string) \<Rightarrow> learning_candidate
    \<Rightarrow> promotion_manifest \<Rightarrow> int \<Rightarrow> (registry, registry_error, candidate_record) action" where
  "register H c m now reg =
     (case manifest_digest H c m of
        Inl e \<Rightarrow> (reg, Inl (Refused_By e))
      | Inr h \<Rightarrow>
        (case map_of reg (lc_id c) of
           Some r \<Rightarrow> if cd_digest r \<noteq> h then (reg, Inl (Conflict (lc_id c))) else (reg, Inr r)
         | None \<Rightarrow>
             (let r = \<lparr>cd_candidate = c, cd_manifest = m, cd_digest = h, cd_disposition = Quarantined,
                       cd_decision = None, cd_created = now, cd_updated = now, cd_rollback_reason = []\<rparr>
              in (AList.update (lc_id c) r reg, Inr r))))"

definition get_record :: "string \<Rightarrow> (registry, registry_error, candidate_record) action" where
  "get_record i reg = (case map_of reg i of None \<Rightarrow> (reg, Inl (Unknown_Candidate i)) | Some r \<Rightarrow> (reg, Inr r))"

definition record_decision :: "string \<Rightarrow> string list \<Rightarrow> learning_candidate option \<Rightarrow> disposition option \<Rightarrow> int
    \<Rightarrow> string \<Rightarrow> (registry, registry_error, candidate_record) action" where
  "record_decision i decision c disp now why =
     abind (get_record i) (\<lambda>r reg.
       let r' = r\<lparr>cd_candidate := (case c of None \<Rightarrow> cd_candidate r | Some c' \<Rightarrow> c'),
                  cd_disposition := (case disp of None \<Rightarrow> cd_disposition r | Some d \<Rightarrow> d),
                  cd_decision := Some decision, cd_updated := now, cd_rollback_reason := why\<rparr>
       in (AList.update i r' reg, Inr r'))"

definition registry_records :: "registry \<Rightarrow> candidate_record list" where
  "registry_records reg = map (\<lambda>k. the (map_of reg k)) (sort (map fst reg))"

subsection \<open>The governed gate and its service\<close>

definition held_out_reasons :: "learning_candidate \<Rightarrow> promotion_manifest \<Rightarrow> string list" where
  "held_out_reasons c m = (case mf_held_out m of
     None \<Rightarrow> [''held-out-result-missing'']
   | Some e \<Rightarrow>
       (if \<not> se_held_out e then [''result-not-held-out''] else [])
       @ (if se_label e \<noteq> Measured then [''held-out-result-not-measured''] else [])
       @ (if \<not> se_protected e then [''protected-suite-regression''] else [])
       @ (if lc_evaluation c \<noteq> Some e then [''candidate-result-mismatch''] else [])
       @ (case mf_prediction m of None \<Rightarrow> []
          | Some p \<Rightarrow> if score_le (delta e) (pp_minimum_effect p)
                      then [''held-out-improvement-below-prediction''] else []))"

definition governed_reasons :: "bool \<Rightarrow> learning_candidate \<Rightarrow> promotion_manifest \<Rightarrow> string list" where
  "governed_reasons learning c m =
     (if \<not> learning then [''learning-disabled''] else [])
     @ (if lc_state c \<noteq> Shadow_Evaluated then [''candidate-not-shadow-evaluated''] else [])
     @ (if no_provenance (lc_provenance c) then [''provenance-missing''] else [])
     @ (if no_scope (lc_scope c) then [''scope-missing''] else [])
     @ (if mf_prediction m = None then [''prediction-missing''] else [])
     @ (if strip (mf_dataset m) = [] then [''dataset-revision-missing''] else [])
     @ (if \<not> mf_protected m then [''protected-non-regression-missing''] else [])
     @ (if strip (mf_rollback m) = [] then [''rollback-pointer-missing''] else [])
     @ held_out_reasons c m"

definition promote :: "(nat \<Rightarrow> bool) \<Rightarrow> (learning_candidate \<times> promotion_manifest \<Rightarrow> string) \<Rightarrow> bool
    \<Rightarrow> learning_candidate \<Rightarrow> promotion_manifest \<Rightarrow> int \<Rightarrow> string
    \<Rightarrow> (registry, registry_error, candidate_record) action" where
  "promote wc H learning c m now reason =
     abind (register H c m now) (\<lambda>r.
       if cd_disposition r \<noteq> Quarantined then areturn r
       else let reasons = governed_reasons learning (cd_candidate r) (cd_manifest r) in
         if reasons \<noteq> [] then record_decision (lc_id c) reasons None None now []
         else case mf_prediction (cd_manifest r) of
            None \<Rightarrow> araise (Refused_By (Learning_Error ''AssertionError''))
          | Some p \<Rightarrow>
            (case advance wc \<lparr>pg_min_improvement = pp_minimum_effect p, pg_learning_enabled = learning\<rparr>
                    (cd_candidate r) ((move_to Promoted now)\<lparr>av_reason := reason\<rparr>) of
               Inl e \<Rightarrow> araise (Refused_By e)
             | Inr c' \<Rightarrow> record_decision (lc_id c) [] (Some c') (Some Disposed_Promoted) now []))"

definition rollback_candidate :: "(nat \<Rightarrow> bool) \<Rightarrow> string \<Rightarrow> int \<Rightarrow> string
    \<Rightarrow> (registry, registry_error, candidate_record) action" where
  "rollback_candidate wc i now reason =
     abind (get_record i) (\<lambda>r.
       if cd_disposition r = Disposed_Rolled_Back then areturn r
       else case rollback wc (cd_candidate r) now reason of
          Inl e \<Rightarrow> araise (Refused_By e)
        | Inr c' \<Rightarrow> record_decision i (case cd_decision r of None \<Rightarrow> [''rolled-back-before-promotion''] | Some d \<Rightarrow> d)
                      (Some c') (Some Disposed_Rolled_Back) now reason)"

datatype registry_call =
    Promote bool learning_candidate promotion_manifest int string
  | Roll_Back string int string

definition registry_step :: "(nat \<Rightarrow> bool) \<Rightarrow> (learning_candidate \<times> promotion_manifest \<Rightarrow> string) \<Rightarrow> registry_call
    \<Rightarrow> registry \<Rightarrow> registry" where
  "registry_step wc H x reg = (case x of
     Promote learning c m now why \<Rightarrow> fst (promote wc H learning c m now why reg)
   | Roll_Back i now why \<Rightarrow> fst (rollback_candidate wc i now why reg))"

end
