(* ===== verification/Learn_Governed.thy ===== *)
theory Learn_Governed
  imports Learn_Registry
begin

section \<open>Learning: a promoted record is governed\<close>

text \<open>
  Over every sequence of \<open>promote\<close> and \<open>rollback\<close> calls on one registry: what a promoted record
  stands on, and that manifests and digests are frozen while dispositions only move forward.
\<close>

definition governed :: "candidate_record \<Rightarrow> bool" where
  "governed r \<longleftrightarrow> (\<exists>p e pr.
     mf_prediction (cd_manifest r) = Some p \<and> mf_held_out (cd_manifest r) = Some e \<and>
     se_held_out e \<and> se_label e = Measured \<and> se_protected e \<and> score_less (pp_minimum_effect p) (delta e) \<and>
     mf_protected (cd_manifest r) \<and> strip (mf_dataset (cd_manifest r)) \<noteq> [] \<and> strip (mf_rollback (cd_manifest r)) \<noteq> [] \<and>
     lc_state (cd_candidate r) = Promoted \<and> lc_promotion (cd_candidate r) = Some pr \<and> pm_evaluation pr = e \<and>
     \<not> no_scope (pm_scope pr) \<and> \<not> no_provenance (pm_provenance pr) \<and> lc_findings (cd_candidate r) = [] \<and>
     cd_decision r = Some [])"

definition record_ok :: "(learning_candidate \<times> promotion_manifest \<Rightarrow> string) \<Rightarrow> string \<Rightarrow> candidate_record \<Rightarrow> bool" where
  "record_ok H i r \<longleftrightarrow> lc_id (cd_candidate r) = i \<and>
     (\<exists>c. cd_digest r = H (c, cd_manifest r) \<and> lc_id c = i \<and> lc_content c = lc_content (cd_candidate r)) \<and>
     (case cd_disposition r of
        Quarantined \<Rightarrow> cd_digest r = H (cd_candidate r, cd_manifest r)
      | Disposed_Promoted \<Rightarrow> governed r
      | Disposed_Rolled_Back \<Rightarrow> lc_state (cd_candidate r) = Rolled_Back)"

definition registry_ok :: "(learning_candidate \<times> promotion_manifest \<Rightarrow> string) \<Rightarrow> registry \<Rightarrow> bool" where
  "registry_ok H reg \<longleftrightarrow> (\<forall>i r. map_of reg i = Some r \<longrightarrow> record_ok H i r)"

fun stage :: "disposition \<Rightarrow> nat" where
  "stage Quarantined = 0"
| "stage Disposed_Promoted = 1"
| "stage Disposed_Rolled_Back = 2"

definition onward_record :: "candidate_record \<Rightarrow> candidate_record \<Rightarrow> bool" where
  "onward_record r r' \<longleftrightarrow> cd_manifest r' = cd_manifest r \<and> cd_digest r' = cd_digest r \<and> cd_created r' = cd_created r \<and>
     stage (cd_disposition r) \<le> stage (cd_disposition r') \<and>
     lc_content (cd_candidate r') = lc_content (cd_candidate r)"

definition registry_later :: "registry \<Rightarrow> registry \<Rightarrow> bool" where
  "registry_later reg reg' \<longleftrightarrow>
     (\<forall>i r. map_of reg i = Some r \<longrightarrow> (\<exists>r'. map_of reg' i = Some r' \<and> onward_record r r'))"

lemma onward_refl: "onward_record r r"
  by (simp add: onward_record_def)

lemma onward_trans: "onward_record r s \<Longrightarrow> onward_record s t \<Longrightarrow> onward_record r t"
  by (simp add: onward_record_def)

lemma later_refl: "registry_later reg reg"
  by (auto simp: registry_later_def intro: onward_refl)

lemma later_trans: "registry_later a b \<Longrightarrow> registry_later b c \<Longrightarrow> registry_later a c"
  unfolding registry_later_def by (metis onward_trans)

text \<open>Putting a record under an id: a new id, or an onward record of the old one.\<close>

lemma put_record:
  assumes "registry_ok H reg" and "record_ok H i r"
    and "\<And>old. map_of reg i = Some old \<Longrightarrow> onward_record old r"
  shows "registry_ok H (AList.update i r reg)" "registry_later reg (AList.update i r reg)"
  using assms by (auto simp: registry_ok_def registry_later_def update_conv' onward_refl)

subsection \<open>The governed gate\<close>

lemma score_not_le_less:
  "is_finite b \<Longrightarrow> is_finite a \<Longrightarrow> \<not> score_le a b \<longleftrightarrow> score_less b a"
  by (cases a; cases b) (auto simp: score_le_def is_finite_def)

lemma governed_reasons_empty:
  assumes "governed_reasons learning c m = []"
  shows "learning" "lc_state c = Shadow_Evaluated" "\<not> no_provenance (lc_provenance c)" "\<not> no_scope (lc_scope c)"
    "mf_protected m" "strip (mf_dataset m) \<noteq> []" "strip (mf_rollback m) \<noteq> []"
    "\<exists>p e. mf_prediction m = Some p \<and> mf_held_out m = Some e \<and> se_held_out e \<and> se_label e = Measured \<and>
       se_protected e \<and> lc_evaluation c = Some e"
  using assms by (auto simp: governed_reasons_def held_out_reasons_def split: if_splits option.splits)

text \<open>A promotion through the lifecycle gate with the predicted effect as its threshold.\<close>

lemma promotion_governs:
  assumes g: "governed_reasons learning (cd_candidate r) (cd_manifest r) = []"
    and p: "mf_prediction (cd_manifest r) = Some p"
    and adv: "advance wc \<lparr>pg_min_improvement = pp_minimum_effect p, pg_learning_enabled = learning\<rparr>
        (cd_candidate r) ((move_to Promoted now)\<lparr>av_reason := why\<rparr>) = Inr c'"
  shows "governed (r\<lparr>cd_candidate := c', cd_disposition := Disposed_Promoted, cd_decision := Some [],
      cd_updated := now, cd_rollback_reason := x\<rparr>)"
proof -
  let ?g = "\<lparr>pg_min_improvement = pp_minimum_effect p, pg_learning_enabled = learning\<rparr>"
  note gr = governed_reasons_empty [OF g]
  have to: "av_to ((move_to Promoted now)\<lparr>av_reason := why\<rparr>) = Promoted" by (simp add: move_to_def)
  from advance_promotes [OF adv to] obtain pr where elig: "gate_reasons ?g (cd_candidate r) = []"
    and j: "justifies ?g c' pr" by blast
  from gr(8) p obtain e where e: "mf_held_out (cd_manifest r) = Some e" "se_held_out e" "se_label e = Measured"
    "se_protected e" "lc_evaluation (cd_candidate r) = Some e" by auto
  have "lc_evaluation c' = Some e" using advance_evaluation [OF adv] to e(5) by simp
  then have ev: "pm_evaluation pr = e" using j by (simp add: justifies_def)
  have "lc_findings c' = []" using elig advance_findings [OF adv] to unfolding gate_empty by simp
  moreover have "lc_scope c' = lc_scope (cd_candidate r)" using advance_scope [OF adv] to by simp
  moreover note advance_state [OF adv]
  ultimately show ?thesis using gr e p ev j to by (simp add: governed_def justifies_def)
qed

subsection \<open>The operations\<close>

lemma register_ok:
  assumes "registry_ok H reg" and "register H c m now reg = (reg', res)"
  shows "registry_ok H reg' \<and> registry_later reg reg' \<and> (\<forall>r. res = Inr r \<longrightarrow> map_of reg' (lc_id c) = Some r)"
proof (cases "map_of reg (lc_id c)")
  case None
  let ?r = "\<lparr>cd_candidate = c, cd_manifest = m, cd_digest = H (c, m), cd_disposition = Quarantined,
    cd_decision = None, cd_created = now, cd_updated = now, cd_rollback_reason = []\<rparr>"
  have "record_ok H (lc_id c) ?r" by (auto simp: record_ok_def)
  from put_record [OF assms(1) this] None assms(2) show ?thesis
    using assms(1) by (auto simp: register_def manifest_digest_def Let_def update_conv' later_refl split: if_splits)
next
  case (Some old)
  then show ?thesis
    using assms by (auto simp: register_def Let_def later_refl split: sum.splits if_splits)
qed

lemma record_decision_eq:
  assumes "map_of reg i = Some r"
  shows "record_decision i d c disp now why reg =
    (let r' = r\<lparr>cd_candidate := (case c of None \<Rightarrow> cd_candidate r | Some c' \<Rightarrow> c'),
        cd_disposition := (case disp of None \<Rightarrow> cd_disposition r | Some x \<Rightarrow> x),
        cd_decision := Some d, cd_updated := now, cd_rollback_reason := why\<rparr> in (AList.update i r' reg, Inr r'))"
  using assms by (simp add: record_decision_def abind_def get_record_def)

lemma promote_ok:
  assumes ok: "registry_ok H reg"
  shows "registry_ok H (fst (promote wc H learning c m now why reg)) \<and>
    registry_later reg (fst (promote wc H learning c m now why reg))"
proof -
  obtain reg1 res where rg: "register H c m now reg = (reg1, res)" by (metis prod.exhaust)
  note r1 = register_ok [OF ok rg]
  show ?thesis
  proof (cases res)
    case (Inl e)
    with rg r1 show ?thesis by (simp add: promote_def)
  next
    case (Inr r)
    with r1 have at: "map_of reg1 (lc_id c) = Some r" by blast
    have rok: "record_ok H (lc_id c) r" using r1 at by (simp add: registry_ok_def)
    let ?rs = "governed_reasons learning (cd_candidate r) (cd_manifest r)"
    have reg_: "promote wc H learning c m now why reg =
      (if cd_disposition r \<noteq> Quarantined then areturn r
       else if ?rs \<noteq> [] then record_decision (lc_id c) ?rs None None now []
       else case mf_prediction (cd_manifest r) of
            None \<Rightarrow> araise (Refused_By (Learning_Error ''AssertionError''))
          | Some p \<Rightarrow>
            (case advance wc \<lparr>pg_min_improvement = pp_minimum_effect p, pg_learning_enabled = learning\<rparr>
                    (cd_candidate r) ((move_to Promoted now)\<lparr>av_reason := why\<rparr>) of
               Inl e \<Rightarrow> araise (Refused_By e)
             | Inr c' \<Rightarrow> record_decision (lc_id c) [] (Some c') (Some Disposed_Promoted) now [])) reg1"
      using rg Inr by (simp add: promote_def Let_def)
    consider (keep) "fst (promote wc H learning c m now why reg) = reg1"
      | (reject) "cd_disposition r = Quarantined"
          "fst (promote wc H learning c m now why reg) =
             AList.update (lc_id c) (r\<lparr>cd_disposition := Quarantined, cd_decision := Some ?rs, cd_updated := now, cd_rollback_reason := []\<rparr>) reg1"
      | (accept) p c' where "cd_disposition r = Quarantined" "?rs = []" "mf_prediction (cd_manifest r) = Some p"
          "advance wc \<lparr>pg_min_improvement = pp_minimum_effect p, pg_learning_enabled = learning\<rparr>
             (cd_candidate r) ((move_to Promoted now)\<lparr>av_reason := why\<rparr>) = Inr c'"
          "fst (promote wc H learning c m now why reg) = AList.update (lc_id c)
             (r\<lparr>cd_candidate := c', cd_disposition := Disposed_Promoted, cd_decision := Some [],
                cd_updated := now, cd_rollback_reason := []\<rparr>) reg1"
    proof (cases "cd_disposition r = Quarantined")
      case False
      then have "fst (promote wc H learning c m now why reg) = reg1" unfolding reg_ by simp
      then show thesis by (rule keep)
    next
      case q: True
      show thesis
      proof (cases "?rs = []")
        case False
        with q show thesis by (intro reject) (simp_all add: reg_ record_decision_eq [OF at] Let_def)
      next
        case e: True
        show thesis
        proof (cases "mf_prediction (cd_manifest r)")
          case None
          with q e have "fst (promote wc H learning c m now why reg) = reg1" unfolding reg_ by simp
          then show thesis by (rule keep)
        next
          case (Some p)
          show thesis
          proof (cases "advance wc \<lparr>pg_min_improvement = pp_minimum_effect p, pg_learning_enabled = learning\<rparr>
              (cd_candidate r) ((move_to Promoted now)\<lparr>av_reason := why\<rparr>)")
            case (Inl x)
            with q e Some have "fst (promote wc H learning c m now why reg) = reg1" unfolding reg_ by simp
            then show thesis by (rule keep)
          next
            case (Inr c')
            with q e Some show thesis
              by (intro accept [OF q e Some Inr]) (simp add: reg_ record_decision_eq [OF at] Let_def)
          qed
        qed
      qed
    qed
    then show ?thesis
    proof cases
      case keep
      with r1 show ?thesis by simp
    next
      case reject
      have "record_ok H (lc_id c) (r\<lparr>cd_disposition := Quarantined, cd_decision := Some ?rs, cd_updated := now, cd_rollback_reason := []\<rparr>)"
        using rok reject(1) by (auto simp: record_ok_def)
      from put_record [OF conjunct1 [OF r1] this] at reject r1 later_trans show ?thesis
        by (simp add: onward_record_def) blast
    next
      case accept
      let ?r = "r\<lparr>cd_candidate := c', cd_disposition := Disposed_Promoted, cd_decision := Some [],
                cd_updated := now, cd_rollback_reason := []\<rparr>"
      note st = advance_state [OF accept(4)]
      have "record_ok H (lc_id c) ?r"
        using rok promotion_governs [OF accept(2-4)] st by (simp add: record_ok_def)
      from put_record [OF conjunct1 [OF r1] this] at accept(1,5) st r1 later_trans show ?thesis
        by (simp add: onward_record_def) blast
    qed
  qed
qed

lemma rollback_ok:
  assumes ok: "registry_ok H reg"
  shows "registry_ok H (fst (rollback_candidate wc i now why reg)) \<and>
    registry_later reg (fst (rollback_candidate wc i now why reg))"
proof (cases "map_of reg i")
  case None
  then show ?thesis using ok by (simp add: rollback_candidate_def get_record_def abind_def later_refl)
next
  case (Some r)
  then have rok: "record_ok H i r" using ok by (simp add: registry_ok_def)
  consider (keep) "fst (rollback_candidate wc i now why reg) = reg"
    | (move) c' d where "rollback wc (cd_candidate r) now why = Inr c'"
        "fst (rollback_candidate wc i now why reg) = AList.update i
           (r\<lparr>cd_candidate := c', cd_disposition := Disposed_Rolled_Back, cd_decision := Some d,
              cd_updated := now, cd_rollback_reason := why\<rparr>) reg"
  proof (cases "cd_disposition r = Disposed_Rolled_Back")
    case True
    with Some have "fst (rollback_candidate wc i now why reg) = reg"
      by (simp add: rollback_candidate_def get_record_def abind_def)
    then show thesis by (rule keep)
  next
    case False
    show thesis
    proof (cases "rollback wc (cd_candidate r) now why")
      case (Inl e)
      with Some False have "fst (rollback_candidate wc i now why reg) = reg"
        by (simp add: rollback_candidate_def get_record_def abind_def)
      then show thesis by (rule keep)
    next
      case (Inr c')
      with Some False show thesis
        by (intro move [OF Inr]) (simp add: rollback_candidate_def get_record_def abind_def record_decision_eq [OF Some] Let_def)
    qed
  qed
  then show ?thesis
  proof cases
    case keep
    with ok later_refl show ?thesis by simp
  next
    case move
    note st = advance_state [OF move(1) [unfolded rollback_def]]
    have "record_ok H i (r\<lparr>cd_candidate := c', cd_disposition := Disposed_Rolled_Back, cd_decision := Some d,
              cd_updated := now, cd_rollback_reason := why\<rparr>)"
      using rok st by (simp add: record_ok_def move_to_def)
    from put_record [OF ok this] Some move(2) st show ?thesis
      by (cases "cd_disposition r") (simp_all add: onward_record_def)
  qed
qed

interpretation registry_calls: op_history "registry_step wc H" "registry_ok H" registry_later
  by unfold_locales
    (auto simp: registry_step_def promote_ok rollback_ok later_refl intro: later_trans split: registry_call.splits)

text \<open>
  C16: after any sequence of promotions and rollbacks a record counts as promoted only on a complete
  manifest: a registered prediction, a named dataset revision, a rollback pointer, and a measured
  held-out result, the very one its candidate was promoted with, that beats the prediction without a
  regression; a rolled-back record holds a rolled-back candidate; and whatever calls follow, an id
  keeps its manifest, its digest and its content, and its disposition never moves backwards.
\<close>

theorem promotion_is_governed:
  assumes "map_of (fold (registry_step wc H) xs []) i = Some r"
  shows "(cd_disposition r = Disposed_Promoted \<longrightarrow> governed r) \<and>
    (cd_disposition r = Disposed_Rolled_Back \<longrightarrow> lc_state (cd_candidate r) = Rolled_Back) \<and>
    (\<exists>r'. map_of (fold (registry_step wc H) (xs @ ys) []) i = Some r' \<and> onward_record r r')"
proof -
  have start: "registry_ok H []" by (simp add: registry_ok_def)
  have "record_ok H i r"
    using registry_calls.session_good [OF start, of wc xs] assms by (simp add: registry_ok_def)
  moreover have "\<exists>r'. map_of (fold (registry_step wc H) (xs @ ys) []) i = Some r' \<and> onward_record r r'"
    using registry_calls.session_middle [OF start, of wc xs ys] assms by (simp add: registry_later_def)
  ultimately show ?thesis by (auto simp: record_ok_def split: disposition.splits)
qed

end
