(* ===== verification/Learn_Witnesses.thy ===== *)
theory Learn_Witnesses
  imports Learn_Activation Learn_Governed
begin

section \<open>Learning: witnesses\<close>

text \<open>
  A lesson of one character that travels the whole life cycle, is ingested, activated and promoted by the
  governed service, and a text with an invisible character that the sanitizer refuses.
\<close>

definition wl_word :: "nat \<Rightarrow> bool" where
  "wl_word c \<longleftrightarrow> 97 \<le> c \<and> c \<le> 122"

definition wl_scope :: scope where
  "wl_scope = \<lparr>sc_repos = [''r*''], sc_branches = [], sc_paths = [], sc_languages = [], sc_tasks = []\<rparr>"

definition wl_provenance :: provenance where
  "wl_provenance = \<lparr>pv_traces = [''t''], pv_artifacts = []\<rparr>"

definition wl_evidence :: shadow_evaluation where
  "wl_evidence = \<lparr>se_candidate = Fin 1, se_control = Fin 0, se_size = 3, se_protected = True, se_label = Measured,
     se_held_out = True\<rparr>"

definition wl_observed :: learning_candidate where
  "wl_observed = \<lparr>lc_id = ''abc'', lc_kind = Repo_Fact, lc_content = [200], lc_provenance = wl_provenance,
     lc_scope = wl_scope, lc_state = Observed, lc_version = 0, lc_findings = [], lc_evaluation = None,
     lc_promotion = None, lc_refresh = \<lparr>rf_expires = None, rf_interval = None\<rparr>, lc_created = 0, lc_updated = 0\<rparr>"

definition wl_shadow :: learning_candidate where
  "wl_shadow = wl_observed\<lparr>lc_state := Shadow_Evaluated, lc_evaluation := Some wl_evidence\<rparr>"

definition wl_record :: promotion_record where
  "wl_record = \<lparr>pm_version = 1, pm_evaluation = wl_evidence, pm_provenance = wl_provenance, pm_scope = wl_scope,
     pm_at = 0, pm_reason = []\<rparr>"

definition wl_promoted :: learning_candidate where
  "wl_promoted = wl_shadow\<lparr>lc_state := Promoted, lc_version := 1, lc_promotion := Some wl_record\<rparr>"

lemmas wl_pattern = words_i_def lit_i_def lit_def any_case_def code_of_def in_ranges_def sp_def sp0_def some_of_def
  spaces_def opt_def plurals_def quotes_def one_of_def at_least_def alnum_i_def alnum_def shell_name_def

lemma can_empty_exactly: "0 < n \<Longrightarrow> can_empty (exactly n r) = can_empty r"
proof (induction n)
  case (Suc n)
  then show ?case by (cases n) (auto simp: exactly_def)
qed simp

lemma can_start_exactly: "0 < n \<Longrightarrow> \<not> can_start wc r c \<Longrightarrow> \<not> can_start wc (exactly n r) c"
proof (induction n)
  case (Suc n)
  then show ?case by (cases n) (auto simp: exactly_def)
qed simp

lemma wl_no_start:
  "list_all (\<lambda>(r, _). \<not> can_empty r \<and> \<not> can_start wl_word r 200) scan_rules"
proof -
  note parts = wl_pattern can_empty_exactly can_start_exactly wl_word_def
  have "\<not> can_empty inj_override \<and> \<not> can_start wl_word inj_override 200" by (simp add: inj_override_def parts)
  moreover have "\<not> can_empty inj_persona \<and> \<not> can_start wl_word inj_persona 200" by (simp add: inj_persona_def parts)
  moreover have "\<not> can_empty inj_template \<and> \<not> can_start wl_word inj_template 200" by (simp add: inj_template_def parts)
  moreover have "\<not> can_empty inj_zero_width \<and> \<not> can_start wl_word inj_zero_width 200" by (simp add: inj_zero_width_def parts)
  moreover have "\<not> can_empty inj_bidi \<and> \<not> can_start wl_word inj_bidi 200" by (simp add: inj_bidi_def parts)
  moreover have "\<not> can_empty inj_tag \<and> \<not> can_start wl_word inj_tag 200" by (simp add: inj_tag_def parts)
  moreover have "\<not> can_empty inj_exec_fetch \<and> \<not> can_start wl_word inj_exec_fetch 200" by (simp add: inj_exec_fetch_def parts)
  moreover have "\<not> can_empty sec_raw \<and> \<not> can_start wl_word sec_raw 200" by (simp add: sec_raw_def parts)
  moreover have "\<not> can_empty sec_token \<and> \<not> can_start wl_word sec_token 200" by (simp add: sec_token_def parts)
  ultimately show ?thesis by (simp add: scan_rules_def)
qed

lemma wl_clean: "scan_content wl_word [200] = []"
  unfolding scan_clean_iff
proof
  fix r assume r: "r \<in> set scan_rules"
  obtain p meta where p: "r = (p, meta)" by (cases r)
  have "\<not> can_empty p \<and> \<not> can_start wl_word p 200" using wl_no_start r p by (auto simp: list_all_iff)
  then have "find_all wl_word p (None, [200]) = []" by (intro find_all_no_start) simp_all
  then show "rule_findings wl_word [200] r = []" using rule_findings_iff p by blast
qed

lemma wl_valid:
  assumes "lc_id c = ''abc''" and "lc_content c = [200]" and "0 \<le> lc_version c"
  shows "make_candidate c = Inr c"
proof -
  have "id_ok ''abc''" by code_simp
  moreover have "list_ex (\<lambda>x. \<not> in_ranges spaces x) [200]" by (simp add: in_ranges_def spaces_def)
  ultimately show ?thesis using assms by (simp add: make_candidate_def)
qed

lemma wl_improves: "score_less (Fin 0) (delta wl_evidence)"
  by (simp add: delta_def wl_evidence_def)

lemma wl_drives: "drive_to_shadow wl_word default_gate wl_observed (Some wl_evidence) 0 = Inr wl_shadow"
  by (simp add: drive_to_shadow_def forward_to_shadow_def drive_step_def forward_event_def move_to_def advance_def
      Let_def is_legal_transition_def is_sanitized_clean_def revalidate_def wl_valid wl_clean no_scope_def wl_scope_def
      wl_observed_def wl_shadow_def)

lemma wl_eligible: "lc_state c = Shadow_Evaluated \<Longrightarrow> lc_findings c = [] \<Longrightarrow> lc_scope c = wl_scope \<Longrightarrow>
    lc_evaluation c = Some wl_evidence \<Longrightarrow> pg_min_improvement g = Fin 0 \<Longrightarrow> pg_learning_enabled g \<Longrightarrow> gate_reasons g c = []"
  unfolding gate_empty using wl_improves by (simp add: no_scope_def wl_scope_def wl_evidence_def)

lemma wl_advances:
  assumes "pg_min_improvement g = Fin 0" and "pg_learning_enabled g"
  shows "advance wl_word g wl_shadow ((move_to Promoted 0)\<lparr>av_reason := []\<rparr>) = Inr wl_promoted"
proof -
  have "gate_reasons g wl_shadow = []"
    by (intro wl_eligible assms) (simp_all add: wl_shadow_def wl_observed_def)
  then show ?thesis
    by (simp add: advance_def Let_def is_legal_transition_def move_to_def promote_now_def make_promotion_record_def
        revalidate_def wl_valid wl_shadow_def wl_observed_def wl_promoted_def wl_record_def)
qed

lemma wl_reaches: "\<exists>n. reaches wl_word default_gate wl_observed n wl_promoted"
proof -
  obtain n where "reaches wl_word default_gate wl_observed n wl_shadow"
    using drive_reaches_shadow [OF wl_drives] by blast
  from reaches.step [OF this wl_advances] show ?thesis by (auto simp: default_gate_def)
qed

lemma wl_is_active: "is_active wl_promoted t"
  by (simp add: is_active_def wl_promoted_def wl_shadow_def wl_observed_def is_expired_def)

theorem clean_content_has_no_payload_witness: "\<not> is_clean wl_word ([200] @ [8203] @ [111])"
proof -
  have "boundary_free inj_zero_width" by (simp add: inj_zero_width_def)
  moreover have "(inj_zero_width, ''LRN-INJ-004'', ''medium'', ''Zero-width Unicode character'',
      ''Invisible zero-width characters can hide a steganographic injection.'') \<in> set scan_rules"
    unfolding scan_rules_def list.set by (intro insertI1 insertI2)
  ultimately have "(inj_zero_width, ''LRN-INJ-004'', ''medium'', ''Zero-width Unicode character'',
      ''Invisible zero-width characters can hide a steganographic injection.'') \<in> set plain_rules"
    unfolding plain_rules_def by (simp del: insert_iff)
  moreover have "accepts wl_word inj_zero_width [8203]" by (simp add: inj_zero_width_def in_ranges_def)
  ultimately show ?thesis by (rule clean_content_has_no_payload)
qed

theorem active_learning_is_proven_witness:
  "scan_content wl_word [200] = [] \<and> (\<exists>p. justifies default_gate wl_promoted p)"
proof -
  obtain n where r: "reaches wl_word default_gate wl_observed n wl_promoted" using wl_reaches ..
  have "lc_state wl_observed \<in> {Observed, Candidate}" by (simp add: wl_observed_def)
  from active_learning_is_proven [OF this r wl_is_active [of 0]] show ?thesis by (simp add: wl_observed_def)
qed

theorem lifecycle_terminates_witness:
  "\<exists>n c'. reaches wl_word default_gate wl_observed n wl_promoted \<and> n \<le> 5 \<and>
     rollback wl_word wl_promoted 9 ''why'' = Inr c' \<and> lc_state c' = Rolled_Back"
proof -
  obtain n where r: "reaches wl_word default_gate wl_observed n wl_promoted" using wl_reaches ..
  have "make_candidate wl_promoted = Inr wl_promoted"
    by (intro wl_valid) (simp_all add: wl_promoted_def wl_shadow_def wl_observed_def)
  moreover have "lc_state wl_promoted = Promoted" by (simp add: wl_promoted_def)
  moreover have "lc_state wl_observed = Observed" by (simp add: wl_observed_def)
  moreover note lifecycle_terminates [OF r]
  ultimately have "n \<le> 5" "\<exists>c'. rollback wl_word wl_promoted 9 ''why'' = Inr c' \<and> lc_state c' = Rolled_Back"
    by (simp, simp) blast
  with r show ?thesis by blast
qed

subsection \<open>Ingestion and activation\<close>

definition wl_sink :: "ingested_memory list memory_sink" where
  "wl_sink = \<lparr>sk_write = (\<lambda>m w. (w @ [m], Inr (im_id m))), sk_remove = (\<lambda>i w. (w, Inr True))\<rparr>"

lemma wl_enabled: "is_learning_enabled None"
  by code_simp

lemma wl_ingests:
  "ingest wl_word default_gate wl_sink None 0 wl_observed (Some wl_evidence) [] ([], [])
     = (([(''abc'', wl_promoted)], [memory_of wl_promoted wl_record]),
        Inr \<lparr>ir_ingested = True, ir_candidate = wl_promoted, ir_decision = [], ir_memory_id = Some ''abc'', ir_reasons = []\<rparr>)"
proof -
  have "gate_reasons default_gate wl_shadow = []"
    by (intro wl_eligible) (simp_all add: wl_shadow_def wl_observed_def default_gate_def)
  moreover have "advance wl_word default_gate wl_shadow ((move_to Promoted 0)\<lparr>av_reason := []\<rparr>) = Inr wl_promoted"
    by (rule wl_advances) (simp_all add: default_gate_def)
  moreover have "lc_promotion wl_promoted = Some wl_record" "lc_id wl_promoted = ''abc''"
    by (simp_all add: wl_promoted_def wl_shadow_def wl_observed_def)
  ultimately show ?thesis by (simp add: ingest_def wl_enabled wl_drives wl_sink_def memory_of_def)
qed

theorem ingest_writes_only_promoted_witness:
  "\<exists>q p. [memory_of wl_promoted wl_record] = fst (sk_write wl_sink (memory_of q p) []) \<and> justifies default_gate q p \<and>
     scan_content wl_word [200] = []"
  using ingest_writes_only_promoted [OF wl_ingests, of 0]
  by (auto simp: wl_observed_def)

theorem activation_is_exact_witness: "require_promoted wl_promoted 5 None None = Inr wl_record"
proof -
  have "activatable wl_promoted 5 None wl_record"
    using wl_is_active [of 5]
    by (simp add: activatable_def wl_promoted_def wl_shadow_def wl_observed_def wl_record_def no_scope_def wl_scope_def
        no_provenance_def wl_provenance_def)
  with wl_enabled activation_is_exact [of wl_promoted 5 None None wl_record] show ?thesis by simp
qed

subsection \<open>Governed promotion\<close>

definition wl_manifest :: promotion_manifest where
  "wl_manifest = \<lparr>mf_prediction = Some \<lparr>pp_component = Memory_Store, pp_metric = ''m'', pp_minimum_effect = Fin 0,
     pp_task_slice = ''s'', pp_risk = ''r''\<rparr>, mf_dataset = ''d'', mf_held_out = Some wl_evidence, mf_protected = True,
     mf_rollback = ''b'', mf_schema = ''1''\<rparr>"

definition wl_calls :: "registry_call list" where
  "wl_calls = [Promote True wl_shadow wl_manifest 0 []]"

lemma wl_governed_reasons: "governed_reasons True wl_shadow wl_manifest = []"
proof -
  have "strip ''d'' \<noteq> []" "strip ''b'' \<noteq> []" by code_simp+
  moreover have "\<not> score_le (delta wl_evidence) (Fin 0)" by (simp add: score_le_def delta_def wl_evidence_def)
  ultimately show ?thesis
    by (simp add: governed_reasons_def held_out_reasons_def wl_manifest_def wl_shadow_def wl_observed_def
        no_provenance_def wl_provenance_def no_scope_def wl_scope_def wl_evidence_def)
qed

lemma wl_promotes: "\<exists>r. map_of (fold (registry_step wl_word (\<lambda>x. ''h'')) wl_calls []) ''abc'' = Some r \<and>
    cd_disposition r = Disposed_Promoted"
proof -
  have "manifest_digest (\<lambda>x. ''h'') wl_shadow wl_manifest = Inr ''h''"
    by (simp add: manifest_digest_def finite_evaluation_def is_finite_def wl_shadow_def wl_observed_def wl_manifest_def
        wl_evidence_def)
  moreover have "lc_id wl_shadow = ''abc''" by (simp add: wl_shadow_def wl_observed_def)
  moreover have "mf_prediction wl_manifest = Some \<lparr>pp_component = Memory_Store, pp_metric = ''m'',
      pp_minimum_effect = Fin 0, pp_task_slice = ''s'', pp_risk = ''r''\<rparr>" by (simp add: wl_manifest_def)
  moreover have "advance wl_word \<lparr>pg_min_improvement = Fin 0, pg_learning_enabled = True\<rparr> wl_shadow
      ((move_to Promoted 0)\<lparr>av_reason := []\<rparr>) = Inr wl_promoted" by (rule wl_advances) simp_all
  ultimately show ?thesis
    by (simp add: wl_calls_def registry_step_def promote_def register_def abind_def Let_def wl_governed_reasons
        record_decision_def get_record_def)
qed

theorem promotion_is_governed_witness:
  "\<exists>r. map_of (fold (registry_step wl_word (\<lambda>x. ''h'')) wl_calls []) ''abc'' = Some r \<and> governed r"
proof -
  obtain r where r: "map_of (fold (registry_step wl_word (\<lambda>x. ''h'')) wl_calls []) ''abc'' = Some r"
    "cd_disposition r = Disposed_Promoted" using wl_promotes by blast
  from promotion_is_governed [OF r(1), of "[]"] r show ?thesis by blast
qed

end
