(* ===== verification/Broker_Types.thy ===== *)
theory Broker_Types
  imports Broker_Model
begin

section \<open>The types of actions and capabilities\<close>

text \<open>
  What an action or a capability of a type carries, written out; whatever passes the constructors'
  checks carries it, so a match never meets a field its type lacks.
\<close>

definition bare :: "broker_action \<Rightarrow> bool" where
  "bare a \<longleftrightarrow> ac_argv a = [] \<and> ac_path a = None \<and> ac_host a = None \<and> ac_port a = None"

fun action_typed :: "action_type \<Rightarrow> broker_action \<Rightarrow> bool" where
  "action_typed A_Tool a = (bare a \<and> ac_resource a \<noteq> [] \<and> ac_amount a = None)"
| "action_typed A_Secret a = (bare a \<and> ac_resource a \<noteq> [] \<and> ac_amount a = None)"
| "action_typed A_Deployment a = (bare a \<and> ac_resource a \<noteq> [] \<and> ac_amount a = None)"
| "action_typed A_Budget a = (bare a \<and> ac_resource a \<noteq> [] \<and> amount_ok (ac_amount a))"
| "action_typed A_Command a = (ac_argv a \<noteq> [] \<and> argv_ok (ac_argv a) \<and> ac_resource a = [] \<and> ac_path a = None
     \<and> ac_host a = None \<and> ac_port a = None \<and> ac_amount a = None)"
| "action_typed A_Filesystem a = ((case ac_path a of None \<Rightarrow> False | Some p \<Rightarrow> p \<noteq> [] \<and> nul \<notin> set p) \<and> ac_resource a = []
     \<and> ac_argv a = [] \<and> ac_host a = None \<and> ac_port a = None \<and> ac_amount a = None)"
| "action_typed A_Network a = (ac_host a \<noteq> None \<and> (case ac_port a of None \<Rightarrow> True | Some p \<Rightarrow> port_ok p) \<and> ac_resource a = []
     \<and> ac_argv a = [] \<and> ac_path a = None \<and> ac_amount a = None)"

fun capability_typed :: "action_type \<Rightarrow> capability \<Rightarrow> bool" where
  "capability_typed A_Command c = (cb_commands c \<noteq> [] \<and> cb_resources c = [] \<and> cb_paths c = [] \<and> cb_networks c = [] \<and> cb_max_amount c = None)"
| "capability_typed A_Filesystem c = (cb_paths c \<noteq> [] \<and> cb_resources c = [] \<and> cb_commands c = [] \<and> cb_networks c = [] \<and> cb_max_amount c = None)"
| "capability_typed A_Network c = (cb_networks c \<noteq> [] \<and> cb_resources c = [] \<and> cb_commands c = [] \<and> cb_paths c = [] \<and> cb_max_amount c = None)"
| "capability_typed A_Budget c = (cb_resources c \<noteq> [] \<and> cb_commands c = [] \<and> cb_paths c = [] \<and> cb_networks c = [] \<and> amount_ok (cb_max_amount c))"
| "capability_typed t c = (cb_resources c \<noteq> [] \<and> cb_commands c = [] \<and> cb_paths c = [] \<and> cb_networks c = [] \<and> cb_max_amount c = None)"

lemma no_unexpected: "unexpected_fields present allowed = [] \<longleftrightarrow> set present \<subseteq> set allowed"
proof -
  have "sort xs = [] \<longleftrightarrow> xs = []" for xs :: "string list" by (metis set_empty set_sort)
  then show ?thesis by (auto simp: unexpected_fields_def filter_empty_conv)
qed

lemma set_frozenset [simp]: "set (frozenset xs) = set xs"
  by (simp add: frozenset_def)

lemma frozenset_empty: "frozenset xs = [] \<longleftrightarrow> xs = []"
  by (metis set_frozenset set_empty)

lemma made_action_typed: "make_action w a = Inr b \<Longrightarrow> action_typed (ac_type b) b"
  by (cases "ac_type a")
    (auto simp: make_action_def result_simps Let_def no_unexpected present_fields_def bare_def nonempty_def
      split: option.splits if_splits)

lemma made_capability_typed: "make_capability c = Inr d \<Longrightarrow> capability_typed (cb_type d) d"
  by (cases "cb_type c")
    (auto simp: make_capability_def result_simps Let_def no_unexpected capability_present_def frozenset_empty split: if_splits)

text \<open>
  C36: An action or a capability that passes its constructor's checks carries exactly the fields of its
  type, well formed, and no other: a command has an argv, a file action a path, a network action a
  host and a legal port, the others a resource and only a budget an amount; a capability has the rules
  of its own type only.
\<close>

theorem made_values_are_typed:
  assumes "make_action w a = Inr b" "make_capability c = Inr d"
  shows "action_typed (ac_type b) b \<and> capability_typed (cb_type d) d"
  using assms by (simp add: made_action_typed made_capability_typed)

definition plain_host :: host_world where
  "plain_host = \<lparr>hw_resolve = (\<lambda>p. [p]), hw_ip = (\<lambda>s. None), hw_ip_text = (\<lambda>a. []), hw_net = (\<lambda>s. None),
     hw_net_text = (\<lambda>n. []), hw_idna = (\<lambda>s. Some s)\<rparr>"

theorem made_values_are_typed_witness:
  "action_typed A_Command ((blank_action A_Command ''execute'')\<lparr>ac_argv := [''ls'']\<rparr>)
   \<and> capability_typed A_Command \<lparr>cb_type = A_Command, cb_operations = [''execute''], cb_resources = [],
       cb_commands = [\<lparr>cr_argv = [''ls''], cr_exact = True\<rparr>], cb_paths = [], cb_networks = [], cb_max_amount = None, cb_verifier = False\<rparr>"
proof -
  have "make_action plain_host ((blank_action A_Command ''execute'')\<lparr>ac_argv := [''ls'']\<rparr>)
      = Inr ((blank_action A_Command ''execute'')\<lparr>ac_argv := [''ls'']\<rparr>)"
    by code_simp
  moreover have "make_capability \<lparr>cb_type = A_Command, cb_operations = [''execute''], cb_resources = [],
       cb_commands = [\<lparr>cr_argv = [''ls''], cr_exact = True\<rparr>], cb_paths = [], cb_networks = [], cb_max_amount = None, cb_verifier = False\<rparr>
     = Inr \<lparr>cb_type = A_Command, cb_operations = [''execute''], cb_resources = [],
       cb_commands = [\<lparr>cr_argv = [''ls''], cr_exact = True\<rparr>], cb_paths = [], cb_networks = [], cb_max_amount = None, cb_verifier = False\<rparr>"
    by code_simp
  ultimately show ?thesis
    using made_values_are_typed [of plain_host "(blank_action A_Command ''execute'')\<lparr>ac_argv := [''ls'']\<rparr>"]
    by (fastforce simp: blank_action_def)
qed

end
