(* ===== verification/Loop_Model.thy ===== *)
theory Loop_Model
  imports Py_Glob
begin

section \<open>Loop: data, routing and the gates of an iteration\<close>

text \<open>
  \<open>loop/models.py\<close>, \<open>loop/trajectory_router.py\<close>, \<open>loop/checkpoint.py\<close> and the pure part of
  \<open>loop/engine.py\<close>.  SHA-256 is a parameter.  In the texts a dash beyond Latin-1 is a hyphen.  The
  shadow model advice attached to a receipt is not modelled: no decision of the loop reads it.
\<close>

subsection \<open>Data\<close>

record loop_spec =
  ls_goal :: string
  ls_success :: string

datatype loop_outcome = Loop_Win | Loop_Loss

datatype route_action = Route_Start | Route_Continue | Route_Escalate

fun route_action_value :: "route_action \<Rightarrow> string" where
  "route_action_value Route_Start = ''start''"
| "route_action_value Route_Continue = ''continue''"
| "route_action_value Route_Escalate = ''escalate''"

record route_decision =
  rd_iteration :: int
  rd_action :: route_action
  rd_level :: int
  rd_reset :: bool
  rd_confidence :: rat
  rd_rationale :: string
  rd_signals :: "string list"

record iteration_contract =
  ic_iteration :: int
  ic_prediction :: string
  ic_action :: string
  ic_files :: "string list"
  ic_passed :: bool
  ic_output :: string
  ic_outcome :: loop_outcome
  ic_tokens :: "int option"
  ic_route :: "route_decision option"

record loop_config =
  lc_max_iterations :: int
  lc_budget_tokens :: "int option"
  lc_verify :: string
  lc_escalation_threshold :: int
  lc_no_progress_window :: int
  lc_max_cost :: "rat option"
  lc_max_wall :: "int option"
  lc_duplicate_limit :: int
  lc_repeated_error_limit :: int
  lc_no_change_limit :: int
  lc_isolate :: bool
  lc_allowed :: "string list"
  lc_protected :: "string list"

definition default_loop_config :: loop_config where
  "default_loop_config = \<lparr>lc_max_iterations = 10, lc_budget_tokens = None, lc_verify = ''pytest'',
     lc_escalation_threshold = 3, lc_no_progress_window = 3, lc_max_cost = None, lc_max_wall = None,
     lc_duplicate_limit = 0, lc_repeated_error_limit = 0, lc_no_change_limit = 2, lc_isolate = False,
     lc_allowed = [], lc_protected = []\<rparr>"

record agent_run =
  ag_output :: string
  ag_prediction :: string
  ag_files :: "string list"
  ag_tokens :: "int option"
  ag_cost :: "rat option"
  ag_error :: "string option"

record verify_outcome =
  vo_passed :: bool
  vo_output :: string

datatype loop_stop = Stop_Converged | Stop_Max_Iterations | Stop_Budget | Stop_No_Progress | Stop_Cost
  | Stop_Wall_Time | Stop_Duplicate_Action | Stop_Repeated_Error | Stop_Verifier_Unavailable
  | Stop_No_Changes | Stop_Aborted | Stop_Agent_Error | Stop_Agent_Unavailable | Stop_Agent_Credentials

fun loop_stop_value :: "loop_stop \<Rightarrow> string" where
  "loop_stop_value Stop_Converged = ''converged''"
| "loop_stop_value Stop_Max_Iterations = ''max-iterations''"
| "loop_stop_value Stop_Budget = ''budget''"
| "loop_stop_value Stop_No_Progress = ''no-progress''"
| "loop_stop_value Stop_Cost = ''cost''"
| "loop_stop_value Stop_Wall_Time = ''wall-time''"
| "loop_stop_value Stop_Duplicate_Action = ''duplicate-action''"
| "loop_stop_value Stop_Repeated_Error = ''repeated-error''"
| "loop_stop_value Stop_Verifier_Unavailable = ''verifier-unavailable''"
| "loop_stop_value Stop_No_Changes = ''no-changes''"
| "loop_stop_value Stop_Aborted = ''aborted''"
| "loop_stop_value Stop_Agent_Error = ''agent-error''"
| "loop_stop_value Stop_Agent_Unavailable = ''agent-unavailable''"
| "loop_stop_value Stop_Agent_Credentials = ''agent-credentials''"

definition line_feed :: string where
  "line_feed = [CHR 0x0A]"

subsection \<open>Routing\<close>

record trajectory_signals =
  ts_iteration :: int
  ts_level :: int
  ts_losses :: int
  ts_threshold :: int
  ts_noops :: int
  ts_same_error :: int
  ts_tokens :: int
  ts_cost :: rat
  ts_last_loss :: "iteration_contract option"

text \<open>\<open>f"{x:.4f}"\<close> of a positive number.\<close>

definition show_fixed4 :: "rat \<Rightarrow> string" where
  "show_fixed4 x = (let n = nat (round_half_even (x * 10000)) in show_nat (n div 10000) @ ''.'' @ pad_nat 4 (n mod 10000))"

definition observed_signals :: "trajectory_signals \<Rightarrow> string list" where
  "observed_signals s = (let threshold = max (ts_threshold s) 1 in
     (if ts_losses s \<ge> threshold then [show_int (ts_losses s) @ '' consecutive losses reached threshold'']
      else if ts_losses s > 0 then [show_int (ts_losses s) @ ''/'' @ show_int threshold @ '' consecutive losses''] else [])
     @ (if ts_noops s > 0 then [''previous verifier pass was vacuous because no net change was observed''] else [])
     @ (if ts_same_error s \<ge> 2 then [show_int (ts_same_error s) @ '' repeated verifier-error heads''] else [])
     @ (case ts_last_loss s of None \<Rightarrow> []
        | Some l \<Rightarrow>
            (if length (ic_files l) \<ge> 6 then [''last failed episode touched '' @ show_nat (length (ic_files l)) @ '' files''] else [])
            @ (case ic_tokens l of None \<Rightarrow> []
               | Some t \<Rightarrow> if t \<ge> 8000 then [''last failed episode spent '' @ show_int t @ '' tokens''] else []))
     @ (if ts_cost s > 0 then [''observed cost $'' @ show_fixed4 (ts_cost s)]
        else if ts_tokens s > 0 then [''observed '' @ show_int (ts_tokens s) @ '' tokens''] else []))"

definition strong_live_signal :: "trajectory_signals \<Rightarrow> iteration_contract \<Rightarrow> bool" where
  "strong_live_signal s l \<longleftrightarrow> ts_noops s > 0 \<or> ts_same_error s \<ge> 2
     \<or> (case ic_tokens l of None \<Rightarrow> False | Some t \<Rightarrow> t \<ge> 8000 \<and> ic_outcome l = Loop_Loss)
     \<or> length (ic_files l) \<ge> 6"

definition route_next_iteration :: "trajectory_signals \<Rightarrow> route_decision" where
  "route_next_iteration s =
     (case ts_last_loss s of
        None \<Rightarrow> \<lparr>rd_iteration = ts_iteration s, rd_action = Route_Start, rd_level = ts_level s, rd_reset = False,
                 rd_confidence = 0, rd_rationale = ''no prior episode; start at the requested model tier'', rd_signals = []\<rparr>
      | Some l \<Rightarrow>
          (let observed = observed_signals s; threshold = max (ts_threshold s) 1;
               threshold_hit = ts_losses s \<ge> threshold in
           if threshold_hit \<or> strong_live_signal s l then
             (let reasons = (if observed = [] then [''loss threshold reached''] else observed) in
              \<lparr>rd_iteration = ts_iteration s, rd_action = Route_Escalate, rd_level = ts_level s + 1, rd_reset = True,
               rd_confidence = (if threshold_hit then 72 / 100 else 58 / 100), rd_rationale = join ''; '' reasons,
               rd_signals = reasons\<rparr>)
           else
             \<lparr>rd_iteration = ts_iteration s, rd_action = Route_Continue, rd_level = ts_level s, rd_reset = False,
              rd_confidence = 45 / 100,
              rd_rationale = ''observed '' @ show_int (ts_losses s) @ ''/'' @ show_int threshold
                @ '' loss(es); continue current episode before escalating'',
              rd_signals = observed\<rparr>))"

text \<open>\<open>f"{confidence:.2f}"\<close>.\<close>

definition show_fixed2 :: "rat \<Rightarrow> string" where
  "show_fixed2 x = (let n = nat (round_half_even (x * 100)) in show_nat (n div 100) @ ''.'' @ pad_nat 2 (n mod 100))"

definition render_route_prompt :: "route_decision \<Rightarrow> string" where
  "render_route_prompt d =
     (if rd_action d = Route_Start then []
      else ''## ONMC routing decision'' @ line_feed @ line_feed @ ''Action: '' @ route_action_value (rd_action d) @ ''; escalation_level=''
        @ show_int (rd_level d) @ ''; confidence='' @ show_fixed2 (rd_confidence d) @ ''.'' @ line_feed
        @ ''Basis: '' @ rd_rationale d @ line_feed)"

subsection \<open>What changed\<close>

text \<open>\<open>_files_from_git_status\<close>; a frozen set is its list in order.\<close>

definition status_path :: "string \<Rightarrow> string option" where
  "status_path line =
     (if starts_with line ''##'' \<or> length line < 4 then None
      else let path = strip (drop 3 line);
               path' = (case after_first '' -> '' path of None \<Rightarrow> path | Some new \<Rightarrow> strip new)
           in if path' = [] then None else Some path')"

definition files_from_git_status :: "string \<Rightarrow> string list" where
  "files_from_git_status status = sort (dedup (List.map_filter status_path (splitlines status)))"

definition changed_files_delta :: "string option \<Rightarrow> string option \<Rightarrow> string list" where
  "changed_files_delta pre post =
     (case post of None \<Rightarrow> []
      | Some p \<Rightarrow> (let before = splitlines (get_or [] pre) in
          files_from_git_status (join line_feed (filter (\<lambda>line. line \<notin> set before) (splitlines p)))))"

definition scope_violations :: "string list \<Rightarrow> string list \<Rightarrow> string list \<Rightarrow> string list" where
  "scope_violations changed allowed protected =
     (if protected = [] then []
      else map (\<lambda>p. ''protected file modified: '' @ py_repr p) (filter (\<lambda>p. list_ex (\<lambda>g. glob g p) protected) changed))
     @ (if allowed = [] then []
        else map (\<lambda>p. ''out-of-scope file modified: '' @ py_repr p @ '' (not in allowed_paths)'')
               (filter (\<lambda>p. \<not> list_ex (\<lambda>g. glob g p) allowed) changed))"

definition scope_violation :: "string list \<Rightarrow> string list \<Rightarrow> string list \<Rightarrow> string option" where
  "scope_violation changed allowed protected =
     (let vs = scope_violations changed allowed protected in if vs = [] then None else Some (join ''; '' vs))"

subsection \<open>Why an iteration failed\<close>

definition env_patterns :: "string list" where
  "env_patterns = [''permission denied'', ''permission approval'', ''pending permission'', ''file-write blocked'',
     ''file-writes blocked'', ''not granted'', ''network error'', ''network timeout'', ''connection error'',
     ''connection refused'', ''connection reset'', ''connection timed out'', ''read timed out'', ''request timed out'',
     ''rate limit'', ''rate-limit'', ''too many requests'', ''http 429'', ''status 429'', ''status code 429'', ''error 429'',
     ''429 too many requests'', ''out of memory'', '' oom'', ''command not found'',
     ''env: pytest: no such file or directory'', ''executable file not found'', ''[agent-error]'', ''[scope-unverifiable]'']"

text \<open>\<open>_classify_failure_cause\<close> answers \<open>environment\<close>.\<close>

definition environment_failure :: "string \<Rightarrow> bool" where
  "environment_failure output = list_ex (contains (lower output)) env_patterns"

definition permission_block_markers :: "string list" where
  "permission_block_markers = [''blocked pending your approval'', ''blocked pending approval'', ''pending your approval'',
     ''requested permissions'', ''requires approval'', ''permission to write'', ''haven'' @ [CHR 0x27] @ ''t granted'']"

definition detect_permission_block :: "string \<Rightarrow> bool" where
  "detect_permission_block output = list_ex (contains (lower output)) permission_block_markers"

definition permission_block_hint :: string where
  "permission_block_hint =
     ''[hint] The agent'' @ [CHR 0x27] @ ''s output suggests its file writes were blocked by permission prompts - a headless agent ''
     @ ''cannot answer interactive approval dialogs, so it completes without changing anything. Pre-approve the tools ''
     @ ''it needs in the repo'' @ [CHR 0x27] @ ''s .claude/settings.json permissions allowlist, e.g. ''
     @ ''{\"permissions\": {\"allow\": [\"Edit\", \"Write\", \"Bash(pytest:*)\"]}}, then re-run.''"

definition verifier_unavailable :: "string \<Rightarrow> bool" where
  "verifier_unavailable output \<longleftrightarrow> starts_with (lstrip output) ''[verify error:'' \<or> starts_with (lstrip output) ''[verify timed out]''"

definition agent_error_stop_reason :: "string \<Rightarrow> loop_stop" where
  "agent_error_stop_reason err = (let e = lstrip err in
     if starts_with e ''[credentials-error]'' then Stop_Agent_Credentials
     else if starts_with e ''[transient-infra]'' then Stop_Agent_Unavailable else Stop_Agent_Error)"

type_synonym hex_hash = "string \<Rightarrow> string"

definition verify_output_head :: "string \<Rightarrow> string" where
  "verify_output_head output = take 200 output"

definition iteration_signature :: "hex_hash \<Rightarrow> iteration_contract \<Rightarrow> string" where
  "iteration_signature sha c = take 16 (sha (join '','' (sort (ic_files c)) @ ''||'' @ take 200 (ic_output c)))"

definition loop_spec_sha8 :: "hex_hash \<Rightarrow> string \<Rightarrow> string \<Rightarrow> string" where
  "loop_spec_sha8 sha goal verify = take 8 (sha (goal @ ''||'' @ verify))"

text \<open>\<open>stable_id\<close>.\<close>

definition stable_id :: "hex_hash \<Rightarrow> string list \<Rightarrow> string \<Rightarrow> string" where
  "stable_id sha parts prefix = prefix @ ''-'' @ take 12 (sha (join ''||'' parts))"

subsection \<open>What a loop remembers\<close>

datatype loop_memory_kind = Memory_Decision | Memory_Failed_Approach

record loop_memory =
  me_id :: string
  me_kind :: loop_memory_kind
  me_title :: string
  me_summary :: string
  me_details :: string
  me_source :: string
  me_tags :: "string list"
  me_confidence :: rat

definition win_memory :: "hex_hash \<Rightarrow> string \<Rightarrow> iteration_contract \<Rightarrow> loop_memory" where
  "win_memory sha goal c =
     (let summary = ''Approach that worked for goal: '' @ take 120 goal @ ''. Action: '' @ take 200 (ic_action c) @ ''.'' in
      \<lparr>me_id = stable_id sha [''decision'', ''loop-win:'' @ take 80 goal, summary, ''loop:engine''] ''loop'',
       me_kind = Memory_Decision, me_title = ''Loop win: '' @ take 80 goal, me_summary = summary,
       me_details = ''Prediction: '' @ ic_prediction c @ line_feed @ ''Files touched: '' @ join '', '' (ic_files c),
       me_source = ''loop:engine'', me_tags = [''loop-win'', ''loop''], me_confidence = 85 / 100\<rparr>)"

definition loss_memory :: "hex_hash \<Rightarrow> string \<Rightarrow> iteration_contract \<Rightarrow> loop_memory option" where
  "loss_memory sha goal c =
     (if environment_failure (ic_output c) then None
      else
        (let summary = ''Failed approach for goal: '' @ take 120 goal @ ''. Tried: '' @ take 200 (ic_action c)
               @ ''. Prediction was: '' @ take 100 (ic_prediction c) @ ''.'';
             source = ''loop:iter:'' @ show_int (ic_iteration c) in
         Some \<lparr>me_id = stable_id sha [''failed_approach'', ''loop-deadend:'' @ take 80 goal, summary, source] ''loop'',
           me_kind = Memory_Failed_Approach,
           me_title = ''Loop dead-end (iter '' @ show_int (ic_iteration c) @ ''): '' @ take 60 goal, me_summary = summary,
           me_details = ''Verify output:'' @ line_feed @ take 800 (ic_output c) @ line_feed @ line_feed @ ''Files touched: '' @ join '', '' (ic_files c),
           me_source = source, me_tags = [''loop-deadend'', ''loop'', ''failed_approach''], me_confidence = 9 / 10\<rparr>))"

end
