(* ===== verification/Loop_Engine.thy ===== *)
theory Loop_Engine
  imports Loop_Model
begin

section \<open>Loop: the engine\<close>

text \<open>
  \<open>run_loop\<close> of \<open>loop/engine.py\<close> with its checkpoints.  The agent, the verifier, the working-tree probe,
  the clock, the abort signal, recall and guard over the memory store, its writes and the worktree
  provider are parameters that act on a world of any type and return; a clock or a probe that is not
  injected is the caller's to supply.  Writing a checkpoint succeeds.
\<close>

subsection \<open>The surroundings\<close>

record 'w loop_env =
  le_agent :: "string \<Rightarrow> int \<Rightarrow> 'w \<Rightarrow> 'w \<times> agent_run"
  le_verify :: "string \<Rightarrow> 'w \<Rightarrow> 'w \<times> verify_outcome"
  le_probe :: "string \<Rightarrow> 'w \<Rightarrow> 'w \<times> string option"
  le_clock :: "'w \<Rightarrow> 'w \<times> rat"
  le_continue :: "'w \<Rightarrow> 'w \<times> bool"
  le_recall :: "string \<Rightarrow> 'w \<Rightarrow> string option"
  le_guard :: "string \<Rightarrow> 'w \<Rightarrow> string option"
  le_upsert :: "loop_memory \<Rightarrow> 'w \<Rightarrow> 'w"
  le_setup :: "string \<Rightarrow> 'w \<Rightarrow> 'w \<times> string option"
  le_teardown :: "string \<Rightarrow> bool \<Rightarrow> 'w \<Rightarrow> 'w"

record checkpoint =
  ck_goal :: string
  ck_verify :: string
  ck_iterations :: "iteration_contract list"
  ck_memory_ids :: "string list"
  ck_tokens :: int
  ck_cost :: rat
  ck_losses :: int
  ck_level :: int
  ck_signatures :: "(string \<times> int) list"
  ck_same_error :: int
  ck_error_head :: "string option"

type_synonym checkpoint_store = "(string \<times> checkpoint) list option"

record loop_state =
  lp_iterations :: "iteration_contract list"
  lp_memory_ids :: "string list"
  lp_tokens :: int
  lp_cost :: rat
  lp_losses :: int
  lp_level :: int
  lp_last_loss :: "iteration_contract option"
  lp_signatures :: "(string \<times> int) list"
  lp_same_error :: int
  lp_error_head :: "string option"
  lp_noops :: int
  lp_start :: "string option option"
  lp_store :: checkpoint_store

record loop_result =
  lres_iterations :: "iteration_contract list"
  lres_converged :: bool
  lres_stop :: loop_stop
  lres_memory_ids :: "string list"
  lres_tokens :: int
  lres_cost :: "rat option"
  lres_wall :: rat

text \<open>What does not change during a run.\<close>

record 'w loop_run =
  lr_env :: "'w loop_env"
  lr_sha :: hex_hash
  lr_spec :: loop_spec
  lr_config :: loop_config
  lr_root :: string
  lr_wall_start :: rat

subsection \<open>Checkpoints\<close>

definition run_key :: "hex_hash \<Rightarrow> loop_spec \<Rightarrow> loop_config \<Rightarrow> string" where
  "run_key sha spec cfg = loop_spec_sha8 sha (ls_goal spec) (lc_verify cfg)"

definition snapshot :: "loop_spec \<Rightarrow> loop_config \<Rightarrow> loop_state \<Rightarrow> checkpoint" where
  "snapshot spec cfg st = \<lparr>ck_goal = ls_goal spec, ck_verify = lc_verify cfg, ck_iterations = lp_iterations st,
     ck_memory_ids = lp_memory_ids st, ck_tokens = lp_tokens st, ck_cost = lp_cost st, ck_losses = lp_losses st,
     ck_level = lp_level st, ck_signatures = lp_signatures st, ck_same_error = lp_same_error st, ck_error_head = lp_error_head st\<rparr>"

definition save_loop_checkpoint :: "'w loop_run \<Rightarrow> loop_state \<Rightarrow> loop_state" where
  "save_loop_checkpoint R st =
     st\<lparr>lp_store := map_option (AList.update (run_key (lr_sha R) (lr_spec R) (lr_config R)) (snapshot (lr_spec R) (lr_config R) st)) (lp_store st)\<rparr>"

definition clear_loop_checkpoint :: "'w loop_run \<Rightarrow> loop_state \<Rightarrow> loop_state" where
  "clear_loop_checkpoint R st = st\<lparr>lp_store := map_option (AList.delete (run_key (lr_sha R) (lr_spec R) (lr_config R))) (lp_store st)\<rparr>"

definition new_loop_state :: "checkpoint_store \<Rightarrow> loop_state" where
  "new_loop_state store = \<lparr>lp_iterations = [], lp_memory_ids = [], lp_tokens = 0, lp_cost = 0, lp_losses = 0, lp_level = 0,
     lp_last_loss = None, lp_signatures = [], lp_same_error = 0, lp_error_head = None, lp_noops = 0, lp_start = None, lp_store = store\<rparr>"

definition restore :: "checkpoint \<Rightarrow> checkpoint_store \<Rightarrow> loop_state" where
  "restore c store = \<lparr>lp_iterations = ck_iterations c, lp_memory_ids = ck_memory_ids c, lp_tokens = ck_tokens c,
     lp_cost = ck_cost c, lp_losses = ck_losses c, lp_level = ck_level c,
     lp_last_loss = find (\<lambda>i. ic_outcome i = Loop_Loss) (rev (ck_iterations c)),
     lp_signatures = ck_signatures c, lp_same_error = ck_same_error c, lp_error_head = ck_error_head c, lp_noops = 0,
     lp_start = None, lp_store = store\<rparr>"

text \<open>The state a run starts from and the number of its first iteration.\<close>

definition start_state :: "hex_hash \<Rightarrow> loop_spec \<Rightarrow> loop_config \<Rightarrow> bool \<Rightarrow> checkpoint_store \<Rightarrow> loop_state \<times> int" where
  "start_state sha spec cfg resume store =
     (case (if resume then Option.bind store (\<lambda>s. map_of s (run_key sha spec cfg)) else None) of
        None \<Rightarrow> (new_loop_state store, 1)
      | Some c \<Rightarrow> (restore c store, if ck_iterations c = [] then 1 else ic_iteration (last (ck_iterations c)) + 1))"

subsection \<open>Before the agent acts\<close>

definition reached :: "'a::linorder \<Rightarrow> 'a option \<Rightarrow> bool" where
  "reached x limit = (case limit of None \<Rightarrow> False | Some l \<Rightarrow> x \<ge> l)"

definition stop_before :: "'w loop_run \<Rightarrow> loop_state \<Rightarrow> 'w \<Rightarrow> 'w \<times> loop_stop option" where
  "stop_before R st w =
     (if reached (lp_tokens st) (lc_budget_tokens (lr_config R)) then (w, Some Stop_Budget)
      else if reached (lp_cost st) (lc_max_cost (lr_config R)) then (w, Some Stop_Cost)
      else case (case lc_max_wall (lr_config R) of None \<Rightarrow> (w, False)
                 | Some limit \<Rightarrow> (case le_clock (lr_env R) w of (w', now) \<Rightarrow> (w', now - lr_wall_start R \<ge> of_int limit))) of
             (w1, True) \<Rightarrow> (w1, Some Stop_Wall_Time)
           | (w1, False) \<Rightarrow> (case le_continue (lr_env R) w1 of (w2, go) \<Rightarrow> (w2, if go then None else Some Stop_Aborted)))"

definition signals_of :: "'w loop_run \<Rightarrow> int \<Rightarrow> loop_state \<Rightarrow> trajectory_signals" where
  "signals_of R i st = \<lparr>ts_iteration = i, ts_level = lp_level st, ts_losses = lp_losses st,
     ts_threshold = lc_escalation_threshold (lr_config R), ts_noops = lp_noops st, ts_same_error = lp_same_error st,
     ts_tokens = lp_tokens st, ts_cost = lp_cost st, ts_last_loss = lp_last_loss st\<rparr>"

definition apply_route :: "route_decision \<Rightarrow> loop_state \<Rightarrow> loop_state" where
  "apply_route d st = st\<lparr>lp_level := rd_level d, lp_losses := (if rd_reset d then 0 else lp_losses st)\<rparr>"

definition build_brief :: "'w loop_env \<Rightarrow> string \<Rightarrow> iteration_contract option \<Rightarrow> int \<Rightarrow> 'w \<Rightarrow> string" where
  "build_brief env goal last_loss level w = join (line_feed @ line_feed)
     ((case le_recall env goal w of None \<Rightarrow> [] | Some md \<Rightarrow> if md = [] then [] else [md])
      @ (case le_guard env goal w of None \<Rightarrow> [] | Some md \<Rightarrow> [md])
      @ (case last_loss of None \<Rightarrow> []
         | Some l \<Rightarrow> [''## Last attempt failed'' @ line_feed @ line_feed @ ''**What was tried:** '' @ ic_action l @ line_feed @ line_feed
             @ ''**Prediction that failed:** '' @ ic_prediction l @ line_feed @ line_feed @ ''**Verify output (truncated):**'' @ line_feed
             @ ''```'' @ line_feed @ take 500 (ic_output l) @ line_feed @ ''```'' @ line_feed])
      @ (if level > 0 then [''## Escalation level '' @ show_int level @ line_feed @ line_feed
             @ ''Previous strategies failed multiple times in a row. Try a fundamentally different approach - ''
             @ ''do not repeat the pattern of prior attempts.''] else []))"

definition loop_prompt :: "'w loop_run \<Rightarrow> route_decision \<Rightarrow> loop_state \<Rightarrow> 'w \<Rightarrow> string" where
  "loop_prompt R d st w =
     ''## Goal'' @ line_feed @ line_feed @ ls_goal (lr_spec R) @ line_feed @ line_feed
     @ (if ls_success (lr_spec R) = [] then [] else ''## Success criteria'' @ line_feed @ line_feed @ ls_success (lr_spec R) @ line_feed @ line_feed)
     @ (if render_route_prompt d = [] then [] else render_route_prompt d @ line_feed @ line_feed)
     @ build_brief (lr_env R) (ls_goal (lr_spec R)) (lp_last_loss st) (lp_level st) w"

definition see_start :: "string option \<Rightarrow> loop_state \<Rightarrow> loop_state" where
  "see_start sig st = (if lp_start st = None then st\<lparr>lp_start := Some sig\<rparr> else st)"

definition add_spent :: "agent_run \<Rightarrow> loop_state \<Rightarrow> loop_state" where
  "add_spent a st = st\<lparr>lp_tokens := lp_tokens st + get_or 0 (ag_tokens a), lp_cost := lp_cost st + get_or 0 (ag_cost a)\<rparr>"

subsection \<open>The verdict\<close>

definition contract_of :: "int \<Rightarrow> agent_run \<Rightarrow> bool \<Rightarrow> string \<Rightarrow> route_decision \<Rightarrow> iteration_contract" where
  "contract_of i a passed output d = \<lparr>ic_iteration = i, ic_prediction = ag_prediction a, ic_action = take 400 (ag_output a),
     ic_files = ag_files a, ic_passed = passed, ic_output = take 2000 output,
     ic_outcome = (if passed then Loop_Win else Loop_Loss), ic_tokens = ag_tokens a, ic_route = Some d\<rparr>"

text \<open>\<open>None\<close> when a probe is unavailable.\<close>

definition changed_since :: "string option \<Rightarrow> string option \<Rightarrow> bool option" where
  "changed_since before after = (case (before, after) of (Some b, Some a) \<Rightarrow> Some (a \<noteq> b) | _ \<Rightarrow> None)"

definition vacuous_pass :: "string option \<Rightarrow> string option \<Rightarrow> string option \<Rightarrow> verify_outcome \<Rightarrow> bool" where
  "vacuous_pass start pre post v \<longleftrightarrow> vo_passed v \<and>
     (case changed_since start post of Some c \<Rightarrow> \<not> c | None \<Rightarrow> changed_since pre post = Some False)"

definition noop_text :: "agent_run \<Rightarrow> string \<Rightarrow> string" where
  "noop_text a output =
     ''[no-op] this run produced no net file changes; the verify command passed but the result is vacuous - it reflects ''
     @ ''pre-existing state, not that the goal was addressed.'' @ line_feed @ line_feed
     @ (if detect_permission_block (ag_output a) then permission_block_hint @ line_feed @ line_feed else []) @ output"

definition scope_declared :: "loop_config \<Rightarrow> bool" where
  "scope_declared cfg \<longleftrightarrow> lc_allowed cfg \<noteq> [] \<or> lc_protected cfg \<noteq> []"

text \<open>Whether the iteration is a win, and the text of its contract.\<close>

definition judge_iteration :: "loop_config \<Rightarrow> string option \<Rightarrow> string option \<Rightarrow> string option \<Rightarrow> agent_run \<Rightarrow> verify_outcome \<Rightarrow> bool \<times> string" where
  "judge_iteration cfg start pre post a v =
     (if vacuous_pass start pre post v then (False, noop_text a (vo_output v))
      else if vo_passed v \<and> scope_declared cfg then
        (if pre = None \<or> post = None then
           (False, ''[scope-unverifiable] scope constraints are declared (allowed_paths/protected_paths) but the working-tree ''
              @ ''change probe is unavailable, so the change set cannot be confirmed to stay in scope; failing safe.''
              @ line_feed @ line_feed @ vo_output v)
         else case scope_violation (changed_files_delta pre post) (lc_allowed cfg) (lc_protected cfg) of
             Some m \<Rightarrow> (False, ''[scope-violation] '' @ m @ ''. The verify command passed but the agent modified files outside the declared scope.''
                           @ line_feed @ line_feed @ vo_output v)
           | None \<Rightarrow> (True, vo_output v))
      else (vo_passed v, vo_output v))"

subsection \<open>After the verdict\<close>

definition remember :: "'w loop_run \<Rightarrow> loop_memory option \<Rightarrow> loop_state \<Rightarrow> 'w \<Rightarrow> loop_state \<times> 'w" where
  "remember R m st w = (case m of None \<Rightarrow> (st, w)
     | Some m \<Rightarrow> (st\<lparr>lp_memory_ids := lp_memory_ids st @ [me_id m]\<rparr>, le_upsert (lr_env R) m w))"

definition add_contract :: "iteration_contract \<Rightarrow> loop_state \<Rightarrow> loop_state" where
  "add_contract c st = st\<lparr>lp_iterations := lp_iterations st @ [c]\<rparr>"

text \<open>The counters of a loss and the breakers in their order; \<open>None\<close> is the next iteration.\<close>

definition noop_breaker :: "loop_config \<Rightarrow> bool \<Rightarrow> loop_state \<Rightarrow> loop_state \<times> loop_stop option" where
  "noop_breaker cfg vacuous st =
     (let st' = st\<lparr>lp_noops := (if vacuous then lp_noops st + 1 else 0)\<rparr> in
      (st', if vacuous \<and> lc_no_change_limit cfg > 0 \<and> lp_noops st' \<ge> lc_no_change_limit cfg then Some Stop_No_Changes else None))"

definition signature_count :: "string \<Rightarrow> loop_state \<Rightarrow> int" where
  "signature_count sig st = get_or 0 (map_of (lp_signatures st) sig)"

definition duplicate_breaker :: "loop_config \<Rightarrow> string \<Rightarrow> loop_state \<Rightarrow> loop_state \<times> loop_stop option" where
  "duplicate_breaker cfg sig st =
     (let n = signature_count sig st + 1; st' = st\<lparr>lp_signatures := AList.update sig n (lp_signatures st)\<rparr> in
      (st', if lc_duplicate_limit cfg > 0 \<and> n \<ge> lc_duplicate_limit cfg then Some Stop_Duplicate_Action else None))"

definition error_breaker :: "loop_config \<Rightarrow> string \<Rightarrow> loop_state \<Rightarrow> loop_state \<times> loop_stop option" where
  "error_breaker cfg head st =
     (if lc_repeated_error_limit cfg > 0 then
        (let n = (if Some head = lp_error_head st then lp_same_error st + 1 else 1);
             st' = st\<lparr>lp_same_error := n, lp_error_head := Some head\<rparr> in
         (st', if n \<ge> lc_repeated_error_limit cfg then Some Stop_Repeated_Error else None))
      else (st\<lparr>lp_error_head := Some head\<rparr>, None))"

definition progress_breaker :: "loop_config \<Rightarrow> string \<Rightarrow> loop_state \<Rightarrow> loop_state \<times> loop_stop option" where
  "progress_breaker cfg sig st =
     (st, if signature_count sig st \<ge> lc_no_progress_window cfg then Some Stop_No_Progress else None)"

definition breaker_then :: "loop_state \<times> loop_stop option \<Rightarrow> (loop_state \<Rightarrow> loop_state \<times> loop_stop option) \<Rightarrow> loop_state \<times> loop_stop option" where
  "breaker_then r f = (case r of (st, Some s) \<Rightarrow> (st, Some s) | (st, None) \<Rightarrow> f st)"

definition after_loss :: "'w loop_run \<Rightarrow> bool \<Rightarrow> iteration_contract \<Rightarrow> loop_state \<Rightarrow> loop_state \<times> loop_stop option" where
  "after_loss R vacuous c st =
     (let cfg = lr_config R; sig = iteration_signature (lr_sha R) c;
          st1 = st\<lparr>lp_losses := lp_losses st + 1, lp_last_loss := Some c\<rparr> in
      breaker_then (breaker_then (breaker_then (noop_breaker cfg vacuous st1) (duplicate_breaker cfg sig))
        (error_breaker cfg (verify_output_head (ic_output c)))) (progress_breaker cfg sig))"

text \<open>A forced loss that stops the run: the agent or the verifier could not run.\<close>

definition forced_stop :: "'w loop_run \<Rightarrow> iteration_contract \<Rightarrow> loop_stop \<Rightarrow> loop_state \<Rightarrow> 'w \<Rightarrow> 'w \<times> loop_state \<times> (bool \<times> loop_stop) option" where
  "forced_stop R c stop st w =
     (case remember R (loss_memory (lr_sha R) (ls_goal (lr_spec R)) c) (add_contract c st) w of
        (st', w') \<Rightarrow> (w', save_loop_checkpoint R st', Some (False, stop)))"

definition settle_iteration :: "'w loop_run \<Rightarrow> bool \<Rightarrow> iteration_contract \<Rightarrow> loop_state \<Rightarrow> 'w \<Rightarrow> 'w \<times> loop_state \<times> (bool \<times> loop_stop) option" where
  "settle_iteration R vacuous c st w =
     (if ic_outcome c = Loop_Win then
        (case remember R (Some (win_memory (lr_sha R) (ls_goal (lr_spec R)) c)) ((add_contract c st)\<lparr>lp_noops := 0\<rparr>) w of
           (st', w') \<Rightarrow> (w', save_loop_checkpoint R st', Some (True, Stop_Converged)))
      else
        (case remember R (loss_memory (lr_sha R) (ls_goal (lr_spec R)) c) (add_contract c st) w of
           (st1, w') \<Rightarrow> (case after_loss R vacuous c st1 of
              (st2, stop) \<Rightarrow> (w', save_loop_checkpoint R st2, map_option (\<lambda>s. (False, s)) stop))))"

subsection \<open>The loop\<close>

definition act_and_verify :: "'w loop_run \<Rightarrow> int \<Rightarrow> loop_state \<Rightarrow> 'w \<Rightarrow> 'w \<times> loop_state \<times> (bool \<times> loop_stop) option" where
  "act_and_verify R i st w =
     (let d = route_next_iteration (signals_of R i st); st1 = apply_route d st; prompt = loop_prompt R d st1 w in
      case le_probe (lr_env R) (lr_root R) w of (w1, pre) \<Rightarrow>
      case le_agent (lr_env R) prompt (lp_level st1) w1 of (w2, a) \<Rightarrow>
      let st2 = add_spent a (see_start pre st1) in
      case ag_error a of
        Some e \<Rightarrow> forced_stop R (contract_of i a False (''[agent-error] '' @ e) d) (agent_error_stop_reason e) st2 w2
      | None \<Rightarrow>
          case le_verify (lr_env R) (lc_verify (lr_config R)) w2 of (w3, v) \<Rightarrow>
          if verifier_unavailable (vo_output v) then
            forced_stop R (contract_of i a False (vo_output v) d) Stop_Verifier_Unavailable st2 w3
          else
            case le_probe (lr_env R) (lr_root R) w3 of (w4, post) \<Rightarrow>
            let start = get_or None (lp_start st2);
                vacuous = vacuous_pass start pre post v in
            case judge_iteration (lr_config R) start pre post a v of
              (passed, output) \<Rightarrow> settle_iteration R vacuous (contract_of i a passed output d) st2 w4)"

definition loop_iteration :: "'w loop_run \<Rightarrow> int \<Rightarrow> loop_state \<Rightarrow> 'w \<Rightarrow> 'w \<times> loop_state \<times> (bool \<times> loop_stop) option" where
  "loop_iteration R i st w =
     (case stop_before R st w of
        (w1, Some s) \<Rightarrow> (w1, st, Some (False, s))
      | (w1, None) \<Rightarrow> act_and_verify R i st w1)"

text \<open>The iterations left; when they run out the run saves its checkpoint and stops.\<close>

fun loop_iterations :: "'w loop_run \<Rightarrow> int list \<Rightarrow> loop_state \<Rightarrow> 'w \<Rightarrow> 'w \<times> loop_state \<times> bool \<times> loop_stop" where
  "loop_iterations R [] st w = (w, save_loop_checkpoint R st, False, Stop_Max_Iterations)"
| "loop_iterations R (i # is) st w =
     (case loop_iteration R i st w of
        (w', st', Some (c, s)) \<Rightarrow> (w', st', c, s)
      | (w', st', None) \<Rightarrow> loop_iterations R is st' w')"

definition resumable_stops :: "loop_stop set" where
  "resumable_stops = {Stop_Budget, Stop_Cost, Stop_Wall_Time, Stop_Agent_Unavailable, Stop_Agent_Credentials}"

definition run_loop :: "'w loop_env \<Rightarrow> hex_hash \<Rightarrow> string \<Rightarrow> loop_spec \<Rightarrow> loop_config \<Rightarrow> bool \<Rightarrow> checkpoint_store \<Rightarrow> 'w
    \<Rightarrow> 'w \<times> checkpoint_store \<times> loop_result" where
  "run_loop env sha repo spec cfg resume store w =
     (case (if lc_isolate cfg then le_setup env repo w else (w, None)) of (w1, worktree) \<Rightarrow>
      case start_state sha spec cfg resume store of (st, first) \<Rightarrow>
      case le_clock env w1 of (w2, wall_start) \<Rightarrow>
      let R = \<lparr>lr_env = env, lr_sha = sha, lr_spec = spec, lr_config = cfg, lr_root = get_or repo worktree, lr_wall_start = wall_start\<rparr> in
      case loop_iterations R [first..lc_max_iterations cfg] st w2 of (w3, st', converged, stop) \<Rightarrow>
      let w4 = (case worktree of None \<Rightarrow> w3 | Some p \<Rightarrow> le_teardown env p converged w3);
          st'' = (if stop \<in> resumable_stops then st' else clear_loop_checkpoint R st') in
      case le_clock env w4 of (w5, now) \<Rightarrow>
      (w5, lp_store st'', \<lparr>lres_iterations = lp_iterations st', lres_converged = converged, lres_stop = stop,
         lres_memory_ids = lp_memory_ids st', lres_tokens = lp_tokens st',
         lres_cost = (if lp_cost st' > 0 then Some (lp_cost st') else None), lres_wall = max 0 (now - wall_start)\<rparr>))"

end
