(* ===== verification/Loop_Props.thy ===== *)
theory Loop_Props
  imports Loop_Engine
begin

section \<open>What the loop guarantees\<close>

text \<open>
  A run is watched through surroundings that note what the probe, the agent and the verifier answer
  and what is remembered.  It converges only on evidence of this run, it is bounded by its
  configuration, its memories are those of its contracts, and a resumed run goes on from where the
  stopped one was.
\<close>

subsection \<open>Watching a run\<close>

datatype loop_event = Probed "string option" | Acted agent_run | Verified verify_outcome | Remembered loop_memory

definition note_event :: "('a \<Rightarrow> 'e) \<Rightarrow> ('w \<Rightarrow> 'w \<times> 'a) \<Rightarrow> 'w \<times> 'e list \<Rightarrow> ('w \<times> 'e list) \<times> 'a" where
  "note_event e m = (\<lambda>(w, l). case m w of (w', x) \<Rightarrow> ((w', l @ [e x]), x))"

definition unnoted :: "('w \<Rightarrow> 'w \<times> 'a) \<Rightarrow> 'w \<times> 'e list \<Rightarrow> ('w \<times> 'e list) \<times> 'a" where
  "unnoted m = (\<lambda>(w, l). case m w of (w', x) \<Rightarrow> ((w', l), x))"

definition watched :: "'w loop_env \<Rightarrow> ('w \<times> loop_event list) loop_env" where
  "watched env = \<lparr>le_agent = (\<lambda>p k. note_event Acted (le_agent env p k)), le_verify = (\<lambda>c. note_event Verified (le_verify env c)),
     le_probe = (\<lambda>r. note_event Probed (le_probe env r)), le_clock = unnoted (le_clock env),
     le_continue = unnoted (le_continue env), le_recall = (\<lambda>g (w, l). le_recall env g w),
     le_guard = (\<lambda>g (w, l). le_guard env g w), le_upsert = (\<lambda>m (w, l). (le_upsert env m w, l @ [Remembered m])),
     le_setup = (\<lambda>r. unnoted (le_setup env r)), le_teardown = (\<lambda>p k (w, l). (le_teardown env p k w, l))\<rparr>"

lemma note_event_eq: "note_event e m (w, l) = ((fst (m w), l @ [e (snd (m w))]), snd (m w))"
  by (simp add: note_event_def split: prod.splits)

lemma unnoted_eq: "unnoted m (w, l) = ((fst (m w), l), snd (m w))"
  by (simp add: unnoted_def split: prod.splits)

lemma watched_simps:
  "le_agent (watched env) p k (w, l) = ((fst (le_agent env p k w), l @ [Acted (snd (le_agent env p k w))]), snd (le_agent env p k w))"
  "le_verify (watched env) c (w, l) = ((fst (le_verify env c w), l @ [Verified (snd (le_verify env c w))]), snd (le_verify env c w))"
  "le_probe (watched env) r (w, l) = ((fst (le_probe env r w), l @ [Probed (snd (le_probe env r w))]), snd (le_probe env r w))"
  "le_clock (watched env) (w, l) = ((fst (le_clock env w), l), snd (le_clock env w))"
  "le_continue (watched env) (w, l) = ((fst (le_continue env w), l), snd (le_continue env w))"
  "le_setup (watched env) r (w, l) = ((fst (le_setup env r w), l), snd (le_setup env r w))"
  "le_upsert (watched env) m (w, l) = (le_upsert env m w, l @ [Remembered m])"
  "le_teardown (watched env) p b (w, l) = (le_teardown env p b w, l)"
  by (simp_all add: watched_def note_event_eq unnoted_eq)

subsection \<open>One iteration\<close>

text \<open>What the contract of an iteration leaves in memory.\<close>

definition contract_memory :: "hex_hash \<Rightarrow> string \<Rightarrow> iteration_contract \<Rightarrow> loop_memory option" where
  "contract_memory sha goal c = (if ic_outcome c = Loop_Win then Some (win_memory sha goal c) else loss_memory sha goal c)"

definition memory_events :: "loop_memory option \<Rightarrow> loop_event list" where
  "memory_events m = (case m of None \<Rightarrow> [] | Some m \<Rightarrow> [Remembered m])"

definition memory_ids :: "loop_memory option \<Rightarrow> string list" where
  "memory_ids m = (case m of None \<Rightarrow> [] | Some m \<Rightarrow> [me_id m])"

definition first_seen :: "loop_state \<Rightarrow> string option \<Rightarrow> string option" where
  "first_seen st pre = get_or pre (lp_start st)"

text \<open>The observable part of an iteration that acts: its events and its contract.\<close>

definition saw_win :: "loop_config \<Rightarrow> string option \<Rightarrow> string option \<Rightarrow> agent_run \<Rightarrow> verify_outcome \<Rightarrow> string option \<Rightarrow> bool" where
  "saw_win cfg start pre a v post \<longleftrightarrow> ag_error a = None \<and> vo_passed v \<and> \<not> verifier_unavailable (vo_output v)
     \<and> \<not> vacuous_pass start pre post v
     \<and> (scope_declared cfg \<longrightarrow> pre \<noteq> None \<and> post \<noteq> None
          \<and> scope_violation (changed_files_delta pre post) (lc_allowed cfg) (lc_protected cfg) = None)"

lemma judge_passed: "fst (judge_iteration cfg start pre post a v) \<longleftrightarrow> vo_passed v \<and> \<not> vacuous_pass start pre post v
     \<and> (scope_declared cfg \<longrightarrow> pre \<noteq> None \<and> post \<noteq> None
          \<and> scope_violation (changed_files_delta pre post) (lc_allowed cfg) (lc_protected cfg) = None)"
  by (auto simp: judge_iteration_def vacuous_pass_def split: option.splits)

lemma remember_watched:
  assumes "remember R m st (w, l) = (st', (w', l'))" "lr_env R = watched env"
  shows "l' = l @ memory_events m" "st' = st\<lparr>lp_memory_ids := lp_memory_ids st @ memory_ids m\<rparr>"
  using assms by (auto simp: remember_def memory_events_def memory_ids_def watched_simps split: option.splits)

text \<open>The fields of the state later iterations and the result read.\<close>

definition same_account :: "loop_state \<Rightarrow> loop_state \<Rightarrow> bool" where
  "same_account s t \<longleftrightarrow> lp_iterations s = lp_iterations t \<and> lp_memory_ids s = lp_memory_ids t \<and> lp_tokens s = lp_tokens t
     \<and> lp_cost s = lp_cost t \<and> lp_start s = lp_start t"

lemma same_account_refl [simp]: "same_account s s"
  by (simp add: same_account_def)

lemma breaker_account:
  "same_account (fst (noop_breaker cfg b st)) st" "same_account (fst (duplicate_breaker cfg sig st)) st"
  "same_account (fst (error_breaker cfg h st)) st" "same_account (fst (progress_breaker cfg sig st)) st"
  by (simp_all add: noop_breaker_def duplicate_breaker_def error_breaker_def progress_breaker_def same_account_def Let_def)

lemma breaker_then_account:
  "same_account (fst r) st \<Longrightarrow> (\<And>s. same_account (fst (f s)) s) \<Longrightarrow> same_account (fst (breaker_then r f)) st"
  unfolding breaker_then_def by (auto simp: same_account_def split: prod.splits option.splits)

lemma after_loss_account: "same_account (fst (after_loss R b c st)) st"
proof -
  have "same_account (st\<lparr>lp_losses := n, lp_last_loss := Some c\<rparr>) st" for n by (simp add: same_account_def)
  then have "same_account (fst (noop_breaker cfg b (st\<lparr>lp_losses := n, lp_last_loss := Some c\<rparr>))) st" for cfg n
    using breaker_account(1) [of cfg b "st\<lparr>lp_losses := n, lp_last_loss := Some c\<rparr>"] by (simp add: same_account_def)
  then show ?thesis unfolding after_loss_def Let_def by (intro breaker_then_account breaker_account)
qed

lemma save_account: "same_account (save_loop_checkpoint R st) st"
  by (simp add: save_loop_checkpoint_def same_account_def)

text \<open>The account after an iteration that ended with this contract.\<close>

definition booked :: "hex_hash \<Rightarrow> string \<Rightarrow> iteration_contract \<Rightarrow> loop_state \<Rightarrow> loop_state \<Rightarrow> bool" where
  "booked sha goal c st st' \<longleftrightarrow> lp_iterations st' = lp_iterations st @ [c]
     \<and> lp_memory_ids st' = lp_memory_ids st @ memory_ids (contract_memory sha goal c)
     \<and> lp_tokens st' = lp_tokens st \<and> lp_cost st' = lp_cost st \<and> lp_start st' = lp_start st"

lemma forced_stop_booked:
  assumes "forced_stop R c stop st (w, l) = ((w', l'), st', r)" "lr_env R = watched env" "ic_outcome c = Loop_Loss"
  shows "booked (lr_sha R) (ls_goal (lr_spec R)) c st st' \<and> l' = l @ memory_events (contract_memory (lr_sha R) (ls_goal (lr_spec R)) c)
     \<and> r = Some (False, stop)"
proof -
  obtain s1 w1 l1 where m: "remember R (loss_memory (lr_sha R) (ls_goal (lr_spec R)) c) (add_contract c st) (w, l) = (s1, (w1, l1))"
    by (metis prod.exhaust)
  with assms(1) have "l' = l1" "r = Some (False, stop)" "st' = save_loop_checkpoint R s1"
    by (auto simp: forced_stop_def)
  with remember_watched [OF m assms(2)] assms(3) show ?thesis
    by (simp add: booked_def contract_memory_def add_contract_def save_loop_checkpoint_def)
qed

lemma settle_booked:
  assumes "settle_iteration R b c st (w, l) = ((w', l'), st', r)" "lr_env R = watched env"
  shows "booked (lr_sha R) (ls_goal (lr_spec R)) c st st' \<and> l' = l @ memory_events (contract_memory (lr_sha R) (ls_goal (lr_spec R)) c)
     \<and> (if ic_outcome c = Loop_Win then r = Some (True, Stop_Converged) else (\<forall>s. r \<noteq> Some (True, s)))"
proof (cases "ic_outcome c = Loop_Win")
  case True
  obtain s1 w1 l1 where m: "remember R (Some (win_memory (lr_sha R) (ls_goal (lr_spec R)) c)) ((add_contract c st)\<lparr>lp_noops := 0\<rparr>) (w, l) = (s1, (w1, l1))"
    by (metis prod.exhaust)
  with assms(1) True have "l' = l1" "r = Some (True, Stop_Converged)" "st' = save_loop_checkpoint R s1"
    by (auto simp: settle_iteration_def)
  with remember_watched [OF m assms(2)] True show ?thesis
    by (simp add: booked_def contract_memory_def add_contract_def save_loop_checkpoint_def)
next
  case False
  obtain s1 w1 l1 where m: "remember R (loss_memory (lr_sha R) (ls_goal (lr_spec R)) c) (add_contract c st) (w, l) = (s1, (w1, l1))"
    by (metis prod.exhaust)
  obtain s2 stop where loss: "after_loss R b c s1 = (s2, stop)" by fastforce
  with assms(1) False m have "l' = l1" "r = map_option (\<lambda>s. (False, s)) stop" "st' = save_loop_checkpoint R s2"
    by (auto simp: settle_iteration_def)
  moreover from loss after_loss_account [of R b c s1] have "same_account s2 s1" by simp
  moreover note remember_watched [OF m assms(2)]
  ultimately show ?thesis using False
    by (auto simp: booked_def contract_memory_def add_contract_def save_loop_checkpoint_def same_account_def)
qed

text \<open>An iteration that acted: its events, its contract, and the account it leaves.\<close>

definition acted :: "'w loop_run \<Rightarrow> int \<Rightarrow> loop_state \<Rightarrow> loop_state \<Rightarrow> (bool \<times> loop_stop) option \<Rightarrow> loop_event list
    \<Rightarrow> string option \<Rightarrow> agent_run \<Rightarrow> loop_event list \<Rightarrow> iteration_contract \<Rightarrow> bool" where
  "acted R i st st' r events pre a checks c \<longleftrightarrow>
     (let cfg = lr_config R; m = contract_memory (lr_sha R) (ls_goal (lr_spec R)) c in
      \<not> reached (lp_tokens st) (lc_budget_tokens cfg) \<and> \<not> reached (lp_cost st) (lc_max_cost cfg)
      \<and> events = [Probed pre, Acted a] @ checks @ memory_events m
      \<and> ic_iteration c = i \<and> ic_tokens c = ag_tokens a
      \<and> lp_iterations st' = lp_iterations st @ [c] \<and> lp_memory_ids st' = lp_memory_ids st @ memory_ids m
      \<and> lp_tokens st' = lp_tokens st + get_or 0 (ag_tokens a) \<and> lp_cost st' = lp_cost st + get_or 0 (ag_cost a)
      \<and> lp_start st' = Some (first_seen st pre)
      \<and> (\<forall>e\<in>set checks. \<exists>v. e = Verified v \<or> (\<exists>p. e = Probed p))
      \<and> (if ic_outcome c = Loop_Win
         then r = Some (True, Stop_Converged)
           \<and> (\<exists>v post. checks = [Verified v, Probed post] \<and> saw_win cfg (first_seen st pre) pre a v post)
         else \<forall>s. r \<noteq> Some (True, s)))"

lemma contract_of_simps [simp]:
  "ic_iteration (contract_of i a p out d) = i" "ic_tokens (contract_of i a p out d) = ag_tokens a"
  "ic_outcome (contract_of i a p out d) = (if p then Loop_Win else Loop_Loss)"
  by (simp_all add: contract_of_def)

lemma prepared_state:
  "lp_iterations (add_spent a (see_start pre (apply_route d st))) = lp_iterations st"
  "lp_memory_ids (add_spent a (see_start pre (apply_route d st))) = lp_memory_ids st"
  "lp_tokens (add_spent a (see_start pre (apply_route d st))) = lp_tokens st + get_or 0 (ag_tokens a)"
  "lp_cost (add_spent a (see_start pre (apply_route d st))) = lp_cost st + get_or 0 (ag_cost a)"
  "lp_start (add_spent a (see_start pre (apply_route d st))) = Some (first_seen st pre)"
  by (auto simp: add_spent_def see_start_def apply_route_def first_seen_def get_or_def split: option.splits)

lemma act_watched:
  assumes "act_and_verify R i st (w, l) = ((w', l'), st', r)" "lr_env R = watched env"
    "\<not> reached (lp_tokens st) (lc_budget_tokens (lr_config R))" "\<not> reached (lp_cost st) (lc_max_cost (lr_config R))"
  shows "\<exists>events pre a checks c. l' = l @ events \<and> acted R i st st' r events pre a checks c"
proof -
  define d where "d = route_next_iteration (signals_of R i st)"
  define prompt where "prompt = loop_prompt R d (apply_route d st) (w, l)"
  obtain w1 pre where p1: "le_probe env (lr_root R) w = (w1, pre)" by fastforce
  obtain w2 a where ag: "le_agent env prompt (lp_level (apply_route d st)) w1 = (w2, a)" by fastforce
  obtain w3 v where vf: "le_verify env (lc_verify (lr_config R)) w2 = (w3, v)" by fastforce
  obtain w4 post where p2: "le_probe env (lr_root R) w3 = (w4, post)" by fastforce
  define st2 where "st2 = add_spent a (see_start pre (apply_route d st))"
  have start: "get_or None (lp_start st2) = first_seen st pre" by (simp add: st2_def prepared_state get_or_def)
  note fields = prepared_state [of a pre d st, folded st2_def]
  have run: "act_and_verify R i st (w, l) =
    (let l2 = l @ [Probed pre, Acted a] in
     case ag_error a of
       Some e \<Rightarrow> forced_stop R (contract_of i a False (''[agent-error] '' @ e) d) (agent_error_stop_reason e) st2 (w2, l2)
     | None \<Rightarrow>
        if verifier_unavailable (vo_output v)
        then forced_stop R (contract_of i a False (vo_output v) d) Stop_Verifier_Unavailable st2 (w3, l2 @ [Verified v])
        else case judge_iteration (lr_config R) (first_seen st pre) pre post a v of (passed, output) \<Rightarrow>
          settle_iteration R (vacuous_pass (first_seen st pre) pre post v) (contract_of i a passed output d) st2
            (w4, l2 @ [Verified v, Probed post]))"
    unfolding act_and_verify_def d_def [symmetric] Let_def prompt_def [symmetric]
    by (cases "ag_error a"; cases "verifier_unavailable (vo_output v)")
      (simp_all add: assms(2) watched_simps p1 ag vf p2 st2_def prepared_state get_or_def)
  show ?thesis
  proof (cases "ag_error a")
    case (Some e)
    define c where "c = contract_of i a False (''[agent-error] '' @ e) d"
    from run assms(1) Some have "forced_stop R c (agent_error_stop_reason e) st2 (w2, l @ [Probed pre, Acted a]) = ((w', l'), st', r)"
      by (simp add: c_def)
    from forced_stop_booked [OF this assms(2)] have "acted R i st st' r (drop (length l) l') pre a [] c"
      "l' = l @ drop (length l) l'"
      using assms(3,4) by (auto simp: acted_def booked_def fields c_def Let_def)
    then show ?thesis by blast
  next
    case None
    show ?thesis
    proof (cases "verifier_unavailable (vo_output v)")
      case True
      define c where "c = contract_of i a False (vo_output v) d"
      from run assms(1) None True have "forced_stop R c Stop_Verifier_Unavailable st2 (w3, l @ [Probed pre, Acted a, Verified v]) = ((w', l'), st', r)"
        by (simp add: c_def)
      from forced_stop_booked [OF this assms(2)] have "acted R i st st' r (drop (length l) l') pre a [Verified v] c"
        "l' = l @ drop (length l) l'"
        using assms(3,4) by (auto simp: acted_def booked_def fields c_def Let_def)
      then show ?thesis by blast
    next
      case False
      obtain passed out where j: "judge_iteration (lr_config R) (first_seen st pre) pre post a v = (passed, out)" by fastforce
      then have "passed \<longleftrightarrow> fst (judge_iteration (lr_config R) (first_seen st pre) pre post a v)" by simp
      with None False have win: "passed \<longleftrightarrow> saw_win (lr_config R) (first_seen st pre) pre a v post"
        unfolding judge_passed saw_win_def by blast
      define c where "c = contract_of i a passed out d"
      from run assms(1) None False j have "settle_iteration R (vacuous_pass (first_seen st pre) pre post v) c st2
          (w4, l @ [Probed pre, Acted a, Verified v, Probed post]) = ((w', l'), st', r)"
        by (simp add: c_def)
      from settle_booked [OF this assms(2)] have "acted R i st st' r (drop (length l) l') pre a [Verified v, Probed post] c"
        "l' = l @ drop (length l) l'"
        using assms(3,4) win by (auto simp: acted_def booked_def fields c_def Let_def split: if_splits)
      then show ?thesis by blast
    qed
  qed
qed

lemma stop_before_watched:
  assumes "stop_before R st (w, l) = ((w', l'), r)" "lr_env R = watched env"
  shows "l' = l" "r = None \<Longrightarrow> \<not> reached (lp_tokens st) (lc_budget_tokens (lr_config R)) \<and> \<not> reached (lp_cost st) (lc_max_cost (lr_config R))"
  using assms by (auto simp: stop_before_def watched_simps split: if_splits option.splits bool.splits)

lemma iteration_watched:
  assumes "loop_iteration R i st (w, l) = ((w', l'), st', r)" "lr_env R = watched env"
  shows "(l' = l \<and> st' = st \<and> (\<exists>s. r = Some (False, s)))
    \<or> (\<exists>events pre a checks c. l' = l @ events \<and> acted R i st st' r events pre a checks c)"
proof -
  obtain w1 l1 q where b: "stop_before R st (w, l) = ((w1, l1), q)" by (metis prod.exhaust)
  show ?thesis
  proof (cases q)
    case None
    with assms(1) b stop_before_watched [OF b assms(2)] have "act_and_verify R i st (w1, l) = ((w', l'), st', r)"
      "\<not> reached (lp_tokens st) (lc_budget_tokens (lr_config R))" "\<not> reached (lp_cost st) (lc_max_cost (lr_config R))"
      by (auto simp: loop_iteration_def)
    from act_watched [OF this(1) assms(2) this(2,3)] show ?thesis by blast
  next
    case (Some s)
    with assms(1) b stop_before_watched [OF b assms(2)] show ?thesis by (auto simp: loop_iteration_def)
  qed
qed

subsection \<open>A whole run\<close>

text \<open>What the agent did, what was remembered and what the first probe saw, from the events.\<close>

definition acts :: "loop_event list \<Rightarrow> agent_run list" where
  "acts es = List.map_filter (\<lambda>e. case e of Acted a \<Rightarrow> Some a | _ \<Rightarrow> None) es"

definition remembered :: "loop_event list \<Rightarrow> loop_memory list" where
  "remembered es = List.map_filter (\<lambda>e. case e of Remembered m \<Rightarrow> Some m | _ \<Rightarrow> None) es"

fun first_probe :: "loop_event list \<Rightarrow> string option option" where
  "first_probe [] = None"
| "first_probe (Probed p # es) = Some p"
| "first_probe (_ # es) = first_probe es"

definition tokens_of :: "agent_run list \<Rightarrow> int" where
  "tokens_of as = sum_list (map (\<lambda>a. get_or 0 (ag_tokens a)) as)"

definition cost_of :: "agent_run list \<Rightarrow> rat" where
  "cost_of as = sum_list (map (\<lambda>a. get_or 0 (ag_cost a)) as)"

lemma acts_simps [simp]:
  "acts [] = []" "acts (Acted a # es) = a # acts es" "acts (Probed p # es) = acts es" "acts (Verified v # es) = acts es"
  "acts (Remembered m # es) = acts es" "acts (es @ fs) = acts es @ acts fs"
  by (simp_all add: acts_def List.map_filter_simps List.map_filter_def)

lemma remembered_simps [simp]:
  "remembered [] = []" "remembered (Acted a # es) = remembered es" "remembered (Probed p # es) = remembered es"
  "remembered (Verified v # es) = remembered es" "remembered (Remembered m # es) = m # remembered es"
  "remembered (es @ fs) = remembered es @ remembered fs"
  by (simp_all add: remembered_def List.map_filter_simps List.map_filter_def)

lemma first_probe_append: "first_probe (es @ fs) = (case first_probe es of None \<Rightarrow> first_probe fs | Some p \<Rightarrow> Some p)"
  by (induction es rule: first_probe.induct) auto

lemma checks_quiet:
  assumes "\<forall>e\<in>set checks. \<exists>v. e = Verified v \<or> (\<exists>p. e = Probed p)"
  shows "acts checks = []" "remembered checks = []"
  using assms by (induction checks) auto

lemma memory_events_simps [simp]:
  "acts (memory_events m) = []" "remembered (memory_events m) = (case m of None \<Rightarrow> [] | Some m \<Rightarrow> [m])"
  by (simp_all add: memory_events_def split: option.splits)

lemma sums_snoc [simp]:
  "tokens_of (as @ bs) = tokens_of as + tokens_of bs" "cost_of (as @ bs) = cost_of as + cost_of bs"
  "tokens_of [a] = get_or 0 (ag_tokens a)" "cost_of [a] = get_or 0 (ag_cost a)" "tokens_of [] = 0" "cost_of [] = 0"
  by (simp_all add: tokens_of_def cost_of_def)

definition memories :: "hex_hash \<Rightarrow> string \<Rightarrow> iteration_contract list \<Rightarrow> loop_memory list" where
  "memories sha goal cs = List.map_filter (contract_memory sha goal) cs"

text \<open>
  The account of the contracts a run has added to the state it started from, with iterations numbered
  from \<open>k\<close>.
\<close>

definition run_account :: "hex_hash \<Rightarrow> loop_spec \<Rightarrow> loop_config \<Rightarrow> int \<Rightarrow> loop_state \<Rightarrow> iteration_contract list \<Rightarrow> loop_state \<Rightarrow> loop_event list \<Rightarrow> bool" where
  "run_account sha spec cfg k st0 new st events \<longleftrightarrow>
     lp_iterations st = lp_iterations st0 @ new
     \<and> map ic_iteration new = [k..k + int (length new) - 1]
     \<and> map ic_tokens new = map ag_tokens (acts events)
     \<and> lp_tokens st = lp_tokens st0 + tokens_of (acts events)
     \<and> lp_cost st = lp_cost st0 + cost_of (acts events)
     \<and> remembered events = memories sha (ls_goal spec) new
     \<and> lp_memory_ids st = lp_memory_ids st0 @ map me_id (remembered events)
     \<and> lp_start st = first_probe events
     \<and> (new \<noteq> [] \<longrightarrow> \<not> reached (lp_tokens st0 + tokens_of (butlast (acts events))) (lc_budget_tokens cfg)
          \<and> \<not> reached (lp_cost st0 + cost_of (butlast (acts events))) (lc_max_cost cfg))"

text \<open>The events of a run that converged.\<close>

definition ends_in_win :: "loop_config \<Rightarrow> loop_event list \<Rightarrow> bool" where
  "ends_in_win cfg events \<longleftrightarrow> (\<exists>es pre a v post m. events = es @ [Probed pre, Acted a, Verified v, Probed post, Remembered m]
     \<and> me_kind m = Memory_Decision \<and> saw_win cfg (get_or None (first_probe events)) pre a v post)"

lemma account_step:
  assumes "run_account (lr_sha R) (lr_spec R) (lr_config R) k st0 new st events"
    "acted R (k + int (length new)) st st' r evs pre a checks c"
  shows "run_account (lr_sha R) (lr_spec R) (lr_config R) k st0 (new @ [c]) st' (events @ evs)"
    and "r = Some (True, s) \<Longrightarrow> s = Stop_Converged \<and> ends_in_win (lr_config R) (events @ evs)"
proof -
  let ?m = "contract_memory (lr_sha R) (ls_goal (lr_spec R)) c"
  have start: "lp_start st = first_probe events" using assms(1) by (simp add: run_account_def)
  have evs: "evs = [Probed pre, Acted a] @ checks @ memory_events ?m"
    and quiet: "\<forall>e\<in>set checks. \<exists>v. e = Verified v \<or> (\<exists>p. e = Probed p)"
    using assms(2) by (auto simp: acted_def Let_def)
  note quiet = checks_quiet [OF quiet]
  have seen: "first_probe (events @ evs) = Some (first_seen st pre)"
    by (simp add: first_probe_append evs first_seen_def start get_or_def split: option.splits)
  have numbers: "[k..k + int (length new)] = [k..k + int (length new) - 1] @ [k + int (length new)]"
    by (rule upto_rec2) simp
  have mem: "memories (lr_sha R) (ls_goal (lr_spec R)) (new @ [c]) = memories (lr_sha R) (ls_goal (lr_spec R)) new @ (case ?m of None \<Rightarrow> [] | Some m \<Rightarrow> [m])"
    by (simp add: memories_def List.map_filter_def split: option.splits)
  show "run_account (lr_sha R) (lr_spec R) (lr_config R) k st0 (new @ [c]) st' (events @ evs)"
    using assms seen numbers quiet
    by (auto simp: run_account_def acted_def Let_def mem memory_ids_def split: option.splits)
  show "s = Stop_Converged \<and> ends_in_win (lr_config R) (events @ evs)" if r: "r = Some (True, s)"
  proof -
    have won: "ic_outcome c = Loop_Win" using assms(2) r by (auto simp: acted_def Let_def split: if_splits)
    then obtain v post where "checks = [Verified v, Probed post]" "saw_win (lr_config R) (first_seen st pre) pre a v post"
      "s = Stop_Converged"
      using assms(2) r by (auto simp: acted_def Let_def)
    with won show ?thesis unfolding ends_in_win_def seen
      by (intro conjI exI [of _ events] exI [of _ pre] exI [of _ a] exI [of _ v] exI [of _ post]
          exI [of _ "win_memory (lr_sha R) (ls_goal (lr_spec R)) c"])
        (simp_all add: evs contract_memory_def memory_events_def get_or_def win_memory_def Let_def)
  qed
qed

lemma loop_iterations_account:
  assumes "loop_iterations R is st (w, l) = ((w', l'), st', conv, stop)" "lr_env R = watched env"
    "is = [k + int (length new)..m]" "run_account (lr_sha R) (lr_spec R) (lr_config R) k st0 new st l" "k + int (length new) \<le> max k (m + 1)"
  shows "\<exists>new'. run_account (lr_sha R) (lr_spec R) (lr_config R) k st0 (new @ new') st' l'
     \<and> k + int (length (new @ new')) \<le> max k (m + 1)
     \<and> (conv \<longrightarrow> stop = Stop_Converged \<and> ends_in_win (lr_config R) l')"
  using assms
proof (induction "is" arbitrary: st w l new)
  case Nil
  then have "l' = l" "st' = save_loop_checkpoint R st" "\<not> conv" by auto
  with Nil.prems(4,5) show ?case by (intro exI [of _ "[]"]) (simp add: run_account_def save_loop_checkpoint_def)
next
  case (Cons i "is")
  from Cons.prems(3) have i: "i = k + int (length new)" "i \<le> m" "is = [k + int (length (new @ [c]))..m]" for c
    by (auto simp: upto.simps [of "k + int (length new)"] ac_simps split: if_splits)
  obtain w1 l1 st1 r where it: "loop_iteration R i st (w, l) = ((w1, l1), st1, r)" by (metis prod.exhaust)
  from iteration_watched [OF it Cons.prems(2)]
  consider (stopped) s where "l1 = l" "st1 = st" "r = Some (False, s)"
    | (acted) evs pre a checks c where "l1 = l @ evs" "acted R i st st1 r evs pre a checks c" by blast
  then show ?case
  proof cases
    case stopped
    with Cons.prems(1,4,5) it show ?thesis by (intro exI [of _ "[]"]) auto
  next
    case acted
    note step = account_step [OF Cons.prems(4), of st1 r evs pre a checks c]
    from acted(2) i(1) step(1) have acc: "run_account (lr_sha R) (lr_spec R) (lr_config R) k st0 (new @ [c]) st1 l1"
      by (simp add: acted(1))
    have room: "k + int (length (new @ [c])) \<le> max k (m + 1)" using i by simp
    show ?thesis
    proof (cases r)
      case None
      with Cons.prems(1) it have "loop_iterations R is st1 (w1, l1) = ((w', l'), st', conv, stop)" by simp
      from Cons.IH [OF this Cons.prems(2) i(3) acc room] obtain new' where
        "run_account (lr_sha R) (lr_spec R) (lr_config R) k st0 ((new @ [c]) @ new') st' l'"
        "k + int (length ((new @ [c]) @ new')) \<le> max k (m + 1)"
        "conv \<longrightarrow> stop = Stop_Converged \<and> ends_in_win (lr_config R) l'" by blast
      then show ?thesis by (intro exI [of _ "c # new'"]) simp
    next
      case (Some q)
      with Cons.prems(1) it have "l' = l1" "st' = st1" "q = (conv, stop)" by (auto split: prod.splits)
      with acc room step(2) acted i(1) Some show ?thesis by (intro exI [of _ "[c]"]) auto
    qed
  qed
qed

subsection \<open>Checkpoints of a run\<close>

text \<open>The store holds the state as it is.\<close>

definition saved :: "'w loop_run \<Rightarrow> loop_state \<Rightarrow> bool" where
  "saved R st \<longleftrightarrow> (case lp_store st of None \<Rightarrow> True
     | Some s \<Rightarrow> map_of s (run_key (lr_sha R) (lr_spec R) (lr_config R)) = Some (snapshot (lr_spec R) (lr_config R) st))"

lemma save_saved: "saved R (save_loop_checkpoint R st)"
  by (simp add: saved_def save_loop_checkpoint_def snapshot_def dict_simps split: option.splits)

lemma save_store: "lp_store (save_loop_checkpoint R st) = None \<longleftrightarrow> lp_store st = None"
  by (simp add: save_loop_checkpoint_def)

lemma breaker_store:
  "lp_store (fst (noop_breaker cfg b st)) = lp_store st" "lp_store (fst (duplicate_breaker cfg sig st)) = lp_store st"
  "lp_store (fst (error_breaker cfg h st)) = lp_store st" "lp_store (fst (progress_breaker cfg sig st)) = lp_store st"
  by (simp_all add: noop_breaker_def duplicate_breaker_def error_breaker_def progress_breaker_def Let_def)

lemma breaker_then_store:
  "(\<And>s. lp_store (fst (f s)) = lp_store s) \<Longrightarrow> lp_store (fst (breaker_then r f)) = lp_store (fst r)"
  unfolding breaker_then_def by (auto split: prod.splits option.splits)

lemma after_loss_store: "lp_store (fst (after_loss R b c st)) = lp_store st"
  by (simp add: after_loss_def Let_def breaker_then_store breaker_store)

lemma remember_store: "lp_store (fst (remember R m st w)) = lp_store st"
  by (simp add: remember_def split: option.splits)

lemma forced_stop_store:
  assumes "forced_stop R c stop st w = (w', st', r)"
  shows "saved R st' \<and> (lp_store st' = None \<longleftrightarrow> lp_store st = None)"
  using assms remember_store [of R "loss_memory (lr_sha R) (ls_goal (lr_spec R)) c" "add_contract c st" w]
  by (auto simp: forced_stop_def save_saved save_store add_contract_def split: prod.splits)

lemma settle_store:
  assumes "settle_iteration R b c st w = (w', st', r)"
  shows "saved R st' \<and> (lp_store st' = None \<longleftrightarrow> lp_store st = None)"
proof (cases "ic_outcome c = Loop_Win")
  case True
  with assms remember_store [of R "Some (win_memory (lr_sha R) (ls_goal (lr_spec R)) c)" "(add_contract c st)\<lparr>lp_noops := 0\<rparr>" w]
  show ?thesis by (auto simp: settle_iteration_def save_saved save_store add_contract_def split: prod.splits)
next
  case False
  obtain s1 w1 where m: "remember R (loss_memory (lr_sha R) (ls_goal (lr_spec R)) c) (add_contract c st) w = (s1, w1)" by fastforce
  obtain s2 stop where loss: "after_loss R b c s1 = (s2, stop)" by fastforce
  from assms False m loss have "st' = save_loop_checkpoint R s2" by (auto simp: settle_iteration_def)
  with remember_store [of R "loss_memory (lr_sha R) (ls_goal (lr_spec R)) c" "add_contract c st" w] after_loss_store [of R b c s1] m loss
  show ?thesis by (simp add: save_saved save_store add_contract_def)
qed

lemma prepared_store: "lp_store (add_spent a (see_start pre (apply_route d st))) = lp_store st"
  by (simp add: add_spent_def see_start_def apply_route_def)

lemma act_store:
  assumes "act_and_verify R i st w = (w', st', r)"
  shows "saved R st' \<and> (lp_store st' = None \<longleftrightarrow> lp_store st = None)"
  using assms unfolding act_and_verify_def Let_def
  by (auto simp: prepared_store split: prod.splits option.splits if_splits dest!: forced_stop_store settle_store)

lemma loop_iterations_store:
  assumes "loop_iterations R is st w = (w', st', conv, stop)"
  shows "(st' = st \<or> saved R st') \<and> (lp_store st' = None \<longleftrightarrow> lp_store st = None)"
  using assms
proof (induction "is" arbitrary: st w)
  case Nil
  then show ?case by (auto simp: save_saved save_store)
next
  case (Cons i "is")
  obtain w1 st1 r where it: "loop_iteration R i st w = (w1, st1, r)" by (metis prod.exhaust)
  then have "st1 = st \<and> r \<noteq> None \<or> saved R st1 \<and> (lp_store st1 = None \<longleftrightarrow> lp_store st = None)"
    by (auto simp: loop_iteration_def split: prod.splits option.splits dest!: act_store)
  with Cons it show ?case by (cases r) (auto split: prod.splits)
qed

subsection \<open>The result of a run\<close>

lemma start_state_start: "start_state sha spec cfg resume store = (st, k) \<Longrightarrow> lp_start st = None \<and> lp_store st = store"
  by (auto simp: start_state_def new_loop_state_def restore_def split: option.splits)

lemma run_loop_account:
  assumes "run_loop (watched env) sha repo spec cfg resume store (w, []) = ((w', events), store', res)"
    "start_state sha spec cfg resume store = (st0, k)"
  shows "\<exists>new st. run_account sha spec cfg k st0 new st events \<and> k + int (length new) \<le> max k (lc_max_iterations cfg + 1)
     \<and> (lres_converged res \<longrightarrow> lres_stop res = Stop_Converged \<and> ends_in_win cfg events)
     \<and> lres_iterations res = lp_iterations st \<and> lres_memory_ids res = lp_memory_ids st \<and> lres_tokens res = lp_tokens st
     \<and> (lres_stop res \<in> resumable_stops \<longrightarrow> new \<noteq> [] \<longrightarrow> store' = lp_store st
          \<and> (\<forall>s. lp_store st = Some s \<longrightarrow> map_of s (run_key sha spec cfg) = Some (snapshot spec cfg st))
          \<and> (lp_store st = None \<longleftrightarrow> store = None))"
proof -
  obtain w1 wt where tree: "(if lc_isolate cfg then le_setup (watched env) repo (w, []) else ((w, []), None)) = ((w1, []), wt)"
    by (cases "lc_isolate cfg") (auto simp: watched_simps)
  obtain w2 t where clock: "le_clock (watched env) (w1, []) = ((w2, []), t)" by (simp add: watched_simps)
  define R where "R = \<lparr>lr_env = watched env, lr_sha = sha, lr_spec = spec, lr_config = cfg, lr_root = get_or repo wt, lr_wall_start = t\<rparr>"
  obtain w3 l3 st conv stop where loop: "loop_iterations R [k..lc_max_iterations cfg] st0 (w2, []) = ((w3, l3), st, conv, stop)"
    by (metis prod.exhaust)
  from assms tree clock loop have res: "events = l3" "lres_converged res = conv" "lres_stop res = stop"
    "lres_iterations res = lp_iterations st" "lres_memory_ids res = lp_memory_ids st" "lres_tokens res = lp_tokens st"
    "store' = (if stop \<in> resumable_stops then lp_store st else lp_store (clear_loop_checkpoint R st))"
    by (auto simp: run_loop_def R_def Let_def watched_simps split: prod.splits option.splits)
  note st0 = start_state_start [OF assms(2)]
  have "run_account (lr_sha R) (lr_spec R) (lr_config R) k st0 [] st0 []"
    using st0 by (simp add: run_account_def memories_def List.map_filter_simps)
  from loop_iterations_account [OF loop, of env k "[]" "lc_max_iterations cfg" st0] this
  obtain new where acc: "run_account sha spec cfg k st0 new st l3" "k + int (length new) \<le> max k (lc_max_iterations cfg + 1)"
    "conv \<longrightarrow> stop = Stop_Converged \<and> ends_in_win cfg l3"
    by (auto simp: R_def)
  from loop_iterations_store [OF loop] have store: "st = st0 \<or> saved R st" "lp_store st = None \<longleftrightarrow> lp_store st0 = None" by auto
  have "st = st0 \<longrightarrow> new = []" using acc(1) by (auto simp: run_account_def)
  with acc store st0 show ?thesis unfolding res
    by (intro exI [of _ new] exI [of _ st]) (auto simp: saved_def R_def split: option.splits)
qed




lemma fresh_start: "start_state sha spec cfg False store = (new_loop_state store, 1)"
  by (simp add: start_state_def)

text \<open>
  C6: A run is bounded by its configuration: the agent is called at most \<open>max_iterations\<close> times, each
  call has one contract, numbered from one without a gap, the tokens reported are those of the calls,
  and at the last call the tokens and the cost spent so far were still below their limits.
\<close>

theorem loop_is_bounded:
  assumes "run_loop (watched env) sha repo spec cfg False store (w, []) = ((w', events), store', res)"
  shows "int (length (acts events)) \<le> max 0 (lc_max_iterations cfg)
     \<and> map ic_iteration (lres_iterations res) = [1..int (length (acts events))]
     \<and> map ic_tokens (lres_iterations res) = map ag_tokens (acts events)
     \<and> lres_tokens res = tokens_of (acts events)
     \<and> (acts events = [] \<or> \<not> reached (tokens_of (butlast (acts events))) (lc_budget_tokens cfg)
          \<and> \<not> reached (cost_of (butlast (acts events))) (lc_max_cost cfg))"
proof -
  from run_loop_account [OF assms fresh_start] obtain new st where
    acc: "run_account sha spec cfg 1 (new_loop_state store) new st events" "1 + int (length new) \<le> max 1 (lc_max_iterations cfg + 1)"
    and res: "lres_iterations res = lp_iterations st" "lres_tokens res = lp_tokens st" by blast
  from acc(1) have "map ic_tokens new = map ag_tokens (acts events)" by (simp add: run_account_def)
  then have "length (acts events) = length new" by (metis length_map)
  with acc res show ?thesis by (auto simp: run_account_def new_loop_state_def)
qed

text \<open>
  What a run remembers is what its contracts say: one decision for the contract of a win, one failed
  approach for each loss that is not of the environment's making, in order, and nothing else; the ids
  it reports are theirs.
\<close>

theorem loop_remembers_its_contracts:
  assumes "run_loop (watched env) sha repo spec cfg False store (w, []) = ((w', events), store', res)"
  shows "remembered events = memories sha (ls_goal spec) (lres_iterations res)
     \<and> lres_memory_ids res = map me_id (remembered events)"
proof -
  from run_loop_account [OF assms fresh_start] obtain new st where
    "run_account sha spec cfg 1 (new_loop_state store) new st events"
    "lres_iterations res = lp_iterations st" "lres_memory_ids res = lp_memory_ids st" by blast
  then show ?thesis by (simp add: run_account_def new_loop_state_def)
qed

text \<open>
  C7: A run that a limit or the provider stopped is not lost: resumed with the same goal and verifier,
  under whatever other limits, it keeps every contract and memory of the stopped run, numbers its own
  iterations on from them, and counts its tokens on top of theirs.
\<close>

theorem resumed_run_extends:
  assumes "run_loop (watched env1) sha repo1 spec cfg1 False (Some s) (w1, []) = ((v1, events1), store1, r1)"
    "lres_stop r1 \<in> resumable_stops" "lres_iterations r1 \<noteq> []"
    "run_loop (watched env2) sha repo2 spec cfg2 True store1 (w2, []) = ((v2, events2), store2, r2)"
    "lc_verify cfg2 = lc_verify cfg1"
  shows "\<exists>new. lres_iterations r2 = lres_iterations r1 @ new
     \<and> map ic_iteration (lres_iterations r2) = [1..int (length (lres_iterations r2))]
     \<and> length (acts events2) = length new
     \<and> lres_tokens r2 = lres_tokens r1 + tokens_of (acts events2)
     \<and> lres_memory_ids r2 = lres_memory_ids r1 @ map me_id (remembered events2)"
proof -
  from run_loop_account [OF assms(1) fresh_start] obtain old st where
    a1: "run_account sha spec cfg1 1 (new_loop_state (Some s)) old st events1" and
    r1: "lres_iterations r1 = lp_iterations st" "lres_memory_ids r1 = lp_memory_ids st" "lres_tokens r1 = lp_tokens st" and
    kept: "lres_stop r1 \<in> resumable_stops \<longrightarrow> old \<noteq> [] \<longrightarrow> store1 = lp_store st
          \<and> (\<forall>s. lp_store st = Some s \<longrightarrow> map_of s (run_key sha spec cfg1) = Some (snapshot spec cfg1 st))
          \<and> (lp_store st = None \<longleftrightarrow> Some s = None)" by (elim exE conjE) (rule that)
  from a1 r1 have old: "lres_iterations r1 = old" by (simp add: run_account_def new_loop_state_def)
  with assms(2,3) kept obtain s1 where s1: "store1 = Some s1" "map_of s1 (run_key sha spec cfg1) = Some (snapshot spec cfg1 st)"
    by auto
  have numbers: "map ic_iteration old = [1..int (length old)]" using a1 by (simp add: run_account_def)
  have last: "ic_iteration (last old) = int (length old)"
  proof -
    from old assms(3) have "old \<noteq> []" by simp
    then have "ic_iteration (last old) = last (map ic_iteration old)" by (simp add: last_map)
    also have "\<dots> = int (length old)" using \<open>old \<noteq> []\<close> numbers by (simp add: upto_rec2 Suc_leI)
    finally show ?thesis .
  qed
  have key: "run_key sha spec cfg2 = run_key sha spec cfg1" by (simp add: run_key_def assms(5))
  from s1 old r1 assms(3) last have "start_state sha spec cfg2 True store1 = (restore (snapshot spec cfg1 st) (Some s1), int (length old) + 1)"
    by (simp add: start_state_def key snapshot_def)
  from run_loop_account [OF assms(4) this] obtain new st2 where
    a2: "run_account sha spec cfg2 (int (length old) + 1) (restore (snapshot spec cfg1 st) (Some s1)) new st2 events2" and
    r2: "lres_iterations r2 = lp_iterations st2" "lres_memory_ids r2 = lp_memory_ids st2" "lres_tokens r2 = lp_tokens st2" by blast
  have its: "lres_iterations r2 = old @ new" using a2 r2 old r1 by (simp add: run_account_def restore_def snapshot_def)
  have "map ic_iteration (old @ new) = [1..int (length old)] @ [int (length old) + 1..int (length old) + int (length new)]"
    using a2 numbers by (simp add: run_account_def)
  also have "\<dots> = [1..int (length (old @ new))]"
  proof -
    have "1 \<le> int (length old)" using old assms(3) by (simp add: Suc_leI)
    then show ?thesis using upto_split2 [of 1 "int (length old)" "int (length old) + int (length new)"] by simp
  qed
  finally have numbered: "map ic_iteration (old @ new) = [1..int (length (old @ new))]" .
  from a2 have "map ic_tokens new = map ag_tokens (acts events2)" by (simp add: run_account_def)
  then have "length (acts events2) = length new" by (metis length_map)
  with its numbered a2 r2 r1 old show ?thesis
    by (intro exI [of _ new]) (simp add: run_account_def restore_def snapshot_def)
qed

subsection \<open>What a checkpoint leaves out\<close>

text \<open>
  The tree the run began with is not in the checkpoint.  A pass of an iteration that changed nothing
  counts when earlier iterations of the run changed the tree; after a resume it is vacuous.
\<close>

lemma resumed_idle_pass_is_vacuous:
  assumes "lp_start st = Some (Some before)" "before \<noteq> now" "vo_passed v"
  shows "\<not> vacuous_pass (first_seen st (Some now)) (Some now) (Some now) v
    \<and> vacuous_pass (first_seen (restore (snapshot spec cfg st) store) (Some now)) (Some now) (Some now) v"
  using assms by (simp add: vacuous_pass_def first_seen_def changed_since_def get_or_def restore_def)

end
