(* ===== verification/Loop_Witnesses.thy ===== *)
theory Loop_Witnesses
  imports Loop_Props
begin

section \<open>The properties of the loop at concrete runs\<close>

text \<open>
  A small repository: the tree and the number of agent runs.  The first agent run edits the tree and the
  tests pass from then on; in the other surroundings the provider is unavailable.
\<close>

definition toy_env :: "string option \<Rightarrow> (string \<times> nat) loop_env" where
  "toy_env err = \<lparr>le_agent = (\<lambda>p k (t, n). ((''edited'', n + 1), \<lparr>ag_output = [], ag_prediction = [], ag_files = [], ag_tokens = Some 5, ag_cost = None, ag_error = err\<rparr>)),
     le_verify = (\<lambda>c (t, n). ((t, n), \<lparr>vo_passed = (1 \<le> n), vo_output = []\<rparr>)), le_probe = (\<lambda>r (t, n). ((t, n), Some t)),
     le_clock = (\<lambda>s. (s, 0)), le_continue = (\<lambda>s. (s, True)), le_recall = (\<lambda>g s. None), le_guard = (\<lambda>g s. None),
     le_upsert = (\<lambda>m s. s), le_setup = (\<lambda>r s. (s, None)), le_teardown = (\<lambda>p k s. s)\<rparr>"

definition toy_config :: loop_config where
  "toy_config = default_loop_config\<lparr>lc_max_iterations := 1\<rparr>"

definition toy_spec :: loop_spec where
  "toy_spec = \<lparr>ls_goal = ''g'', ls_success = []\<rparr>"

definition toy_run :: "string option \<Rightarrow> bool \<Rightarrow> checkpoint_store \<Rightarrow> ((string \<times> nat) \<times> loop_event list) \<times> checkpoint_store \<times> loop_result" where
  "toy_run err resume store = run_loop (watched (toy_env err)) (\<lambda>s. s) [] toy_spec toy_config resume store ((''new'', 0), [])"

lemma one_iteration: "[1..1::int] = [1]"
  by simp

lemmas toy_defs = toy_run_def toy_env_def toy_config_def toy_spec_def default_loop_config_def watched_def note_event_def unnoted_def

lemmas run_defs = run_loop_def start_state_def new_loop_state_def loop_iteration_def stop_before_def reached_def
  act_and_verify_def apply_route_def route_next_iteration_def signals_of_def see_start_def add_spent_def get_or_def
  vacuous_pass_def changed_since_def judge_iteration_def scope_declared_def settle_iteration_def contract_of_def remember_def
  add_contract_def verifier_unavailable_def lstrip_def


lemma toy_unavailable: "lres_stop (snd (snd (toy_run (Some ''[transient-infra] 503'') False (Some [])))) = Stop_Agent_Unavailable
   \<and> lres_iterations (snd (snd (toy_run (Some ''[transient-infra] 503'') False (Some [])))) \<noteq> []"
  by (simp add: toy_defs run_defs forced_stop_def loss_memory_def environment_failure_def env_patterns_def lower_def lower_char_def
      agent_error_stop_reason_def py_space_def save_loop_checkpoint_def clear_loop_checkpoint_def Let_def)

lemma toy_run_parts: "run_loop (watched (toy_env err)) (\<lambda>s. s) [] toy_spec toy_config resume store ((''new'', 0), []) =
    ((fst (fst (toy_run err resume store)), snd (fst (toy_run err resume store))), fst (snd (toy_run err resume store)), snd (snd (toy_run err resume store)))"
  by (simp add: toy_run_def)


theorem loop_is_bounded_witness:
  "length (acts (snd (fst (toy_run None False None)))) \<le> 1 \<and> lres_tokens (snd (snd (toy_run None False None))) = 5"
proof -
  have "lres_tokens (snd (snd (toy_run None False None))) = 5"
    by (simp add: toy_defs run_defs win_memory_def save_loop_checkpoint_def clear_loop_checkpoint_def Let_def)
  with loop_is_bounded [OF toy_run_parts, of None None] show ?thesis by (auto simp: toy_config_def)
qed

theorem loop_remembers_its_contracts_witness:
  "lres_memory_ids (snd (snd (toy_run None False None))) = map me_id (remembered (snd (fst (toy_run None False None))))
   \<and> lres_memory_ids (snd (snd (toy_run None False None))) \<noteq> []"
proof -
  have "lres_memory_ids (snd (snd (toy_run None False None))) \<noteq> []"
    by (simp add: toy_defs run_defs save_loop_checkpoint_def clear_loop_checkpoint_def Let_def)
  with loop_remembers_its_contracts [OF toy_run_parts, of None None] show ?thesis by blast
qed

theorem resumed_run_extends_witness:
  "\<exists>new. lres_iterations (snd (snd (toy_run None True (fst (snd (toy_run (Some ''[transient-infra] 503'') False (Some [])))))))
     = lres_iterations (snd (snd (toy_run (Some ''[transient-infra] 503'') False (Some [])))) @ new"
proof -
  have stopped: "lres_stop (snd (snd (toy_run (Some ''[transient-infra] 503'') False (Some [])))) \<in> resumable_stops"
    using toy_unavailable by (simp add: resumable_stops_def)
  show ?thesis
    using resumed_run_extends [OF toy_run_parts stopped conjunct2 [OF toy_unavailable] toy_run_parts refl] by blast
qed

end
