(* ===== verification/Refinery_Queue.thy ===== *)
theory Refinery_Queue
  imports Py_Base "HOL-Library.Product_Lexorder" "HOL-Library.Sublist"
begin

section \<open>Refinery: the merge queue and its driver\<close>

text \<open>
  \<open>refinery/queue.py\<close> and \<open>refinery/driver.py\<close>: the queue as a value, its file, the gate computed
  from what \<open>gh pr view\<close> prints, and the driver over a GitHub adapter that is a parameter changing a
  world of any type.  The queue file is missing, unreadable, or a document whose fields are missing
  or have the types the writer gives them.  The clock of \<open>enqueue\<close> is an argument.
\<close>

subsection \<open>The queue\<close>

datatype pr_state = PR_Queued | PR_Testing | PR_Merged | PR_Kicked

fun pr_state_value :: "pr_state \<Rightarrow> string" where
  "pr_state_value PR_Queued = ''queued''"
| "pr_state_value PR_Testing = ''testing''"
| "pr_state_value PR_Merged = ''merged''"
| "pr_state_value PR_Kicked = ''kicked''"

datatype ci_status = CI_Behind | CI_Pending | CI_Green | CI_Red | CI_Blocked

datatype queue_action = Q_Wait | Q_Rebase | Q_Merge | Q_Kick | Q_Done

record queue_entry =
  qe_pr :: int
  qe_priority :: int
  qe_state :: pr_state
  qe_reason :: string
  qe_at :: rat
  qe_position :: int

record merge_queue =
  mq_entries :: "queue_entry list"
  mq_version :: int

definition empty_queue :: merge_queue where
  "empty_queue = \<lparr>mq_entries = [], mq_version = 0\<rparr>"

definition queue_key :: "queue_entry \<Rightarrow> int \<times> int" where
  "queue_key e = (- qe_priority e, qe_position e)"

definition sorted_entries :: "queue_entry list \<Rightarrow> queue_entry list" where
  "sorted_entries es = sort_key queue_key es"

definition enqueue :: "rat \<Rightarrow> int \<Rightarrow> int \<Rightarrow> merge_queue \<Rightarrow> merge_queue" where
  "enqueue now pr priority q =
     (case find (\<lambda>e. qe_pr e = pr) (mq_entries q) of
        Some old \<Rightarrow>
          (let new = old\<lparr>qe_priority := priority\<rparr> in
           \<lparr>mq_entries = sorted_entries (map (\<lambda>e. if qe_pr e = pr then new else e) (mq_entries q)),
            mq_version = mq_version q + 1\<rparr>)
      | None \<Rightarrow>
          (let new = \<lparr>qe_pr = pr, qe_priority = priority, qe_state = PR_Queued, qe_reason = [], qe_at = now,
                      qe_position = int (length (mq_entries q))\<rparr> in
           \<lparr>mq_entries = sorted_entries (mq_entries q @ [new]), mq_version = mq_version q + 1\<rparr>))"

definition drop_pr :: "int \<Rightarrow> merge_queue \<Rightarrow> merge_queue" where
  "drop_pr pr q = \<lparr>mq_entries = filter (\<lambda>e. qe_pr e \<noteq> pr) (mq_entries q), mq_version = mq_version q + 1\<rparr>"

definition clear_queue :: "merge_queue \<Rightarrow> merge_queue" where
  "clear_queue q = \<lparr>mq_entries = [], mq_version = mq_version q + 1\<rparr>"

definition terminal :: "queue_entry \<Rightarrow> bool" where
  "terminal e \<longleftrightarrow> qe_state e \<in> {PR_Merged, PR_Kicked}"

definition active_entries :: "merge_queue \<Rightarrow> queue_entry list" where
  "active_entries q = filter (\<lambda>e. \<not> terminal e) (mq_entries q)"

definition head_entry :: "merge_queue \<Rightarrow> queue_entry option" where
  "head_entry q = (case active_entries q of [] \<Rightarrow> None | e # _ \<Rightarrow> Some e)"

definition set_state :: "int \<Rightarrow> pr_state \<Rightarrow> string \<Rightarrow> merge_queue \<Rightarrow> merge_queue" where
  "set_state pr s reason q =
     \<lparr>mq_entries = map (\<lambda>e. if qe_pr e = pr then e\<lparr>qe_state := s, qe_reason := reason\<rparr> else e) (mq_entries q),
      mq_version = mq_version q + 1\<rparr>"

fun next_action :: "ci_status \<Rightarrow> queue_action" where
  "next_action CI_Behind = Q_Rebase"
| "next_action CI_Pending = Q_Wait"
| "next_action CI_Green = Q_Merge"
| "next_action CI_Red = Q_Kick"
| "next_action CI_Blocked = Q_Kick"

subsection \<open>The file\<close>

record raw_entry =
  re_pr :: "int option"
  re_priority :: "int option"
  re_state :: "string option"
  re_reason :: "string option"
  re_at :: "rat option"
  re_position :: "int option"

datatype queue_file = No_Queue_File | Bad_Queue_File | Queue_Doc "int option" "raw_entry list option"

definition read_state :: "string \<Rightarrow> (unit, pr_state) result" where
  "read_state s = (if s = ''queued'' then Inr PR_Queued else if s = ''testing'' then Inr PR_Testing
     else if s = ''merged'' then Inr PR_Merged else if s = ''kicked'' then Inr PR_Kicked else Inl ())"

definition read_entry :: "nat \<times> raw_entry \<Rightarrow> (unit, queue_entry) result" where
  "read_entry = (\<lambda>(i, r).
     case re_pr r of None \<Rightarrow> Inl ()
     | Some pr \<Rightarrow> rbind (read_state (get_or ''queued'' (re_state r))) (\<lambda>s.
         Inr \<lparr>qe_pr = pr, qe_priority = get_or 0 (re_priority r), qe_state = s, qe_reason = get_or [] (re_reason r),
              qe_at = get_or 0 (re_at r), qe_position = get_or (int i) (re_position r)\<rparr>))"

definition load_queue :: "queue_file \<Rightarrow> merge_queue" where
  "load_queue f = (case f of
     Queue_Doc v es \<Rightarrow>
       (case rmap read_entry (enumerate 0 (get_or [] es)) of
          Inl _ \<Rightarrow> empty_queue
        | Inr entries \<Rightarrow> \<lparr>mq_entries = entries, mq_version = get_or 0 v\<rparr>)
   | _ \<Rightarrow> empty_queue)"

definition raw_of :: "queue_entry \<Rightarrow> raw_entry" where
  "raw_of e = \<lparr>re_pr = Some (qe_pr e), re_priority = Some (qe_priority e), re_state = Some (pr_state_value (qe_state e)),
     re_reason = Some (qe_reason e), re_at = Some (qe_at e), re_position = Some (qe_position e)\<rparr>"

definition save_queue :: "merge_queue \<Rightarrow> queue_file" where
  "save_queue q = Queue_Doc (Some (mq_version q)) (Some (map raw_of (mq_entries q)))"

subsection \<open>The gate of the real adapter\<close>

record check_run =
  cr_name :: "string option"
  cr_context :: "string option"
  cr_status :: "string option"
  cr_conclusion :: "string option"

record pr_view =
  vw_mergeable :: string
  vw_checks :: "check_run list"

definition check_status :: "check_run \<Rightarrow> string" where
  "check_status c = upper (get_or [] (cr_status c))"

definition check_conclusion :: "check_run \<Rightarrow> string" where
  "check_conclusion c = lower (get_or [] (cr_conclusion c))"

text \<open>\<open>check.get("name") or check.get("context") or ""\<close>.\<close>

definition check_name :: "check_run \<Rightarrow> string" where
  "check_name c = lower (if get_or [] (cr_name c) \<noteq> [] then get_or [] (cr_name c) else get_or [] (cr_context c))"

definition running_states :: "string list" where
  "running_states = [''IN_PROGRESS'', ''QUEUED'', ''WAITING'', ''REQUESTED'', ''PENDING'']"

definition failed_conclusions :: "string list" where
  "failed_conclusions = [''failure'', ''cancelled'', ''timed_out'', ''action_required'']"

definition codeql_failed :: "check_run \<Rightarrow> bool" where
  "codeql_failed c \<longleftrightarrow> contains (check_name c) ''codeql'' \<and> check_conclusion c \<in> {''failure'', ''cancelled''}"

fun first_verdict :: "check_run list \<Rightarrow> ci_status option" where
  "first_verdict [] = None"
| "first_verdict (c # cs) = (if codeql_failed c then Some CI_Red
     else if check_status c \<in> set running_states then Some CI_Pending else first_verdict cs)"

text \<open>\<open>RealGh.pr_state\<close>: \<open>None\<close> is a failed or unreadable \<open>gh pr view\<close>.\<close>

definition pr_gate :: "pr_view option \<Rightarrow> ci_status" where
  "pr_gate v = (case v of None \<Rightarrow> CI_Pending
     | Some v \<Rightarrow>
         if vw_mergeable v = ''CONFLICTING'' then CI_Blocked
         else if vw_mergeable v = ''BEHIND'' then CI_Behind
         else if vw_checks v = [] then CI_Pending
         else case first_verdict (vw_checks v) of Some s \<Rightarrow> s
           | None \<Rightarrow> if list_ex (\<lambda>c. check_conclusion c \<in> set failed_conclusions) (vw_checks v)
                     then CI_Red else CI_Green)"

subsection \<open>The driver\<close>

record 'w gh_adapter =
  gh_pr_state :: "int \<Rightarrow> 'w \<Rightarrow> 'w \<times> ci_status"
  gh_update_branch :: "int \<Rightarrow> 'w \<Rightarrow> 'w \<times> bool"
  gh_merge :: "int \<Rightarrow> 'w \<Rightarrow> 'w \<times> bool"

record process_result =
  px_pr :: int
  px_action :: queue_action
  px_success :: bool
  px_reason :: string

fun kick_reason :: "ci_status \<Rightarrow> string" where
  "kick_reason CI_Red = ''CI checks failed (quality matrix or CodeQL)''"
| "kick_reason CI_Blocked = ''merge conflict - rebase failed''"
| "kick_reason CI_Behind = ''unexpected CI status: behind''"
| "kick_reason CI_Pending = ''unexpected CI status: pending''"
| "kick_reason CI_Green = ''unexpected CI status: green''"

text \<open>
  One turn of the loop on the head \<open>e\<close>: the queue, the world, the result, and whether the loop goes
  on.  Every turn saves the queue it leaves.
\<close>

definition process_head :: "'w gh_adapter \<Rightarrow> queue_entry \<Rightarrow> merge_queue \<Rightarrow> 'w
    \<Rightarrow> merge_queue \<times> 'w \<times> process_result \<times> bool" where
  "process_head gh e q w =
     (case gh_pr_state gh (qe_pr e) w of (w1, status) \<Rightarrow>
        (case next_action status of
           Q_Wait \<Rightarrow> (set_state (qe_pr e) PR_Testing [] q, w1,
                      \<lparr>px_pr = qe_pr e, px_action = Q_Wait, px_success = True, px_reason = []\<rparr>, False)
         | Q_Rebase \<Rightarrow> (case gh_update_branch gh (qe_pr e) w1 of (w2, ok) \<Rightarrow>
             if ok then (set_state (qe_pr e) PR_Testing [] q, w2,
                         \<lparr>px_pr = qe_pr e, px_action = Q_Rebase, px_success = True, px_reason = []\<rparr>, False)
             else (set_state (qe_pr e) PR_Kicked ''rebase/update-branch failed (conflict)'' q, w2,
                   \<lparr>px_pr = qe_pr e, px_action = Q_Rebase, px_success = False,
                    px_reason = ''rebase/update-branch failed (conflict)''\<rparr>, True))
         | Q_Merge \<Rightarrow> (case gh_merge gh (qe_pr e) w1 of (w2, ok) \<Rightarrow>
             if ok then (set_state (qe_pr e) PR_Merged [] q, w2,
                         \<lparr>px_pr = qe_pr e, px_action = Q_Merge, px_success = True, px_reason = []\<rparr>, True)
             else (set_state (qe_pr e) PR_Kicked ''merge failed (possibly a race)'' q, w2,
                   \<lparr>px_pr = qe_pr e, px_action = Q_Merge, px_success = False,
                    px_reason = ''merge failed (possibly a race)''\<rparr>, True))
         | Q_Kick \<Rightarrow> (set_state (qe_pr e) PR_Kicked (kick_reason status) q, w1,
                      \<lparr>px_pr = qe_pr e, px_action = Q_Kick, px_success = False, px_reason = kick_reason status\<rparr>, True)
         | Q_Done \<Rightarrow> (q, w1, \<lparr>px_pr = qe_pr e, px_action = Q_Done, px_success = True, px_reason = []\<rparr>, True)))"

fun process_loop :: "nat \<Rightarrow> 'w gh_adapter \<Rightarrow> merge_queue \<Rightarrow> queue_file \<Rightarrow> 'w
    \<Rightarrow> merge_queue \<times> queue_file \<times> 'w \<times> process_result list" where
  "process_loop 0 gh q f w = (q, f, w, [])"
| "process_loop (Suc n) gh q f w =
     (case head_entry q of
        None \<Rightarrow> (q, f, w, [])
      | Some e \<Rightarrow>
          (case process_head gh e q w of (q', w', r, go) \<Rightarrow>
             if go then (case process_loop n gh q' (save_queue q') w' of (q2, f2, w2, rs) \<Rightarrow> (q2, f2, w2, r # rs))
             else (q', save_queue q', w', [r])))"

definition process :: "'w gh_adapter \<Rightarrow> int \<Rightarrow> merge_queue \<Rightarrow> queue_file \<Rightarrow> 'w
    \<Rightarrow> merge_queue \<times> queue_file \<times> 'w \<times> process_result list" where
  "process gh max_n q f w =
     (let loaded = load_queue f; current = (if mq_entries loaded = [] then q else loaded)
      in process_loop (nat max_n) gh current f w)"

subsection \<open>The commands\<close>

text \<open>
  \<open>refinery/commands.py\<close>: each command with what it reports.  \<open>run_command\<close> takes the adapter it
  constructs as an argument.
\<close>

definition queued_before :: "int \<Rightarrow> merge_queue \<Rightarrow> bool" where
  "queued_before pr q = list_ex (\<lambda>e. qe_pr e = pr) (mq_entries q)"

text \<open>\<open>next((i + 1 for i, e in enumerate(active) if e.pr == pr), None)\<close>.\<close>

definition queue_position :: "int \<Rightarrow> merge_queue \<Rightarrow> nat option" where
  "queue_position pr q = map_option (\<lambda>(i, e). i + 1) (find (\<lambda>(i, e). qe_pr e = pr) (enumerate 0 (active_entries q)))"

record add_report =
  ar_pr :: int
  ar_priority :: int
  ar_updated :: bool
  ar_position :: "nat option"

definition add_command :: "rat \<Rightarrow> int \<Rightarrow> int \<Rightarrow> queue_file \<Rightarrow> queue_file \<times> add_report" where
  "add_command now pr priority f =
     (let q = load_queue f; q' = enqueue now pr priority q in
      (save_queue q', \<lparr>ar_pr = pr, ar_priority = priority, ar_updated = queued_before pr q,
                        ar_position = queue_position pr q'\<rparr>))"

definition drop_command :: "int \<Rightarrow> queue_file \<Rightarrow> queue_file \<times> bool" where
  "drop_command pr f = (let q = load_queue f in (save_queue (drop_pr pr q), queued_before pr q))"

definition clear_command :: "queue_file \<Rightarrow> queue_file \<times> nat" where
  "clear_command f = (let q = load_queue f in (save_queue (clear_queue q), length (mq_entries q)))"

definition run_command :: "'w gh_adapter \<Rightarrow> int \<Rightarrow> queue_file \<Rightarrow> 'w \<Rightarrow> queue_file \<times> 'w \<times> process_result list" where
  "run_command gh max_n f w =
     (let q = load_queue f in
      if active_entries q = [] then (f, w, [])
      else case process gh max_n q f w of (_, f', w', rs) \<Rightarrow> (f', w', rs))"

end
