(* ===== verification/Refinery_Props.thy ===== *)
theory Refinery_Props
  imports Refinery_Queue "HOL-Library.Multiset"
begin

section \<open>What the merge queue and its driver guarantee\<close>

text \<open>
  The file gives the queue back, the queue stays in order without a PR twice over every sequence of
  the commands, and the driver acts on its head alone and merges nothing whose last reading was not
  green.  The calls of the driver are observed through an adapter that logs them, as the source's
  own \<open>FakeGh\<close> does.
\<close>

subsection \<open>The file\<close>

lemma read_state_value [simp]: "read_state (pr_state_value s) = Inr s"
  by (cases s) (simp_all add: read_state_def)

lemma read_entry_raw [simp]: "read_entry (i, raw_of e) = Inr e"
  by (simp add: read_entry_def raw_of_def get_or_def)

lemma rmap_read_raw: "rmap read_entry (enumerate n (map raw_of es)) = Inr es"
  by (induction es arbitrary: n) simp_all

lemma load_save [simp]: "load_queue (save_queue q) = q"
  by (simp add: load_queue_def save_queue_def rmap_read_raw get_or_def)

subsection \<open>The order of the queue\<close>

definition queue_ok :: "merge_queue \<Rightarrow> bool" where
  "queue_ok q \<longleftrightarrow> distinct (map qe_pr (mq_entries q)) \<and> sorted (map queue_key (mq_entries q))"

lemma sorted_entries_simps [simp]:
  "mset (sorted_entries es) = mset es" "set (sorted_entries es) = set es"
  "sorted (map queue_key (sorted_entries es))"
  by (simp_all add: sorted_entries_def)

lemma distinct_sorted_entries: "distinct (map qe_pr (sorted_entries es)) \<longleftrightarrow> distinct (map qe_pr es)"
proof -
  have "mset (map qe_pr (sorted_entries es)) = mset (map qe_pr es)" by simp
  then show ?thesis by (rule mset_eq_imp_distinct_iff)
qed

lemma enqueue_new:
  assumes "pr \<notin> qe_pr ` set (mq_entries q)"
  shows "enqueue now pr p q = \<lparr>mq_entries = sorted_entries (mq_entries q @ [\<lparr>qe_pr = pr, qe_priority = p,
      qe_state = PR_Queued, qe_reason = [], qe_at = now, qe_position = int (length (mq_entries q))\<rparr>]),
      mq_version = mq_version q + 1\<rparr>"
proof -
  from assms have "find (\<lambda>e. qe_pr e = pr) (mq_entries q) = None" by (auto simp: find_None_iff)
  then show ?thesis by (simp add: enqueue_def)
qed

lemma enqueue_old:
  assumes "pr \<in> qe_pr ` set (mq_entries q)"
  obtains e where "e \<in> set (mq_entries q)" "qe_pr e = pr"
    "enqueue now pr p q = \<lparr>mq_entries = sorted_entries (map (\<lambda>x. if qe_pr x = pr then e\<lparr>qe_priority := p\<rparr> else x)
       (mq_entries q)), mq_version = mq_version q + 1\<rparr>"
proof -
  from assms have "find (\<lambda>e. qe_pr e = pr) (mq_entries q) \<noteq> None" by (auto simp: find_None_iff)
  then obtain e where e: "find (\<lambda>e. qe_pr e = pr) (mq_entries q) = Some e" by blast
  then have "e \<in> set (mq_entries q)" "qe_pr e = pr" by (auto simp: find_Some_iff)
  with e show thesis by (intro that) (simp_all add: enqueue_def)
qed

lemma enqueue_ok: "queue_ok q \<Longrightarrow> queue_ok (enqueue now pr p q)"
proof (cases "pr \<in> qe_pr ` set (mq_entries q)")
  case False
  assume "queue_ok q"
  with False show ?thesis
    by (auto simp: enqueue_new queue_ok_def distinct_sorted_entries)
next
  case True
  assume ok: "queue_ok q"
  from True show ?thesis
  proof (rule enqueue_old [where now = now and p = p])
    fix e assume e: "qe_pr e = pr" and run: "enqueue now pr p q = \<lparr>mq_entries = sorted_entries
       (map (\<lambda>x. if qe_pr x = pr then e\<lparr>qe_priority := p\<rparr> else x) (mq_entries q)), mq_version = mq_version q + 1\<rparr>"
    have "map qe_pr (map (\<lambda>x. if qe_pr x = pr then e\<lparr>qe_priority := p\<rparr> else x) (mq_entries q)) = map qe_pr (mq_entries q)"
      using e by simp
    with ok show ?thesis unfolding run by (simp add: queue_ok_def distinct_sorted_entries del: map_map)
  qed
qed

lemma drop_ok: "queue_ok q \<Longrightarrow> queue_ok (drop_pr pr q)"
  by (simp add: drop_pr_def queue_ok_def distinct_map_filter sorted_filter)

lemma clear_ok: "queue_ok (clear_queue q)"
  by (simp add: clear_queue_def queue_ok_def)

lemma set_state_keys:
  "map qe_pr (mq_entries (set_state pr s r q)) = map qe_pr (mq_entries q)"
  "map queue_key (mq_entries (set_state pr s r q)) = map queue_key (mq_entries q)"
  by (auto simp: set_state_def queue_key_def)

lemma set_state_ok: "queue_ok q \<Longrightarrow> queue_ok (set_state pr s r q)"
  by (simp only: queue_ok_def set_state_keys)

text \<open>A PR put into a queue nothing was dropped from goes behind every entry of its priority.\<close>

definition positions_fit :: "merge_queue \<Rightarrow> bool" where
  "positions_fit q \<longleftrightarrow> (\<forall>e\<in>set (mq_entries q). qe_position e < int (length (mq_entries q)))"

lemma length_sorted_entries [simp]: "length (sorted_entries es) = length es"
  by (simp add: sorted_entries_def)

lemma enqueue_fifo:
  assumes "positions_fit q" "pr \<notin> qe_pr ` set (mq_entries q)"
  shows "\<exists>n. n \<in> set (mq_entries (enqueue now pr p q)) \<and> qe_pr n = pr \<and> qe_priority n = p
     \<and> (\<forall>e\<in>set (mq_entries q). qe_priority e = p \<longrightarrow> queue_key e < queue_key n)"
  using assms by (auto simp: enqueue_new positions_fit_def queue_key_def)

lemma enqueue_fit: "positions_fit q \<Longrightarrow> positions_fit (enqueue now pr p q)"
proof (cases "pr \<in> qe_pr ` set (mq_entries q)")
  case False
  assume "positions_fit q"
  with False show ?thesis by (fastforce simp: enqueue_new positions_fit_def)
next
  case True
  assume fit: "positions_fit q"
  from True show ?thesis
    by (rule enqueue_old [where now = now and p = p]) (use fit in \<open>auto simp: positions_fit_def\<close>)
qed

text \<open>
  After a drop the next position is the number of entries left, which an entry still waiting may
  have: PR 4, put in last, is tried before PR 3.
\<close>

lemma enqueue_after_drop_overtakes:
  "map qe_pr (mq_entries (enqueue 0 5 0 (enqueue 0 4 0 (drop_pr 2 (drop_pr 1
     (enqueue 0 3 0 (enqueue 0 2 0 (enqueue 0 1 0 empty_queue)))))))) = [4, 3, 5]"
  by (simp add: enqueue_def drop_pr_def empty_queue_def sorted_entries_def queue_key_def)

subsection \<open>The driver\<close>

datatype gh_call = Look int ci_status | Update_Branch int bool | Merge_PR int bool

text \<open>The adapter that also notes every call and its answer.\<close>

definition gh_logged :: "'w gh_adapter \<Rightarrow> ('w \<times> gh_call list) gh_adapter" where
  "gh_logged gh = \<lparr>gh_pr_state = (\<lambda>p (w, l). case gh_pr_state gh p w of (w', s) \<Rightarrow> ((w', l @ [Look p s]), s)),
     gh_update_branch = (\<lambda>p (w, l). case gh_update_branch gh p w of (w', b) \<Rightarrow> ((w', l @ [Update_Branch p b]), b)),
     gh_merge = (\<lambda>p (w, l). case gh_merge gh p w of (w', b) \<Rightarrow> ((w', l @ [Merge_PR p b]), b))\<rparr>"

text \<open>The calls of one turn, and the state and reason it leaves its PR in, by its result.\<close>

definition turn_calls :: "process_result \<Rightarrow> gh_call list \<Rightarrow> bool" where
  "turn_calls r calls = (let p = px_pr r in
     case px_action r of
       Q_Wait \<Rightarrow> calls = [Look p CI_Pending] \<and> px_success r
     | Q_Rebase \<Rightarrow> calls = [Look p CI_Behind, Update_Branch p (px_success r)]
     | Q_Merge \<Rightarrow> calls = [Look p CI_Green, Merge_PR p (px_success r)]
     | Q_Kick \<Rightarrow> (calls = [Look p CI_Red] \<or> calls = [Look p CI_Blocked]) \<and> \<not> px_success r
     | Q_Done \<Rightarrow> False)"

definition turn_state :: "process_result \<Rightarrow> pr_state" where
  "turn_state r = (case px_action r of Q_Merge \<Rightarrow> if px_success r then PR_Merged else PR_Kicked
     | Q_Kick \<Rightarrow> PR_Kicked | _ \<Rightarrow> if px_success r then PR_Testing else PR_Kicked)"

definition apply_turn :: "process_result \<Rightarrow> merge_queue \<Rightarrow> merge_queue" where
  "apply_turn r q = set_state (px_pr r) (turn_state r) (px_reason r) q"

lemma process_head_turn:
  assumes "process_head (gh_logged gh) e q (w, l) = (q', (w', l'), r, go)"
  shows "\<exists>calls. l' = l @ calls \<and> turn_calls r calls \<and> q' = apply_turn r q \<and> px_pr r = qe_pr e
     \<and> (go \<longleftrightarrow> turn_state r \<in> {PR_Merged, PR_Kicked})"
proof -
  obtain w1 s where look: "gh_pr_state gh (qe_pr e) w = (w1, s)" by fastforce
  obtain w2 b where upd: "gh_update_branch gh (qe_pr e) w1 = (w2, b)" by fastforce
  obtain w3 m where mrg: "gh_merge gh (qe_pr e) w1 = (w3, m)" by fastforce
  note [simp] = process_head_def gh_logged_def look upd mrg apply_turn_def turn_calls_def turn_state_def
  show ?thesis using assms by (cases s; cases b; cases m) auto
qed

lemma active_apply_turn:
  assumes "active_entries q = e # es" "distinct (map qe_pr (mq_entries q))" "px_pr r = qe_pr e"
    "turn_state r \<in> {PR_Merged, PR_Kicked}"
  shows "active_entries (apply_turn r q) = es"
proof -
  let ?f = "\<lambda>x. if qe_pr x = qe_pr e then x\<lparr>qe_state := turn_state r, qe_reason := px_reason r\<rparr> else x"
  from assms(1) obtain us vs where split: "mq_entries q = us @ e # vs" and us: "\<forall>u\<in>set us. terminal u"
    and e: "\<not> terminal e" and vs: "es = filter (\<lambda>e. \<not> terminal e) vs"
    unfolding active_entries_def by (subst (asm) filter_eq_Cons_iff) auto
  from assms(2) split have others: "\<forall>u\<in>set us \<union> set vs. qe_pr u \<noteq> qe_pr e" by (auto simp: image_iff)
  then have "map ?f us = us" "map ?f vs = vs" by (auto intro!: map_idI)
  with split have "mq_entries (apply_turn r q) = us @ ?f e # vs"
    by (simp add: apply_turn_def set_state_def assms(3))
  moreover have "terminal (?f e)" using assms(4) by (auto simp: terminal_def)
  ultimately show ?thesis using us vs by (simp add: active_entries_def)
qed

lemma apply_turn_ok: "queue_ok q \<Longrightarrow> queue_ok (apply_turn r q)"
  by (simp add: apply_turn_def set_state_ok)

lemma apply_turn_version: "mq_version (apply_turn r q) = mq_version q + 1"
  by (simp add: apply_turn_def set_state_def)

lemma head_entry_Some: "head_entry q = Some e \<longleftrightarrow> (\<exists>es. active_entries q = e # es)"
  by (auto simp: head_entry_def split: list.splits)

lemma process_loop_turns:
  assumes "process_loop n (gh_logged gh) q f (w, l) = (q', f', (w', l'), rs)" "queue_ok q"
  shows "\<exists>turns. l' = l @ concat turns \<and> list_all2 turn_calls rs turns \<and> q' = fold apply_turn rs q
     \<and> length rs \<le> n \<and> map px_pr rs = take (length rs) (map qe_pr (active_entries q))
     \<and> f' = (if rs = [] then f else save_queue q')"
  using assms
proof (induction n arbitrary: q f w l rs)
  case (Suc n)
  show ?case
  proof (cases "head_entry q")
    case (Some e)
    then obtain es where act: "active_entries q = e # es" by (auto simp: head_entry_Some)
    obtain q1 w1 l1 r go where h: "process_head (gh_logged gh) e q (w, l) = (q1, (w1, l1), r, go)"
      by (metis prod.exhaust)
    from process_head_turn [OF h] obtain calls where
      c: "l1 = l @ calls" "turn_calls r calls" "q1 = apply_turn r q" "px_pr r = qe_pr e"
         "go \<longleftrightarrow> turn_state r \<in> {PR_Merged, PR_Kicked}" by blast
    show ?thesis
    proof (cases go)
      case True
      obtain rs' where rest: "process_loop n (gh_logged gh) q1 (save_queue q1) (w1, l1) = (q', f', (w', l'), rs')"
        and rs: "rs = r # rs'"
        using Suc.prems(1) Some h True by (auto split: prod.splits)
      from Suc.prems(2) have "queue_ok q1" by (simp add: c(3) apply_turn_ok)
      from Suc.IH [OF rest this] obtain turns where
        ih: "l' = l1 @ concat turns" "list_all2 turn_calls rs' turns" "q' = fold apply_turn rs' q1" "length rs' \<le> n"
            "map px_pr rs' = take (length rs') (map qe_pr (active_entries q1))"
            "f' = (if rs' = [] then save_queue q1 else save_queue q')" by blast
      have "active_entries q1 = es"
        using active_apply_turn [OF act] c True Suc.prems(2) by (auto simp: queue_ok_def)
      then show ?thesis using ih c rs act by (intro exI [of _ "calls # turns"]) auto
    next
      case False
      with Suc.prems(1) Some h have "rs = [r]" "q' = q1" "f' = save_queue q1" "l' = l1" by auto
      then show ?thesis using c act by (intro exI [of _ "[calls]"]) simp
    qed
  qed (use Suc.prems in auto)
qed auto

lemma process_loop_logged:
  "process_loop n (gh_logged gh) q f (w, l) = (q', f', (w', l'), rs) \<Longrightarrow> process_loop n gh q f w = (q', f', w', rs)"
proof (induction n arbitrary: q f w l rs)
  case (Suc n)
  show ?case
  proof (cases "head_entry q")
    case (Some e)
    obtain q1 w1 l1 r go where h: "process_head (gh_logged gh) e q (w, l) = (q1, (w1, l1), r, go)"
      by (metis prod.exhaust)
    then have "process_head gh e q w = (q1, w1, r, go)"
      by (auto simp: process_head_def gh_logged_def split: prod.splits queue_action.splits if_splits)
    with Suc Some h show ?thesis by (cases go) (auto split: prod.splits)
  qed (use Suc.prems in auto)
qed auto

lemma process_from_file: "process gh k (load_queue f) f w = process_loop (nat k) gh (load_queue f) f w"
  by (simp add: process_def)

lemma driver_follows_gate_steps:
  assumes "queue_ok (load_queue f)"
    and "process (gh_logged gh) max_n (load_queue f) f (w, []) = (q', f', (w', calls), rs)"
  shows "\<exists>turns. calls = concat turns \<and> list_all2 turn_calls rs turns
     \<and> length rs \<le> nat max_n
     \<and> map px_pr rs = take (length rs) (map qe_pr (active_entries (load_queue f)))
     \<and> q' = fold apply_turn rs (load_queue f)
     \<and> load_queue f' = q'
     \<and> process gh max_n (load_queue f) f w = (q', f', w', rs)"
proof -
  from assms(2) have run: "process_loop (nat max_n) (gh_logged gh) (load_queue f) f (w, []) = (q', f', (w', calls), rs)"
    by (simp add: process_from_file)
  from process_loop_turns [OF this assms(1)] process_loop_logged [OF run] show ?thesis
    by (cases "rs = []") (auto simp: process_from_file)
qed

text \<open>
  C28: The driver works the queue strictly from its head: at most \<open>max_n\<close> results, for the first
  active pull requests in order; the calls it makes of GitHub are exactly the turns of its results,
  so a merge is asked for only right after that pull request was read green; the queue afterwards
  is the old one with each result applied, and it is what the file holds.
\<close>

theorem driver_follows_gate:
  assumes "queue_ok (load_queue f)"
    and "process (gh_logged gh) max_n (load_queue f) f (w, []) = (q', f', (w', calls), rs)"
  shows "\<exists>turns. calls = concat turns \<and> list_all2 turn_calls rs turns
     \<and> length rs \<le> nat max_n
     \<and> map px_pr rs = take (length rs) (map qe_pr (active_entries (load_queue f)))
     \<and> q' = fold apply_turn rs (load_queue f)
     \<and> load_queue f' = q'
     \<and> process gh max_n (load_queue f) f w = (q', f', w', rs)"
  using assms by (rule driver_follows_gate_steps)

subsection \<open>Sessions of commands\<close>

datatype 'w refinery_op = Add_PR rat int int | Drop_PR int | Clear_All | Run_Queue "'w gh_adapter" int

fun refinery_run :: "'w refinery_op \<Rightarrow> queue_file \<times> 'w \<Rightarrow> queue_file \<times> 'w" where
  "refinery_run (Add_PR now pr p) (f, w) = (fst (add_command now pr p f), w)"
| "refinery_run (Drop_PR pr) (f, w) = (fst (drop_command pr f), w)"
| "refinery_run Clear_All (f, w) = (fst (clear_command f), w)"
| "refinery_run (Run_Queue gh k) (f, w) = (case run_command gh k f w of (f', w', _) \<Rightarrow> (f', w'))"

lemma fold_apply_turn_ok: "queue_ok q \<Longrightarrow> queue_ok (fold apply_turn rs q)"
  by (induction rs arbitrary: q) (auto intro: apply_turn_ok)

lemma run_command_ok:
  assumes "queue_ok (load_queue f)" "run_command gh k f w = (f', w', rs)"
  shows "queue_ok (load_queue f')"
proof (cases "active_entries (load_queue f) = []")
  case False
  obtain q2 f2 w2 l2 rs2 where
    log: "process (gh_logged gh) k (load_queue f) f (w, []) = (q2, f2, (w2, l2), rs2)" by (metis prod.exhaust)
  from driver_follows_gate_steps [OF assms(1) log] show ?thesis
    using assms False by (auto simp: run_command_def fold_apply_turn_ok split: prod.splits)
qed (use assms in \<open>simp add: run_command_def\<close>)

interpretation refinery_calls: op_session refinery_run "\<lambda>(f, w). queue_ok (load_queue f)"
proof
  fix s :: "queue_file \<times> 'w" and x :: "'w refinery_op"
  assume "case s of (f, w) \<Rightarrow> queue_ok (load_queue f)"
  then show "case refinery_run x s of (f, w) \<Rightarrow> queue_ok (load_queue f)"
    by (cases s; cases x) (auto simp: add_command_def drop_command_def clear_command_def Let_def
        enqueue_ok drop_ok clear_ok split: prod.splits intro: run_command_ok)
qed

lemma empty_queue_ok: "queue_ok (load_queue No_Queue_File)"
  by (simp add: load_queue_def empty_queue_def queue_ok_def)

text \<open>
  After every sequence of the commands on a repository without a queue, no pull request is in
  the queue twice, and the queue is in the order of priority and position.
\<close>

theorem queue_stays_ordered:
  "queue_ok (load_queue (fst (fold refinery_run ops (No_Queue_File, w))))"
  using refinery_calls.session_good [of "(No_Queue_File, w)" ops] empty_queue_ok
  by (auto split: prod.splits)

subsection \<open>The gate\<close>

lemma first_verdict_None:
  "first_verdict cs = None \<longleftrightarrow> list_all (\<lambda>c. \<not> codeql_failed c \<and> check_status c \<notin> set running_states) cs"
  by (induction cs) auto

lemma first_verdict_not_green: "first_verdict cs \<noteq> Some CI_Green"
  by (induction cs) auto

lemma codeql_is_failed: "codeql_failed c \<Longrightarrow> check_conclusion c \<in> set failed_conclusions"
  by (auto simp: codeql_failed_def failed_conclusions_def)

text \<open>
  The gate is green exactly when the pull request was readable, is neither conflicting nor
  behind, has a check, and no check is still running or concluded in failure, cancellation, timeout
  or a required action; CodeQL is covered by the same rule.
\<close>

theorem gate_is_green_iff:
  "pr_gate v = CI_Green \<longleftrightarrow> (case v of None \<Rightarrow> False | Some v \<Rightarrow>
     vw_mergeable v \<noteq> ''CONFLICTING'' \<and> vw_mergeable v \<noteq> ''BEHIND'' \<and> vw_checks v \<noteq> []
     \<and> list_all (\<lambda>c. check_status c \<notin> set running_states \<and> check_conclusion c \<notin> set failed_conclusions) (vw_checks v))"
proof (cases v)
  case (Some x)
  have "first_verdict (vw_checks x) \<noteq> Some CI_Green" by (rule first_verdict_not_green)
  moreover have "first_verdict (vw_checks x) = None
      \<Longrightarrow> list_all (\<lambda>c. check_status c \<notin> set running_states) (vw_checks x)"
    by (auto simp: first_verdict_None list_all_iff)
  moreover have "list_all (\<lambda>c. check_status c \<notin> set running_states \<and> check_conclusion c \<notin> set failed_conclusions)
      (vw_checks x) \<Longrightarrow> first_verdict (vw_checks x) = None"
    by (auto simp: first_verdict_None list_all_iff dest: codeql_is_failed)
  ultimately show ?thesis using Some
    by (auto simp: pr_gate_def list_all_iff list_ex_iff split: option.splits)
qed (simp add: pr_gate_def)

end
