(* ===== verification/Land_Model.thy ===== *)
theory Land_Model
  imports Py_Base
begin

section \<open>Land: the planner, the driver and the GitHub client of \<open>onmc land\<close>\<close>

text \<open>
  \<open>land/planner.py\<close>, \<open>land/driver.py\<close> and what \<open>land/commands.py\<close> computes from the output of
  \<open>gh\<close>.  GitHub, the monotonic clock and \<open>sleep\<close> are parameters that change a world of any type;
  the polling loop is a \<open>partial_function\<close>, so that not returning is \<open>None\<close>.
\<close>

subsection \<open>The planner\<close>

datatype land_step = LS_Wait | LS_Rebase | LS_Resolve_Threads | LS_Merge | LS_Done | LS_Fail

fun land_step_value :: "land_step \<Rightarrow> string" where
  "land_step_value LS_Wait = ''wait''"
| "land_step_value LS_Rebase = ''rebase''"
| "land_step_value LS_Resolve_Threads = ''resolve_threads''"
| "land_step_value LS_Merge = ''merge''"
| "land_step_value LS_Done = ''done''"
| "land_step_value LS_Fail = ''fail''"

text \<open>A missing name or status reads as the empty string, a missing conclusion as \<open>None\<close>.\<close>

record land_check =
  lc_name :: string
  lc_status :: string
  lc_conclusion :: "string option"

record land_state =
  ld_merged :: bool
  ld_merge_state :: string
  ld_checks :: "land_check list"
  ld_unresolved :: int
  ld_thread_ids :: "string list"
  ld_contention :: "int option"

definition advisory_marks :: "string list" where
  "advisory_marks = [''sourcery'', ''greetings'', ''apply-area-labels'', ''auto-assign'', ''label'']"

definition hard_blocker_marks :: "string list" where
  "hard_blocker_marks = [''codeql'']"

definition is_advisory :: "string \<Rightarrow> bool" where
  "is_advisory name = list_ex (contains (lower name)) advisory_marks"

definition is_hard_blocker :: "string \<Rightarrow> bool" where
  "is_hard_blocker name = list_ex (contains (lower name)) hard_blocker_marks"

definition check_unfinished :: "land_check \<Rightarrow> bool" where
  "check_unfinished c \<longleftrightarrow> lc_conclusion c = None \<or> lc_status c \<in> {''QUEUED'', ''IN_PROGRESS''}"

text \<open>The loop over the checks: \<open>None\<close> is its early return, \<open>Some\<close> its final \<open>any_pending\<close>.\<close>

fun scan_checks :: "bool \<Rightarrow> land_check list \<Rightarrow> bool option" where
  "scan_checks pending [] = Some pending"
| "scan_checks pending (c # cs) =
     (if is_advisory (lc_name c) then scan_checks pending cs
      else if lc_conclusion c = Some ''FAILURE'' then None
      else scan_checks (pending \<or> check_unfinished c) cs)"

definition next_step :: "land_state \<Rightarrow> land_step" where
  "next_step s =
     (if ld_merged s then LS_Done
      else if list_ex (\<lambda>c. is_hard_blocker (lc_name c) \<and> lc_conclusion c = Some ''FAILURE'') (ld_checks s) then LS_Fail
      else if ld_merge_state s = ''BEHIND'' then LS_Rebase
      else if ld_unresolved s > 0 then LS_Resolve_Threads
      else case scan_checks False (ld_checks s) of
             None \<Rightarrow> LS_Fail
           | Some True \<Rightarrow> LS_Wait
           | Some False \<Rightarrow> if ld_merge_state s = ''CLEAN'' then LS_Merge
                           else if ld_merge_state s = ''BLOCKED'' then LS_Fail else LS_Wait)"

subsection \<open>The driver\<close>

text \<open>\<open>LandError\<close>, raised by the driver for a pull request or by the client with what it prints.\<close>

datatype land_error = Landing_Blocked int | Client_Failed string

record land_result =
  lr_outcome :: string
  lr_detail :: "string option"

record 'w land_client =
  lcl_pr_state :: "int \<Rightarrow> ('w, land_error, land_state) action"
  lcl_update_branch :: "int \<Rightarrow> ('w, land_error, unit) action"
  lcl_resolve_thread :: "string \<Rightarrow> ('w, land_error, unit) action"
  lcl_merge :: "int \<Rightarrow> ('w, land_error, unit) action"

record 'w land_timer =
  tm_clock :: "'w \<Rightarrow> 'w \<times> rat"
  tm_sleep :: "rat \<Rightarrow> 'w \<Rightarrow> 'w"

fun resolve_all :: "'w land_client \<Rightarrow> string list \<Rightarrow> ('w, land_error, unit) action" where
  "resolve_all gh [] = areturn ()"
| "resolve_all gh (t # ts) = abind (lcl_resolve_thread gh t) (\<lambda>_. resolve_all gh ts)"

text \<open>
  The body of the loop up to the clock: \<open>Some\<close> is a \<open>return\<close>, \<open>None\<close> goes on to the deadline.
\<close>

definition land_turn :: "'w land_client \<Rightarrow> int \<Rightarrow> int option \<Rightarrow> ('w, land_error, land_result option) action" where
  "land_turn gh pr limit =
     abind (lcl_pr_state gh pr) (\<lambda>s.
       let contention = get_or 0 (ld_contention s);
           merged = \<lparr>lr_outcome = ''merged'', lr_detail = None\<rparr> in
       if (case limit of None \<Rightarrow> False | Some l \<Rightarrow> contention > l) then
         areturn (Some \<lparr>lr_outcome = ''deferred'', lr_detail = Some (''contention='' @ show_int contention)\<rparr>)
       else case next_step s of
         LS_Done \<Rightarrow> areturn (Some merged)
       | LS_Fail \<Rightarrow> araise (Landing_Blocked pr)
       | LS_Merge \<Rightarrow> abind (lcl_merge gh pr) (\<lambda>_. areturn (Some merged))
       | LS_Rebase \<Rightarrow> abind (lcl_update_branch gh pr) (\<lambda>_. areturn None)
       | LS_Resolve_Threads \<Rightarrow> abind (resolve_all gh (ld_thread_ids s)) (\<lambda>_. areturn None)
       | LS_Wait \<Rightarrow> areturn None)"

text \<open>The end of the loop's body: whether the deadline leaves time for another poll, after the sleep.\<close>

definition land_pause :: "'w land_timer \<Rightarrow> rat \<Rightarrow> rat \<Rightarrow> 'w \<Rightarrow> 'w \<times> bool" where
  "land_pause tm poll deadline w =
     (case tm_clock tm w of (w', now) \<Rightarrow>
        if now \<ge> deadline then (w', False) else (tm_sleep tm (min poll (deadline - now)) w', True))"

partial_function (option) land_loop ::
    "'w land_client \<Rightarrow> 'w land_timer \<Rightarrow> int \<Rightarrow> rat \<Rightarrow> rat \<Rightarrow> int option \<Rightarrow> 'w
      \<Rightarrow> ('w \<times> (land_error, land_result) result) option" where
  "land_loop gh tm pr poll deadline limit w =
     (case land_turn gh pr limit w of
        (w1, Inl e) \<Rightarrow> Some (w1, Inl e)
      | (w1, Inr (Some r)) \<Rightarrow> Some (w1, Inr r)
      | (w1, Inr None) \<Rightarrow>
          (case land_pause tm poll deadline w1 of
             (w2, again) \<Rightarrow> if again then land_loop gh tm pr poll deadline limit w2
                            else Some (w2, Inr \<lparr>lr_outcome = ''timeout'', lr_detail = None\<rparr>)))"

definition land :: "'w land_client \<Rightarrow> 'w land_timer \<Rightarrow> int \<Rightarrow> rat \<Rightarrow> rat \<Rightarrow> int option \<Rightarrow> 'w
    \<Rightarrow> ('w \<times> (land_error, land_result) result) option" where
  "land gh tm pr poll max_wait limit w =
     (case tm_clock tm w of (w', start) \<Rightarrow> land_loop gh tm pr poll (start + max_wait) limit w')"

subsection \<open>What the client reads from \<open>gh\<close>\<close>

record rollup_entry =
  ru_name :: "string option"
  ru_context :: "string option"
  ru_status :: "string option"
  ru_conclusion :: "string option"

record gh_view =
  gv_state :: "string option"
  gv_merge_state :: "string option"
  gv_rollup :: "rollup_entry list option"

record thread_node =
  tn_id :: "string option"
  tn_resolved :: "bool option"

definition land_check_of :: "rollup_entry \<Rightarrow> land_check" where
  "land_check_of c = \<lparr>lc_name = (if get_or [] (ru_name c) \<noteq> [] then get_or [] (ru_name c) else get_or [] (ru_context c)),
     lc_status = get_or [] (ru_status c), lc_conclusion = ru_conclusion c\<rparr>"

text \<open>\<open>_fetch_review_threads\<close>: \<open>None\<close> is any failure of the two calls or of reading their output.\<close>

definition review_threads :: "thread_node list option \<Rightarrow> int \<times> string list" where
  "review_threads nodes = (case nodes of None \<Rightarrow> (0, [])
     | Some ns \<Rightarrow> (let unresolved = filter (\<lambda>n. \<not> get_or True (tn_resolved n)) ns in
                   (int (length unresolved), List.map_filter tn_id unresolved)))"

definition state_of_view :: "gh_view \<Rightarrow> thread_node list option \<Rightarrow> land_state" where
  "state_of_view v nodes = \<lparr>ld_merged = (upper (get_or [] (gv_state v)) = ''MERGED''),
     ld_merge_state = get_or ''UNKNOWN'' (gv_merge_state v),
     ld_checks = map land_check_of (get_or [] (gv_rollup v)),
     ld_unresolved = fst (review_threads nodes), ld_thread_ids = snd (review_threads nodes), ld_contention = None\<rparr>"

text \<open>\<open>land_status_command\<close>: the numbers it reports and whether it exits with an error.\<close>

record land_status =
  st_next :: land_step
  st_merge_state :: string
  st_total :: nat
  st_pending :: nat
  st_failed :: nat
  st_threads :: int
  st_exit_one :: bool

definition land_status_report :: "land_state \<Rightarrow> land_status" where
  "land_status_report s = \<lparr>st_next = next_step s, st_merge_state = ld_merge_state s,
     st_total = length (ld_checks s), st_pending = length (filter check_unfinished (ld_checks s)),
     st_failed = length (filter (\<lambda>c. lc_conclusion c = Some ''FAILURE'') (ld_checks s)),
     st_threads = ld_unresolved s, st_exit_one = (next_step s = LS_Fail)\<rparr>"

end
