(* ===== verification/Land_Props.thy ===== *)
theory Land_Props
  imports Land_Model
begin

section \<open>What landing a pull request guarantees\<close>

text \<open>
  The planner asks for a merge exactly on a state that passes every gate; the driver merges only
  right after reading such a state and at most once; with a clock that never runs backwards and a
  sleep that lasts at least as long as asked, it always returns.
\<close>

subsection \<open>The planner\<close>

definition check_passes :: "land_check \<Rightarrow> bool" where
  "check_passes c \<longleftrightarrow> is_advisory (lc_name c) \<or> \<not> check_unfinished c \<and> lc_conclusion c \<noteq> Some ''FAILURE''"

definition landable :: "land_state \<Rightarrow> bool" where
  "landable s \<longleftrightarrow> \<not> ld_merged s \<and> ld_merge_state s = ''CLEAN'' \<and> ld_unresolved s \<le> 0
     \<and> list_all check_passes (ld_checks s)
     \<and> list_all (\<lambda>c. is_hard_blocker (lc_name c) \<longrightarrow> lc_conclusion c \<noteq> Some ''FAILURE'') (ld_checks s)"

lemma scan_checks_False: "scan_checks p cs = Some False \<longleftrightarrow> \<not> p \<and> list_all check_passes cs"
  by (induction p cs rule: scan_checks.induct) (auto simp: check_passes_def)

lemma scan_checks_None:
  "scan_checks p cs = None \<longleftrightarrow> list_ex (\<lambda>c. \<not> is_advisory (lc_name c) \<and> lc_conclusion c = Some ''FAILURE'') cs"
  by (induction p cs rule: scan_checks.induct) auto

lemma next_step_merge: "next_step s = LS_Merge \<longleftrightarrow> landable s"
proof -
  have "scan_checks False (ld_checks s) = Some False \<longleftrightarrow> list_all check_passes (ld_checks s)"
    by (simp add: scan_checks_False)
  then show ?thesis
    by (auto simp: next_step_def landable_def list_all_iff list_ex_iff split: option.splits bool.splits)
qed

text \<open>
  The planner asks for a merge exactly when the pull request is not merged yet, GitHub calls it
  clean, no review thread is open, no hard-blocking check failed, and every check that is not
  advisory is finished and did not conclude in failure.
\<close>

theorem merge_step_iff_landable: "next_step s = LS_Merge \<longleftrightarrow> landable s"
  by (rule next_step_merge)

text \<open>A cancelled or timed-out check counts as passed.\<close>

lemma cancelled_check_passes:
  "next_step \<lparr>ld_merged = False, ld_merge_state = ''CLEAN'',
     ld_checks = [\<lparr>lc_name = ''tests'', lc_status = ''COMPLETED'', lc_conclusion = Some ''CANCELLED''\<rparr>],
     ld_unresolved = 0, ld_thread_ids = [], ld_contention = None\<rparr> = LS_Merge"
  by (simp add: next_step_def is_hard_blocker_def hard_blocker_marks_def is_advisory_def advisory_marks_def
      lower_def lower_char_def check_unfinished_def)

subsection \<open>The calls of the driver\<close>

datatype land_call = Polled land_state | Poll_Failed | Updated bool | Resolved string bool | Merge_Asked bool

definition note_call :: "(('e, 'a) result \<Rightarrow> 'c) \<Rightarrow> ('w, 'e, 'a) action \<Rightarrow> ('w \<times> 'c list, 'e, 'a) action" where
  "note_call c m = (\<lambda>(w, l). case m w of (w', r) \<Rightarrow> ((w', l @ [c r]), r))"

text \<open>The client that also notes every call, and the timer on the larger world.\<close>

definition noted :: "'w land_client \<Rightarrow> ('w \<times> land_call list) land_client" where
  "noted gh = \<lparr>lcl_pr_state = (\<lambda>pr. note_call (\<lambda>r. case r of Inr s \<Rightarrow> Polled s | Inl _ \<Rightarrow> Poll_Failed) (lcl_pr_state gh pr)),
     lcl_update_branch = (\<lambda>pr. note_call (\<lambda>r. Updated (r = Inr ())) (lcl_update_branch gh pr)),
     lcl_resolve_thread = (\<lambda>t. note_call (\<lambda>r. Resolved t (r = Inr ())) (lcl_resolve_thread gh t)),
     lcl_merge = (\<lambda>pr. note_call (\<lambda>r. Merge_Asked (r = Inr ())) (lcl_merge gh pr))\<rparr>"

definition beside :: "'w land_timer \<Rightarrow> ('w \<times> 'c) land_timer" where
  "beside tm = \<lparr>tm_clock = (\<lambda>(w, l). case tm_clock tm w of (w', t) \<Rightarrow> ((w', l), t)),
     tm_sleep = (\<lambda>d (w, l). (tm_sleep tm d w, l))\<rparr>"

text \<open>The calls one turn of the loop may make.\<close>

definition too_busy :: "int option \<Rightarrow> land_state \<Rightarrow> bool" where
  "too_busy limit s = (case limit of None \<Rightarrow> False | Some l \<Rightarrow> get_or 0 (ld_contention s) > l)"

fun resolve_calls :: "string list \<Rightarrow> land_call list \<Rightarrow> bool" where
  "resolve_calls [] us = (us = [])"
| "resolve_calls (t # ts) [] = False"
| "resolve_calls (t # ts) (u # us) = (u = Resolved t True \<and> resolve_calls ts us \<or> u = Resolved t False \<and> us = [])"

definition after_poll :: "int option \<Rightarrow> land_state \<Rightarrow> land_call list \<Rightarrow> bool" where
  "after_poll limit s rest =
     (if too_busy limit s then rest = [] else
      case next_step s of
        LS_Merge \<Rightarrow> rest = [Merge_Asked True] \<or> rest = [Merge_Asked False]
      | LS_Rebase \<Rightarrow> rest = [Updated True] \<or> rest = [Updated False]
      | LS_Resolve_Threads \<Rightarrow> resolve_calls (ld_thread_ids s) rest
      | _ \<Rightarrow> rest = [])"

definition goes_on :: "int option \<Rightarrow> land_state \<Rightarrow> land_call list \<Rightarrow> bool" where
  "goes_on limit s rest \<longleftrightarrow> \<not> too_busy limit s \<and> next_step s \<in> {LS_Wait, LS_Rebase, LS_Resolve_Threads}
     \<and> list_all (\<lambda>c. case c of Updated b \<Rightarrow> b | Resolved _ b \<Rightarrow> b | _ \<Rightarrow> True) rest"

definition landed :: "int option \<Rightarrow> land_state \<Rightarrow> land_call list \<Rightarrow> bool" where
  "landed limit s rest \<longleftrightarrow> \<not> too_busy limit s \<and> (next_step s = LS_Done \<or> rest = [Merge_Asked True])"

fun land_calls :: "int option \<Rightarrow> land_call list \<Rightarrow> bool" where
  "land_calls limit (Polled s # rest) = after_poll limit s rest"
| "land_calls limit calls = (calls = [Poll_Failed])"

fun land_goes_on :: "int option \<Rightarrow> land_call list \<Rightarrow> bool" where
  "land_goes_on limit (Polled s # rest) = goes_on limit s rest"
| "land_goes_on limit calls = False"

fun land_landed :: "int option \<Rightarrow> land_call list \<Rightarrow> bool" where
  "land_landed limit (Polled s # rest) = landed limit s rest"
| "land_landed limit calls = False"

lemma note_call_result:
  "note_call c m (w, l) = (s, r) \<longleftrightarrow> (\<exists>w'. m w = (w', r) \<and> s = (w', l @ [c r]))"
  by (auto simp: note_call_def split: prod.splits)

lemma resolve_all_calls:
  "resolve_all (noted gh) ts (w, l) = ((w', l'), r) \<Longrightarrow>
     \<exists>us. l' = l @ us \<and> resolve_calls ts us
        \<and> (r = Inr () \<longleftrightarrow> list_all (\<lambda>c. case c of Updated b \<Rightarrow> b | Resolved _ b \<Rightarrow> b | _ \<Rightarrow> True) us)"
proof (induction ts arbitrary: w l)
  case (Cons t ts)
  obtain w1 r1 where one: "lcl_resolve_thread gh t w = (w1, r1)" by fastforce
  show ?case
  proof (cases r1)
    case (Inl e)
    with Cons.prems one show ?thesis
      by (intro exI [of _ "[Resolved t False]"]) (auto simp: abind_def noted_def note_call_def)
  next
    case (Inr u)
    with Cons.prems one have "resolve_all (noted gh) ts (w1, l @ [Resolved t True]) = ((w', l'), r)"
      by (simp add: abind_def noted_def note_call_def)
    from Cons.IH [OF this] obtain us where
      "l' = (l @ [Resolved t True]) @ us" "resolve_calls ts us"
      "r = Inr () \<longleftrightarrow> list_all (\<lambda>c. case c of Updated b \<Rightarrow> b | Resolved _ b \<Rightarrow> b | _ \<Rightarrow> True) us" by blast
    then show ?thesis by (intro exI [of _ "Resolved t True # us"]) simp
  qed
qed simp

definition merged_result :: land_result where
  "merged_result = \<lparr>lr_outcome = ''merged'', lr_detail = None\<rparr>"

lemma land_turn_calls:
  assumes "land_turn (noted gh) pr limit (w, l) = ((w', l'), r)"
  shows "\<exists>t. l' = l @ t \<and> land_calls limit t \<and> (r = Inr None \<longleftrightarrow> land_goes_on limit t)
     \<and> (r = Inr (Some merged_result) \<longleftrightarrow> land_landed limit t)"
proof -
  obtain w1 p where poll: "lcl_pr_state gh pr w = (w1, p)" by fastforce
  show ?thesis
  proof (cases p)
    case (Inl e)
    with assms poll show ?thesis
      by (intro exI [of _ "[Poll_Failed]"]) (auto simp: land_turn_def abind_def noted_def note_call_def)
  next
    case (Inr s)
    let ?l = "l @ [Polled s]"
    note [simp] = land_turn_def abind_def noted_def note_call_def poll Inr too_busy_def after_poll_def
      goes_on_def landed_def merged_result_def
    show ?thesis
    proof (cases "too_busy limit s")
      case True
      with assms show ?thesis by (intro exI [of _ "[Polled s]"]) auto
    next
      case False
      obtain w2 b where mrg: "lcl_merge gh pr w1 = (w2, b)" by fastforce
      obtain w3 u where upd: "lcl_update_branch gh pr w1 = (w3, u)" by fastforce
      obtain w4 l4 v where res: "resolve_all (noted gh) (ld_thread_ids s) (w1, ?l) = ((w4, l4), v)"
        by (metis prod.exhaust)
      from resolve_all_calls [OF this] obtain us where us: "l4 = ?l @ us" "resolve_calls (ld_thread_ids s) us"
        "v = Inr () \<longleftrightarrow> list_all (\<lambda>c. case c of Updated b \<Rightarrow> b | Resolved _ b \<Rightarrow> b | _ \<Rightarrow> True) us" by blast
      show ?thesis
      proof (cases "next_step s")
        case LS_Merge
        with assms False mrg show ?thesis
          by (intro exI [of _ "[Polled s, Merge_Asked (b = Inr ())]"]) (cases b; auto)
      next
        case LS_Rebase
        with assms False upd show ?thesis
          by (intro exI [of _ "[Polled s, Updated (u = Inr ())]"]) (cases u; auto)
      next
        case LS_Resolve_Threads
        have "us \<noteq> [Merge_Asked True]" using us(2) by (cases "ld_thread_ids s") auto
        with assms False res us LS_Resolve_Threads show ?thesis
          by (intro exI [of _ "Polled s # us"]) (cases v; auto)
      qed (use assms False in \<open>intro exI [of _ "[Polled s]"], auto\<close>)
    qed
  qed
qed

lemma resolve_calls_no_merge: "resolve_calls ts us \<Longrightarrow> Merge_Asked b \<notin> set us"
  by (induction ts us rule: resolve_calls.induct) auto

lemma turn_merge_iff:
  assumes "land_calls limit t"
  shows "Merge_Asked b \<in> set t \<longleftrightarrow> (\<exists>s. t = [Polled s, Merge_Asked b] \<and> \<not> too_busy limit s \<and> landable s)"
proof (cases t)
  case (Cons c rest)
  show ?thesis
  proof (cases c)
    case (Polled s)
    with assms Cons have "after_poll limit s rest" by simp
    then show ?thesis unfolding Cons Polled next_step_merge [symmetric]
      by (cases "next_step s") (auto simp: after_poll_def split: if_splits dest: resolve_calls_no_merge)
  qed (use assms Cons in auto)
qed simp

lemma going_turn_no_merge: "land_calls limit t \<Longrightarrow> land_goes_on limit t \<Longrightarrow> Merge_Asked b \<notin> set t"
  by (auto simp: turn_merge_iff goes_on_def next_step_merge [symmetric])

lemma land_pause_beside:
  "land_pause (beside tm) poll deadline (w, l) = ((w', l'), b) \<Longrightarrow> l' = l"
  by (auto simp: land_pause_def beside_def split: prod.splits if_splits)

lemma land_loop_calls:
  assumes "land_loop gh' tm' pr poll deadline limit s = Some y" "gh' = noted gh" "tm' = beside tm"
  shows "\<exists>ts t. snd (fst y) = snd s @ concat ts @ t \<and> list_all (land_calls limit) (ts @ [t])
     \<and> list_all (land_goes_on limit) ts \<and> (snd y = Inr merged_result \<longleftrightarrow> land_landed limit t)"
  using assms
proof (induction rule: land_loop.raw_induct [rotated, consumes 1, case_names step])
  case (step loop gh' tm' pr poll deadline limit s y)
  obtain w l where s: "s = (w, l)" by fastforce
  obtain w1 l1 r where turn: "land_turn (noted gh) pr limit (w, l) = ((w1, l1), r)" by (metis prod.exhaust)
  from land_turn_calls [OF turn] obtain t where t: "l1 = l @ t" "land_calls limit t"
    "r = Inr None \<longleftrightarrow> land_goes_on limit t" "r = Inr (Some merged_result) \<longleftrightarrow> land_landed limit t" by blast
  show ?case
  proof (cases "r = Inr None")
    case False
    with step s turn have "fst y = (w1, l1)" "snd y = Inr merged_result \<longleftrightarrow> r = Inr (Some merged_result)"
      by (auto split: sum.splits option.splits)
    with t s show ?thesis by (intro exI [of _ "[]"] exI [of _ t]) simp
  next
    case True
    obtain w2 l2 b where land_pause: "land_pause (beside tm) poll deadline (w1, l1) = ((w2, l2), b)" by (metis prod.exhaust)
    then have l2: "l2 = l1" by (rule land_pause_beside)
    show ?thesis
    proof (cases b)
      case False
      have quiet: "\<not> land_landed limit t" using True t(4) by simp
      from step s turn True land_pause False have "fst y = (w2, l2)" "snd y \<noteq> Inr merged_result"
        by (auto simp: merged_result_def)
      with t s l2 quiet show ?thesis by (intro exI [of _ "[]"] exI [of _ t]) simp
    next
      case again: True
      from step s turn True land_pause again have "loop (noted gh) (beside tm) pr poll deadline limit (w2, l2) = Some y" by simp
      from step.IH [OF this refl refl] obtain ts u where
        "snd (fst y) = l2 @ concat ts @ u" "list_all (land_calls limit) (ts @ [u])"
        "list_all (land_goes_on limit) ts" "snd y = Inr merged_result \<longleftrightarrow> land_landed limit u" by auto
      with t s l2 True show ?thesis by (intro exI [of _ "t # ts"] exI [of _ u]) simp
    qed
  qed
qed

text \<open>
  C29: The calls of a run of \<open>land\<close> are a sequence of polls, each followed by nothing but what the
  planner answers for the state it read; every turn but the last goes on waiting, rebasing or
  resolving; so a merge is asked for at most once, in the last turn, right after reading a state
  that passes every gate, and \<open>merged\<close> is reported exactly when that merge succeeded or the state
  read was already merged.
\<close>

theorem land_merges_only_landable:
  assumes "land (noted gh) (beside tm) pr poll max_wait limit (w, []) = Some ((w', calls), r)"
  shows "\<exists>ts t. calls = concat ts @ t \<and> list_all (land_calls limit) (ts @ [t]) \<and> list_all (land_goes_on limit) ts
     \<and> (r = Inr merged_result \<longleftrightarrow> land_landed limit t)
     \<and> (\<forall>i b. i < length calls \<longrightarrow> calls ! i = Merge_Asked b \<longrightarrow>
          i = Suc (length (concat ts)) \<and> (\<exists>s. t = [Polled s, Merge_Asked b] \<and> landable s))"
proof -
  obtain w1 start where clock: "tm_clock tm w = (w1, start)" by fastforce
  then have "land_loop (noted gh) (beside tm) pr poll (start + max_wait) limit (w1, []) = Some ((w', calls), r)"
    using assms by (simp add: land_def beside_def)
  from land_loop_calls [OF this refl refl] obtain ts t where
    split: "calls = concat ts @ t" and turns: "list_all (land_calls limit) (ts @ [t])"
    and going: "list_all (land_goes_on limit) ts" and landed: "r = Inr merged_result \<longleftrightarrow> land_landed limit t" by auto
  have no_merge: "Merge_Asked b \<notin> set (concat ts)" for b
    using turns going by (auto simp: list_all_iff dest: going_turn_no_merge)
  have at_end: "i = 1 \<and> (\<exists>s. t = [Polled s, Merge_Asked b] \<and> landable s)"
    if "i < length t" "t ! i = Merge_Asked b" for i b
  proof -
    from that have "Merge_Asked b \<in> set t" by (metis nth_mem)
    with turns obtain s where "t = [Polled s, Merge_Asked b]" "landable s" by (auto simp: turn_merge_iff)
    with that show ?thesis by (cases i) auto
  qed
  have "i = Suc (length (concat ts)) \<and> (\<exists>s. t = [Polled s, Merge_Asked b] \<and> landable s)"
    if "i < length calls" "calls ! i = Merge_Asked b" for i b
  proof (cases "i < length (concat ts)")
    case True
    with that(2) have "concat ts ! i = Merge_Asked b" by (simp add: split nth_append)
    with True no_merge show ?thesis by (metis nth_mem)
  next
    case False
    with that have "i - length (concat ts) < length t" "t ! (i - length (concat ts)) = Merge_Asked b"
      by (auto simp: split nth_append)
    from at_end [OF this] False show ?thesis by auto
  qed
  with split turns going landed show ?thesis by blast
qed

subsection \<open>The driver returns\<close>

text \<open>
  What the driver relies on: the true time never runs backwards over a call, the clock reads a time
  of the call itself, and a sleep lasts at least as long as asked.
\<close>

definition runs_forward :: "('w \<Rightarrow> rat) \<Rightarrow> ('w, 'e, 'a) action \<Rightarrow> bool" where
  "runs_forward time m \<longleftrightarrow> (\<forall>w. time w \<le> time (fst (m w)))"

definition steady :: "('w \<Rightarrow> rat) \<Rightarrow> 'w land_client \<Rightarrow> 'w land_timer \<Rightarrow> bool" where
  "steady time gh tm \<longleftrightarrow>
     (\<forall>pr. runs_forward time (lcl_pr_state gh pr) \<and> runs_forward time (lcl_update_branch gh pr)
        \<and> runs_forward time (lcl_merge gh pr))
     \<and> (\<forall>t. runs_forward time (lcl_resolve_thread gh t))
     \<and> (\<forall>w. time w \<le> snd (tm_clock tm w) \<and> snd (tm_clock tm w) \<le> time (fst (tm_clock tm w)))
     \<and> (\<forall>d w. 0 \<le> d \<longrightarrow> time w + d \<le> time (tm_sleep tm d w))"

lemma abind_forward:
  "runs_forward time m \<Longrightarrow> (\<And>x. runs_forward time (f x)) \<Longrightarrow> runs_forward time (abind m f)"
  unfolding runs_forward_def abind_def by (auto split: prod.splits sum.splits) (metis fst_conv order_trans)+

lemma return_forward: "runs_forward time (areturn x)" "runs_forward time (araise e)"
  by (simp_all add: runs_forward_def)

lemma resolve_all_forward: "steady time gh tm \<Longrightarrow> runs_forward time (resolve_all gh ts)"
  by (induction ts) (auto simp: steady_def intro!: abind_forward return_forward)

lemma land_turn_forward:
  assumes "steady time gh tm"
  shows "runs_forward time (land_turn gh pr limit)"
  unfolding land_turn_def Let_def using assms
  by (intro abind_forward) (auto simp: steady_def intro!: abind_forward return_forward resolve_all_forward [OF assms]
      split: land_step.splits)

lemma land_pause_forward:
  assumes "steady time gh tm" "0 < poll" "land_pause tm poll deadline w = (w', True)"
  shows "time w < deadline" "min (time w + poll) deadline \<le> time w'"
proof -
  obtain w1 now where clock: "tm_clock tm w = (w1, now)" by fastforce
  from assms(1) have "time w \<le> snd (tm_clock tm w) \<and> snd (tm_clock tm w) \<le> time (fst (tm_clock tm w))"
    unfolding steady_def by blast
  with clock have now: "time w \<le> now" "now \<le> time w1" by simp_all
  from assms(3) clock have go: "now < deadline" "w' = tm_sleep tm (min poll (deadline - now)) w1"
    by (auto simp: land_pause_def split: if_splits)
  from assms(1,2) go(1) have "time w1 + min poll (deadline - now) \<le> time w'"
    unfolding steady_def go(2) by simp
  with now go show "time w < deadline" "min (time w + poll) deadline \<le> time w'"
    by (auto simp: min_def split: if_splits)
qed

text \<open>From a time at most \<open>n\<close> polls before the deadline, the loop makes at most \<open>n + 1\<close> turns.\<close>

lemma land_loop_returns:
  assumes "steady time gh tm" "0 < poll" "deadline \<le> time w + of_nat n * poll"
  shows "\<exists>y. land_loop gh tm pr poll deadline limit w = Some y"
  using assms(3)
proof (induction n arbitrary: w)
  case (0 w)
  obtain w1 r where turn: "land_turn gh pr limit w = (w1, r)" by fastforce
  with land_turn_forward [OF assms(1), of pr limit] have "time w \<le> time w1"
    by (metis fst_conv runs_forward_def)
  with 0 have "deadline \<le> time w1" by simp
  then have "\<not> snd (land_pause tm poll deadline w1)"
    using land_pause_forward(1) [OF assms(1,2)] by (metis not_less prod.collapse)
  then show ?case using turn by (subst land_loop.simps) (auto split: sum.splits option.splits prod.splits)
next
  case (Suc n w)
  obtain w1 r where turn: "land_turn gh pr limit w = (w1, r)" by fastforce
  with land_turn_forward [OF assms(1), of pr limit] have later: "time w \<le> time w1"
    by (metis fst_conv runs_forward_def)
  obtain w2 again where land_pause: "land_pause tm poll deadline w1 = (w2, again)" by fastforce
  show ?case
  proof (cases again)
    case True
    with land_pause_forward(2) [OF assms(1,2)] land_pause have "min (time w1 + poll) deadline \<le> time w2" by simp
    moreover have "0 \<le> of_nat n * poll" using assms(2) by simp
    ultimately have "deadline \<le> time w2 + of_nat n * poll"
      using later Suc.prems by (auto simp: min_def algebra_simps split: if_splits)
    from Suc.IH [OF this] show ?thesis using turn land_pause True
      by (subst land_loop.simps) (auto split: sum.splits option.splits)
  qed (use turn land_pause in \<open>subst land_loop.simps, auto split: sum.splits option.splits\<close>)
qed

text \<open>
  C35: Whatever GitHub answers, \<open>land\<close> returns or raises: with a positive poll interval, a time that
  never runs backwards and a sleep that lasts as long as asked, the polling loop ends.
\<close>

theorem land_always_returns:
  assumes "steady time gh tm" "0 < poll"
  shows "\<exists>y. land gh tm pr poll max_wait limit w = Some y"
proof -
  obtain w1 start where clock: "tm_clock tm w = (w1, start)" by fastforce
  from assms(1) have "snd (tm_clock tm w) \<le> time (fst (tm_clock tm w))" unfolding steady_def by blast
  with clock have start: "start \<le> time w1" by simp
  have "max_wait / poll \<le> of_nat (nat \<lceil>max_wait / poll\<rceil>)" by linarith
  then have "max_wait \<le> of_nat (nat \<lceil>max_wait / poll\<rceil>) * poll" using assms(2) by (simp add: pos_divide_le_eq)
  with start have "start + max_wait \<le> time w1 + of_nat (nat \<lceil>max_wait / poll\<rceil>) * poll" by simp
  from land_loop_returns [OF assms this] clock show ?thesis by (simp add: land_def)
qed

end
