(* ===== verification/Claim_Ledger.thy ===== *)
theory Claim_Ledger
  imports Py_Base "HOL-Library.Product_Lexorder"
begin

section \<open>Claims: the ledger of paths agents work on\<close>

text \<open>
  \<open>claim/__init__.py\<close>, what one operation does while it holds the lock (the lock itself is in
  \<open>Claim_Lock\<close>).  The ledger file is missing, unreadable as JSON, or a document of raw claims;
  a raw claim that is not an object is \<open>None\<close>, and a field of it is missing when it is absent or does
  not convert.  The clock is an argument.
\<close>

subsection \<open>Paths\<close>

text \<open>\<open>Path(path).as_posix()\<close> on a POSIX system.\<close>

definition path_root :: "string \<Rightarrow> string" where
  "path_root p = (if starts_with p ''//'' \<and> \<not> starts_with p ''///'' then ''//''
                  else if starts_with p ''/'' then ''/'' else [])"

definition posix_parts :: "string \<Rightarrow> string list" where
  "posix_parts p = filter (\<lambda>s. s \<noteq> [] \<and> s \<noteq> ''.'') (split_on (CHR ''/'') p)"

definition as_posix :: "string \<Rightarrow> string" where
  "as_posix p = (let s = path_root p @ join ''/'' (posix_parts p) in if s = [] then ''.'' else s)"

datatype claim_error = Empty_Claim_Path | No_Claim_Path | Ledger_Not_Json

definition normalize_path :: "string \<Rightarrow> (claim_error, string) result" where
  "normalize_path p = (let s = strip (as_posix p) in if s \<in> {[], ''.''} then Inl Empty_Claim_Path else Inr s)"

definition normalize_paths :: "string list \<Rightarrow> (claim_error, string list) result" where
  "normalize_paths ps = rbind (rmap normalize_path ps) (\<lambda>ns.
     if dedup ns = [] then Inl No_Claim_Path else Inr (dedup ns))"

subsection \<open>The file\<close>

record claim =
  cl_owner :: string
  cl_path :: string
  cl_acquired :: rat
  cl_expires :: rat

record raw_claim =
  rc_owner :: "string option"
  rc_path :: "string option"
  rc_acquired :: "rat option"
  rc_expires :: "rat option"

datatype ledger_file = No_Ledger | Bad_Ledger | Ledger_Doc "raw_claim option list"

definition claim_key :: "claim \<Rightarrow> string \<times> string" where
  "claim_key c = (cl_path c, cl_owner c)"

definition sort_claims :: "claim list \<Rightarrow> claim list" where
  "sort_claims cs = sort_key claim_key cs"

definition claim_from_payload :: "raw_claim \<Rightarrow> claim option" where
  "claim_from_payload r = (case (rc_owner r, rc_path r, rc_acquired r, rc_expires r) of
     (Some owner, Some path, Some acquired, Some expires) \<Rightarrow>
       (case normalize_path path of Inl _ \<Rightarrow> None
        | Inr p \<Rightarrow> Some \<lparr>cl_owner = owner, cl_path = p, cl_acquired = acquired, cl_expires = expires\<rparr>)
   | _ \<Rightarrow> None)"

definition read_ledger :: "ledger_file \<Rightarrow> (claim_error, claim list) result" where
  "read_ledger f = (case f of No_Ledger \<Rightarrow> Inr [] | Bad_Ledger \<Rightarrow> Inl Ledger_Not_Json
     | Ledger_Doc rs \<Rightarrow> Inr (sort_claims (List.map_filter claim_from_payload (List.map_filter id rs))))"

definition raw_of_claim :: "claim \<Rightarrow> raw_claim" where
  "raw_of_claim c = \<lparr>rc_owner = Some (cl_owner c), rc_path = Some (cl_path c), rc_acquired = Some (cl_acquired c),
     rc_expires = Some (cl_expires c)\<rparr>"

definition write_ledger :: "claim list \<Rightarrow> ledger_file" where
  "write_ledger cs = Ledger_Doc (map (\<lambda>c. Some (raw_of_claim c)) (sort_claims cs))"

definition active_claims :: "rat \<Rightarrow> ledger_file \<Rightarrow> (claim_error, claim list) result" where
  "active_claims now f = rbind (read_ledger f) (\<lambda>cs. Inr (filter (\<lambda>c. cl_expires c > now) cs))"

subsection \<open>The operations\<close>

record claim_result =
  cr_ok :: bool
  cr_claims :: "claim list"
  cr_conflicts :: "claim list"

definition acquire_claims :: "string \<Rightarrow> string list \<Rightarrow> int \<Rightarrow> rat \<Rightarrow> (ledger_file, claim_error, claim_result) action" where
  "acquire_claims owner paths ttl now f =
     (case rbind (active_claims now f) (\<lambda>active. rbind (normalize_paths paths) (\<lambda>wanted. Inr (active, wanted))) of
        Inl e \<Rightarrow> (f, Inl e)
      | Inr (active, wanted) \<Rightarrow>
          (let conflicts = filter (\<lambda>c. cl_path c \<in> set wanted \<and> cl_owner c \<noteq> owner) active in
           if conflicts \<noteq> [] then (f, Inr \<lparr>cr_ok = False, cr_claims = active, cr_conflicts = conflicts\<rparr>)
           else
             (let remaining = filter (\<lambda>c. \<not> (cl_owner c = owner \<and> cl_path c \<in> set wanted)) active;
                  new = map (\<lambda>p. \<lparr>cl_owner = owner, cl_path = p, cl_acquired = now, cl_expires = now + of_int ttl\<rparr>) wanted;
                  claims = sort_claims (remaining @ new) in
              (write_ledger claims, Inr \<lparr>cr_ok = True, cr_claims = claims, cr_conflicts = []\<rparr>))))"

record release_result =
  rl_released :: nat
  rl_claims :: "claim list"

definition release_claims :: "string \<Rightarrow> string option \<Rightarrow> rat \<Rightarrow> (ledger_file, claim_error, release_result) action" where
  "release_claims owner path now f =
     (case rbind (active_claims now f) (\<lambda>active.
        rbind (case path of None \<Rightarrow> Inr None | Some p \<Rightarrow> rbind (normalize_path p) (\<lambda>n. Inr (Some n))) (\<lambda>np. Inr (active, np))) of
        Inl e \<Rightarrow> (f, Inl e)
      | Inr (active, np) \<Rightarrow>
          (let claims = filter (\<lambda>c. \<not> (cl_owner c = owner \<and> (np = None \<or> Some (cl_path c) = np))) active in
           (write_ledger claims, Inr \<lparr>rl_released = length active - length claims, rl_claims = claims\<rparr>)))"

definition claim_status :: "rat \<Rightarrow> (ledger_file, claim_error, claim list) action" where
  "claim_status now f = (case active_claims now f of Inl e \<Rightarrow> (f, Inl e) | Inr cs \<Rightarrow> (write_ledger cs, Inr cs))"

definition check_claims :: "string list \<Rightarrow> string option \<Rightarrow> rat \<Rightarrow> ledger_file \<Rightarrow> (claim_error, claim_result) result" where
  "check_claims paths owner now f = rbind (active_claims now f) (\<lambda>active. rbind (normalize_paths paths) (\<lambda>wanted.
     (let conflicts = filter (\<lambda>c. cl_path c \<in> set wanted \<and> (owner = None \<or> Some (cl_owner c) \<noteq> owner)) active in
      Inr \<lparr>cr_ok = (conflicts = []), cr_claims = active, cr_conflicts = conflicts\<rparr>)))"

subsection \<open>Normalising twice\<close>

lemma posix_parts_props:
  assumes "q \<in> set (posix_parts p)"
  shows "q \<noteq> []" "q \<noteq> ''.''" "CHR ''/'' \<notin> set q"
  using assms by (auto simp: posix_parts_def dest: split_on_pieces)

lemma path_root_cases: "path_root p = [] \<or> path_root p = ''/'' \<or> path_root p = ''//''"
  by (simp add: path_root_def)

lemma posix_parts_root:
  "posix_parts (''/'' @ s) = posix_parts s" "posix_parts (''//'' @ s) = posix_parts s"
  by (simp_all add: posix_parts_def)

lemma posix_parts_join:
  assumes "\<forall>q\<in>set ps. q \<noteq> [] \<and> q \<noteq> ''.'' \<and> CHR ''/'' \<notin> set q"
  shows "posix_parts (join ''/'' ps) = ps"
proof (cases "ps = []")
  case False
  with assms show ?thesis by (auto simp: posix_parts_def split_on_join intro!: filter_True)
qed (simp add: posix_parts_def)

lemma path_root_join:
  assumes "r = [] \<or> r = ''/'' \<or> r = ''//''" "\<forall>q\<in>set ps. q \<noteq> [] \<and> CHR ''/'' \<notin> set q"
  shows "path_root (r @ join ''/'' ps) = r"
proof (cases ps)
  case (Cons q qs)
  with assms(2) obtain c cs where q: "q = c # cs" "c \<noteq> CHR ''/''" by (cases q) auto
  have "\<exists>t. join ''/'' ps = c # t" using Cons q by (cases qs) auto
  then obtain t where "join ''/'' ps = c # t" by blast
  with assms(1) q show ?thesis by (auto simp: path_root_def)
qed (use assms(1) in \<open>auto simp: path_root_def\<close>)

lemma as_posix_idem: "as_posix (as_posix p) = as_posix p"
proof -
  define s where "s = path_root p @ join ''/'' (posix_parts p)"
  have "posix_parts (join ''/'' (posix_parts p)) = posix_parts p"
    using posix_parts_props by (intro posix_parts_join) blast
  then have parts: "posix_parts s = posix_parts p"
    unfolding s_def using path_root_cases [of p] by (elim disjE) (simp_all only: posix_parts_root append_Nil)
  have root: "path_root s = path_root p"
    unfolding s_def using path_root_cases posix_parts_props by (intro path_root_join) auto
  show ?thesis
  proof (cases "s = []")
    case True
    then have "as_posix p = ''.''" by (simp add: as_posix_def s_def [symmetric])
    moreover have "as_posix ''.'' = ''.''" by (simp add: as_posix_def path_root_def posix_parts_def)
    ultimately show ?thesis by simp
  next
    case False
    then have "as_posix p = s" by (simp add: as_posix_def s_def [symmetric])
    moreover have "as_posix s = s" unfolding as_posix_def parts root using False by (simp add: s_def Let_def)
    ultimately show ?thesis by simp
  qed
qed

text \<open>A path whose POSIX form neither starts nor ends with white space.\<close>

definition plain_path :: "string \<Rightarrow> bool" where
  "plain_path p \<longleftrightarrow> strip (as_posix p) = as_posix p"

lemma normalize_plain: "plain_path p \<Longrightarrow> normalize_path p = Inr s \<Longrightarrow> normalize_path s = Inr s"
  by (auto simp: normalize_path_def plain_path_def as_posix_idem Let_def split: if_splits)

end
