(* ===== verification/Claim_Props.thy ===== *)
theory Claim_Props
  imports Claim_Ledger "HOL-Library.Multiset"
begin

section \<open>What the ledger of claims guarantees\<close>

text \<open>
  On paths that normalise to themselves, the ledger holds one claim at most for a path, and a claim
  that has not expired stays until its own owner releases it, whatever the others ask for.
\<close>

subsection \<open>Reading what was written\<close>

definition stable_claim :: "claim \<Rightarrow> bool" where
  "stable_claim c \<longleftrightarrow> normalize_path (cl_path c) = Inr (cl_path c)"

lemma sort_claims_simps [simp]:
  "set (sort_claims cs) = set cs" "mset (sort_claims cs) = mset cs" "sort_claims (sort_claims cs) = sort_claims cs"
  by (simp_all add: sort_claims_def sort_key_id_if_sorted)

lemma distinct_sort_claims [simp]: "distinct (map cl_path (sort_claims cs)) \<longleftrightarrow> distinct (map cl_path cs)"
proof -
  have "mset (map cl_path (sort_claims cs)) = mset (map cl_path cs)" by simp
  then show ?thesis by (rule mset_eq_imp_distinct_iff)
qed

lemma claim_from_raw: "stable_claim c \<Longrightarrow> claim_from_payload (raw_of_claim c) = Some c"
  by (simp add: claim_from_payload_def raw_of_claim_def stable_claim_def)

lemma read_write_ledger:
  assumes "list_all stable_claim cs"
  shows "read_ledger (write_ledger cs) = Inr (sort_claims cs)"
proof -
  have "List.map_filter claim_from_payload (List.map_filter id (map (\<lambda>c. Some (raw_of_claim c)) ds)) = ds"
    if "list_all stable_claim ds" for ds
    using that by (induction ds) (simp_all add: List.map_filter_simps claim_from_raw)
  moreover have "list_all stable_claim (sort_claims cs)" using assms by (simp add: list_all_iff)
  ultimately show ?thesis by (simp add: read_ledger_def write_ledger_def)
qed

subsection \<open>The invariant\<close>

definition claims_ok :: "claim list \<Rightarrow> bool" where
  "claims_ok cs \<longleftrightarrow> list_all stable_claim cs \<and> distinct (map cl_path cs)"

definition ledger_ok :: "ledger_file \<Rightarrow> bool" where
  "ledger_ok f = (case read_ledger f of Inl _ \<Rightarrow> False | Inr cs \<Rightarrow> claims_ok cs)"

lemma ledger_okE:
  assumes "ledger_ok f"
  obtains cs where "read_ledger f = Inr cs" "claims_ok cs"
  using assms by (auto simp: ledger_ok_def split: sum.splits)

lemma write_ok: "claims_ok cs \<Longrightarrow> ledger_ok (write_ledger cs)"
  by (auto simp: ledger_ok_def claims_ok_def read_write_ledger list_all_iff)

lemma filter_claims_ok: "claims_ok cs \<Longrightarrow> claims_ok (filter P cs)"
  by (simp add: claims_ok_def list_all_iff distinct_map_filter)

lemma normalize_paths_Inr:
  assumes "normalize_paths ps = Inr wanted"
  shows "distinct wanted" "set wanted = {s. \<exists>p\<in>set ps. normalize_path p = Inr s}"
proof -
  from assms obtain ns where ns: "list_all2 (\<lambda>p s. normalize_path p = Inr s) ps ns" "wanted = dedup ns"
    by (auto simp: normalize_paths_def result_simps rmap_Inr_iff split: if_splits)
  then have "set ns = {s. \<exists>p\<in>set ps. normalize_path p = Inr s}"
    by (force simp: list_all2_conv_all_nth in_set_conv_nth)
  with ns(2) show "distinct wanted" "set wanted = {s. \<exists>p\<in>set ps. normalize_path p = Inr s}" by simp_all
qed

text \<open>The two ways an acquisition of readable paths on a readable ledger ends.\<close>

definition held_by_others :: "string \<Rightarrow> string list \<Rightarrow> rat \<Rightarrow> claim list \<Rightarrow> claim list" where
  "held_by_others owner wanted now cs =
     filter (\<lambda>c. cl_path c \<in> set wanted \<and> cl_owner c \<noteq> owner) (filter (\<lambda>c. cl_expires c > now) cs)"

definition claims_after :: "string \<Rightarrow> string list \<Rightarrow> int \<Rightarrow> rat \<Rightarrow> claim list \<Rightarrow> claim list" where
  "claims_after owner wanted ttl now cs =
     filter (\<lambda>c. \<not> (cl_owner c = owner \<and> cl_path c \<in> set wanted)) (filter (\<lambda>c. cl_expires c > now) cs)
     @ map (\<lambda>p. \<lparr>cl_owner = owner, cl_path = p, cl_acquired = now, cl_expires = now + of_int ttl\<rparr>) wanted"

lemma acquire_result:
  assumes "read_ledger f = Inr cs" "normalize_paths paths = Inr wanted"
  shows "acquire_claims owner paths ttl now f =
    (if held_by_others owner wanted now cs \<noteq> []
     then (f, Inr \<lparr>cr_ok = False, cr_claims = filter (\<lambda>c. cl_expires c > now) cs,
                   cr_conflicts = held_by_others owner wanted now cs\<rparr>)
     else (write_ledger (claims_after owner wanted ttl now cs),
           Inr \<lparr>cr_ok = True, cr_claims = sort_claims (claims_after owner wanted ttl now cs), cr_conflicts = []\<rparr>))"
proof -
  have "write_ledger (sort_claims ds) = write_ledger ds" for ds by (simp add: write_ledger_def)
  with assms show ?thesis
    by (simp add: acquire_claims_def active_claims_def held_by_others_def claims_after_def Let_def)
qed

lemma claims_after_ok:
  assumes "claims_ok cs" "held_by_others owner wanted now cs = []" "distinct wanted"
    "\<forall>s\<in>set wanted. normalize_path s = Inr s"
  shows "claims_ok (claims_after owner wanted ttl now cs)"
proof -
  have "cl_path c \<notin> set wanted"
    if "c \<in> set cs" "cl_expires c > now" "\<not> (cl_owner c = owner \<and> cl_path c \<in> set wanted)" for c
    using that assms(2) by (auto simp: held_by_others_def filter_empty_conv)
  moreover have "claims_ok (filter (\<lambda>c. \<not> (cl_owner c = owner \<and> cl_path c \<in> set wanted)) (filter (\<lambda>c. cl_expires c > now) cs))"
    using assms(1) by (intro filter_claims_ok)
  ultimately show ?thesis using assms(3,4)
    by (auto simp: claims_ok_def claims_after_def list_all_iff stable_claim_def o_def)
qed

subsection \<open>Sessions\<close>

datatype claim_op = Acquire string "string list" int rat | Release string "string option" rat | Status rat

fun claim_run :: "claim_op \<Rightarrow> ledger_file \<Rightarrow> ledger_file" where
  "claim_run (Acquire owner paths ttl now) f = fst (acquire_claims owner paths ttl now f)"
| "claim_run (Release owner path now) f = fst (release_claims owner path now f)"
| "claim_run (Status now) f = fst (claim_status now f)"

fun op_plain :: "claim_op \<Rightarrow> bool" where
  "op_plain (Acquire owner paths ttl now) = list_all plain_path paths"
| "op_plain _ = True"

lemma acquire_ok:
  assumes "ledger_ok f" "list_all plain_path paths"
  shows "ledger_ok (fst (acquire_claims owner paths ttl now f))"
proof -
  from assms(1) obtain cs where cs: "read_ledger f = Inr cs" "claims_ok cs" by (rule ledger_okE)
  show ?thesis
  proof (cases "normalize_paths paths")
    case (Inl e)
    with assms cs show ?thesis by (simp add: acquire_claims_def active_claims_def)
  next
    case (Inr wanted)
    note w = normalize_paths_Inr [OF this]
    from w(2) assms(2) have "\<forall>s\<in>set wanted. normalize_path s = Inr s"
      by (auto simp: list_all_iff intro: normalize_plain)
    with w(1) cs assms(1) show ?thesis
      by (auto simp: acquire_result [OF cs(1) Inr] intro!: write_ok claims_after_ok)
  qed
qed

lemma release_ok: "ledger_ok f \<Longrightarrow> ledger_ok (fst (release_claims owner path now f))"
  by (auto simp: release_claims_def active_claims_def Let_def result_simps split: sum.splits
      elim!: ledger_okE intro!: write_ok filter_claims_ok)

lemma status_ok: "ledger_ok f \<Longrightarrow> ledger_ok (fst (claim_status now f))"
  by (auto simp: claim_status_def active_claims_def elim!: ledger_okE intro!: write_ok filter_claims_ok)

interpretation ledger_calls: guarded_session claim_run ledger_ok op_plain
proof
  show "ledger_ok f \<Longrightarrow> op_plain x \<Longrightarrow> ledger_ok (claim_run x f)" for f x
    by (cases x) (auto intro: acquire_ok release_ok status_ok)
qed

text \<open>The owner an operation acts for and the time it acts at.\<close>

fun op_owner :: "claim_op \<Rightarrow> string option" where
  "op_owner (Acquire owner paths ttl now) = Some owner"
| "op_owner (Release owner path now) = Some owner"
| "op_owner (Status now) = None"

fun op_time :: "claim_op \<Rightarrow> rat" where
  "op_time (Acquire owner paths ttl now) = now"
| "op_time (Release owner path now) = now"
| "op_time (Status now) = now"

definition holds :: "claim \<Rightarrow> ledger_file \<Rightarrow> bool" where
  "holds c f \<longleftrightarrow> (case read_ledger f of Inl _ \<Rightarrow> False | Inr cs \<Rightarrow> c \<in> set cs)"

definition spares :: "claim \<Rightarrow> claim_op \<Rightarrow> bool" where
  "spares c x \<longleftrightarrow> op_plain x \<and> op_owner x \<noteq> Some (cl_owner c) \<and> op_time x < cl_expires c"

lemma holds_written: "list_all stable_claim cs \<Longrightarrow> holds c (write_ledger cs) \<longleftrightarrow> c \<in> set cs"
  by (simp add: holds_def read_write_ledger)

lemma claims_ok_stable: "claims_ok cs \<Longrightarrow> list_all stable_claim (filter P cs)"
  by (auto simp: claims_ok_def list_all_iff)

lemma acquire_spares:
  assumes "ledger_ok f" "holds c f" "list_all plain_path paths" "owner \<noteq> cl_owner c" "now < cl_expires c"
  shows "holds c (fst (acquire_claims owner paths ttl now f))"
proof -
  from assms(1) obtain cs where cs: "read_ledger f = Inr cs" "claims_ok cs" by (rule ledger_okE)
  with assms(2) have c: "c \<in> set cs" by (simp add: holds_def)
  show ?thesis
  proof (cases "normalize_paths paths")
    case (Inl e)
    with assms(2) cs show ?thesis by (simp add: acquire_claims_def active_claims_def)
  next
    case (Inr wanted)
    note w = normalize_paths_Inr [OF this]
    from w(2) assms(3) have "\<forall>s\<in>set wanted. normalize_path s = Inr s"
      by (auto simp: list_all_iff intro: normalize_plain)
    then have "held_by_others owner wanted now cs = [] \<Longrightarrow> list_all stable_claim (claims_after owner wanted ttl now cs)"
      using claims_after_ok [OF cs(2) _ w(1)] by (simp add: claims_ok_def)
    then show ?thesis using assms(2,4,5) c
      by (auto simp: acquire_result [OF cs(1) Inr] holds_written) (simp add: claims_after_def)
  qed
qed

lemma run_spares:
  assumes "ledger_ok f" "holds c f" "spares c x"
  shows "holds c (claim_run x f)"
proof -
  from assms(1) obtain cs where cs: "read_ledger f = Inr cs" "claims_ok cs" by (rule ledger_okE)
  with assms(2) have c: "c \<in> set cs" by (simp add: holds_def)
  show ?thesis
  proof (cases x)
    case (Acquire owner paths ttl now)
    with assms show ?thesis by (auto simp: spares_def intro: acquire_spares)
  next
    case (Release owner path now)
    with assms(3) have "cl_owner c \<noteq> owner" "now < cl_expires c" by (auto simp: spares_def)
    with Release cs c assms(2) show ?thesis
      by (auto simp: release_claims_def active_claims_def Let_def result_simps holds_written claims_ok_stable split: sum.splits)
  next
    case (Status now)
    with assms(3) have "now < cl_expires c" by (simp add: spares_def)
    with Status cs c show ?thesis by (simp add: claim_status_def active_claims_def holds_written claims_ok_stable)
  qed
qed

interpretation spared_claim: guarded_session claim_run "\<lambda>f. ledger_ok f \<and> holds c f" "spares c"
proof
  show "ledger_ok f \<and> holds c f \<Longrightarrow> spares c x \<Longrightarrow> ledger_ok (claim_run x f) \<and> holds c (claim_run x f)" for f x
    using run_spares ledger_calls.keeps_allowed by (auto simp: spares_def)
qed

text \<open>
  C30: A claim is exclusive as long as it lives.  On a ledger that sessions of the operations on paths
  without white space at their ends keep, a claim that has not expired survives every sequence of
  operations of other owners, and while it is there no other claim of its path is: the ledger never
  has two claims of one path.
\<close>

theorem live_claim_is_exclusive:
  assumes "list_all op_plain before" "holds c (fold claim_run before No_Ledger)" "list_all (spares c) others"
  shows "\<exists>cs. read_ledger (fold claim_run (before @ others) No_Ledger) = Inr cs \<and> c \<in> set cs
     \<and> distinct (map cl_path cs)"
proof -
  have "ledger_ok No_Ledger" by (simp add: ledger_ok_def read_ledger_def claims_ok_def)
  with assms(1) have "ledger_ok (fold claim_run before No_Ledger)" by (intro ledger_calls.guarded_session_good)
  with assms(2,3) have "ledger_ok (fold claim_run (before @ others) No_Ledger) \<and> holds c (fold claim_run (before @ others) No_Ledger)"
    using spared_claim.guarded_session_good [of "fold claim_run before No_Ledger" c others] by simp
  then show ?thesis by (auto simp: holds_def claims_ok_def elim!: ledger_okE)
qed

text \<open>
  An acquisition of paths without white space at their ends succeeds exactly when no other owner
  has a live claim of one of them; then the owner holds each of them until the time asked for, and
  the other live claims are unchanged.  A refused one reports the claims in the way and writes nothing.
\<close>

theorem acquire_is_exact:
  assumes "ledger_ok f" "read_ledger f = Inr cs" "list_all plain_path paths" "normalize_paths paths = Inr wanted"
  shows "case acquire_claims owner paths ttl now f of
      (f', Inr r) \<Rightarrow> cr_ok r = (held_by_others owner wanted now cs = [])
         \<and> cr_conflicts r = held_by_others owner wanted now cs
         \<and> (if cr_ok r then read_ledger f' = Inr (sort_claims (claims_after owner wanted ttl now cs)) \<and> ledger_ok f'
            else f' = f)
    | (f', Inl e) \<Rightarrow> False"
proof -
  from assms(1,2) have cs: "claims_ok cs" by (simp add: ledger_ok_def)
  note w = normalize_paths_Inr [OF assms(4)]
  from w(2) assms(3) have "\<forall>s\<in>set wanted. normalize_path s = Inr s"
    by (auto simp: list_all_iff intro: normalize_plain)
  then have "held_by_others owner wanted now cs = [] \<Longrightarrow> claims_ok (claims_after owner wanted ttl now cs)"
    using claims_after_ok [OF cs _ w(1)] by simp
  then show ?thesis
    by (auto simp: acquire_result [OF assms(2,4)] write_ok read_write_ledger claims_ok_def)
qed

text \<open>
  A path that starts with white space is stored stripped and read back normalised once more, to a
  path it is not compared with: both owners are granted \<open>'' ./a''\<close>, and the ledger then has two claims
  of \<open>a\<close>.
\<close>

lemma leading_space_breaks_exclusion:
  "rbind (read_ledger (claim_run (Acquire ''bob'' ['' ./a''] 60 1) (claim_run (Acquire ''amy'' ['' ./a''] 60 0) No_Ledger)))
     (\<lambda>cs. Inr (map (\<lambda>c. (cl_owner c, cl_path c)) cs)) = Inr [(''amy'', ''a''), (''bob'', ''a'')]"
  by code_simp

end
