(* ===== verification/Claim_Lock.thy ===== *)
theory Claim_Lock
  imports Complex_Main
begin

section \<open>Claims: the lock file\<close>

text \<open>
  \<open>ClaimLedger._locked\<close> as a step relation over the processes that want the ledger.  A step is one
  system call: the exclusive creation, the look at the age of a lock that exists, the removal of a
  stale one, the write that stamps the lock, the removal at the end.  Time passes in steps of its own,
  the pause of 50 ms between two attempts among them, and a process may die anywhere, leaving its lock.
\<close>

datatype lock_pc = Trying | Saw_Lock | Saw_Stale | Opened | Inside | Outside

record 'p lock_state =
  lk_file :: "('p \<times> rat) option"
  lk_time :: rat
  lk_pc :: "'p \<Rightarrow> lock_pc"

definition lock_stale_seconds :: rat where
  "lock_stale_seconds = 30"

text \<open>\<open>_is_stale_lock\<close>: a lock that is gone is not stale.\<close>

definition is_stale_lock :: "'p lock_state \<Rightarrow> bool" where
  "is_stale_lock s = (case lk_file s of None \<Rightarrow> False | Some (_, mtime) \<Rightarrow> lk_time s - mtime > lock_stale_seconds)"

definition goto :: "'p \<Rightarrow> lock_pc \<Rightarrow> 'p lock_state \<Rightarrow> 'p lock_state" where
  "goto p c s = s\<lparr>lk_pc := (lk_pc s)(p := c)\<rparr>"

inductive lock_step :: "'p lock_state \<Rightarrow> 'p lock_state \<Rightarrow> bool" where
  arrive: "lk_pc s p = Outside \<Longrightarrow> lock_step s (goto p Trying s)"
| create: "lk_pc s p = Trying \<Longrightarrow> lk_file s = None \<Longrightarrow>
    lock_step s (goto p Opened s\<lparr>lk_file := Some (p, lk_time s)\<rparr>)"
| exists: "lk_pc s p = Trying \<Longrightarrow> lk_file s = Some l \<Longrightarrow> lock_step s (goto p Saw_Lock s)"
| fresh: "lk_pc s p = Saw_Lock \<Longrightarrow> \<not> is_stale_lock s \<Longrightarrow> lock_step s (goto p Trying s)"
| stale: "lk_pc s p = Saw_Lock \<Longrightarrow> is_stale_lock s \<Longrightarrow> lock_step s (goto p Saw_Stale s)"
| unlink: "lk_pc s p = Saw_Stale \<Longrightarrow> lock_step s (goto p Trying s\<lparr>lk_file := None\<rparr>)"
| stamp: "lk_pc s p = Opened \<Longrightarrow>
    lock_step s (goto p Inside s\<lparr>lk_file := map_option (\<lambda>(q, m). (q, if q = p then lk_time s else m)) (lk_file s)\<rparr>)"
| leave: "lk_pc s p \<in> {Opened, Inside} \<Longrightarrow> lock_step s (goto p Outside s\<lparr>lk_file := None\<rparr>)"
| die: "lock_step s (goto p Outside s)"
| wait: "0 \<le> d \<Longrightarrow> lock_step s (s\<lparr>lk_time := lk_time s + d\<rparr>)"

definition lock_start :: "rat \<Rightarrow> 'p lock_state" where
  "lock_start t = \<lparr>lk_file = None, lk_time = t, lk_pc = (\<lambda>_. Outside)\<rparr>"

text \<open>The runs of the protocol, and those in which no lock ever gets stale.\<close>

inductive lock_run :: "('p lock_state \<Rightarrow> bool) \<Rightarrow> 'p lock_state \<Rightarrow> 'p lock_state \<Rightarrow> bool" for ok where
  stop: "lock_run ok s s"
| move: "lock_run ok s t \<Longrightarrow> lock_step t u \<Longrightarrow> ok u \<Longrightarrow> lock_run ok s u"

definition critical :: "'p lock_state \<Rightarrow> 'p set" where
  "critical s = {p. lk_pc s p \<in> {Opened, Inside}}"

lemma goto_simps [simp]:
  "lk_pc (goto p c s) = (lk_pc s)(p := c)" "lk_file (goto p c s) = lk_file s" "lk_time (goto p c s) = lk_time s"
  by (simp_all add: goto_def)

subsection \<open>Exclusion\<close>

text \<open>Whoever is inside created the lock that is there, and nobody is about to remove it.\<close>

definition lock_ok :: "'p lock_state \<Rightarrow> bool" where
  "lock_ok s \<longleftrightarrow> (\<forall>p. lk_pc s p \<in> {Opened, Inside} \<longrightarrow> map_option fst (lk_file s) = Some p) \<and> (\<forall>p. lk_pc s p \<noteq> Saw_Stale)"

lemma lock_ok_goto:
  assumes "lock_ok s" "c \<in> {Trying, Saw_Lock, Outside}"
  shows "lock_ok (goto p c s)"
  using assms by (auto simp: lock_ok_def)

lemma lock_ok_alone:
  assumes "lock_ok s" "lk_pc s p \<in> {Opened, Inside}" "lk_pc s q \<in> {Opened, Inside}"
  shows "p = q"
proof -
  from assms have "map_option fst (lk_file s) = Some p" "map_option fst (lk_file s) = Some q"
    unfolding lock_ok_def by blast+
  then show ?thesis by simp
qed

lemma lock_step_ok:
  assumes "lock_step s t" "lock_ok s" "\<not> is_stale_lock s"
  shows "lock_ok t"
  using assms
proof (induction rule: lock_step.induct)
  case (create s p)
  from create have "lk_pc s q \<notin> {Opened, Inside}" for q unfolding lock_ok_def by force
  with create show ?case by (simp add: lock_ok_def)
next
  case (unlink s p)
  then show ?case by (simp add: lock_ok_def)
next
  case (stamp s p)
  then have "map_option fst (lk_file s) = Some p" unfolding lock_ok_def by blast
  then obtain m where "lk_file s = Some (p, m)" by auto
  moreover have "lk_pc s q \<notin> {Opened, Inside}" if "q \<noteq> p" for q
    using stamp that lock_ok_alone [of s p q] by blast
  moreover have "lk_pc s q \<noteq> Saw_Stale" for q using stamp unfolding lock_ok_def by blast
  ultimately show ?case by (simp add: lock_ok_def)
next
  case (leave s p)
  then have "lk_pc s q \<notin> {Opened, Inside}" if "q \<noteq> p" for q
    using that lock_ok_alone [of s p q] by blast
  with leave show ?case by (simp add: lock_ok_def)
next
  case (wait d s)
  then show ?case by (simp add: lock_ok_def)
qed (simp_all add: lock_ok_goto)

lemma calm_run_ok:
  assumes "lock_run (\<lambda>s. \<not> is_stale_lock s) s0 s" "lock_ok s0" "\<not> is_stale_lock s0"
  shows "lock_ok s \<and> \<not> is_stale_lock s"
  using assms by (induction rule: lock_run.induct) (auto intro: lock_step_ok)

lemma lock_start_ok: "lock_ok (lock_start t)" "\<not> is_stale_lock (lock_start t)"
  by (simp_all add: lock_start_def lock_ok_def is_stale_lock_def)

text \<open>
  C31: As long as no lock file gets older than thirty seconds, at most one process is between taking
  the lock and giving it back, whatever the others do, and also when processes die.
\<close>

theorem lock_is_exclusive:
  assumes "lock_run (\<lambda>s. \<not> is_stale_lock s) (lock_start t) s" "p \<in> critical s" "q \<in> critical s"
  shows "p = q"
proof -
  from assms(1) lock_start_ok have "lock_ok s" by (blast dest: calm_run_ok)
  then show ?thesis using assms(2,3) unfolding critical_def by (blast intro: lock_ok_alone)
qed

subsection \<open>Recovery, and its price\<close>

lemma lock_run_trans [trans]:
  assumes "lock_run ok s t" "lock_run ok t u"
  shows "lock_run ok s u"
  using assms(2,1) by (induction rule: lock_run.induct) (blast intro: lock_run.move)+

lemma one_step: "lock_step s t \<Longrightarrow> lock_run (\<lambda>_. True) s t"
  by (blast intro: lock_run.intros)

text \<open>A lock nobody gives back does not block: thirty seconds on, a waiting process gets in.\<close>

lemma waiter_gets_in:
  assumes "lk_pc s p = Trying"
  shows "\<exists>t. lock_run (\<lambda>_. True) s t \<and> lk_pc t p = Inside \<and> (\<forall>q. q \<noteq> p \<longrightarrow> lk_pc t q = lk_pc s q)"
proof -
  have free: "\<exists>t. lock_run (\<lambda>_. True) u t \<and> lk_pc t p = Inside \<and> (\<forall>q. q \<noteq> p \<longrightarrow> lk_pc t q = lk_pc u q)"
    if "lk_pc u p = Trying" "lk_file u = None" for u
  proof -
    let ?v = "goto p Opened u\<lparr>lk_file := Some (p, lk_time u)\<rparr>"
    have "lock_run (\<lambda>_. True) u ?v" using that by (intro one_step lock_step.create)
    moreover have "lk_pc ?v p = Opened" by simp
    ultimately show ?thesis
      using lock_run.move [OF _ lock_step.stamp [of ?v p]] by (force simp: that)
  qed
  show ?thesis
  proof (cases "lk_file s")
    case None
    with free assms show ?thesis by blast
  next
    case (Some l)
    obtain q m where l: "l = (q, m)" by fastforce
    define s1 where "s1 = goto p Saw_Lock s"
    define s2 where "s2 = s1\<lparr>lk_time := lk_time s1 + max 0 (m + 31 - lk_time s1)\<rparr>"
    define s3 where "s3 = goto p Saw_Stale s2"
    define s4 where "s4 = goto p Trying s3\<lparr>lk_file := None\<rparr>"
    note defs = s1_def s2_def s3_def s4_def
    have "lock_step s s1" unfolding s1_def using assms Some by (rule lock_step.exists)
    moreover have "lock_step s1 s2" unfolding s2_def by (rule lock_step.wait) simp
    moreover have "is_stale_lock s2" by (simp add: is_stale_lock_def lock_stale_seconds_def defs Some l)
    then have "lock_step s2 s3" unfolding s3_def by (intro lock_step.stale) (simp_all add: defs)
    moreover have "lock_step s3 s4" unfolding s4_def by (rule lock_step.unlink) (simp add: defs)
    ultimately have "lock_run (\<lambda>_. True) s s4" by (blast intro: one_step lock_run_trans)
    moreover from free [of s4] obtain t where
      "lock_run (\<lambda>_. True) s4 t" "lk_pc t p = Inside" "\<forall>q. q \<noteq> p \<longrightarrow> lk_pc t q = lk_pc s4 q"
      by (auto simp: defs)
    ultimately have "lock_run (\<lambda>_. True) s t" by (blast intro: lock_run_trans)
    moreover have "lk_pc t q = lk_pc s q" if "q \<noteq> p" for q
      using \<open>\<forall>q. q \<noteq> p \<longrightarrow> lk_pc t q = lk_pc s4 q\<close> that by (simp add: defs)
    ultimately show ?thesis using \<open>lk_pc t p = Inside\<close> by blast
  qed
qed

text \<open>
  Two processes that both found the lock of a dead one stale remove it one after the other, and the
  second removes what the first had just created: both are inside.
\<close>

lemma stale_takeover_lets_two_in:
  "\<exists>s. lock_run (\<lambda>_. True) (lock_start 0) s \<and> lk_pc s (1::nat) = Inside \<and> lk_pc s 2 = Inside"
proof -
  define s0 :: "nat lock_state" where "s0 = \<lparr>lk_file = Some (0, 0), lk_time = 31, lk_pc = (\<lambda>_. Outside)(1 := Saw_Stale, 2 := Saw_Stale)\<rparr>"
  have "lock_run (\<lambda>_. True) (lock_start 0) s0"
  proof -
    define a :: "nat lock_state" where "a = goto 0 Trying (lock_start 0)"
    define b where "b = goto 0 Opened a\<lparr>lk_file := Some (0, lk_time a)\<rparr>"
    define c where "c = goto 0 Outside b"
    define d where "d = c\<lparr>lk_time := lk_time c + 31\<rparr>"
    define e where "e = goto 1 Trying d"
    define f where "f = goto 1 Saw_Lock e"
    define g where "g = goto 1 Saw_Stale f"
    define h where "h = goto 2 Trying g"
    define i where "i = goto 2 Saw_Lock h"
    define j where "j = goto 2 Saw_Stale i"
    note defs = a_def b_def c_def d_def e_def f_def g_def h_def i_def j_def lock_start_def
    have "lock_run (\<lambda>_. True) (lock_start 0) a" unfolding a_def by (rule one_step, rule lock_step.arrive) (simp add: lock_start_def)
    also have "lock_run (\<lambda>_. True) a b" unfolding b_def by (rule one_step, rule lock_step.create) (simp_all add: defs)
    also have "lock_run (\<lambda>_. True) b c" unfolding c_def by (rule one_step, rule lock_step.die)
    also have "lock_run (\<lambda>_. True) c d" unfolding d_def by (rule one_step, rule lock_step.wait) simp
    also have "lock_run (\<lambda>_. True) d e" unfolding e_def by (rule one_step, rule lock_step.arrive) (simp add: defs)
    also have "lock_run (\<lambda>_. True) e f" unfolding f_def by (rule one_step, rule lock_step.exists [of _ _ "(0, 0)"]) (simp_all add: defs)
    also have "lock_run (\<lambda>_. True) f g" unfolding g_def
      by (rule one_step, rule lock_step.stale) (simp_all add: defs is_stale_lock_def lock_stale_seconds_def)
    also have "lock_run (\<lambda>_. True) g h" unfolding h_def by (rule one_step, rule lock_step.arrive) (simp add: defs)
    also have "lock_run (\<lambda>_. True) h i" unfolding i_def by (rule one_step, rule lock_step.exists [of _ _ "(0, 0)"]) (simp_all add: defs)
    also have "lock_run (\<lambda>_. True) i j" unfolding j_def
      by (rule one_step, rule lock_step.stale) (simp_all add: defs is_stale_lock_def lock_stale_seconds_def)
    finally have "lock_run (\<lambda>_. True) (lock_start 0) j" .
    moreover have "j = s0" by (simp add: defs s0_def goto_def fun_eq_iff)
    ultimately show ?thesis by simp
  qed
  moreover define s1 where "s1 = goto 1 Trying s0\<lparr>lk_file := None\<rparr>"
  have "lock_step s0 s1" unfolding s1_def by (rule lock_step.unlink) (simp add: s0_def)
  moreover from waiter_gets_in [of s1 1] obtain s2 where
    s2: "lock_run (\<lambda>_. True) s1 s2" "lk_pc s2 1 = Inside" "\<forall>q. q \<noteq> 1 \<longrightarrow> lk_pc s2 q = lk_pc s1 q"
    by (auto simp: s1_def)
  moreover define s3 where "s3 = goto 2 Trying s2\<lparr>lk_file := None\<rparr>"
  from s2(3) have "lk_pc s2 2 = Saw_Stale" by (simp add: s1_def s0_def)
  then have "lock_step s2 s3" unfolding s3_def by (rule lock_step.unlink)
  moreover from waiter_gets_in [of s3 2] obtain s4 where
    "lock_run (\<lambda>_. True) s3 s4" "lk_pc s4 2 = Inside" "\<forall>q. q \<noteq> 2 \<longrightarrow> lk_pc s4 q = lk_pc s3 q"
    by (auto simp: s3_def)
  moreover have "lk_pc s3 1 = Inside" using s2(2) by (simp add: s3_def)
  ultimately have "lock_run (\<lambda>_. True) (lock_start 0) s4 \<and> lk_pc s4 1 = Inside \<and> lk_pc s4 2 = Inside"
    by (metis one_step lock_run_trans num.distinct(1) one_eq_numeral_iff)
  then show ?thesis by blast
qed

end
