(* ===== verification/Memstage.thy ===== *)
theory Memstage
  imports Py_Base "HOL-Library.Product_Lexorder" "HOL-Library.Multiset"
begin

section \<open>Memory staging: the approval queue in front of the memory store\<close>

text \<open>
  \<open>memstage/queue.py\<close>.  The two directories are dictionaries from file names to documents, a document
  that does not parse is unreadable.  The memory store and the hash of the content are parameters; a
  proposal id is a file name, so it holds no slash.
\<close>

subsection \<open>Data\<close>

record staged_proposal =
  sp_id :: string
  sp_kind :: string
  sp_title :: string
  sp_summary :: string
  sp_reason :: string
  sp_staged_at :: string
  sp_seq :: int

datatype stage_decision = Stage_Approved | Stage_Rejected

record stage_audit =
  sa_seq :: int
  sa_proposal :: string
  sa_decision :: stage_decision
  sa_reason :: string
  sa_memory :: string

text \<open>The documents as \<open>from_dict\<close> meets them: a field absent, or of the type the writer gives it.\<close>

record proposal_doc =
  pd_id :: "string option"
  pd_kind :: "string option"
  pd_title :: "string option"
  pd_summary :: "string option"
  pd_reason :: "string option"
  pd_staged_at :: "string option"
  pd_seq :: "int option"

record audit_doc =
  ad_seq :: "int option"
  ad_proposal :: "string option"
  ad_decision :: "string option"
  ad_reason :: "string option"
  ad_memory :: "string option"

definition proposal_from_dict :: "proposal_doc \<Rightarrow> staged_proposal option" where
  "proposal_from_dict d = (case pd_id d of None \<Rightarrow> None
     | Some i \<Rightarrow> Some \<lparr>sp_id = i, sp_kind = get_or [] (pd_kind d), sp_title = get_or [] (pd_title d),
         sp_summary = get_or [] (pd_summary d), sp_reason = get_or [] (pd_reason d),
         sp_staged_at = get_or [] (pd_staged_at d), sp_seq = get_or 0 (pd_seq d)\<rparr>)"

definition proposal_to_dict :: "staged_proposal \<Rightarrow> proposal_doc" where
  "proposal_to_dict p = \<lparr>pd_id = Some (sp_id p), pd_kind = Some (sp_kind p), pd_title = Some (sp_title p),
     pd_summary = Some (sp_summary p), pd_reason = Some (sp_reason p), pd_staged_at = Some (sp_staged_at p),
     pd_seq = Some (sp_seq p)\<rparr>"

fun stage_decision_value :: "stage_decision \<Rightarrow> string" where
  "stage_decision_value Stage_Approved = ''approved''"
| "stage_decision_value Stage_Rejected = ''rejected''"

definition stage_audit_from_dict :: "audit_doc \<Rightarrow> stage_audit" where
  "stage_audit_from_dict d = \<lparr>sa_seq = get_or 0 (ad_seq d), sa_proposal = get_or [] (ad_proposal d),
     sa_decision = (if get_or ''rejected'' (ad_decision d) = ''approved'' then Stage_Approved else Stage_Rejected),
     sa_reason = get_or [] (ad_reason d), sa_memory = get_or [] (ad_memory d)\<rparr>"

definition stage_audit_to_dict :: "stage_audit \<Rightarrow> audit_doc" where
  "stage_audit_to_dict a = \<lparr>ad_seq = Some (sa_seq a), ad_proposal = Some (sa_proposal a),
     ad_decision = Some (stage_decision_value (sa_decision a)), ad_reason = Some (sa_reason a), ad_memory = Some (sa_memory a)\<rparr>"

datatype 'd stage_file = Unreadable | Readable 'd

record stage_dirs =
  sd_pending :: "(string \<times> proposal_doc stage_file) list"
  sd_audit :: "(string \<times> audit_doc stage_file) list"

subsection \<open>Names and numbers\<close>

text \<open>\<open>p.suffix == ".json"\<close>.\<close>

definition is_json_file :: "string \<Rightarrow> bool" where
  "is_json_file n \<longleftrightarrow> ends_with n ''.json'' \<and> n \<noteq> ''.json''"

definition pending_file :: "string \<Rightarrow> string" where
  "pending_file i = i @ ''.json''"

definition stage_audit_file :: "int \<Rightarrow> string \<Rightarrow> string" where
  "stage_audit_file q i = pad_nat 6 (nat q) @ ''-'' @ i @ ''.json''"

definition next_seq :: "stage_dirs \<Rightarrow> int" where
  "next_seq d = int (length (filter (\<lambda>(n, _). is_json_file n) (sd_pending d)))"

definition next_audit_seq :: "stage_dirs \<Rightarrow> int" where
  "next_audit_seq d = int (length (filter (\<lambda>(n, _). is_json_file n) (sd_audit d)))"

type_synonym proposal_hash = "string \<Rightarrow> string \<Rightarrow> string \<Rightarrow> string"

definition proposal_id :: "proposal_hash \<Rightarrow> string \<Rightarrow> string \<Rightarrow> string \<Rightarrow> int \<Rightarrow> string" where
  "proposal_id hash k t s q = ''ms-'' @ hash k t s @ ''-'' @ pad_nat 4 (nat q)"

definition memory_kinds :: "string list" where
  "memory_kinds = [''doc_fact'', ''decision'', ''invariant'', ''hotspot'', ''git_pattern'', ''validation_rule'',
     ''failed_approach'', ''design_conflict'', ''gotcha'']"

subsection \<open>The operations\<close>

datatype stage_error = Kind_Empty | Title_Empty | Summary_Empty | No_Such_Proposal string
  | Unknown_Kind string | Store_Failed string

definition load_proposal :: "stage_dirs \<Rightarrow> string \<Rightarrow> staged_proposal option" where
  "load_proposal d i = (case map_of (sd_pending d) (pending_file i) of
     Some (Readable doc) \<Rightarrow> proposal_from_dict doc | _ \<Rightarrow> None)"

definition save_proposal :: "staged_proposal \<Rightarrow> stage_dirs \<Rightarrow> stage_dirs" where
  "save_proposal p d = d\<lparr>sd_pending := AList.update (pending_file (sp_id p)) (Readable (proposal_to_dict p)) (sd_pending d)\<rparr>"

definition remove_proposal :: "string \<Rightarrow> stage_dirs \<Rightarrow> stage_dirs" where
  "remove_proposal i d = d\<lparr>sd_pending := AList.delete (pending_file i) (sd_pending d)\<rparr>"

definition save_stage_audit :: "stage_audit \<Rightarrow> stage_dirs \<Rightarrow> stage_dirs" where
  "save_stage_audit a d = d\<lparr>sd_audit := AList.update (stage_audit_file (sa_seq a) (sa_proposal a)) (Readable (stage_audit_to_dict a)) (sd_audit d)\<rparr>"

definition stage_proposal :: "proposal_hash \<Rightarrow> string \<Rightarrow> string \<Rightarrow> string \<Rightarrow> string \<Rightarrow> string
    \<Rightarrow> (stage_dirs, stage_error, staged_proposal) action" where
  "stage_proposal hash kind title summary reason at_time d =
     (if strip kind = [] then (d, Inl Kind_Empty)
      else if strip title = [] then (d, Inl Title_Empty)
      else if strip summary = [] then (d, Inl Summary_Empty)
      else let q = next_seq d;
               p = \<lparr>sp_id = proposal_id hash (strip kind) (strip title) (strip summary) q, sp_kind = strip kind,
                    sp_title = strip title, sp_summary = strip summary, sp_reason = strip reason,
                    sp_staged_at = at_time, sp_seq = q\<rparr>
           in (save_proposal p d, Inr p))"

definition list_pending :: "stage_dirs \<Rightarrow> staged_proposal list" where
  "list_pending d = sort_key (\<lambda>p. (sp_seq p, sp_id p))
     (List.map_filter (\<lambda>(n, f). if is_json_file n then (case f of Readable doc \<Rightarrow> proposal_from_dict doc | Unreadable \<Rightarrow> None) else None)
        (sort_key fst (sd_pending d)))"

text \<open>\<open>add_manual_memory\<close> of the service: kind, title, summary and source; it may raise.\<close>

type_synonym 'w memory_store = "string \<Rightarrow> string \<Rightarrow> string \<Rightarrow> string \<Rightarrow> 'w \<Rightarrow> 'w \<times> (string, string) result"

definition audit_decision :: "string \<Rightarrow> stage_decision \<Rightarrow> string \<Rightarrow> string \<Rightarrow> stage_dirs \<Rightarrow> stage_dirs \<times> stage_audit" where
  "audit_decision i dec reason memory d =
     (let d1 = remove_proposal i d;
          a = \<lparr>sa_seq = next_audit_seq d1, sa_proposal = i, sa_decision = dec, sa_reason = reason, sa_memory = memory\<rparr>
      in (save_stage_audit a d1, a))"

definition approve_proposal :: "'w memory_store \<Rightarrow> string \<Rightarrow> (stage_dirs \<times> 'w, stage_error, stage_audit) action" where
  "approve_proposal store i = (\<lambda>(d, w).
     case load_proposal d i of None \<Rightarrow> ((d, w), Inl (No_Such_Proposal i))
     | Some p \<Rightarrow>
         if sp_kind p \<notin> set memory_kinds then ((d, w), Inl (Unknown_Kind (sp_kind p)))
         else (case store (sp_kind p) (sp_title p) (sp_summary p) (''memstage:'' @ i) w of
                 (w', Inl e) \<Rightarrow> ((d, w'), Inl (Store_Failed e))
               | (w', Inr m) \<Rightarrow> (case audit_decision i Stage_Approved [] m d of (d', a) \<Rightarrow> ((d', w'), Inr a))))"

definition reject_proposal :: "string \<Rightarrow> string \<Rightarrow> (stage_dirs, stage_error, stage_audit) action" where
  "reject_proposal i reason d = (case load_proposal d i of None \<Rightarrow> (d, Inl (No_Such_Proposal i))
     | Some p \<Rightarrow> (case audit_decision i Stage_Rejected (strip reason) [] d of (d', a) \<Rightarrow> (d', Inr a)))"

definition list_stage_audit :: "stage_dirs \<Rightarrow> stage_audit list" where
  "list_stage_audit d = sort_key sa_seq
     (List.map_filter (\<lambda>(n, f). if is_json_file n then (case f of Readable doc \<Rightarrow> Some (stage_audit_from_dict doc) | Unreadable \<Rightarrow> None) else None)
        (sort_key fst (sd_audit d)))"

section \<open>What the approval queue guarantees\<close>

text \<open>
  The audit directory holds every decision, in order and without a gap, and the memory store is
  called for approved proposals only.
\<close>

subsection \<open>Numbered file names\<close>

lemma digits_value_pad: "digits_value (pad_nat w n) = n"
proof -
  have "foldl (\<lambda>v c. 10 * v + (of_char c - 48)) 0 (replicate k CHR ''0'') = (0::nat)" for k
    by (induction k) simp_all
  then show ?thesis using digits_value_nat_digits [of n] by (simp add: pad_nat_def digits_value_def)
qed

lemma stage_audit_file_seq:
  assumes "stage_audit_file (int m) i = stage_audit_file (int n) j"
  shows "m = n"
proof -
  have "takeWhile (\<lambda>c. c \<noteq> CHR ''-'') (pad_nat 6 k @ ''-'' @ r) = pad_nat 6 k" for k r
    using nat_digits_no_dash [of k] by (subst takeWhile_append2) (auto simp: pad_nat_def)
  with assms have "pad_nat 6 m = pad_nat 6 n" unfolding stage_audit_file_def by (metis nat_int)
  then show ?thesis by (metis digits_value_pad)
qed

lemma stage_audit_file_json: "is_json_file (stage_audit_file q i)"
proof -
  have "pad_nat 6 (nat q) \<noteq> []" using length_nat_digits_pos [of "nat q"] by (auto simp: pad_nat_def)
  then show ?thesis by (auto simp: is_json_file_def stage_audit_file_def ends_with_def starts_with_iff)
qed

subsection \<open>The audit directory\<close>

lemma audit_round_trip [simp]: "stage_audit_from_dict (stage_audit_to_dict a) = a"
  by (cases "sa_decision a") (simp_all add: stage_audit_from_dict_def stage_audit_to_dict_def get_or_def)

lemma proposal_round_trip [simp]: "proposal_from_dict (proposal_to_dict p) = Some p"
  by (simp add: proposal_from_dict_def proposal_to_dict_def get_or_def)

definition audit_entry :: "stage_audit \<Rightarrow> string \<times> audit_doc stage_file" where
  "audit_entry a = (stage_audit_file (sa_seq a) (sa_proposal a), Readable (stage_audit_to_dict a))"

text \<open>The directory holds these records and nothing else, in the order they were written.\<close>

definition audited :: "stage_audit list \<Rightarrow> stage_dirs \<Rightarrow> bool" where
  "audited as d \<longleftrightarrow> sd_audit d = map audit_entry as \<and> map sa_seq as = map int [0..<length as]"

lemma audited_next: "audited as d \<Longrightarrow> next_audit_seq d = int (length as)"
proof -
  assume a: "audited as d"
  have "filter (\<lambda>(n, _). is_json_file n) (map audit_entry as) = map audit_entry as"
    by (intro filter_True) (auto simp: audit_entry_def stage_audit_file_json)
  with a show ?thesis by (simp add: audited_def next_audit_seq_def)
qed

lemma sa_seq_nth: "map sa_seq as = map int [0..<length as] \<Longrightarrow> k < length as \<Longrightarrow> sa_seq (as ! k) = int k"
  by (metis (no_types, lifting) add_0 length_map nth_map nth_upt diff_zero length_upt)

lemma audited_save:
  assumes "audited as d" "sa_seq a = int (length as)"
  shows "audited (as @ [a]) (save_stage_audit a d)"
proof -
  have "fst (audit_entry a) \<notin> fst ` set (map audit_entry as)"
  proof
    assume "fst (audit_entry a) \<in> fst ` set (map audit_entry as)"
    then obtain k where k: "k < length as" "fst (audit_entry a) = fst (audit_entry (as ! k))"
      by (auto simp: in_set_conv_nth)
    from assms(1) k(1) have "sa_seq (as ! k) = int k" by (simp add: audited_def sa_seq_nth)
    with k assms(2) have "length as = k" by (auto simp: audit_entry_def dest: stage_audit_file_seq)
    with k(1) show False by simp
  qed
  moreover have fresh: "AList.update k v d = d @ [(k, v)]" if "k \<notin> fst ` set d" for k :: string and v :: "audit_doc stage_file" and d
    using that by (induction d) auto
  ultimately have "AList.update (fst (audit_entry a)) v (map audit_entry as) = map audit_entry as @ [(fst (audit_entry a), v)]" for v
    by blast
  with assms show ?thesis by (simp add: audited_def save_stage_audit_def audit_entry_def)
qed

lemma mset_map_filter: "mset xs = mset ys \<Longrightarrow> mset (List.map_filter f xs) = mset (List.map_filter f ys)"
  by (simp add: List.map_filter_def)

lemma audited_list:
  assumes "audited as d"
  shows "list_stage_audit d = as"
proof -
  let ?f = "\<lambda>(n, f). if is_json_file n then (case f of Readable doc \<Rightarrow> Some (stage_audit_from_dict doc) | Unreadable \<Rightarrow> None) else None"
  have "List.map_filter ?f (map audit_entry as) = as"
    by (induction as) (simp_all add: List.map_filter_simps audit_entry_def stage_audit_file_json)
  then have "mset (List.map_filter ?f (sort_key fst (sd_audit d))) = mset as"
    using assms mset_map_filter [of "sort_key fst (sd_audit d)" "sd_audit d" ?f] by (simp add: audited_def)
  moreover from assms have seqs: "map sa_seq as = map int [0..<length as]" by (simp add: audited_def)
  moreover have "inj_on sa_seq (set as)"
  proof -
    have "distinct (map sa_seq as)" by (simp add: seqs distinct_map)
    then show ?thesis by (simp add: distinct_map)
  qed
  moreover have "sorted (map sa_seq as)" unfolding seqs by (simp add: sorted_map sorted_wrt_upt sorted_wrt_mono_rel [OF _ sorted_wrt_upt])
  ultimately show ?thesis unfolding list_stage_audit_def
    by (intro sort_key_inj_key_eq) (auto dest: mset_eq_setD)
qed

subsection \<open>Sessions\<close>

datatype stage_op = Propose string string string string string | Approve_Proposal string | Reject_Proposal string string

text \<open>The decisions an operation makes: one or none.\<close>

fun stage_run :: "proposal_hash \<Rightarrow> 'w memory_store \<Rightarrow> stage_op \<Rightarrow> stage_dirs \<times> 'w \<Rightarrow> (stage_dirs \<times> 'w) \<times> stage_audit list" where
  "stage_run hash store (Propose k t s r at_time) (d, w) = ((fst (stage_proposal hash k t s r at_time d), w), [])"
| "stage_run hash store (Approve_Proposal i) (d, w) =
     (case approve_proposal store i (d, w) of (x, Inl e) \<Rightarrow> (x, []) | (x, Inr a) \<Rightarrow> (x, [a]))"
| "stage_run hash store (Reject_Proposal i r) (d, w) =
     (case reject_proposal i r d of (d', Inl e) \<Rightarrow> ((d', w), []) | (d', Inr a) \<Rightarrow> ((d', w), [a]))"

fun stage_session :: "proposal_hash \<Rightarrow> 'w memory_store \<Rightarrow> stage_op list \<Rightarrow> stage_dirs \<times> 'w \<Rightarrow> (stage_dirs \<times> 'w) \<times> stage_audit list" where
  "stage_session hash store [] x = (x, [])"
| "stage_session hash store (p # ps) x =
     (case stage_run hash store p x of (x1, as) \<Rightarrow> (case stage_session hash store ps x1 of (x2, bs) \<Rightarrow> (x2, as @ bs)))"

text \<open>The store that also notes each memory it takes: what it was called with and the id it gave.\<close>

record stored_memory =
  sm_kind :: string
  sm_title :: string
  sm_summary :: string
  sm_source :: string
  sm_id :: string

definition noting :: "'w memory_store \<Rightarrow> ('w \<times> stored_memory list) memory_store" where
  "noting store k t s r = (\<lambda>(w, l). case store k t s r w of
     (w', Inl e) \<Rightarrow> ((w', l), Inl e)
   | (w', Inr m) \<Rightarrow> ((w', l @ [\<lparr>sm_kind = k, sm_title = t, sm_summary = s, sm_source = r, sm_id = m\<rparr>]), Inr m))"

definition approvals :: "stage_audit list \<Rightarrow> (string \<times> string) list" where
  "approvals as = map (\<lambda>a. (''memstage:'' @ sa_proposal a, sa_memory a)) (filter (\<lambda>a. sa_decision a = Stage_Approved) as)"

lemma audit_decision_result:
  assumes "audited as d" "audit_decision i dec r m d = (d', a)"
  shows "audited (as @ [a]) d'" "sa_decision a = dec" "sa_proposal a = i" "sa_memory a = m"
proof -
  have "audited as (remove_proposal i d)" using assms(1) by (simp add: audited_def remove_proposal_def)
  with assms audited_next [OF this] show "audited (as @ [a]) d'"
    by (auto simp: audit_decision_def Let_def intro!: audited_save)
qed (use assms(2) in \<open>auto simp: audit_decision_def Let_def\<close>)

lemma stage_run_audited:
  assumes "stage_run hash (noting store) x (d, (w, l)) = ((d', (w', l')), bs)" "audited as d"
  shows "audited (as @ bs) d'
    \<and> map (\<lambda>m. (sm_source m, sm_id m)) l' = map (\<lambda>m. (sm_source m, sm_id m)) l @ approvals bs"
proof (cases x)
  case (Propose k t s r at_time)
  with assms have "sd_audit d' = sd_audit d" "bs = []" "l' = l"
    by (auto simp: stage_proposal_def save_proposal_def Let_def)
  with assms(2) show ?thesis by (simp add: audited_def approvals_def)
next
  case (Approve_Proposal i)
  show ?thesis
  proof (cases "bs = []")
    case True
    with assms Approve_Proposal show ?thesis
      by (auto simp: approve_proposal_def noting_def approvals_def split: option.splits if_splits prod.splits sum.splits)
  next
    case False
    with assms(1) Approve_Proposal obtain k t s m a where
      "audit_decision i Stage_Approved [] m d = (d', a)" "bs = [a]"
      "l' = l @ [\<lparr>sm_kind = k, sm_title = t, sm_summary = s, sm_source = ''memstage:'' @ i, sm_id = m\<rparr>]"
      by (auto simp: approve_proposal_def noting_def split: option.splits if_splits prod.splits sum.splits)
    with audit_decision_result [OF assms(2) this(1)] show ?thesis by (simp add: approvals_def)
  qed
next
  case (Reject_Proposal i r)
  show ?thesis
  proof (cases "bs = []")
    case True
    with assms Reject_Proposal show ?thesis
      by (auto simp: reject_proposal_def approvals_def split: option.splits prod.splits sum.splits)
  next
    case False
    with assms(1) Reject_Proposal obtain a where
      "audit_decision i Stage_Rejected (strip r) [] d = (d', a)" "bs = [a]" "l' = l"
      by (auto simp: reject_proposal_def split: option.splits prod.splits sum.splits)
    with audit_decision_result [OF assms(2) this(1)] show ?thesis by (simp add: approvals_def)
  qed
qed

lemma approvals_append: "approvals (as @ bs) = approvals as @ approvals bs"
  by (simp add: approvals_def)

lemma stage_session_audited:
  assumes "stage_session hash (noting store) xs (d, (w, l)) = ((d', (w', l')), bs)" "audited as d"
  shows "audited (as @ bs) d'
    \<and> map (\<lambda>m. (sm_source m, sm_id m)) l' = map (\<lambda>m. (sm_source m, sm_id m)) l @ approvals bs"
  using assms
proof (induction xs arbitrary: d w l as bs)
  case (Cons x xs)
  obtain d1 w1 l1 as1 where run: "stage_run hash (noting store) x (d, (w, l)) = ((d1, (w1, l1)), as1)"
    by (metis prod.exhaust)
  obtain bs1 where rest: "stage_session hash (noting store) xs (d1, (w1, l1)) = ((d', (w', l')), bs1)" "bs = as1 @ bs1"
    using Cons.prems(1) run by (auto split: prod.splits)
  from stage_run_audited [OF run Cons.prems(2)] have one: "audited (as @ as1) d1"
    "map (\<lambda>m. (sm_source m, sm_id m)) l1 = map (\<lambda>m. (sm_source m, sm_id m)) l @ approvals as1" by auto
  from Cons.IH [OF rest(1) one(1)] one(2) rest(2) show ?case by (simp add: approvals_append)
qed (auto simp: approvals_def)

text \<open>
  From empty directories, whatever is proposed, approved and rejected: the audit trail read back
  is exactly the decisions made, in the order they were made, numbered without a gap; and the memory
  store took one memory for each approval and nothing else, in that order, under the ids audited.
\<close>

theorem audit_trail_is_complete:
  assumes "stage_session hash (noting store) ops (\<lparr>sd_pending = [], sd_audit = []\<rparr>, (w, [])) = ((d, (w', stored)), decisions)"
  shows "list_stage_audit d = decisions \<and> map sa_seq decisions = map int [0..<length decisions]
    \<and> map (\<lambda>m. (sm_source m, sm_id m)) stored = approvals decisions"
proof -
  have "audited [] \<lparr>sd_pending = [], sd_audit = []\<rparr>" by (simp add: audited_def)
  from stage_session_audited [OF assms this] show ?thesis
    using audited_list by (auto simp: audited_def)
qed

text \<open>
  The pending number counts the files left, so a removal makes it repeat: the same proposal staged
  once more after a rejection gets the id of the one still waiting and overwrites it, with its reason.
\<close>

lemma staging_reuses_an_id:
  "map (\<lambda>p. (sp_title p, sp_reason p)) (list_pending (fst (fst (stage_session (\<lambda>k t s. ''h'' @ t) (\<lambda>k t s r w. (w, Inr []))
     [Propose ''decision'' ''a'' ''x'' [] [], Propose ''decision'' ''b'' ''x'' ''first'' [],
      Reject_Proposal ''ms-ha-0000'' [], Propose ''decision'' ''b'' ''x'' ''second'' []]
     (\<lparr>sd_pending = [], sd_audit = []\<rparr>, ())))))
   = [(''b'', ''second'')]"
  by code_simp

end
