(* ===== verification/Delivery_Witnesses.thy ===== *)
theory Delivery_Witnesses
  imports Refinery_Props Land_Props Claim_Props Claim_Lock Memstage
begin

section \<open>The properties of merging, claims and staging at concrete inputs\<close>

text \<open>
  A queue of a green and a red pull request, a pull request that is ready to land, a ledger with one claim,
  a lock that one process holds, and a session of the staging area.
\<close>

subsection \<open>Merge queue\<close>

text \<open>PR 7 is green, every other one red.\<close>

definition sample_gh :: "unit gh_adapter" where
  "sample_gh = \<lparr>gh_pr_state = (\<lambda>p w. (w, if p = 7 then CI_Green else CI_Red)), gh_update_branch = (\<lambda>p w. (w, True)), gh_merge = (\<lambda>p w. (w, True))\<rparr>"

definition sample_queue :: queue_file where
  "sample_queue = save_queue (enqueue 0 8 0 (enqueue 0 7 1 empty_queue))"

definition sample_process :: "merge_queue \<times> queue_file \<times> (unit \<times> gh_call list) \<times> process_result list" where
  "sample_process = process (gh_logged sample_gh) 5 (load_queue sample_queue) sample_queue ((), [])"

lemma sample_queue_ok: "queue_ok (load_queue sample_queue)"
proof -
  have "queue_ok empty_queue" by (simp add: queue_ok_def empty_queue_def)
  then show ?thesis by (simp add: sample_queue_def enqueue_ok)
qed

lemma sample_calls: "snd (fst (snd (snd sample_process))) = [Look 7 CI_Green, Merge_PR 7 True, Look 8 CI_Red]"
  by code_simp

theorem driver_follows_gate_witness:
  "\<exists>turns. [Look 7 CI_Green, Merge_PR 7 True, Look 8 CI_Red] = concat turns \<and> length (snd (snd (snd sample_process))) = length turns"
proof -
  have "process (gh_logged sample_gh) 5 (load_queue sample_queue) sample_queue ((), []) =
      (fst sample_process, fst (snd sample_process), (fst (fst (snd (snd sample_process))), snd (fst (snd (snd sample_process)))),
       snd (snd (snd sample_process)))"
    by (simp add: sample_process_def prod_eq_iff)
  from driver_follows_gate [OF sample_queue_ok this] show ?thesis
    by (auto simp: sample_calls dest: list_all2_lengthD)
qed

subsection \<open>Landing\<close>

text \<open>A world that is the time; the pull request is ready at once.\<close>

definition ready_state :: land_state where
  "ready_state = \<lparr>ld_merged = False, ld_merge_state = ''CLEAN'', ld_checks = [], ld_unresolved = 0, ld_thread_ids = [], ld_contention = None\<rparr>"

definition sample_client :: "rat land_client" where
  "sample_client = \<lparr>lcl_pr_state = (\<lambda>p. areturn ready_state), lcl_update_branch = (\<lambda>p. areturn ()),
     lcl_resolve_thread = (\<lambda>t. areturn ()), lcl_merge = (\<lambda>p. areturn ())\<rparr>"

definition sample_timer :: "rat land_timer" where
  "sample_timer = \<lparr>tm_clock = (\<lambda>t. (t, t)), tm_sleep = (\<lambda>d t. t + d)\<rparr>"

lemma sample_land: "land (noted sample_client) (beside sample_timer) 1 30 1800 None (0, []) =
   Some ((0, [Polled ready_state, Merge_Asked True]), Inr merged_result)"
  by (simp add: land_def beside_def sample_timer_def land_loop.simps land_turn_def abind_def noted_def note_call_def
      sample_client_def next_step_def ready_state_def merged_result_def get_or_def)

theorem land_merges_only_landable_witness:
  "\<exists>s. landable s \<and> [Polled ready_state, Merge_Asked True] = [Polled s, Merge_Asked True]"
proof -
  from land_merges_only_landable [OF sample_land] obtain ts t where
    "[Polled ready_state, Merge_Asked True] = concat ts @ t"
    and merges: "\<forall>i b. i < length [Polled ready_state, Merge_Asked True] \<longrightarrow> [Polled ready_state, Merge_Asked True] ! i = Merge_Asked b
       \<longrightarrow> i = Suc (length (concat ts)) \<and> (\<exists>s. t = [Polled s, Merge_Asked b] \<and> landable s)" by blast
  from spec [OF spec [OF merges, of 1], of True] obtain s where "concat ts = []" "t = [Polled s, Merge_Asked True]" "landable s"
    by auto
  with \<open>_ = concat ts @ t\<close> show ?thesis by auto
qed

lemma sample_steady: "steady (\<lambda>t. t) sample_client sample_timer"
  by (simp add: steady_def runs_forward_def sample_client_def sample_timer_def)

theorem land_always_returns_witness: "\<exists>y. land sample_client sample_timer 1 30 1800 None 0 = Some y"
  by (rule land_always_returns [OF sample_steady]) simp

subsection \<open>Claims\<close>

definition amy_claim :: claim where
  "amy_claim = \<lparr>cl_owner = ''amy'', cl_path = ''src/a'', cl_acquired = 0, cl_expires = 60\<rparr>"

theorem live_claim_is_exclusive_witness:
  "\<exists>cs. read_ledger (fold claim_run ([Acquire ''amy'' [''src//a''] 60 0] @ [Acquire ''bob'' [''src/a''] 60 1, Status 2]) No_Ledger) = Inr cs
     \<and> amy_claim \<in> set cs \<and> distinct (map cl_path cs)"
  by (rule live_claim_is_exclusive; code_simp)

definition held :: "nat lock_state" where
  "held = (goto 2 Opened (goto 2 Trying (lock_start 0)))\<lparr>lk_file := Some (2, 0)\<rparr>"

theorem lock_is_exclusive_witness: "2 \<in> critical held \<and> (2::nat) = 2"
proof -
  have one: "lock_step (lock_start 0) (goto 2 Trying (lock_start 0) :: nat lock_state)"
    by (rule lock_step.arrive) (simp add: lock_start_def)
  have two: "lock_step (goto 2 Trying (lock_start 0)) held"
    using lock_step.create [of "goto 2 Trying (lock_start 0) :: nat lock_state" 2] by (simp add: held_def lock_start_def)
  have "\<not> is_stale_lock (goto 2 Trying (lock_start 0) :: nat lock_state)" "\<not> is_stale_lock held"
    by (simp_all add: held_def is_stale_lock_def lock_start_def lock_stale_seconds_def)
  with one two have run: "lock_run (\<lambda>s. \<not> is_stale_lock s) (lock_start 0) held"
    by (blast intro: lock_run.intros)
  have "2 \<in> critical held" by (simp add: critical_def held_def)
  from lock_is_exclusive [OF run this this] this show ?thesis by simp
qed

subsection \<open>Staging\<close>

definition sample_session :: "(stage_dirs \<times> (unit \<times> stored_memory list)) \<times> stage_audit list" where
  "sample_session = stage_session (\<lambda>k t s. t) (noting (\<lambda>k t s r w. (w, Inr ''m1'')))
     [Propose ''decision'' ''t'' ''x'' [] [], Approve_Proposal ''ms-t-0000''] (\<lparr>sd_pending = [], sd_audit = []\<rparr>, ((), []))"

lemma sample_decides: "length (snd sample_session) = 1"
  by code_simp

theorem audit_trail_is_complete_witness:
  "list_stage_audit (fst (fst sample_session)) = snd sample_session \<and> length (snd sample_session) = 1"
proof -
  have "stage_session (\<lambda>k t s. t) (noting (\<lambda>k t s r w. (w, Inr ''m1'')))
     [Propose ''decision'' ''t'' ''x'' [] [], Approve_Proposal ''ms-t-0000''] (\<lparr>sd_pending = [], sd_audit = []\<rparr>, ((), []))
    = ((fst (fst sample_session), (fst (snd (fst sample_session)), snd (snd (fst sample_session)))), snd sample_session)"
    by (simp add: sample_session_def prod_eq_iff)
  from audit_trail_is_complete [OF this] sample_decides show ?thesis by blast
qed

end
