(* ===== verification/Run_Graph.thy ===== *)
theory Run_Graph
  imports Json_Canonical Py_Glob
begin

section \<open>Run graphs: contracts, topological order and layers\<close>

text \<open>
  \<open>runtime/contracts.py\<close> and \<open>runtime/fanout.py\<close>: the nodes, results and specifications of a run with
  the checks of their constructors, Kahn's algorithm and the grouping into layers.  A
  \<open>RuntimeContractError\<close> is \<open>Inl\<close> of its message; arguments of constructors have their annotated types.
  Metadata and output are JSON objects; numbers are finite.
\<close>

subsection \<open>Checks\<close>

fun check_all :: "('e, unit) result list \<Rightarrow> ('e, unit) result" where
  "check_all [] = Inr ()"
| "check_all (r # rs) = rbind r (\<lambda>_. check_all rs)"

lemma check_all_Inr [result_simps]: "check_all rs = Inr u \<longleftrightarrow> (\<forall>r\<in>set rs. r = Inr ())"
  by (induction rs) (auto simp: result_simps)

definition not_blank :: "string \<Rightarrow> string \<Rightarrow> (string, unit) result" where
  "not_blank v path = require (strip v \<noteq> []) (path @ '' must not be empty'')"

definition not_blank_opt :: "string option \<Rightarrow> string \<Rightarrow> (string, unit) result" where
  "not_blank_opt v path = (case v of None \<Rightarrow> Inr () | Some x \<Rightarrow> not_blank x path)"

definition indexed :: "string \<Rightarrow> nat \<Rightarrow> string" where
  "indexed path i = path @ ''['' @ show_nat i @ '']''"

definition string_tuple :: "bool \<Rightarrow> string list \<Rightarrow> string \<Rightarrow> (string, unit) result" where
  "string_tuple allow_empty xs path = check_all
     (map (\<lambda>(i, x). not_blank x (indexed path i)) (enumerate 0 xs) @
      [require (allow_empty \<or> xs \<noteq> []) (path @ '' must not be empty''),
       require (distinct xs) (path @ '' must contain unique values'')])"

definition positive_number :: "rat \<Rightarrow> string \<Rightarrow> (string, unit) result" where
  "positive_number x path = require (0 < x) (path @ '' must be positive'')"

definition nonnegative_number :: "rat \<Rightarrow> string \<Rightarrow> (string, unit) result" where
  "nonnegative_number x path = require (0 \<le> x) (path @ '' must be non-negative'')"

text \<open>\<open>f"{[...]}"\<close> of a list of strings.\<close>

definition list_repr :: "string list \<Rightarrow> string" where
  "list_repr xs = ''['' @ join '', '' (map py_repr xs) @ '']''"

subsection \<open>Values\<close>

text \<open>
  A number field keeps the type it was given, as its text in a document shows it: \<open>30\<close> or \<open>30.0\<close>.
  Fields that every writer converts with \<open>float\<close> are kept by their value.
\<close>

datatype py_number = Int_Number int | Float_Number rat

fun number_value :: "py_number \<Rightarrow> rat" where
  "number_value (Int_Number i) = of_int i"
| "number_value (Float_Number x) = x"

datatype node_status = Node_OK | Node_Failed | Node_Skipped

datatype run_status = Run_OK | Run_Failed | Run_Cancelled | Run_Interrupted

record retry_policy =
  rp_max_attempts :: int
  rp_backoff :: rat

record node_budget =
  nb_timeout :: rat
  nb_max_cost :: "py_number option"
  nb_max_tokens :: "int option"

record capability_set =
  cs_tools :: "string list"
  cs_commands :: "string list list"
  cs_writes :: bool
  cs_network :: bool
  cs_secrets :: "string list"

record evidence_ref =
  er_id :: string
  er_kind :: string
  er_uri :: string
  er_digest :: "string option"

record node_spec =
  ns_id :: string
  ns_kind :: string
  ns_objective :: string
  ns_completion :: "string option"
  ns_dependencies :: "string list"
  ns_side_effecting :: bool
  ns_approval :: bool
  ns_key :: "string option"
  ns_timeout :: "py_number option"
  ns_budget :: "node_budget option"
  ns_retry :: "retry_policy option"
  ns_capabilities :: capability_set
  ns_metadata :: "(string \<times> json) list"

record node_result =
  nr_node :: string
  nr_status :: node_status
  nr_key :: string
  nr_output :: "(string \<times> json) list"
  nr_evidence :: "evidence_ref list"
  nr_error :: "string option"

record run_spec =
  sp_run_id :: string
  sp_task :: string
  sp_nodes :: "node_spec list"
  sp_evidence :: "evidence_ref list"
  sp_metadata :: "(string \<times> json) list"
  sp_schema :: string

record run_result =
  rr_run_id :: string
  rr_status :: run_status
  rr_results :: "node_result list"
  rr_backend :: string
  rr_digest :: string
  rr_error :: "string option"

subsection \<open>Constructors\<close>

definition make_retry_policy :: "retry_policy \<Rightarrow> (string, retry_policy) result" where
  "make_retry_policy p = rbind (check_all
     [require (1 \<le> rp_max_attempts p) ''max_attempts must be a positive integer'',
      nonnegative_number (rp_backoff p) ''backoff_seconds'']) (\<lambda>_. Inr p)"

definition make_budget :: "node_budget \<Rightarrow> (string, node_budget) result" where
  "make_budget b = rbind (check_all
     [positive_number (nb_timeout b) ''timeout_seconds'',
      (case nb_max_cost b of None \<Rightarrow> Inr () | Some x \<Rightarrow> nonnegative_number (number_value x) ''max_cost_usd''),
      (case nb_max_tokens b of None \<Rightarrow> Inr ()
       | Some n \<Rightarrow> require (1 \<le> n) ''max_tokens must be a positive integer'')]) (\<lambda>_. Inr b)"

definition make_capabilities :: "capability_set \<Rightarrow> (string, capability_set) result" where
  "make_capabilities c = rbind (check_all
     ([string_tuple True (cs_tools c) ''tools'', string_tuple True (cs_secrets c) ''secrets''] @
      map (\<lambda>(i, x). string_tuple False x (indexed ''commands'' i)) (enumerate 0 (cs_commands c))))
     (\<lambda>_. Inr c)"

definition no_capabilities :: "capability_set \<Rightarrow> bool" where
  "no_capabilities c \<longleftrightarrow> cs_tools c = [] \<and> cs_commands c = [] \<and> \<not> cs_writes c \<and> \<not> cs_network c \<and> cs_secrets c = []"

definition make_evidence :: "evidence_ref \<Rightarrow> (string, evidence_ref) result" where
  "make_evidence e = rbind (check_all
     [not_blank (er_id e) ''id'', not_blank (er_kind e) ''kind'', not_blank (er_uri e) ''uri'',
      not_blank_opt (er_digest e) ''digest'']) (\<lambda>_. Inr e)"

definition side_effecting_node :: "node_spec \<Rightarrow> string \<Rightarrow> string" where
  "side_effecting_node n what = ''side-effecting node '' @ py_repr (ns_id n) @ '' requires '' @ what"

definition make_node :: "node_spec \<Rightarrow> (string, node_spec) result" where
  "make_node n = rbind (check_all
     ([not_blank (ns_id n) ''id'', not_blank (ns_kind n) ''kind'', not_blank (ns_objective n) ''objective'',
       not_blank_opt (ns_completion n) ''completion_condition'',
       string_tuple True (ns_dependencies n) ''dependencies'',
       require (distinct (ns_dependencies n))
         (''node '' @ py_repr (ns_id n) @ '' dependencies must be unique''),
       require (\<not> (ns_approval n \<and> \<not> ns_side_effecting n))
         (''approval-required node '' @ py_repr (ns_id n) @ '' must be side-effecting''),
       not_blank_opt (ns_key n) ''idempotency_key'',
       (case ns_timeout n of None \<Rightarrow> Inr () | Some x \<Rightarrow> positive_number (number_value x) ''timeout_seconds'')] @
      (if ns_side_effecting n
       then [require (ns_key n \<noteq> None) (side_effecting_node n ''idempotency_key''),
             require (ns_timeout n \<noteq> None) (side_effecting_node n ''timeout_seconds''),
             require (ns_budget n \<noteq> None) (side_effecting_node n ''budget''),
             require (ns_retry n \<noteq> None) (side_effecting_node n ''retry_policy''),
             require (\<not> no_capabilities (ns_capabilities n)) (side_effecting_node n ''declared capabilities''),
             require (ns_completion n \<noteq> None) (side_effecting_node n ''completion_condition'')]
       else []))) (\<lambda>_. Inr n)"

definition make_node_result :: "node_result \<Rightarrow> (string, node_result) result" where
  "make_node_result r = rbind (check_all
     [not_blank (nr_node r) ''node_id'', not_blank (nr_key r) ''idempotency_key'',
      not_blank_opt (nr_error r) ''error'']) (\<lambda>_. Inr r)"

definition make_run_result :: "run_result \<Rightarrow> (string, run_result) result" where
  "make_run_result r = rbind (check_all
     [not_blank (rr_run_id r) ''run_id'', not_blank (rr_backend r) ''backend'',
      not_blank (rr_digest r) ''spec_digest'', not_blank_opt (rr_error r) ''error'']) (\<lambda>_. Inr r)"

subsection \<open>Kahn's algorithm\<close>

text \<open>\<open>dependents[d]\<close>: the nodes that name \<open>d\<close> among their dependencies, once for each time.\<close>

definition dependents_of :: "node_spec list \<Rightarrow> string \<Rightarrow> string list" where
  "dependents_of ns d = concat (map (\<lambda>n. map (\<lambda>_. ns_id n) (filter ((=) d) (ns_dependencies n))) ns)"

text \<open>The inner loop: count a dependency of each dependent as met, and queue those with none left.\<close>

fun relax :: "string list \<Rightarrow> (string \<times> int) list \<times> string list \<Rightarrow> (string \<times> int) list \<times> string list" where
  "relax [] s = s"
| "relax (d # ds) (remaining, ready) =
     (let k = get_or 0 (map_of remaining d) - 1
      in relax ds (AList.update d k remaining, if k = 0 then ready @ [d] else ready))"

definition open_nodes :: "(string \<times> int) list \<Rightarrow> nat" where
  "open_nodes remaining = length (filter (\<lambda>(_, k). 0 < k) remaining)"

lemma open_nodes_update:
  assumes "get_or 0 (map_of remaining d) = k + 1"
  shows "open_nodes (AList.update d k remaining) + (if k = 0 then 1 else 0) \<le> open_nodes remaining"
  using assms
proof (induction remaining)
  case (Cons p ps)
  then show ?case by (cases p) (auto simp: open_nodes_def get_or_def split: if_splits)
qed (auto simp: open_nodes_def get_or_def)

lemma relax_measure:
  "open_nodes (fst (relax ds s)) + length (snd (relax ds s)) \<le> open_nodes (fst s) + length (snd s)"
proof (induction ds s rule: relax.induct)
  case (2 d ds remaining ready)
  show ?case
    using "2.IH" [OF refl] open_nodes_update [of remaining d "get_or 0 (map_of remaining d) - 1"]
    by (auto simp: Let_def split: if_splits)
qed simp

function kahn :: "node_spec list \<Rightarrow> (string \<times> int) list \<times> string list \<Rightarrow> string list" where
  "kahn ns (remaining, []) = []"
| "kahn ns (remaining, c # ready) = c # kahn ns (relax (dependents_of ns c) (remaining, ready))"
  by pat_completeness auto
termination
proof (relation "measure (\<lambda>(ns, remaining, ready). open_nodes remaining + length ready)")
  fix ns remaining and c :: string and ready
  show "((ns, relax (dependents_of ns c) (remaining, ready)), ns, remaining, c # ready)
      \<in> measure (\<lambda>(ns, remaining, ready). open_nodes remaining + length ready)"
    using relax_measure [of "dependents_of ns c" "(remaining, ready)"]
    by (auto split: prod.splits)
qed simp

definition in_degrees :: "node_spec list \<Rightarrow> (string \<times> int) list" where
  "in_degrees ns = fold (\<lambda>n. AList.update (ns_id n) (int (length (ns_dependencies n)))) ns []"

definition start_ids :: "node_spec list \<Rightarrow> string list" where
  "start_ids ns = filter (\<lambda>i. map_of (in_degrees ns) i = Some 0) (map ns_id ns)"

text \<open>\<open>by_id\<close>: of nodes with the same id the last one.\<close>

definition by_id :: "node_spec list \<Rightarrow> string \<Rightarrow> node_spec option" where
  "by_id ns i = find (\<lambda>n. ns_id n = i) (rev ns)"

definition topological :: "node_spec list \<Rightarrow> node_spec list" where
  "topological ns = List.map_filter (by_id ns) (kahn ns (in_degrees ns, start_ids ns))"

definition topological_order :: "run_spec \<Rightarrow> node_spec list" where
  "topological_order sp = topological (sp_nodes sp)"

definition graph_node_fault :: "string list \<Rightarrow> node_spec \<Rightarrow> (string, unit) result" where
  "graph_node_fault known n = check_all
     [require (filter (\<lambda>d. d \<notin> set known) (ns_dependencies n) = [])
        (''node '' @ py_repr (ns_id n) @ '' depends on missing nodes: '' @
         list_repr (filter (\<lambda>d. d \<notin> set known) (ns_dependencies n))),
      require (ns_id n \<notin> set (ns_dependencies n))
        (''node '' @ py_repr (ns_id n) @ '' depends on itself'')]"

definition validate_graph :: "node_spec list \<Rightarrow> (string, unit) result" where
  "validate_graph ns = rbind (require (distinct (map ns_id ns)) ''node ids must be unique'') (\<lambda>_.
     rbind (check_all (map (graph_node_fault (map ns_id ns)) ns)) (\<lambda>_.
       require (length (topological ns) = length ns) ''runtime graph must be acyclic''))"

definition make_run_spec :: "run_spec \<Rightarrow> (string, run_spec) result" where
  "make_run_spec sp = rbind (check_all
     [require (sp_schema sp = ''1'') (''unsupported runtime schema: '' @ sp_schema sp),
      not_blank (sp_run_id sp) ''run_id'', not_blank (sp_task sp) ''task'',
      require (sp_nodes sp \<noteq> []) ''run spec must contain at least one node'',
      validate_graph (sp_nodes sp)]) (\<lambda>_. Inr sp)"

subsection \<open>Layers\<close>

definition ready_in :: "string list \<Rightarrow> node_spec \<Rightarrow> bool" where
  "ready_in completed n \<longleftrightarrow> list_all (\<lambda>d. d \<in> set completed) (ns_dependencies n)"

text \<open>\<open>remaining\<close> is the list of the nodes left, in source order, and \<open>completed\<close> the ids of the others.\<close>

function layers_from :: "string list \<Rightarrow> node_spec list \<Rightarrow> (string, node_spec list list) result" where
  "layers_from completed remaining =
     (if remaining = [] then Inr []
      else let ready = filter (ready_in completed) remaining
           in if ready = [] then Inl ''runtime graph has no dependency-ready nodes''
              else rbind (layers_from (completed @ map ns_id ready)
                     (filter (\<lambda>n. \<not> ready_in completed n) remaining)) (\<lambda>ls. Inr (ready # ls)))"
  by pat_completeness auto
termination
proof (relation "measure (\<lambda>(completed, remaining). length remaining)")
  fix completed remaining ready
  assume "ready = filter (ready_in completed) remaining" "ready \<noteq> []"
  then show "((completed @ map ns_id ready, filter (\<lambda>n. \<not> ready_in completed n) remaining), completed, remaining)
      \<in> measure (\<lambda>(completed, remaining). length remaining)"
    by (auto simp: filter_empty_conv intro!: length_filter_less)
qed simp

declare layers_from.simps [simp del]

definition dependency_layers :: "run_spec \<Rightarrow> (string, node_spec list list) result" where
  "dependency_layers sp = layers_from [] (sp_nodes sp)"

end
