(* ===== verification/Run_Order.thy ===== *)
theory Run_Order
  imports Run_Graph
begin

section \<open>Run graphs: what the orders are\<close>

text \<open>
  Kahn's algorithm lists every node whose dependencies it can list before it, so a graph with known
  dependencies is accepted exactly when it has no cycle; the layers of an accepted graph are its nodes,
  once each, every node after its dependencies.
\<close>

definition depends :: "node_spec list \<Rightarrow> (string \<times> string) set" where
  "depends ns = {(d, ns_id n) | d n. n \<in> set ns \<and> d \<in> set (ns_dependencies n)}"

definition known_dependencies :: "node_spec list \<Rightarrow> bool" where
  "known_dependencies ns \<longleftrightarrow> (\<forall>n\<in>set ns. set (ns_dependencies n) \<subseteq> ns_id ` set ns)"

text \<open>Every node of the list comes after its dependencies.\<close>

definition ordered :: "node_spec list \<Rightarrow> string list \<Rightarrow> bool" where
  "ordered ns os \<longleftrightarrow> (\<forall>n xs ys. n \<in> set ns \<longrightarrow> os = xs @ ns_id n # ys \<longrightarrow> set (ns_dependencies n) \<subseteq> set xs)"

subsection \<open>The inner loop\<close>

definition unmet :: "string list \<Rightarrow> node_spec \<Rightarrow> int" where
  "unmet met n = int (length (filter (\<lambda>d. d \<notin> set met) (ns_dependencies n)))"

lemma relax_effect:
  assumes "\<forall>i\<in>set ds. \<exists>k. map_of rm i = Some k \<and> int (count_list ds i) \<le> k"
  shows "(\<forall>i. map_of (fst (relax ds (rm, rd))) i =
            (if i \<in> set ds then Some (the (map_of rm i) - int (count_list ds i)) else map_of rm i)) \<and>
         (\<exists>new. snd (relax ds (rm, rd)) = rd @ new \<and> distinct new \<and>
            set new = {i \<in> set ds. map_of rm i = Some (int (count_list ds i))})"
  using assms
proof (induction ds arbitrary: rm rd)
  case Nil
  then show ?case by simp
next
  case (Cons d ds)
  define k where "k = the (map_of rm d) - 1"
  from Cons.prems have d: "map_of rm d = Some (k + 1)" and pos: "int (count_list ds d) \<le> k"
    by (auto simp: k_def)
  let ?rm = "AList.update d k rm"
  let ?rd = "if k = 0 then rd @ [d] else rd"
  have step: "relax (d # ds) (rm, rd) = relax ds (?rm, ?rd)"
    by (simp add: Let_def get_or_def d)
  have pre: "\<forall>i\<in>set ds. \<exists>k. map_of ?rm i = Some k \<and> int (count_list ds i) \<le> k"
    using Cons.prems pos by (auto simp: dict_simps)
  note IH = Cons.IH [OF pre, of ?rd]
  have keys: "map_of (fst (relax (d # ds) (rm, rd))) i =
      (if i \<in> set (d # ds) then Some (the (map_of rm i) - int (count_list (d # ds) i)) else map_of rm i)" for i
  proof -
    have "map_of (fst (relax (d # ds) (rm, rd))) i =
        (if i \<in> set ds then Some (the (map_of ?rm i) - int (count_list ds i)) else map_of ?rm i)"
      unfolding step using IH by blast
    also have "\<dots> = (if i \<in> set (d # ds) then Some (the (map_of rm i) - int (count_list (d # ds) i)) else map_of rm i)"
      using d by (cases "i = d"; cases "i \<in> set ds") (simp_all add: dict_simps count_notin)
    finally show ?thesis .
  qed
  obtain new where new: "snd (relax ds (?rm, ?rd)) = ?rd @ new" "distinct new"
    "set new = {i \<in> set ds. map_of ?rm i = Some (int (count_list ds i))}"
    using IH by blast
  have "\<exists>new'. snd (relax (d # ds) (rm, rd)) = rd @ new' \<and> distinct new' \<and>
      set new' = {i \<in> set (d # ds). map_of rm i = Some (int (count_list (d # ds) i))}"
  proof (cases "k = 0")
    case True
    with pos have "d \<notin> set ds" by (simp add: count_list_0_iff)
    have "i \<in> set (d # new) \<longleftrightarrow> i \<in> set (d # ds) \<and> map_of rm i = Some (int (count_list (d # ds) i))" for i
    proof (cases "i = d")
      case True
      then show ?thesis using d \<open>k = 0\<close> \<open>d \<notin> set ds\<close> by (simp add: count_notin)
    next
      case False
      then show ?thesis by (simp add: new(3) dict_simps)
    qed
    then have "set (d # new) = {i \<in> set (d # ds). map_of rm i = Some (int (count_list (d # ds) i))}" by blast
    moreover have "d \<notin> set new" using \<open>d \<notin> set ds\<close> by (simp add: new(3))
    ultimately show ?thesis
      unfolding step using True new(1,2) by (intro exI [of _ "d # new"]) simp
  next
    case False
    have "i \<in> set new \<longleftrightarrow> i \<in> set (d # ds) \<and> map_of rm i = Some (int (count_list (d # ds) i))" for i
    proof (cases "i = d")
      case True
      have "k = int (count_list ds d) \<Longrightarrow> d \<in> set ds" using False by (metis count_notin of_nat_0)
      with True d show ?thesis by (auto simp: new(3) dict_simps)
    next
      case False
      then show ?thesis by (simp add: new(3) dict_simps)
    qed
    then have "set new = {i \<in> set (d # ds). map_of rm i = Some (int (count_list (d # ds) i))}" by blast
    with False new(1,2) show ?thesis unfolding step by auto
  qed
  with keys show ?case by blast
qed

lemma count_dependents:
  assumes "distinct (map ns_id ns)" and "n \<in> set ns"
  shows "count_list (dependents_of ns d) (ns_id n) = length (filter ((=) d) (ns_dependencies n))"
  using assms
proof (induction ns)
  case (Cons m ns)
  have same: "count_list (map (\<lambda>_. ns_id m) xs) (ns_id m) = length xs" for xs :: "string list"
    by (induction xs) auto
  have other: "i \<noteq> ns_id m \<Longrightarrow> count_list (map (\<lambda>_. ns_id m) xs) i = 0" for i and xs :: "string list"
    by (induction xs) auto
  have cons: "dependents_of (m # ns) d = map (\<lambda>_. ns_id m) (filter ((=) d) (ns_dependencies m)) @ dependents_of ns d"
    by (simp add: dependents_of_def)
  show ?case
  proof (cases "n = m")
    case True
    have "count_list (dependents_of ns d) (ns_id m) = 0"
      using Cons.prems(1) by (auto simp: dependents_of_def count_list_0_iff)
    with True show ?thesis by (simp add: cons same)
  next
    case False
    with Cons.prems have "n \<in> set ns" "ns_id n \<noteq> ns_id m" by (auto simp: image_iff)
    with Cons.IH Cons.prems(1) other show ?thesis by (simp add: cons)
  qed
qed simp

lemma dependents_ids: "set (dependents_of ns d) = {ns_id n | n. n \<in> set ns \<and> d \<in> set (ns_dependencies n)}"
  by (auto simp: dependents_of_def)

lemma filter_split_count:
  "c \<notin> set ms \<Longrightarrow> length (filter (\<lambda>d. d \<notin> set ms) xs) =
     length (filter ((=) c) xs) + length (filter (\<lambda>d. d \<notin> set (ms @ [c])) xs)"
  by (induction xs) auto

subsection \<open>The invariant of the queue\<close>

definition queue_inv :: "node_spec list \<Rightarrow> string list \<Rightarrow> (string \<times> int) list \<times> string list \<Rightarrow> bool" where
  "queue_inv ns met s \<longleftrightarrow> (case s of (rm, rd) \<Rightarrow>
     (\<forall>n\<in>set ns. map_of rm (ns_id n) = Some (unmet met n)) \<and>
     distinct (met @ rd) \<and> set (met @ rd) \<subseteq> ns_id ` set ns \<and> ordered ns met \<and>
     (\<forall>n\<in>set ns. ns_id n \<in> set (met @ rd) \<longleftrightarrow> set (ns_dependencies n) \<subseteq> set met))"

lemma ordered_snoc:
  assumes "ordered ns met" and "c \<notin> set met"
    and "\<And>n. n \<in> set ns \<Longrightarrow> ns_id n = c \<Longrightarrow> set (ns_dependencies n) \<subseteq> set met"
  shows "ordered ns (met @ [c])"
  unfolding ordered_def
proof (intro allI impI)
  fix n xs ys
  assume n: "n \<in> set ns" and eq: "met @ [c] = xs @ ns_id n # ys"
  show "set (ns_dependencies n) \<subseteq> set xs"
  proof (cases ys rule: rev_cases)
    case Nil
    with eq n assms(3) show ?thesis by simp
  next
    case (snoc zs z)
    with eq have "met = xs @ ns_id n # zs" by simp
    with assms(1) n show ?thesis unfolding ordered_def by blast
  qed
qed

lemma unmet_0: "unmet met n = 0 \<longleftrightarrow> set (ns_dependencies n) \<subseteq> set met"
  by (auto simp: unmet_def filter_empty_conv)

lemma queue_inv_step:
  assumes d: "distinct (map ns_id ns)" and inv: "queue_inv ns met (rm, c # rd)"
  shows "queue_inv ns (met @ [c]) (relax (dependents_of ns c) (rm, rd))"
proof -
  let ?ds = "dependents_of ns c"
  from inv have rm: "\<And>n. n \<in> set ns \<Longrightarrow> map_of rm (ns_id n) = Some (unmet met n)"
    and dis: "distinct (met @ c # rd)" and ids: "set (met @ c # rd) \<subseteq> ns_id ` set ns"
    and ord: "ordered ns met"
    and iff: "\<And>n. n \<in> set ns \<Longrightarrow> ns_id n \<in> set (met @ c # rd) \<longleftrightarrow> set (ns_dependencies n) \<subseteq> set met"
    by (auto simp: queue_inv_def)
  have c: "c \<notin> set met" using dis by simp
  have cnt: "unmet met n = int (count_list ?ds (ns_id n)) + unmet (met @ [c]) n" if "n \<in> set ns" for n
    using filter_split_count [OF c, of "ns_dependencies n"]
    by (simp add: unmet_def count_dependents [OF d that])
  have pre: "\<forall>i\<in>set ?ds. \<exists>k. map_of rm i = Some k \<and> int (count_list ?ds i) \<le> k"
    using rm cnt by (fastforce simp: dependents_ids unmet_def)
  obtain rm' rd' where s: "relax ?ds (rm, rd) = (rm', rd')" by force
  from relax_effect [OF pre, of rd] s obtain new where
    rm': "\<And>i. map_of rm' i = (if i \<in> set ?ds then Some (the (map_of rm i) - int (count_list ?ds i)) else map_of rm i)"
    and new: "rd' = rd @ new" "distinct new" "set new = {i \<in> set ?ds. map_of rm i = Some (int (count_list ?ds i))}"
    by auto
  have 1: "map_of rm' (ns_id n) = Some (unmet (met @ [c]) n)" if "n \<in> set ns" for n
    using rm [OF that] cnt [OF that] rm' by (simp add: count_notin)
  have newly: "ns_id n \<in> set new \<longleftrightarrow> ns_id n \<in> set ?ds \<and> unmet (met @ [c]) n = 0" if "n \<in> set ns" for n
    using rm [OF that] cnt [OF that] by (auto simp: new)
  have needs: "ns_id n \<in> set ?ds \<longleftrightarrow> c \<in> set (ns_dependencies n)" if "n \<in> set ns" for n
    using that d by (auto simp: dependents_ids dest: inj_onD [OF distinct_map [THEN iffD1, THEN conjunct2]])
  have old: "ns_id n \<notin> set new" if "n \<in> set ns" "ns_id n \<in> set (met @ c # rd)" for n
    using newly [OF that(1)] needs [OF that(1)] iff [OF that(1)] that(2) c by auto
  have "set new \<subseteq> ns_id ` set ns" by (auto simp: new dependents_ids)
  with old ids have "set new \<inter> set (met @ c # rd) = {}" by (auto simp: subset_iff image_iff)
  with dis new(1,2) have 2: "distinct ((met @ [c]) @ rd')" by auto
  have 3: "set ((met @ [c]) @ rd') \<subseteq> ns_id ` set ns"
    using ids \<open>set new \<subseteq> ns_id ` set ns\<close> by (auto simp: new(1))
  have 4: "ordered ns (met @ [c])"
    by (rule ordered_snoc [OF ord c]) (use iff in auto)
  have 5: "ns_id n \<in> set ((met @ [c]) @ rd') \<longleftrightarrow> set (ns_dependencies n) \<subseteq> set (met @ [c])"
    if n: "n \<in> set ns" for n
  proof -
    have "ns_id n \<in> set ((met @ [c]) @ rd') \<longleftrightarrow>
        set (ns_dependencies n) \<subseteq> set met \<or> c \<in> set (ns_dependencies n) \<and> unmet (met @ [c]) n = 0"
      using iff [OF n] newly [OF n] needs [OF n] by (auto simp: new(1))
    also have "\<dots> \<longleftrightarrow> set (ns_dependencies n) \<subseteq> set (met @ [c])" by (auto simp: unmet_0)
    finally show ?thesis .
  qed
  from 1 2 3 4 5 show ?thesis unfolding s queue_inv_def by blast
qed

lemma kahn_invariant:
  assumes "distinct (map ns_id ns)" and "queue_inv ns met s"
  shows "\<exists>rm. queue_inv ns (met @ kahn ns s) (rm, [])"
  using assms
proof (induction ns s arbitrary: met rule: kahn.induct)
  case (2 ns rm c rd)
  from "2.IH" [OF "2.prems"(1) queue_inv_step [OF "2.prems"]] show ?case by simp
qed auto

lemma in_degrees_get:
  assumes "distinct (map ns_id ns)" and "n \<in> set ns"
  shows "map_of (in_degrees ns) (ns_id n) = Some (int (length (ns_dependencies n)))"
proof -
  have "map_of (fold (\<lambda>n. AList.update (ns_id n) (int (length (ns_dependencies n)))) xs d) (ns_id n) =
      (if n \<in> set xs then Some (int (length (ns_dependencies n))) else map_of d (ns_id n))"
    if "set xs \<subseteq> set ns" for xs d
    using that
  proof (induction xs arbitrary: d)
    case (Cons x xs)
    have "ns_id x = ns_id n \<Longrightarrow> x = n"
      using assms Cons.prems by (auto simp: distinct_map dest: inj_onD)
    with Cons show ?case by (auto simp: dict_simps)
  qed simp
  from this [of ns "[]"] assms(2) show ?thesis by (simp add: in_degrees_def)
qed

lemma queue_inv_start:
  assumes "distinct (map ns_id ns)"
  shows "queue_inv ns [] (in_degrees ns, start_ids ns)"
  using assms by (auto simp: queue_inv_def in_degrees_get start_ids_def ordered_def unmet_def)

definition topological_ids :: "node_spec list \<Rightarrow> string list" where
  "topological_ids ns = kahn ns (in_degrees ns, start_ids ns)"

lemma topological_ids:
  assumes "distinct (map ns_id ns)"
  shows "distinct (topological_ids ns)" "set (topological_ids ns) \<subseteq> ns_id ` set ns"
    "ordered ns (topological_ids ns)"
    "\<And>n. n \<in> set ns \<Longrightarrow> set (ns_dependencies n) \<subseteq> set (topological_ids ns) \<Longrightarrow> ns_id n \<in> set (topological_ids ns)"
  using kahn_invariant [OF assms queue_inv_start [OF assms]]
  by (auto simp: queue_inv_def topological_ids_def)

lemma by_id_Some:
  assumes "distinct (map ns_id ns)" and "n \<in> set ns"
  shows "by_id ns (ns_id n) = Some n"
proof -
  have "find (\<lambda>m. ns_id m = ns_id n) xs = Some n" if "n \<in> set xs" "set xs \<subseteq> set ns" for xs
    using that
  proof (induction xs)
    case (Cons x xs)
    have "ns_id x = ns_id n \<Longrightarrow> x = n"
      using assms Cons.prems by (auto simp: distinct_map dest: inj_onD)
    with Cons show ?case by auto
  qed simp
  from this [of "rev ns"] assms(2) show ?thesis by (simp add: by_id_def)
qed

lemma map_topological:
  assumes "distinct (map ns_id ns)"
  shows "map ns_id (topological ns) = topological_ids ns"
proof -
  have "map ns_id (List.map_filter (by_id ns) xs) = xs" if "set xs \<subseteq> ns_id ` set ns" for xs
    using that by (induction xs) (auto simp: map_filter_simps by_id_Some [OF assms])
  with topological_ids(2) [OF assms] show ?thesis by (simp add: topological_def topological_ids_def)
qed

lemma set_topological:
  assumes "distinct (map ns_id ns)"
  shows "set (topological ns) \<subseteq> set ns"
proof -
  have "by_id ns i = Some n \<Longrightarrow> n \<in> set ns" for i n
    by (auto simp: by_id_def find_Some_iff) (metis length_rev nth_mem set_rev)
  then show ?thesis by (auto simp: topological_def map_filter_def)
qed

subsection \<open>Acceptance is acyclicity\<close>

lemma finite_depends: "finite (depends ns)"
proof -
  have "depends ns \<subseteq> (\<Union>n\<in>set ns. set (ns_dependencies n)) \<times> ns_id ` set ns"
    by (auto simp: depends_def)
  then show ?thesis by (rule finite_subset) simp
qed

lemma takeWhile_first: "i \<notin> set xs \<Longrightarrow> takeWhile (\<lambda>j. j \<noteq> i) (xs @ i # ys) = xs"
  by (induction xs) auto

lemma complete_order_acyclic:
  assumes "ordered ns os" and "ns_id ` set ns \<subseteq> set os"
  shows "acyclic (depends ns)"
proof -
  let ?at = "\<lambda>i. length (takeWhile (\<lambda>j. j \<noteq> i) os)"
  have "(d, i) \<in> measure ?at" if "(d, i) \<in> depends ns" for d i
  proof -
    from that obtain n where n: "n \<in> set ns" "i = ns_id n" "d \<in> set (ns_dependencies n)"
      by (auto simp: depends_def)
    with assms(2) obtain xs ys where os: "os = xs @ i # ys" "i \<notin> set xs"
      by (metis image_subset_iff split_list_first)
    with n assms(1) have "d \<in> set xs" unfolding ordered_def by blast
    then obtain us vs where xs: "xs = us @ d # vs" "d \<notin> set us" by (metis split_list_first)
    have "?at d = length us" using xs by (simp add: os(1) takeWhile_first)
    moreover have "?at i = length xs" using os(2) by (simp add: os(1) takeWhile_first)
    ultimately show ?thesis by (simp add: xs)
  qed
  then have "depends ns \<subseteq> measure ?at" by auto
  then show ?thesis by (meson wf_acyclic wf_measure wf_subset)
qed

lemma acyclic_complete_order:
  assumes "acyclic (depends ns)" and "known_dependencies ns" and "distinct (map ns_id ns)"
  shows "ns_id ` set ns \<subseteq> set (topological_ids ns)"
proof -
  have "i \<in> ns_id ` set ns \<Longrightarrow> i \<in> set (topological_ids ns)" for i
  proof (induction i rule: wf_induct_rule [OF finite_acyclic_wf [OF finite_depends assms(1)]])
    case (1 i)
    then obtain n where n: "n \<in> set ns" "i = ns_id n" by auto
    have "d \<in> set (topological_ids ns)" if "d \<in> set (ns_dependencies n)" for d
      using "1.IH" [of d] that n assms(2) by (auto simp: depends_def known_dependencies_def)
    with topological_ids(4) [OF assms(3) n(1)] n(2) show ?case by blast
  qed
  then show ?thesis by blast
qed

lemma topological_complete_iff:
  assumes "distinct (map ns_id ns)" and "known_dependencies ns"
  shows "length (topological ns) = length ns \<longleftrightarrow> acyclic (depends ns)"
proof -
  have len: "length (topological ns) = card (set (topological_ids ns))" "length ns = card (ns_id ` set ns)"
    using map_topological [OF assms(1)] distinct_card [OF topological_ids(1) [OF assms(1)]]
      distinct_card [OF assms(1)] by (metis length_map, simp)
  show ?thesis
  proof
    assume "length (topological ns) = length ns"
    then have "set (topological_ids ns) = ns_id ` set ns"
      using len topological_ids(2) [OF assms(1)] by (metis card_subset_eq finite_imageI finite_set)
    then show "acyclic (depends ns)"
      using complete_order_acyclic [OF topological_ids(3) [OF assms(1)]] by simp
  next
    assume "acyclic (depends ns)"
    from acyclic_complete_order [OF this assms(2,1)] topological_ids(2) [OF assms(1)] len
    show "length (topological ns) = length ns" by (metis subset_antisym)
  qed
qed

lemma graph_node_fault_iff:
  "graph_node_fault known n = Inr u \<longleftrightarrow>
     set (ns_dependencies n) \<subseteq> set known \<and> ns_id n \<notin> set (ns_dependencies n)"
  by (auto simp: graph_node_fault_def result_simps filter_empty_conv)

lemma acyclic_not_self: "acyclic (depends ns) \<Longrightarrow> n \<in> set ns \<Longrightarrow> ns_id n \<notin> set (ns_dependencies n)"
  by (auto simp: acyclic_def depends_def)

lemma validate_graph_iff:
  "validate_graph ns = Inr () \<longleftrightarrow>
     distinct (map ns_id ns) \<and> known_dependencies ns \<and> acyclic (depends ns)"
proof -
  have "validate_graph ns = Inr () \<longleftrightarrow> distinct (map ns_id ns) \<and>
      (\<forall>n\<in>set ns. set (ns_dependencies n) \<subseteq> ns_id ` set ns \<and> ns_id n \<notin> set (ns_dependencies n)) \<and>
      length (topological ns) = length ns"
    by (auto simp: validate_graph_def result_simps graph_node_fault_iff)
  also have "\<dots> \<longleftrightarrow> distinct (map ns_id ns) \<and> known_dependencies ns \<and> acyclic (depends ns)"
    using topological_complete_iff [of ns] acyclic_not_self [of ns] by (auto simp: known_dependencies_def)
  finally show ?thesis .
qed

subsection \<open>Layers\<close>

text \<open>Every layer holds nodes whose dependencies are all in the layers before it or in \<open>known\<close>.\<close>

fun layered :: "string list \<Rightarrow> node_spec list list \<Rightarrow> bool" where
  "layered known [] = True"
| "layered known (l # ls) =
     (l \<noteq> [] \<and> (\<forall>n\<in>set l. set (ns_dependencies n) \<subseteq> set known) \<and> layered (known @ map ns_id l) ls)"

lemma ready_in_iff: "ready_in met n \<longleftrightarrow> set (ns_dependencies n) \<subseteq> set met"
  by (auto simp: ready_in_def list_all_iff)

lemma some_node_ready:
  assumes "acyclic (depends ns)" and "set rest \<subseteq> set ns" and "rest \<noteq> []"
    and "\<forall>n\<in>set rest. set (ns_dependencies n) \<subseteq> set met \<union> ns_id ` set rest"
  shows "\<exists>n\<in>set rest. ready_in met n"
proof (rule ccontr)
  assume none: "\<not> ?thesis"
  have "i \<notin> ns_id ` set rest" for i
  proof (induction i rule: wf_induct_rule [OF finite_acyclic_wf [OF finite_depends assms(1)]])
    case (1 i)
    show ?case
    proof
      assume "i \<in> ns_id ` set rest"
      then obtain n where n: "n \<in> set rest" "i = ns_id n" by auto
      with none obtain d where "d \<in> set (ns_dependencies n)" "d \<notin> set met"
        by (auto simp: ready_in_iff)
      with n assms(2,4) 1 [of d] show False by (auto simp: depends_def)
    qed
  qed
  with assms(3) show False by (cases rest) auto
qed

lemma layers_from_ok:
  assumes "acyclic (depends ns)" and "set rest \<subseteq> set ns"
    and "\<forall>n\<in>set rest. set (ns_dependencies n) \<subseteq> set met \<union> ns_id ` set rest"
  shows "\<exists>ls. layers_from met rest = Inr ls \<and> mset (concat ls) = mset rest \<and> layered met ls"
  using assms(2,3)
proof (induction met rest rule: layers_from.induct)
  case (1 met rest)
  show ?case
  proof (cases "rest = []")
    case True
    then show ?thesis by (simp add: layers_from.simps)
  next
    case False
    let ?ready = "filter (ready_in met) rest" and ?rest = "filter (\<lambda>n. \<not> ready_in met n) rest"
    from some_node_ready [OF assms(1) "1.prems"(1) False "1.prems"(2)]
    have ready: "?ready \<noteq> []" by (auto simp: filter_empty_conv)
    have split: "set rest = set ?ready \<union> set ?rest" by auto
    have sub: "set ?rest \<subseteq> set ns" using "1.prems"(1) by auto
    have deps: "\<forall>n\<in>set ?rest. set (ns_dependencies n) \<subseteq> set (met @ map ns_id ?ready) \<union> ns_id ` set ?rest"
    proof
      fix n assume "n \<in> set ?rest"
      with "1.prems"(2) have "set (ns_dependencies n) \<subseteq> set met \<union> ns_id ` set rest" by auto
      then show "set (ns_dependencies n) \<subseteq> set (met @ map ns_id ?ready) \<union> ns_id ` set ?rest"
        unfolding split image_Un by auto
    qed
    from "1.IH" [OF False refl ready sub deps] obtain ls where
      ls: "layers_from (met @ map ns_id ?ready) ?rest = Inr ls" "mset (concat ls) = mset ?rest"
        "layered (met @ map ns_id ?ready) ls" by blast
    have "layers_from met rest = Inr (?ready # ls)"
      unfolding layers_from.simps [of met rest] using False ready ls(1) by (simp add: Let_def)
    moreover have "mset (concat (?ready # ls)) = mset rest"
      using ls(2) by (simp add: multiset_partition [symmetric])
    moreover have "layered met (?ready # ls)"
      using ready ls(3) by (simp add: ready_in_iff)
    ultimately show ?thesis by blast
  qed
qed

lemma make_run_spec_iff:
  "make_run_spec sp = Inr sp \<longleftrightarrow>
     sp_schema sp = ''1'' \<and> strip (sp_run_id sp) \<noteq> [] \<and> strip (sp_task sp) \<noteq> [] \<and> sp_nodes sp \<noteq> [] \<and>
     distinct (map ns_id (sp_nodes sp)) \<and> known_dependencies (sp_nodes sp) \<and> acyclic (depends (sp_nodes sp))"
  by (auto simp: make_run_spec_def not_blank_def result_simps validate_graph_iff)

lemma dependency_layers_ok:
  assumes "make_run_spec sp = Inr sp"
  shows "\<exists>ls. dependency_layers sp = Inr ls \<and> mset (concat ls) = mset (sp_nodes sp) \<and> layered [] ls"
proof -
  from assms have "acyclic (depends (sp_nodes sp))" "known_dependencies (sp_nodes sp)"
    by (auto simp: make_run_spec_iff)
  then show ?thesis
    unfolding dependency_layers_def by (intro layers_from_ok) (auto simp: known_dependencies_def)
qed

subsection \<open>Properties\<close>

text \<open>
  C21: A run specification is accepted exactly when its schema is known, its run id and task are not
  blank, and its nodes, at least one, have distinct ids, known dependencies and no cycle among them.
\<close>

theorem run_spec_accepts_acyclic:
  "make_run_spec sp = Inr sp \<longleftrightarrow>
     sp_schema sp = ''1'' \<and> strip (sp_run_id sp) \<noteq> [] \<and> strip (sp_task sp) \<noteq> [] \<and> sp_nodes sp \<noteq> [] \<and>
     distinct (map ns_id (sp_nodes sp)) \<and> known_dependencies (sp_nodes sp) \<and> acyclic (depends (sp_nodes sp))"
  by (rule make_run_spec_iff)

text \<open>
  C23: Planning an accepted specification never fails: its layers hold each of its nodes once, none is
  empty, and every node's dependencies are in earlier layers.
\<close>

theorem layers_respect_dependencies:
  assumes "make_run_spec sp = Inr sp"
  shows "\<exists>ls. dependency_layers sp = Inr ls \<and> mset (concat ls) = mset (sp_nodes sp) \<and> layered [] ls"
  by (rule dependency_layers_ok [OF assms])

end
