(* ===== verification/Run_Codec.thy ===== *)
theory Run_Codec
  imports Run_Order
begin

section \<open>Run graphs: documents\<close>

text \<open>
  \<open>to_dict\<close> and \<open>from_dict\<close> of \<open>runtime/contracts.py\<close>.  A document is a JSON value; one that is read
  holds no \<open>JTime\<close>, which stands for the text of an instant and occurs in no document written here.
\<close>

subsection \<open>Writing\<close>

fun number_json :: "py_number \<Rightarrow> json" where
  "number_json (Int_Number i) = JInt i"
| "number_json (Float_Number x) = JNum x"

definition retry_policy_json :: "retry_policy \<Rightarrow> json" where
  "retry_policy_json p = JObj
     [(''backoff_seconds'', JNum (rp_backoff p)), (''max_attempts'', JInt (rp_max_attempts p))]"

definition budget_json :: "node_budget \<Rightarrow> json" where
  "budget_json b = JObj
     [(''max_cost_usd'', jopt number_json (nb_max_cost b)), (''max_tokens'', jopt JInt (nb_max_tokens b)),
      (''timeout_seconds'', JNum (nb_timeout b))]"

definition capabilities_json :: "capability_set \<Rightarrow> json" where
  "capabilities_json c = JObj
     [(''commands'', JList (map jstrs (cs_commands c))), (''filesystem_write'', JBool (cs_writes c)),
      (''network'', JBool (cs_network c)), (''secrets'', jstrs (cs_secrets c)),
      (''tools'', jstrs (cs_tools c))]"

definition evidence_json :: "evidence_ref \<Rightarrow> json" where
  "evidence_json e = JObj
     [(''digest'', jopt JStr (er_digest e)), (''id'', JStr (er_id e)), (''kind'', JStr (er_kind e)),
      (''uri'', JStr (er_uri e))]"

definition node_spec_json :: "node_spec \<Rightarrow> json" where
  "node_spec_json n = JObj
     [(''budget'', jopt budget_json (ns_budget n)), (''capabilities'', capabilities_json (ns_capabilities n)),
      (''completion_condition'', jopt JStr (ns_completion n)), (''dependencies'', jstrs (ns_dependencies n)),
      (''id'', JStr (ns_id n)), (''idempotency_key'', jopt JStr (ns_key n)), (''kind'', JStr (ns_kind n)),
      (''metadata'', JObj (ns_metadata n)), (''objective'', JStr (ns_objective n)),
      (''approval_required'', JBool (ns_approval n)), (''retry_policy'', jopt retry_policy_json (ns_retry n)),
      (''side_effecting'', JBool (ns_side_effecting n)), (''timeout_seconds'', jopt number_json (ns_timeout n))]"

fun node_status_value :: "node_status \<Rightarrow> string" where
  "node_status_value Node_OK = ''succeeded''"
| "node_status_value Node_Failed = ''failed''"
| "node_status_value Node_Skipped = ''skipped''"

definition node_result_json :: "node_result \<Rightarrow> json" where
  "node_result_json r = JObj
     [(''error'', jopt JStr (nr_error r)), (''evidence'', JList (map evidence_json (nr_evidence r))),
      (''idempotency_key'', JStr (nr_key r)), (''node_id'', JStr (nr_node r)),
      (''output'', JObj (nr_output r)), (''status'', JStr (node_status_value (nr_status r)))]"

definition run_spec_json :: "run_spec \<Rightarrow> json" where
  "run_spec_json sp = JObj
     [(''evidence'', JList (map evidence_json (sp_evidence sp))), (''metadata'', JObj (sp_metadata sp)),
      (''nodes'', JList (map node_spec_json (sp_nodes sp))), (''run_id'', JStr (sp_run_id sp)),
      (''schema_version'', JStr (sp_schema sp)), (''task'', JStr (sp_task sp))]"

subsection \<open>Reading\<close>

fun obj_of :: "string \<Rightarrow> json \<Rightarrow> (string, (string \<times> json) list) result" where
  "obj_of path (JObj kvs) = Inr kvs"
| "obj_of path _ = Inl (path @ '' must be an object'')"

fun array_of :: "string \<Rightarrow> json \<Rightarrow> (string, json list) result" where
  "array_of path (JList xs) = Inr xs"
| "array_of path _ = Inl (path @ '' must be an array'')"

fun str_of :: "string \<Rightarrow> json \<Rightarrow> (string, string) result" where
  "str_of path (JStr s) = Inr s"
| "str_of path _ = Inl (path @ '' must be a string'')"

fun bool_of :: "string \<Rightarrow> json \<Rightarrow> (string, bool) result" where
  "bool_of path (JBool b) = Inr b"
| "bool_of path _ = Inl (path @ '' must be a bool'')"

fun int_of :: "string \<Rightarrow> json \<Rightarrow> (string, int) result" where
  "int_of path (JInt i) = Inr i"
| "int_of path _ = Inl (path @ '' must be an integer'')"

fun number_of :: "string \<Rightarrow> json \<Rightarrow> (string, rat) result" where
  "number_of path (JInt i) = Inr (of_int i)"
| "number_of path (JNum x) = Inr x"
| "number_of path _ = Inl (path @ '' must be a number'')"

text \<open>\<open>_number\<close> returns \<open>float(value)\<close>: a number that is read is a float, whatever was written.\<close>

definition float_of :: "string \<Rightarrow> json \<Rightarrow> (string, py_number) result" where
  "float_of path j = rbind (number_of path j) (\<lambda>x. Inr (Float_Number x))"

fun opt_of :: "(string \<Rightarrow> json \<Rightarrow> (string, 'a) result) \<Rightarrow> string \<Rightarrow> json \<Rightarrow> (string, 'a option) result" where
  "opt_of f path JNull = Inr None"
| "opt_of f path j = rbind (f path j) (\<lambda>x. Inr (Some x))"

text \<open>\<open>_string_tuple\<close> of a decoded value: an array of strings that are not blank, without repetition.\<close>

definition strings_of :: "bool \<Rightarrow> string \<Rightarrow> json \<Rightarrow> (string, string list) result" where
  "strings_of allow_empty path j = (case j of
     JList xs \<Rightarrow>
       rbind (rmap (\<lambda>(i, x). case x of
                JStr s \<Rightarrow> rbind (not_blank s (indexed path i)) (\<lambda>_. Inr s)
              | _ \<Rightarrow> Inl (indexed path i @ '' must not be empty'')) (enumerate 0 xs)) (\<lambda>ss.
       rbind (check_all
         [require (allow_empty \<or> ss \<noteq> []) (path @ '' must not be empty''),
          require (distinct ss) (path @ '' must contain unique values'')]) (\<lambda>_. Inr ss))
   | _ \<Rightarrow> Inl (path @ '' must be a string array''))"

definition exact_fields :: "string list \<Rightarrow> string \<Rightarrow> (string \<times> json) list \<Rightarrow> (string, unit) result" where
  "exact_fields expected path kvs = require (fst ` set kvs = set expected)
     (path @ '' fields must be exactly '' @ list_repr (sort expected) @ '', got '' @ list_repr (sort (dedup (map fst kvs))))"

text \<open>\<open>data[k]\<close> after the check of the fields; \<open>obj_with\<close> is \<open>_object\<close> followed by that check.\<close>

definition field :: "(string \<times> json) list \<Rightarrow> string \<Rightarrow> json" where
  "field kvs k = get_or JNull (map_of kvs k)"

definition obj_with :: "string list \<Rightarrow> string \<Rightarrow> json \<Rightarrow> (string, (string \<times> json) list) result" where
  "obj_with expected path j = rbind (obj_of path j) (\<lambda>kvs. rbind (exact_fields expected path kvs) (\<lambda>_. Inr kvs))"

definition sub :: "string \<Rightarrow> string \<Rightarrow> string" where
  "sub path k = path @ ''.'' @ k"

definition read_retry_policy :: "string \<Rightarrow> json \<Rightarrow> (string, retry_policy) result" where
  "read_retry_policy path j = rbind (obj_with [''max_attempts'', ''backoff_seconds''] path j) (\<lambda>d.
     rbind (int_of (sub path ''max_attempts'') (field d ''max_attempts'')) (\<lambda>m.
     rbind (number_of (sub path ''backoff_seconds'') (field d ''backoff_seconds'')) (\<lambda>b.
       make_retry_policy \<lparr>rp_max_attempts = m, rp_backoff = b\<rparr>)))"

definition read_budget :: "string \<Rightarrow> json \<Rightarrow> (string, node_budget) result" where
  "read_budget path j = rbind (obj_with [''timeout_seconds'', ''max_cost_usd'', ''max_tokens''] path j) (\<lambda>d.
     rbind (number_of (sub path ''timeout_seconds'') (field d ''timeout_seconds'')) (\<lambda>t.
     rbind (opt_of float_of (sub path ''max_cost_usd'') (field d ''max_cost_usd'')) (\<lambda>c.
     rbind (opt_of int_of (sub path ''max_tokens'') (field d ''max_tokens'')) (\<lambda>m.
       make_budget \<lparr>nb_timeout = t, nb_max_cost = c, nb_max_tokens = m\<rparr>))))"

definition read_capabilities :: "string \<Rightarrow> json \<Rightarrow> (string, capability_set) result" where
  "read_capabilities path j =
     rbind (obj_with [''tools'', ''commands'', ''filesystem_write'', ''network'', ''secrets''] path j) (\<lambda>d.
     rbind (array_of (sub path ''commands'') (field d ''commands'')) (\<lambda>raw.
     rbind (strings_of True (sub path ''tools'') (field d ''tools'')) (\<lambda>ts.
     rbind (rmap (\<lambda>(i, c). strings_of False (indexed (sub path ''commands'') i) c) (enumerate 0 raw)) (\<lambda>cs.
     rbind (bool_of (sub path ''filesystem_write'') (field d ''filesystem_write'')) (\<lambda>w.
     rbind (bool_of (sub path ''network'') (field d ''network'')) (\<lambda>n.
     rbind (strings_of True (sub path ''secrets'') (field d ''secrets'')) (\<lambda>ss.
       make_capabilities \<lparr>cs_tools = ts, cs_commands = cs, cs_writes = w, cs_network = n, cs_secrets = ss\<rparr>)))))))"

definition read_evidence :: "string \<Rightarrow> json \<Rightarrow> (string, evidence_ref) result" where
  "read_evidence path j = rbind (obj_with [''id'', ''kind'', ''uri'', ''digest''] path j) (\<lambda>d.
     rbind (str_of (sub path ''id'') (field d ''id'')) (\<lambda>i.
     rbind (str_of (sub path ''kind'') (field d ''kind'')) (\<lambda>k.
     rbind (str_of (sub path ''uri'') (field d ''uri'')) (\<lambda>u.
     rbind (opt_of str_of (sub path ''digest'') (field d ''digest'')) (\<lambda>g.
       make_evidence \<lparr>er_id = i, er_kind = k, er_uri = u, er_digest = g\<rparr>)))))"

definition read_node_spec :: "nat \<Rightarrow> json \<Rightarrow> (string, node_spec) result" where
  "read_node_spec index j = (let path = indexed ''nodes'' index in
     rbind (obj_with [''id'', ''kind'', ''objective'', ''completion_condition'', ''dependencies'', ''side_effecting'',
       ''approval_required'', ''idempotency_key'', ''timeout_seconds'', ''budget'', ''retry_policy'', ''capabilities'',
       ''metadata''] path j) (\<lambda>d.
     rbind (str_of (sub path ''id'') (field d ''id'')) (\<lambda>i.
     rbind (str_of (sub path ''kind'') (field d ''kind'')) (\<lambda>k.
     rbind (str_of (sub path ''objective'') (field d ''objective'')) (\<lambda>ob.
     rbind (opt_of str_of (sub path ''completion_condition'') (field d ''completion_condition'')) (\<lambda>co.
     rbind (strings_of True (sub path ''dependencies'') (field d ''dependencies'')) (\<lambda>ds.
     rbind (bool_of (sub path ''side_effecting'') (field d ''side_effecting'')) (\<lambda>se.
     rbind (bool_of (sub path ''approval_required'') (field d ''approval_required'')) (\<lambda>ap.
     rbind (opt_of str_of (sub path ''idempotency_key'') (field d ''idempotency_key'')) (\<lambda>ke.
     rbind (opt_of float_of (sub path ''timeout_seconds'') (field d ''timeout_seconds'')) (\<lambda>ti.
     rbind (opt_of read_budget (sub path ''budget'') (field d ''budget'')) (\<lambda>bu.
     rbind (opt_of read_retry_policy (sub path ''retry_policy'') (field d ''retry_policy'')) (\<lambda>re.
     rbind (read_capabilities (sub path ''capabilities'') (field d ''capabilities'')) (\<lambda>ca.
     rbind (obj_of (sub path ''metadata'') (field d ''metadata'')) (\<lambda>me.
       make_node \<lparr>ns_id = i, ns_kind = k, ns_objective = ob, ns_completion = co, ns_dependencies = ds,
         ns_side_effecting = se, ns_approval = ap, ns_key = ke, ns_timeout = ti, ns_budget = bu,
         ns_retry = re, ns_capabilities = ca, ns_metadata = me\<rparr>)))))))))))))))"

text \<open>A \<open>RuntimeContractError\<close> is a \<open>ValueError\<close>, so a status that is no string is caught as well.\<close>

definition read_status :: "json \<Rightarrow> (string, node_status) result" where
  "read_status j =
     (if j = JStr ''succeeded'' then Inr Node_OK else if j = JStr ''failed'' then Inr Node_Failed
      else if j = JStr ''skipped'' then Inr Node_Skipped else Inl ''invalid node result status'')"

definition read_node_result :: "json \<Rightarrow> (string, node_result) result" where
  "read_node_result j = rbind (obj_with [''node_id'', ''status'', ''idempotency_key'', ''output'', ''evidence'', ''error'']
       ''node result'' j) (\<lambda>d.
     rbind (read_status (field d ''status'')) (\<lambda>st.
     rbind (str_of ''node result.node_id'' (field d ''node_id'')) (\<lambda>i.
     rbind (str_of ''node result.idempotency_key'' (field d ''idempotency_key'')) (\<lambda>k.
     rbind (obj_of ''node result.output'' (field d ''output'')) (\<lambda>out.
     rbind (array_of ''node result.evidence'' (field d ''evidence'')) (\<lambda>raw.
     rbind (rmap (\<lambda>(n, e). read_evidence (indexed ''node result.evidence'' n) e) (enumerate 0 raw)) (\<lambda>ev.
     rbind (opt_of str_of ''node result.error'' (field d ''error'')) (\<lambda>er.
       make_node_result \<lparr>nr_node = i, nr_status = st, nr_key = k, nr_output = out, nr_evidence = ev, nr_error = er\<rparr>))))))))"

definition read_run_spec :: "json \<Rightarrow> (string, run_spec) result" where
  "read_run_spec j = rbind (obj_with [''schema_version'', ''run_id'', ''task'', ''nodes'', ''evidence'', ''metadata'']
       ''run spec'' j) (\<lambda>d.
     rbind (str_of ''run spec.schema_version'' (field d ''schema_version'')) (\<lambda>sv.
     rbind (require (sv = ''1'') (''unsupported runtime schema: '' @ sv)) (\<lambda>_.
     rbind (str_of ''run spec.run_id'' (field d ''run_id'')) (\<lambda>i.
     rbind (str_of ''run spec.task'' (field d ''task'')) (\<lambda>t.
     rbind (array_of ''run spec.nodes'' (field d ''nodes'')) (\<lambda>raw.
     rbind (rmap (\<lambda>(n, x). read_node_spec n x) (enumerate 0 raw)) (\<lambda>ns.
     rbind (array_of ''run spec.evidence'' (field d ''evidence'')) (\<lambda>rawe.
     rbind (rmap (\<lambda>(n, e). read_evidence (indexed ''run spec.evidence'' n) e) (enumerate 0 rawe)) (\<lambda>ev.
     rbind (obj_of ''run spec.metadata'' (field d ''metadata'')) (\<lambda>me.
       make_run_spec \<lparr>sp_run_id = i, sp_task = t, sp_nodes = ns, sp_evidence = ev, sp_metadata = me,
         sp_schema = sv\<rparr>))))))))))"

end
