(* ===== verification/Run_Trip.thy ===== *)
theory Run_Trip
  imports Run_Codec
begin

section \<open>Run graphs: reading back what was written\<close>

text \<open>
  A specification or result that passed its constructors, written as JSON with sorted keys and read
  again, is itself with the keys of its free-form objects in order and its numbers as floats.  Its
  canonical text stays the same exactly when its timeouts and cost limits were floats before.
\<close>

subsection \<open>Pieces\<close>

definition canon_fields :: "(string \<times> json) list \<Rightarrow> (string \<times> json) list" where
  "canon_fields kvs = sort_key fst (map_vals canon kvs)"

lemma canon_obj_fields: "canon (JObj kvs) = JObj (canon_fields kvs)"
  by (simp add: canon_fields_def)

lemma field_canon:
  assumes "distinct (map fst kvs)"
  shows "field (canon_fields kvs) k = canon (field kvs k)"
  using canon_get [OF canon_obj_fields assms, of k] by (auto simp: field_def get_or_def split: option.splits)

lemma obj_with_canon:
  assumes "fst ` set kvs \<subseteq> set expected" and "set expected \<subseteq> fst ` set kvs"
  shows "obj_with expected path (JObj (canon_fields kvs)) = Inr (canon_fields kvs)"
  using canon_keys [OF canon_obj_fields, of kvs] assms
  by (simp add: obj_with_def exact_fields_def canon_obj_fields del: canon_obj)

lemma not_blank_iff: "not_blank v path = Inr u \<longleftrightarrow> strip v \<noteq> []"
  by (simp add: not_blank_def result_simps)

lemma not_blank_opt_iff: "not_blank_opt v path = Inr u \<longleftrightarrow> (\<forall>x. v = Some x \<longrightarrow> strip x \<noteq> [])"
  by (auto simp: not_blank_opt_def not_blank_iff split: option.splits)

lemma string_tuple_iff:
  "string_tuple ae xs path = Inr u \<longleftrightarrow> (\<forall>x\<in>set xs. strip x \<noteq> []) \<and> (ae \<or> xs \<noteq> []) \<and> distinct xs"
proof -
  have "(\<forall>p\<in>set (enumerate n xs). (case p of (i, x) \<Rightarrow> not_blank x (indexed path i)) = Inr ()) \<longleftrightarrow> (\<forall>x\<in>set xs. strip x \<noteq> [])" for n
    by (induction xs arbitrary: n) (auto simp: not_blank_iff)
  then show ?thesis by (auto simp: string_tuple_def result_simps)
qed

lemma strings_of_jstrs:
  assumes "string_tuple ae xs path' = Inr ()"
  shows "strings_of ae path (jstrs xs) = Inr xs"
proof -
  have "rmap (\<lambda>(i, x). case x of JStr s \<Rightarrow> rbind (not_blank s (indexed path i)) (\<lambda>_. Inr s)
      | _ \<Rightarrow> Inl (indexed path i @ '' must not be empty'')) (enumerate n (map JStr ys)) = Inr ys"
    if "\<forall>y\<in>set ys. strip y \<noteq> []" for n ys
    using that by (induction ys arbitrary: n) (auto simp: not_blank_def)
  with assms show ?thesis by (auto simp: strings_of_def jstrs_def string_tuple_iff)
qed

lemma opt_of_jopt:
  assumes "\<And>x. v = Some x \<Longrightarrow> f path (canon (g x)) = Inr x \<and> canon (g x) \<noteq> JNull"
  shows "opt_of f path (canon (jopt g v)) = Inr v"
proof (cases v)
  case (Some x)
  with assms have "f path (canon (g x)) = Inr x" "canon (g x) \<noteq> JNull" by auto
  with Some show ?thesis by (cases "canon (g x)") (auto simp: jopt_def)
qed (simp add: jopt_def)

lemma rmap_enumerate:
  assumes "\<And>i x. x \<in> set xs \<Longrightarrow> f i (canon (g x)) = Inr (h x)"
  shows "rmap (\<lambda>(i, y). f i y) (enumerate n (map canon (map g xs))) = Inr (map h xs)"
  using assms by (induction xs arbitrary: n) auto

subsection \<open>Values that passed their constructors\<close>

definition node_ok :: "node_spec \<Rightarrow> bool" where
  "node_ok n \<longleftrightarrow> make_node n = Inr n \<and> make_capabilities (ns_capabilities n) = Inr (ns_capabilities n) \<and>
     (case ns_budget n of None \<Rightarrow> True | Some b \<Rightarrow> make_budget b = Inr b) \<and>
     (case ns_retry n of None \<Rightarrow> True | Some p \<Rightarrow> make_retry_policy p = Inr p)"

definition evidence_ok :: "evidence_ref list \<Rightarrow> bool" where
  "evidence_ok es \<longleftrightarrow> (\<forall>e\<in>set es. make_evidence e = Inr e)"

definition spec_ok :: "run_spec \<Rightarrow> bool" where
  "spec_ok sp \<longleftrightarrow> make_run_spec sp = Inr sp \<and> (\<forall>n\<in>set (sp_nodes sp). node_ok n) \<and> evidence_ok (sp_evidence sp)"

definition result_ok :: "node_result \<Rightarrow> bool" where
  "result_ok r \<longleftrightarrow> make_node_result r = Inr r \<and> evidence_ok (nr_evidence r)"

subsection \<open>The value read\<close>

definition as_float :: "py_number \<Rightarrow> py_number" where
  "as_float x = Float_Number (number_value x)"

definition float_budget :: "node_budget \<Rightarrow> node_budget" where
  "float_budget b = b\<lparr>nb_max_cost := map_option as_float (nb_max_cost b)\<rparr>"

definition canon_node :: "node_spec \<Rightarrow> node_spec" where
  "canon_node n = n\<lparr>ns_timeout := map_option as_float (ns_timeout n),
     ns_budget := map_option float_budget (ns_budget n), ns_metadata := canon_fields (ns_metadata n)\<rparr>"

definition canon_spec :: "run_spec \<Rightarrow> run_spec" where
  "canon_spec sp = sp\<lparr>sp_nodes := map canon_node (sp_nodes sp), sp_metadata := canon_fields (sp_metadata sp)\<rparr>"

definition canon_result :: "node_result \<Rightarrow> node_result" where
  "canon_result r = r\<lparr>nr_output := canon_fields (nr_output r)\<rparr>"

lemma field_Cons [simp]: "field ((k', v) # kvs) k = (if k = k' then v else field kvs k)"
  by (simp add: field_def get_or_def)

lemmas trip_simps = canon_obj_fields obj_with_canon field_canon strings_of_jstrs opt_of_jopt

lemma read_evidence_trip:
  assumes "make_evidence e = Inr e"
  shows "read_evidence path (canon (evidence_json e)) = Inr e"
  using assms by (cases e) (simp add: read_evidence_def evidence_json_def trip_simps del: canon_obj)

lemma read_retry_policy_trip:
  assumes "make_retry_policy p = Inr p"
  shows "read_retry_policy path (canon (retry_policy_json p)) = Inr p"
  using assms by (cases p) (simp add: read_retry_policy_def retry_policy_json_def trip_simps del: canon_obj)

lemma number_value_as_float [simp]: "number_value (as_float x) = number_value x"
  by (simp add: as_float_def)

lemma canon_number [simp]: "canon (number_json x) = number_json x" "number_json x \<noteq> JNull"
  by (cases x; simp)+

lemma float_of_json: "float_of path (number_json x) = Inr (as_float x)"
  by (cases x) (simp_all add: float_of_def as_float_def)

lemma opt_number_trip: "opt_of float_of path (canon (jopt number_json v)) = Inr (map_option as_float v)"
proof (cases v)
  case (Some x)
  then show ?thesis by (cases x) (simp_all add: jopt_def float_of_def as_float_def)
qed (simp add: jopt_def)

lemma make_budget_float: "make_budget b = Inr b \<Longrightarrow> make_budget (float_budget b) = Inr (float_budget b)"
  by (cases "nb_max_cost b") (simp_all add: make_budget_def float_budget_def result_simps)

lemma read_budget_trip:
  assumes "make_budget b = Inr b"
  shows "read_budget path (canon (budget_json b)) = Inr (float_budget b)"
proof -
  have eq: "float_budget b = \<lparr>nb_timeout = nb_timeout b, nb_max_cost = map_option as_float (nb_max_cost b),
      nb_max_tokens = nb_max_tokens b\<rparr>" by (simp add: float_budget_def)
  show ?thesis using make_budget_float [OF assms]
    by (simp add: read_budget_def budget_json_def trip_simps opt_number_trip eq del: canon_obj)
qed

lemma opt_budget_trip:
  assumes "\<And>b. v = Some b \<Longrightarrow> make_budget b = Inr b"
  shows "opt_of read_budget path (canon (jopt budget_json v)) = Inr (map_option float_budget v)"
proof (cases v)
  case (Some b)
  obtain kvs where "canon (budget_json b) = JObj kvs" by (simp add: budget_json_def)
  with read_budget_trip [OF assms [OF Some], of path] Some show ?thesis by (simp add: jopt_def)
qed (simp add: jopt_def)

lemma in_enumerate: "x \<in> set xs \<Longrightarrow> \<exists>i. (i, x) \<in> set (enumerate n xs)"
  by (induction xs arbitrary: n) auto

lemma commands_trip:
  assumes "make_capabilities c = Inr c"
  shows "rmap (\<lambda>(i, x). strings_of False (indexed path i) x) (enumerate n (map canon (map jstrs (cs_commands c)))) = Inr (cs_commands c)"
proof -
  from assms have "x \<in> set (cs_commands c) \<Longrightarrow> \<exists>p. string_tuple False x p = Inr ()" for x
    using in_enumerate [of x "cs_commands c" 0] by (fastforce simp: make_capabilities_def result_simps)
  then show ?thesis
    using rmap_enumerate [of "cs_commands c" "\<lambda>i. strings_of False (indexed path i)" jstrs id n]
    by (force simp: strings_of_jstrs)
qed

lemma read_capabilities_trip:
  assumes "make_capabilities c = Inr c"
  shows "read_capabilities path (canon (capabilities_json c)) = Inr c"
proof -
  from assms have "string_tuple True (cs_tools c) ''tools'' = Inr ()" "string_tuple True (cs_secrets c) ''secrets'' = Inr ()"
    by (auto simp: make_capabilities_def result_simps)
  with assms commands_trip [OF assms] show ?thesis
    by (cases c) (simp add: read_capabilities_def capabilities_json_def trip_simps del: canon_obj map_map)
qed

lemma json_not_null [simp]:
  "canon (budget_json b) \<noteq> JNull" "canon (retry_policy_json p) \<noteq> JNull" "canon (JStr s) \<noteq> JNull"
  "canon (JNum x) \<noteq> JNull" "canon (JInt i) \<noteq> JNull"
  by (simp_all add: budget_json_def retry_policy_json_def)

lemma make_node_canon:
  assumes "make_node n = Inr n"
  shows "make_node (canon_node n) = Inr (canon_node n)"
proof -
  have "side_effecting_node (canon_node n) = side_effecting_node n" by (simp add: side_effecting_node_def canon_node_def fun_eq_iff)
  with assms show ?thesis
    by (cases "ns_timeout n") (simp_all add: make_node_def canon_node_def result_simps)
qed

lemma read_node_spec_trip:
  assumes "node_ok n"
  shows "read_node_spec i (canon (node_spec_json n)) = Inr (canon_node n)"
proof -
  from assms have n: "make_node n = Inr n" and caps: "make_capabilities (ns_capabilities n) = Inr (ns_capabilities n)"
    and bud: "\<And>b. ns_budget n = Some b \<Longrightarrow> make_budget b = Inr b"
    and ret: "\<And>p. ns_retry n = Some p \<Longrightarrow> make_retry_policy p = Inr p"
    by (auto simp: node_ok_def)
  from n have deps: "string_tuple True (ns_dependencies n) ''dependencies'' = Inr ()"
    by (simp add: make_node_def result_simps)
  have made: "make_node (canon_node n) = Inr (canon_node n)" by (rule make_node_canon [OF n])
  have eq: "canon_node n = \<lparr>ns_id = ns_id n, ns_kind = ns_kind n, ns_objective = ns_objective n,
      ns_completion = ns_completion n, ns_dependencies = ns_dependencies n, ns_side_effecting = ns_side_effecting n,
      ns_approval = ns_approval n, ns_key = ns_key n, ns_timeout = map_option as_float (ns_timeout n),
      ns_budget = map_option float_budget (ns_budget n), ns_retry = ns_retry n, ns_capabilities = ns_capabilities n, ns_metadata = canon_fields (ns_metadata n)\<rparr>"
    by (simp add: canon_node_def)
  show ?thesis
    using made read_capabilities_trip [OF caps] opt_budget_trip [OF bud] read_retry_policy_trip [OF ret] deps
    by (simp add: read_node_spec_def node_spec_json_def trip_simps opt_number_trip Let_def eq canon_obj_fields del: canon_obj)
qed

lemma evidence_list_trip:
  assumes "evidence_ok es"
  shows "rmap (\<lambda>(i, e). read_evidence (indexed path i) e) (enumerate n (map canon (map evidence_json es))) = Inr es"
  using assms rmap_enumerate [of es "\<lambda>i. read_evidence (indexed path i)" evidence_json id n]
  by (simp add: evidence_ok_def read_evidence_trip del: map_map)

lemma node_list_trip:
  assumes "\<forall>n\<in>set ns. node_ok n"
  shows "rmap (\<lambda>(i, x). read_node_spec i x) (enumerate k (map canon (map node_spec_json ns))) = Inr (map canon_node ns)"
  using assms rmap_enumerate [of ns read_node_spec node_spec_json canon_node k]
  by (simp add: read_node_spec_trip del: map_map)

lemma read_status_trip: "read_status (JStr (node_status_value st)) = Inr st"
  by (cases st) (simp_all add: read_status_def)

lemma read_node_result_trip:
  assumes "result_ok r"
  shows "read_node_result (canon (node_result_json r)) = Inr (canon_result r)"
proof -
  from assms have made: "make_node_result (canon_result r) = Inr (canon_result r)"
    by (auto simp: result_ok_def make_node_result_def canon_result_def result_simps)
  have eq: "canon_result r = \<lparr>nr_node = nr_node r, nr_status = nr_status r, nr_key = nr_key r,
      nr_output = canon_fields (nr_output r), nr_evidence = nr_evidence r, nr_error = nr_error r\<rparr>"
    by (simp add: canon_result_def)
  show ?thesis
    using made evidence_list_trip assms
    by (simp add: read_node_result_def node_result_json_def trip_simps eq canon_obj_fields read_status_trip
        result_ok_def del: canon_obj map_map)
qed

subsection \<open>Specifications\<close>

lemma canon_node_simps [simp]:
  "ns_id (canon_node n) = ns_id n" "ns_dependencies (canon_node n) = ns_dependencies n"
  by (simp_all add: canon_node_def)

lemma depends_canon [simp]: "depends (map canon_node ns) = depends ns"
proof -
  have "depends ns = (\<Union>n\<in>set ns. set (ns_dependencies n) \<times> {ns_id n})" for ns
    by (auto simp: depends_def)
  then show ?thesis by simp
qed

lemma known_canon [simp]: "known_dependencies (map canon_node ns) = known_dependencies ns"
  by (simp add: known_dependencies_def image_image)

lemma make_run_spec_canon:
  assumes "make_run_spec sp = Inr sp"
  shows "make_run_spec (canon_spec sp) = Inr (canon_spec sp)"
  using assms by (simp add: make_run_spec_iff canon_spec_def comp_def)

lemma canon_same: "map_vals canon kvs = map_vals canon kvs' \<Longrightarrow> canon (JObj kvs) = canon (JObj kvs')"
  by simp

lemma canon_canon_fields: "canon (JObj (canon_fields kvs)) = canon (JObj kvs)"
  by (metis canon_canon canon_obj_fields)

text \<open>The numbers a reader would change are floats already.\<close>

definition float_or_none :: "py_number option \<Rightarrow> bool" where
  "float_or_none v = (case v of Some (Int_Number _) \<Rightarrow> False | _ \<Rightarrow> True)"

definition float_fields :: "node_spec \<Rightarrow> bool" where
  "float_fields n \<longleftrightarrow> float_or_none (ns_timeout n)
     \<and> (case ns_budget n of None \<Rightarrow> True | Some b \<Rightarrow> float_or_none (nb_max_cost b))"

lemma float_or_none_iff:
  "float_or_none v \<longleftrightarrow> map_option as_float v = v"
  "float_or_none v \<longleftrightarrow> canon (jopt number_json (map_option as_float v)) = canon (jopt number_json v)"
  by (auto simp: float_or_none_def as_float_def jopt_def split: option.splits py_number.splits)

text \<open>Equal objects with distinct keys have equal fields.\<close>

lemma canon_fields_eq:
  assumes "canon (JObj kvs) = canon (JObj kvs')" "distinct (map fst kvs)" "distinct (map fst kvs')"
  shows "canon (field kvs k) = canon (field kvs' k)"
  using assms(1) field_canon [OF assms(2), of k] field_canon [OF assms(3), of k] by (simp add: canon_fields_def)

lemma float_budget_json:
  "canon (budget_json (float_budget b)) = canon (budget_json b) \<longleftrightarrow> float_or_none (nb_max_cost b)"
proof
  assume "canon (budget_json (float_budget b)) = canon (budget_json b)"
  from canon_fields_eq [OF this [unfolded budget_json_def], of "''max_cost_usd''"]
  show "float_or_none (nb_max_cost b)" by (simp add: float_budget_def float_or_none_iff(2))
next
  assume "float_or_none (nb_max_cost b)"
  then have "float_budget b = b" by (simp add: float_budget_def float_or_none_iff(1))
  then show "canon (budget_json (float_budget b)) = canon (budget_json b)" by simp
qed

lemma canon_node_json: "canon (node_spec_json (canon_node n)) = canon (node_spec_json n) \<longleftrightarrow> float_fields n"
proof
  assume "canon (node_spec_json (canon_node n)) = canon (node_spec_json n)"
  note same = canon_fields_eq [OF this [unfolded node_spec_json_def]]
  from same [of "''timeout_seconds''"] have "float_or_none (ns_timeout n)"
    by (simp add: canon_node_def float_or_none_iff(2))
  moreover have "float_or_none (nb_max_cost b)" if "ns_budget n = Some b" for b
    using same [of "''budget''"] that by (simp add: canon_node_def jopt_def float_budget_json del: canon_obj)
  ultimately show "float_fields n" by (simp add: float_fields_def split: option.splits)
next
  assume f: "float_fields n"
  have "map_option float_budget (ns_budget n) = ns_budget n"
    using f by (cases "ns_budget n") (simp_all add: float_fields_def float_budget_def float_or_none_iff(1))
  moreover have "map_option as_float (ns_timeout n) = ns_timeout n"
    using f by (simp add: float_fields_def float_or_none_iff(1))
  ultimately have "canon_node n = n\<lparr>ns_metadata := canon_fields (ns_metadata n)\<rparr>" by (simp add: canon_node_def)
  then show "canon (node_spec_json (canon_node n)) = canon (node_spec_json n)"
    unfolding node_spec_json_def by (intro canon_same) (simp add: canon_canon_fields del: canon_obj)
qed

lemma spec_json_same:
  "canon (run_spec_json (canon_spec sp)) = canon (run_spec_json sp) \<longleftrightarrow> (\<forall>n\<in>set (sp_nodes sp). float_fields n)"
proof
  assume "canon (run_spec_json (canon_spec sp)) = canon (run_spec_json sp)"
  from canon_fields_eq [OF this [unfolded run_spec_json_def], of "''nodes''"]
  show "\<forall>n\<in>set (sp_nodes sp). float_fields n" by (simp add: canon_spec_def canon_node_json)
next
  assume "\<forall>n\<in>set (sp_nodes sp). float_fields n"
  then show "canon (run_spec_json (canon_spec sp)) = canon (run_spec_json sp)"
    unfolding run_spec_json_def
    by (intro canon_same) (simp add: canon_canon_fields canon_node_json canon_spec_def del: canon_obj)
qed

lemma canon_fields_twice: "canon_fields (canon_fields kvs) = canon_fields kvs"
  using canon_canon_fields [of kvs] by (simp add: canon_obj_fields del: canon_obj)

lemma as_float_twice: "as_float (as_float x) = as_float x"
  by (simp add: as_float_def)

lemma float_budget_twice: "float_budget (float_budget b) = float_budget b"
  by (simp add: float_budget_def option.map_comp comp_def as_float_twice)

lemma canon_node_twice: "canon_node (canon_node n) = canon_node n"
  by (simp add: canon_node_def canon_fields_twice option.map_comp comp_def as_float_twice float_budget_twice)

lemma canon_spec_twice: "canon_spec (canon_spec sp) = canon_spec sp"
  by (simp add: canon_spec_def canon_fields_twice canon_node_twice)

lemma spec_ok_canon:
  assumes "spec_ok sp"
  shows "spec_ok (canon_spec sp)"
proof -
  have "node_ok (canon_node n)" if "node_ok n" for n
    using that make_node_canon [of n] by (auto simp: node_ok_def canon_node_def make_budget_float split: option.splits)
  with assms make_run_spec_canon [of sp] show ?thesis by (auto simp: spec_ok_def canon_spec_def)
qed

lemma read_run_spec_trip:
  assumes "spec_ok sp"
  shows "read_run_spec (canon (run_spec_json sp)) = Inr (canon_spec sp)"
proof -
  have eq: "canon_spec sp = \<lparr>sp_run_id = sp_run_id sp, sp_task = sp_task sp, sp_nodes = map canon_node (sp_nodes sp),
      sp_evidence = sp_evidence sp, sp_metadata = canon_fields (sp_metadata sp), sp_schema = sp_schema sp\<rparr>"
    by (simp add: canon_spec_def)
  from assms have sp: "make_run_spec sp = Inr sp" "\<forall>n\<in>set (sp_nodes sp). node_ok n" "evidence_ok (sp_evidence sp)"
    by (auto simp: spec_ok_def)
  then have "sp_schema sp = ''1''" by (simp add: make_run_spec_def result_simps)
  with make_run_spec_canon [OF sp(1)] evidence_list_trip [OF sp(3)] node_list_trip [OF sp(2)]
  show ?thesis
    by (simp add: read_run_spec_def run_spec_json_def trip_simps eq canon_obj_fields del: canon_obj map_map)
qed

text \<open>
  C40: A run specification written as JSON and read back is the specification with the keys of its
  free-form objects in order and its timeouts and cost limits as floats; writing and reading that one
  changes nothing any more.  The canonical document, from which the digest of a run is taken, is kept
  exactly when no timeout and no cost limit of a node was given as an integer.
\<close>

theorem run_spec_round_trip:
  assumes "spec_ok sp"
  shows "read_run_spec (canon (run_spec_json sp)) = Inr (canon_spec sp) \<and>
    read_run_spec (canon (run_spec_json (canon_spec sp))) = Inr (canon_spec sp) \<and>
    (canon (run_spec_json (canon_spec sp)) = canon (run_spec_json sp) \<longleftrightarrow> (\<forall>n\<in>set (sp_nodes sp). float_fields n))"
  using read_run_spec_trip [OF assms] read_run_spec_trip [OF spec_ok_canon [OF assms]]
  by (simp only: canon_spec_twice spec_json_same simp_thms)

end
