(* ===== verification/Run_Backend.thy ===== *)
theory Run_Backend
  imports Run_Codec Durable_Api
begin

section \<open>Run graphs: the native backend\<close>

text \<open>
  \<open>NativeExecutionBackend\<close> of \<open>runtime/native_backend.py\<close> over the runtime store, with one worker and
  without a repository root, so that no trace events are recorded.  Handlers, the clock and what the
  capture of environment and Git returns are parameters: a handler may read the store, changes a world of any type and
  returns a result or raises.  The files beside the event log are dictionaries of documents.  A value is
  \<open>None\<close> when the retries of a node never end.
\<close>

subsection \<open>Parameters and state\<close>

text \<open>What an exception is to \<open>classify_retry\<close>: a timeout or connection error, another \<open>OSError\<close>, or neither.\<close>

datatype failure_kind = Connection_Failure | OS_Failure | Other_Failure

datatype handler_outcome =
    Returned node_result
  | Raised failure_kind string
  | Raised_Contract string

datatype exec_error =
    Contract_Error string
  | Store_Error rt_error
  | File_Error

datatype run_file = Run_File json | Torn_File

type_synonym 'w node_handler = "node_spec \<Rightarrow> store \<Rightarrow> 'w \<Rightarrow> 'w \<times> handler_outcome"

record 'w backend =
  be_digests :: digests
  be_spec_digest :: "json \<Rightarrow> string"
  be_clock :: "'w \<Rightarrow> 'w \<times> instant \<times> instant"
  be_environment :: environment_snapshot
  be_git :: git_snapshot
  be_handlers :: "string \<Rightarrow> 'w node_handler option"
  be_error_text :: "exec_error \<Rightarrow> string"

text \<open>\<open>bs_done\<close> is the list \<open>results\<close> of the running call of \<open>execute\<close>.\<close>

record 'w backend_state =
  bs_store :: store
  bs_results :: "string \<times> string \<Rightarrow> run_file option"
  bs_specs :: "string \<Rightarrow> run_file option"
  bs_done :: "node_result list"
  bs_world :: 'w

type_synonym ('w, 'a) backend_action = "('w backend_state, exec_error, 'a) action"

text \<open>Actions that may not return.\<close>

type_synonym ('w, 'a) backend_run = "'w backend_state \<Rightarrow> ('w backend_state \<times> (exec_error, 'a) result) option"

definition olift :: "('w, 'a) backend_action \<Rightarrow> ('w, 'a) backend_run" where
  "olift m s = Some (m s)"

definition obind :: "('w, 'a) backend_run \<Rightarrow> ('a \<Rightarrow> ('w, 'b) backend_run) \<Rightarrow> ('w, 'b) backend_run" where
  "obind m f s = (case m s of
     None \<Rightarrow> None | Some (s', Inl e) \<Rightarrow> Some (s', Inl e) | Some (s', Inr x) \<Rightarrow> f x s')"

text \<open>\<open>try\<close> around what may raise: every exception, or \<open>RunNotFoundError\<close> with an \<open>else\<close>, or a \<open>finally\<close>.\<close>

definition ocatch :: "('w, 'a) backend_run \<Rightarrow> (exec_error \<Rightarrow> ('w, 'a) backend_action) \<Rightarrow> ('w, 'a) backend_run" where
  "ocatch m f s = (case m s of
     None \<Rightarrow> None | Some (s', Inl e) \<Rightarrow> Some (f e s') | Some (s', Inr x) \<Rightarrow> Some (s', Inr x))"

definition if_missing ::
  "('w, 'a) backend_action \<Rightarrow> ('w, 'b) backend_action \<Rightarrow> ('a \<Rightarrow> ('w, 'b) backend_action) \<Rightarrow> ('w, 'b) backend_action" where
  "if_missing m absent present s = (case m s of
     (s', Inl e) \<Rightarrow> if e = Store_Error Run_Not_Found then absent s' else (s', Inl e)
   | (s', Inr x) \<Rightarrow> present x s')"

definition ofinally :: "('w, 'a) backend_run \<Rightarrow> ('w, unit) backend_action \<Rightarrow> ('w, 'a) backend_run" where
  "ofinally m clean s = (case m s of
     None \<Rightarrow> None
   | Some (s', r) \<Rightarrow> (case clean s' of (s'', Inl e) \<Rightarrow> Some (s'', Inl e) | (s'', Inr _) \<Rightarrow> Some (s'', r)))"

definition exec_text :: "'w backend \<Rightarrow> exec_error \<Rightarrow> string" where
  "exec_text E e = (case e of Contract_Error m \<Rightarrow> m | _ \<Rightarrow> be_error_text E e)"

definition contract :: "(string, 'a) result \<Rightarrow> ('w, 'a) backend_action" where
  "contract r = alift (map_sum Contract_Error id r)"

subsection \<open>Calls of the store\<close>

definition store_call :: "'w backend \<Rightarrow> rt_call \<Rightarrow> ('w, rt_value) backend_action" where
  "store_call E c s = (case be_clock E (bs_world s) of (w, t, u) \<Rightarrow>
     (case run_call (be_digests E) c t u (bs_store s) of (st, r) \<Rightarrow>
        (s\<lparr>bs_store := st, bs_world := w\<rparr>, map_sum Store_Error id r)))"

definition load_run :: "'w backend \<Rightarrow> string \<Rightarrow> ('w, run_snapshot) backend_action" where
  "load_run E rid s = (case load (be_digests E) rid (bs_store s) of (st, r) \<Rightarrow>
     (s\<lparr>bs_store := st\<rparr>, map_sum Store_Error id r))"

definition load_events :: "'w backend \<Rightarrow> string \<Rightarrow> ('w, event list) backend_action" where
  "load_events E rid s = (case events (be_digests E) rid (bs_store s) of (st, r) \<Rightarrow>
     (s\<lparr>bs_store := st\<rparr>, map_sum Store_Error id r))"

definition node_in :: "run_snapshot \<Rightarrow> string \<Rightarrow> ('w, node_snapshot) backend_action" where
  "node_in snap nid = alift (map_sum Store_Error id (find_node snap nid))"

definition node_key :: "string \<Rightarrow> string \<Rightarrow> string" where
  "node_key nid what = ''runtime:'' @ nid @ '':'' @ what"

definition lease_key :: "string \<Rightarrow> nat \<Rightarrow> string" where
  "lease_key nid k = node_key nid (''lease:'' @ show_nat k)"

definition release_key :: "string \<Rightarrow> string \<Rightarrow> string" where
  "release_key nid suffix = node_key nid (''lease-release:'' @ suffix)"

definition run_approval_key :: "string \<Rightarrow> string" where
  "run_approval_key nid = node_key nid ''run-approval-request''"

definition retry_key :: "string \<Rightarrow> int \<Rightarrow> string" where
  "retry_key nid k = node_key nid (''retry:'' @ show_int k)"

subsection \<open>Retries\<close>

definition has_marker :: "string list \<Rightarrow> string \<Rightarrow> bool" where
  "has_marker ms text = list_ex (contains text) ms"

text \<open>A failure that is only a text has no kind.\<close>

definition classify_retry :: "failure_kind option \<Rightarrow> string \<Rightarrow> retry_class" where
  "classify_retry kind error =
     (if kind = Some Connection_Failure then Transient
      else let message = lower error in
        if has_marker [''429'', ''rate limit'', ''too many requests''] message then Rate_Limit
        else if has_marker [''out of memory'', ''no space left'', ''resource busy''] message then Resource
        else if has_marker [''invalid'', ''unauthorized'', ''forbidden'', ''not found''] message then Permanent
        else if kind = Some OS_Failure \<or>
          has_marker [''timeout'', ''temporarily unavailable'', ''connection reset''] message then Transient
        else Unknown)"

definition record_retry_if_allowed ::
  "'w backend \<Rightarrow> string \<Rightarrow> node_spec \<Rightarrow> failure_kind option \<Rightarrow> string \<Rightarrow> ('w, bool) backend_action" where
  "record_retry_if_allowed E rid n kind error = (case ns_retry n of
     None \<Rightarrow> areturn False
   | Some policy \<Rightarrow>
     (let cls = classify_retry kind error in
      if cls = Permanent then areturn False
      else abind (load_run E rid) (\<lambda>snap. abind (node_in snap (ns_id n)) (\<lambda>x.
        if rp_max_attempts policy \<le> n_attempts x + 1 then areturn False
        else abind (store_call E (C_Retry rid (ns_id n) cls error (rp_backoff policy) (rp_backoff policy)
                    (retry_key (ns_id n) (n_attempts x + 1)))) (\<lambda>_. areturn True)))))"

definition expected_key :: "node_spec \<Rightarrow> string" where
  "expected_key n = (case ns_key n of Some (c # cs) \<Rightarrow> c # cs | _ \<Rightarrow> ''runtime:'' @ ns_id n)"

definition validate_node_result :: "node_spec \<Rightarrow> node_result \<Rightarrow> (string, unit) result" where
  "validate_node_result n r = check_all
     [require (nr_node r = ns_id n)
        (''handler for '' @ py_repr (ns_id n) @ '' returned result for '' @ py_repr (nr_node r)),
      require (nr_key r = expected_key n)
        (''handler for '' @ py_repr (ns_id n) @ '' returned wrong idempotency key''),
      require (\<not> (ns_side_effecting n \<and> nr_status r = Node_OK \<and>
                \<not> list_ex (\<lambda>e. er_kind e = ''completion'' \<and> er_digest e \<noteq> None \<and> er_digest e \<noteq> Some []) (nr_evidence r)))
        (''successful side-effecting node '' @ py_repr (ns_id n) @ '' requires digest-backed completion evidence'')]"

subsection \<open>One node\<close>

datatype attempt = Again | Final "(exec_error, node_result) result"

definition after_failure :: "(exec_error, bool) result \<Rightarrow> (exec_error, node_result) result \<Rightarrow> attempt" where
  "after_failure retried r = (case retried of Inl e \<Rightarrow> Final (Inl e) | Inr True \<Rightarrow> Again | Inr False \<Rightarrow> Final r)"

text \<open>\<open>error or alt\<close>.\<close>

definition reason_or :: "string \<Rightarrow> string option \<Rightarrow> string" where
  "reason_or alt e = (case e of Some (c # cs) \<Rightarrow> c # cs | _ \<Rightarrow> alt)"

definition attempt_node ::
  "'w backend \<Rightarrow> string \<Rightarrow> node_spec \<Rightarrow> 'w node_handler \<Rightarrow> 'w backend_state \<Rightarrow> 'w backend_state \<times> attempt" where
  "attempt_node E rid n h s = (case h n (bs_store s) (bs_world s) of (w, out) \<Rightarrow>
     (let s1 = s\<lparr>bs_world := w\<rparr> in case out of
        Raised_Contract m \<Rightarrow> (s1, Final (Inl (Contract_Error m)))
      | Raised kind m \<Rightarrow>
          (case record_retry_if_allowed E rid n (Some kind) m s1 of (s2, retried) \<Rightarrow>
             (s2, after_failure retried (map_sum Contract_Error id (make_node_result
                \<lparr>nr_node = ns_id n, nr_status = Node_Failed, nr_key = expected_key n, nr_output = [],
                 nr_evidence = [], nr_error = Some m\<rparr>))))
      | Returned r \<Rightarrow>
          (case validate_node_result n r of
             Inl m \<Rightarrow> (s1, Final (Inl (Contract_Error m)))
           | Inr _ \<Rightarrow>
             if nr_status r \<noteq> Node_Failed then (s1, Final (Inr r))
             else (case record_retry_if_allowed E rid n None (reason_or ''failed'' (nr_error r)) s1 of
                     (s2, retried) \<Rightarrow> (s2, after_failure retried (Inr r))))))"

partial_function (option) retry_loop ::
  "'w backend \<Rightarrow> string \<Rightarrow> node_spec \<Rightarrow> 'w node_handler \<Rightarrow> ('w, node_result) backend_run" where
  "retry_loop E rid n h s = (case attempt_node E rid n h s of
     (s', Again) \<Rightarrow> retry_loop E rid n h s'
   | (s', Final r) \<Rightarrow> Some (s', r))"

declare retry_loop.simps [code]

definition lease_ttl :: "node_spec \<Rightarrow> rat" where
  "lease_ttl n = (case ns_timeout n of Some x \<Rightarrow> number_value x | None \<Rightarrow>
     (case ns_budget n of Some b \<Rightarrow> nb_timeout b | None \<Rightarrow> 300))"

definition lease_events :: "string \<Rightarrow> event list \<Rightarrow> nat" where
  "lease_events nid es = length (filter (\<lambda>e. case ev_payload e of
     P_Lease_Acquired i _ _ _ _ _ _ \<Rightarrow> i = nid | _ \<Rightarrow> False) es)"

definition acquire_node_lease :: "'w backend \<Rightarrow> string \<Rightarrow> node_spec \<Rightarrow> ('w, lease) backend_action" where
  "acquire_node_lease E rid n =
     abind (load_run E rid) (\<lambda>snap. abind (node_in snap (ns_id n)) (\<lambda>x.
       case n_lease x of
         Some l \<Rightarrow> areturn l
       | None \<Rightarrow> abind (load_events E rid) (\<lambda>es.
           abind (store_call E (C_Acquire rid (ns_id n) ''native'' (lease_ttl n)
                    (lease_key (ns_id n) (1 + lease_events (ns_id n) es))))
             (\<lambda>v. case v of Got_Lease l \<Rightarrow> areturn l | _ \<Rightarrow> araise (Store_Error Lease_Expired)))))"

text \<open>\<open>except\<close> of one exception of the store: \<open>return\<close>.\<close>

definition swallow :: "rt_error \<Rightarrow> ('w, unit) backend_action \<Rightarrow> ('w, unit) backend_action" where
  "swallow x m s = (case m s of (s', Inl e) \<Rightarrow> (s', if e = Store_Error x then Inr () else Inl e) | (s', r) \<Rightarrow> (s', r))"

definition call_on :: "'w backend \<Rightarrow> rt_call \<Rightarrow> ('w, unit) backend_action" where
  "call_on E c = abind (store_call E c) (\<lambda>_. areturn ())"

definition drop_lease :: "'w backend \<Rightarrow> string \<Rightarrow> string \<Rightarrow> string \<Rightarrow> string \<Rightarrow> ('w, unit) backend_action" where
  "drop_lease E rid nid token key = swallow Lease_Expired (call_on E (C_Release rid nid token key))"

definition run_node :: "'w backend \<Rightarrow> string \<Rightarrow> node_spec \<Rightarrow> 'w node_handler \<Rightarrow> ('w, node_result) backend_run" where
  "run_node E rid n h = obind (olift (acquire_node_lease E rid n)) (\<lambda>l.
     ofinally (retry_loop E rid n h) (drop_lease E rid (ns_id n) (l_token l) (release_key (ns_id n) (l_token l))))"

text \<open>The ready nodes of a layer, one after the other, up to the first that does not succeed.\<close>

fun run_ready :: "'w backend \<Rightarrow> string \<Rightarrow> node_spec list \<Rightarrow> ('w, (node_spec \<times> node_result) list) backend_run" where
  "run_ready E rid [] = olift (areturn [])"
| "run_ready E rid (n # ns) = (case be_handlers E (ns_id n) of
     None \<Rightarrow> olift (araise (Store_Error Key_Error))
   | Some h \<Rightarrow> obind (run_node E rid n h) (\<lambda>r.
       if nr_status r \<noteq> Node_OK then olift (areturn [(n, r)])
       else obind (run_ready E rid ns) (\<lambda>rs. olift (areturn ((n, r) # rs)))))"

subsection \<open>Files beside the log\<close>

definition has_result :: "'w backend_state \<Rightarrow> string \<Rightarrow> string \<Rightarrow> bool" where
  "has_result s rid nid \<longleftrightarrow> bs_results s (rid, nid) \<noteq> None"

definition load_result :: "string \<Rightarrow> string \<Rightarrow> ('w, node_result) backend_action" where
  "load_result rid nid s = (s, case bs_results s (rid, nid) of
     None \<Rightarrow> Inr \<lparr>nr_node = nid, nr_status = Node_Skipped, nr_key = ''runtime:'' @ nid, nr_output = [],
                  nr_evidence = [], nr_error = Some ''completed node is missing its persisted result''\<rparr>
   | Some Torn_File \<Rightarrow> Inl File_Error
   | Some (Run_File j) \<Rightarrow> map_sum Contract_Error id (read_node_result j))"

definition write_result :: "string \<Rightarrow> node_result \<Rightarrow> ('w, unit) backend_action" where
  "write_result rid r s =
     (s\<lparr>bs_results := (bs_results s)((rid, nr_node r) \<mapsto> Run_File (canon (node_result_json r)))\<rparr>, Inr ())"

definition push_result :: "node_result \<Rightarrow> ('w, unit) backend_action" where
  "push_result r s = (s\<lparr>bs_done := bs_done s @ [r]\<rparr>, Inr ())"

definition spec_digest :: "'w backend \<Rightarrow> run_spec \<Rightarrow> string" where
  "spec_digest E sp = be_spec_digest E (canon (run_spec_json sp))"

definition write_spec_manifest :: "'w backend \<Rightarrow> run_spec \<Rightarrow> ('w, unit) backend_action" where
  "write_spec_manifest E sp s = (s\<lparr>bs_specs := (bs_specs s)(sp_run_id sp \<mapsto> Run_File (canon (JObj
     [(''schema_version'', JStr (sp_schema sp)), (''run_id'', JStr (sp_run_id sp)),
      (''spec_digest'', JStr (spec_digest E sp)), (''spec'', run_spec_json sp)])))\<rparr>, Inr ())"

definition validate_stored_spec :: "'w backend \<Rightarrow> run_spec \<Rightarrow> ('w, unit) backend_action" where
  "validate_stored_spec E sp s = (s, case bs_specs s (sp_run_id sp) of
     None \<Rightarrow> Inl (Contract_Error ''stored run is missing its RunSpec manifest'')
   | Some Torn_File \<Rightarrow> Inl File_Error
   | Some (Run_File (JObj raw)) \<Rightarrow> map_sum Contract_Error id (check_all
       [require (map_of raw ''run_id'' = Some (JStr (sp_run_id sp))) ''stored RunSpec manifest run_id mismatch'',
        require (map_of raw ''schema_version'' = Some (JStr (sp_schema sp))) ''stored RunSpec schema mismatch'',
        require (map_of raw ''spec_digest'' = Some (JStr (spec_digest E sp)))
          ''stored RunSpec digest does not match requested spec''])
   | Some _ \<Rightarrow> Inl (Contract_Error ''stored RunSpec manifest must be an object''))"

definition load_or_create :: "'w backend \<Rightarrow> run_spec \<Rightarrow> bool \<Rightarrow> ('w, run_snapshot) backend_action" where
  "load_or_create E sp resuming = if_missing (load_run E (sp_run_id sp))
     (if resuming then araise (Store_Error Run_Not_Found)
      else abind (store_call E (C_Create (sp_run_id sp) (map ns_id (sp_nodes sp)) None None
                    (be_environment E) (be_git E) ''runtime:create''))
             (\<lambda>v. case v of
                Got_Run snap \<Rightarrow> abind (write_spec_manifest E sp) (\<lambda>_. areturn snap)
              | _ \<Rightarrow> araise (Store_Error Run_Not_Found)))
     (\<lambda>snap. abind (contract (require (map fst (rs_nodes snap) = map ns_id (sp_nodes sp))
                ''stored run nodes do not match the RunSpec'')) (\<lambda>_.
        abind (validate_stored_spec E sp) (\<lambda>_. areturn snap)))"

subsection \<open>Outcomes of a run\<close>

definition make_outcome ::
  "'w backend \<Rightarrow> run_spec \<Rightarrow> run_status \<Rightarrow> node_result list \<Rightarrow> string option \<Rightarrow> ('w, run_result) backend_action" where
  "make_outcome E sp st rs e = contract (make_run_result
     \<lparr>rr_run_id = sp_run_id sp, rr_status = st, rr_results = rs, rr_backend = ''native'',
      rr_digest = spec_digest E sp, rr_error = e\<rparr>)"

definition cancelled_result :: "'w backend \<Rightarrow> run_spec \<Rightarrow> ('w, run_result) backend_action" where
  "cancelled_result E sp s = make_outcome E sp Run_Cancelled (bs_done s) (Some ''run cancelled'') s"

definition interrupted_result :: "'w backend \<Rightarrow> run_spec \<Rightarrow> string option \<Rightarrow> ('w, run_result) backend_action" where
  "interrupted_result E sp nid s = make_outcome E sp Run_Interrupted (bs_done s)
     (Some (''approval required for '' @ (case nid of None \<Rightarrow> ''run'' | Some i \<Rightarrow> ''node '' @ i))) s"

definition terminal_result :: "'w backend \<Rightarrow> run_spec \<Rightarrow> node_result \<Rightarrow> ('w, run_result) backend_action" where
  "terminal_result E sp r s = make_outcome E sp (if nr_status r = Node_Skipped then Run_Cancelled else Run_Failed)
     (bs_done s) (nr_error r) s"

fun cancel_each :: "'w backend \<Rightarrow> string \<Rightarrow> string \<Rightarrow> node_spec list \<Rightarrow> run_snapshot \<Rightarrow> ('w, unit) backend_action" where
  "cancel_each E rid reason [] snap = areturn ()"
| "cancel_each E rid reason (n # ns) snap = abind (node_in snap (ns_id n)) (\<lambda>x.
     if terminal_node (n_state x) then cancel_each E rid reason ns snap
     else abind (store_call E (C_Cancel_Node rid (ns_id n) reason (node_key (ns_id n) ''cancel-unfinished''))) (\<lambda>_.
       abind (load_run E rid) (cancel_each E rid reason ns)))"

definition cancel_unfinished :: "'w backend \<Rightarrow> run_spec \<Rightarrow> string \<Rightarrow> ('w, unit) backend_action" where
  "cancel_unfinished E sp reason =
     abind (load_run E (sp_run_id sp)) (cancel_each E (sp_run_id sp) reason (topological_order sp))"

definition release_active_lease :: "'w backend \<Rightarrow> string \<Rightarrow> string \<Rightarrow> string \<Rightarrow> ('w, unit) backend_action" where
  "release_active_lease E rid nid suffix = abind (load_run E rid) (\<lambda>snap. abind (node_in snap nid) (\<lambda>x.
     case n_lease x of None \<Rightarrow> areturn ()
     | Some l \<Rightarrow> drop_lease E rid nid (l_token l) (release_key nid suffix)))"

definition apply_persisted :: "'w backend \<Rightarrow> string \<Rightarrow> node_result \<Rightarrow> ('w, unit) backend_action" where
  "apply_persisted E rid r = swallow Invalid_Transition (
     abind (load_run E rid) (\<lambda>snap. abind (node_in snap (nr_node r)) (\<lambda>x.
     abind (release_active_lease E rid (nr_node r) ''replay'') (\<lambda>_.
     abind (if rs_state snap \<noteq> R_Running then call_on E (C_Resume rid ''runtime:resume'') else areturn ()) (\<lambda>_.
     abind (if n_state x = N_Pending then call_on E (C_Start_Node rid (nr_node r) (node_key (nr_node r) ''start''))
            else if n_state x \<noteq> N_Running
              then call_on E (C_Resume_Node rid (nr_node r) (node_key (nr_node r) ''resume''))
            else areturn ()) (\<lambda>_.
     case nr_status r of
       Node_OK \<Rightarrow> call_on E (C_Complete_Node rid (nr_node r) (node_key (nr_node r) ''complete''))
     | Node_Skipped \<Rightarrow> call_on E (C_Cancel_Node rid (nr_node r) (reason_or ''skipped'' (nr_error r))
                                  (node_key (nr_node r) ''skip''))
     | Node_Failed \<Rightarrow>
         abind (call_on E (C_Fail_Node rid (nr_node r) (reason_or ''failed'' (nr_error r))
                             (node_key (nr_node r) ''fail''))) (\<lambda>_.
           call_on E (C_Fail rid (reason_or ''failed'' (nr_error r)) ''runtime:fail''))))))))"

text \<open>\<open>event.payload.get("approved_by")\<close> is true for a name that is not empty.\<close>

definition approval_event :: "string \<Rightarrow> event \<Rightarrow> bool" where
  "approval_event nid e = (case ev_payload e of
     P_Node_Transition i _ tgt _ who \<Rightarrow> i = nid \<and> tgt = N_Running \<and> who \<noteq> None \<and> who \<noteq> Some []
   | _ \<Rightarrow> False)"

definition node_has_approval :: "'w backend \<Rightarrow> string \<Rightarrow> string \<Rightarrow> ('w, bool) backend_action" where
  "node_has_approval E rid nid = abind (load_events E rid) (\<lambda>es. areturn (list_ex (approval_event nid) es))"

definition fail_running :: "'w backend \<Rightarrow> string \<Rightarrow> string \<Rightarrow> ('w, unit) backend_action" where
  "fail_running E rid reason = if_missing (load_run E rid) (areturn ()) (\<lambda>snap.
     if rs_state snap \<noteq> R_Running then areturn ()
     else swallow Invalid_Transition (foldr
       (\<lambda>nid rest. abind (call_on E (C_Fail_Node rid nid reason (node_key nid ''exception''))) (\<lambda>_. rest))
       (map (n_node_id \<circ> snd) (filter (\<lambda>(i, x). n_state x = N_Running) (rs_nodes snap)))
       (call_on E (C_Fail rid reason ''runtime:exception''))))"

subsection \<open>A layer\<close>

text \<open>Whether the scan of the nodes goes on or the run has its outcome.\<close>

datatype 'a flow = Onward 'a | Outcome run_result

definition settle_run :: "'w backend \<Rightarrow> run_spec \<Rightarrow> node_result \<Rightarrow> string \<Rightarrow> ('w, unit) backend_action" where
  "settle_run E sp r reason = abind (cancel_unfinished E sp reason) (\<lambda>_.
     call_on E (if nr_status r = Node_Skipped then C_Cancel (sp_run_id sp) reason ''runtime:cancel''
                else C_Fail (sp_run_id sp) reason ''runtime:fail''))"

definition replay_node ::
  "'w backend \<Rightarrow> run_spec \<Rightarrow> node_spec \<Rightarrow> node_spec list \<Rightarrow> ('w, node_spec list flow) backend_action" where
  "replay_node E sp n ready = abind (load_result (sp_run_id sp) (ns_id n)) (\<lambda>r.
     abind (contract (validate_node_result n r)) (\<lambda>_.
     abind (apply_persisted E (sp_run_id sp) r) (\<lambda>_. abind (push_result r) (\<lambda>_.
       if nr_status r = Node_OK then areturn (Onward ready)
       else abind (if nr_status r = Node_Skipped
                   then settle_run E sp r (reason_or (ns_id n @ '' skipped'') (nr_error r)) else areturn ()) (\<lambda>_.
            abind (terminal_result E sp r) (\<lambda>rr. areturn (Outcome rr)))))))"

definition request_approvals :: "'w backend \<Rightarrow> string \<Rightarrow> string \<Rightarrow> ('w, unit) backend_action" where
  "request_approvals E rid nid = (let reason = ''approval required before '' @ nid in
     abind (call_on E (C_Request_Node_Approval rid nid reason (node_key nid ''approval-request''))) (\<lambda>_.
       call_on E (C_Request_Approval rid reason (run_approval_key nid))))"

definition admit_node ::
  "'w backend \<Rightarrow> run_spec \<Rightarrow> node_state \<Rightarrow> node_spec \<Rightarrow> node_spec list \<Rightarrow> ('w, node_spec list flow) backend_action" where
  "admit_node E sp st n ready = (let rid = sp_run_id sp in
     abind (if st = N_Pending
            then abind (call_on E (C_Start_Node rid (ns_id n) (node_key (ns_id n) ''start''))) (\<lambda>_. areturn N_Running)
            else areturn st) (\<lambda>st'.
     abind (if ns_approval n \<and> st' = N_Running
            then abind (node_has_approval E rid (ns_id n)) (\<lambda>ok. areturn (\<not> ok)) else areturn False) (\<lambda>held.
       if held then abind (request_approvals E rid (ns_id n)) (\<lambda>_.
         abind (interrupted_result E sp (Some (ns_id n))) (\<lambda>rr. areturn (Outcome rr)))
       else areturn (Onward (ready @ [n])))))"

definition dependencies_met :: "run_snapshot \<Rightarrow> node_spec \<Rightarrow> ('w, bool) backend_action" where
  "dependencies_met snap n = alift (map_sum Store_Error id (rfold
     (\<lambda>d ok. if ok then rbind (find_node snap d) (\<lambda>x. Inr (n_state x = N_Succeeded)) else Inr False)
     (ns_dependencies n) True))"

definition scan_node ::
  "'w backend \<Rightarrow> run_spec \<Rightarrow> run_snapshot \<Rightarrow> node_spec \<Rightarrow> node_spec list \<Rightarrow> ('w, node_spec list flow) backend_action" where
  "scan_node E sp current n ready = abind (node_in current (ns_id n)) (\<lambda>x.
     if n_state x = N_Succeeded then
       abind (load_result (sp_run_id sp) (ns_id n)) (\<lambda>r. abind (contract (validate_node_result n r)) (\<lambda>_.
         abind (push_result r) (\<lambda>_. areturn (Onward ready))))
     else if n_state x = N_Cancelled then abind (cancelled_result E sp) (\<lambda>rr. areturn (Outcome rr))
     else if n_state x = N_Awaiting_Approval then
       abind (interrupted_result E sp (Some (ns_id n))) (\<lambda>rr. areturn (Outcome rr))
     else (\<lambda>s. if has_result s (sp_run_id sp) (ns_id n) then replay_node E sp n ready s
       else abind (dependencies_met current n) (\<lambda>met.
         if \<not> met then araise (Contract_Error (''node '' @ py_repr (ns_id n) @ '' has unsatisfied dependencies''))
         else admit_node E sp (n_state x) n ready) s))"

fun scan_layer ::
  "'w backend \<Rightarrow> run_spec \<Rightarrow> run_snapshot \<Rightarrow> node_spec list \<Rightarrow> node_spec list \<Rightarrow> ('w, node_spec list flow) backend_action" where
  "scan_layer E sp current [] ready = areturn (Onward ready)"
| "scan_layer E sp current (n # ns) ready = abind (scan_node E sp current n ready) (\<lambda>f.
     case f of Onward ready' \<Rightarrow> scan_layer E sp current ns ready' | Outcome rr \<Rightarrow> areturn (Outcome rr))"

fun settle_layer ::
  "'w backend \<Rightarrow> string \<Rightarrow> (node_spec \<times> node_result) list \<Rightarrow> node_result option \<Rightarrow> ('w, node_result option) backend_action" where
  "settle_layer E rid [] last_bad = areturn last_bad"
| "settle_layer E rid ((n, r) # rs) last_bad =
     abind (write_result rid r) (\<lambda>_. abind (push_result r) (\<lambda>_. case nr_status r of
       Node_OK \<Rightarrow> abind (call_on E (C_Complete_Node rid (ns_id n) (node_key (ns_id n) ''complete''))) (\<lambda>_.
         settle_layer E rid rs last_bad)
     | Node_Skipped \<Rightarrow> abind (call_on E (C_Cancel_Node rid (ns_id n) (reason_or ''skipped'' (nr_error r))
           (node_key (ns_id n) ''skip''))) (\<lambda>_.
         settle_layer E rid rs (case last_bad of None \<Rightarrow> Some r | Some b \<Rightarrow> Some b))
     | Node_Failed \<Rightarrow> abind (call_on E (C_Fail_Node rid (ns_id n) (reason_or ''failed'' (nr_error r))
           (node_key (ns_id n) ''fail''))) (\<lambda>_.
         settle_layer E rid rs (Some r))))"

definition stop_run :: "'w backend \<Rightarrow> run_spec \<Rightarrow> node_result \<Rightarrow> ('w, run_result) backend_action" where
  "stop_run E sp r = abind (settle_run E sp r (reason_or
       (nr_node r @ (if nr_status r = Node_Skipped then '' skipped'' else '' failed'')) (nr_error r)))
     (\<lambda>_. terminal_result E sp r)"

subsection \<open>execute\<close>

fun run_layers :: "'w backend \<Rightarrow> run_spec \<Rightarrow> node_spec list list \<Rightarrow> ('w, run_result) backend_run" where
  "run_layers E sp [] = olift (abind (call_on E (C_Complete (sp_run_id sp) ''runtime:complete'')) (\<lambda>_ s.
     make_outcome E sp Run_OK (bs_done s) None s))"
| "run_layers E sp (l # ls) =
     obind (olift (abind (load_run E (sp_run_id sp)) (\<lambda>current. scan_layer E sp current l []))) (\<lambda>f. case f of
       Outcome rr \<Rightarrow> olift (areturn rr)
     | Onward ready \<Rightarrow>
         obind (run_ready E (sp_run_id sp) ready) (\<lambda>rs.
         obind (olift (settle_layer E (sp_run_id sp) rs None)) (\<lambda>bad. case bad of
           None \<Rightarrow> run_layers E sp ls
         | Some r \<Rightarrow> olift (stop_run E sp r))))"

definition run_graph :: "'w backend \<Rightarrow> run_spec \<Rightarrow> ('w, run_result) backend_run" where
  "run_graph E sp = ocatch (obind (olift (contract (dependency_layers sp))) (run_layers E sp))
     (\<lambda>e. abind (fail_running E (sp_run_id sp) (exec_text E e)) (\<lambda>_ s.
       make_outcome E sp Run_Failed (bs_done s) (Some (exec_text E e)) s))"

fun load_results :: "run_spec \<Rightarrow> node_spec list \<Rightarrow> ('w, node_result list) backend_action" where
  "load_results sp [] = areturn []"
| "load_results sp (n # ns) = abind (load_result (sp_run_id sp) (ns_id n)) (\<lambda>r.
     abind (contract (validate_node_result n r)) (\<lambda>_.
     abind (load_results sp ns) (\<lambda>rs. areturn (r # rs))))"

definition missing_handlers :: "'w backend \<Rightarrow> run_spec \<Rightarrow> 'w backend_state \<Rightarrow> string list" where
  "missing_handlers E sp s = filter (\<lambda>i. Option.is_none (be_handlers E i) \<and> \<not> has_result s (sp_run_id sp) i)
     (map ns_id (topological_order sp))"

definition run_from :: "'w backend \<Rightarrow> run_spec \<Rightarrow> run_snapshot \<Rightarrow> ('w, run_result) backend_run" where
  "run_from E sp snap =
     (if rs_state snap = R_Completed then
        olift (abind (load_results sp (topological_order sp)) (\<lambda>rs. make_outcome E sp Run_OK rs None))
      else if rs_state snap = R_Awaiting_Approval then olift (interrupted_result E sp None)
      else if rs_state snap = R_Cancelled then olift (cancelled_result E sp)
      else obind (olift (if rs_state snap \<noteq> R_Running then call_on E (C_Start (sp_run_id sp) ''runtime:start'') else areturn ()))
             (\<lambda>_. run_graph E sp))"

definition execute :: "'w backend \<Rightarrow> run_spec \<Rightarrow> bool \<Rightarrow> ('w, run_result) backend_run" where
  "execute E sp resuming s =
     (if missing_handlers E sp s \<noteq> []
      then Some (s, Inl (Contract_Error (''missing node handlers: '' @ list_repr (missing_handlers E sp s))))
      else obind (olift (load_or_create E sp resuming)) (run_from E sp) (s\<lparr>bs_done := []\<rparr>))"

end
