(* ===== verification/Run_Steps.thy ===== *)
theory Run_Steps
  imports Run_Backend Run_Order Durable_Props
begin

section \<open>Run graphs: what an execution respects\<close>

text \<open>
  The backend reaches the store through few calls under keys of its own.  The locales state once that a
  reflexive and transitive relation respected by each of them, and by the writes of files, is respected
  by every part of an execution and by the execution as a whole.
\<close>

text \<open>The calls of the backend on a run, but for retries and the completion of the run.\<close>

fun own_call :: "string \<Rightarrow> rt_call \<Rightarrow> bool" where
  "own_call rid (C_Create r _ _ _ _ _ k) = (r = rid \<and> k = ''runtime:create'')"
| "own_call rid (C_Start r k) = (r = rid \<and> k = ''runtime:start'')"
| "own_call rid (C_Resume r k) = (r = rid \<and> k = ''runtime:resume'')"
| "own_call rid (C_Fail r _ k) = (r = rid \<and> (k = ''runtime:fail'' \<or> k = ''runtime:exception''))"
| "own_call rid (C_Cancel r _ k) = (r = rid \<and> k = ''runtime:cancel'')"
| "own_call rid (C_Request_Approval r _ k) = (r = rid \<and> (\<exists>n. k = run_approval_key n))"
| "own_call rid (C_Start_Node r n k) = (r = rid \<and> k = node_key n ''start'')"
| "own_call rid (C_Resume_Node r n k) = (r = rid \<and> k = node_key n ''resume'')"
| "own_call rid (C_Complete_Node r n k) = (r = rid \<and> k = node_key n ''complete'')"
| "own_call rid (C_Fail_Node r n _ k) = (r = rid \<and> (k = node_key n ''fail'' \<or> k = node_key n ''exception''))"
| "own_call rid (C_Cancel_Node r n _ k) =
     (r = rid \<and> (k = node_key n ''skip'' \<or> k = node_key n ''cancel-unfinished''))"
| "own_call rid (C_Request_Node_Approval r n _ k) = (r = rid \<and> k = node_key n ''approval-request'')"
| "own_call rid (C_Acquire r n _ _ k) = (r = rid \<and> (\<exists>m. k = lease_key n m))"
| "own_call rid (C_Release r n _ k) = (r = rid \<and> (\<exists>x. k = release_key n x))"
| "own_call rid _ = False"

locale quiet_order =
  fixes E :: "'w backend" and rid :: string and R :: "'w backend_state \<Rightarrow> 'w backend_state \<Rightarrow> bool"
  assumes refl: "R s s" and trans: "R s t \<Longrightarrow> R t u \<Longrightarrow> R s u"
    and performs: "own_call rid c \<Longrightarrow> R s (fst (store_call E c s))"
    and loads: "R s (fst (load_run E rid s))"
    and reads: "R s (fst (load_events E rid s))"
    and retries: "R s (fst (record_retry_if_allowed E rid n kind e s))"
begin

definition quiet :: "('w, 'a) backend_action \<Rightarrow> bool" where
  "quiet m \<longleftrightarrow> (\<forall>s. R s (fst (m s)))"

lemma fst_trans: "R s t \<Longrightarrow> R t (fst p) \<Longrightarrow> p = (u, x) \<Longrightarrow> R s u"
  by (auto intro: trans)

lemma quietD: "quiet m \<Longrightarrow> m s = (s', r) \<Longrightarrow> R s s'"
  by (metis fst_conv quiet_def)

lemma quiet_abind: "quiet m \<Longrightarrow> (\<And>x. quiet (f x)) \<Longrightarrow> quiet (abind m f)"
  unfolding quiet_def abind_def by (auto split: prod.split sum.split intro: fst_trans [OF refl]) (metis fst_conv trans)

lemma quiet_if_state: "quiet m \<Longrightarrow> quiet m' \<Longrightarrow> quiet (\<lambda>s. if P s then m s else m' s)"
  by (simp add: quiet_def)

lemma quiet_pure [simp]:
  "quiet (areturn x)" "quiet (araise e)" "quiet (alift r)" "quiet (contract q)" "quiet (node_in snap nid)"
  "quiet (load_result rid' nid)" "quiet (make_outcome E sp st rs msg)" "quiet (dependencies_met snap n)"
  "quiet (validate_stored_spec E sp)" "quiet (\<lambda>s. (s, r))"
  by (simp_all add: quiet_def refl contract_def node_in_def load_result_def make_outcome_def
      dependencies_met_def validate_stored_spec_def)

lemma quiet_calls [simp]:
  "own_call rid c \<Longrightarrow> quiet (store_call E c)" "quiet (load_run E rid)" "quiet (load_events E rid)"
  "quiet (record_retry_if_allowed E rid n kind e)"
  by (simp_all add: quiet_def performs loads reads retries)

lemma quiet_keyed [simp]:
  "quiet (store_call E (C_Acquire rid nid ow ttl (lease_key nid k)))"
  "quiet (store_call E (C_Release rid nid token (release_key nid x)))"
  "quiet (store_call E (C_Request_Approval rid why (run_approval_key nid)))"
  by (rule quiet_calls, force)+

lemma quiet_release [simp]: "quiet (call_on E (C_Release rid nid token (release_key nid x)))"
  unfolding call_on_def by (rule quiet_abind) simp_all

lemma quiet_request [simp]: "quiet (call_on E (C_Request_Approval rid why (run_approval_key nid)))"
  unfolding call_on_def by (rule quiet_abind) simp_all

lemma quiet_call_on [simp]: "own_call rid c \<Longrightarrow> quiet (call_on E c)"
  unfolding call_on_def by (rule quiet_abind) simp_all

lemma quiet_outcomes [simp]:
  "quiet (cancelled_result E sp)" "quiet (interrupted_result E sp nid)" "quiet (terminal_result E sp r)"
  using quiet_pure(7) by (simp_all add: quiet_def cancelled_result_def interrupted_result_def terminal_result_def)

lemma quiet_result_now [simp]: "quiet (\<lambda>s. make_outcome E sp st (bs_done s) msg s)"
  using quiet_pure(7) by (simp add: quiet_def)

lemma quiet_swallow: "quiet m \<Longrightarrow> quiet (swallow x m)"
  unfolding quiet_def swallow_def by (auto split: prod.split sum.split intro: fst_trans [OF refl])

lemma quiet_if_missing: "quiet m \<Longrightarrow> quiet a \<Longrightarrow> (\<And>x. quiet (f x)) \<Longrightarrow> quiet (if_missing m a f)"
  unfolding quiet_def if_missing_def by (auto split: prod.split sum.split intro: trans fst_trans [OF refl])

lemma quiet_drop_lease [simp]: "quiet (drop_lease E rid nid token (release_key nid x))"
  unfolding drop_lease_def by (rule quiet_swallow) simp

lemma quiet_acquire_node_lease: "quiet (acquire_node_lease E rid n)"
  unfolding acquire_node_lease_def
  by (intro quiet_abind) (auto split: option.split rt_value.split intro!: quiet_abind)

lemma quiet_cancel_each: "quiet (cancel_each E rid reason ns snap)"
  by (induction ns arbitrary: snap) (auto intro!: quiet_abind)

lemma quiet_fold_calls:
  "quiet m \<Longrightarrow> (\<And>i. quiet (g i)) \<Longrightarrow> quiet (foldr (\<lambda>i rest. abind (g i) (\<lambda>_. rest)) is m)"
  by (induction "is") (auto intro: quiet_abind)

lemma quiet_release_active: "quiet (release_active_lease E rid nid x)"
  unfolding release_active_lease_def by (intro quiet_abind) (auto split: option.split)

lemma quiet_apply_persisted: "quiet (apply_persisted E rid r)"
  unfolding apply_persisted_def
  by (intro quiet_swallow quiet_abind) (auto simp: quiet_release_active split: node_status.split intro!: quiet_abind)

lemma quiet_has_approval: "quiet (node_has_approval E rid nid)"
  unfolding node_has_approval_def by (rule quiet_abind) simp_all

lemma quiet_request_approvals: "quiet (request_approvals E rid nid)"
  unfolding request_approvals_def Let_def by (rule quiet_abind) auto

lemma quiet_if: "(b \<Longrightarrow> quiet m) \<Longrightarrow> (\<not> b \<Longrightarrow> quiet m') \<Longrightarrow> quiet (if b then m else m')"
  by simp

lemma quiet_fail_running: "quiet (fail_running E rid reason)"
  unfolding fail_running_def
  by (intro quiet_if_missing quiet_if quiet_swallow quiet_fold_calls) auto

end

text \<open>With the writes of files, the completion of the run and the local list of results.\<close>

locale writing_order = quiet_order E rid R
  for E :: "'w backend" and rid :: string and R :: "'w backend_state \<Rightarrow> 'w backend_state \<Rightarrow> bool" +
  assumes completes: "R s (fst (store_call E (C_Complete rid ''runtime:complete'') s))"
    and wrote: "R s (fst (write_result rid r s))"
    and pushed: "R s (s\<lparr>bs_done := rs\<rparr>)"
    and wrote_spec: "R s (fst (write_spec_manifest E sp s))"
begin

lemma quiet_writes [simp]: "quiet (write_result rid r)" "quiet (push_result r)" "quiet (write_spec_manifest E sp)"
  using wrote wrote_spec pushed by (auto simp: quiet_def push_result_def)

lemma quiet_complete [simp]: "quiet (call_on E (C_Complete rid ''runtime:complete''))"
  unfolding call_on_def by (rule quiet_abind) (simp_all add: quiet_def completes refl)

definition oquiet :: "('w, 'a) backend_run \<Rightarrow> bool" where
  "oquiet m \<longleftrightarrow> (\<forall>s s' r. m s = Some (s', r) \<longrightarrow> R s s')"

lemma oquiet_olift: "quiet m \<Longrightarrow> oquiet (olift m)"
  by (auto simp: oquiet_def olift_def dest: quietD)

lemma oquiet_obind: "oquiet m \<Longrightarrow> (\<And>x. oquiet (f x)) \<Longrightarrow> oquiet (obind m f)"
  unfolding oquiet_def obind_def by (fastforce split: option.splits prod.splits sum.splits intro: trans)

lemma oquiet_if: "oquiet m \<Longrightarrow> oquiet m' \<Longrightarrow> oquiet (if b then m else m')"
  by simp

lemma oquiet_ocatch: "oquiet m \<Longrightarrow> (\<And>e. quiet (f e)) \<Longrightarrow> oquiet (ocatch m f)"
  unfolding oquiet_def ocatch_def
  by (auto split: option.splits prod.splits sum.splits) (metis quietD trans)

lemma oquiet_ofinally: "oquiet m \<Longrightarrow> quiet c \<Longrightarrow> oquiet (ofinally m c)"
  unfolding oquiet_def ofinally_def
  by (auto split: option.splits prod.splits sum.splits) (metis quietD trans)+

lemma quiet_settle_run:
  assumes r: "sp_run_id sp = rid"
  shows "quiet (settle_run E sp r reason)"
  unfolding settle_run_def cancel_unfinished_def r
  by (auto intro!: quiet_abind quiet_cancel_each quiet_call_on)

lemma quiet_replay_node:
  assumes r: "sp_run_id sp = rid"
  shows "quiet (replay_node E sp n ready)"
  unfolding replay_node_def r
  by (auto intro!: quiet_abind quiet_if quiet_apply_persisted quiet_settle_run [OF r])

lemma quiet_admit_node:
  assumes r: "sp_run_id sp = rid"
  shows "quiet (admit_node E sp st n ready)"
  unfolding admit_node_def r Let_def
  by (auto intro!: quiet_abind quiet_if quiet_has_approval quiet_request_approvals)

lemma quiet_scan_node:
  assumes r: "sp_run_id sp = rid"
  shows "quiet (scan_node E sp current n ready)"
  unfolding scan_node_def r
  by (intro quiet_abind quiet_if quiet_if_state quiet_replay_node [OF r] quiet_admit_node [OF r]) simp_all

lemma quiet_scan_layer:
  assumes r: "sp_run_id sp = rid"
  shows "quiet (scan_layer E sp current ns ready)"
  by (induction ns arbitrary: ready) (auto intro!: quiet_abind quiet_scan_node [OF r] split: flow.split)

lemma quiet_settle_layer: "quiet (settle_layer E rid rs bad)"
  by (induction rs arbitrary: bad) (auto intro!: quiet_abind split: node_status.split)

lemma quiet_stop_run:
  assumes r: "sp_run_id sp = rid"
  shows "quiet (stop_run E sp r)"
  unfolding stop_run_def r
  by (intro quiet_abind quiet_settle_run [OF r]) simp_all

lemma quiet_load_or_create:
  assumes r: "sp_run_id sp = rid"
  shows "quiet (load_or_create E sp resuming)"
  unfolding load_or_create_def r
  by (intro quiet_if_missing quiet_if quiet_abind) (auto intro!: quiet_abind split: rt_value.split)

lemma quiet_load_results:
  assumes r: "sp_run_id sp = rid"
  shows "quiet (load_results sp ns)"
  by (induction ns) (auto intro!: quiet_abind simp: r)

end

text \<open>With the handlers.\<close>

locale backend_order = writing_order E rid R
  for E :: "'w backend" and rid :: string and R :: "'w backend_state \<Rightarrow> 'w backend_state \<Rightarrow> bool" +
  assumes handled: "be_handlers E (ns_id n) = Some h \<Longrightarrow> R s (s\<lparr>bs_world := fst (h n (bs_store s) (bs_world s))\<rparr>)"
begin

lemma attempt_respects:
  assumes "be_handlers E (ns_id n) = Some h"
  shows "R s (fst (attempt_node E rid n h s))"
proof -
  obtain w out where h: "h n (bs_store s) (bs_world s) = (w, out)" by force
  let ?s = "s\<lparr>bs_world := w\<rparr>"
  have s: "R s ?s" using handled [OF assms, of s] h by simp
  have "record_retry_if_allowed E rid n k e ?s = (s2, b) \<Longrightarrow> R s s2" for k e s2 b
    by (rule trans [OF s]) (metis retries fst_conv)
  with s show ?thesis
    by (auto simp: attempt_node_def h Let_def split: handler_outcome.split sum.split prod.split)
qed

lemma retry_respects:
  assumes "retry_loop E' rid' n h s = Some y" "E' = E" "rid' = rid" "be_handlers E (ns_id n) = Some h"
  shows "R s (fst y)"
  using assms
proof (induction rule: retry_loop.raw_induct [rotated, consumes 1, case_names step])
  case (step loop E' rid' n h s y)
  obtain s' a where a: "attempt_node E rid n h s = (s', a)" by force
  with attempt_respects [OF step.prems(3), of s] have R: "R s s'" by simp
  show ?case
  proof (cases a)
    case Again
    with step a have "R s' (fst y)" by simp
    with R show ?thesis by (rule trans)
  next
    case (Final r)
    with step a R show ?thesis by auto
  qed
qed

lemma oquiet_run_node:
  assumes "be_handlers E (ns_id n) = Some h"
  shows "oquiet (run_node E rid n h)"
proof -
  have "oquiet (retry_loop E rid n h)"
    using retry_respects [OF _ HOL.refl HOL.refl assms] by (fastforce simp: oquiet_def)
  then show ?thesis
    unfolding run_node_def
    by (auto intro!: oquiet_obind oquiet_olift oquiet_ofinally quiet_acquire_node_lease)
qed

lemma oquiet_run_ready: "oquiet (run_ready E rid ns)"
proof (induction ns)
  case (Cons n ns)
  show ?case
    unfolding run_ready.simps
    by (auto split: option.split intro!: oquiet_obind oquiet_if oquiet_run_node oquiet_olift Cons.IH)
qed (unfold run_ready.simps, rule oquiet_olift, rule quiet_pure)

lemma oquiet_run_layers:
  assumes r: "sp_run_id sp = rid"
  shows "oquiet (run_layers E sp ls)"
proof (induction ls)
  case Nil
  then show ?case unfolding run_layers.simps r by (auto intro!: oquiet_olift quiet_abind)
next
  case (Cons l ls)
  then show ?case
    unfolding run_layers.simps r
    by (auto intro!: oquiet_obind oquiet_olift quiet_abind oquiet_run_ready quiet_scan_layer [OF r] quiet_settle_layer
        quiet_stop_run [OF r] split: flow.split option.split)
qed

lemma oquiet_run_graph:
  assumes r: "sp_run_id sp = rid"
  shows "oquiet (run_graph E sp)"
  unfolding run_graph_def r
  by (intro oquiet_ocatch oquiet_obind oquiet_olift oquiet_run_layers [OF r] quiet_abind quiet_fail_running) simp_all

lemma oquiet_run_from:
  assumes "sp_run_id sp = rid"
  shows "oquiet (run_from E sp snap)"
  unfolding run_from_def assms
  by (auto intro!: oquiet_olift oquiet_obind quiet_abind quiet_load_results [OF assms] oquiet_run_graph [OF assms])

lemma execute_respects:
  assumes "execute E sp resuming s = Some (s', r)" and "sp_run_id sp = rid"
  shows "R s s'"
proof (cases "missing_handlers E sp s = []")
  case True
  have "oquiet (obind (olift (load_or_create E sp resuming)) (run_from E sp))"
    by (intro oquiet_obind oquiet_olift quiet_load_or_create oquiet_run_from assms(2))
  with assms(1) True have "R (s\<lparr>bs_done := []\<rparr>) s'" by (simp add: oquiet_def execute_def)
  with pushed show ?thesis by (rule trans)
next
  case False
  with assms(1) show ?thesis by (simp add: execute_def refl)
qed

end

section \<open>Run graphs: executions as calls of the runtime\<close>

text \<open>
  An execution changes the store by calls of the runtime only, never forgets a persisted result, and
  leaves the list of results to the code that fills it.
\<close>

subsection \<open>The store\<close>

lemma store_call_store: "bs_store (fst (store_call E c s)) =
    exec_call (be_digests E) c (fst (snd (be_clock E (bs_world s)))) (snd (snd (be_clock E (bs_world s)))) (bs_store s)"
  by (simp add: store_call_def exec_call_def split: prod.splits)

lemma load_run_store: "bs_store (fst (load_run E rid s)) = exec_call (be_digests E) (C_Load rid) t u (bs_store s)"
  by (simp add: load_run_def exec_call_def got_def split: prod.splits)

lemma load_events_store: "bs_store (fst (load_events E rid s)) = exec_call (be_digests E) (C_Events rid) t u (bs_store s)"
  by (simp add: load_events_def exec_call_def got_def split: prod.splits)

lemma rt_later_call: "rt_later D st (exec_call D c t u st)"
  by (rule rt_later.later [OF rt_later.now rt_step.call])

lemma rt_later_trans: "rt_later D st st' \<Longrightarrow> rt_later D st' st'' \<Longrightarrow> rt_later D st st''"
  by (rotate_tac, induction rule: rt_later.induct) (auto intro: rt_later.later)

lemma fst_abind_return [simp]: "fst (abind m (\<lambda>_. areturn x) s) = fst (m s)"
  by (simp add: abind_def split: prod.split sum.split)

text \<open>What a retry does: nothing, or a call that is recorded.\<close>

lemma record_retry_cases:
  fixes E :: "'w backend"
  assumes refl: "\<And>s. R s s" and trans: "\<And>s t u. R s t \<Longrightarrow> R t u \<Longrightarrow> R s u"
    and loads: "\<And>s. R s (fst (load_run E rid s))"
    and retry: "\<And>cls why base mx k s. R s (fst (store_call E (C_Retry rid (ns_id n) cls why base mx (retry_key (ns_id n) k)) s))"
  shows "R s (fst (record_retry_if_allowed E rid n kind e s))"
proof -
  have "R s (fst (abind (load_run E rid) f s))" if "\<And>x s. R s (fst (f x s))" for f :: "run_snapshot \<Rightarrow> ('w, bool) backend_action" and s
    using that loads [of s] by (auto simp: abind_def split: prod.split sum.split intro: trans)
  moreover have "R s (fst (abind (store_call E (C_Retry rid (ns_id n) cls why base mx (retry_key (ns_id n) k))) (\<lambda>_. areturn True) s))"
    for cls why base mx k s
    using retry [of s cls why base mx k] by simp
  ultimately show ?thesis
    unfolding record_retry_if_allowed_def Let_def
    by (auto simp: refl node_in_def abind_def [of "alift _"] split: option.split sum.split)
qed

interpretation calls_made: backend_order E rid "\<lambda>s s'. rt_later (be_digests E) (bs_store s) (bs_store s')" for E rid
proof unfold_locales
  show "rt_later (be_digests E) (bs_store s) (bs_store (fst (record_retry_if_allowed E rid n kind e s)))" for s n kind e
    by (rule record_retry_cases)
      (auto simp: store_call_store load_run_store [where t = 0 and u = 0] intro: rt_later.now rt_later_trans rt_later_call)
qed (auto simp: store_call_store load_run_store [where t = 0 and u = 0] load_events_store [where t = 0 and u = 0]
    write_result_def write_spec_manifest_def intro: rt_later.now rt_later_trans rt_later_call)

subsection \<open>The files and the list of results\<close>

lemma calls_leave_files [simp]:
  "bs_results (fst (store_call E c s)) = bs_results s" "bs_done (fst (store_call E c s)) = bs_done s"
  "bs_results (fst (load_run E rid s)) = bs_results s" "bs_done (fst (load_run E rid s)) = bs_done s"
  "bs_results (fst (load_events E rid s)) = bs_results s" "bs_done (fst (load_events E rid s)) = bs_done s"
  by (simp_all add: store_call_def load_run_def load_events_def split: prod.splits)

interpretation files_kept: quiet_order E rid "\<lambda>s s'. bs_results s' = bs_results s \<and> bs_done s' = bs_done s" for E rid
proof unfold_locales
  show "bs_results (fst (record_retry_if_allowed E rid n kind e s)) = bs_results s \<and>
      bs_done (fst (record_retry_if_allowed E rid n kind e s)) = bs_done s" for s n kind e
    by (rule record_retry_cases [where R = "\<lambda>s s'. bs_results s' = bs_results s \<and> bs_done s' = bs_done s"]) auto
qed auto

interpretation results_stay: backend_order E rid "\<lambda>s s'. dom (bs_results s) \<subseteq> dom (bs_results s')" for E rid
proof unfold_locales
  show "dom (bs_results s) \<subseteq> dom (bs_results (fst (record_retry_if_allowed E rid n kind e s)))" for s n kind e
    by (rule record_retry_cases [where R = "\<lambda>s s'. dom (bs_results s) \<subseteq> dom (bs_results s')"]) auto
qed (auto simp: write_result_def write_spec_manifest_def)

text \<open>
  Composition with the runtime: whatever the handlers do and however an execution ends, the store it
  leaves is one that calls of the runtime (and nothing else) lead to, and no persisted result is lost.
\<close>

theorem execution_is_calls:
  assumes "execute E sp resuming s = Some (s', r)"
  shows "rt_later (be_digests E) (bs_store s) (bs_store s') \<and> dom (bs_results s) \<subseteq> dom (bs_results s')"
  using calls_made.execute_respects [OF assms refl] results_stay.execute_respects [OF assms refl] by blast

end
