(* ===== verification/Run_Ready.thy ===== *)
theory Run_Ready
  imports Run_Steps
begin

section \<open>Run graphs: when a handler runs\<close>

text \<open>
  An execution is watched through handlers that note the node they are called for and the store at that
  moment.  A handler runs only for a node whose dependencies have succeeded and that had no result before;
  a node that requires an approval runs with one, unless it was found failed, paused or waiting.
\<close>

subsection \<open>Watched executions\<close>

type_synonym handler_call = "node_spec \<times> store"

definition watch_handler :: "'w node_handler \<Rightarrow> ('w \<times> handler_call list) node_handler" where
  "watch_handler h n st = (\<lambda>(w, l). case h n st w of (w', out) \<Rightarrow> ((w', l @ [(n, st)]), out))"

definition observed :: "'w backend \<Rightarrow> ('w \<times> handler_call list) backend" where
  "observed E = \<lparr>be_digests = be_digests E, be_spec_digest = be_spec_digest E,
     be_clock = (\<lambda>(w, l). case be_clock E w of (w', t, u) \<Rightarrow> ((w', l), t, u)),
     be_environment = be_environment E, be_git = be_git E,
     be_handlers = (\<lambda>i. map_option watch_handler (be_handlers E i)), be_error_text = be_error_text E\<rparr>"

lemma observed_digests [simp]: "be_digests (observed E) = be_digests E"
  by (simp add: observed_def)

definition seen :: "('w \<times> handler_call list) backend_state \<Rightarrow> handler_call list" where
  "seen s = snd (bs_world s)"

lemma seen_calls [simp]:
  "seen (fst (store_call (observed E) c s)) = seen s" "seen (fst (load_run F rid s)) = seen s"
  "seen (fst (load_events F rid s)) = seen s" "seen (s\<lparr>bs_done := rs\<rparr>) = seen s"
  by (auto simp: seen_def store_call_def load_run_def load_events_def observed_def split: prod.splits)

text \<open>Time goes on, results stay, and no handler has run.\<close>

definition onward :: "digests \<Rightarrow> ('w \<times> handler_call list) backend_state \<Rightarrow> ('w \<times> handler_call list) backend_state \<Rightarrow> bool" where
  "onward D s s' \<longleftrightarrow> rt_later D (bs_store s) (bs_store s') \<and> dom (bs_results s) \<subseteq> dom (bs_results s') \<and> seen s' = seen s"

lemma unseen_refl: "onward D s s"
  by (simp add: onward_def rt_later.now)

lemma unseen_trans: "onward D s t \<Longrightarrow> onward D t u \<Longrightarrow> onward D s u"
  by (auto simp: onward_def intro: rt_later_trans)

lemma onward_steps:
  "onward (be_digests E) s (fst (store_call (observed E) c s))" "onward (be_digests E) s (fst (load_run (observed E) rid s))"
  "onward (be_digests E) s (fst (load_events (observed E) rid s))"
  by (simp_all add: onward_def store_call_store load_run_store [where t = 0 and u = 0]
      load_events_store [where t = 0 and u = 0] rt_later_call)

lemma onward_writes:
  "onward D s (fst (write_result rid r s))" "onward D s (s\<lparr>bs_done := rs\<rparr>)" "onward D s (fst (write_spec_manifest F sp s))"
  by (auto simp: onward_def write_result_def write_spec_manifest_def seen_def rt_later.now)

interpretation unseen: writing_order "observed E" rid "onward (be_digests E)" for E rid
proof unfold_locales
  show "onward (be_digests E) s (fst (record_retry_if_allowed (observed E) rid n kind e s))" for s n kind e
    by (rule record_retry_cases) (auto intro: unseen_refl unseen_trans onward_steps)
qed (auto intro: unseen_refl unseen_trans onward_steps onward_writes)

subsection \<open>Inversions\<close>

lemma abind_Inr_iff [result_simps]: "abind m f s = (s', Inr x) \<longleftrightarrow> (\<exists>t y. m s = (t, Inr y) \<and> f y t = (s', Inr x))"
  by (auto simp: abind_def split: prod.splits sum.splits)

lemma obind_cases:
  assumes "obind m f s = Some (s', r)"
  obtains (raises) e where "m s = Some (s', Inl e)" "r = Inl e"
    | (returns) t x where "m s = Some (t, Inr x)" "f x t = Some (s', r)"
  using assms by (auto simp: obind_def split: option.splits prod.splits sum.splits)

lemma olift_Some [simp]: "olift m s = Some y \<longleftrightarrow> m s = y"
  by (simp add: olift_def)

lemma contract_Inr [result_simps]: "contract r s = (s', Inr x) \<longleftrightarrow> s' = s \<and> r = Inr x"
  by (cases r) (auto simp: contract_def)

lemma node_in_Inr [result_simps]: "node_in snap i s = (s', Inr x) \<longleftrightarrow> s' = s \<and> map_of (rs_nodes snap) i = Some x"
  by (auto simp: node_in_def find_node_def split: option.splits)

lemma flow_onward [result_simps]:
  "(case f of Onward a \<Rightarrow> g a | Outcome rr \<Rightarrow> areturn (Outcome rr)) s = (s', Inr (Onward b)) \<longleftrightarrow>
     (\<exists>a. f = Onward a \<and> g a s = (s', Inr (Onward b)))"
  by (cases f) simp_all

subsection \<open>What admission establishes\<close>

definition dependencies_done :: "digests \<Rightarrow> string \<Rightarrow> store \<Rightarrow> node_spec \<Rightarrow> bool" where
  "dependencies_done D rid st n \<longleftrightarrow> (\<exists>snap. run_in D st rid = Some snap \<and>
     (\<forall>d\<in>set (ns_dependencies n). \<exists>x. map_of (rs_nodes snap) d = Some x \<and> n_state x = N_Succeeded))"

definition approved_in :: "store \<Rightarrow> string \<Rightarrow> string \<Rightarrow> bool" where
  "approved_in st rid nid \<longleftrightarrow> (\<exists>e. Line e \<in> set (event_log st rid) \<and> approval_event nid e)"

text \<open>Between two stores the node was failed, paused or waiting.\<close>

definition left_the_path :: "digests \<Rightarrow> string \<Rightarrow> string \<Rightarrow> store \<Rightarrow> store \<Rightarrow> bool" where
  "left_the_path D rid nid st st' \<longleftrightarrow> (\<exists>st1 snap x. rt_later D st st1 \<and> rt_later D st1 st' \<and> run_in D st1 rid = Some snap \<and>
     map_of (rs_nodes snap) nid = Some x \<and> n_state x \<in> {N_Failed, N_Paused, N_Waiting})"

definition admitted :: "digests \<Rightarrow> string \<Rightarrow> store \<Rightarrow> node_spec \<Rightarrow> store \<Rightarrow> bool" where
  "admitted D rid st0 n st \<longleftrightarrow> rt_later D st0 st \<and> dependencies_done D rid st n \<and>
     (ns_approval n \<longrightarrow> approved_in st rid (ns_id n) \<or> left_the_path D rid (ns_id n) st0 st)"

lemma log_grows: "rt_later D st st' \<Longrightarrow> rt_reachable D st \<Longrightarrow> set (event_log st rid) \<subseteq> set (event_log st' rid)"
proof (induction rule: rt_later.induct)
  case (later st st' st'')
  have "rt_reachable D st'" by (rule rt_later_reachable) fact+
  from event_log_append_only [OF this later.hyps(2), of rid] later show ?case by auto
qed simp

lemma dependencies_done_later:
  assumes "dependencies_done D rid st n" and "rt_later D st st'" and "rt_reachable D st"
  shows "dependencies_done D rid st' n"
proof -
  from assms(1) obtain snap where snap: "run_in D st rid = Some snap"
    "\<And>d. d \<in> set (ns_dependencies n) \<Longrightarrow> \<exists>x. map_of (rs_nodes snap) d = Some x \<and> n_state x = N_Succeeded"
    by (auto simp: dependencies_done_def)
  from later_grows [OF assms(2,3) snap(1)] obtain snap' where
    snap': "run_in D st' rid = Some snap'" "nodes_move (rs_nodes snap) (rs_nodes snap')"
    by (auto simp: run_grows_def)
  have "\<exists>x. map_of (rs_nodes snap') d = Some x \<and> n_state x = N_Succeeded" if "d \<in> set (ns_dependencies n)" for d
    using snap(2) [OF that] snap'(2) node_life.moves_terminal [of N_Succeeded]
    by (fastforce simp: nodes_move_def terminal_node_def)
  with snap'(1) show ?thesis by (auto simp: dependencies_done_def)
qed

lemma admitted_later:
  assumes "admitted D rid st0 n st" and "rt_later D st st'" and "rt_reachable D st0"
  shows "admitted D rid st0 n st'"
proof -
  from assms(1,3) have "rt_reachable D st" by (auto simp: admitted_def intro: rt_later_reachable)
  with assms log_grows [OF assms(2), of rid] dependencies_done_later [OF _ assms(2)] show ?thesis
    by (auto simp: admitted_def approved_in_def left_the_path_def intro: rt_later_trans)
qed

lemma load_run_Inr:
  assumes "load_run E rid s = (s', Inr snap)" and "rt_reachable (be_digests E) (bs_store s)"
  shows "run_in (be_digests E) (bs_store s) rid = Some snap"
proof -
  from assms(1) have ok: "snd (load (be_digests E) rid (bs_store s)) = Inr snap"
    by (cases "snd (load (be_digests E) rid (bs_store s))") (auto simp: load_run_def split: prod.splits)
  then have "valid_id rid" by (auto simp: load_def split: if_splits)
  from load_run_in [OF reachable_ok [OF assms(2)] this] ok show ?thesis by (simp split: option.splits)
qed

lemma has_approval_Inr:
  assumes "node_has_approval E rid nid s = (s', Inr True)"
  shows "approved_in (bs_store s') rid nid"
proof -
  from assms obtain es where l: "load_events E rid s = (s', Inr es)" and e: "list_ex (approval_event nid) es"
    by (auto simp: node_has_approval_def result_simps)
  then have ev: "events (be_digests E) rid (bs_store s) = (bs_store s', Inr es)"
    by (cases "events (be_digests E) rid (bs_store s)"; cases "snd (events (be_digests E) rid (bs_store s))")
      (auto simp: load_events_def)
  then obtain d where "bs_store s rid = Some d" "read_events (be_digests E) rid d = Inr es" "bs_store s' = (bs_store s)(rid \<mapsto> d)"
    by (auto simp: events_def with_lock_def split: if_splits option.splits)
  with e show ?thesis
    by (auto simp: approved_in_def event_log_def dir_of_def read_events_def list_ex_iff read_lines_iff split: option.splits)
qed

lemma dependencies_met_Inr:
  assumes "dependencies_met snap n s = (s', Inr True)" and "d \<in> set (ns_dependencies n)"
  shows "\<exists>x. map_of (rs_nodes snap) d = Some x \<and> n_state x = N_Succeeded"
proof -
  let ?f = "\<lambda>d ok. if ok then rbind (find_node snap d) (\<lambda>x. Inr (n_state x = N_Succeeded)) else Inr False"
  have "rfold ?f ds ok = Inr True \<Longrightarrow> ok \<and> (\<forall>d\<in>set ds. \<exists>x. map_of (rs_nodes snap) d = Some x \<and> n_state x = N_Succeeded)"
    for ds ok
    by (induction ds arbitrary: ok) (auto simp: rbind_eq_Inr find_node_def split: if_splits option.splits)
  moreover from assms(1) have "rfold ?f (ns_dependencies n) True = Inr True"
    by (cases "rfold ?f (ns_dependencies n) True") (auto simp: dependencies_met_def)
  ultimately show ?thesis using assms(2) by blast
qed

subsection \<open>The scan of a layer\<close>

text \<open>
  The scan admits nodes that are not yet settled: \<open>current\<close> is the run as it was at a store \<open>st\<close> before.
\<close>

lemma admit_node_admits:
  assumes "admit_node (observed E) sp (n_state x) n ready s = (s', Inr (Onward ready'))"
    and D: "D = be_digests E" "rid = sp_run_id sp"
    and "rt_reachable D st0" "rt_later D st0 st" "rt_later D st (bs_store s)"
    and "run_in D st rid = Some current" "map_of (rs_nodes current) (ns_id n) = Some x"
    and "dependencies_done D rid st n" "n_state x \<notin> {N_Succeeded, N_Cancelled, N_Awaiting_Approval}"
  shows "ready' = ready @ [n] \<and> admitted D rid st0 n (bs_store s')"
proof -
  have reach: "rt_reachable D st" using assms(4,5) by (rule rt_later_reachable [rotated])
  have "unseen.quiet E (admit_node (observed E) sp (n_state x) n ready)"
    by (rule unseen.quiet_admit_node [OF refl])
  from unseen.quietD [OF this assms(1)] have on: "rt_later D (bs_store s) (bs_store s')"
    by (simp add: onward_def D)
  have "dependencies_done D rid (bs_store s') n"
    by (rule dependencies_done_later [OF assms(9) _ reach]) (rule rt_later_trans [OF assms(6) on])
  moreover have "rt_later D st0 (bs_store s')" using assms(5,6) on by (blast intro: rt_later_trans)
  moreover have "approved_in (bs_store s') rid (ns_id n) \<or> left_the_path D rid (ns_id n) st0 (bs_store s')" if "ns_approval n"
  proof (cases "n_state x \<in> {N_Pending, N_Running}")
    case True
    with assms(1) that obtain s1 where s1: "node_has_approval (observed E) rid (ns_id n) s1 = (s', Inr True)"
      by (auto simp: admit_node_def Let_def result_simps D split: if_splits)
    from has_approval_Inr [OF s1] show ?thesis by blast
  next
    case False
    then have "n_state x \<in> {N_Failed, N_Paused, N_Waiting}" using assms(10) by (cases "n_state x") auto
    with assms(5-8) on show ?thesis unfolding left_the_path_def by (blast intro: rt_later_trans)
  qed
  moreover have "ready' = ready @ [n]"
    using assms(1) by (auto simp: admit_node_def Let_def result_simps split: if_splits)
  ultimately show ?thesis by (simp add: admitted_def)
qed

text \<open>A node that the scan adds to the ready ones is admitted and had no result.\<close>

lemma scan_node_admits:
  assumes "scan_node (observed E) sp current n ready s = (s', Inr (Onward ready'))"
    and D: "D = be_digests E" "rid = sp_run_id sp"
    and "rt_reachable D st0" "rt_later D st0 st" "rt_later D st (bs_store s)" "run_in D st rid = Some current"
  shows "ready' = ready \<or> ready' = ready @ [n] \<and> admitted D rid st0 n (bs_store s') \<and> \<not> has_result s rid (ns_id n)"
proof -
  from assms(1) obtain x where x: "map_of (rs_nodes current) (ns_id n) = Some x"
    by (auto simp: scan_node_def result_simps)
  show ?thesis
  proof (cases "n_state x \<in> {N_Succeeded, N_Cancelled, N_Awaiting_Approval} \<or> has_result s rid (ns_id n)")
    case True
    with assms(1) x show ?thesis
      by (auto simp: scan_node_def result_simps replay_node_def D split: if_splits)
  next
    case False
    with assms(1) x have a: "admit_node (observed E) sp (n_state x) n ready s = (s', Inr (Onward ready'))"
      and m: "dependencies_met current n s = (s, Inr True)"
      by (auto simp: scan_node_def result_simps D dependencies_met_def split: if_splits)
    have "dependencies_done D rid st n"
      unfolding dependencies_done_def using assms(7) dependencies_met_Inr [OF m] by blast
    from admit_node_admits [OF a D assms(4-7) x this] False show ?thesis by simp
  qed
qed

lemma has_result_dom: "has_result s rid i \<longleftrightarrow> (rid, i) \<in> dom (bs_results s)"
  by (auto simp: has_result_def)

lemma scan_layer_admits:
  assumes "scan_layer (observed E) sp current ns ready s = (s', Inr (Onward ready'))"
    and D: "D = be_digests E" "rid = sp_run_id sp"
    and "rt_reachable D st0" "rt_later D st0 st" "rt_later D st (bs_store s)" "run_in D st rid = Some current"
  shows "\<forall>n\<in>set ready' - set ready. n \<in> set ns \<and> admitted D rid st0 n (bs_store s') \<and> \<not> has_result s rid (ns_id n)"
  using assms(1,6)
proof (induction ns arbitrary: ready s)
  case (Cons n ns)
  from Cons.prems(1) obtain t mid where
    n: "scan_node (observed E) sp current n ready s = (t, Inr (Onward mid))"
    and ns: "scan_layer (observed E) sp current ns mid t = (s', Inr (Onward ready'))"
    by (auto simp: result_simps)
  have "onward D s t"
    using unseen.quietD [OF unseen.quiet_scan_node [OF refl] n] by (simp add: D)
  moreover have "onward D t s'"
    using unseen.quietD [OF unseen.quiet_scan_layer [OF refl] ns] by (simp add: D)
  ultimately have on: "rt_later D (bs_store t) (bs_store s')" "rt_later D (bs_store s) (bs_store t)"
    and files: "has_result s rid i \<Longrightarrow> has_result t rid i" for i
    by (auto simp: onward_def has_result_dom)
  note IH = Cons.IH [OF ns rt_later_trans [OF Cons.prems(2) on(2)]]
  from scan_node_admits [OF n D assms(4,5) Cons.prems(2) assms(7)]
  have "mid = ready \<or> mid = ready @ [n] \<and> admitted D rid st0 n (bs_store s') \<and> \<not> has_result s rid (ns_id n)"
    using admitted_later [OF _ on(1) assms(4)] by blast
  with IH files show ?case by (fastforce simp: subset_iff)
qed simp

subsection \<open>The handlers of a layer\<close>

text \<open>What a part of an execution may add to the calls seen.\<close>

definition adds :: "digests \<Rightarrow> (handler_call \<Rightarrow> bool) \<Rightarrow> ('w \<times> handler_call list) backend_state
    \<Rightarrow> ('w \<times> handler_call list) backend_state \<Rightarrow> bool" where
  "adds D P s s' \<longleftrightarrow> rt_later D (bs_store s) (bs_store s') \<and> dom (bs_results s) \<subseteq> dom (bs_results s') \<and>
     (\<exists>new. seen s' = seen s @ new \<and> list_all P new)"

lemma adds_onward: "onward D s s' \<Longrightarrow> adds D P s s'"
  by (auto simp: onward_def adds_def)

lemma quiet_onward: "unseen.quiet E m \<Longrightarrow> olift m s = Some (s', r) \<Longrightarrow> onward (be_digests E) s s'"
  by (simp add: unseen.quietD)

lemma quiet_adds: "unseen.quiet E m \<Longrightarrow> olift m s = Some (s', r) \<Longrightarrow> adds (be_digests E) P s s'"
  by (rule adds_onward) (rule quiet_onward)

lemma adds_trans: "adds D P s t \<Longrightarrow> adds D P t u \<Longrightarrow> adds D P s u"
  by (auto simp: adds_def intro: rt_later_trans)

lemma adds_mono: "adds D P s t \<Longrightarrow> (\<And>c. P c \<Longrightarrow> Q c) \<Longrightarrow> adds D Q s t"
  by (auto simp: adds_def list_all_iff)

lemma attempt_adds:
  assumes "attempt_node (observed E) rid n (watch_handler h) s = (s', a)" and "P (n, bs_store s)"
  shows "adds (be_digests E) P s s'"
proof -
  obtain w l where wl: "bs_world s = (w, l)" by force
  obtain w' out where h: "h n (bs_store s) w = (w', out)" by force
  let ?s = "s\<lparr>bs_world := (w', l @ [(n, bs_store s)])\<rparr>"
  have s: "adds (be_digests E) P s ?s"
    using assms(2) wl by (auto simp: adds_def seen_def rt_later.now)
  have "adds (be_digests E) P s s2" if "record_retry_if_allowed (observed E) rid n k e ?s = (s2, b)" for k e s2 b
    by (rule adds_trans [OF s adds_onward [OF unseen.quietD [OF unseen.quiet_calls(4) that]]])
  with s assms(1) show ?thesis
    by (auto simp: attempt_node_def watch_handler_def wl h Let_def split: handler_outcome.splits sum.splits prod.splits if_splits)
qed

lemma retry_adds:
  assumes "retry_loop F rid n g s = Some y" "F = observed E" "g = watch_handler h"
    and "\<And>st. rt_later (be_digests E) (bs_store s) st \<Longrightarrow> P (n, st)"
  shows "adds (be_digests E) P s (fst y)"
  using assms
proof (induction rule: retry_loop.raw_induct [rotated, consumes 1, case_names step])
  case (step loop F rid n g s y)
  obtain t a where a: "attempt_node F rid n g s = (t, a)" by force
  with step.prems have t: "adds (be_digests E) P s t" by (auto intro: attempt_adds rt_later.now)
  show ?case
  proof (cases a)
    case Again
    with step.hyps a have "loop F rid n g t = Some y" by simp
    from step.IH [OF this step.prems(1,2)] step.prems(3) t have "adds (be_digests E) P t (fst y)"
      by (auto simp: adds_def intro: rt_later_trans)
    with t show ?thesis by (rule adds_trans)
  next
    case (Final r)
    with step.hyps a t show ?thesis by auto
  qed
qed

lemma run_node_adds:
  assumes "run_node (observed E) rid n (watch_handler h) s = Some (s', r)"
    and "\<And>st. rt_later (be_digests E) (bs_store s) st \<Longrightarrow> P (n, st)"
  shows "adds (be_digests E) P s s'"
  using assms(1) unfolding run_node_def
proof (cases rule: obind_cases)
  case (raises e)
  then have "acquire_node_lease (observed E) rid n s = (s', Inl e)" by simp
  from adds_onward [OF unseen.quietD [OF unseen.quiet_acquire_node_lease this]] show ?thesis .
next
  case (returns t l)
  then have s: "onward (be_digests E) s t" using unseen.quietD [OF unseen.quiet_acquire_node_lease] by auto
  from returns(2) obtain u q where u: "retry_loop (observed E) rid n (watch_handler h) t = Some (u, q)"
    and "fst (drop_lease (observed E) rid (ns_id n) (l_token l) (release_key (ns_id n) (l_token l)) u) = s'"
    by (auto simp: ofinally_def split: option.splits prod.splits sum.splits)
  then have d: "onward (be_digests E) u s'"
    using unseen.quiet_drop_lease [unfolded unseen.quiet_def] by blast
  have "adds (be_digests E) P t u"
    using retry_adds [OF u refl refl, where P = P] assms(2) s by (auto simp: onward_def intro: rt_later_trans)
  with s d show ?thesis by (blast intro: adds_trans adds_onward)
qed

lemma run_ready_adds:
  assumes "run_ready (observed E) rid ns s = Some (s', r)"
    and "\<And>n st. n \<in> set ns \<Longrightarrow> rt_later (be_digests E) (bs_store s) st \<Longrightarrow> P (n, st)"
  shows "adds (be_digests E) P s s'"
  using assms
proof (induction ns arbitrary: s r)
  case Nil
  then show ?case by (auto intro: adds_onward unseen_refl)
next
  case (Cons n ns)
  show ?case
  proof (cases "be_handlers E (ns_id n)")
    case None
    with Cons.prems(1) show ?thesis by (auto simp: observed_def intro: adds_onward unseen_refl)
  next
    case (Some h)
    then have "be_handlers (observed E) (ns_id n) = Some (watch_handler h)" by (simp add: observed_def)
    with Cons.prems(1) have "obind (run_node (observed E) rid n (watch_handler h)) (\<lambda>r. if nr_status r \<noteq> Node_OK
        then olift (areturn [(n, r)]) else obind (run_ready (observed E) rid ns) (\<lambda>rs. olift (areturn ((n, r) # rs)))) s
        = Some (s', r)" by simp
    then show ?thesis
    proof (cases rule: obind_cases)
      case (raises e)
      with Cons.prems(2) show ?thesis by (auto intro: run_node_adds)
    next
      case (returns t x)
      with Cons.prems(2) have t: "adds (be_digests E) P s t" by (auto intro: run_node_adds)
      have later: "\<And>m st. m \<in> set ns \<Longrightarrow> rt_later (be_digests E) (bs_store t) st \<Longrightarrow> P (m, st)"
        using Cons.prems(2) t by (auto simp: adds_def intro: rt_later_trans)
      show ?thesis
      proof (cases "nr_status x = Node_OK")
        case True
        with returns(2) have "obind (run_ready (observed E) rid ns) (\<lambda>rs. olift (areturn ((n, x) # rs))) t = Some (s', r)"
          by simp
        then obtain q where "run_ready (observed E) rid ns t = Some (s', q)"
          by (cases rule: obind_cases) auto
        from adds_trans [OF t Cons.IH [OF this later]] show ?thesis .
      next
        case False
        with returns(2) t show ?thesis by simp
      qed
    qed
  qed
qed

subsection \<open>Executions\<close>

text \<open>What holds of every handler call of an execution that began in \<open>s0\<close>.\<close>

definition ready_call :: "digests \<Rightarrow> run_spec \<Rightarrow> 'w backend_state \<Rightarrow> handler_call \<Rightarrow> bool" where
  "ready_call D sp s0 = (\<lambda>(n, st). n \<in> set (sp_nodes sp) \<and> \<not> has_result s0 (sp_run_id sp) (ns_id n) \<and>
     admitted D (sp_run_id sp) (bs_store s0) n st)"

lemma layers_subset: "layers_from met rest = Inr ls \<Longrightarrow> set (concat ls) \<subseteq> set rest"
proof (induction met rest arbitrary: ls rule: layers_from.induct)
  case (1 met rest)
  show ?case
  proof (cases "rest = []")
    case False
    let ?ready = "filter (ready_in met) rest"
    from "1.prems" False obtain ls' where ready: "?ready \<noteq> []" and ls: "ls = ?ready # ls'"
      "layers_from (met @ map ns_id ?ready) (filter (\<lambda>n. \<not> ready_in met n) rest) = Inr ls'"
      by (auto simp: layers_from.simps [of met rest] Let_def rbind_eq_Inr split: if_splits)
    from "1.IH" [OF False refl ready ls(2)] ls(1) show ?thesis by auto
  qed (use "1.prems" in \<open>simp add: layers_from.simps\<close>)
qed

text \<open>The results of a layer are settled, and the layers that follow run.\<close>

lemma settle_adds:
  assumes "obind (olift (settle_layer (observed E) rid rs None)) (\<lambda>bad. case bad of
      None \<Rightarrow> run_layers (observed E) sp ls | Some b \<Rightarrow> olift (stop_run (observed E) sp b)) v = Some (s', r)"
    and rest: "\<And>w r. run_layers (observed E) sp ls w = Some (s', r) \<Longrightarrow> onward (be_digests E) v w \<Longrightarrow>
      adds (be_digests E) P w s'"
  shows "adds (be_digests E) P v s'"
  using assms(1)
proof (cases rule: obind_cases)
  case (raises e)
  from unseen.quiet_settle_layer raises(1) show ?thesis by (rule quiet_adds)
next
  case (returns w bad)
  from unseen.quiet_settle_layer returns(1) have w: "onward (be_digests E) v w" by (rule quiet_onward)
  have "adds (be_digests E) P w s'"
  proof (cases bad)
    case None
    with returns(2) w show ?thesis by (auto intro: rest)
  next
    case (Some b)
    with returns(2) have "olift (stop_run (observed E) sp b) w = Some (s', r)" by simp
    with unseen.quiet_stop_run [OF refl] show ?thesis by (rule quiet_adds)
  qed
  with adds_onward [OF w] show ?thesis by (rule adds_trans)
qed

text \<open>What the scan of a layer in an execution since \<open>s0\<close> admits is ready from then on.\<close>

lemma scan_ready:
  assumes "abind (load_run (observed E) (sp_run_id sp)) (\<lambda>current. scan_layer (observed E) sp current l []) s = (t, Inr (Onward ready))"
    and D: "D = be_digests E" and reach: "rt_reachable D (bs_store s0)" and "set l \<subseteq> set (sp_nodes sp)"
    and "rt_later D (bs_store s0) (bs_store s)" "dom (bs_results s0) \<subseteq> dom (bs_results s)"
    and "n \<in> set ready" "rt_later D (bs_store t) st"
  shows "ready_call D sp s0 (n, st)"
proof -
  let ?rid = "sp_run_id sp"
  from assms(1) obtain current u where load: "load_run (observed E) ?rid s = (u, Inr current)"
    and nodes: "scan_layer (observed E) sp current l [] u = (t, Inr (Onward ready))"
    by (auto simp: result_simps)
  have "rt_reachable D (bs_store s)" by (rule rt_later_reachable [OF assms(5) reach])
  then have current: "run_in D (bs_store s) ?rid = Some current"
    using load_run_Inr [OF load] by (simp add: D)
  have u: "onward D s u" using unseen.quietD [OF unseen.quiet_calls(2) load] by (simp add: D)
  then have "rt_later D (bs_store s) (bs_store u)" by (simp add: onward_def)
  from scan_layer_admits [OF nodes D refl reach assms(5) this current] assms(7)
  have "n \<in> set l" "admitted D ?rid (bs_store s0) n (bs_store t)" "\<not> has_result u ?rid (ns_id n)" by auto
  moreover from u assms(6) this(3) have "\<not> has_result s0 ?rid (ns_id n)"
    unfolding onward_def has_result_dom by blast
  ultimately show ?thesis
    using admitted_later [OF _ assms(8) reach] assms(4) by (auto simp: ready_call_def)
qed

lemma run_layers_adds:
  assumes "run_layers (observed E) sp ls s = Some (s', r)" and "set (concat ls) \<subseteq> set (sp_nodes sp)"
    and D: "D = be_digests E" and reach: "rt_reachable D (bs_store s0)"
    and "rt_later D (bs_store s0) (bs_store s)" "dom (bs_results s0) \<subseteq> dom (bs_results s)"
  shows "adds D (ready_call D sp s0) s s'"
  using assms(1,2,5,6)
proof (induction ls arbitrary: s r)
  case Nil
  have "unseen.quiet E (abind (call_on (observed E) (C_Complete (sp_run_id sp) ''runtime:complete''))
      (\<lambda>_ s. make_outcome (observed E) sp Run_OK (bs_done s) None s))"
    by (intro unseen.quiet_abind unseen.quiet_complete unseen.quiet_result_now)
  from quiet_adds [OF this] Nil.prems(1) show ?case by (simp add: D)
next
  case (Cons l ls)
  let ?rid = "sp_run_id sp"
  let ?scan = "abind (load_run (observed E) ?rid) (\<lambda>current. scan_layer (observed E) sp current l [])"
  let ?settle = "\<lambda>rs. obind (olift (settle_layer (observed E) ?rid rs None)) (\<lambda>bad. case bad of
      None \<Rightarrow> run_layers (observed E) sp ls | Some b \<Rightarrow> olift (stop_run (observed E) sp b))"
  have quiet: "unseen.quiet E ?scan"
    by (intro unseen.quiet_abind unseen.quiet_calls(2) unseen.quiet_scan_layer [OF refl])
  from Cons.prems(1) show ?case unfolding run_layers.simps
  proof (cases rule: obind_cases)
    case (raises e)
    from quiet_adds [OF quiet raises(1)] show ?thesis by (simp add: D)
  next
    case (returns t f)
    then have s: "onward D s t" using quiet_onward [OF quiet] by (simp add: D)
    show ?thesis
    proof (cases f)
      case (Outcome rr)
      with returns(2) s show ?thesis by (auto intro: adds_onward)
    next
      case (Onward ready)
      with returns(1) have scan: "?scan s = (t, Inr (Onward ready))" by simp
      have ok: "ready_call D sp s0 (n, st)" if "n \<in> set ready" "rt_later D (bs_store t) st" for n st
        using scan_ready [OF scan D reach _ Cons.prems(3,4) that] Cons.prems(2) by simp
      have ran: "adds D (ready_call D sp s0) s v" if "run_ready (observed E) ?rid ready t = Some (v, q)" for v q
        using run_ready_adds [OF that, of "ready_call D sp s0"] ok s by (auto simp: D intro: adds_trans adds_onward)
      from returns(2) Onward have "obind (run_ready (observed E) ?rid ready) ?settle t = Some (s', r)" by simp
      then show ?thesis
      proof (cases rule: obind_cases)
        case (raises e)
        from ran [OF raises(1)] show ?thesis .
      next
        case (returns v rs)
        note v = ran [OF returns(1)]
        have "adds D (ready_call D sp s0) w s'"
          if "run_layers (observed E) sp ls w = Some (s', q)" "onward D v w" for w q
        proof (rule Cons.IH [OF that(1)])
          show "rt_later D (bs_store s0) (bs_store w)"
            using Cons.prems(3) v that(2) by (auto simp: adds_def onward_def intro: rt_later_trans)
          show "dom (bs_results s0) \<subseteq> dom (bs_results w)"
            using Cons.prems(4) v that(2) unfolding adds_def onward_def by blast
        qed (use Cons.prems(2) in simp)
        from settle_adds [OF returns(2), of "ready_call D sp s0"] this
        have "adds D (ready_call D sp s0) v s'" by (auto simp: D)
        with v show ?thesis by (rule adds_trans)
      qed
    qed
  qed
qed

lemma run_graph_adds:
  assumes "run_graph (observed E) sp s = Some (s', r)" and D: "D = be_digests E"
    and "rt_reachable D (bs_store s0)" "rt_later D (bs_store s0) (bs_store s)" "dom (bs_results s0) \<subseteq> dom (bs_results s)"
  shows "adds D (ready_call D sp s0) s s'"
proof -
  let ?body = "obind (olift (contract (dependency_layers sp))) (run_layers (observed E) sp)"
  have body: "adds D (ready_call D sp s0) s t" if "?body s = Some (t, q)" for t q
    using that
  proof (cases rule: obind_cases)
    case (raises e)
    then show ?thesis by (cases "dependency_layers sp") (auto simp: contract_def intro: adds_onward unseen_refl)
  next
    case (returns u ls)
    then have "dependency_layers sp = Inr ls" "u = s" by (auto simp: contract_Inr)
    with layers_subset [of "[]" "sp_nodes sp" ls] run_layers_adds [OF returns(2) _ D assms(3)] assms(4,5)
    show ?thesis by (simp add: dependency_layers_def)
  qed
  obtain t q where t: "?body s = Some (t, q)"
    using assms(1) by (auto simp: run_graph_def ocatch_def split: option.splits)
  show ?thesis
  proof (cases q)
    case (Inr rr)
    with assms(1) t body [OF t] show ?thesis by (auto simp: run_graph_def ocatch_def)
  next
    case (Inl e)
    let ?rescue = "abind (fail_running (observed E) (sp_run_id sp) (exec_text (observed E) e)) (\<lambda>_ s.
       make_outcome (observed E) sp Run_Failed (bs_done s) (Some (exec_text (observed E) e)) s)"
    have "unseen.quiet E ?rescue"
      by (intro unseen.quiet_abind unseen.quiet_fail_running unseen.quiet_result_now)
    moreover from Inl assms(1) t have "?rescue t = (s', r)" by (simp add: run_graph_def ocatch_def)
    ultimately have "onward D t s'" unfolding D by (rule unseen.quietD)
    with body [OF t] show ?thesis by (blast intro: adds_trans adds_onward)
  qed
qed

lemma execute_adds:
  assumes "execute (observed E) sp resuming s = Some (s', r)" and reach: "rt_reachable (be_digests E) (bs_store s)"
  shows "adds (be_digests E) (ready_call (be_digests E) sp s) s s'"
proof (cases "missing_handlers (observed E) sp s = []")
  case False
  with assms(1) show ?thesis by (auto simp: execute_def intro: adds_onward unseen_refl)
next
  case True
  let ?D = "be_digests E" and ?s = "s\<lparr>bs_done := []\<rparr>"
  have s: "onward ?D s ?s" by (rule onward_writes)
  from assms(1) True have "obind (olift (load_or_create (observed E) sp resuming)) (run_from (observed E) sp) ?s = Some (s', r)"
    by (simp add: execute_def)
  then show ?thesis
  proof (cases rule: obind_cases)
    case (raises e)
    then have "onward ?D ?s s'" using unseen.quietD [OF unseen.quiet_load_or_create [OF refl]] by auto
    with s show ?thesis by (blast intro: adds_onward unseen_trans)
  next
    case (returns t snap)
    then have "onward ?D ?s t" using unseen.quietD [OF unseen.quiet_load_or_create [OF refl]] by auto
    with s have t: "onward ?D s t" by (rule unseen_trans)
    have quiet_end: ?thesis if "olift m t = Some (s', q)" "unseen.quiet E m" for m q
    proof -
      from that have "onward ?D t s'" using unseen.quietD by auto
      with t show ?thesis by (blast intro: adds_onward unseen_trans)
    qed
    show ?thesis
    proof (cases "rs_state snap \<in> {R_Completed, R_Awaiting_Approval, R_Cancelled}")
      case True
      have "unseen.quiet E (abind (load_results sp (topological_order sp)) (\<lambda>rs. make_outcome (observed E) sp Run_OK rs None))"
        by (intro unseen.quiet_abind unseen.quiet_load_results [OF refl]) simp
      with True returns(2) quiet_end show ?thesis
        by (auto simp: run_from_def split: if_splits)
    next
      case False
      let ?start = "if rs_state snap \<noteq> R_Running then call_on (observed E) (C_Start (sp_run_id sp) ''runtime:start'') else areturn ()"
      have start: "unseen.quiet E ?start" by (intro unseen.quiet_if) simp_all
      from False returns(2) have "obind (olift ?start) (\<lambda>_. run_graph (observed E) sp) t = Some (s', r)"
        by (simp add: run_from_def)
      then show ?thesis
      proof (cases rule: obind_cases)
        case (raises e)
        from quiet_end [OF raises(1) start] show ?thesis .
      next
        case (returns u x)
        from unseen_trans [OF t quiet_onward [OF start returns(1)]] have u: "onward ?D s u" .
        then have "rt_later ?D (bs_store s) (bs_store u)" "dom (bs_results s) \<subseteq> dom (bs_results u)"
          by (simp_all add: onward_def)
        from run_graph_adds [OF returns(2) refl reach this] adds_onward [OF u] show ?thesis by (blast intro: adds_trans)
      qed
    qed
  qed
qed

text \<open>
  C2: A handler is called only for a node of the specification that had no persisted result when the
  execution began, at a time when each of its dependencies has succeeded; a node that requires an approval
  is called with an approval of it in the event log, unless the node had been failed, paused or waiting
  since the execution began.
\<close>

theorem handlers_run_when_ready:
  assumes "execute (observed E) sp resuming s = Some (s', r)" and "rt_reachable (be_digests E) (bs_store s)"
  shows "\<exists>new. snd (bs_world s') = snd (bs_world s) @ new \<and> (\<forall>(n, st)\<in>set new.
    n \<in> set (sp_nodes sp) \<and> bs_results s (sp_run_id sp, ns_id n) = None \<and>
    rt_later (be_digests E) (bs_store s) st \<and> dependencies_done (be_digests E) (sp_run_id sp) st n \<and>
    (ns_approval n \<longrightarrow> approved_in st (sp_run_id sp) (ns_id n) \<or>
       left_the_path (be_digests E) (sp_run_id sp) (ns_id n) (bs_store s) st))"
  using execute_adds [OF assms]
  by (auto simp: adds_def seen_def ready_call_def admitted_def has_result_def list_all_iff)

end
