(* ===== verification/Durable_Retries.thy ===== *)
theory Durable_Retries
  imports Durable_Leases
begin

section \<open>Durable runtime: keys and attempts\<close>

text \<open>
  What a call does to the recorded keys of its run and to the attempts of its nodes: it records at most its
  own key, and no call takes an attempt back.  A retry under a fresh key adds exactly one.
\<close>

definition attempts_grow :: "run_snapshot \<Rightarrow> run_snapshot \<Rightarrow> bool" where
  "attempts_grow s s' \<longleftrightarrow> map fst (rs_nodes s') = map fst (rs_nodes s) \<and>
     (\<forall>i n. map_of (rs_nodes s) i = Some n \<longrightarrow> (\<exists>n'. map_of (rs_nodes s') i = Some n' \<and> n_attempts n \<le> n_attempts n'))"

lemma attempts_grow_refl: "attempts_grow s s"
  by (simp add: attempts_grow_def)

lemma attempts_grow_update:
  assumes "map_of (rs_nodes s) i = Some n" and "n_attempts n \<le> n_attempts m"
  shows "attempts_grow s (s\<lparr>rs_nodes := AList.update i m (rs_nodes s)\<rparr>)"
proof -
  have "i \<in> fst ` set (rs_nodes s)" using assms(1) by (auto dest: map_of_SomeD intro: rev_image_eqI)
  then show ?thesis using assms by (auto simp: attempts_grow_def dict_update_same_keys dict_simps)
qed

text \<open>A payload that takes no attempt back.\<close>

definition keeps_attempts :: "run_snapshot \<Rightarrow> payload \<Rightarrow> bool" where
  "keeps_attempts s p = (case p of
     P_Retry_Recorded i att _ _ _ _ _ _ _ \<Rightarrow> (\<forall>n. map_of (rs_nodes s) i = Some n \<longrightarrow> n_attempts n \<le> att)
   | _ \<Rightarrow> True)"

lemma clear_leases_attempts:
  "rfold clear_lease ids (rs_nodes s) = Inr ns \<Longrightarrow> attempts_grow s (s\<lparr>rs_nodes := ns\<rparr>)"
proof (induction ids arbitrary: s)
  case (Cons i ids)
  then obtain m where m: "clear_lease i (rs_nodes s) = Inr m" and "rfold clear_lease ids m = Inr ns"
    by (auto simp: rbind_eq_Inr)
  then obtain n where n: "map_of (rs_nodes s) i = Some n"
    and "rfold clear_lease ids (AList.update i (n\<lparr>n_lease := None\<rparr>) (rs_nodes s)) = Inr ns"
    by (auto simp: clear_lease_def get_node_def split: option.splits)
  then have "attempts_grow (s\<lparr>rs_nodes := AList.update i (n\<lparr>n_lease := None\<rparr>) (rs_nodes s)\<rparr>) (s\<lparr>rs_nodes := ns\<rparr>)"
    using Cons.IH [of "s\<lparr>rs_nodes := AList.update i (n\<lparr>n_lease := None\<rparr>) (rs_nodes s)\<rparr>"] by simp
  with attempts_grow_update [OF n, of "n\<lparr>n_lease := None\<rparr>"] show ?case
    by (fastforce simp: attempts_grow_def intro: order_trans)
qed (auto simp: attempts_grow_def)

lemma cancel_attempts:
  "attempts_grow s (s\<lparr>rs_nodes := map_vals cancel_node_snapshot (rs_nodes s)\<rparr>)"
  by (auto simp: attempts_grow_def dict_simps cancel_node_snapshot_def)

lemma apply_payload_attempts:
  assumes "apply_payload s t p = Inr s1" and "keeps_attempts s p"
  shows "attempts_grow s s1"
proof -
  have frame: "attempts_grow s s' \<Longrightarrow> rs_nodes s'' = rs_nodes s' \<Longrightarrow> attempts_grow s s''" for s' s''
    by (simp add: attempts_grow_def)
  from assms show ?thesis
    by (cases p)
      (auto simp: rbind_eq_Inr Let_def get_node_def keeps_attempts_def attempts_grow_update clear_leases_attempts
        intro: frame [OF cancel_attempts] frame [OF attempts_grow_refl]
        split: if_split_asm option.split_asm)
qed

subsection \<open>The critical sections\<close>

text \<open>A section writes no event, or one under its own key that takes no attempt back.\<close>

definition writes_own_key :: "digests \<Rightarrow> string \<Rightarrow> run_snapshot \<Rightarrow> run_dir \<Rightarrow> string \<Rightarrow> run_dir \<Rightarrow> bool" where
  "writes_own_key D rid s d key d' \<longleftrightarrow> d' = synced D s d \<or>
     (\<exists>p now. committable s p key now \<and> keeps_attempts s p \<and> d' = commit_dir D rid p key now s d)"

lemma writes_nothing [simp]: "writes_own_key D rid s d key (synced D s d)"
  by (simp add: writes_own_key_def)

lemma writes_keyed:
  assumes "key \<noteq> [] \<Longrightarrow> map_of (rs_idempotency s) key = None \<Longrightarrow> writes_own_key D rid s d key (fst miss)"
  shows "writes_own_key D rid s d key (fst (keyed D rid s d key fp hit miss))"
  using assms check_idempotency_False [of s key fp]
  by (cases "check_idempotency s key fp") (auto simp: keyed_def)

lemma writes_commit:
  "committable s p key now \<Longrightarrow> keeps_attempts s p \<Longrightarrow> writes_own_key D rid s d key (commit_dir D rid p key now s d)"
  by (auto simp: writes_own_key_def)

lemma writes_on_node:
  assumes "\<And>n. map_of (rs_nodes s) nid = Some n \<Longrightarrow> writes_own_key D rid s d key (fst (f n))"
  shows "writes_own_key D rid s d key (fst (on_node D s d nid f))"
  using assms by (auto simp: on_node_def split: option.splits)

lemma writes_run:
  assumes dw: "dir_with D rid d es ss"
  shows "writes_own_key D rid (last ss) d key (fst (transition_run D rid target reason appr key now d))"
  unfolding transition_run_eq [OF dw refl refl]
  by (rule writes_keyed) (auto intro!: writes_commit simp: committable_def keeps_attempts_def)

lemma writes_node:
  assumes dw: "dir_with D rid d es ss"
  shows "writes_own_key D rid (last ss) d key (fst (transition_node D rid nid target reason appr key now d))"
proof (cases "map_of (rs_nodes (last ss)) nid")
  case None
  then show ?thesis by (simp add: section_no_node [OF dw])
next
  case (Some n)
  show ?thesis
    unfolding transition_node_eq [OF dw refl Some refl]
    by (rule writes_keyed) (use Some in \<open>auto intro!: writes_commit simp: committable_def keeps_attempts_def get_node_def\<close>)
qed

lemma writes_leases:
  assumes dw: "dir_with D rid d es ss"
  shows "writes_own_key D rid (last ss) d key (fst (acquire_lease D rid nid owner ttl key now now2 d))"
    and "writes_own_key D rid (last ss) d key (fst (heartbeat D rid nid token ttl key now now2 d))"
    and "writes_own_key D rid (last ss) d key (fst (release_lease D rid nid token key now now2 d))"
    and "writes_own_key D rid (last ss) d key (fst (expire_leases D rid key now now2 d))"
proof -
  show "writes_own_key D rid (last ss) d key (fst (acquire_lease D rid nid owner ttl key now now2 d))"
    unfolding acquire_lease_eq [OF dw refl]
    by (rule writes_keyed, rule writes_on_node)
      (auto intro!: writes_commit simp: committable_def get_node_def acquire_payload_def keeps_attempts_def split: option.split)
  show "writes_own_key D rid (last ss) d key (fst (heartbeat D rid nid token ttl key now now2 d))"
    unfolding heartbeat_eq [OF dw refl]
    by (rule writes_keyed, rule writes_on_node)
      (auto intro!: writes_commit simp: committable_def get_node_def held_lease_Inr keeps_attempts_def
        split: option.split sum.split)
  show "writes_own_key D rid (last ss) d key (fst (release_lease D rid nid token key now now2 d))"
    unfolding release_lease_eq [OF dw refl refl]
    by (rule writes_keyed, rule writes_on_node)
      (auto intro!: writes_commit simp: committable_def get_node_def held_lease_Inr keeps_attempts_def split: sum.split)
  show "writes_own_key D rid (last ss) d key (fst (expire_leases D rid key now now2 d))"
    unfolding expire_leases_eq [OF dw refl refl]
    by (rule writes_keyed)
      (use clear_leases [OF expired_nodes_keys, of now "last ss"] in
        \<open>auto intro!: writes_commit simp: committable_def keeps_attempts_def\<close>)
qed

lemma committable_retry:
  assumes "map_of (rs_nodes s) nid = Some n" and "key \<noteq> []" "map_of (rs_idempotency s) key = None"
  shows "committable s (retry_payload nid cls why base mx att nb) key now"
  using assms by (simp add: committable_def retry_payload_def get_node_def Let_def)

lemma keeps_retry:
  "map_of (rs_nodes s) nid = Some n \<Longrightarrow> keeps_attempts s (retry_payload nid cls why base mx (n_attempts n + 1) nb)"
  by (simp add: keeps_attempts_def retry_payload_def)

lemma writes_retry:
  assumes dw: "dir_with D rid d es ss"
  shows "writes_own_key D rid (last ss) d key (fst (record_retry D rid nid cls why base mx key now now2 d))"
proof -
  have "writes_own_key D rid (last ss) d key (fst (keyed D rid (last ss) d key fp hit
      (commit_dir D rid (retry_payload nid cls why base mx (n_attempts n + 1) nb) key now2 (last ss) d, r)))"
    if "map_of (rs_nodes (last ss)) nid = Some n" for n nb fp r and hit :: "(rt_error, retry_metadata) result"
    by (rule writes_keyed) (use that in \<open>auto intro!: writes_commit committable_retry keeps_retry\<close>)
  then show ?thesis
    unfolding record_retry_eq [OF dw refl]
    by (intro writes_on_node) (auto simp: Let_def split: sum.split)
qed

subsection \<open>Calls\<close>

lemma fst_with_lock: "st r = Some d \<Longrightarrow> fst (with_lock r body st) = st(r \<mapsto> fst (body d))"
  by (simp add: with_lock_def split: prod.split)

text \<open>A call on a run is refused, or its section works on the directory.\<close>

lemma call_writes:
  assumes dw: "dir_with D (call_run c) d es ss" and st: "st (call_run c) = Some d" and key: "call_key c = Some key"
  shows "\<exists>d'. exec_call D c t u st = st(call_run c \<mapsto> d') \<and> (d' = d \<or> writes_own_key D (call_run c) (last ss) d key d')"
proof (cases "\<exists>r ids env git ce cg k. c = C_Create r ids env git ce cg k")
  case True
  then obtain r ids env git ce cg where c: "c = C_Create r ids env git ce cg key" using key by auto
  show ?thesis
  proof (cases "refuses D c")
    case True
    with st have "exec_call D c t u st = st(call_run c \<mapsto> d)" by (simp add: refuses_def exec_call_def fun_upd_idem)
    then show ?thesis by blast
  next
    case False
    have "rd_events d = Some (map Line es)" using dw by (simp add: dir_with_def)
    then have "fst (create_unlocked D r ids env git ce cg key t d) = synced D (last ss) d"
      using dw by (simp add: create_unlocked_def load_unlocked_ok c Let_def abind_def
          split: sum.split)
    with False st have "exec_call D c t u st = st(call_run c \<mapsto> synced D (last ss) d)"
      by (auto simp: refuses_def exec_call_def c create_run_def got_def split: prod.splits if_splits)
    then show ?thesis by auto
  qed
next
  case False
  have ok: "\<exists>d'. fst (with_lock r body st) = st(r \<mapsto> d') \<and> (d' = d \<or> writes_own_key D r (last ss) d key d')"
    if "st r = Some d" "writes_own_key D r (last ss) d key (fst (body d))" for r body
    using that by (auto simp: fst_with_lock)
  have stay: "\<exists>d'. st = st(r \<mapsto> d') \<and> (d' = d \<or> writes_own_key D r (last ss) d key d')" if "st r = Some d" for r
    using that by (intro exI [of _ d]) (simp add: fun_upd_idem)
  from False assms show ?thesis
    by (cases c)
      (auto simp: exec_call_def start_def pause_def wait_def request_approval_def approve_def resume_def
        complete_def fail_def cancel_def start_node_def pause_node_def wait_node_def
        request_node_approval_def approve_node_def resume_node_def complete_node_def fail_node_def
        cancel_node_def acquire_def renew_def release_def expire_def retry_def require_def validate_ttl_def
        intro!: ok stay writes_run writes_node writes_leases writes_retry)
qed

text \<open>What a call leaves of its run: its snapshot, or that snapshot with the key of the call and no fewer attempts.\<close>

definition keyed_growth :: "string \<Rightarrow> run_snapshot \<Rightarrow> run_snapshot \<Rightarrow> bool" where
  "keyed_growth key s s' \<longleftrightarrow> s' = s \<or> attempts_grow s s' \<and>
     map_of (rs_idempotency s) key = None \<and> (\<exists>h. rs_idempotency s' = rs_idempotency s @ [(key, h)])"

lemma call_keyed_growth:
  assumes "store_ok D st" and "run_in D st (call_run c) = Some s" and "call_key c = Some key"
  shows "\<exists>s'. run_in D (exec_call D c t u st) (call_run c) = Some s' \<and> keyed_growth key s s'"
proof -
  from run_in_dir [OF assms(1,2)] obtain d es ss where
    dw: "dir_with D (call_run c) d es ss" and s: "s = last ss" and st: "st (call_run c) = Some d" .
  from call_writes [where st = st, OF dw st assms(3), of t u] obtain d' where
    e: "exec_call D c t u st = st(call_run c \<mapsto> d')" and d': "d' = d \<or> writes_own_key D (call_run c) s d key d'"
    unfolding s by blast
  from d' consider "d' = d" | "d' = synced D s d"
    | p now where "committable s p key now" "keeps_attempts s p" "d' = commit_dir D (call_run c) p key now s d"
    by (auto simp: writes_own_key_def)
  then show ?thesis
  proof cases
    case 1
    with e st assms(2) show ?thesis by (auto simp: keyed_growth_def fun_upd_idem)
  next
    case 2
    then have "run_in D (exec_call D c t u st) (call_run c) = Some s"
      using e run_of_dir_with [OF dir_with_synced_last [OF dw]] by (simp add: run_in_def dir_of_def s)
    then show ?thesis by (simp add: keyed_growth_def)
  next
    case 3
    then obtain s1 where s1: "apply_payload s now p = Inr s1" and "map_of (rs_idempotency s) key = None"
      by (auto simp: committable_def)
    moreover have "attempts_grow s (committed D (call_run c) p key now s)"
      using apply_payload_attempts [OF s1 3(2)] by (simp add: attempts_grow_def committed_effect [OF s1])
    ultimately show ?thesis
      using e 3(3) run_in_commit [OF dw s 3(1), of st] by (auto simp: keyed_growth_def)
  qed
qed

lemma retry_fresh:
  assumes "store_ok D st" and s: "run_in D st rid = Some s" and n: "map_of (rs_nodes s) nid = Some n"
    and "fresh_key s key" and call: "run_call D (C_Retry rid nid cls why base mx key) t u st = (st', r)"
  shows "(\<exists>e. r = Inl e) \<and> run_in D st' rid = Some s \<or>
    (\<exists>v s' n'. r = Inr v \<and> run_in D st' rid = Some s' \<and> keyed_growth key s s' \<and>
       map_of (rs_nodes s') nid = Some n' \<and> n_attempts n' = n_attempts n + 1)"
proof (cases "base < 0 \<or> mx < base")
  case True
  with call s show ?thesis by (auto simp: retry_def require_def split: if_splits)
next
  case False
  from run_in_dir [OF assms(1) s] obtain d es ss where
    dw: "dir_with D rid d es ss" and ss: "s = last ss" and st: "st rid = Some d" .
  from False call st have st': "st' = st(rid \<mapsto> fst (record_retry D rid nid cls why base mx key t u d))"
      "r = map_sum id Got_Retry (snd (record_retry D rid nid cls why base mx key t u d))"
    by (auto simp: retry_def require_def with_lock_def got_def split: prod.splits if_splits)
  show ?thesis
  proof (cases "retry_time t (retry_backoff cls (n_attempts n + 1) base mx)")
    case (Inl x)
    then have "record_retry D rid nid cls why base mx key t u d = (synced D s d, Inl x)"
      using n by (simp add: record_retry_eq [OF dw ss])
    with st' run_of_dir_with [OF dir_with_synced_last [OF dw]] show ?thesis
      by (simp add: run_in_def dir_of_def ss)
  next
    case (Inr nb)
    let ?p = "retry_payload nid cls why base mx (n_attempts n + 1) nb"
    have c: "committable s ?p key u" using assms(4) n by (intro committable_retry) (auto simp: fresh_key_def)
    then obtain s1 where s1: "apply_payload s u ?p = Inr s1" by (auto simp: committable_def)
    have r: "record_retry D rid nid cls why base mx key t u d =
        (commit_dir D rid ?p key u s d, Inr (retry_record cls why base mx (n_attempts n + 1) nb))"
      using n Inr assms(4) by (simp add: record_retry_eq [OF dw ss] Let_def)
    have "keyed_growth key s (committed D rid ?p key u s)"
      using apply_payload_attempts [OF s1 keeps_retry [OF n]] assms(4)
      by (simp add: keyed_growth_def attempts_grow_def committed_effect [OF s1] fresh_key_def)
    moreover have "\<exists>n'. map_of (rs_nodes s1) nid = Some n' \<and> n_attempts n' = n_attempts n + 1"
      using s1 n by (auto simp: retry_payload_def get_node_def Let_def dict_simps)
    ultimately show ?thesis
      using run_in_commit [OF dw ss c, of st] st' r by (auto simp: committed_effect [OF s1])
  qed
qed

text \<open>A call on a run that does not exist fails, or creates it with nodes of valid ids.\<close>

lemma call_on_empty:
  assumes "dir_of st (call_run c) = empty_dir" and "call_key c = Some key"
  shows "dir_of (exec_call D c t u st) (call_run c) = empty_dir \<or>
    (\<exists>ids env git. list_all valid_id ids \<and> exec_call D c t u st = st(call_run c \<mapsto> created_dir D (call_run c) ids env git key t))"
proof (cases "\<exists>r ids env git ce cg k. c = C_Create r ids env git ce cg k")
  case True
  with assms(2) obtain r ids env git ce cg where c: "c = C_Create r ids env git ce cg key" by auto
  show ?thesis
  proof (cases "valid_id r \<and> key \<noteq> [] \<and> distinct ids \<and> list_all valid_id ids")
    case True
    then have "exec_call D c t u st = st(r \<mapsto> created_dir D r ids (case env of None \<Rightarrow> ce | Some x \<Rightarrow> x)
        (case git of None \<Rightarrow> cg | Some x \<Rightarrow> x) key t)"
      using assms(1) by (simp add: c exec_call_def create_run_def dir_of_def [symmetric] create_unlocked_empty)
    with True c show ?thesis by auto
  next
    case False
    then have "exec_call D c t u st = st" by (auto simp: c exec_call_def create_run_def)
    with assms(1) show ?thesis by simp
  qed
next
  case False
  have ok: "dir_of (fst (with_lock r (abind (load_unlocked D r) f) st)) r = empty_dir"
    if "dir_of st r = empty_dir" for r f
    using that by (cases "st r") (auto simp: with_lock_def dir_of_def)
  from False assms show ?thesis
    by (cases c)
      (auto simp: exec_call_def start_def pause_def wait_def request_approval_def approve_def resume_def complete_def fail_def
        cancel_def start_node_def pause_node_def wait_node_def request_node_approval_def
        approve_node_def resume_node_def complete_node_def fail_node_def cancel_node_def acquire_def
        renew_def release_def expire_def retry_def require_def validate_ttl_def transition_run_def
        transition_node_def acquire_lease_def heartbeat_def release_lease_def expire_leases_def
        record_retry_def ok)
qed

lemma reads_keep_runs:
  assumes "store_ok D st"
  shows "run_in D (fst (load D rid st)) r = run_in D st r" "run_in D (fst (events D rid st)) r = run_in D st r"
proof -
  show "run_in D (fst (events D rid st)) r = run_in D st r"
    by (auto simp: events_def with_lock_def run_in_def dir_of_def split: option.split)
  have "run_of D rid (fst (load_unlocked D rid d)) = run_of D rid d" if "st rid = Some d" for d
  proof -
    from store_okD [OF assms, of rid] that have "dir_ok D rid d" by (simp add: dir_of_def)
    then consider "d = empty_dir" | es ss where "dir_with D rid d es ss" by (auto simp: dir_ok_def)
    then show ?thesis
    proof cases
      case 1
      then show ?thesis by (simp add: load_unlocked_empty)
    next
      case 2
      then show ?thesis
        using run_of_dir_with [OF 2] run_of_dir_with [OF dir_with_synced_last [OF 2]] by (simp add: load_unlocked_ok [OF 2])
    qed
  qed
  then show "run_in D (fst (load D rid st)) r = run_in D st r"
    by (auto simp: load_def with_lock_def run_in_def dir_of_def split: option.split prod.split)
qed

lemma call_elsewhere:
  assumes "store_ok D st" and "r \<noteq> call_run c \<or> call_key c = None"
  shows "run_in D (exec_call D c t u st) r = run_in D st r"
proof (cases "call_key c = None")
  case True
  then show ?thesis using reads_keep_runs [OF assms(1)] by (cases c) (simp_all add: exec_call_def)
next
  case False
  with assms(2) exec_call_step [OF assms(1), of c t u] show ?thesis
    by (auto simp: store_step_def run_in_def dir_of_def)
qed

text \<open>Every node of a run has a valid id.\<close>

lemma reachable_node_ids:
  "rt_reachable D st \<Longrightarrow> run_in D st r = Some s \<Longrightarrow> i \<in> set (map fst (rs_nodes s)) \<Longrightarrow> valid_id i"
proof (induction arbitrary: s rule: rt_reachable.induct)
  case init
  then show ?case by (simp add: run_in_def dir_of_def)
next
  case (step st st')
  note ok = reachable_ok [OF step.hyps(1)]
  show ?case
  proof (cases "run_in D st r")
    case (Some s0)
    with rt_step_abs [OF step.hyps(2) ok, of r] step.prems(1) have "run_grows s0 s"
      by (auto intro: run_grows_refl run_grows_step)
    then have "map fst (rs_nodes s) = map fst (rs_nodes s0)" by (simp add: run_grows_def nodes_move_def)
    with step.IH [OF Some] step.prems(2) show ?thesis by simp
  next
    case None
    obtain c t u where c: "run_in D st' r = run_in D (exec_call D c t u st) r"
      using step.hyps(2) by cases (auto simp: run_in_crash [OF ok])
    with None step.prems(1) call_elsewhere [OF ok, of r c t u] obtain key where r: "r = call_run c" "call_key c = Some key"
      by fastforce
    have "dir_of st (call_run c) = empty_dir"
      using None r store_okD [OF ok, of r] run_of_dir_with by (fastforce simp: run_in_def dir_ok_def)
    from call_on_empty [OF this r(2), of D t u] c r step.prems(1) obtain ids env git where
      "list_all valid_id ids" "run_in D (st(r \<mapsto> created_dir D r ids env git key t)) r = Some s"
      by (auto simp: run_in_def)
    then show ?thesis
      using run_of_dir_with [OF created_dir_with, of D r ids env git key t] step.prems(2)
      by (auto simp: run_in_def created_def list_all_iff)
  qed
qed

end
