(* ===== verification/Run_Ends.thy ===== *)
theory Run_Ends
  imports Run_Ready Durable_Retries
begin

section \<open>Run graphs: executions end\<close>

text \<open>
  The retries of a node end because each one raises its attempts.  It does when the key of the next retry is
  fresh; an execution keeps the keys of further retries fresh, since none of its other calls uses such a key.
\<close>

subsection \<open>Keys\<close>

definition numeric :: "char \<Rightarrow> bool" where
  "numeric c \<longleftrightarrow> c = CHR ''-'' \<or> (let n = of_char c :: nat in 48 \<le> n \<and> n \<le> 57)"

lemma digit_chars: "c \<in> set (nat_digits n) \<Longrightarrow> numeric c"
proof (induction n rule: nat_digits.induct)
  case (1 n)
  have digit: "numeric (char_of (48 + k))" if "k < 10" for k :: nat
    using that by (simp add: numeric_def Let_def take_bit_nat_eq_self flip: take_bit_eq_mod)
  show ?case
  proof (cases "n < 10")
    case True
    with "1.prems" digit [of n] show ?thesis by (simp add: nat_digits.simps [of n])
  next
    case False
    with 1 digit [of "n mod 10"] show ?thesis by (auto simp: nat_digits.simps [of n])
  qed
qed

lemma int_chars: "c \<in> set (show_int k) \<Longrightarrow> numeric c"
  using digit_chars by (auto simp: show_int_def numeric_def split: if_splits)

lemma show_int_eq: "show_int i = show_int j \<longleftrightarrow> i = j"
proof -
  have inj: "nat_digits m = nat_digits n \<longleftrightarrow> m = n" for m n
    using digits_value_nat_digits by metis
  have dash: "CHR ''-'' # xs \<noteq> nat_digits n" "nat_digits n \<noteq> CHR ''-'' # xs" for n xs
    using nat_digits_no_dash [of n] by (metis list.set_intros(1))+
  show ?thesis
    by (cases "i < 0"; cases "j < 0") (auto simp: show_int_def inj dash)
qed

lemma last_part:
  assumes "xs @ c # ys = zs @ c # ws" and "c \<notin> set ys" "c \<notin> set ws"
  shows "xs = zs \<and> ys = ws"
proof -
  have one: "us = [] \<and> as = bs" if "us @ c # as = c # bs" "c \<notin> set bs" for us as bs
    using that by (cases us) auto
  from assms(1) obtain us where "xs = zs @ us \<and> us @ c # ys = c # ws \<or> xs @ us = zs \<and> c # ys = us @ c # ws"
    unfolding append_eq_append_conv2 by blast
  then show ?thesis using one [of us ys ws] one [of us ws ys] assms(2,3) by auto
qed

text \<open>A word that is no number.\<close>

definition plain_word :: "string \<Rightarrow> bool" where
  "plain_word w \<longleftrightarrow> (case w of [] \<Rightarrow> False | c # cs \<Rightarrow> CHR '':'' \<notin> set w \<and> \<not> numeric c)"

lemma colon_free: "CHR '':'' \<notin> set (show_int k)" "CHR '':'' \<notin> set (show_nat m)"
proof -
  have "\<not> numeric CHR '':''" by code_simp
  then show "CHR '':'' \<notin> set (show_int k)" "CHR '':'' \<notin> set (show_nat m)"
    using int_chars digit_chars by (auto simp: show_nat_def)
qed

lemma retry_key_parts:
  assumes "retry_key i k = pre @ CHR '':'' # w" and "CHR '':'' \<notin> set w"
  shows "pre = ''runtime:'' @ i @ '':retry'' \<and> w = show_int k"
proof -
  have "retry_key i k = (''runtime:'' @ i @ '':retry'') @ CHR '':'' # show_int k"
    by (simp add: retry_key_def node_key_def)
  with assms last_part [OF _ colon_free(1) assms(2)] show ?thesis by metis
qed

lemma retry_key_plain:
  assumes "plain_word w"
  shows "retry_key i k \<noteq> pre @ CHR '':'' # w"
proof
  from assms obtain c where c: "c \<in> set w" "\<not> numeric c" and "CHR '':'' \<notin> set w"
    by (auto simp: plain_word_def split: list.splits)
  moreover assume "retry_key i k = pre @ CHR '':'' # w"
  ultimately have "c \<in> set (show_int k)" using retry_key_parts by blast
  with c(2) int_chars show False by blast
qed

lemma retry_key_eq: "retry_key i k = retry_key j l \<longleftrightarrow> i = j \<and> k = l"
proof
  assume "retry_key i k = retry_key j l"
  then have "retry_key i k = (''runtime:'' @ j @ '':retry'') @ CHR '':'' # show_int l"
    by (simp add: retry_key_def node_key_def)
  from retry_key_parts [OF this colon_free(1)] show "i = j \<and> k = l" by (simp add: show_int_eq)
qed simp

lemma retry_key_lease: "retry_key i k \<noteq> lease_key j m"
proof
  assume "retry_key i k = lease_key j m"
  then have "retry_key i k = (''runtime:'' @ j @ '':lease'') @ CHR '':'' # show_nat m"
    by (simp add: lease_key_def node_key_def)
  from retry_key_parts [OF this colon_free(2)] have "(''runtime:'' @ j) @ '':lease'' = (''runtime:'' @ i) @ '':retry''" by simp
  then have "last ((''runtime:'' @ j) @ '':lease'') = last ((''runtime:'' @ i) @ '':retry'')" by (rule arg_cong)
  then show False by simp
qed

lemma retry_key_release:
  assumes "CHR '':'' \<notin> set i"
  shows "retry_key i k \<noteq> release_key j x"
proof
  let ?l = "''lease-release:'' @ x" and ?r = "''retry:'' @ show_int k"
  assume "retry_key i k = release_key j x"
  then have eq: "i @ CHR '':'' # ?r = j @ CHR '':'' # ?l"
    by (simp add: retry_key_def release_key_def node_key_def)
  have "count_list (show_int k) CHR '':'' = 0" using colon_free(1) by (simp add: count_list_0_iff)
  then have r: "count_list ?r CHR '':'' = 1" by simp
  from eq assms consider "i = j" "?r = ?l" | us where "?r = us @ CHR '':'' # ?l"
    by (auto simp: append_eq_append_conv2 Cons_eq_append_conv append_eq_Cons_conv)
  then show False
  proof cases
    case 2
    then have "count_list ?r CHR '':'' = count_list (us @ CHR '':'' # ?l) CHR '':''" by (rule arg_cong)
    with r show False by simp
  qed simp
qed

text \<open>The calls of an execution, but for retries, use no key of a retry.\<close>

definition plain_call :: "string \<Rightarrow> rt_call \<Rightarrow> bool" where
  "plain_call rid c \<longleftrightarrow> own_call rid c \<or> c = C_Complete rid ''runtime:complete''"

lemma own_call_key:
  assumes "plain_call rid c" and "CHR '':'' \<notin> set i"
  shows "call_run c = rid \<and> (\<exists>key. call_key c = Some key \<and> key \<noteq> retry_key i k)"
proof -
  have plain: "list_all plain_word [''create'', ''start'', ''resume'', ''fail'', ''exception'', ''cancel'', ''complete'',
      ''skip'', ''cancel-unfinished'', ''approval-request'', ''run-approval-request'']"
    by code_simp
  have words: "node_key n w \<noteq> retry_key i k" "''runtime:'' @ w \<noteq> retry_key i k" if "plain_word w" for n w
    using retry_key_plain [OF that, of i k "''runtime:'' @ n"] retry_key_plain [OF that, of i k "''runtime''"]
    by (auto simp: node_key_def)
  have run_words: "''runtime:create'' \<noteq> retry_key i k" "''runtime:start'' \<noteq> retry_key i k"
    "''runtime:resume'' \<noteq> retry_key i k" "''runtime:fail'' \<noteq> retry_key i k" "''runtime:exception'' \<noteq> retry_key i k"
    "''runtime:cancel'' \<noteq> retry_key i k" "''runtime:complete'' \<noteq> retry_key i k"
    using plain words(2) [of "''create''"] words(2) [of "''start''"] words(2) [of "''resume''"]
      words(2) [of "''fail''"] words(2) [of "''exception''"] words(2) [of "''cancel''"] words(2) [of "''complete''"] by auto
  have others: "lease_key j m \<noteq> retry_key i k" "release_key j x \<noteq> retry_key i k" for j m x
    using retry_key_lease retry_key_release [OF assms(2)] by metis+
  note facts = words(1) run_words others
  from assms(1) show ?thesis
    by (cases c) (auto simp: plain_call_def run_approval_key_def plain [simplified] facts facts [THEN not_sym])
qed

subsection \<open>Room for retries\<close>

text \<open>The keys of all further retries of the run are fresh.\<close>

definition retry_room :: "digests \<Rightarrow> string \<Rightarrow> store \<Rightarrow> bool" where
  "retry_room D rid st \<longleftrightarrow> (\<forall>s i n k. run_in D st rid = Some s \<longrightarrow> map_of (rs_nodes s) i = Some n \<longrightarrow>
     n_attempts n < k \<longrightarrow> map_of (rs_idempotency s) (retry_key i k) = None)"

lemma retry_roomD:
  "retry_room D rid st \<Longrightarrow> run_in D st rid = Some s \<Longrightarrow> map_of (rs_nodes s) i = Some n \<Longrightarrow> n_attempts n < k \<Longrightarrow>
     map_of (rs_idempotency s) (retry_key i k) = None"
  by (auto simp: retry_room_def)

lemma new_run_room: "run_in D st rid = None \<Longrightarrow> retry_room D rid st"
  by (simp add: retry_room_def)

lemma valid_id_colon: "valid_id i \<Longrightarrow> CHR '':'' \<notin> set i"
proof -
  have no: "\<not> alnum CHR '':''" by code_simp
  assume "valid_id i"
  then obtain c cs where i: "i = c # cs" "alnum c" "list_all (\<lambda>x. alnum x \<or> x \<in> set ''._-'') cs"
    by (auto simp: valid_id_def split: list.splits)
  have "alnum x \<or> x \<in> set ''._-''" if "x \<in> set i" for x
    using that i by (auto simp: list_all_iff)
  then show ?thesis using no by fastforce
qed

lemma colon_free_node:
  assumes "rt_reachable D st" and "run_in D st rid = Some s" and "map_of (rs_nodes s) i = Some n"
  shows "CHR '':'' \<notin> set i"
proof -
  from map_of_SomeD [OF assms(3)] have "i \<in> set (map fst (rs_nodes s))" by force
  from valid_id_colon [OF reachable_node_ids [OF assms(1,2) this]] show ?thesis .
qed

text \<open>A run that grew under a key keeps its room unless the key is one of a further retry.\<close>

lemma growth_keeps_room:
  assumes room: "retry_room D rid st" and s: "run_in D st rid = Some s" and s': "run_in D st' rid = Some s'"
    and "keyed_growth key s s'"
    and other: "\<And>i n n' k. map_of (rs_nodes s) i = Some n \<Longrightarrow> map_of (rs_nodes s') i = Some n' \<Longrightarrow> n_attempts n' < k \<Longrightarrow>
      key \<noteq> retry_key i k"
  shows "retry_room D rid st'"
proof (cases "s' = s")
  case True
  with room s s' show ?thesis by (simp add: retry_room_def)
next
  case False
  with assms(4) obtain h where grow: "attempts_grow s s'" and h: "rs_idempotency s' = rs_idempotency s @ [(key, h)]"
    by (auto simp: keyed_growth_def)
  show ?thesis
    unfolding retry_room_def s'
  proof (intro allI impI)
    fix r i n' k
    assume "Some s' = Some r" and n': "map_of (rs_nodes r) i = Some n'" and k: "n_attempts n' < k"
    then have r: "r = s'" by simp
    from n' r have "(i, n') \<in> set (rs_nodes s')" by (simp add: map_of_SomeD)
    then have "i \<in> set (map fst (rs_nodes s'))" by force
    with grow obtain n where n: "map_of (rs_nodes s) i = Some n"
      by (cases "map_of (rs_nodes s) i") (auto simp: attempts_grow_def map_of_eq_None_iff)
    with grow n' r have "n_attempts n \<le> n_attempts n'" by (fastforce simp: attempts_grow_def)
    with k retry_roomD [OF room s n] other [OF n _ k] n' r h
    show "map_of (rs_idempotency r) (retry_key i k) = None" by (auto simp: map_add_def)
  qed
qed

lemma own_call_room:
  assumes reach: "rt_reachable D st" and room: "retry_room D rid st" and own: "plain_call rid c"
  shows "retry_room D rid (exec_call D c t u st)"
proof (cases "run_in D st rid")
  case None
  obtain key where c: "call_run c = rid" "call_key c = Some key"
    using own_call_key [OF own, of "[]"] by auto
  have "dir_of st rid = empty_dir"
    using None store_okD [OF reachable_ok [OF reach], of rid] by (fastforce simp: run_in_def dir_ok_def)
  then consider "dir_of (exec_call D c t u st) rid = empty_dir"
    | ids env git where "list_all valid_id ids"
      "exec_call D c t u st = st(rid \<mapsto> created_dir D rid ids env git key t)"
    using call_on_empty [OF _ c(2)] c(1) by metis
  then show ?thesis
  proof cases
    case 1
    then show ?thesis by (simp add: retry_room_def run_in_def)
  next
    case 2
    from 2(1) have "CHR '':'' \<notin> set i" if "i \<in> set ids" for i
      using that by (simp add: list_all_iff valid_id_colon)
    with own_call_key [OF own] c(2) have "key \<noteq> retry_key i k" if "i \<in> set ids" for i k using that by auto
    let ?s = "created D rid ids env git key t"
    have keys: "\<exists>h. rs_idempotency ?s = [(key, h)]" by (simp add: created_def)
    have run: "run_in D (exec_call D c t u st) rid = Some ?s"
      using 2(2) run_of_dir_with [OF created_dir_with, of D rid ids env git key t]
      by (simp add: run_in_def dir_of_def created_def)
    have "i \<in> set ids" if "map_of (rs_nodes ?s) i = Some n" for i n
      using map_of_SomeD [OF that] by (auto simp: created_def)
    with \<open>\<And>i k. i \<in> set ids \<Longrightarrow> key \<noteq> retry_key i k\<close> keys
    have "map_of (rs_idempotency ?s) (retry_key i k) = None" if "map_of (rs_nodes ?s) i = Some n" for i n k
      using that by fastforce
    then show ?thesis by (simp add: retry_room_def run)
  qed
next
  case (Some s)
  obtain key where c: "call_run c = rid" "call_key c = Some key"
    using own_call_key [OF own, of "[]"] by auto
  from call_keyed_growth [OF reachable_ok [OF reach], of c s key t u] Some c obtain s' where
    s': "run_in D (exec_call D c t u st) rid = Some s'" "keyed_growth key s s'" by auto
  have "key \<noteq> retry_key i k" if "map_of (rs_nodes s) i = Some n" for i n k
    using own_call_key [OF own colon_free_node [OF reach Some that]] c(2) by auto
  with growth_keeps_room [OF room Some s'] show ?thesis by blast
qed

text \<open>A retry under the key of the next attempt uses up that key.\<close>

lemma retry_uses_room:
  assumes reach: "rt_reachable D st" and room: "retry_room D rid st" and s: "run_in D st rid = Some s"
    and n: "map_of (rs_nodes s) i = Some n"
    and call: "run_call D (C_Retry rid i cls why base mx (retry_key i (n_attempts n + 1))) t u st = (st', r)"
  shows "retry_room D rid st' \<and> (\<forall>v. r = Inr v \<longrightarrow> (\<exists>s' n'. run_in D st' rid = Some s' \<and>
    map_of (rs_nodes s') i = Some n' \<and> n_attempts n' = n_attempts n + 1))"
proof -
  have "fresh_key s (retry_key i (n_attempts n + 1))"
    using retry_roomD [OF room s n, of "n_attempts n + 1"] by (simp add: fresh_key_def retry_key_def node_key_def)
  from retry_fresh [OF reachable_ok [OF reach] s n this call]
  consider "\<exists>e. r = Inl e" "run_in D st' rid = Some s"
    | s' n' where "run_in D st' rid = Some s'" "keyed_growth (retry_key i (n_attempts n + 1)) s s'"
      "map_of (rs_nodes s') i = Some n'" "n_attempts n' = n_attempts n + 1" by blast
  then show ?thesis
  proof cases
    case 1
    with room s show ?thesis by (auto simp: retry_room_def)
  next
    case 2
    have "retry_room D rid st'"
      by (rule growth_keeps_room [OF room s 2(1,2)]) (use 2(3,4) in \<open>auto simp: retry_key_eq\<close>)
    with 2 show ?thesis by blast
  qed
qed

subsection \<open>Parts of an execution that end\<close>

text \<open>The states in which executions of a run end.\<close>

definition roomy :: "'w backend \<Rightarrow> string \<Rightarrow> 'w backend_state \<Rightarrow> bool" where
  "roomy E rid s \<longleftrightarrow> rt_reachable (be_digests E) (bs_store s) \<and> retry_room (be_digests E) rid (bs_store s)"

lemma roomy_call:
  assumes "roomy E rid s" and "plain_call rid c"
  shows "roomy E rid (fst (store_call E c s))"
  using assms own_call_room [OF _ _ assms(2)] rt_later_reachable [OF rt_later_call]
  by (auto simp: roomy_def store_call_store)

lemma roomy_loads:
  assumes "roomy E rid s"
  shows "roomy E rid (fst (load_run E r s))" "roomy E rid (fst (load_events E r s))"
proof -
  have "roomy E rid s'" if "bs_store s' = exec_call (be_digests E) c 0 0 (bs_store s)" "call_key c = None" for s' c
    using assms that call_elsewhere [OF reachable_ok, of _ _ rid c 0 0] rt_later_reachable [OF rt_later_call]
    by (auto simp: roomy_def retry_room_def)
  then show "roomy E rid (fst (load_run E r s))" "roomy E rid (fst (load_events E r s))"
    using load_run_store [of E r s 0 0] load_events_store [of E r s 0 0] by (metis call_key.simps(2,3))+
qed

lemma roomy_same_store: "roomy E rid s \<Longrightarrow> bs_store s' = bs_store s \<Longrightarrow> roomy E rid s'"
  by (simp add: roomy_def)

text \<open>A retry keeps the room, and where it happens the attempts of its node have gone up.\<close>

definition attempts_of :: "'w backend \<Rightarrow> string \<Rightarrow> string \<Rightarrow> 'w backend_state \<Rightarrow> int option" where
  "attempts_of E rid i s = Option.bind (run_in (be_digests E) (bs_store s) rid)
     (\<lambda>snap. map_option n_attempts (map_of (rs_nodes snap) i))"

lemma attempts_of_run:
  "run_in (be_digests E) (bs_store s) rid = Some snap \<Longrightarrow> map_of (rs_nodes snap) i = Some n \<Longrightarrow>
     attempts_of E rid i s = Some (n_attempts n)"
  by (simp add: attempts_of_def)

lemma retry_call_room:
  assumes "roomy E rid s" and "attempts_of E rid i s = Some a"
    and "store_call E (C_Retry rid i cls why base mx (retry_key i (a + 1))) s = (s', r)"
  shows "roomy E rid s' \<and> (\<forall>v. r = Inr v \<longrightarrow> attempts_of E rid i s' = Some (a + 1))"
proof -
  obtain w t u where clock: "be_clock E (bs_world s) = (w, t, u)" by (cases "be_clock E (bs_world s)")
  from assms(2) obtain snap n where n: "run_in (be_digests E) (bs_store s) rid = Some snap"
      "map_of (rs_nodes snap) i = Some n" "a = n_attempts n"
    by (auto simp: attempts_of_def bind_eq_Some_conv)
  obtain st q where call: "run_call (be_digests E) (C_Retry rid i cls why base mx (retry_key i (a + 1))) t u (bs_store s) = (st, q)"
    by force
  with assms(3) clock have s': "s' = s\<lparr>bs_store := st, bs_world := w\<rparr>" "r = map_sum Store_Error id q"
    by (simp_all add: store_call_def)
  have "rt_reachable (be_digests E) st"
    using rt_later_reachable [OF rt_later_call] assms(1) call by (metis exec_call_def fst_conv roomy_def)
  with retry_uses_room [OF _ _ n(1,2), of cls why base mx t u st q] assms(1) call n(3) s' show ?thesis
    by (cases q) (auto simp: roomy_def attempts_of_def)
qed

lemma load_run_same:
  assumes "roomy E rid s" and "load_run E rid s = (s', r)"
  shows "run_in (be_digests E) (bs_store s') rid = run_in (be_digests E) (bs_store s) rid"
  using assms call_elsewhere [OF reachable_ok, of "be_digests E" "bs_store s" rid "C_Load rid" 0 0]
    load_run_store [of E rid s 0 0]
  by (simp add: roomy_def)

lemma record_retry_room:
  assumes room: "roomy E rid s" and rec: "record_retry_if_allowed E rid n kind e s = (s', r)"
  shows "roomy E rid s' \<and> (r = Inr True \<longrightarrow> (\<exists>p a. ns_retry n = Some p \<and> attempts_of E rid (ns_id n) s = Some a \<and>
    attempts_of E rid (ns_id n) s' = Some (a + 1) \<and> a + 1 < rp_max_attempts p))"
proof (cases "\<exists>p. ns_retry n = Some p \<and> classify_retry kind e \<noteq> Permanent")
  case False
  with room rec show ?thesis by (auto simp: record_retry_if_allowed_def Let_def split: option.splits if_splits)
next
  case True
  then obtain p where p: "ns_retry n = Some p" and cls: "classify_retry kind e \<noteq> Permanent" by blast
  let ?i = "ns_id n"
  obtain s1 q where load: "load_run E rid s = (s1, q)" by force
  have room1: "roomy E rid s1" using roomy_loads(1) [OF room, of rid] load by simp
  show ?thesis
  proof (cases q)
    case (Inl x)
    with rec load p cls room1 show ?thesis by (auto simp: record_retry_if_allowed_def abind_def Let_def)
  next
    case (Inr snap)
    have snap: "run_in (be_digests E) (bs_store s) rid = Some snap"
      by (rule load_run_Inr) (use load Inr room in \<open>auto simp: roomy_def\<close>)
    then have snap1: "run_in (be_digests E) (bs_store s1) rid = Some snap" using load_run_same [OF room load] by simp
    have rest: "(case find_node snap ?i of Inl x \<Rightarrow> (s1, Inl (Store_Error x))
      | Inr x \<Rightarrow> if rp_max_attempts p \<le> n_attempts x + 1 then (s1, Inr False)
          else abind (store_call E (C_Retry rid ?i (classify_retry kind e) e (rp_backoff p) (rp_backoff p)
                 (retry_key ?i (n_attempts x + 1)))) (\<lambda>_. areturn True) s1) = (s', r)"
      using rec load Inr p cls
      by (cases "map_of (rs_nodes snap) ?i")
        (auto simp: record_retry_if_allowed_def abind_def [of "load_run E rid"] abind_def [of "node_in snap ?i"]
          Let_def node_in_def find_node_def split: if_splits)
    show ?thesis
    proof (cases "map_of (rs_nodes snap) ?i")
      case None
      with rest room1 show ?thesis by (auto simp: find_node_def)
    next
      case (Some x)
      note a = attempts_of_run [OF snap Some] attempts_of_run [OF snap1 Some]
      show ?thesis
      proof (cases "rp_max_attempts p \<le> n_attempts x + 1")
        case True
        with rest room1 Some show ?thesis by (auto simp: find_node_def)
      next
        case False
        obtain s2 v where call: "store_call E (C_Retry rid ?i (classify_retry kind e) e (rp_backoff p) (rp_backoff p)
            (retry_key ?i (n_attempts x + 1))) s1 = (s2, v)" by force
        with rest Some False have "s' = s2" "r = Inr True \<longrightarrow> (\<exists>y. v = Inr y)"
          by (auto simp: find_node_def abind_def split: sum.splits)
        with retry_call_room [OF room1 a(2) call] a(1) False p show ?thesis by auto
      qed
    qed
  qed
qed

interpretation room_kept: backend_order E rid "\<lambda>s s'. roomy E rid s \<longrightarrow> roomy E rid s'" for E rid
proof unfold_locales
  show "roomy E rid s \<longrightarrow> roomy E rid (fst (record_retry_if_allowed E rid n kind e s))" for s n kind e
    using record_retry_room [of E rid s n kind e] by (metis prod.collapse)
  show "roomy E rid s \<longrightarrow> roomy E rid (fst (store_call E (C_Complete rid ''runtime:complete'') s))" for s
    by (simp add: roomy_call plain_call_def)
qed (auto intro: roomy_call roomy_loads roomy_same_store
    simp: plain_call_def write_result_def write_spec_manifest_def)

lemma attempt_Again:
  assumes "attempt_node E rid n h s = (s', Again)"
  shows "\<exists>w k e. record_retry_if_allowed E rid n k e (s\<lparr>bs_world := w\<rparr>) = (s', Inr True)"
  using assms
  by (auto simp: attempt_node_def after_failure_def Let_def
      split: prod.splits handler_outcome.splits sum.splits if_splits bool.splits)

lemma retry_loop_returns:
  assumes "roomy E rid s"
  shows "retry_loop E rid n h s \<noteq> None"
proof -
  define M where "M = (case ns_retry n of None \<Rightarrow> 0 | Some p \<Rightarrow> rp_max_attempts p)"
  define left where "left s = (case attempts_of E rid (ns_id n) s of None \<Rightarrow> 0 | Some a \<Rightarrow> nat (M - a))" for s :: "'a backend_state"
  show ?thesis
    using assms
  proof (induction "left s" arbitrary: s rule: less_induct)
    case less
    obtain s' a where a: "attempt_node E rid n h s = (s', a)" by force
    show ?case
    proof (cases a)
      case (Final r)
      with a show ?thesis by (simp add: retry_loop.simps [of E rid n h s])
    next
      case Again
      with a obtain w k e where rec: "record_retry_if_allowed E rid n k e (s\<lparr>bs_world := w\<rparr>) = (s', Inr True)"
        using attempt_Again by blast
      have "roomy E rid (s\<lparr>bs_world := w\<rparr>)" using less.prems by (rule roomy_same_store) simp
      from record_retry_room [OF this rec] have "roomy E rid s'" "left s' < left s"
        by (auto simp: left_def M_def attempts_of_def)
      with less.hyps a Again show ?thesis by (simp add: retry_loop.simps [of E rid n h s])
    qed
  qed
qed

text \<open>A part that ends, from every state with room.\<close>

definition finishes :: "'w backend \<Rightarrow> string \<Rightarrow> ('w, 'a) backend_run \<Rightarrow> bool" where
  "finishes E rid m \<longleftrightarrow> (\<forall>s. roomy E rid s \<longrightarrow> m s \<noteq> None)"

lemma finishes_olift: "finishes E rid (olift m)"
  by (simp add: finishes_def olift_def)

lemma finishes_obind:
  "finishes E rid m \<Longrightarrow> room_kept.oquiet E rid m \<Longrightarrow> (\<And>x. finishes E rid (f x)) \<Longrightarrow> finishes E rid (obind m f)"
  unfolding finishes_def room_kept.oquiet_def obind_def by (fastforce split: option.splits prod.splits sum.splits)

lemma finishes_lifted:
  "room_kept.quiet E rid m \<Longrightarrow> (\<And>x. finishes E rid (f x)) \<Longrightarrow> finishes E rid (obind (olift m) f)"
  by (intro finishes_obind finishes_olift room_kept.oquiet_olift)

lemma finishes_ocatch: "finishes E rid m \<Longrightarrow> finishes E rid (ocatch m f)"
  unfolding finishes_def ocatch_def by (auto split: option.splits prod.splits sum.splits)

lemma finishes_ofinally: "finishes E rid m \<Longrightarrow> finishes E rid (ofinally m c)"
  unfolding finishes_def ofinally_def by (fastforce split: option.splits prod.splits sum.splits)

lemma finishes_run_node: "finishes E rid (run_node E rid n h)"
  unfolding run_node_def
  by (intro finishes_lifted finishes_ofinally room_kept.quiet_acquire_node_lease) (simp add: finishes_def retry_loop_returns)

lemma finishes_run_ready: "finishes E rid (run_ready E rid ns)"
proof (induction ns)
  case (Cons n ns)
  then show ?case
    by (cases "be_handlers E (ns_id n)")
      (auto intro!: finishes_obind finishes_olift finishes_run_node room_kept.oquiet_run_node room_kept.oquiet_run_ready)
qed (simp add: finishes_olift)

lemma finishes_run_layers: "sp_run_id sp = rid \<Longrightarrow> finishes E rid (run_layers E sp ls)"
proof (induction ls)
  case (Cons l ls)
  have scan: "room_kept.quiet E rid (abind (load_run E rid) (\<lambda>current. scan_layer E sp current l []))"
    by (intro room_kept.quiet_abind room_kept.quiet_calls(2) room_kept.quiet_scan_layer [OF Cons.prems])
  have "finishes E rid (case b of None \<Rightarrow> run_layers E sp ls | Some r \<Rightarrow> olift (stop_run E sp r))" for b
    using Cons by (simp add: finishes_olift split: option.split)
  then have "finishes E rid (obind (run_ready E rid ready) (\<lambda>rs. obind (olift (settle_layer E rid rs None))
      (\<lambda>b. case b of None \<Rightarrow> run_layers E sp ls | Some r \<Rightarrow> olift (stop_run E sp r))))" for ready
    by (intro finishes_obind finishes_lifted finishes_run_ready room_kept.oquiet_run_ready room_kept.quiet_settle_layer)
  then show ?case
    unfolding run_layers.simps Cons.prems
    by (intro finishes_lifted [OF scan]) (simp add: finishes_olift split: flow.split)
qed (simp add: finishes_olift)

lemma finishes_run_from:
  assumes "sp_run_id sp = rid"
  shows "finishes E rid (run_from E sp snap)"
proof -
  have "finishes E rid (run_graph E sp)"
    unfolding run_graph_def by (intro finishes_ocatch finishes_lifted finishes_run_layers [OF assms] room_kept.quiet_pure)
  then show ?thesis
    unfolding run_from_def assms
    by (auto intro!: finishes_olift finishes_lifted room_kept.quiet_if simp: assms)
qed

lemma execute_ends:
  assumes "rt_reachable (be_digests E) (bs_store s)" and "retry_room (be_digests E) (sp_run_id sp) (bs_store s)"
  shows "\<exists>s' r. execute E sp resuming s = Some (s', r) \<and> rt_reachable (be_digests E) (bs_store s') \<and>
    retry_room (be_digests E) (sp_run_id sp) (bs_store s')"
proof -
  let ?rid = "sp_run_id sp"
  have room: "roomy E ?rid s" using assms by (simp add: roomy_def)
  then have "roomy E ?rid (s\<lparr>bs_done := []\<rparr>)" by (rule roomy_same_store) simp
  moreover have "finishes E ?rid (obind (olift (load_or_create E sp resuming)) (run_from E sp))"
    by (intro finishes_lifted room_kept.quiet_load_or_create finishes_run_from) simp_all
  ultimately obtain y where "execute E sp resuming s = Some y"
    by (cases "missing_handlers E sp s = []") (auto simp: execute_def finishes_def)
  then obtain s' r where run: "execute E sp resuming s = Some (s', r)" by (cases y) simp
  from room_kept.execute_respects [OF run refl] room have "roomy E ?rid s'" by simp
  with run show ?thesis by (simp add: roomy_def)
qed

text \<open>
  C3: An execution always returns, whatever its handlers do, on every store that calls can produce on which the
  keys of its further retries are fresh (as they are when the run does not exist yet); and it leaves them fresh, so
  that a later execution of the run returns as well.
\<close>

theorem execution_returns:
  assumes "rt_reachable (be_digests E) (bs_store s)" and "retry_room (be_digests E) (sp_run_id sp) (bs_store s)"
  shows "\<exists>s' r. execute E sp resuming s = Some (s', r) \<and> rt_reachable (be_digests E) (bs_store s') \<and>
    retry_room (be_digests E) (sp_run_id sp) (bs_store s')"
  by (rule execute_ends [OF assms])

end
