(* ===== verification/Run_Results.thy ===== *)
theory Run_Results
  imports Run_Ready
begin

section \<open>Run graphs: the results of a completed run\<close>

text \<open>
  An execution reports a run as completed only with one result for each node of the specification, and each
  of them passes the check of its node: it names the node, carries its key and, for a node with side effects
  that succeeded, digest-backed evidence of completion.
\<close>

definition covers :: "node_spec list \<Rightarrow> node_result list \<Rightarrow> bool" where
  "covers ns rs \<longleftrightarrow> (\<exists>ms. mset ms = mset ns \<and> list_all2 (\<lambda>n r. validate_node_result n r = Inr ()) ms rs)"

lemma covers_Nil: "covers [] []"
  by (simp add: covers_def)

lemma covers_append: "covers ns rs \<Longrightarrow> covers ns' rs' \<Longrightarrow> covers (ns @ ns') (rs @ rs')"
  unfolding covers_def by (metis list_all2_appendI mset_append)

lemma covers_one: "validate_node_result n r = Inr () \<Longrightarrow> covers [n] [r]"
  unfolding covers_def by (rule exI [of _ "[n]"]) simp

lemma covers_mset: "covers ns rs \<Longrightarrow> mset ns = mset ns' \<Longrightarrow> covers ns' rs"
  by (simp add: covers_def)

lemma covers_zip: "list_all (\<lambda>(n, r). validate_node_result n r = Inr ()) xs \<Longrightarrow> covers (map fst xs) (map snd xs)"
proof (induction xs)
  case (Cons x xs)
  then show ?case using covers_append [OF covers_one [of "fst x" "snd x"], of "map fst xs" "map snd xs"] by (auto split: prod.splits)
qed (simp add: covers_Nil)

lemma covers_results:
  assumes "covers ns rs"
  shows "mset (map nr_node rs) = mset (map ns_id ns) \<and>
    (\<forall>r\<in>set rs. \<exists>n\<in>set ns. nr_node r = ns_id n \<and> validate_node_result n r = Inr ())"
proof -
  from assms obtain ms where ms: "mset ms = mset ns" "list_all2 (\<lambda>n r. validate_node_result n r = Inr ()) ms rs"
    by (auto simp: covers_def)
  have node: "validate_node_result n r = Inr () \<Longrightarrow> nr_node r = ns_id n" for n r
    by (auto simp: validate_node_result_def result_simps)
  from ms(2) have "map nr_node rs = map ns_id ms"
    by (induction rule: list_all2_induct) (simp_all add: node)
  moreover have "\<exists>n\<in>set ms. validate_node_result n r = Inr ()" if "r \<in> set rs" for r
    using ms(2) that by (induction rule: list_all2_induct) auto
  ultimately show ?thesis using ms(1) node by (metis mset_eq_setD mset_map)
qed

subsection \<open>The list of results\<close>

lemma quiet_done: "files_kept.quiet m \<Longrightarrow> m s = (s', r) \<Longrightarrow> bs_done s' = bs_done s"
  using files_kept.quietD by blast

lemma make_outcome_Inr: "make_outcome E sp st rs e s = (s', Inr rr) \<Longrightarrow> s' = s \<and> rr_status rr = st \<and> rr_results rr = rs"
  by (auto simp: make_outcome_def make_run_result_def result_simps)

lemma outcomes_not_ok:
  "cancelled_result E sp s = (s', Inr rr) \<Longrightarrow> rr_status rr \<noteq> Run_OK"
  "interrupted_result E sp i s = (s', Inr rr) \<Longrightarrow> rr_status rr \<noteq> Run_OK"
  "terminal_result E sp r s = (s', Inr rr) \<Longrightarrow> rr_status rr \<noteq> Run_OK"
  by (auto simp: cancelled_result_def interrupted_result_def terminal_result_def dest!: make_outcome_Inr split: if_splits)

text \<open>What the scan of a node does to the list: nothing for a node it admits, else one valid result.\<close>

lemma replay_done:
  assumes "replay_node E sp n ready s = (s', Inr f)"
  shows "case f of Outcome rr \<Rightarrow> rr_status rr \<noteq> Run_OK
    | Onward ready' \<Rightarrow> \<exists>r. ready' = ready \<and> bs_done s' = bs_done s @ [r] \<and> validate_node_result n r = Inr ()"
proof -
  from assms obtain r s1 s2 where r: "validate_node_result n r = Inr ()" "load_result (sp_run_id sp) (ns_id n) s = (s1, Inr r)"
    and persisted: "apply_persisted E (sp_run_id sp) r s1 = (s2, Inr ())"
    and rest: "(if nr_status r = Node_OK then areturn (Onward ready)
       else abind (if nr_status r = Node_Skipped
                   then settle_run E sp r (reason_or (ns_id n @ '' skipped'') (nr_error r)) else areturn ()) (\<lambda>_.
            abind (terminal_result E sp r) (\<lambda>rr. areturn (Outcome rr)))) (s2\<lparr>bs_done := bs_done s2 @ [r]\<rparr>) = (s', Inr f)"
    by (auto simp: replay_node_def result_simps push_result_def)
  have "bs_done s1 = bs_done s" using r(2) by (simp add: load_result_def)
  moreover have "bs_done s2 = bs_done s1"
    by (rule quiet_done [OF files_kept.quiet_apply_persisted persisted])
  ultimately show ?thesis
    using rest r(1) by (auto simp: result_simps outcomes_not_ok split: if_splits)
qed

lemma admit_done:
  assumes "admit_node E sp st n ready s = (s', Inr f)"
  shows "case f of Outcome rr \<Rightarrow> rr_status rr \<noteq> Run_OK | Onward ready' \<Rightarrow> ready' = ready @ [n] \<and> bs_done s' = bs_done s"
proof -
  have "files_kept.quiet (admit_node E sp st n ready)"
    unfolding admit_node_def Let_def
    by (auto intro!: files_kept.quiet_abind files_kept.quiet_if files_kept.quiet_has_approval files_kept.quiet_request_approvals
        files_kept.quiet_call_on)
  from quiet_done [OF this assms] have "bs_done s' = bs_done s" .
  with assms show ?thesis
    by (auto simp: admit_node_def Let_def result_simps outcomes_not_ok split: if_splits)
qed

lemma scan_node_done:
  assumes "scan_node E sp current n ready s = (s', Inr f)"
  shows "case f of Outcome rr \<Rightarrow> rr_status rr \<noteq> Run_OK
    | Onward ready' \<Rightarrow> ready' = ready @ [n] \<and> bs_done s' = bs_done s \<or>
        (\<exists>r. ready' = ready \<and> bs_done s' = bs_done s @ [r] \<and> validate_node_result n r = Inr ())"
proof -
  from assms obtain x where x: "map_of (rs_nodes current) (ns_id n) = Some x"
    by (auto simp: scan_node_def result_simps)
  consider (ok) "n_state x = N_Succeeded" | (stop) "n_state x \<in> {N_Cancelled, N_Awaiting_Approval}"
    | (replay) "n_state x \<notin> {N_Succeeded, N_Cancelled, N_Awaiting_Approval}" "has_result s (sp_run_id sp) (ns_id n)"
    | (admit) "n_state x \<notin> {N_Succeeded, N_Cancelled, N_Awaiting_Approval}" "\<not> has_result s (sp_run_id sp) (ns_id n)"
    by blast
  then show ?thesis
  proof cases
    case ok
    with assms x show ?thesis by (auto simp: scan_node_def result_simps push_result_def load_result_def)
  next
    case stop
    with assms x show ?thesis by (auto simp: scan_node_def result_simps outcomes_not_ok)
  next
    case replay
    with assms x have "replay_node E sp n ready s = (s', Inr f)" by (auto simp: scan_node_def result_simps)
    from replay_done [OF this] show ?thesis by (simp split: flow.splits)
  next
    case admit
    with assms x have "admit_node E sp (n_state x) n ready s = (s', Inr f)"
      by (auto simp: scan_node_def result_simps dependencies_met_def split: if_splits)
    from admit_done [OF this] show ?thesis by (simp split: flow.splits)
  qed
qed

lemma scan_layer_done:
  assumes "scan_layer E sp current ns ready s = (s', Inr f)"
  shows "case f of Outcome rr \<Rightarrow> rr_status rr \<noteq> Run_OK
    | Onward ready' \<Rightarrow> \<exists>more old rs. ready' = ready @ more \<and> bs_done s' = bs_done s @ rs \<and>
        mset ns = mset more + mset old \<and> covers old rs"
  using assms
proof (induction ns arbitrary: ready s)
  case Nil
  then show ?case using covers_Nil by auto
next
  case (Cons n ns)
  then obtain t g where g: "scan_node E sp current n ready s = (t, Inr g)"
    and rest: "(case g of Onward ready' \<Rightarrow> scan_layer E sp current ns ready' | Outcome rr \<Rightarrow> areturn (Outcome rr)) t = (s', Inr f)"
    by (auto simp: result_simps)
  show ?case
  proof (cases g)
    case (Outcome rr)
    with rest scan_node_done [OF g] show ?thesis by auto
  next
    case (Onward mid)
    with rest have layer: "scan_layer E sp current ns mid t = (s', Inr f)" by simp
    show ?thesis
    proof (cases f)
      case (Outcome rr)
      with Cons.IH [OF layer] show ?thesis by simp
    next
      case f: (Onward ready')
      with Cons.IH [OF layer] obtain more old rs where IH: "ready' = mid @ more" "bs_done s' = bs_done t @ rs"
        "mset ns = mset more + mset old" "covers old rs" by auto
      from scan_node_done [OF g] Onward consider "mid = ready @ [n]" "bs_done t = bs_done s"
        | r where "mid = ready" "bs_done t = bs_done s @ [r]" "validate_node_result n r = Inr ()" by auto
      then show ?thesis
      proof cases
        case 1
        with IH f show ?thesis by (auto intro!: exI [of _ "n # more"] exI [of _ old])
      next
        case 2
        with IH f covers_append [OF covers_one [OF 2(3)] IH(4)] show ?thesis
          by (auto intro!: exI [of _ more] exI [of _ "n # old"])
      qed
    qed
  qed
qed

subsection \<open>Handlers\<close>

lemma attempt_done:
  assumes "attempt_node E rid n h s = (s', a)"
  shows "bs_done s' = bs_done s \<and> (\<forall>r. a = Final (Inr r) \<longrightarrow> nr_status r = Node_OK \<longrightarrow> validate_node_result n r = Inr ())"
proof -
  have keep: "record_retry_if_allowed E rid n k e (s\<lparr>bs_world := w\<rparr>) = (s2, b) \<Longrightarrow> bs_done s2 = bs_done s" for k e w s2 b
    using quiet_done [OF files_kept.quiet_calls(4)] by fastforce
  have failed: "make_node_result r = Inr q \<Longrightarrow> q = r" for r q
    by (auto simp: make_node_result_def result_simps)
  show ?thesis
    using assms
    by (auto simp: attempt_node_def after_failure_def Let_def map_sum_def dest: keep failed
        split: prod.splits handler_outcome.splits sum.splits if_splits bool.splits)
qed

lemma retry_done:
  assumes "retry_loop E rid n h s = Some y"
  shows "bs_done (fst y) = bs_done s \<and> (\<forall>r. snd y = Inr r \<longrightarrow> nr_status r = Node_OK \<longrightarrow> validate_node_result n r = Inr ())"
  using assms
proof (induction rule: retry_loop.raw_induct [rotated, consumes 1, case_names step])
  case (step loop E rid n h s y)
  obtain t a where a: "attempt_node E rid n h s = (t, a)" by force
  from attempt_done [OF this] step show ?case by (cases a) (use a in auto)
qed

lemma run_node_done:
  assumes "run_node E rid n h s = Some (s', q)"
  shows "bs_done s' = bs_done s \<and> (\<forall>r. q = Inr r \<longrightarrow> nr_status r = Node_OK \<longrightarrow> validate_node_result n r = Inr ())"
  using assms unfolding run_node_def
proof (cases rule: obind_cases)
  case (raises e)
  with quiet_done [OF files_kept.quiet_acquire_node_lease] show ?thesis by fastforce
next
  case (returns t l)
  then have t: "bs_done t = bs_done s" using quiet_done [OF files_kept.quiet_acquire_node_lease] by fastforce
  let ?drop = "drop_lease E rid (ns_id n) (l_token l) (release_key (ns_id n) (l_token l))"
  from returns(2) obtain u v where u: "retry_loop E rid n h t = Some (u, v)"
    and s': "fst (?drop u) = s'" and q: "\<forall>r. q = Inr r \<longrightarrow> v = Inr r"
    by (auto simp: ofinally_def split: option.splits prod.splits sum.splits)
  have "bs_done s' = bs_done u"
    using files_kept.quiet_drop_lease [unfolded files_kept.quiet_def] s' by blast
  with retry_done [OF u] t q show ?thesis by auto
qed

lemma run_ready_done:
  assumes "run_ready E rid ns s = Some (s', Inr rs)"
  shows "bs_done s' = bs_done s \<and> (list_all (\<lambda>(n, r). nr_status r = Node_OK) rs \<longrightarrow>
    map fst rs = ns \<and> list_all (\<lambda>(n, r). validate_node_result n r = Inr ()) rs)"
  using assms
proof (induction ns arbitrary: s s' rs)
  case (Cons n ns)
  from Cons.prems obtain h where "be_handlers E (ns_id n) = Some h" by (cases "be_handlers E (ns_id n)") auto
  with Cons.prems have "obind (run_node E rid n h) (\<lambda>r. if nr_status r \<noteq> Node_OK then olift (areturn [(n, r)])
      else obind (run_ready E rid ns) (\<lambda>rs. olift (areturn ((n, r) # rs)))) s = Some (s', Inr rs)" by simp
  then show ?case
  proof (cases rule: obind_cases)
    case (returns t r)
    from run_node_done [OF returns(1)] have t: "bs_done t = bs_done s"
      "nr_status r = Node_OK \<Longrightarrow> validate_node_result n r = Inr ()" by auto
    show ?thesis
    proof (cases "nr_status r = Node_OK")
      case True
      with returns(2) have "obind (run_ready E rid ns) (\<lambda>rs. olift (areturn ((n, r) # rs))) t = Some (s', Inr rs)" by simp
      then show ?thesis
      proof (cases rule: obind_cases)
        case (returns u qs)
        with Cons.IH [OF returns(1)] t True show ?thesis by auto
      qed simp
    next
      case False
      with returns(2) t show ?thesis by auto
    qed
  qed simp
qed auto

lemma settle_layer_bad: "settle_layer E rid rs (Some b) s \<noteq> (s', Inr None)"
  by (induction rs arbitrary: b s) (auto simp: result_simps split: node_status.splits)

lemma settle_layer_done:
  assumes "settle_layer E rid rs None s = (s', Inr None)"
  shows "list_all (\<lambda>(n, r). nr_status r = Node_OK) rs \<and> bs_done s' = bs_done s @ map snd rs"
  using assms
proof (induction rs arbitrary: s)
  case (Cons x rs)
  obtain n r where x: "x = (n, r)" by force
  let ?s = "(fst (write_result rid r s))\<lparr>bs_done := bs_done s @ [r]\<rparr>"
  from Cons.prems x have ok: "nr_status r = Node_OK"
    by (auto simp: result_simps settle_layer_bad split: node_status.splits)
  with Cons.prems x obtain t v where t: "call_on E (C_Complete_Node rid (ns_id n) (node_key (ns_id n) ''complete'')) ?s = (t, Inr v)"
    and rest: "settle_layer E rid rs None t = (s', Inr None)"
    by (auto simp: result_simps write_result_def push_result_def)
  have "bs_done t = bs_done ?s" by (rule quiet_done [OF files_kept.quiet_call_on t]) simp
  with Cons.IH [OF rest] ok x show ?case by simp
qed (auto simp: result_simps)

subsection \<open>Executions\<close>

lemma run_layers_done:
  assumes "run_layers E sp ls s = Some (s', Inr rr)" and "rr_status rr = Run_OK"
  shows "\<exists>rs. rr_results rr = bs_done s @ rs \<and> covers (concat ls) rs"
  using assms(1)
proof (induction ls arbitrary: s)
  case Nil
  then obtain t v where t: "call_on E (C_Complete (sp_run_id sp) ''runtime:complete'') s = (t, Inr v)"
    and o: "make_outcome E sp Run_OK (bs_done t) None t = (s', Inr rr)"
    by (auto simp: result_simps)
  have "bs_done t = bs_done s"
    using t by (auto simp: call_on_def result_simps) (metis calls_leave_files(2) fst_conv)
  with make_outcome_Inr [OF o] show ?case by (simp add: covers_Nil)
next
  case (Cons l ls)
  let ?rid = "sp_run_id sp"
  from Cons.prems show ?case unfolding run_layers.simps
  proof (cases rule: obind_cases)
    case (returns t f)
    then obtain current u where load: "load_run E ?rid s = (u, Inr current)"
      and scan: "scan_layer E sp current l [] u = (t, Inr f)" by (auto simp: result_simps)
    have u: "bs_done u = bs_done s" by (rule quiet_done [OF files_kept.quiet_calls(2) load])
    show ?thesis
    proof (cases f)
      case (Outcome q)
      with returns(2) scan_layer_done [OF scan] assms(2) show ?thesis by simp
    next
      case (Onward ready)
      with scan_layer_done [OF scan] u obtain old rs where old: "bs_done t = bs_done s @ rs"
        "mset l = mset ready + mset old" "covers old rs" by auto
      from returns(2) Onward obtain v qs w bad where v: "run_ready E ?rid ready t = Some (v, Inr qs)"
        and w: "settle_layer E ?rid qs None v = (w, Inr bad)"
        and rest: "(case bad of None \<Rightarrow> run_layers E sp ls | Some b \<Rightarrow> olift (stop_run E sp b)) w = Some (s', Inr rr)"
        by (auto simp: obind_def olift_def split: option.splits prod.splits sum.splits)
      show ?thesis
      proof (cases bad)
        case None
        with settle_layer_done w have ok: "list_all (\<lambda>(n, r). nr_status r = Node_OK) qs" "bs_done w = bs_done v @ map snd qs"
          by blast+
        with run_ready_done [OF v] have "covers ready (map snd qs)" using covers_zip by fastforce
        from covers_append [OF old(3) this] have l: "covers l (rs @ map snd qs)"
          by (rule covers_mset) (simp add: old(2))
        from rest None Cons.IH obtain more where "rr_results rr = bs_done w @ more" "covers (concat ls) more" by auto
        with covers_append [OF l] ok(2) run_ready_done [OF v] old(1) show ?thesis by auto
      next
        case (Some b)
        with rest have "stop_run E sp b w = (s', Inr rr)" by simp
        then have "rr_status rr \<noteq> Run_OK" by (auto simp: stop_run_def result_simps outcomes_not_ok)
        with assms(2) show ?thesis by simp
      qed
    qed
  qed simp
qed

lemma load_or_create_done:
  assumes "load_or_create E sp resuming s = (s', r)"
  shows "bs_done s' = bs_done s"
proof -
  have "bs_done t = bs_done s" if "write_spec_manifest E sp s = (t, q)" for s t q
    using that by (auto simp: write_spec_manifest_def)
  with assms show ?thesis
    by (auto simp: load_or_create_def if_missing_def abind_def contract_def validate_stored_spec_def
        split: prod.splits sum.splits if_splits rt_value.splits
        dest!: quiet_done [OF files_kept.quiet_calls(2)] arg_cong [of _ _ fst] simp: calls_leave_files)
qed

lemma load_results_covers:
  assumes "load_results sp ns s = (s', Inr rs)"
  shows "covers ns rs"
  using assms
proof (induction ns arbitrary: s rs)
  case (Cons n ns)
  then obtain r t rs' where "validate_node_result n r = Inr ()" "load_results sp ns t = (s', Inr rs')" "rs = r # rs'"
    by (auto simp: result_simps)
  with Cons.IH covers_append [OF covers_one, of n r ns rs'] show ?case by simp
qed (auto simp: covers_Nil)

lemma topological_mset:
  assumes "make_run_spec sp = Inr sp"
  shows "mset (topological_order sp) = mset (sp_nodes sp)"
proof -
  let ?ns = "sp_nodes sp"
  from assms have d: "distinct (map ns_id ?ns)" and "known_dependencies ?ns" "acyclic (depends ?ns)"
    by (auto simp: make_run_spec_iff)
  with topological_complete_iff [OF d] have len: "length (topological ?ns) = length ?ns" by blast
  have t: "distinct (map ns_id (topological ?ns))" by (simp add: map_topological [OF d] topological_ids(1) [OF d])
  have "set (topological ?ns) = set ?ns"
    using set_topological [OF d] len distinct_card [of "topological ?ns"] distinct_card [of ?ns] d t
    by (metis card_subset_eq distinct_map finite_set)
  with d t show ?thesis
    by (simp add: topological_order_def distinct_map set_eq_iff_mset_eq_distinct)
qed

lemma execute_covers:
  assumes spec: "make_run_spec sp = Inr sp" and run: "execute E sp resuming s = Some (s', Inr rr)" and ok: "rr_status rr = Run_OK"
  shows "covers (sp_nodes sp) (rr_results rr)"
proof -
  from run obtain snap t where create: "load_or_create E sp resuming (s\<lparr>bs_done := []\<rparr>) = (t, Inr snap)"
    and rest: "run_from E sp snap t = Some (s', Inr rr)"
    by (auto simp: execute_def obind_def olift_def split: option.splits prod.splits sum.splits if_splits)
  have t: "bs_done t = []" using load_or_create_done [OF create] by simp
  show ?thesis
  proof (cases "rs_state snap = R_Completed")
    case True
    with rest obtain u rs where "load_results sp (topological_order sp) t = (u, Inr rs)"
      and "make_outcome E sp Run_OK rs None u = (s', Inr rr)"
      by (auto simp: run_from_def result_simps)
    with load_results_covers make_outcome_Inr have "covers (topological_order sp) (rr_results rr)" by metis
    then show ?thesis by (rule covers_mset) (rule topological_mset [OF spec])
  next
    case False
    have stopped: "rs_state snap \<notin> {R_Awaiting_Approval, R_Cancelled}"
      using rest False ok by (auto simp: run_from_def outcomes_not_ok)
    with rest False obtain u where start: "(if rs_state snap \<noteq> R_Running
        then call_on E (C_Start (sp_run_id sp) ''runtime:start'') else areturn ()) t = (u, Inr ())"
      and graph: "run_graph E sp u = Some (s', Inr rr)"
      by (auto simp: run_from_def obind_def olift_def split: option.splits prod.splits sum.splits)
    have "files_kept.quiet (if rs_state snap \<noteq> R_Running
        then call_on E (C_Start (sp_run_id sp) ''runtime:start'') else areturn ())"
      by (intro files_kept.quiet_if files_kept.quiet_call_on files_kept.quiet_pure) simp
    from quiet_done [OF this start] have "bs_done u = bs_done t" .
    moreover from graph ok obtain v ls where "contract (dependency_layers sp) u = (v, Inr ls)"
      and layers: "run_layers E sp ls v = Some (s', Inr rr)"
      by (auto simp: run_graph_def ocatch_def obind_def olift_def result_simps dest!: make_outcome_Inr
          split: option.splits prod.splits sum.splits)
    then have "dependency_layers sp = Inr ls" "v = u" by (auto simp: contract_Inr)
    moreover from this(1) dependency_layers_ok [OF spec] have "mset (concat ls) = mset (sp_nodes sp)" by auto
    ultimately show ?thesis
      using run_layers_done [OF layers ok] t by (auto intro: covers_mset)
  qed
qed

text \<open>
  C4: A run is reported completed only with exactly one result for each node of its specification, each under the
  key of its node; and a node with side effects is among the succeeded ones only with digest-backed evidence of
  its completion.
\<close>

theorem completed_run_is_backed:
  assumes "make_run_spec sp = Inr sp" and "execute E sp resuming s = Some (s', Inr rr)" and "rr_status rr = Run_OK"
  shows "mset (map nr_node (rr_results rr)) = mset (map ns_id (sp_nodes sp)) \<and>
    (\<forall>r\<in>set (rr_results rr). \<exists>n\<in>set (sp_nodes sp). nr_node r = ns_id n \<and> nr_key r = expected_key n \<and>
      (ns_side_effecting n \<and> nr_status r = Node_OK \<longrightarrow>
        (\<exists>e\<in>set (nr_evidence r). er_kind e = ''completion'' \<and> er_digest e \<noteq> None \<and> er_digest e \<noteq> Some [])))"
proof -
  have check: "nr_key r = expected_key n \<and> (ns_side_effecting n \<and> nr_status r = Node_OK \<longrightarrow>
      (\<exists>e\<in>set (nr_evidence r). er_kind e = ''completion'' \<and> er_digest e \<noteq> None \<and> er_digest e \<noteq> Some []))"
    if "validate_node_result n r = Inr ()" for n r
    using that by (auto simp: validate_node_result_def result_simps list_ex_iff)
  from covers_results [OF execute_covers [OF assms]] check show ?thesis by blast
qed

end
