(* ===== verification/Run_Witnesses.thy ===== *)
theory Run_Witnesses
  imports Run_Trip Run_Ends Run_Results Durable_Samples
begin

section \<open>Run graphs: a small run\<close>

text \<open>
  A run of two nodes: \<open>plan\<close> reads only, and \<open>fix\<close>, which depends on it, has side effects, may be
  retried once and needs an approval.  The source lists \<open>fix\<close> first.
\<close>

definition no_caps :: capability_set where
  "no_caps = \<lparr>cs_tools = [], cs_commands = [], cs_writes = False, cs_network = False, cs_secrets = []\<rparr>"

definition plan_node :: node_spec where
  "plan_node = \<lparr>ns_id = ''plan'', ns_kind = ''read'', ns_objective = ''look'', ns_completion = None, ns_dependencies = [],
     ns_side_effecting = False, ns_approval = False, ns_key = None, ns_timeout = None, ns_budget = None,
     ns_retry = None, ns_capabilities = no_caps, ns_metadata = [(''z'', JInt 1), (''a'', JInt 2)]\<rparr>"

definition fix_node :: node_spec where
  "fix_node = \<lparr>ns_id = ''fix'', ns_kind = ''edit'', ns_objective = ''mend'', ns_completion = Some ''tests pass'',
     ns_dependencies = [''plan''], ns_side_effecting = True, ns_approval = True, ns_key = Some ''k'',
     ns_timeout = Some (Int_Number 60), ns_budget = Some \<lparr>nb_timeout = 60, nb_max_cost = None, nb_max_tokens = Some 100\<rparr>,
     ns_retry = Some \<lparr>rp_max_attempts = 2, rp_backoff = 1\<rparr>, ns_capabilities = no_caps\<lparr>cs_writes := True\<rparr>,
     ns_metadata = []\<rparr>"

definition sample_spec :: run_spec where
  "sample_spec = \<lparr>sp_run_id = ''r'', sp_task = ''t'', sp_nodes = [fix_node, plan_node],
     sp_evidence = [\<lparr>er_id = ''e'', er_kind = ''log'', er_uri = ''u'', er_digest = None\<rparr>], sp_metadata = [],
     sp_schema = ''1''\<rparr>"

lemma sample_spec_ok: "spec_ok sample_spec"
  by code_simp

lemma sample_spec_made: "make_run_spec sample_spec = Inr sample_spec"
  using sample_spec_ok by (simp add: spec_ok_def)

theorem layers_respect_dependencies_witness:
  "dependency_layers sample_spec = Inr [[plan_node], [fix_node]] \<and>
     (\<exists>ls. dependency_layers sample_spec = Inr ls \<and> mset (concat ls) = mset (sp_nodes sample_spec) \<and> layered [] ls)"
proof
  show "dependency_layers sample_spec = Inr [[plan_node], [fix_node]]" by code_simp
qed (rule layers_respect_dependencies [OF sample_spec_made])

theorem run_spec_round_trip_witness:
  "read_run_spec (canon (run_spec_json sample_spec)) = Inr (canon_spec sample_spec) \<and>
   canon (run_spec_json (canon_spec sample_spec)) \<noteq> canon (run_spec_json sample_spec)"
proof -
  have "fix_node \<in> set (sp_nodes sample_spec)" "\<not> float_fields fix_node" by code_simp+
  with run_spec_round_trip [OF sample_spec_ok] show ?thesis by blast
qed

text \<open>A client that reads its specification back is refused its own run: the document, and so its digest, is another one.\<close>

lemma integer_timeout_changes_document:
  "\<exists>sp. read_run_spec (canon (run_spec_json sample_spec)) = Inr sp \<and> canon (run_spec_json sp) \<noteq> canon (run_spec_json sample_spec)"
proof -
  have "fix_node \<in> set (sp_nodes sample_spec)" "\<not> float_fields fix_node" by code_simp+
  then show ?thesis using read_run_spec_trip [OF sample_spec_ok] spec_json_same [of sample_spec] by blast
qed

subsection \<open>The run executed\<close>

text \<open>
  The world is the time, which each reading of the clock moves by one second.  Both handlers succeed, except
  that the first call of the one for \<open>fix\<close> (at an even time) fails with a message that may be retried.
\<close>

definition ok_result :: "node_spec \<Rightarrow> node_result" where
  "ok_result n = \<lparr>nr_node = ns_id n, nr_status = Node_OK, nr_key = expected_key n, nr_output = [],
     nr_evidence = [\<lparr>er_id = ''e'', er_kind = ''completion'', er_uri = ''u'', er_digest = Some ''d''\<rparr>], nr_error = None\<rparr>"

definition plan_handler :: "int node_handler" where
  "plan_handler n st w = (w, Returned (ok_result n))"

definition fix_handler :: "int node_handler" where
  "fix_handler n st w = (w + 1, if even w then Raised Other_Failure ''Too Many Requests'' else Returned (ok_result n))"

definition sample_backend :: "int backend" where
  "sample_backend = \<lparr>be_digests = sample_digests, be_spec_digest = (\<lambda>_. ''spec''),
     be_clock = (\<lambda>w. (w + 2, 1000000 * w, 1000000 * w + 1)),
     be_environment = sample_environment, be_git = sample_git,
     be_handlers = (\<lambda>i. if i = ''plan'' then Some plan_handler else if i = ''fix'' then Some fix_handler else None),
     be_error_text = (\<lambda>_. ''error'')\<rparr>"

text \<open>No run exists and no file is written; the world is \<open>w\<close>.\<close>

definition first_state :: "'w \<Rightarrow> 'w backend_state" where
  "first_state w = \<lparr>bs_store = (\<lambda>_. None), bs_results = (\<lambda>_. None), bs_specs = (\<lambda>_. None), bs_done = [], bs_world = w\<rparr>"

lemma first_state_room:
  "rt_reachable D (bs_store (first_state w))" "retry_room D rid (bs_store (first_state w))"
  by (simp_all add: first_state_def rt_reachable.init new_run_room run_in_def dir_of_def)

lemma sample_parts:
  "be_digests sample_backend = sample_digests" "sp_run_id sample_spec = ''r''" "sp_nodes sample_spec = [fix_node, plan_node]"
  by (simp_all add: sample_backend_def sample_spec_def)

theorem execution_returns_witness:
  "\<exists>s' r. execute sample_backend sample_spec False (first_state 0) = Some (s', r) \<and>
     retry_room sample_digests ''r'' (bs_store s')"
proof -
  from execution_returns [where E = sample_backend and sp = sample_spec and s = "first_state 0" and resuming = False, OF first_state_room] show ?thesis
    unfolding sample_parts by blast
qed

theorem handlers_run_when_ready_witness:
  "\<exists>s' r. execute (observed sample_backend) sample_spec False (first_state (0, [])) = Some (s', r) \<and>
     (\<forall>(n, st)\<in>set (snd (bs_world s')). n \<in> {fix_node, plan_node} \<and> dependencies_done sample_digests ''r'' st n)"
proof -
  from execute_ends [where E = "observed sample_backend" and sp = sample_spec and s = "first_state (0, [])"
      and resuming = False, OF first_state_room]
  obtain s' r where run: "execute (observed sample_backend) sample_spec False (first_state (0, [])) = Some (s', r)" by blast
  have "snd (bs_world (first_state (0 :: int, []))) = ([] :: handler_call list)" by (simp add: first_state_def)
  with handlers_run_when_ready [OF run first_state_room(1)]
  have "\<forall>(n, st)\<in>set (snd (bs_world s')). n \<in> set (sp_nodes sample_spec) \<and>
      dependencies_done (be_digests sample_backend) (sp_run_id sample_spec) st n" by auto
  with run show ?thesis unfolding sample_parts by auto
qed

text \<open>The run completed before, with its results persisted.\<close>

definition done_store :: store where
  "done_store = exec_call sample_digests (C_Complete ''r'' ''runtime:complete'') 30 30
     (exec_call sample_digests (C_Start ''r'' ''runtime:start'') 20 20
     (exec_call sample_digests (C_Create ''r'' [''fix'', ''plan''] None None sample_environment sample_git ''runtime:create'')
        10 10 (\<lambda>_. None)))"

definition done_state :: "int backend_state" where
  "done_state = fst (write_spec_manifest sample_backend sample_spec (fst (write_result ''r'' (ok_result fix_node)
     (fst (write_result ''r'' (ok_result plan_node) ((first_state 0)\<lparr>bs_store := done_store\<rparr>))))))"

lemma done_run:
  "map_option (map_sum id rr_status \<circ> snd) (execute sample_backend sample_spec True done_state) = Some (Inr Run_OK)"
  by code_simp

theorem completed_run_is_backed_witness:
  "\<exists>s' rr. execute sample_backend sample_spec True done_state = Some (s', Inr rr) \<and>
     mset (map nr_node (rr_results rr)) = {#''fix'', ''plan''#}"
proof -
  from done_run obtain s' q where y: "execute sample_backend sample_spec True done_state = Some (s', q)"
    and q: "map_sum id rr_status q = Inr Run_OK" by auto
  then obtain rr where run: "execute sample_backend sample_spec True done_state = Some (s', Inr rr)"
    and ok: "rr_status rr = Run_OK" by (cases q) auto
  from completed_run_is_backed [OF sample_spec_made run ok] run show ?thesis
    by (auto simp: sample_spec_def fix_node_def plan_node_def)
qed

end
