(* ===== verification/Verify_Checks.thy ===== *)
theory Verify_Checks
  imports Py_Glob Proof_Model Learn_Scan "HOL-Library.FSet"
begin

section \<open>Verifier: integrity of the tests, reachability, contracts, adjudication\<close>

text \<open>
  \<open>verifier/test_integrity.py\<close>, \<open>reachability.py\<close>, \<open>contract_review.py\<close> and \<open>adjudication.py\<close>.  The
  patterns are values of \<open>re\<close> (theory \<open>Learn_Scan\<close>) and run with the word characters among the
  modelled code points.  The one dash of a reason that is not in that range is written as a hyphen.
\<close>

subsection \<open>Patterns\<close>

text \<open>\<open>\w\<close> on the code points up to 255.\<close>

definition word_code :: "nat \<Rightarrow> bool" where
  "word_code n \<longleftrightarrow> in_ranges [(48, 57), (65, 90), (95, 95), (97, 122), (170, 170), (178, 179), (181, 181),
     (185, 186), (188, 190), (192, 214), (216, 246), (248, 255)] n"

text \<open>\<open>re.match\<close> at the start of a line, and \<open>re.search\<close>.\<close>

definition matches_start :: "re \<Rightarrow> string \<Rightarrow> bool" where
  "matches_start r s \<longleftrightarrow> ends word_code r (None, map code_of s) \<noteq> []"

fun matches_from :: "re \<Rightarrow> nat option \<Rightarrow> codes \<Rightarrow> bool" where
  "matches_from r b [] = (ends word_code r (b, []) \<noteq> [])"
| "matches_from r b (c # cs) = (ends word_code r (b, c # cs) \<noteq> [] \<or> matches_from r (Some c) cs)"

definition searches :: "re \<Rightarrow> string \<Rightarrow> bool" where
  "searches r s = matches_from r None (map code_of s)"

definition skip_re :: re where
  "skip_re = alt
     [Then (lit_i ''pytest.mark.'') (words_i [''skip'', ''skipif'', ''xfail'']), lit_i ''pytest.skip'',
      lit_i ''unittest.skip'', Then (lit_i ''@skip'') Word_End]"

text \<open>Its first character is the \<open>^\<close> of the pattern: the match starts the line.\<close>

definition vacuous_re :: re where
  "vacuous_re = Then sp0 (alt
     [seq [lit_i ''assert'', sp, alt [lit_i ''true'', lit ''1'', seq [lit_i ''not'', sp, lit_i ''false'']], Word_End],
      seq [lit_i ''self.asserttrue('', sp0, lit_i ''true'', sp0, lit '')'']])"

text \<open>The branch with \<open>^\<close> and the branches that match anywhere.\<close>

definition assert_start_re :: re where
  "assert_start_re = seq [sp0, lit ''assert'', Word_End]"

definition assert_re :: re where
  "assert_re = alt
     [seq [lit ''self.assert'', Chars [(65, 90)], Many Word_Char, lit ''('' ], lit ''expect('',
      Then (lit ''should'') (Or (lit ''.'') (Chars spaces))]"

definition dash_k_re :: re where
  "dash_k_re = seq [lit_i ''-k'', sp, some_of (But spaces)]"

definition narrowing_re :: re where
  "narrowing_re = alt
     [seq [lit ''||'', sp0, lit_i ''true'', Word_End],
      Then (lit_i ''--ignore'') (Or (lit ''='') (Chars spaces)),
      Then (lit_i ''--deselect'') (Or (lit ''='') (Chars spaces)),
      Then (Chars spaces) dash_k_re,
      seq [lit_i ''addopts'', sp0, lit ''='', Many (But [(10, 10)]), words_i [''-k'', ''--ignore'', ''--deselect'']],
      lit_i ''collect_ignore'',
      seq [lit_i ''testpaths'', sp0, lit ''='']]"

definition is_skip :: "string \<Rightarrow> bool" where
  "is_skip = searches skip_re"

definition is_vacuous :: "string \<Rightarrow> bool" where
  "is_vacuous = matches_start vacuous_re"

definition is_assertion :: "string \<Rightarrow> bool" where
  "is_assertion line \<longleftrightarrow> matches_start assert_start_re line \<or> searches assert_re line"

definition is_narrowing :: "string \<Rightarrow> bool" where
  "is_narrowing line \<longleftrightarrow> matches_start dash_k_re line \<or> searches narrowing_re line"

subsection \<open>Diffs\<close>

record file_diff =
  fd_old :: string
  fd_new :: string
  fd_removed :: "string list"
  fd_added :: "string list"

definition diff_path :: "file_diff \<Rightarrow> string" where
  "diff_path f = (if fd_new f \<noteq> [] \<and> fd_new f \<noteq> ''/dev/null'' then fd_new f else fd_old f)"

text \<open>The path of a header line: the mark, an optional \<open>a/\<close> or \<open>b/\<close>, at least one character.\<close>

definition header_path :: "string \<Rightarrow> string \<Rightarrow> string \<Rightarrow> string option" where
  "header_path mark side line =
     (if \<not> starts_with line mark then None
      else let rest = drop (length mark) line in
        if rest = [] then None
        else if starts_with rest side \<and> length side < length rest then Some (drop (length side) rest)
        else Some rest)"

text \<open>The files read so far, the current one first; \<open>current\<close> is None while there is none.\<close>

definition diff_line :: "string \<Rightarrow> file_diff list \<Rightarrow> file_diff list" where
  "diff_line line fs =
     (case header_path ''--- '' ''a/'' line of
        Some p \<Rightarrow> \<lparr>fd_old = p, fd_new = [], fd_removed = [], fd_added = []\<rparr> # fs
      | None \<Rightarrow> (case fs of
          [] \<Rightarrow> []
        | f # rest \<Rightarrow> (case header_path ''+++ '' ''b/'' line of
            Some p \<Rightarrow> f\<lparr>fd_new := p\<rparr> # rest
          | None \<Rightarrow>
              if starts_with line ''-'' \<and> \<not> starts_with line ''---''
              then f\<lparr>fd_removed := fd_removed f @ [drop 1 line]\<rparr> # rest
              else if starts_with line ''+'' \<and> \<not> starts_with line ''+++''
              then f\<lparr>fd_added := fd_added f @ [drop 1 line]\<rparr> # rest
              else fs)))"

definition parse_diff :: "string \<Rightarrow> file_diff list" where
  "parse_diff text = filter (\<lambda>f. diff_path f \<noteq> []) (rev (fold diff_line (splitlines text) []))"

subsection \<open>Test and fixture paths\<close>

definition slashes :: "string \<Rightarrow> string" where
  "slashes p = map (\<lambda>c. if c = CHR 0x5C then CHR ''/'' else c) p"

definition path_name :: "string \<Rightarrow> string" where
  "path_name p = last (split_on (CHR ''/'') p)"

definition is_test_path :: "string \<Rightarrow> bool" where
  "is_test_path path = (let normalized = lower (slashes path); name = path_name normalized in
     starts_with normalized ''test/'' \<or> starts_with normalized ''tests/''
     \<or> contains normalized ''/test/'' \<or> contains normalized ''/tests/''
     \<or> starts_with name ''test_''
     \<or> list_ex (ends_with name) [''_test.py'', ''.spec.ts'', ''.test.ts'', ''.spec.js'', ''.test.js''])"

definition is_fixture_path :: "string \<Rightarrow> bool" where
  "is_fixture_path path = (let normalized = lower (slashes path); name = path_name normalized in
     name \<in> {''conftest.py'', ''pytest.ini'', ''tox.ini''} \<or> contains name ''fixture'')"

definition test_related :: "string \<Rightarrow> bool" where
  "test_related path \<longleftrightarrow> is_test_path path \<or> is_fixture_path path"

subsection \<open>Integrity of the tests\<close>

record integrity_report =
  ir_safe :: bool
  ir_touched :: "string list"
  ir_protected :: "string list"
  ir_reasons :: "string list"

definition file_reasons :: "file_diff \<Rightarrow> string list" where
  "file_reasons f = (let path = diff_path f; removed = fd_removed f; added = fd_added f in
     (if fd_new f = ''/dev/null'' \<and> test_related path then [''test file deleted: '' @ path] else [])
     @ (if list_ex is_skip added then [''skip injection in verifier input: '' @ path] else [])
     @ (if list_ex is_vacuous added then [''vacuous assertion added: '' @ path] else [])
     @ (if test_related path \<and> length (filter is_assertion removed) > length (filter is_assertion added)
        then [''assertion count weakened in verifier input: '' @ path] else [])
     @ (if list_ex is_narrowing added then [''verifier narrowing detected: '' @ path] else [])
     @ (if is_fixture_path path \<and> (removed \<noteq> [] \<or> added \<noteq> [])
        then [''fixture infrastructure modified: '' @ path] else []))"

definition protected_by :: "string list \<Rightarrow> string \<Rightarrow> bool" where
  "protected_by patterns path = list_ex (\<lambda>p. glob p (slashes path)) patterns"

definition assess_test_integrity ::
  "string \<Rightarrow> string list \<Rightarrow> bool option \<Rightarrow> bool option \<Rightarrow> integrity_report" where
  "assess_test_integrity text patterns baseline final =
     (let files = parse_diff text;
          touched = dedup (map diff_path files);
          protected = filter (protected_by patterns) touched;
          test_edits = list_ex test_related touched;
          reasons = dedup (map (\<lambda>p. ''protected verifier input modified: '' @ p) protected
            @ concat (map file_reasons files)
            @ (if test_edits \<and> baseline \<noteq> Some True
               then [''test change lacks reproduced baseline failure''] else [])
            @ (if test_edits \<and> final \<noteq> Some True
               then [''test change lacks a passing final verifier''] else []))
      in \<lparr>ir_safe = (reasons = []), ir_touched = touched, ir_protected = protected, ir_reasons = reasons\<rparr>)"

subsection \<open>Reachability of changed lines\<close>

record changed_region =
  rg_file :: string
  rg_lines :: "int fset"

record test_execution =
  te_id :: string
  te_outcome :: pg_outcome
  te_covered :: "string \<rightharpoonup> int set"

definition make_region :: "string \<Rightarrow> int fset \<Rightarrow> (string, changed_region) result" where
  "make_region file lines =
     (if strip file = [] then Inl ''ChangedRegion.file must not be empty''
      else if fBex lines (\<lambda>n. n \<le> 0) then Inl ''ChangedRegion.lines must be positive 1-based line numbers''
      else Inr \<lparr>rg_file = file, rg_lines = lines\<rparr>)"

definition make_execution ::
  "string \<Rightarrow> pg_outcome \<Rightarrow> (string \<rightharpoonup> int set) \<Rightarrow> (string, test_execution) result" where
  "make_execution i res cov =
     (if strip i = [] then Inl ''TestExecution.test_id must not be empty''
      else Inr \<lparr>te_id = i, te_outcome = res, te_covered = cov\<rparr>)"

record unreached_region =
  un_file :: string
  un_lines :: "int list"
  un_failing :: "int list"

record reachability_report =
  re_reached :: bool
  re_total :: nat
  re_count :: nat
  re_unreached :: "unreached_region list"
  re_reasons :: "string list"

definition covered_lines :: "test_execution list \<Rightarrow> string \<Rightarrow> pg_outcome \<Rightarrow> int set" where
  "covered_lines xs file res =
     \<Union> (set (map (\<lambda>x. get_or {} (te_covered x file)) (filter (\<lambda>x. te_outcome x = res) xs)))"

definition region_lines :: "changed_region \<Rightarrow> int list" where
  "region_lines r = sorted_list_of_fset (rg_lines r)"

definition missed_lines :: "test_execution list \<Rightarrow> changed_region \<Rightarrow> int list" where
  "missed_lines xs r = filter (\<lambda>n. n \<notin> covered_lines xs (rg_file r) Passed) (region_lines r)"

definition only_failing :: "test_execution list \<Rightarrow> changed_region \<Rightarrow> int list" where
  "only_failing xs r = filter (\<lambda>n. n \<in> covered_lines xs (rg_file r) Failed \<union> covered_lines xs (rg_file r) Errored)
     (missed_lines xs r)"

definition line_sample :: "string \<Rightarrow> int list \<Rightarrow> string" where
  "line_sample file ns = join '', '' (map (\<lambda>n. file @ '':'' @ show_int n) (take 5 ns))"

definition more_than :: "nat \<Rightarrow> nat \<Rightarrow> string" where
  "more_than k n = (if n \<le> k then [] else '' (+'' @ show_nat (n - k) @ '' more)'')"

definition region_reasons :: "test_execution list \<Rightarrow> changed_region \<Rightarrow> string list" where
  "region_reasons xs r = (let missed = missed_lines xs r; failing = only_failing xs r in
     if missed = [] then []
     else (''changed lines not reached by any passing test: '' @ line_sample (rg_file r) missed
           @ more_than 5 (length missed))
       # (if failing = [] then []
          else [''changed lines reached ONLY by failing/errored tests (not verified): ''
                @ line_sample (rg_file r) failing]))"

definition documentation_file :: "string \<Rightarrow> bool" where
  "documentation_file path = (let lowered = lower path in
     starts_with lowered ''docs/'' \<or> starts_with lowered ''doc/''
     \<or> list_ex (ends_with lowered) [''.md'', ''.markdown'', ''.rst'', ''.txt''])"

fun distinct_tests :: "string list \<Rightarrow> string list \<Rightarrow> (string, unit) result" where
  "distinct_tests seen [] = Inr ()"
| "distinct_tests seen (i # ids) =
     (if i \<in> set seen then Inl (''duplicate test_id: '' @ i) else distinct_tests (i # seen) ids)"

text \<open>The regions the loop does not skip, in the order it takes them.\<close>

definition live_regions :: "changed_region list \<Rightarrow> changed_region list" where
  "live_regions rs = filter (\<lambda>r. rg_lines r \<noteq> {||}) (sort_key rg_file rs)"

definition assess_reachability ::
  "changed_region list \<Rightarrow> test_execution list \<Rightarrow> (string, reachability_report) result" where
  "assess_reachability rs xs = rbind (distinct_tests [] (map te_id xs)) (\<lambda>_.
     let live = live_regions rs;
         total = sum_list (map (\<lambda>r. length (region_lines r)) live);
         count = sum_list (map (\<lambda>r. length (region_lines r) - length (missed_lines xs r)) live);
         unreached = map (\<lambda>r. \<lparr>un_file = rg_file r, un_lines = missed_lines xs r, un_failing = only_failing xs r\<rparr>)
           (filter (\<lambda>r. missed_lines xs r \<noteq> []) live);
         reasons = concat (map (region_reasons xs) live);
         (reached, reasons') =
           (if total = 0 \<and> rs \<noteq> [] \<and> list_all (documentation_file \<circ> rg_file) rs
            then (True, ''change touches no executable lines in documentation-only files'' # reasons)
            else if total = 0
            then (False, (''no changed executable lines to verify - a '' @ py_repr ''verified''
                          @ '' claim here is vacuous'') # reasons)
            else (unreached = [], reasons))
     in Inr \<lparr>re_reached = reached, re_total = total, re_count = count, re_unreached = unreached,
             re_reasons = dedup reasons'\<rparr>)"

definition is_false_green :: "reachability_report \<Rightarrow> bool \<Rightarrow> bool" where
  "is_false_green report claimed \<longleftrightarrow> claimed \<and> \<not> re_reached report"

subsection \<open>Contracts\<close>

datatype contract_verdict = Satisfied | Violated | Insufficient_Evidence

text \<open>A behaviour, an invariant or a regression: its id, its description and its claims.\<close>

record contract_clause =
  cl_id :: string
  cl_description :: string
  cl_claims :: "string list"

record task_contract =
  tc_id :: string
  tc_behaviors :: "contract_clause list"
  tc_invariants :: "contract_clause list"
  tc_regressions :: "contract_clause list"

definition make_behavior :: "string \<Rightarrow> string \<Rightarrow> string list \<Rightarrow> (string, contract_clause) result" where
  "make_behavior i d cs = (if cs = [] then Inl (''behavior '' @ i @ '' names no claims to verify'')
     else Inr \<lparr>cl_id = i, cl_description = d, cl_claims = cs\<rparr>)"

definition make_invariant :: "string \<Rightarrow> string \<Rightarrow> string list \<Rightarrow> (string, contract_clause) result" where
  "make_invariant i d cs = (if cs = [] then Inl (''invariant '' @ i @ '' names no claims to verify'')
     else Inr \<lparr>cl_id = i, cl_description = d, cl_claims = cs\<rparr>)"

definition make_regression :: "string \<Rightarrow> string \<Rightarrow> string list \<Rightarrow> (string, contract_clause) result" where
  "make_regression i d cs = (if cs = [] then Inl (''regression '' @ i @ '' names no guard claims'')
     else Inr \<lparr>cl_id = i, cl_description = d, cl_claims = cs\<rparr>)"

definition make_contract ::
  "string \<Rightarrow> contract_clause list \<Rightarrow> contract_clause list \<Rightarrow> contract_clause list
   \<Rightarrow> (string, task_contract) result" where
  "make_contract i bs ivs rs = (if strip i = [] then Inl ''TaskContract.contract_id must not be empty''
     else Inr \<lparr>tc_id = i, tc_behaviors = bs, tc_invariants = ivs, tc_regressions = rs\<rparr>)"

record contract_review =
  rv_verdict :: contract_verdict
  rv_reasons :: "string list"
  rv_unmet_behaviors :: "string list"
  rv_unmet_invariants :: "string list"
  rv_broken :: "string list"
  rv_triggered :: "string list"
  rv_agent_only :: "string list"

text \<open>The three sets of the tally.\<close>

definition passed_claims :: "pg_evidence list \<Rightarrow> string list" where
  "passed_claims es = concat (map ev_claims (filter (\<lambda>e. ev_source e \<noteq> From_Agent \<and> ev_outcome e = Passed) es))"

definition failed_claims :: "pg_evidence list \<Rightarrow> string list" where
  "failed_claims es =
     concat (map ev_claims (filter (\<lambda>e. ev_source e \<noteq> From_Agent \<and> ev_outcome e \<in> {Failed, Errored}) es))"

definition agent_claims :: "pg_evidence list \<Rightarrow> string list" where
  "agent_claims es = concat (map ev_claims (filter (\<lambda>e. ev_source e = From_Agent) es))"

record claim_evidence =
  ce_passed :: bool
  ce_failed :: bool
  ce_agent_only :: bool

definition index_evidence :: "pg_evidence list \<Rightarrow> string \<Rightarrow> claim_evidence option" where
  "index_evidence es c = (let p = c \<in> set (passed_claims es); f = c \<in> set (failed_claims es);
       a = c \<in> set (agent_claims es)
     in if p \<or> f \<or> a then Some \<lparr>ce_passed = p, ce_failed = f, ce_agent_only = (a \<and> \<not> p \<and> \<not> f)\<rparr> else None)"

definition is_passing :: "pg_evidence list \<Rightarrow> string \<Rightarrow> bool" where
  "is_passing es c = (case index_evidence es c of None \<Rightarrow> False | Some r \<Rightarrow> ce_passed r)"

definition is_failing :: "pg_evidence list \<Rightarrow> string \<Rightarrow> bool" where
  "is_failing es c = (case index_evidence es c of None \<Rightarrow> False | Some r \<Rightarrow> ce_failed r)"

definition is_agent_only :: "pg_evidence list \<Rightarrow> string \<Rightarrow> bool" where
  "is_agent_only es c = (case index_evidence es c of None \<Rightarrow> False | Some r \<Rightarrow> ce_agent_only r)"

definition missing_claims :: "pg_evidence list \<Rightarrow> contract_clause \<Rightarrow> string list" where
  "missing_claims es c = filter (\<lambda>i. \<not> is_passing es i) (cl_claims c)"

definition broken_claims :: "pg_evidence list \<Rightarrow> contract_clause \<Rightarrow> string list" where
  "broken_claims es c = filter (is_failing es) (cl_claims c)"

definition clause_reason :: "string \<Rightarrow> contract_clause \<Rightarrow> string \<Rightarrow> string list \<Rightarrow> string" where
  "clause_reason kind c what ids = kind @ '' '' @ py_repr (cl_id c) @ what @ join '', '' (sort ids)"

definition behavior_reasons :: "pg_evidence list \<Rightarrow> contract_clause \<Rightarrow> string list" where
  "behavior_reasons es c = (if missing_claims es c = [] then []
     else [clause_reason ''required behavior'' c '' lacks passing verifier evidence for claim(s): ''
             (missing_claims es c)])"

definition invariant_reasons :: "pg_evidence list \<Rightarrow> contract_clause \<Rightarrow> string list" where
  "invariant_reasons es c =
     (if broken_claims es c \<noteq> []
      then [clause_reason ''preserved invariant'' c
              '' is demonstrably broken (failing verifier) on claim(s): '' (broken_claims es c)]
      else if missing_claims es c \<noteq> []
      then [clause_reason ''preserved invariant'' c '' lacks passing verifier evidence for claim(s): ''
              (missing_claims es c)]
      else [])"

definition regression_reasons :: "pg_evidence list \<Rightarrow> contract_clause \<Rightarrow> string list" where
  "regression_reasons es c = (if broken_claims es c = [] then []
     else [clause_reason ''forbidden regression'' c
             '' was demonstrated (failing verifier) on guard claim(s): '' (broken_claims es c)])"

definition review_contract :: "task_contract \<Rightarrow> pg_evidence list \<Rightarrow> contract_review" where
  "review_contract k es =
     (let unmet = map cl_id (filter (\<lambda>c. missing_claims es c \<noteq> []) (tc_behaviors k));
          broken = map cl_id (filter (\<lambda>c. broken_claims es c \<noteq> []) (tc_invariants k));
          open_invs = map cl_id (filter (\<lambda>c. broken_claims es c = [] \<and> missing_claims es c \<noteq> []) (tc_invariants k));
          fired = map cl_id (filter (\<lambda>c. broken_claims es c \<noteq> []) (tc_regressions k));
          agent = dedup (filter (is_agent_only es) (concat (map cl_claims (tc_behaviors k @ tc_invariants k))));
          reasons = concat (map (behavior_reasons es) (tc_behaviors k))
            @ concat (map (invariant_reasons es) (tc_invariants k))
            @ concat (map (regression_reasons es) (tc_regressions k))
            @ (if agent = [] then []
               else [''agent-only (non-authoritative) evidence cannot satisfy a contract; claim(s) backed ''
                     @ ''solely by agent self-report: '' @ join '', '' (sort agent)]);
          verdict = (if fired \<noteq> [] \<or> broken \<noteq> [] then Violated
                     else if unmet \<noteq> [] \<or> open_invs \<noteq> [] then Insufficient_Evidence else Satisfied)
      in \<lparr>rv_verdict = verdict, rv_reasons = dedup reasons, rv_unmet_behaviors = unmet,
          rv_unmet_invariants = open_invs, rv_broken = broken, rv_triggered = fired, rv_agent_only = sort agent\<rparr>)"

subsection \<open>Adjudication\<close>

record completion_evidence =
  cv_baseline :: "bool option"
  cv_final :: "bool option"
  cv_reached :: "bool option"
  cv_graded :: "int option"
  cv_killed :: "int option"
  cv_survived :: "int option"
  cv_primary :: "bool option"
  cv_secondary :: "bool option"
  cv_needs_secondary :: bool
  cv_diff :: string
  cv_protected :: "string list"
  cv_claimed :: bool
  cv_review :: "string option"

record completion_adjudication =
  aj_complete :: bool
  aj_false_green :: bool
  aj_reasons :: "string list"
  aj_evidence :: "string list"
  aj_review :: "string option"
  aj_integrity :: integrity_report

text \<open>\<open>_require_true\<close>: the lists of reasons and of observed evidence it extends.\<close>

type_synonym tally = "string list \<times> string list"

definition require_true :: "bool option \<Rightarrow> string \<Rightarrow> string \<Rightarrow> string \<Rightarrow> tally \<Rightarrow> tally" where
  "require_true v missing failed seen = (\<lambda>(rsn, obs).
     case v of None \<Rightarrow> (rsn @ [missing], obs)
     | Some b \<Rightarrow> if b then (rsn, obs @ [seen]) else (rsn @ [failed], obs))"

definition mutation_tally :: "completion_evidence \<Rightarrow> tally \<Rightarrow> tally" where
  "mutation_tally e = (\<lambda>(rsn, obs).
     case cv_graded e of
       None \<Rightarrow> (rsn @ [''targeted mutation evidence missing''], obs)
     | Some g \<Rightarrow>
         if g \<le> 0 then (rsn @ [''targeted mutation campaign graded no mutants''], obs)
         else
           let obs1 = obs @ [''mutation-graded:'' @ show_int g];
               (rsn2, obs2) = (case cv_killed e of
                   None \<Rightarrow> (rsn @ [''killed-mutant evidence missing''], obs1)
                 | Some k \<Rightarrow> if k \<le> 0 then (rsn @ [''targeted mutation campaign killed no mutants''], obs1)
                            else (rsn, obs1 @ [''mutation-killed:'' @ show_int k]))
           in (case cv_survived e of
                 None \<Rightarrow> (rsn2 @ [''critical-mutant survival evidence missing''], obs2)
               | Some s \<Rightarrow> if s \<noteq> 0 then (rsn2 @ [show_int s @ '' critical targeted mutant(s) survived''], obs2)
                          else (rsn2, obs2 @ [''critical-mutants-survived:0''])))"

definition adjudicate_completion :: "completion_evidence \<Rightarrow> completion_adjudication" where
  "adjudicate_completion e =
     (let integrity = assess_test_integrity (cv_diff e) (cv_protected e) (cv_baseline e) (cv_final e);
          checks =
            [require_true (cv_baseline e) ''baseline failure reproduction evidence missing''
               ''seeded baseline did not fail the verifier'' ''baseline-failure-reproduced'',
             require_true (cv_final e) ''final verifier evidence missing''
               ''final verifier did not pass'' ''final-verifier-passed'',
             require_true (cv_reached e) ''changed-code reachability evidence missing''
               ''changed production code was not reached by passing tests'' ''changed-code-reached'',
             require_true (cv_primary e) ''primary verifier evidence missing''
               ''primary verifier did not pass'' ''primary-verifier-passed'']
            @ (if cv_needs_secondary e
               then [require_true (cv_secondary e) ''secondary verifier evidence missing''
                       ''secondary verifier did not pass'' ''secondary-verifier-passed''] else []);
          (rsn, obs) = mutation_tally e (fold (\<lambda>f. f) checks (ir_reasons integrity, []));
          observed = obs @ (if ir_safe integrity then [''protected-suite-integrity''] else []);
          canonical = dedup rsn
      in \<lparr>aj_complete = (canonical = []), aj_false_green = (canonical \<noteq> []), aj_reasons = canonical,
          aj_evidence = observed, aj_review = cv_review e, aj_integrity = integrity\<rparr>)"

subsection \<open>What the checks conclude\<close>

text \<open>The conditions on one file of a diff.\<close>

definition harmless :: "file_diff \<Rightarrow> bool" where
  "harmless f \<longleftrightarrow>
     \<not> list_ex is_skip (fd_added f) \<and> \<not> list_ex is_vacuous (fd_added f) \<and> \<not> list_ex is_narrowing (fd_added f)
     \<and> (test_related (diff_path f) \<longrightarrow> fd_new f \<noteq> ''/dev/null''
        \<and> length (filter is_assertion (fd_removed f)) \<le> length (filter is_assertion (fd_added f)))
     \<and> (is_fixture_path (diff_path f) \<longrightarrow> fd_removed f = [] \<and> fd_added f = [])"

lemma file_reasons_Nil: "file_reasons f = [] \<longleftrightarrow> harmless f"
  by (auto simp: file_reasons_def harmless_def Let_def)

definition intact :: "string \<Rightarrow> string list \<Rightarrow> bool option \<Rightarrow> bool option \<Rightarrow> bool" where
  "intact text patterns baseline final \<longleftrightarrow>
     (\<forall>f\<in>set (parse_diff text). harmless f \<and> \<not> protected_by patterns (diff_path f)
        \<and> (test_related (diff_path f) \<longrightarrow> baseline = Some True \<and> final = Some True))"

lemma integrity_safe_iff: "ir_safe (assess_test_integrity text patterns baseline final) \<longleftrightarrow> intact text patterns baseline final"
  by (auto simp: assess_test_integrity_def Let_def intact_def file_reasons_Nil filter_empty_conv list_ex_iff)

lemma integrity_reasons: "ir_reasons (assess_test_integrity t ps b f) = [] \<longleftrightarrow> ir_safe (assess_test_integrity t ps b f)"
  by (simp add: assess_test_integrity_def Let_def)

text \<open>A change is reached when a test that passed ran each of its lines.\<close>

definition run_by_passing :: "test_execution list \<Rightarrow> string \<Rightarrow> int \<Rightarrow> bool" where
  "run_by_passing xs file n \<longleftrightarrow> (\<exists>x\<in>set xs. te_outcome x = Passed \<and> n \<in> get_or {} (te_covered x file))"

lemma missed_lines_Nil:
  "missed_lines xs r = [] \<longleftrightarrow> (\<forall>n. n |\<in>| rg_lines r \<longrightarrow> run_by_passing xs (rg_file r) n)"
  by (auto simp: missed_lines_def region_lines_def covered_lines_def run_by_passing_def filter_empty_conv)

lemma live_regions_iff: "r \<in> set (live_regions rs) \<longleftrightarrow> r \<in> set rs \<and> rg_lines r \<noteq> {||}"
  by (auto simp: live_regions_def)

lemma region_lines_Nil: "region_lines r = [] \<longleftrightarrow> rg_lines r = {||}"
  using fset_inject [of "rg_lines r" "{||}"] by (simp add: region_lines_def flip: set_empty)

lemma distinct_tests_ok: "distinct_tests seen ids = Inr () \<longleftrightarrow> distinct ids \<and> set seen \<inter> set ids = {}"
  by (induction seen ids rule: distinct_tests.induct) auto

lemma assess_reachability_spec:
  assumes "assess_reachability rs xs = Inr report"
  shows "distinct (map te_id xs)"
    and "re_reached report \<longleftrightarrow> (if \<forall>r\<in>set rs. rg_lines r = {||} then rs \<noteq> [] \<and> (\<forall>r\<in>set rs. documentation_file (rg_file r))
      else \<forall>r\<in>set rs. \<forall>n. n |\<in>| rg_lines r \<longrightarrow> run_by_passing xs (rg_file r) n)"
proof -
  from assms show "distinct (map te_id xs)"
    by (auto simp: assess_reachability_def rbind_def distinct_tests_ok split: sum.splits)
  have none: "sum_list (map (\<lambda>r. length (region_lines r)) (live_regions rs)) = 0 \<longleftrightarrow> (\<forall>r\<in>set rs. rg_lines r = {||})"
    by (auto simp: live_regions_iff region_lines_Nil)
  have missed: "filter (\<lambda>r. missed_lines xs r \<noteq> []) (live_regions rs) = [] \<longleftrightarrow>
      (\<forall>r\<in>set rs. \<forall>n. n |\<in>| rg_lines r \<longrightarrow> run_by_passing xs (rg_file r) n)"
    by (auto simp: filter_empty_conv live_regions_iff missed_lines_Nil)
  show "re_reached report \<longleftrightarrow> (if \<forall>r\<in>set rs. rg_lines r = {||} then rs \<noteq> [] \<and> (\<forall>r\<in>set rs. documentation_file (rg_file r))
      else \<forall>r\<in>set rs. \<forall>n. n |\<in>| rg_lines r \<longrightarrow> run_by_passing xs (rg_file r) n)"
    using assms unfolding assess_reachability_def rbind_def Let_def none map_is_Nil_conv missed
    by (auto simp: list_all_iff split: sum.splits if_splits)
qed

lemma claim_tally:
  "is_passing es c \<longleftrightarrow> c \<in> set (passed_claims es)" "is_failing es c \<longleftrightarrow> c \<in> set (failed_claims es)"
  by (simp_all add: is_passing_def is_failing_def index_evidence_def Let_def)

lemma review_verdict:
  "rv_verdict (review_contract k es) =
     (if \<exists>c\<in>set (tc_invariants k) \<union> set (tc_regressions k). set (cl_claims c) \<inter> set (failed_claims es) \<noteq> {} then Violated
      else if \<exists>c\<in>set (tc_behaviors k) \<union> set (tc_invariants k). \<not> set (cl_claims c) \<subseteq> set (passed_claims es)
      then Insufficient_Evidence else Satisfied)"
proof -
  have b: "broken_claims es c = [] \<longleftrightarrow> set (cl_claims c) \<inter> set (failed_claims es) = {}" for c
    by (auto simp: broken_claims_def claim_tally filter_empty_conv)
  have m: "missing_claims es c = [] \<longleftrightarrow> set (cl_claims c) \<subseteq> set (passed_claims es)" for c
    by (auto simp: missing_claims_def claim_tally filter_empty_conv)
  show ?thesis unfolding review_contract_def Let_def
    by (simp add: b m filter_empty_conv) blast
qed

text \<open>What an agent asserts changes no verdict.\<close>

lemma review_ignores_agents:
  "rv_verdict (review_contract k es) = rv_verdict (review_contract k (filter (\<lambda>e. ev_source e \<noteq> From_Agent) es))"
proof -
  have "passed_claims (filter (\<lambda>e. ev_source e \<noteq> From_Agent) es) = passed_claims es"
    and "failed_claims (filter (\<lambda>e. ev_source e \<noteq> From_Agent) es) = failed_claims es"
    by (simp_all add: passed_claims_def failed_claims_def conj_commute conj_left_commute)
  then show ?thesis by (simp add: review_verdict)
qed

lemma require_true_reasons: "fst (require_true v missing failed seen t) = [] \<longleftrightarrow> fst t = [] \<and> v = Some True"
  by (cases t; cases v) (auto simp: require_true_def)

definition mutants_graded :: "completion_evidence \<Rightarrow> bool" where
  "mutants_graded e \<longleftrightarrow> (\<exists>g k. cv_graded e = Some g \<and> 0 < g \<and> cv_killed e = Some k \<and> 0 < k) \<and> cv_survived e = Some 0"

lemma mutation_tally_reasons: "fst (mutation_tally e t) = [] \<longleftrightarrow> fst t = [] \<and> mutants_graded e"
  by (cases t; cases "cv_graded e"; cases "cv_killed e"; cases "cv_survived e")
    (auto simp: mutation_tally_def mutants_graded_def Let_def)

lemma mutation_tally_cong:
  assumes "cv_graded e = cv_graded d" "cv_killed e = cv_killed d" "cv_survived e = cv_survived d"
  shows "mutation_tally e = mutation_tally d"
  unfolding mutation_tally_def assms ..

lemma mutation_tally_advice:
  "mutation_tally (e\<lparr>cv_claimed := claimed, cv_review := review\<rparr>) = mutation_tally e"
  by (rule mutation_tally_cong) simp_all

lemma adjudicate_complete_iff:
  "aj_complete (adjudicate_completion e) \<longleftrightarrow>
     ir_safe (assess_test_integrity (cv_diff e) (cv_protected e) (cv_baseline e) (cv_final e))
     \<and> cv_baseline e = Some True \<and> cv_final e = Some True \<and> cv_reached e = Some True \<and> cv_primary e = Some True
     \<and> (if cv_needs_secondary e then cv_secondary e = Some True else True) \<and> mutants_graded e"
  unfolding adjudicate_completion_def Let_def
  by (simp add: case_prod_beta mutation_tally_reasons require_true_reasons integrity_reasons)

text \<open>
  C13: A claimed fix is adjudicated complete exactly when the diff leaves the tests intact (no file of it
  is protected; none skips, narrows, weakens or empties a test or touches a fixture; tests change only with
  a reproduced failure and a passing verifier), the baseline failure was reproduced, the final and the
  primary verifier passed, and the secondary one where it is required, passing tests reached the changed
  code, at least one mutant was graded and killed and no critical one survived.  Anything else is a
  false green with a reason.  What the agent claims and what a model says of it change nothing.
\<close>

theorem adjudication_is_exact:
  "(aj_complete (adjudicate_completion e) \<longleftrightarrow>
      intact (cv_diff e) (cv_protected e) (cv_baseline e) (cv_final e)
      \<and> cv_baseline e = Some True \<and> cv_final e = Some True \<and> cv_reached e = Some True \<and> cv_primary e = Some True
      \<and> (if cv_needs_secondary e then cv_secondary e = Some True else True)
      \<and> (\<exists>g k. cv_graded e = Some g \<and> 0 < g \<and> cv_killed e = Some k \<and> 0 < k) \<and> cv_survived e = Some 0)
   \<and> (aj_false_green (adjudicate_completion e) \<longleftrightarrow> aj_reasons (adjudicate_completion e) \<noteq> [])
   \<and> aj_complete (adjudicate_completion e) = (\<not> aj_false_green (adjudicate_completion e))
   \<and> adjudicate_completion (e\<lparr>cv_claimed := claimed, cv_review := review\<rparr>)
     = (adjudicate_completion e)\<lparr>aj_review := review\<rparr>"
proof (intro conjI)
  show "aj_complete (adjudicate_completion e) \<longleftrightarrow>
      intact (cv_diff e) (cv_protected e) (cv_baseline e) (cv_final e)
      \<and> cv_baseline e = Some True \<and> cv_final e = Some True \<and> cv_reached e = Some True \<and> cv_primary e = Some True
      \<and> (if cv_needs_secondary e then cv_secondary e = Some True else True)
      \<and> (\<exists>g k. cv_graded e = Some g \<and> 0 < g \<and> cv_killed e = Some k \<and> 0 < k) \<and> cv_survived e = Some 0"
    by (simp only: adjudicate_complete_iff integrity_safe_iff mutants_graded_def)
  show "adjudicate_completion (e\<lparr>cv_claimed := claimed, cv_review := review\<rparr>)
      = (adjudicate_completion e)\<lparr>aj_review := review\<rparr>"
    by (simp add: adjudicate_completion_def mutation_tally_advice case_prod_beta Let_def)
qed (simp_all add: adjudicate_completion_def case_prod_beta Let_def)

text \<open>
  A header is recognised by its text alone, also inside a hunk.  A removed assertion of a protected
  test is not seen when the same change adds a line that reads like the header of another file, or
  when the file is moved away.
\<close>

definition gutted_test :: string where
  "gutted_test = ''--- a/tests/test_x.py'' @ [CHR 0x0A] @ ''+++ b/tests/test_x.py'' @ [CHR 0x0A]
     @ ''-    assert f() == 1'' @ [CHR 0x0A]"

definition moved_test :: string where
  "moved_test = ''--- a/tests/test_x.py'' @ [CHR 0x0A] @ ''+++ b/src/x.py'' @ [CHR 0x0A]
     @ ''-    assert f() == 1'' @ [CHR 0x0A]"

lemma sample_headers:
  "header_path ''--- '' ''a/'' ''--- a/tests/test_x.py'' = Some ''tests/test_x.py''"
  "header_path ''--- '' ''a/'' ''+++ b/src/x.py'' = None"
  "header_path ''+++ '' ''b/'' ''+++ b/src/x.py'' = Some ''src/x.py''"
  "header_path ''--- '' ''a/'' ''+++ b/tests/test_x.py'' = None"
  "header_path ''+++ '' ''b/'' ''+++ b/tests/test_x.py'' = Some ''tests/test_x.py''"
  "header_path ''--- '' ''a/'' ''-    assert f() == 1'' = None"
  "header_path ''+++ '' ''b/'' ''-    assert f() == 1'' = None"
  by (simp_all add: header_path_def)

lemma parse_gutted: "parse_diff gutted_test = [\<lparr>fd_old = ''tests/test_x.py'', fd_new = ''tests/test_x.py'',
    fd_removed = [''    assert f() == 1''], fd_added = []\<rparr>]"
proof -
  have "splitlines gutted_test = [''--- a/tests/test_x.py'', ''+++ b/tests/test_x.py'', ''-    assert f() == 1'']"
    by (simp add: gutted_test_def line_end_def)
  then show ?thesis by (simp add: parse_diff_def diff_line_def sample_headers diff_path_def)
qed

lemma parse_disguised: "parse_diff (gutted_test @ ''+++ b/src/x.py'') = [\<lparr>fd_old = ''tests/test_x.py'', fd_new = ''src/x.py'',
    fd_removed = [''    assert f() == 1''], fd_added = []\<rparr>]"
proof -
  have "splitlines (gutted_test @ ''+++ b/src/x.py'')
      = [''--- a/tests/test_x.py'', ''+++ b/tests/test_x.py'', ''-    assert f() == 1'', ''+++ b/src/x.py'']"
    by (simp add: gutted_test_def line_end_def)
  then show ?thesis by (simp add: parse_diff_def diff_line_def sample_headers diff_path_def)
qed

lemma parse_moved: "parse_diff moved_test = [\<lparr>fd_old = ''tests/test_x.py'', fd_new = ''src/x.py'',
    fd_removed = [''    assert f() == 1''], fd_added = []\<rparr>]"
proof -
  have "splitlines moved_test = [''--- a/tests/test_x.py'', ''+++ b/src/x.py'', ''-    assert f() == 1'']"
    by (simp add: moved_test_def line_end_def)
  then show ?thesis by (simp add: parse_diff_def diff_line_def sample_headers diff_path_def)
qed

lemma sample_slashes: "slashes ''src/x.py'' = ''src/x.py''" "slashes ''tests/test_x.py'' = ''tests/test_x.py''"
  by (simp_all add: slashes_def)

lemma source_not_test: "\<not> test_related ''src/x.py''"
proof -
  have "lower ''src/x.py'' = ''src/x.py''" by (simp add: lower_def lower_char_def)
  moreover have "path_name ''src/x.py'' = ''x.py''" by (simp add: path_name_def)
  ultimately show ?thesis
    by (simp add: test_related_def is_test_path_def is_fixture_path_def sample_slashes ends_with_def)
qed

lemma sample_paths: "\<not> protected_by [''tests/*''] ''src/x.py''" "protected_by [''tests/*''] ''tests/test_x.py''"
  by (simp_all add: protected_by_def sample_slashes glob.simps)

lemma gutted_test_is_caught:
  "\<not> ir_safe (assess_test_integrity gutted_test [''tests/*''] (Some True) (Some True))"
  by (simp add: integrity_safe_iff intact_def parse_gutted diff_path_def sample_paths)

lemma disguised_test_is_missed:
  "ir_safe (assess_test_integrity (gutted_test @ ''+++ b/src/x.py'') [''tests/*''] None None)"
  using source_not_test by (simp add: integrity_safe_iff intact_def parse_disguised diff_path_def  harmless_def sample_paths test_related_def)

lemma moved_test_is_missed: "ir_safe (assess_test_integrity moved_test [''tests/*''] None None)"
  using source_not_test by (simp add: integrity_safe_iff intact_def parse_moved diff_path_def harmless_def sample_paths test_related_def)

end
