(* ===== verification/Verify_Mutants.thy ===== *)
theory Verify_Mutants
  imports Verify_Checks
begin

section \<open>Verifier: mutants\<close>

text \<open>
  \<open>verifier/mutation.py\<close>: the faults of one line, the mutants of a source, the choice of a subset and
  the campaign.  \<open>random.Random(seed).sample\<close> is an argument, and so is the runner of a mutant, which
  the module injects.  A literal of more than 4300 digits, which \<open>int\<close> refuses, is read as its value.
\<close>

subsection \<open>Data\<close>

datatype mutation_operator = Flip_Comparison | Off_By_One | Negate_Boolean | Drop_Statement

fun operator_value :: "mutation_operator \<Rightarrow> string" where
  "operator_value Flip_Comparison = ''flip-comparison''"
| "operator_value Off_By_One = ''off-by-one''"
| "operator_value Negate_Boolean = ''negate-boolean''"
| "operator_value Drop_Statement = ''drop-statement''"

record function_under_test =
  fu_qualname :: string
  fu_source :: string

definition make_function :: "string \<Rightarrow> string \<Rightarrow> (string, function_under_test) result" where
  "make_function q s = (if strip q = [] then Inl ''FunctionUnderTest.qualname must not be empty''
     else Inr \<lparr>fu_qualname = q, fu_source = s\<rparr>)"

record mutant =
  mu_id :: string
  mu_operator :: mutation_operator
  mu_qualname :: string
  mu_lineno :: nat
  mu_original :: string
  mu_mutated :: string

record mutation_report =
  mr_total :: nat
  mr_killed :: "string list"
  mr_survived :: "mutant list"
  mr_errored :: "string list"

definition mutation_score :: "mutation_report \<Rightarrow> rat" where
  "mutation_score r = (let graded = length (mr_killed r) + length (mr_survived r) in
     if graded = 0 then 1 else of_nat (length (mr_killed r)) / of_nat graded)"

definition weak_tests :: "mutation_report \<Rightarrow> bool" where
  "weak_tests r \<longleftrightarrow> mr_survived r \<noteq> []"

definition comparison_flip :: "(string \<times> string) list" where
  "comparison_flip = [(''=='', ''!=''), (''!='', ''==''), (''<='', ''>''), (''>='', ''<''), (''<'', ''>=''), (''>'', ''<='')]"

definition boolean_flip :: "(string \<times> string) list" where
  "boolean_flip = [(''True'', ''False''), (''False'', ''True''), (''and'', ''or''), (''or'', ''and'')]"

subsection \<open>The faults of one line\<close>

text \<open>\<open>line[:i] + new + line[i + n:]\<close>.\<close>

definition splice :: "string \<Rightarrow> nat \<Rightarrow> nat \<Rightarrow> string \<Rightarrow> string" where
  "splice line i n new = take i line @ new @ drop (i + n) line"

text \<open>
  The loop over \<open>line.find(src, start)\<close>: every branch goes on after the occurrence found, so the
  loop visits the non-overlapping occurrences from the left.  The second argument is the index of the
  rest, the third how much of the last occurrence is still to be passed.
\<close>

fun occurrences :: "string \<Rightarrow> nat \<Rightarrow> nat \<Rightarrow> string \<Rightarrow> nat list" where
  "occurrences src i k [] = []"
| "occurrences src i (Suc k) (c # cs) = occurrences src (Suc i) k cs"
| "occurrences src i 0 (c # cs) =
     (if starts_with (c # cs) src then i # occurrences src (Suc i) (length src - 1) cs
      else occurrences src (Suc i) 0 cs)"

definition part_of_longer :: "string \<Rightarrow> string \<Rightarrow> nat \<Rightarrow> bool" where
  "part_of_longer src line i \<longleftrightarrow> src \<in> {''<'', ''>''} \<and>
     (take 1 (drop (i + length src) line) = ''=''
      \<or> (if i = 0 then [] else take 1 (drop (i - 1) line)) \<in> {''<'', ''>''})"

definition flips :: "string \<Rightarrow> string \<Rightarrow> string \<Rightarrow> string list" where
  "flips line src dst = map (\<lambda>i. splice line i (length src) dst)
     (filter (\<lambda>i. \<not> part_of_longer src line i) (occurrences src 0 0 line))"

definition comparison_faults :: "string \<Rightarrow> string list" where
  "comparison_faults line = concat (map (\<lambda>(src, dst). flips line src dst) comparison_flip)"

text \<open>\<open>finditer\<close> of a class with \<open>+\<close>: the maximal runs of characters of the class, with their indices.\<close>

function char_runs :: "(char \<Rightarrow> bool) \<Rightarrow> nat \<Rightarrow> string \<Rightarrow> (nat \<times> string) list" where
  "char_runs p i [] = []"
| "char_runs p i (c # cs) =
     (if p c then (let t = takeWhile p (c # cs) in (i, t) # char_runs p (i + length t) (dropWhile p (c # cs)))
      else char_runs p (Suc i) cs)"
  by pat_completeness auto
termination
proof (relation "measure (\<lambda>(p, i, s). length s)")
  fix p :: "char \<Rightarrow> bool" and i c cs x
  assume "p c" "x = takeWhile p (c # cs)"
  then show "((p, i + length x, dropWhile p (c # cs)), p, i, c # cs) \<in> measure (\<lambda>(p, i, s). length s)"
    using length_dropWhile_le [of p cs] by simp
qed auto

definition is_letter :: "char \<Rightarrow> bool" where
  "is_letter c \<longleftrightarrow> in_ranges [(65, 90), (97, 122)] (code_of c)"

definition is_digit :: "char \<Rightarrow> bool" where
  "is_digit c \<longleftrightarrow> in_ranges [(48, 57)] (code_of c)"

definition boolean_faults :: "string \<Rightarrow> string list" where
  "boolean_faults line = concat (map (\<lambda>(i, token).
     map (\<lambda>(src, dst). splice line i (length token) dst) (filter (\<lambda>(src, dst). token = src) boolean_flip))
       (char_runs is_letter 0 line))"

text \<open>
  \<open>_INT_LITERAL_RE\<close>: a run of digits with no word character or dot before or after it.  A shorter
  match would be followed, a later one preceded, by a digit, which is a word character.
\<close>

definition glued :: "string \<Rightarrow> bool" where
  "glued s \<longleftrightarrow> list_ex (\<lambda>c. word_code (code_of c) \<or> c = CHR ''.'') s"

definition off_by_one_faults :: "string \<Rightarrow> string list" where
  "off_by_one_faults line = map (\<lambda>(i, ds). splice line i (length ds) (show_nat (digits_value ds + 1)))
     (filter (\<lambda>(i, ds). \<not> glued (if i = 0 then [] else take 1 (drop (i - 1) line))
                      \<and> \<not> glued (take 1 (drop (i + length ds) line))) (char_runs is_digit 0 line))"

text \<open>\<open>_DROPPABLE_RE\<close> after its first group, which takes all the white space that starts the line.\<close>

definition droppable_re :: re where
  "droppable_re = alt
     [Then (lit ''return'') Word_End,
      seq [Chars [(65, 90), (97, 122), (95, 95)], Many (Or Word_Char (Chars (one_of ''.[]''))), sp0,
           opt (Chars (one_of ''-+*/'')), lit ''='', But (one_of ''='')]]"

definition drop_statement :: "string \<Rightarrow> string option" where
  "drop_statement line = (if matches_start droppable_re (lstrip line)
     then Some (takeWhile py_space line @ ''pass'') else None)"

definition line_faults :: "string \<Rightarrow> (mutation_operator \<times> string) list" where
  "line_faults line =
     map (Pair Flip_Comparison) (comparison_faults line)
     @ map (Pair Off_By_One) (off_by_one_faults line)
     @ map (Pair Negate_Boolean) (boolean_faults line)
     @ (case drop_statement line of None \<Rightarrow> []
        | Some d \<Rightarrow> if d \<noteq> line then [(Drop_Statement, d)] else [])"

subsection \<open>The mutants of a source\<close>

definition source_lines :: "function_under_test \<Rightarrow> string list" where
  "source_lines fn = split_on (CHR 0x0A) (fu_source fn)"

definition replace_line :: "string list \<Rightarrow> nat \<Rightarrow> string \<Rightarrow> string" where
  "replace_line ls k new = join [CHR 0x0A] (ls[k := new])"

text \<open>The counters of the operators and the mutants so far.\<close>

type_synonym battery = "(mutation_operator \<Rightarrow> nat) \<times> mutant list"

definition emit :: "function_under_test \<Rightarrow> nat \<Rightarrow> mutation_operator \<times> string \<Rightarrow> battery \<Rightarrow> battery" where
  "emit fn k = (\<lambda>(op, new) (cnt, ms). let n = cnt op + 1 in
     (cnt(op := n),
      ms @ [\<lparr>mu_id = operator_value op @ ''-'' @ show_nat (k + 1) @ ''-'' @ show_nat n, mu_operator = op,
             mu_qualname = fu_qualname fn, mu_lineno = k + 1, mu_original = source_lines fn ! k,
             mu_mutated = replace_line (source_lines fn) k new\<rparr>]))"

definition mutate_line :: "function_under_test \<Rightarrow> nat \<Rightarrow> battery \<Rightarrow> battery" where
  "mutate_line fn k = fold (emit fn k) (line_faults (source_lines fn ! k))"

definition generate_mutants :: "function_under_test \<Rightarrow> mutant list" where
  "generate_mutants fn = snd (fold (mutate_line fn) [0..<length (source_lines fn)] (\<lambda>_. 0, []))"

subsection \<open>The campaign\<close>

type_synonym sampler = "int \<Rightarrow> mutant list \<Rightarrow> nat \<Rightarrow> mutant list"

definition select_mutants :: "sampler \<Rightarrow> mutant list \<Rightarrow> int option \<Rightarrow> int \<Rightarrow> mutant list" where
  "select_mutants sample ms limit seed =
     (case limit of None \<Rightarrow> ms
      | Some k \<Rightarrow>
          if int (length ms) \<le> k then ms
          else if k \<le> 0 then []
          else let chosen = map mu_id (sample seed (sort_key mu_id ms) (nat k))
               in filter (\<lambda>m. mu_id m \<in> set chosen) ms)"

type_synonym runner = "mutant \<Rightarrow> pg_outcome"

definition run_mutation_campaign ::
  "sampler \<Rightarrow> function_under_test \<Rightarrow> runner \<Rightarrow> int option \<Rightarrow> int \<Rightarrow> mutation_report" where
  "run_mutation_campaign sample fn run limit seed =
     (let ms = select_mutants sample (generate_mutants fn) limit seed in
      \<lparr>mr_total = length ms,
       mr_killed = map mu_id (filter (\<lambda>m. run m = Failed) ms),
       mr_survived = filter (\<lambda>m. run m = Passed) ms,
       mr_errored = map mu_id (filter (\<lambda>m. run m \<noteq> Failed \<and> run m \<noteq> Passed) ms)\<rparr>)"

subsection \<open>Every fault changes its line\<close>

lemma splice_changes:
  assumes "starts_with (drop i line) old" "new \<noteq> old"
  shows "splice line i (length old) new \<noteq> line"
proof -
  from assms(1) obtain r where r: "drop i line = old @ r" by (auto simp: starts_with_iff)
  then have "drop (i + length old) line = r" by (metis add.commute append_eq_conv_conj drop_drop)
  then have "splice line i (length old) new = take i line @ new @ r" by (simp add: splice_def)
  moreover have "line = take i line @ old @ r" by (metis r append_take_drop_id)
  ultimately show ?thesis using assms(2) by (metis append_same_eq same_append_eq)
qed

lemma set_splice: "set (splice line i n new) \<subseteq> set line \<union> set new"
  by (auto simp: splice_def dest: in_set_takeD in_set_dropD)

lemma starts_later:
  "Suc i \<le> x \<Longrightarrow> starts_with (drop (x - Suc i) cs) t \<Longrightarrow> starts_with (drop (x - i) (c # cs)) t"
  by (metis Suc_diff_Suc Suc_le_lessD drop_Suc_Cons)

lemma occurrences_at: "x \<in> set (occurrences src i k s) \<Longrightarrow> i \<le> x \<and> starts_with (drop (x - i) s) src"
proof (induction src i k s rule: occurrences.induct)
  case (2 src i k c cs)
  then have "Suc i \<le> x" "starts_with (drop (x - Suc i) cs) src" by auto
  then show ?case by (simp add: starts_later)
next
  case (3 src i c cs)
  show ?case
  proof (cases "starts_with (c # cs) src \<and> x = i")
    case False
    with 3 have "Suc i \<le> x" "starts_with (drop (x - Suc i) cs) src" by (auto split: if_splits)
    then show ?thesis by (simp add: starts_later)
  qed auto
qed simp

lemma char_runs_at:
  "(x, t) \<in> set (char_runs p i s) \<Longrightarrow> i \<le> x \<and> starts_with (drop (x - i) s) t \<and> list_all p t"
proof (induction p i s rule: char_runs.induct)
  case (2 p i c cs)
  let ?t = "takeWhile p (c # cs)"
  have split: "c # cs = ?t @ dropWhile p (c # cs)" by simp
  consider "p c" "x = i" "t = ?t" | "p c" "(x, t) \<in> set (char_runs p (i + length ?t) (dropWhile p (c # cs)))"
    | "\<not> p c" "(x, t) \<in> set (char_runs p (Suc i) cs)"
    using "2.prems" by (auto simp: Let_def split: if_splits)
  then show ?case
  proof cases
    case 1
    have "starts_with (c # cs) ?t" by (metis split starts_with_iff)
    moreover have "list_all p ?t" by (auto simp: list_all_iff dest: set_takeWhileD)
    ultimately show ?thesis using 1 by simp
  next
    case 2
    from "2.IH"(1) [OF 2(1) refl 2(2)] have le: "i + length ?t \<le> x"
      and at: "starts_with (drop (x - (i + length ?t)) (dropWhile p (c # cs))) t" "list_all p t" by auto
    from le have "drop (x - i) (c # cs) = drop (x - (i + length ?t)) (dropWhile p (c # cs))"
      by (subst split) (simp only: drop_append, simp)
    with le at show ?thesis by simp
  next
    case 3
    from "2.IH"(2) [OF 3] have "Suc i \<le> x" "starts_with (drop (x - Suc i) cs) t" "list_all p t" by auto
    then show ?thesis by (simp add: starts_later)
  qed
qed simp

lemma set_nat_digits: "c \<in> set (nat_digits n) \<Longrightarrow> (of_char c :: nat) \<in> {48..57}"
proof (induction n rule: nat_digits.induct)
  case (1 n)
  have digit: "(of_char (char_of (48 + k) :: char) :: nat) \<in> {48..57}" if "k < 10" for k :: nat
    using that by (simp add: take_bit_nat_eq_self flip: take_bit_eq_mod)
  show ?case
  proof (cases "n < 10")
    case True
    then show ?thesis using digit [of n] "1.prems" by (auto simp: nat_digits.simps [of n])
  next
    case False
    with 1 digit [of "n mod 10"] show ?thesis by (auto simp: nat_digits.simps [of n])
  qed
qed

lemma nat_digits_no_newline: "CHR 0x0A \<notin> set (nat_digits n)"
  using set_nat_digits [of "CHR 0x0A" n] by auto

text \<open>A changed line that is still one line.\<close>

definition line_change :: "string \<Rightarrow> string \<Rightarrow> bool" where
  "line_change line new \<longleftrightarrow> new \<noteq> line \<and> (CHR 0x0A \<in> set new \<longrightarrow> CHR 0x0A \<in> set line)"

lemma line_change_splice:
  assumes "starts_with (drop i line) old" "new \<noteq> old" "CHR 0x0A \<notin> set new"
  shows "line_change line (splice line i (length old) new)"
  using splice_changes [OF assms(1,2)] set_splice [of line i "length old" new] assms(3)
  by (auto simp: line_change_def)

lemma comparison_faults_change:
  assumes "new \<in> set (comparison_faults line)"
  shows "line_change line new"
proof -
  from assms obtain src dst i where "(src, dst) \<in> set comparison_flip" and i: "i \<in> set (occurrences src 0 0 line)"
    and new: "new = splice line i (length src) dst" by (auto simp: comparison_faults_def flips_def)
  then have "dst \<noteq> src" "CHR 0x0A \<notin> set dst" by (auto simp: comparison_flip_def)
  with occurrences_at [OF i] new show ?thesis by (auto intro: line_change_splice)
qed

lemma boolean_faults_change:
  assumes "new \<in> set (boolean_faults line)"
  shows "line_change line new"
proof -
  from assms obtain token dst i where "(token, dst) \<in> set boolean_flip" and i: "(i, token) \<in> set (char_runs is_letter 0 line)"
    and new: "new = splice line i (length token) dst" by (auto simp: boolean_faults_def)
  then have "dst \<noteq> token" "CHR 0x0A \<notin> set dst" by (auto simp: boolean_flip_def)
  with char_runs_at [OF i] new show ?thesis by (auto intro: line_change_splice)
qed

lemma off_by_one_faults_change:
  assumes "new \<in> set (off_by_one_faults line)"
  shows "line_change line new"
proof -
  from assms obtain i ds where i: "(i, ds) \<in> set (char_runs is_digit 0 line)"
    and new: "new = splice line i (length ds) (show_nat (digits_value ds + 1))" by (auto simp: off_by_one_faults_def)
  have "show_nat (digits_value ds + 1) \<noteq> ds"
    by (metis digits_value_nat_digits show_nat_def add_eq_self_zero zero_neq_one)
  with char_runs_at [OF i] new nat_digits_no_newline show ?thesis
    by (auto simp: show_nat_def intro: line_change_splice)
qed

lemma line_faults_change:
  assumes "(op, new) \<in> set (line_faults line)"
  shows "line_change line new"
proof -
  have drop: "line_change line d" if "drop_statement line = Some d" "d \<noteq> line" for d
    using that by (auto simp: line_change_def drop_statement_def split: if_splits dest: set_takeWhileD)
  from assms show ?thesis
    by (auto simp: line_faults_def drop split: option.splits if_splits
        intro: comparison_faults_change boolean_faults_change off_by_one_faults_change)
qed

subsection \<open>The battery\<close>

definition mutant_id :: "mutation_operator \<Rightarrow> nat \<Rightarrow> nat \<Rightarrow> string" where
  "mutant_id op k n = operator_value op @ ''-'' @ show_nat k @ ''-'' @ show_nat n"

lemma before_dash: "CHR ''-'' \<notin> set x \<Longrightarrow> takeWhile (\<lambda>c. c \<noteq> CHR ''-'') (x @ CHR ''-'' # y) = x"
  by (induction x) auto

lemma mutant_id_inj:
  assumes "mutant_id op k n = mutant_id op' k' n'"
  shows "op = op' \<and> n = n'"
proof -
  have op: "op = op'" using assms by (cases op; cases op') (simp_all add: mutant_id_def)
  with assms have eq: "nat_digits k @ CHR ''-'' # nat_digits n = nat_digits k' @ CHR ''-'' # nat_digits n'"
    by (simp add: mutant_id_def show_nat_def)
  then have "nat_digits k = nat_digits k'" by (metis before_dash nat_digits_no_dash)
  with eq have "nat_digits n = nat_digits n'" by simp
  with op show ?thesis by (metis digits_value_nat_digits)
qed

text \<open>Where a mutant of a battery comes from.\<close>

definition made_from :: "function_under_test \<Rightarrow> (mutation_operator \<Rightarrow> nat) \<Rightarrow> mutant \<Rightarrow> bool" where
  "made_from fn cnt m \<longleftrightarrow> (\<exists>k n new. k < length (source_lines fn) \<and> n \<le> cnt (mu_operator m)
     \<and> (mu_operator m, new) \<in> set (line_faults (source_lines fn ! k))
     \<and> m = \<lparr>mu_id = mutant_id (mu_operator m) (k + 1) n, mu_operator = mu_operator m, mu_qualname = fu_qualname fn,
            mu_lineno = k + 1, mu_original = source_lines fn ! k, mu_mutated = replace_line (source_lines fn) k new\<rparr>)"

definition battery_ok :: "function_under_test \<Rightarrow> battery \<Rightarrow> bool" where
  "battery_ok fn = (\<lambda>(cnt, ms). distinct (map mu_id ms) \<and> (\<forall>m\<in>set ms. made_from fn cnt m))"

lemma made_from_later: "made_from fn cnt m \<Longrightarrow> (\<And>op. cnt op \<le> cnt' op) \<Longrightarrow> made_from fn cnt' m"
  unfolding made_from_def by (meson le_trans)

lemma emit_ok:
  assumes "battery_ok fn b" "k < length (source_lines fn)" "(op, new) \<in> set (line_faults (source_lines fn ! k))"
  shows "battery_ok fn (emit fn k (op, new) b)"
proof -
  obtain cnt ms where b: "b = (cnt, ms)" by (cases b)
  let ?n = "cnt op + 1"
  let ?m = "\<lparr>mu_id = mutant_id op (k + 1) ?n, mu_operator = op, mu_qualname = fu_qualname fn,
    mu_lineno = k + 1, mu_original = source_lines fn ! k, mu_mutated = replace_line (source_lines fn) k new\<rparr>"
  have e: "emit fn k (op, new) b = (cnt(op := ?n), ms @ [?m])"
    by (simp add: emit_def b Let_def mutant_id_def)
  have old: "made_from fn cnt m" if "m \<in> set ms" for m using assms(1) that by (auto simp: battery_ok_def b)
  have fresh: "mutant_id op (k + 1) ?n \<notin> mu_id ` set ms"
  proof
    assume "mutant_id op (k + 1) ?n \<in> mu_id ` set ms"
    then obtain m where m: "m \<in> set ms" "mutant_id op (k + 1) ?n = mu_id m" by auto
    from old [OF m(1)] obtain j i where "mu_id m = mutant_id (mu_operator m) j i" "i \<le> cnt (mu_operator m)"
      by (auto simp: made_from_def) (metis mutant.select_convs(1))
    with m(2) mutant_id_inj [of op "k + 1" ?n "mu_operator m" j i] show False by auto
  qed
  have "made_from fn (cnt(op := ?n)) ?m" using assms(2,3) by (auto simp: made_from_def)
  moreover have "made_from fn (cnt(op := ?n)) m" if "m \<in> set ms" for m
    using old [OF that] by (rule made_from_later) simp
  ultimately show ?thesis using assms(1) fresh unfolding e by (auto simp: battery_ok_def b)
qed

lemma mutate_line_ok:
  assumes "battery_ok fn b" "k < length (source_lines fn)"
  shows "battery_ok fn (mutate_line fn k b)"
  unfolding mutate_line_def using assms(1)
  by (rule fold_invariant [where Q = "\<lambda>f. f \<in> set (line_faults (source_lines fn ! k))", rotated])
    (auto intro: emit_ok [OF _ assms(2)])

lemma generate_ok: "\<exists>cnt. battery_ok fn (cnt, generate_mutants fn)"
proof -
  have "battery_ok fn (\<lambda>_. 0, [])" by (simp add: battery_ok_def)
  then have "battery_ok fn (fold (mutate_line fn) [0..<length (source_lines fn)] (\<lambda>_. 0, []))"
    by (rule fold_invariant [where Q = "\<lambda>k. k < length (source_lines fn)", rotated]) (auto intro: mutate_line_ok)
  then show ?thesis unfolding generate_mutants_def by (metis prod.collapse)
qed

lemma source_lines_replace:
  assumes "k < length (source_lines fn)" "line_change (source_lines fn ! k) new"
  shows "split_on (CHR 0x0A) (replace_line (source_lines fn) k new) = (source_lines fn)[k := new]"
proof -
  have plain: "CHR 0x0A \<notin> set l" if "l \<in> set (source_lines fn)" for l
    using that unfolding source_lines_def by (rule split_on_pieces)
  with assms have "CHR 0x0A \<notin> set new" by (auto simp: line_change_def)
  with plain have "\<forall>l\<in>set ((source_lines fn)[k := new]). CHR 0x0A \<notin> set l"
    using set_update_subset_insert by fastforce
  moreover have "(source_lines fn)[k := new] \<noteq> []" using assms(1) by auto
  ultimately show ?thesis unfolding replace_line_def by (rule split_on_join)
qed

text \<open>
  C34: The mutants of a source have distinct ids, and each is the source with exactly one line changed:
  the line it names, which it also quotes, in a way its operator proposes, and into one other line.
\<close>

theorem mutants_are_single_faults:
  assumes "m \<in> set (generate_mutants fn)"
  shows "distinct (map mu_id (generate_mutants fn)) \<and>
     (\<exists>k new. k < length (source_lines fn) \<and> mu_lineno m = k + 1 \<and> mu_original m = source_lines fn ! k
       \<and> (mu_operator m, new) \<in> set (line_faults (source_lines fn ! k)) \<and> new \<noteq> source_lines fn ! k
       \<and> source_lines (fn\<lparr>fu_source := mu_mutated m\<rparr>) = (source_lines fn)[k := new])"
proof (intro conjI)
  from generate_ok obtain cnt where ok: "battery_ok fn (cnt, generate_mutants fn)" ..
  then show "distinct (map mu_id (generate_mutants fn))" by (simp add: battery_ok_def)
  from ok assms have "made_from fn cnt m" by (auto simp: battery_ok_def)
  then obtain k new where k: "k < length (source_lines fn)" and new: "(mu_operator m, new) \<in> set (line_faults (source_lines fn ! k))"
    and m: "mu_lineno m = k + 1" "mu_original m = source_lines fn ! k" "mu_mutated m = replace_line (source_lines fn) k new"
    unfolding made_from_def by (metis mutant.select_convs)
  have "source_lines (fn\<lparr>fu_source := mu_mutated m\<rparr>) = (source_lines fn)[k := new]"
    using source_lines_replace [OF k line_faults_change [OF new]] m(3) by (simp add: source_lines_def [of "_\<lparr>fu_source := _\<rparr>"])
  with k new m line_faults_change [OF new]
  show "\<exists>k new. k < length (source_lines fn) \<and> mu_lineno m = k + 1 \<and> mu_original m = source_lines fn ! k
       \<and> (mu_operator m, new) \<in> set (line_faults (source_lines fn ! k)) \<and> new \<noteq> source_lines fn ! k
       \<and> source_lines (fn\<lparr>fu_source := mu_mutated m\<rparr>) = (source_lines fn)[k := new]"
    by (auto simp: line_change_def)
qed

subsection \<open>The campaign accounts for every selected mutant\<close>

lemma select_mutants_subset: "set (select_mutants sample ms limit seed) \<subseteq> set ms"
  by (auto simp: select_mutants_def Let_def split: option.splits if_splits)

lemma campaign_accounts:
  "length (mr_killed (run_mutation_campaign sample fn run limit seed)) + length (mr_survived (run_mutation_campaign sample fn run limit seed))
   + length (mr_errored (run_mutation_campaign sample fn run limit seed)) = mr_total (run_mutation_campaign sample fn run limit seed)"
proof -
  have "length (filter (\<lambda>m. run m = Failed) ms) + length (filter (\<lambda>m. run m = Passed) ms)
    + length (filter (\<lambda>m. run m \<noteq> Failed \<and> run m \<noteq> Passed) ms) = length ms" for ms :: "mutant list"
    by (induction ms) auto
  then show ?thesis by (simp add: run_mutation_campaign_def Let_def)
qed

subsection \<open>A sample function\<close>

lemma token_runs:
  "char_runs is_letter 0 ''return 1'' = [(0, ''return'')]"
  "char_runs is_digit 0 ''return 1'' = [(7, ''1'')]"
  "char_runs is_letter 0 ''return left_and_right'' = [(0, ''return''), (7, ''left''), (12, ''and''), (16, ''right'')]"
  by code_simp+

lemma sample_comparisons: "comparison_faults ''return 1'' = []"
proof -
  have "flips ''return 1'' ''=='' ''!='' = []" "flips ''return 1'' ''!='' ''=='' = []" "flips ''return 1'' ''<='' ''>'' = []"
    "flips ''return 1'' ''>='' ''<'' = []" "flips ''return 1'' ''<'' ''>='' = []" "flips ''return 1'' ''>'' ''<='' = []"
    by (simp_all add: flips_def)
  then show ?thesis by (simp add: comparison_faults_def comparison_flip_def)
qed

lemma sample_booleans: "boolean_faults ''return 1'' = []"
  by (simp add: boolean_faults_def boolean_flip_def token_runs)

lemma sample_literals: "off_by_one_faults ''return 1'' = [''return 2'']"
proof -
  have "show_nat (digits_value ''1'' + 1) = ''2''" by code_simp
  moreover have "\<not> glued '' ''" "\<not> glued []" by code_simp+
  ultimately show ?thesis unfolding off_by_one_faults_def token_runs filter.simps case_prod_conv
    by (simp add: splice_def)
qed

text \<open>
  The words of an identifier count as words, and the arrow of an annotation as a comparison.
\<close>

lemma identifiers_are_mutated: "boolean_faults ''return left_and_right'' = [''return left_or_right'']"
  unfolding boolean_faults_def token_runs by (simp add: boolean_flip_def splice_def)

lemma arrows_are_mutated: "''def f() -<= int:'' \<in> set (comparison_faults ''def f() -> int:'')"
proof -
  have "''def f() -<= int:'' \<in> set (flips ''def f() -> int:'' ''>'' ''<='')"
    by (simp add: flips_def part_of_longer_def splice_def)
  then show ?thesis by (auto simp: comparison_faults_def comparison_flip_def)
qed
lemma sample_drop: "drop_statement ''return 1'' = Some ''pass''" 
proof -
  have "ends word_code (Then (lit ''return'') Word_End) (None, map code_of ''return 1'') \<noteq> []"
    by code_simp
  then have "matches_start droppable_re ''return 1''"
    by (simp only: matches_start_def droppable_re_def alt.simps ends.simps(7) append_is_Nil_conv simp_thms)
  moreover have "lstrip ''return 1'' = ''return 1''" by (simp add: lstrip_def py_space_def)
  ultimately show ?thesis by (simp add: drop_statement_def py_space_def)
qed

definition sample_function :: function_under_test where
  "sample_function = \<lparr>fu_qualname = ''m.f'', fu_source = ''return 1''\<rparr>"

lemma sample_lines: "source_lines sample_function = [''return 1'']"
  by (simp add: source_lines_def sample_function_def)

lemma sample_mutants: "map mu_mutated (generate_mutants sample_function) = [''return 2'', ''pass'']"
proof -
  have "line_faults ''return 1'' = [(Off_By_One, ''return 2''), (Drop_Statement, ''pass'')]"
    by (simp add: line_faults_def sample_comparisons sample_literals sample_booleans sample_drop)
  then show ?thesis
    by (simp add: generate_mutants_def sample_lines mutate_line_def emit_def replace_line_def Let_def)
qed

lemma mutants_are_single_faults_witness:
  "distinct (map mu_id (generate_mutants sample_function)) \<and>
   (\<exists>m. m \<in> set (generate_mutants sample_function) \<and> mu_lineno m = 1 \<and> mu_mutated m = ''return 2''
     \<and> source_lines (sample_function\<lparr>fu_source := mu_mutated m\<rparr>) \<noteq> source_lines sample_function)"
proof -
  have "''return 2'' \<in> set (map mu_mutated (generate_mutants sample_function))"
    unfolding sample_mutants by simp
  then obtain m where m: "m \<in> set (generate_mutants sample_function)" "mu_mutated m = ''return 2''" by auto
  from mutants_are_single_faults [OF m(1)] obtain k new where
    d: "distinct (map mu_id (generate_mutants sample_function))" and k: "k < length (source_lines sample_function)"
    and "mu_lineno m = k + 1" "new \<noteq> source_lines sample_function ! k"
      "source_lines (sample_function\<lparr>fu_source := mu_mutated m\<rparr>) = (source_lines sample_function)[k := new]" by blast
  moreover have "k = 0" using k by (simp add: sample_lines)
  ultimately have "mu_lineno m = 1"
    "source_lines (sample_function\<lparr>fu_source := mu_mutated m\<rparr>) \<noteq> source_lines sample_function"
    by (auto simp: sample_lines)
  with d m show ?thesis by blast
qed

end
