(* ===== verification/Verify_Compose.thy ===== *)
theory Verify_Compose
  imports Verify_Mutants Proof_Witnesses
begin

section \<open>Verifier: composition of the components\<close>

text \<open>
  \<open>verifier/composition.py\<close>: which components run on a case, what each finds, and the union of the
  findings.  A \<open>ValueError\<close> is \<open>Inl\<close> of its message.  The text of a score, \<open>f"{score:.2f}"\<close>, is an argument.
\<close>

subsection \<open>Components and configurations\<close>

datatype verifier_component = On_Proof_Graph | On_Reachability | On_Mutation | On_Contract

fun component_value :: "verifier_component \<Rightarrow> string" where
  "component_value On_Proof_Graph = ''proof-graph''"
| "component_value On_Reachability = ''reachability''"
| "component_value On_Mutation = ''mutation''"
| "component_value On_Contract = ''contract''"

definition component_order :: "verifier_component list" where
  "component_order = [On_Proof_Graph, On_Reachability, On_Mutation, On_Contract]"

datatype component_status = Is_Flagged | Is_Cleared | Is_Skipped

fun status_value :: "component_status \<Rightarrow> string" where
  "status_value Is_Flagged = ''flagged''"
| "status_value Is_Cleared = ''cleared''"
| "status_value Is_Skipped = ''skipped''"

definition canonical :: "verifier_component set \<Rightarrow> verifier_component list" where
  "canonical cs = filter (\<lambda>c. c \<in> cs) component_order"

record verifier_config =
  vc_enabled :: "verifier_component set"
  vc_limit :: "int option"
  vc_seed :: int

definition make_config :: "verifier_component set \<Rightarrow> int option \<Rightarrow> int \<Rightarrow> (string, verifier_config) result" where
  "make_config cs limit seed =
     (case limit of Some k \<Rightarrow> if k < 0 then Inl ''VerifierConfig.mutation_limit must not be negative''
        else Inr \<lparr>vc_enabled = cs, vc_limit = limit, vc_seed = seed\<rparr>
      | None \<Rightarrow> Inr \<lparr>vc_enabled = cs, vc_limit = limit, vc_seed = seed\<rparr>)"

definition full_config :: "int option \<Rightarrow> int \<Rightarrow> (string, verifier_config) result" where
  "full_config limit seed = make_config (set component_order) limit seed"

definition only_config ::
  "verifier_component list \<Rightarrow> int option \<Rightarrow> int \<Rightarrow> (string, verifier_config) result" where
  "only_config cs limit seed = make_config (set cs) limit seed"

definition no_config :: "(string, verifier_config) result" where
  "no_config = make_config {} None 0"

definition config_components :: "verifier_config \<Rightarrow> verifier_component list" where
  "config_components cfg = canonical (vc_enabled cfg)"

definition config_label :: "verifier_config \<Rightarrow> string" where
  "config_label cfg = (if config_components cfg = [] then ''none''
     else join ''+'' (map component_value (config_components cfg)))"

definition is_enabled :: "verifier_config \<Rightarrow> verifier_component \<Rightarrow> bool" where
  "is_enabled cfg c \<longleftrightarrow> c \<in> vc_enabled cfg"

definition with_components :: "verifier_config \<Rightarrow> verifier_component list \<Rightarrow> (string, verifier_config) result" where
  "with_components cfg cs = make_config (vc_enabled cfg \<union> set cs) (vc_limit cfg) (vc_seed cfg)"

definition without_components :: "verifier_config \<Rightarrow> verifier_component list \<Rightarrow> (string, verifier_config) result" where
  "without_components cfg cs = make_config (vc_enabled cfg - set cs) (vc_limit cfg) (vc_seed cfg)"

text \<open>\<open>itertools.combinations\<close>.\<close>

fun combinations :: "nat \<Rightarrow> 'a list \<Rightarrow> 'a list list" where
  "combinations 0 xs = [[]]"
| "combinations (Suc n) [] = []"
| "combinations (Suc n) (x # xs) = map ((#) x) (combinations n xs) @ combinations (Suc n) xs"

definition component_subsets ::
  "verifier_component list \<Rightarrow> bool \<Rightarrow> int option \<Rightarrow> int \<Rightarrow> (string, verifier_config list) result" where
  "component_subsets cs include_empty limit seed =
     (let ordered = canonical (set cs) in
      rmap (\<lambda>s. make_config (set s) limit seed)
        (concat (map (\<lambda>k. combinations k ordered) [(if include_empty then 0 else 1)..<length ordered + 1])))"

subsection \<open>Cases and findings\<close>

record proof_input =
  pi_graph :: proof_graph
  pi_results :: "verifier_result list"
  pi_evidence :: "pg_evidence list"

record reachability_input =
  ri_regions :: "changed_region list"
  ri_executions :: "test_execution list"
  ri_claimed :: bool

record mutation_input =
  mi_function :: function_under_test
  mi_runner :: runner

record contract_input =
  ci_contract :: task_contract
  ci_evidence :: "pg_evidence list"

record verifier_case =
  vk_id :: string
  vk_description :: string
  vk_expected :: bool
  vk_proof :: "proof_input option"
  vk_reachability :: "reachability_input option"
  vk_mutation :: "mutation_input option"
  vk_contract :: "contract_input option"

definition make_case ::
  "string \<Rightarrow> string \<Rightarrow> bool \<Rightarrow> proof_input option \<Rightarrow> reachability_input option \<Rightarrow> mutation_input option
   \<Rightarrow> contract_input option \<Rightarrow> (string, verifier_case) result" where
  "make_case i d ex p r m k = (if strip i = [] then Inl ''VerifierCase.case_id must not be empty''
     else Inr \<lparr>vk_id = i, vk_description = d, vk_expected = ex, vk_proof = p, vk_reachability = r,
               vk_mutation = m, vk_contract = k\<rparr>)"

definition supplied_components :: "verifier_case \<Rightarrow> verifier_component list" where
  "supplied_components k = filter (\<lambda>c. case c of On_Proof_Graph \<Rightarrow> vk_proof k \<noteq> None
     | On_Reachability \<Rightarrow> vk_reachability k \<noteq> None | On_Mutation \<Rightarrow> vk_mutation k \<noteq> None
     | On_Contract \<Rightarrow> vk_contract k \<noteq> None) component_order"

record component_finding =
  cf_component :: verifier_component
  cf_status :: component_status
  cf_reason :: string

definition make_finding ::
  "verifier_component \<Rightarrow> component_status \<Rightarrow> string \<Rightarrow> (string, component_finding) result" where
  "make_finding c s r =
     (if s \<noteq> Is_Cleared \<and> strip r = []
      then Inl (component_value c @ '' '' @ status_value s @ '' finding needs a reason'')
      else Inr \<lparr>cf_component = c, cf_status = s, cf_reason = r\<rparr>)"

record composite_verdict =
  cm_case :: string
  cm_label :: string
  cm_findings :: "component_finding list"

definition cm_flagged :: "composite_verdict \<Rightarrow> bool" where
  "cm_flagged v = list_ex (\<lambda>f. cf_status f = Is_Flagged) (cm_findings v)"

definition with_status :: "component_status \<Rightarrow> composite_verdict \<Rightarrow> verifier_component list" where
  "with_status s v = map cf_component (filter (\<lambda>f. cf_status f = s) (cm_findings v))"

definition cm_ran :: "composite_verdict \<Rightarrow> bool" where
  "cm_ran v = list_ex (\<lambda>f. cf_status f \<noteq> Is_Skipped) (cm_findings v)"

definition cm_reasons :: "composite_verdict \<Rightarrow> string list" where
  "cm_reasons v = dedup (map cf_reason (filter (\<lambda>f. cf_status f = Is_Flagged) (cm_findings v)))"

subsection \<open>The components on a case\<close>

fun first_reason :: "string list \<Rightarrow> string \<Rightarrow> string" where
  "first_reason [] fallback = fallback"
| "first_reason (r # rs) fallback = (if strip r \<noteq> [] then r else first_reason rs fallback)"

definition run_proof_graph :: "verifier_case \<Rightarrow> (string, component_finding) result" where
  "run_proof_graph k =
     (case vk_proof k of
        None \<Rightarrow> make_finding On_Proof_Graph Is_Skipped ''no proof graph, results or evidence supplied for this case''
      | Some d \<Rightarrow> rbind (evaluate_proof (pi_graph d) (pi_results d) (pi_evidence d)) (\<lambda>a.
          if pa_false_green a
          then make_finding On_Proof_Graph Is_Flagged (first_reason (pa_reasons a) ''proof is incomplete'')
          else make_finding On_Proof_Graph Is_Cleared []))"

definition run_reachability :: "verifier_case \<Rightarrow> (string, component_finding) result" where
  "run_reachability k =
     (case vk_reachability k of
        None \<Rightarrow> make_finding On_Reachability Is_Skipped
                  ''no changed regions or per-test coverage supplied for this case''
      | Some d \<Rightarrow> rbind (assess_reachability (ri_regions d) (ri_executions d)) (\<lambda>report.
          if is_false_green report (ri_claimed d)
          then make_finding On_Reachability Is_Flagged (first_reason (re_reasons report) ''changed code is not reached'')
          else make_finding On_Reachability Is_Cleared []))"

definition run_mutation ::
  "sampler \<Rightarrow> (rat \<Rightarrow> string) \<Rightarrow> verifier_case \<Rightarrow> verifier_config \<Rightarrow> (string, component_finding) result" where
  "run_mutation sample fmt k cfg =
     (case vk_mutation k of
        None \<Rightarrow> make_finding On_Mutation Is_Skipped ''no function under test or mutant runner supplied for this case''
      | Some d \<Rightarrow>
          let report = run_mutation_campaign sample (mi_function d) (mi_runner d) (vc_limit cfg) (vc_seed cfg);
              n = length (mr_survived report)
          in if weak_tests report
             then make_finding On_Mutation Is_Flagged
               (show_nat n @ ''/'' @ show_nat (mr_total report) @ '' mutants survived (score ''
                @ fmt (mutation_score report) @ ''): '' @ join '', '' (map mu_id (take 3 (mr_survived report)))
                @ more_than 3 n)
             else if mr_total report = 0
             then make_finding On_Mutation Is_Skipped ''the mutation budget graded no mutants''
             else if mr_killed report = []
             then make_finding On_Mutation Is_Skipped
               (''no mutant could be graded: all '' @ show_nat (mr_total report) @ '' errored'')
             else make_finding On_Mutation Is_Cleared [])"

definition verdict_value :: "contract_verdict \<Rightarrow> string" where
  "verdict_value v = (case v of Satisfied \<Rightarrow> ''satisfied'' | Violated \<Rightarrow> ''violated''
     | Insufficient_Evidence \<Rightarrow> ''insufficient-evidence'')"

definition run_contract :: "verifier_case \<Rightarrow> (string, component_finding) result" where
  "run_contract k =
     (case vk_contract k of
        None \<Rightarrow> make_finding On_Contract Is_Skipped ''no task contract or evidence supplied for this case''
      | Some d \<Rightarrow>
          let review = review_contract (ci_contract d) (ci_evidence d) in
          if rv_verdict review \<noteq> Satisfied
          then make_finding On_Contract Is_Flagged
            (first_reason (rv_reasons review) (''contract review returned '' @ verdict_value (rv_verdict review)))
          else make_finding On_Contract Is_Cleared [])"

fun run_component ::
  "sampler \<Rightarrow> (rat \<Rightarrow> string) \<Rightarrow> verifier_case \<Rightarrow> verifier_config \<Rightarrow> verifier_component
   \<Rightarrow> (string, component_finding) result" where
  "run_component sample fmt k cfg On_Proof_Graph = run_proof_graph k"
| "run_component sample fmt k cfg On_Reachability = run_reachability k"
| "run_component sample fmt k cfg On_Mutation = run_mutation sample fmt k cfg"
| "run_component sample fmt k cfg On_Contract = run_contract k"

definition run_components ::
  "sampler \<Rightarrow> (rat \<Rightarrow> string) \<Rightarrow> verifier_case \<Rightarrow> verifier_config \<Rightarrow> (string, composite_verdict) result" where
  "run_components sample fmt k cfg =
     rbind (rmap (run_component sample fmt k cfg) (config_components cfg)) (\<lambda>fs.
       Inr \<lparr>cm_case = vk_id k, cm_label = config_label cfg, cm_findings = fs\<rparr>)"

subsection \<open>Findings\<close>

lemma strip_nonblank: "c \<in> set s \<Longrightarrow> \<not> py_space c \<Longrightarrow> strip s \<noteq> []"
proof -
  assume c: "c \<in> set s" "\<not> py_space c"
  then have "c \<in> set (dropWhile py_space s)" by (metis UnE set_append set_takeWhileD takeWhile_dropWhile_id)
  with c(2) show ?thesis by (auto simp: strip_def dropWhile_eq_Nil_conv)
qed

lemma first_reason_nonblank: "strip fallback \<noteq> [] \<Longrightarrow> strip (first_reason rs fallback) \<noteq> []"
  by (induction rs) auto

lemma make_finding_Inr:
  "make_finding c s r = Inr f \<longleftrightarrow> (s = Is_Cleared \<or> strip r \<noteq> []) \<and> f = \<lparr>cf_component = c, cf_status = s, cf_reason = r\<rparr>"
  by (auto simp: make_finding_def)

lemmas component_run_defs = run_proof_graph_def run_reachability_def run_mutation_def run_contract_def

lemma run_component_names: "run_component sample fmt k cfg c = Inr f \<Longrightarrow> cf_component f = c"
  by (cases c) (auto simp: component_run_defs Let_def make_finding_Inr result_simps split: option.splits if_splits)

text \<open>The reason a finding needs is always there: only the checks themselves raise.\<close>

lemma run_component_total:
  assumes "run_component sample fmt k cfg c = Inl e"
  shows "(\<exists>d. vk_proof k = Some d \<and> c = On_Proof_Graph \<and> evaluate_proof (pi_graph d) (pi_results d) (pi_evidence d) = Inl e)
    \<or> (\<exists>d. vk_reachability k = Some d \<and> c = On_Reachability \<and> assess_reachability (ri_regions d) (ri_executions d) = Inl e)"
proof -
  have said: "strip s \<noteq> []" if "CHR ''n'' \<in> set s" for s
    using that by (rule strip_nonblank) (simp add: py_space_def)
  have "make_finding c s r \<noteq> Inl e" if "strip r \<noteq> [] \<or> s = Is_Cleared" for c s r
    using that by (auto simp: make_finding_def)
  note fine = this [OF disjI1 [OF said]] this [OF disjI2 [OF refl]] this [OF disjI1 [OF first_reason_nonblank [OF said]]]
  show ?thesis
  proof (cases c)
    case On_Proof_Graph
    with assms show ?thesis
      by (cases "vk_proof k") (auto simp: run_proof_graph_def fine rbind_eq_Inl split: if_splits)
  next
    case On_Reachability
    with assms show ?thesis
      by (cases "vk_reachability k") (auto simp: run_reachability_def fine rbind_eq_Inl split: if_splits)
  next
    case On_Mutation
    with assms have False by (cases "vk_mutation k") (auto simp: run_mutation_def Let_def fine split: if_splits)
    then show ?thesis ..
  next
    case On_Contract
    with assms have False by (cases "vk_contract k") (auto simp: run_contract_def Let_def fine split: if_splits)
    then show ?thesis ..
  qed
qed

lemma run_components_findings:
  assumes "run_components sample fmt k cfg = Inr v"
  shows "list_all2 (\<lambda>c f. run_component sample fmt k cfg c = Inr f) (config_components cfg) (cm_findings v)"
  using assms by (auto simp: run_components_def result_simps rmap_Inr_iff)

lemma run_components_map:
  assumes "run_components sample fmt k cfg = Inr v"
  shows "cm_findings v = map (\<lambda>c. projr (run_component sample fmt k cfg c)) (config_components cfg)"
  using run_components_findings [OF assms] by (induction rule: list_all2_induct) auto

lemma run_component_knobs:
  assumes "vc_limit cfg = vc_limit cfg'" "vc_seed cfg = vc_seed cfg'"
  shows "run_component sample fmt k cfg c = run_component sample fmt k cfg' c"
  by (cases c) (simp_all only: run_component.simps run_mutation_def assms)

text \<open>Union: more components keep every finding of fewer, so no catch is lost.\<close>

lemma more_components_keep_findings:
  assumes "run_components sample fmt k cfg = Inr v" "run_components sample fmt k cfg' = Inr v'"
    and "vc_enabled cfg \<subseteq> vc_enabled cfg'" "vc_limit cfg = vc_limit cfg'" "vc_seed cfg = vc_seed cfg'"
  shows "cm_findings v = filter (\<lambda>f. cf_component f \<in> vc_enabled cfg) (cm_findings v')"
    and "cm_flagged v \<Longrightarrow> cm_flagged v'"
proof -
  let ?g = "\<lambda>c. projr (run_component sample fmt k cfg' c)"
  have name: "cf_component (?g c) = c" if "c \<in> set (config_components cfg')" for c
    using run_components_findings [OF assms(2)] that
    by (auto simp: list_all2_conv_all_nth in_set_conv_nth) (metis run_component_names sum.sel(2))
  have "config_components cfg = filter (\<lambda>c. c \<in> vc_enabled cfg) (config_components cfg')"
    using assms(3) by (auto simp: config_components_def canonical_def intro: filter_cong)
  then have "cm_findings v = map ?g (filter (\<lambda>c. c \<in> vc_enabled cfg) (config_components cfg'))"
    using run_components_map [OF assms(1)] run_component_knobs [OF assms(4,5)] by simp
  also have "\<dots> = filter (\<lambda>f. cf_component f \<in> vc_enabled cfg) (cm_findings v')"
    unfolding run_components_map [OF assms(2)] filter_map comp_def
    by (rule arg_cong [where f = "map ?g"], rule filter_cong) (simp_all add: name)
  finally show eq: "cm_findings v = filter (\<lambda>f. cf_component f \<in> vc_enabled cfg) (cm_findings v')" .
  show "cm_flagged v \<Longrightarrow> cm_flagged v'" by (auto simp: cm_flagged_def eq list_ex_iff)
qed

subsection \<open>What a cleared case has\<close>

lemma cleared_proof_graph:
  assumes "run_proof_graph k = Inr f" "cf_status f = Is_Cleared"
  shows "\<exists>d. vk_proof k = Some d \<and> complete_proof (pi_graph d) (pi_results d) (pi_evidence d)"
proof -
  from assms obtain d a where d: "vk_proof k = Some d"
    and a: "evaluate_proof (pi_graph d) (pi_results d) (pi_evidence d) = Inr a" "\<not> pa_false_green a"
    by (auto simp: run_proof_graph_def make_finding_Inr result_simps split: option.splits if_splits)
  with evaluate_proof_spec [where g = "pi_graph d" and rs = "pi_results d" and es = "pi_evidence d"] show ?thesis by auto
qed

lemma cleared_reachability:
  assumes "run_reachability k = Inr f" "cf_status f = Is_Cleared"
  shows "\<exists>d report. vk_reachability k = Some d \<and> assess_reachability (ri_regions d) (ri_executions d) = Inr report
    \<and> (ri_claimed d \<longrightarrow> re_reached report)"
  using assms
  by (auto simp: run_reachability_def make_finding_Inr result_simps is_false_green_def split: option.splits if_splits)

lemma cleared_mutation:
  assumes "run_mutation sample fmt k cfg = Inr f" "cf_status f = Is_Cleared"
  shows "\<exists>d. vk_mutation k = Some d
    \<and> (\<forall>m\<in>set (select_mutants sample (generate_mutants (mi_function d)) (vc_limit cfg) (vc_seed cfg)). mi_runner d m \<noteq> Passed)
    \<and> (\<exists>m\<in>set (select_mutants sample (generate_mutants (mi_function d)) (vc_limit cfg) (vc_seed cfg)). mi_runner d m = Failed)"
  using assms
  by (auto simp: run_mutation_def make_finding_Inr Let_def weak_tests_def run_mutation_campaign_def filter_empty_conv
      split: option.splits if_splits)

lemma cleared_contract:
  assumes "run_contract k = Inr f" "cf_status f = Is_Cleared"
  shows "\<exists>d. vk_contract k = Some d \<and> rv_verdict (review_contract (ci_contract d) (ci_evidence d)) = Satisfied"
  using assms by (auto simp: run_contract_def make_finding_Inr Let_def split: option.splits if_splits)

lemma enabled_component_ran:
  assumes "run_components sample fmt k cfg = Inr v" "c \<in> vc_enabled cfg" "\<forall>f\<in>set (cm_findings v). cf_status f = Is_Cleared"
  shows "\<exists>f. run_component sample fmt k cfg c = Inr f \<and> cf_status f = Is_Cleared"
proof -
  have "c \<in> set (config_components cfg)"
    using assms(2) by (cases c) (auto simp: config_components_def canonical_def component_order_def)
  with run_components_findings [OF assms(1)] assms(3) show ?thesis
    by (auto simp: list_all2_conv_all_nth in_set_conv_nth) (metis nth_mem)
qed

text \<open>
  C14: When all components run on a case and each of them clears it, the case is verified: its proof
  graph is a complete proof; if it is claimed verified, a test that passed ran every changed
  line, or the change touches documentation only; no mutant of the budget survived its tests and
  at least one was killed; every claim of a required behaviour or preserved invariant has passing
  evidence of a verifier, and none of an invariant or a regression guard has failing evidence.
\<close>

theorem cleared_case_is_verified:
  assumes "run_components sample fmt k cfg = Inr v" "vc_enabled cfg = UNIV"
    and "\<forall>f\<in>set (cm_findings v). cf_status f = Is_Cleared"
  shows "\<exists>p r m c. vk_proof k = Some p \<and> vk_reachability k = Some r \<and> vk_mutation k = Some m \<and> vk_contract k = Some c
    \<and> complete_proof (pi_graph p) (pi_results p) (pi_evidence p)
    \<and> (ri_claimed r \<longrightarrow>
         (if \<forall>g\<in>set (ri_regions r). rg_lines g = {||}
          then ri_regions r \<noteq> [] \<and> (\<forall>g\<in>set (ri_regions r). documentation_file (rg_file g))
          else \<forall>g\<in>set (ri_regions r). \<forall>n. n |\<in>| rg_lines g \<longrightarrow> run_by_passing (ri_executions r) (rg_file g) n))
    \<and> mi_runner m ` set (select_mutants sample (generate_mutants (mi_function m)) (vc_limit cfg) (vc_seed cfg))
        \<subseteq> - {Passed}
    \<and> Failed \<in> mi_runner m ` set (select_mutants sample (generate_mutants (mi_function m)) (vc_limit cfg) (vc_seed cfg))
    \<and> (\<forall>b\<in>set (tc_behaviors (ci_contract c)) \<union> set (tc_invariants (ci_contract c)).
         set (cl_claims b) \<subseteq> set (passed_claims (ci_evidence c)))
    \<and> (\<forall>b\<in>set (tc_invariants (ci_contract c)) \<union> set (tc_regressions (ci_contract c)).
         set (cl_claims b) \<inter> set (failed_claims (ci_evidence c)) = {})"
proof -
  note ran = enabled_component_ran [OF assms(1) _ assms(3)]
  from ran [of On_Proof_Graph] assms(2) cleared_proof_graph obtain p where p: "vk_proof k = Some p"
    "complete_proof (pi_graph p) (pi_results p) (pi_evidence p)" by fastforce
  from ran [of On_Reachability] assms(2) cleared_reachability [of k] obtain r report where r: "vk_reachability k = Some r"
    and report: "assess_reachability (ri_regions r) (ri_executions r) = Inr report" "ri_claimed r \<longrightarrow> re_reached report"
    by fastforce
  from ran [of On_Mutation] assms(2) cleared_mutation obtain m where m: "vk_mutation k = Some m"
    "\<forall>x\<in>set (select_mutants sample (generate_mutants (mi_function m)) (vc_limit cfg) (vc_seed cfg)). mi_runner m x \<noteq> Passed"
    "\<exists>x\<in>set (select_mutants sample (generate_mutants (mi_function m)) (vc_limit cfg) (vc_seed cfg)). mi_runner m x = Failed"
    by fastforce
  from ran [of On_Contract] assms(2) cleared_contract obtain c where c: "vk_contract k = Some c"
    "rv_verdict (review_contract (ci_contract c) (ci_evidence c)) = Satisfied" by fastforce
  from c(2) have claims: "(\<forall>b\<in>set (tc_behaviors (ci_contract c)) \<union> set (tc_invariants (ci_contract c)).
         set (cl_claims b) \<subseteq> set (passed_claims (ci_evidence c)))
    \<and> (\<forall>b\<in>set (tc_invariants (ci_contract c)) \<union> set (tc_regressions (ci_contract c)).
         set (cl_claims b) \<inter> set (failed_claims (ci_evidence c)) = {})"
    by (simp add: review_verdict split: if_splits)
  from report assess_reachability_spec(2) [OF report(1)] have reached: "ri_claimed r \<longrightarrow>
         (if \<forall>g\<in>set (ri_regions r). rg_lines g = {||}
          then ri_regions r \<noteq> [] \<and> (\<forall>g\<in>set (ri_regions r). documentation_file (rg_file g))
          else \<forall>g\<in>set (ri_regions r). \<forall>n. n |\<in>| rg_lines g \<longrightarrow> run_by_passing (ri_executions r) (rg_file g) n)"
    by simp
  from m(2,3) have mutants:
    "mi_runner m ` set (select_mutants sample (generate_mutants (mi_function m)) (vc_limit cfg) (vc_seed cfg)) \<subseteq> - {Passed}"
    "Failed \<in> mi_runner m ` set (select_mutants sample (generate_mutants (mi_function m)) (vc_limit cfg) (vc_seed cfg))"
    by auto (metis image_eqI)
  show ?thesis using p r m(1) c(1) reached mutants claims by blast
qed

subsection \<open>A case that every component clears\<close>

definition sample_case :: verifier_case where
  "sample_case = \<lparr>vk_id = ''case'', vk_description = ''a genuine fix'', vk_expected = False,
     vk_proof = Some \<lparr>pi_graph = sample_graph, pi_results = planned_results sample_graph,
                      pi_evidence = planned_evidence sample_graph\<rparr>,
     vk_reachability = Some \<lparr>ri_regions = [\<lparr>rg_file = ''src/a.py'', rg_lines = {|3|}\<rparr>],
       ri_executions = [\<lparr>te_id = ''t'', te_outcome = Passed, te_covered = [''src/a.py'' \<mapsto> {3, 4}]\<rparr>], ri_claimed = True\<rparr>,
     vk_mutation = Some \<lparr>mi_function = sample_function, mi_runner = (\<lambda>m. Failed)\<rparr>,
     vk_contract = Some \<lparr>ci_contract = \<lparr>tc_id = ''k'', tc_behaviors = [\<lparr>cl_id = ''b'', cl_description = [], cl_claims = [''c1'']\<rparr>],
         tc_invariants = [], tc_regressions = []\<rparr>,
       ci_evidence = [\<lparr>ev_id = ''e'', ev_verifier = ''v'', ev_outcome = Passed, artifact_digest = ''d'', ev_claims = [''c1''],
         ev_source = From_Verifier\<rparr>]\<rparr>\<rparr>"

definition sample_config :: verifier_config where
  "sample_config = \<lparr>vc_enabled = UNIV, vc_limit = None, vc_seed = 0\<rparr>"

lemma sample_clears: "run_component sample fmt sample_case sample_config c = make_finding c Is_Cleared []"
proof (cases c)
  case On_Proof_Graph
  from planned_evaluates [OF sample_synthesized] obtain a where
    a: "evaluate_proof sample_graph (planned_results sample_graph) (planned_evidence sample_graph) = Inr a"
    "pa_complete a" by blast
  with evaluate_proof_spec [where g = sample_graph and rs = "planned_results sample_graph" and es = "planned_evidence sample_graph"]
  have "\<not> pa_false_green a" by auto
  with a(1) On_Proof_Graph show ?thesis by (simp add: run_proof_graph_def sample_case_def)
next
  case On_Reachability
  let ?rs = "[\<lparr>rg_file = ''src/a.py'', rg_lines = {|3|}\<rparr>]"
  let ?xs = "[\<lparr>te_id = ''t'', te_outcome = Passed, te_covered = [''src/a.py'' \<mapsto> {3, 4}]\<rparr>]"
  obtain report where r: "assess_reachability ?rs ?xs = Inr report"
    by (cases "assess_reachability ?rs ?xs") (simp_all add: assess_reachability_def Let_def case_prod_beta)
  with assess_reachability_spec(2) [OF r] have "re_reached report" by (simp add: run_by_passing_def get_or_def)
  with r On_Reachability show ?thesis by (simp add: run_reachability_def sample_case_def is_false_green_def)
next
  case On_Mutation
  have "length (generate_mutants sample_function) = 2" using arg_cong [OF sample_mutants, of length] by simp
  then have "generate_mutants sample_function \<noteq> []" by auto
  with On_Mutation show ?thesis
    by (simp add: run_mutation_def sample_case_def sample_config_def run_mutation_campaign_def select_mutants_def
        weak_tests_def Let_def)
next
  case On_Contract
  then show ?thesis
    by (simp add: run_contract_def sample_case_def review_verdict passed_claims_def failed_claims_def Let_def)
qed

lemma sample_shape: "config_components sample_config = component_order" "vk_id sample_case = ''case''"
  by (simp_all add: config_components_def canonical_def sample_config_def sample_case_def)

lemma cleared_case_is_verified_witness:
  "\<exists>v. run_components (\<lambda>s ms n. take n ms) (\<lambda>x. ''1.00'') sample_case sample_config = Inr v
   \<and> with_status Is_Cleared v = component_order
   \<and> complete_proof sample_graph (planned_results sample_graph) (planned_evidence sample_graph)"
proof -
  let ?v = "\<lparr>cm_case = ''case'', cm_label = config_label sample_config, cm_findings =
    map (\<lambda>c. \<lparr>cf_component = c, cf_status = Is_Cleared, cf_reason = []\<rparr>) component_order\<rparr>"
  have run: "run_components (\<lambda>s ms n. take n ms) (\<lambda>x. ''1.00'') sample_case sample_config = Inr ?v"
    unfolding run_components_def sample_shape sample_clears
    by (simp add: make_finding_def component_order_def)
  have "vc_enabled sample_config = UNIV" by (simp add: sample_config_def)
  moreover have "\<forall>f\<in>set (cm_findings ?v). cf_status f = Is_Cleared" by simp
  ultimately have "complete_proof sample_graph (planned_results sample_graph) (planned_evidence sample_graph)"
    using cleared_case_is_verified [OF run] by (auto simp: sample_case_def)
  with run show ?thesis by (auto simp: with_status_def comp_def)
qed

end
