(* ===== verification/Spec2Isabelle.thy ===== *)
theory Spec2Isabelle
  imports Durable_Witnesses Proof_Witnesses Working_Witnesses Enforce_Witnesses Learn_Witnesses
    Broker_Types Loop_Witnesses Delivery_Witnesses Run_Witnesses Verify_Compose
begin

text \<open>
  Verification of oh-no-my-claudecode, a local tool that gives coding agents a memory, a loop with
  gates, proofs of completion, and guarded delivery.  Paths below are under
  \<open>src/src/oh_no_my_claudecode/\<close>.

  \<^bold>\<open>The program.\<close>  The command line (\<open>cli.py\<close>) and the core service call components that each keep
  their own state on disk.  The ones that decide something are modelled here.
  \<^item> \<open>durable_runtime/\<close> runs graphs of nodes as event-sourced logs with leases and approvals.
  \<^item> \<open>runtime/\<close> describes a run as a graph of nodes and executes it on that log: layer by layer, with
    handlers, retries, approvals and replay of persisted results.
  \<^item> \<open>proof_graph/\<close> plans what a task has to show, judges results against the plan and writes receipts.
  \<^item> \<open>working_context/\<close> keeps what a session works on and compiles it, with memories whose evidence
    is current, into a bounded text for the agent; \<open>hooks.py\<close> is its boundary to the agent.
  \<^item> \<open>tool_broker/\<close> decides whether an action is allowed, by policies and signed capability tokens, and
    logs each decision; \<open>enforcement/\<close> is the reference monitor over it: one component calls the
    other through \<open>decide\<close>.
  \<^item> \<open>learning/\<close> lets a lesson enter memory after sanitizing, measured promotion and a second
    look at activation; the governed service keeps an evidence-based registry of what was promoted.
  \<^item> \<open>loop/\<close> calls an agent again and again until an external verifier passes, with gates on scope,
    verification files, budget, time and repetition, and with checkpoints to resume from.
  \<^item> \<open>refinery/\<close> works a queue of pull requests, \<open>land/\<close> one pull request until it merges; \<open>claim/\<close> keeps
    agents off each other's paths; \<open>memstage/\<close> holds memories back for approval.

  \<^bold>\<open>How Python is modelled.\<close>  A function that may raise returns a sum, \<open>Inl\<close> the exception; a dataclass
  or pydantic model is a record, an enum a datatype, a dict an association list in insertion order, an
  int an \<open>int\<close> or \<open>nat\<close>.  State is passed explicitly; an operation under a file lock is one
  function on the file.  What a component asks of its surroundings (SHA-256, HMAC, a JSON codec,
  paths, git, GitHub, agent, verifier, clock, sleep) is an argument, a record of functions or a function
  on a world of any type; what a theorem needs of it is a hypothesis of the theorem.  Strings are
  lists of code points up to 255 (in the sanitizer: of any code point); a character beyond, such as the dash
  in texts the loop prints, is written as its nearest ASCII one.  A float is an exact rational, with
  infinities and NaN where the code tells them apart; overflow and rounding are not modelled.

  \<^bold>\<open>The theories.\<close>
  \<^item> Prelude: \<open>Py_Base\<close> (errors, dictionaries, strings, instants), \<open>Py_Glob\<close> (fnmatch, splitlines, repr),
    \<open>Json_Canonical\<close> (\<open>json.dumps\<close> with sorted keys and its reader), and two contracts as locales:
    \<open>hash_chain\<close> in \<open>Hash_Chain\<close> (an append-only log of numbered, chained records; interpreted on the
    event log of the runtime in \<open>Durable_Inv\<close> and on the audit log of the broker in \<open>Broker_Chain\<close>), and
    \<open>guarded_session\<close>, \<open>op_session\<close>, \<open>op_history\<close> in \<open>Py_Base\<close> (an invariant and an order kept over
    sequences of operations; interpreted on the registry in \<open>Learn_Governed\<close>, the merge queue in
    \<open>Refinery_Props\<close>, the ledger in \<open>Claim_Props\<close>).
  \<^item> \<open>durable_runtime/models.py\<close> and \<open>store.py\<close>: \<open>Durable_Model\<close> has the values, the transition tables,
    hashing and replay of one event (\<open>RuntimeStore._apply\<close>); \<open>Durable_Store\<close> the critical sections
    on one run directory; \<open>Durable_Api\<close> the public methods on the store and the crash between event and
    checkpoint (the crash inside an event line is \<open>torn_line\<close> in \<open>Durable_Props\<close>).  \<open>Durable_Inv\<close>, \<open>Durable_Sections\<close>, \<open>Durable_Reach\<close> show that every reachable directory is
    well formed; \<open>Durable_Runs\<close> abstracts a directory to one snapshot, \<open>Durable_Life\<close> interprets the locale
    \<open>life_cycle\<close> on both transition tables, \<open>Durable_Calls\<close> treats idempotency keys.
    \<open>Durable_Props\<close> and \<open>Durable_Leases\<close> hold the properties; \<open>Durable_Retries\<close> shows what a call does to
    keys and attempts.
  \<^item> \<open>runtime/contracts.py\<close> and \<open>fanout.py\<close>: \<open>Run_Graph\<close> (values, checks, Kahn's algorithm, layers), \<open>Run_Order\<close>
    (acceptance is acyclicity, layers respect dependencies), \<open>Run_Codec\<close> and \<open>Run_Trip\<close> (documents and
    their round trip).  \<open>runtime/native_backend.py\<close>: \<open>Run_Backend\<close> (\<open>NativeExecutionBackend.execute\<close> and
    what it calls, as actions on the store and the files beside it).  The locales \<open>quiet_order\<close>,
    \<open>writing_order\<close> and \<open>backend_order\<close> of \<open>Run_Steps\<close> say once that what every call, write and handler
    respects, an execution respects; they are interpreted on later stores, kept files and kept results
    (\<open>Run_Steps\<close>), on the calls seen by watched handlers (\<open>Run_Ready\<close>) and on room for retries (\<open>Run_Ends\<close>).
    \<open>Run_Results\<close> follows the list of results.
  \<^item> \<open>proof_graph/\<close>: \<open>Proof_Model\<close> (\<open>models.py\<close>, \<open>evaluator.py\<close>), \<open>Proof_Sound\<close> (the evaluator meets its
    declarative specification), \<open>Proof_Plan\<close> (\<open>synthesizer.py\<close>), \<open>Proof_Receipt\<close> (\<open>receipt.py\<close>).
  \<^item> \<open>working_context/\<close>: \<open>Working_Model\<close> (\<open>models.py\<close>, \<open>store.py\<close>, \<open>utils/text.py\<close>), \<open>Working_Engine\<close>
    (\<open>engine.py\<close>), \<open>Working_Ops\<close> (\<open>hooks.py\<close> and histories).  \<open>Working_Scan\<close>, \<open>Working_Render\<close>,
    \<open>Working_Packet\<close> and \<open>Working_Compile\<close> carry the invariants of one compilation, \<open>Working_Props\<close> the properties.
  \<^item> \<open>tool_broker/\<close>: \<open>Broker_Model\<close> (\<open>models.py\<close>), \<open>Broker_Token\<close> (\<open>tokens.py\<close>, \<open>_serialization.py\<close>),
    \<open>Broker_Audit\<close> (\<open>redaction.py\<close>, \<open>audit.py\<close>), \<open>Broker_Decide\<close> (\<open>broker.py\<close>); \<open>Broker_Types\<close> shows what a
    constructor guarantees, \<open>Broker_Trip\<close> the round trip of tokens, \<open>Broker_Secrets\<close> that redaction removes
    secrets, \<open>Broker_Props\<close> the properties of decisions, tokens and the log.
  \<^item> \<open>enforcement/\<close>: \<open>Enforce_Model\<close> (\<open>taint.py\<close>, \<open>monitor.py\<close>), \<open>Enforce_Props\<close> (complete mediation).
  \<^item> \<open>learning/\<close>: \<open>Learn_Scan\<close> (\<open>sanitize.py\<close>, its regular expressions and Python's search), \<open>Learn_Search\<close>
    (the search against the language of a pattern), \<open>Learn_Model\<close> (\<open>models.py\<close> and the life cycle of
    \<open>experiment/contracts.py\<close>), \<open>Learn_Gate\<close> (\<open>gate.py\<close>, \<open>activation.py\<close>, \<open>ingest.py\<close>), \<open>Learn_Registry\<close>
    (\<open>prediction.py\<close>, \<open>candidate_registry.py\<close>, \<open>promotion.py\<close>); \<open>Learn_Props\<close>, \<open>Learn_Activation\<close> and
    \<open>Learn_Governed\<close> hold the properties.
  \<^item> \<open>loop/\<close>: \<open>Loop_Model\<close> (\<open>models.py\<close>, \<open>trajectory_router.py\<close>, \<open>checkpoint.py\<close> and the pure part of
    \<open>engine.py\<close>), \<open>Loop_Engine\<close> (\<open>run_loop\<close>, gate by gate), \<open>Loop_Props\<close>.
  \<^item> Delivery: \<open>Refinery_Queue\<close> (\<open>refinery/\<close>), \<open>Land_Model\<close> (\<open>land/\<close>), \<open>Claim_Ledger\<close> and \<open>Claim_Lock\<close>
    (\<open>claim/__init__.py\<close>: the ledger under its lock, and the lock as a step relation over processes
    that may die), the first three with a \<open>_Props\<close>; \<open>Memstage\<close> (\<open>memstage/queue.py\<close>).
  \<^item> \<open>verifier/\<close>: \<open>Verify_Checks\<close> (\<open>test_integrity.py\<close> with its patterns, \<open>reachability.py\<close>,
    \<open>contract_review.py\<close>, \<open>adjudication.py\<close>, and what each concludes), \<open>Verify_Mutants\<close> (\<open>mutation.py\<close>),
    \<open>Verify_Compose\<close> (\<open>composition.py\<close>: the components on a case and the union of their findings).
  \<^item> \<open>_Witnesses\<close> theories apply every property with hypotheses to a concrete state; \<open>Durable_Samples\<close> holds the
    concrete stores and runs that two of them share.

  \<^bold>\<open>What is shown.\<close>  The runtime: it refines a machine over snapshots, also under crashes between event
  and checkpoint; logs only grow, commands with a key take effect once, a store it wrote loads unless a
  line was torn, and then only that run is stuck; at most one live lease per node.
  Run graphs: a specification is accepted exactly when it is an acyclic graph, handlers run only when their
  node is ready and approved, an execution returns, and a completed run has a checked result for every node.  A
  specification reads back, with its integer timeouts and cost limits as floats, which changes its digest.
  The proof graph: the evaluator accepts exactly complete proofs, a bug-fix plan shows red then green,
  every plan can be completed, receipts read back.  The working context: packets pin goal and
  constraints within the budget and deliver only memories of the store that are promoted and current, over all histories of
  operations and hooks.  The broker: decisions are exact, tokens genuine, decisions logged in a
  tamper-evident log without secrets; the monitor mediates completely.  Learning: an active lesson is
  clean, scoped and measured, an ingest writes only what was just promoted, governed promotions stand on
  complete manifests.  The verifier: a claimed fix is complete exactly on intact tests and full evidence,
  whatever the agent or a model says, a case that every component clears is verified, a mutant changes
  one line.  The loop: it converges only on evidence of its own run, is bounded, remembers
  its contracts and goes on after a stop.  Delivery: nothing merges that was not just read green or
  landable, claims and the lock exclude, the audit trail of staging is complete.

  \<^bold>\<open>Bounds and fuel.\<close>  The loop is a recursion over the range of its iterations.  The refinery's \<open>process\<close> recurses on \<open>max_n\<close>, the source's own bound.  The polling
  loop of land is a \<open>partial_function\<close>, its return a theorem under a clock that never runs backwards.  The
  retries of a node are one too; they return when the keys of further retries are fresh, as on a new run.  A
  repetition in a pattern of the sanitizer has as many rounds as characters are left, which is enough as
  a round without progress is not repeated.

  \<^bold>\<open>Not modelled.\<close>  Parsing of arguments and printing; SQL and the memory store behind it; providers of
  language models and embeddings; ranking by floating-point scores; parsing of source code; extraction
  of memories from git; statistics of experiments; orchestration of external processes and of parallel
  agents; reports and pages; integrations; the LangGraph backend.  Of the modelled components: the descriptors, modes and
  \<open>fsync\<close> of files, \<open>to_dict\<close> functions that only print, the text diff of staging, the thread pools and
  trace events of the native backend, the shadow model advice
  the loop attaches to a receipt, and the default runners that start a program.
\<close>

end
